(* ===== verification/Prelude.thy ===== *)
theory Prelude
  imports Main
begin

text \<open>
  Shared vocabulary of the StoryEngine development.

  \<^item> Names for the program's primitive types: identifiers and texts are \<open>string\<close>, points in
    time are epoch milliseconds (\<open>Date.getTime()\<close>), JavaScript's \<open>null\<close> and \<open>undefined\<close> are
    \<open>None\<close>.
  \<^item> The few functions of the JavaScript standard library the modelled code calls on strings
    (\<open>trim\<close>, \<open>toLowerCase\<close>, \<open>toUpperCase\<close>), over the ASCII code units.
  \<^item> A database table as the list of its rows, in the order a query returns them. A \<open>where\<close>
    clause is a predicate on rows, a \<open>data\<close> clause a function on rows. Theorems quantify over
    every list of rows, hence over every order the database may choose.
  \<^item> The collection \<open>db_simps\<close> (how the row operations act), which the component theories use as
    \<open>simp add: db_simps\<close>.
\<close>

section \<open>Primitive types\<close>

type_synonym ident = string
type_synonym millis = int

named_theorems db_simps "how the row operations act on a table"

section \<open>Strings\<close>

text \<open>
  \<open>String.prototype.trim\<close> removes the white space and line terminators of ECMAScript from both
  ends; of the one-byte code units these are tab, line feed, vertical tab, form feed, carriage
  return, space and no-break space.
\<close>

definition js_ws :: "char \<Rightarrow> bool" where
  "js_ws c \<longleftrightarrow> c \<in> {CHR 0x09, CHR 0x0A, CHR 0x0B, CHR 0x0C, CHR 0x0D, CHR 0x20, CHR 0xA0}"

definition trim :: "string \<Rightarrow> string" where
  "trim s = rev (dropWhile js_ws (rev (dropWhile js_ws s)))"

text \<open>Truthiness of a string and of an optional string: the empty string is falsy.\<close>

definition truthy :: "string option \<Rightarrow> bool" where
  "truthy x = (case x of None \<Rightarrow> False | Some s \<Rightarrow> s \<noteq> [])"

lemma truthy_simps [simp]:
  "\<not> truthy None"
  "truthy (Some s) \<longleftrightarrow> s \<noteq> []"
  by (simp_all add: truthy_def)

lemma truthyE: "truthy x \<Longrightarrow> (\<And>s. x = Some s \<Longrightarrow> s \<noteq> [] \<Longrightarrow> P) \<Longrightarrow> P"
  by (cases x) auto

lemma trim_Nil [simp]: "trim [] = []"
  by (simp add: trim_def)

lemma trim_no_trailing: "trim s \<noteq> [] \<Longrightarrow> \<not> js_ws (last (trim s))"
  unfolding trim_def by (simp add: last_rev hd_dropWhile)

lemma dropWhile_fixed: "(xs = [] \<or> \<not> P (hd xs)) \<Longrightarrow> dropWhile P xs = xs"
  by (cases xs) auto

lemma dropWhile_rev_hd:
  assumes "xs = [] \<or> \<not> P (hd xs)" and "dropWhile P (rev xs) \<noteq> []"
  shows "hd (rev (dropWhile P (rev xs))) = hd xs"
proof -
  have "rev xs = takeWhile P (rev xs) @ dropWhile P (rev xs)"
    by simp
  then have "xs = rev (dropWhile P (rev xs)) @ rev (takeWhile P (rev xs))"
    by (metis rev_append rev_rev_ident)
  with assms(2) show ?thesis
    by (metis hd_append2 rev_is_Nil_conv)
qed

lemma trim_idem [simp]: "trim (trim s) = trim s"
proof (cases "trim s = []")
  case True
  then show ?thesis by simp
next
  case False
  let ?a = "dropWhile js_ws s"
  have a: "?a = [] \<or> \<not> js_ws (hd ?a)"
    using hd_dropWhile by blast
  from False have ne: "dropWhile js_ws (rev ?a) \<noteq> []"
    by (simp add: trim_def)
  then have "hd (trim s) = hd ?a"
    unfolding trim_def using dropWhile_rev_hd [of ?a js_ws] a by simp
  with a ne have "\<not> js_ws (hd (trim s))"
    by (metis dropWhile.simps(1) rev.simps(1))
  then have lead: "dropWhile js_ws (trim s) = trim s"
    by (simp add: dropWhile_fixed)
  have "dropWhile js_ws (rev (trim s)) = rev (trim s)"
    unfolding trim_def by (simp add: dropWhile_fixed hd_dropWhile ne)
  with lead show ?thesis
    unfolding trim_def [of "trim s"] by simp
qed

text \<open>A number in a template literal.\<close>

fun digits :: "nat \<Rightarrow> string" where
  "digits n = (if n < 10 then [char_of (48 + n)] else digits (n div 10) @ [char_of (48 + n mod 10)])"

definition show_int :: "int \<Rightarrow> string" where
  "show_int i = (if i < 0 then ''-'' @ digits (nat (- i)) else digits (nat i))"

section \<open>Tables as lists of rows\<close>

text \<open>\<open>updateMany\<close>: every row that satisfies the \<open>where\<close> clause is rewritten.\<close>

definition update_many :: "('r \<Rightarrow> bool) \<Rightarrow> ('r \<Rightarrow> 'r) \<Rightarrow> 'r list \<Rightarrow> 'r list" where
  "update_many p f rows = map (\<lambda>r. if p r then f r else r) rows"

text \<open>\<open>deleteMany\<close> and \<open>count\<close>.\<close>

definition delete_many :: "('r \<Rightarrow> bool) \<Rightarrow> 'r list \<Rightarrow> 'r list" where
  "delete_many p rows = filter (\<lambda>r. \<not> p r) rows"

definition count_rows :: "('r \<Rightarrow> bool) \<Rightarrow> 'r list \<Rightarrow> nat" where
  "count_rows p rows = length (filter p rows)"

text \<open>
  \<open>upsert\<close> on a unique key: the row that has the key is rewritten, otherwise the new row is
  added.
\<close>

definition upsert :: "('r \<Rightarrow> bool) \<Rightarrow> 'r \<Rightarrow> ('r \<Rightarrow> 'r) \<Rightarrow> 'r list \<Rightarrow> 'r list" where
  "upsert p new f rows =
     (if list_ex p rows then update_many p f rows else rows @ [new])"

lemma update_many_simps [simp, db_simps]:
  "update_many p f [] = []"
  "update_many p f (r # rows) = (if p r then f r else r) # update_many p f rows"
  "update_many p f (rows @ rows') = update_many p f rows @ update_many p f rows'"
  by (simp_all add: update_many_def)

lemma length_update_many [simp, db_simps]: "length (update_many p f rows) = length rows"
  by (simp add: update_many_def)

lemma set_update_many:
  "set (update_many p f rows) = f ` {r \<in> set rows. p r} \<union> {r \<in> set rows. \<not> p r}"
  by (auto simp: update_many_def image_iff)

lemma in_update_manyE:
  assumes "r \<in> set (update_many p f rows)"
  obtains s where "s \<in> set rows" "p s" "r = f s" | "r \<in> set rows" "\<not> p r"
  using assms by (auto simp: set_update_many)

lemma update_many_none: "(\<And>r. r \<in> set rows \<Longrightarrow> \<not> p r) \<Longrightarrow> update_many p f rows = rows"
  by (induction rows) auto

lemma map_update_many_inv:
  "(\<And>r. p r \<Longrightarrow> g (f r) = g r) \<Longrightarrow> map g (update_many p f rows) = map g rows"
  by (induction rows) auto

lemma delete_many_simps [simp, db_simps]:
  "delete_many p [] = []"
  "delete_many p (r # rows) = (if p r then delete_many p rows else r # delete_many p rows)"
  "delete_many p (rows @ rows') = delete_many p rows @ delete_many p rows'"
  by (simp_all add: delete_many_def)

lemma set_delete_many [simp, db_simps]: "set (delete_many p rows) = {r \<in> set rows. \<not> p r}"
  by (auto simp: delete_many_def)

lemma find_filter: "List.find p rows = (case filter p rows of [] \<Rightarrow> None | r # _ \<Rightarrow> Some r)"
  by (induction rows) auto

lemma find_SomeD: "List.find p rows = Some r \<Longrightarrow> r \<in> set rows \<and> p r"
  by (induction rows) (auto split: if_splits)

lemma find_ex: "(\<exists>r. List.find p rows = Some r) \<longleftrightarrow> (\<exists>r \<in> set rows. p r)"
  by (induction rows) auto

lemma find_append:
  "List.find p (rows @ rows') =
     (case List.find p rows of None \<Rightarrow> List.find p rows' | Some r \<Rightarrow> Some r)"
  by (induction rows) auto

lemma find_update_many:
  "(\<And>r. p r \<Longrightarrow> q (f r) = q r) \<Longrightarrow>
     List.find q (update_many p f rows) =
       map_option (\<lambda>r. if p r then f r else r) (List.find q rows)"
  by (induction rows) auto

lemma find_delete_many_disjoint:
  "(\<And>r. q r \<Longrightarrow> \<not> p r) \<Longrightarrow> List.find q (delete_many p rows) = List.find q rows"
  by (induction rows) auto

lemma filter_update_many_other:
  "(\<And>r. p r \<Longrightarrow> \<not> q r \<and> \<not> q (f r)) \<Longrightarrow> filter q (update_many p f rows) = filter q rows"
  by (induction rows) auto

lemma set_upsert:
  "set (upsert p new f rows) =
     (if \<exists>r \<in> set rows. p r then f ` {r \<in> set rows. p r} \<union> {r \<in> set rows. \<not> p r}
      else insert new (set rows))"
  by (auto simp: upsert_def list_ex_iff set_update_many)

lemma filter_upsert_other:
  "(\<And>r. p r \<Longrightarrow> \<not> q r \<and> \<not> q (f r)) \<Longrightarrow> \<not> q new \<Longrightarrow> filter q (upsert p new f rows) = filter q rows"
  by (simp add: upsert_def filter_update_many_other)

lemma upsert_idem:
  assumes "\<And>r. p r \<Longrightarrow> p (f r)" "\<And>r. f (f r) = f r" "p new" "f new = new"
  shows "upsert p new f (upsert p new f rows) = upsert p new f rows"
proof (cases "list_ex p rows")
  case True
  then have "list_ex p (update_many p f rows)"
    using assms(1) by (auto simp: list_ex_iff set_update_many)
  moreover have "update_many p f (update_many p f rows) = update_many p f rows"
    using assms(1,2) by (simp add: update_many_def)
  ultimately show ?thesis using True by (simp add: upsert_def)
next
  case False
  then have "update_many p f rows = rows"
    by (intro update_many_none) (auto simp: list_ex_iff)
  with False assms(3,4) show ?thesis by (simp add: upsert_def)
qed

lemma find_upsert_other:
  "(\<And>r. p r \<Longrightarrow> \<not> q r \<and> \<not> q (f r)) \<Longrightarrow> \<not> q new \<Longrightarrow>
     List.find q (upsert p new f rows) = List.find q rows"
  by (simp add: find_filter filter_upsert_other)

lemma find_upsert_same:
  assumes "\<And>r. p r \<Longrightarrow> p (f r)" and "p new"
  shows "List.find p (upsert p new f rows) =
           Some (case List.find p rows of None \<Rightarrow> new | Some r \<Rightarrow> f r)"
proof (cases "List.find p rows")
  case None
  then have "\<not> list_ex p rows"
    by (simp add: find_None_iff list_ex_iff)
  with None assms(2) show ?thesis
    by (simp add: upsert_def find_append)
next
  case (Some r)
  then have "list_ex p rows"
    using find_SomeD [OF Some] by (auto simp: list_ex_iff)
  with Some assms(1) show ?thesis
    using find_SomeD [OF Some] by (simp add: upsert_def find_update_many)
qed

lemma filter_update_many_on:
  "(\<And>r. r \<in> set rows \<Longrightarrow> p r \<Longrightarrow> \<not> q r \<and> \<not> q (f r)) \<Longrightarrow>
     filter q (update_many p f rows) = filter q rows"
  by (induction rows) auto

text \<open>A key is unique in a table when no two rows share it.\<close>

definition unique_key :: "('r \<Rightarrow> 'k) \<Rightarrow> 'r list \<Rightarrow> bool" where
  "unique_key k rows = distinct (map k rows)"

lemma unique_key_find:
  "unique_key k rows \<Longrightarrow> r \<in> set rows \<Longrightarrow> List.find (\<lambda>s. k s = k r) rows = Some r"
  by (induction rows) (auto simp: unique_key_def)

lemma unique_key_update_many:
  "(\<And>r. p r \<Longrightarrow> k (f r) = k r) \<Longrightarrow> unique_key k (update_many p f rows) = unique_key k rows"
  by (simp add: unique_key_def map_update_many_inv)

lemma unique_key_delete_many: "unique_key k rows \<Longrightarrow> unique_key k (delete_many p rows)"
  by (simp add: unique_key_def delete_many_def distinct_map_filter)

lemma delete_after_update:
  "(\<And>r. p r \<Longrightarrow> q (f r) = q r) \<Longrightarrow> delete_many q (update_many p f rows) = update_many p f (delete_many q rows)"
  by (induction rows) auto

lemma delete_delete: "delete_many q (delete_many p rows) = delete_many (\<lambda>r. p r \<or> q r) rows"
  by (induction rows) auto

lemma update_update_same:
  "(\<And>r. p r \<Longrightarrow> q (f r) = q r) \<Longrightarrow> (\<And>r. f (f r) = f r) \<Longrightarrow>
     update_many q f (update_many p f rows) = update_many (\<lambda>r. p r \<or> q r) f rows"
  by (induction rows) auto

lemma update_many_cong:
  "(\<And>r. r \<in> set rows \<Longrightarrow> p r = q r) \<Longrightarrow> update_many p f rows = update_many q f rows"
  by (induction rows) auto

lemma delete_many_cong:
  "(\<And>r. r \<in> set rows \<Longrightarrow> p r = q r) \<Longrightarrow> delete_many p rows = delete_many q rows"
  by (induction rows) auto

lemma unique_key_eq: "unique_key k rows \<Longrightarrow> r \<in> set rows \<Longrightarrow> s \<in> set rows \<Longrightarrow> k r = k s \<Longrightarrow> r = s"
  by (auto simp: unique_key_def distinct_map dest: inj_onD)

lemma reassigned:
  assumes "\<And>r. own (f r) = p" and "\<And>r. k (f r) = k r" and "p \<noteq> s"
  shows "map k (filter (\<lambda>r. own r = p) (update_many (\<lambda>r. own r = s) f rows)) =
      map k (filter (\<lambda>r. own r \<in> {p, s}) rows)"
    and "list_all (\<lambda>r. own r \<noteq> s) (update_many (\<lambda>r. own r = s) f rows)"
  using assms by (induction rows) auto

text \<open>A column in an update: \<open>undefined\<close> keeps the old value.\<close>

definition keep :: "'a option \<Rightarrow> 'a \<Rightarrow> 'a" where
  "keep u old = (case u of None \<Rightarrow> old | Some new \<Rightarrow> new)"

lemma keep_simps [simp]: "keep None x = x" "keep (Some y) x = y"
  by (simp_all add: keep_def)

section \<open>JavaScript sets\<close>

text \<open>A \<open>Set\<close> is the list of its elements in insertion order; \<open>add\<close> of an element that is in it changes
  nothing.\<close>

definition js_add :: "'a \<Rightarrow> 'a list \<Rightarrow> 'a list" where
  "js_add x xs = (if x \<in> set xs then xs else xs @ [x])"

lemma set_js_add [simp]: "set (js_add x xs) = insert x (set xs)"
  by (auto simp: js_add_def)

lemma distinct_js_add [simp]: "distinct (js_add x xs) = distinct xs"
  by (auto simp: js_add_def)

lemma set_fold_js_add [simp]: "set (fold js_add ys xs) = set ys \<union> set xs"
  by (induction ys arbitrary: xs) auto

lemma distinct_fold_js_add [simp]: "distinct (fold js_add ys xs) = distinct xs"
  by (induction ys arbitrary: xs) auto

section \<open>Answers and results\<close>

text \<open>An HTTP answer: its status and the code in its body.\<close>

datatype response = Response nat string

text \<open>\<open>Inl e\<close> is a thrown error, \<open>Inr x\<close> a normal return.\<close>

type_synonym ('e, 'a) res = "'e + 'a"

definition isOk :: "('e, 'a) res \<Rightarrow> bool" where
  "isOk r = (case r of Inl _ \<Rightarrow> False | Inr _ \<Rightarrow> True)"

lemma isOk_simps [simp]: "\<not> isOk (Inl e)" "isOk (Inr x)"
  by (simp_all add: isOk_def)

end
