(* ===== verification/Js_Map.thy ===== *)
theory Js_Map
  imports Prelude
begin

text \<open>
  JavaScript's \<open>Map\<close>, which iterates its entries in insertion order: \<open>set\<close> on a present key
  keeps the key's place, \<open>set\<close> on an absent key appends, \<open>delete\<close> removes. The caches, the
  de-duplication windows and the circuit breaker of the program are built on it.

  The locale \<open>ordered_map\<close> states what those clients rely on; the association list in insertion
  order is its instance. The clients' shared facts (moving a key to the end, dropping the oldest
  key, pruning) are proved once in the locale.
\<close>

section \<open>The map as an association list in insertion order\<close>

type_synonym ('k, 'v) jsmap = "('k \<times> 'v) list"

definition jm_get :: "('k, 'v) jsmap \<Rightarrow> 'k \<Rightarrow> 'v option" where
  "jm_get m k = map_of m k"

fun jm_set :: "'k \<Rightarrow> 'v \<Rightarrow> ('k, 'v) jsmap \<Rightarrow> ('k, 'v) jsmap" where
  "jm_set k v [] = [(k, v)]"
| "jm_set k v ((k', v') # m) = (if k' = k then (k, v) # m else (k', v') # jm_set k v m)"

definition jm_delete :: "'k \<Rightarrow> ('k, 'v) jsmap \<Rightarrow> ('k, 'v) jsmap" where
  "jm_delete k m = filter (\<lambda>e. fst e \<noteq> k) m"

definition jm_keys :: "('k, 'v) jsmap \<Rightarrow> 'k list" where
  "jm_keys m = map fst m"

definition jm_wf :: "('k, 'v) jsmap \<Rightarrow> bool" where
  "jm_wf m = distinct (map fst m)"

section \<open>The interface\<close>

locale ordered_map =
  fixes empty :: 'm
    and get :: "'m \<Rightarrow> 'k \<Rightarrow> 'v option"
    and put :: "'k \<Rightarrow> 'v \<Rightarrow> 'm \<Rightarrow> 'm"
    and del :: "'k \<Rightarrow> 'm \<Rightarrow> 'm"
    and keys :: "'m \<Rightarrow> 'k list"
    and wf :: "'m \<Rightarrow> bool"
  assumes wf_empty: "wf empty"
    and wf_put: "wf m \<Longrightarrow> wf (put k v m)"
    and wf_del: "wf m \<Longrightarrow> wf (del k m)"
    and keys_empty: "keys empty = []"
    and wf_distinct: "wf m \<Longrightarrow> distinct (keys m)"
    and get_put: "wf m \<Longrightarrow> get (put k v m) k' = (if k' = k then Some v else get m k')"
    and get_del: "wf m \<Longrightarrow> get (del k m) k' = (if k' = k then None else get m k')"
    and get_None: "wf m \<Longrightarrow> get m k = None \<longleftrightarrow> k \<notin> set (keys m)"
    and keys_put_new: "wf m \<Longrightarrow> get m k = None \<Longrightarrow> keys (put k v m) = keys m @ [k]"
    and keys_put_old: "wf m \<Longrightarrow> get m k \<noteq> None \<Longrightarrow> keys (put k v m) = keys m"
    and keys_del: "wf m \<Longrightarrow> keys (del k m) = filter (\<lambda>k'. k' \<noteq> k) (keys m)"
begin

text \<open>Deleting a key and setting it again moves it to the most recently used end.\<close>

lemma keys_move: "wf m \<Longrightarrow> keys (put k v (del k m)) = filter (\<lambda>k'. k' \<noteq> k) (keys m) @ [k]"
  by (simp add: keys_put_new wf_del get_del keys_del)

lemma get_move: "wf m \<Longrightarrow> get (put k v (del k m)) k' = (if k' = k then Some v else get m k')"
  by (simp add: get_put get_del wf_del)

lemma wf_move: "wf m \<Longrightarrow> wf (put k v (del k m))"
  by (simp add: wf_put wf_del)

lemma length_move_present:
  assumes "wf m" and "get m k \<noteq> None"
  shows "length (keys (put k v (del k m))) = length (keys m)"
proof -
  from assms have "k \<in> set (keys m)" and "distinct (keys m)"
    using get_None wf_distinct by auto
  then have "length (filter (\<lambda>k'. k' \<noteq> k) (keys m)) = length (keys m) - 1"
    by (simp add: distinct_length_filter Collect_neg_eq Diff_eq [symmetric] card_Diff_singleton
        distinct_card Int_commute)
  with \<open>k \<in> set (keys m)\<close> show ?thesis
    by (cases "keys m") (simp_all add: keys_move assms(1))
qed

lemma length_del_le: "wf m \<Longrightarrow> length (keys (del k m)) \<le> length (keys m)"
  by (simp add: keys_del)

lemma length_put_le: "wf m \<Longrightarrow> length (keys (put k v m)) \<le> Suc (length (keys m))"
  by (cases "get m k") (simp_all add: keys_put_new keys_put_old)

text \<open>Deleting the oldest key drops exactly the head of the key list.\<close>

lemma keys_del_oldest:
  assumes "wf m" and "keys m = k # ks"
  shows "keys (del k m) = ks"
proof -
  from assms have "k \<notin> set ks" using wf_distinct [OF assms(1)] by simp
  then show ?thesis by (simp add: keys_del assms) (induction ks; auto)
qed

end

section \<open>The instance\<close>

lemma jm_set_keys:
  "map fst (jm_set k v m) = (if k \<in> fst ` set m then map fst m else map fst m @ [k])"
  by (induction m) (auto simp: image_iff Bex_def)

lemma jm_get_set: "jm_get (jm_set k v m) k' = (if k' = k then Some v else jm_get m k')"
  by (induction m) (auto simp: jm_get_def)

lemma jm_get_delete: "jm_get (jm_delete k m) k' = (if k' = k then None else jm_get m k')"
  by (induction m) (auto simp: jm_get_def jm_delete_def)

lemma jm_keys_delete: "jm_keys (jm_delete k m) = filter (\<lambda>k'. k' \<noteq> k) (jm_keys m)"
  by (induction m) (auto simp: jm_keys_def jm_delete_def)

interpretation jm: ordered_map "[]" jm_get jm_set jm_delete jm_keys jm_wf
proof (unfold_locales, goal_cases)
  case (2 m k v)
  then show ?case by (auto simp: jm_wf_def jm_set_keys)
next
  case (3 m k)
  then show ?case by (auto simp: jm_wf_def jm_delete_def distinct_map_filter)
next
  case (8 m k)
  then show ?case by (auto simp: jm_get_def jm_keys_def map_of_eq_None_iff)
next
  case (9 m k v)
  then show ?case by (auto simp: jm_get_def jm_keys_def jm_set_keys map_of_eq_None_iff)
next
  case (10 m k v)
  then show ?case
    by (auto simp: jm_get_def jm_keys_def jm_set_keys map_of_eq_None_iff image_iff)
qed (simp_all add: jm_wf_def jm_keys_def [symmetric] jm_get_set jm_get_delete jm_keys_delete,
     simp_all add: jm_wf_def jm_keys_def)

lemmas jm_laws =
  jm.wf_put jm.wf_del jm.get_put jm.get_del jm.keys_move jm.get_move jm.wf_move

lemma jm_length_keys [simp]: "length (jm_keys m) = length m"
  by (simp add: jm_keys_def)

lemma jm_delete_head: "jm_wf (e # es) \<Longrightarrow> jm_delete (fst e) (e # es) = es"
proof -
  assume "jm_wf (e # es)"
  then have "\<forall>x \<in> set es. fst x \<noteq> fst e"
    unfolding jm_wf_def by (metis distinct.simps(2) image_eqI list.set_map list.simps(9))
  then show ?thesis by (simp add: jm_delete_def)
qed

lemma jm_set_new: "jm_get m k = None \<Longrightarrow> jm_set k v m = m @ [(k, v)]"
  by (induction m) (auto simp: jm_get_def split: if_splits)

lemma jm_get_Nil [simp]: "jm_get [] k = None"
  by (simp add: jm_get_def)

lemma jm_wf_Nil [simp]: "jm_wf []"
  by (simp add: jm_wf_def)

section \<open>Pruning by a predicate on the stored values\<close>

text \<open>
  The loop \<open>for (const [key, v] of m.entries()) if (P v) m.delete(key)\<close> of the expiring maps:
  deleting while iterating visits every entry once, in order.
\<close>

fun jm_prune_loop :: "('v \<Rightarrow> bool) \<Rightarrow> ('k, 'v) jsmap \<Rightarrow> ('k, 'v) jsmap \<Rightarrow> ('k, 'v) jsmap" where
  "jm_prune_loop P [] m = m"
| "jm_prune_loop P ((k, v) # es) m = jm_prune_loop P es (if P v then jm_delete k m else m)"

definition jm_prune :: "('v \<Rightarrow> bool) \<Rightarrow> ('k, 'v) jsmap \<Rightarrow> ('k, 'v) jsmap" where
  "jm_prune P m = jm_prune_loop P m m"

lemma jm_prune_loop_filter:
  "jm_prune_loop P es m = filter (\<lambda>e. \<forall>(k, v) \<in> set es. P v \<longrightarrow> k \<noteq> fst e) m"
proof (induction P es m rule: jm_prune_loop.induct)
  case (1 P m)
  then show ?case by simp
next
  case (2 P k v es m)
  then show ?case
    by (auto simp: jm_delete_def intro!: filter_cong)
qed

lemma jm_prune_eq: "jm_wf m \<Longrightarrow> jm_prune P m = filter (\<lambda>e. \<not> P (snd e)) m"
  unfolding jm_prune_def jm_prune_loop_filter
proof (rule filter_cong [OF refl])
  fix e assume wf: "jm_wf m" and e: "e \<in> set m"
  have same: "v = snd e" if "(k, v) \<in> set m" "k = fst e" for k v
    using wf e that
    by (intro eq_key_imp_eq_value [of m "fst e"]) (simp_all add: jm_wf_def)
  show "(\<forall>(k, v) \<in> set m. P v \<longrightarrow> k \<noteq> fst e) = (\<not> P (snd e))"
  proof
    assume "\<forall>(k, v) \<in> set m. P v \<longrightarrow> k \<noteq> fst e"
    from bspec [OF this e] show "\<not> P (snd e)" by (cases e) simp
  qed (auto dest: same)
qed

lemma jm_prune_wf: "jm_wf m \<Longrightarrow> jm_wf (jm_prune P m)"
  by (simp add: jm_prune_eq) (simp add: jm_wf_def distinct_map_filter)

lemma jm_get_filter:
  "jm_wf m \<Longrightarrow> jm_get (filter (\<lambda>e. Q (snd e)) m) k =
     (case jm_get m k of None \<Rightarrow> None | Some v \<Rightarrow> if Q v then Some v else None)"
  unfolding jm_get_def jm_wf_def
proof (induction m)
  case Nil
  then show ?case by simp
next
  case (Cons e m)
  then have IH: "map_of (filter (\<lambda>e. Q (snd e)) m) k =
      (case map_of m k of None \<Rightarrow> None | Some v \<Rightarrow> if Q v then Some v else None)"
    and new: "map_of m (fst e) = None"
    by (auto simp: map_of_eq_None_iff)
  then show ?case by (cases e) auto
qed

lemma jm_get_prune:
  "jm_wf m \<Longrightarrow> jm_get (jm_prune P m) k =
     (case jm_get m k of None \<Rightarrow> None | Some v \<Rightarrow> if P v then None else Some v)"
  using jm_get_filter [of m "\<lambda>v. \<not> P v" k]
  by (simp add: jm_prune_eq split: option.splits)

lemma jm_prune_length: "length (jm_prune P m) \<le> length m"
  by (simp add: jm_prune_def jm_prune_loop_filter)

end
