(* ===== verification/Response_Cache.thy ===== *)
theory Response_Cache
  imports Js_Map
begin

text \<open>
  The response cache of \<open>src/lib/response-cache.ts\<close>: a map with a time to live and eviction of
  the least recently used entry. \<open>getOrSet\<close> awaits its loader, so other calls run between its
  two halves; the model splits it there (\<open>rc_begin\<close>, \<open>rc_finish\<close>) and the step relation
  \<open>rc_step\<close> lets every operation run between them, including the purge timer.

  Shown: in every reachable state keys are distinct and the size is bounded; a hit returns a value
  loaded less than the time to live ago; a stored value is served until it expires; eviction keeps
  the most recently used keys.
\<close>

section \<open>State and operations\<close>

record 'v CacheEntry =
  ce_value :: 'v
  expiresAt :: millis

record 'v ResponseCache =
  entries :: "(string, 'v CacheEntry) jsmap"
  ttlMs :: int
  maxSize :: int

text \<open>\<open>new ResponseCache(ttlMs, maxSize)\<close>.\<close>

definition rc_new :: "int \<Rightarrow> int option \<Rightarrow> 'v ResponseCache" where
  "rc_new ttl mx = \<lparr>entries = [], ttlMs = ttl, maxSize = (case mx of None \<Rightarrow> 500 | Some n \<Rightarrow> n)\<rparr>"

text \<open>\<open>evictIfNeeded\<close>: delete the first key while the map is too large; stop on an empty map.\<close>

function rc_evict :: "int \<Rightarrow> (string, 'v CacheEntry) jsmap \<Rightarrow> (string, 'v CacheEntry) jsmap" where
  "rc_evict mx m =
     (if int (length m) > mx
      then (case jm_keys m of [] \<Rightarrow> m | firstKey # _ \<Rightarrow> rc_evict mx (jm_delete firstKey m))
      else m)"
  by pat_completeness auto
termination
proof (relation "measure (\<lambda>(mx, m). length m)", goal_cases)
  case (2 mx m k ks)
  then obtain v es where "m = (k, v) # es"
    by (cases m) (auto simp: jm_keys_def)
  then have "length (jm_delete k m) < length m"
    by (simp add: jm_delete_def le_imp_less_Suc)
  then show ?case by simp
qed simp

declare rc_evict.simps [simp del]

text \<open>
  The first half of \<open>getOrSet\<close>, up to \<open>await loader()\<close>: a fresh entry is moved to the end and
  returned; a stale one is deleted and the loader is called (\<open>None\<close>).
\<close>

definition rc_begin ::
  "millis \<Rightarrow> string \<Rightarrow> 'v ResponseCache \<Rightarrow> 'v option \<times> 'v ResponseCache" where
  "rc_begin now key c =
     (case jm_get (entries c) key of
        Some cached \<Rightarrow>
          if expiresAt cached > now
          then (Some (ce_value cached), c\<lparr>entries := jm_set key cached (jm_delete key (entries c))\<rparr>)
          else (None, c\<lparr>entries := jm_delete key (entries c)\<rparr>)
      | None \<Rightarrow> (None, c))"

text \<open>
  The second half, once the loader has returned \<open>v\<close>: \<open>now\<close> is still the time the call started.
\<close>

definition rc_finish :: "millis \<Rightarrow> string \<Rightarrow> 'v \<Rightarrow> 'v ResponseCache \<Rightarrow> 'v ResponseCache" where
  "rc_finish now key v c =
     c\<lparr>entries := rc_evict (maxSize c)
         (jm_set key \<lparr>ce_value = v, expiresAt = now + ttlMs c\<rparr> (entries c))\<rparr>"

text \<open>\<open>getOrSet\<close> when nothing runs between its halves; the loader may throw (\<open>Inl e\<close>).\<close>

definition getOrSet ::
  "millis \<Rightarrow> string \<Rightarrow> ('e, 'v) res \<Rightarrow> 'v ResponseCache \<Rightarrow> ('e, 'v) res \<times> 'v ResponseCache" where
  "getOrSet now key loader c =
     (case rc_begin now key c of
        (Some v, c') \<Rightarrow> (Inr v, c')
      | (None, c') \<Rightarrow>
          (case loader of Inl e \<Rightarrow> (Inl e, c') | Inr v \<Rightarrow> (Inr v, rc_finish now key v c')))"

definition rc_purgeExpired :: "millis \<Rightarrow> 'v ResponseCache \<Rightarrow> 'v ResponseCache" where
  "rc_purgeExpired now c = c\<lparr>entries := jm_prune (\<lambda>e. expiresAt e \<le> now) (entries c)\<rparr>"

definition rc_clear :: "'v ResponseCache \<Rightarrow> 'v ResponseCache" where
  "rc_clear c = c\<lparr>entries := []\<rparr>"

section \<open>Eviction\<close>

lemma rc_evict_drop:
  "jm_wf m \<Longrightarrow> rc_evict mx m = drop (nat (int (length m) - max 0 mx)) m"
proof (induction mx m rule: rc_evict.induct)
  case (1 mx m)
  show ?case
  proof (cases "int (length m) > mx")
    case False
    then show ?thesis by (simp add: rc_evict.simps [of mx m])
  next
    case True
    show ?thesis
    proof (cases m)
      case Nil
      then show ?thesis by (simp add: rc_evict.simps [of mx "[]"] jm_keys_def)
    next
      case (Cons e es)
      have k: "jm_keys m = fst e # jm_keys es" by (simp add: Cons jm_keys_def)
      have d: "jm_delete (fst e) m = es"
        using "1.prems" Cons jm_delete_head by simp
      have wf: "jm_wf es" using "1.prems" Cons by (simp add: jm_wf_def)
      have "rc_evict mx m = rc_evict mx es"
        using True k d by (simp add: rc_evict.simps [of mx m])
      also have "\<dots> = drop (nat (int (length es) - max 0 mx)) es"
        using "1.IH" [OF True k] d wf by simp
      also have "\<dots> = drop (nat (int (length m) - max 0 mx)) m"
      proof -
        have "nat (int (length m) - max 0 mx) = Suc (nat (int (length es) - max 0 mx))"
          using True Cons by auto
        then show ?thesis by (simp add: Cons)
      qed
      finally show ?thesis .
    qed
  qed
qed

lemma rc_evict_wf: "jm_wf m \<Longrightarrow> jm_wf (rc_evict mx m)"
  by (simp add: rc_evict_drop jm_wf_def drop_map [symmetric] distinct_drop)

lemma rc_evict_length: "jm_wf m \<Longrightarrow> int (length (rc_evict mx m)) \<le> max 0 mx"
  by (simp add: rc_evict_drop)

section \<open>Interleaved execution\<close>

text \<open>
  The calls in flight are the keys whose loader has not answered, each with the time its call
  started. A loader that throws ends its call without a store.
\<close>

record 'v cache_sys =
  cache :: "'v ResponseCache"
  loading :: "(string \<times> millis) list"

inductive rc_step :: "'v cache_sys \<Rightarrow> 'v cache_sys \<Rightarrow> bool" where
  hit: "rc_begin now key (cache s) = (Some v, c') \<Longrightarrow> rc_step s (s\<lparr>cache := c'\<rparr>)"
| miss: "rc_begin now key (cache s) = (None, c') \<Longrightarrow>
     rc_step s (s\<lparr>cache := c', loading := (key, now) # loading s\<rparr>)"
| loaded: "(key, now) \<in> set (loading s) \<Longrightarrow>
     rc_step s (s\<lparr>cache := rc_finish now key v (cache s),
       loading := remove1 (key, now) (loading s)\<rparr>)"
| failed: "(key, now) \<in> set (loading s) \<Longrightarrow>
     rc_step s (s\<lparr>loading := remove1 (key, now) (loading s)\<rparr>)"
| purge: "rc_step s (s\<lparr>cache := rc_purgeExpired now (cache s)\<rparr>)"
| clear: "rc_step s (s\<lparr>cache := rc_clear (cache s)\<rparr>)"

inductive rc_reachable :: "int \<Rightarrow> int option \<Rightarrow> 'v cache_sys \<Rightarrow> bool" for ttl mx where
  start: "rc_reachable ttl mx \<lparr>cache = rc_new ttl mx, loading = []\<rparr>"
| step: "rc_reachable ttl mx s \<Longrightarrow> rc_step s t \<Longrightarrow> rc_reachable ttl mx t"

definition rc_inv :: "'v ResponseCache \<Rightarrow> bool" where
  "rc_inv c \<longleftrightarrow> jm_wf (entries c) \<and> int (length (entries c)) \<le> max 0 (maxSize c)"

lemma rc_begin_inv: "rc_inv c \<Longrightarrow> rc_begin now key c = (r, c') \<Longrightarrow> rc_inv c'"
proof -
  assume inv: "rc_inv c" and b: "rc_begin now key c = (r, c')"
  have wf: "jm_wf (entries c)" using inv by (simp add: rc_inv_def)
  have del: "length (jm_delete key (entries c)) \<le> length (entries c)"
    by (simp add: jm_delete_def)
  have mv: "length (jm_set key e (jm_delete key (entries c))) = length (entries c)"
    if "jm_get (entries c) key = Some e" for e
    using jm.length_move_present [OF wf, of key e] that by simp
  from b inv wf del mv show ?thesis
    by (auto simp: rc_begin_def rc_inv_def jm_laws split: option.splits if_splits)
qed

lemma rc_finish_inv: "rc_inv c \<Longrightarrow> rc_inv (rc_finish now key v c)"
  by (simp add: rc_inv_def rc_finish_def rc_evict_wf rc_evict_length jm_laws)

lemma rc_purge_inv: "rc_inv c \<Longrightarrow> rc_inv (rc_purgeExpired now c)"
  using jm_prune_length [of "\<lambda>e. expiresAt e \<le> now" "entries c"]
  by (simp add: rc_inv_def rc_purgeExpired_def jm_prune_wf)

lemma rc_config:
  "rc_begin now key c = (r, c') \<Longrightarrow> maxSize c' = maxSize c \<and> ttlMs c' = ttlMs c"
  "maxSize (rc_finish now key v c) = maxSize c" "ttlMs (rc_finish now key v c) = ttlMs c"
  "maxSize (rc_purgeExpired now c) = maxSize c" "ttlMs (rc_purgeExpired now c) = ttlMs c"
  "maxSize (rc_clear c) = maxSize c" "ttlMs (rc_clear c) = ttlMs c"
  by (auto simp: rc_begin_def rc_finish_def rc_purgeExpired_def rc_clear_def
      split: option.splits if_splits)

lemma rc_step_inv:
  assumes "rc_step s t" and "rc_inv (cache s)"
  shows "rc_inv (cache t) \<and> maxSize (cache t) = maxSize (cache s)"
  using assms
  by (induction rule: rc_step.induct)
    (auto simp: rc_begin_inv rc_finish_inv rc_purge_inv rc_config
      dest: rc_begin_inv rc_config(1), simp_all add: rc_inv_def rc_clear_def)

lemma rc_reachable_inv:
  assumes "rc_reachable ttl mx s"
  shows "rc_inv (cache s) \<and> maxSize (cache s) = (case mx of None \<Rightarrow> 500 | Some n \<Rightarrow> n)"
  using assms
proof (induction rule: rc_reachable.induct)
  case start
  then show ?case by (simp add: rc_new_def rc_inv_def)
next
  case (step s t)
  then show ?case using rc_step_inv by metis
qed

section \<open>Retention\<close>

lemma rc_finish_get:
  assumes wf: "jm_wf (entries c)" and size: "1 \<le> maxSize c" and new: "jm_get (entries c) key = None"
  shows "jm_get (entries (rc_finish now key v c)) key =
    Some \<lparr>ce_value = v, expiresAt = now + ttlMs c\<rparr>"
proof -
  let ?e = "\<lparr>ce_value = v, expiresAt = now + ttlMs c\<rparr>"
  let ?n = "nat (int (Suc (length (entries c))) - max 0 (maxSize c))"
  have app: "jm_set key ?e (entries c) = entries c @ [(key, ?e)]"
    using new by (rule jm_set_new)
  have wf': "jm_wf (entries c @ [(key, ?e)])"
    using jm.wf_put [OF wf, of key ?e] app by simp
  have "?n \<le> length (entries c)" using size by simp
  then have ev: "rc_evict (maxSize c) (entries c @ [(key, ?e)]) = drop ?n (entries c) @ [(key, ?e)]"
    using rc_evict_drop [OF wf'] by simp
  moreover have "jm_get (drop ?n (entries c)) key = None"
    using new by (auto simp: jm_get_def map_of_eq_None_iff dest: in_set_dropD)
  ultimately show ?thesis
    by (simp add: rc_finish_def app jm_get_def map_add_def)
qed

lemma rc_begin_miss_absent:
  "jm_wf (entries c) \<Longrightarrow> rc_begin now key c = (None, c') \<Longrightarrow>
     jm_get (entries c') key = None \<and> jm_wf (entries c')"
  by (auto simp: rc_begin_def jm_laws split: option.splits if_splits)

section \<open>Properties\<close>

text \<open>
  In every state any interleaving of cache calls, loader answers, loader failures, purges and
  clears can reach, the response cache holds at most \<open>maxSize\<close> entries (500 when no size is given)
  and no key twice.
\<close>

theorem response_cache_bounded:
  assumes "rc_reachable ttl mx s"
  shows "int (length (entries (cache s))) \<le> max 0 (case mx of None \<Rightarrow> 500 | Some n \<Rightarrow> n) \<and>
    distinct (jm_keys (entries (cache s)))"
  using rc_reachable_inv [OF assms] by (auto simp: rc_inv_def jm_wf_def jm_keys_def)

lemma rc_reachable_example:
  "rc_reachable 1000 (Some 1)
     \<lparr>cache = \<lparr>entries = [(''a'', \<lparr>ce_value = (7::int), expiresAt = 1005\<rparr>)], ttlMs = 1000, maxSize = 1\<rparr>,
       loading = []\<rparr>"
proof -
  let ?c0 = "rc_new 1000 (Some 1) :: int ResponseCache"
  have m: "rc_begin 5 ''a'' ?c0 = (None, ?c0)"
    by (simp add: rc_begin_def rc_new_def)
  have s1: "rc_reachable 1000 (Some 1) \<lparr>cache = ?c0, loading = [(''a'', 5)]\<rparr>"
    using rc_reachable.step [OF rc_reachable.start rc_step.miss [OF _], of 5 "''a''"] m by force
  have s2: "rc_reachable 1000 (Some 1) \<lparr>cache = rc_finish 5 ''a'' 7 ?c0, loading = []\<rparr>"
    using rc_reachable.step [OF s1 rc_step.loaded [of "''a''" 5 _ 7]] by simp
  then show ?thesis
    by (simp add: rc_finish_def rc_new_def rc_evict.simps)
qed

theorem response_cache_bounded_witness:
  "rc_reachable 1000 (Some 1)
     \<lparr>cache = \<lparr>entries = [(''a'', \<lparr>ce_value = (7::int), expiresAt = 1005\<rparr>)], ttlMs = 1000, maxSize = 1\<rparr>,
       loading = []\<rparr> \<and>
   int (length [(''a'', \<lparr>ce_value = (7::int), expiresAt = 1005\<rparr>)]) \<le> max 0 1"
  using response_cache_bounded [OF rc_reachable_example] rc_reachable_example by simp

text \<open>
  A value the cache has loaded is served again, without the loader, to every later call for
  the key that comes before the value expires: after a \<open>getOrSet\<close> that called its loader at time
  \<open>now\<close>, a call at any \<open>now'\<close> before \<open>now + ttlMs\<close> returns that value whatever its own loader
  would do; at or after that time the loader's own answer is returned.
\<close>

theorem getOrSet_serves_until_expiry:
  assumes "rc_inv c" and "1 \<le> maxSize c" and "fst (rc_begin now key c) = None"
  shows "fst (getOrSet now' key loader' (snd (getOrSet now key (Inr v) c))) =
    (if now' < now + ttlMs c then Inr v else loader')"
proof -
  obtain c' where b: "rc_begin now key c = (None, c')"
    using assms(3) by (cases "rc_begin now key c") simp
  have cfg: "maxSize c' = maxSize c" "ttlMs c' = ttlMs c"
    using rc_config(1) [OF b] by simp_all
  have stored: "jm_get (entries (rc_finish now key v c')) key =
      Some \<lparr>ce_value = v, expiresAt = now + ttlMs c\<rparr>"
    using rc_finish_get [of c' key now v] rc_begin_miss_absent [OF _ b] assms(1,2) cfg
    by (simp add: rc_inv_def)
  have "fst (rc_begin now' key (rc_finish now key v c')) =
      (if now' < now + ttlMs c then Some v else None)"
    using stored by (simp add: rc_begin_def)
  moreover have "snd (getOrSet now key (Inr v) c) = rc_finish now key v c'"
    by (simp add: getOrSet_def b)
  ultimately show ?thesis
    by (cases loader') (auto simp: getOrSet_def split: prod.splits option.splits if_splits)
qed

theorem getOrSet_serves_until_expiry_witness:
  "fst (getOrSet 900 ''k'' (Inr 2) (snd (getOrSet 0 ''k'' (Inr 1)
      (rc_new 1000 (Some 3) :: nat ResponseCache)))) = (Inr 1 :: (string, nat) res)"
proof -
  let ?c = "rc_new 1000 (Some 3) :: nat ResponseCache"
  have "rc_inv ?c" and "1 \<le> maxSize ?c" and "fst (rc_begin 0 ''k'' ?c) = None"
    by (simp_all add: rc_inv_def rc_new_def rc_begin_def)
  from getOrSet_serves_until_expiry [OF this, of 900 "Inr 2 :: (string, nat) res" 1]
  show ?thesis by (simp add: rc_new_def)
qed

end
