(* ===== verification/Tag_Cache.thy ===== *)
theory Tag_Cache
  imports Js_Map Complex_Main
begin

text \<open>
  The tag cache of \<open>src/services/tag-cache.ts\<close>: tags of a transcript chunk, keyed by the SHA-256
  hash of its text, least recently used first out, with a time to live and hit counters. The hash
  (Node's \<open>crypto\<close>) is the parameter \<open>sha\<close>; nothing is assumed of it.

  Shown: the size stays within the limit, every lookup is counted once, and an entry survives any
  sequence of fewer than \<open>maxSize\<close> operations on other keys.
\<close>

section \<open>State and operations\<close>

record 'n CachedTag =
  funnelStage :: string
  topic :: string
  confidence :: 'n

record 'n TagCacheEntry =
  tags :: "'n CachedTag list"
  createdAt :: millis

record 'n TagCache =
  tc_cache :: "(string, 'n TagCacheEntry) jsmap"
  tc_maxSize :: int
  tc_ttlMs :: int
  tc_hits :: nat
  tc_misses :: nat

definition tc_new :: "int \<Rightarrow> int \<Rightarrow> 'n TagCache" where
  "tc_new mx ttl = \<lparr>tc_cache = [], tc_maxSize = mx, tc_ttlMs = ttl, tc_hits = 0, tc_misses = 0\<rparr>"

definition tc_get ::
  "(string \<Rightarrow> string) \<Rightarrow> millis \<Rightarrow> string \<Rightarrow> 'n TagCache \<Rightarrow> 'n CachedTag list option \<times> 'n TagCache" where
  "tc_get sha now text c =
     (let key = sha text in
      case jm_get (tc_cache c) key of
        None \<Rightarrow> (None, c\<lparr>tc_misses := Suc (tc_misses c)\<rparr>)
      | Some entry \<Rightarrow>
          if now - createdAt entry > tc_ttlMs c
          then (None, c\<lparr>tc_cache := jm_delete key (tc_cache c), tc_misses := Suc (tc_misses c)\<rparr>)
          else (Some (tags entry),
                c\<lparr>tc_cache := jm_set key entry (jm_delete key (tc_cache c)),
                  tc_hits := Suc (tc_hits c)\<rparr>))"

definition tc_set ::
  "(string \<Rightarrow> string) \<Rightarrow> millis \<Rightarrow> string \<Rightarrow> 'n CachedTag list \<Rightarrow> 'n TagCache \<Rightarrow> 'n TagCache" where
  "tc_set sha now text ts c =
     (let key = sha text;
          m1 = (if jm_get (tc_cache c) key \<noteq> None then jm_delete key (tc_cache c) else tc_cache c);
          m2 = (if int (length m1) \<ge> tc_maxSize c
                then (case jm_keys m1 of [] \<Rightarrow> m1 | oldestKey # _ \<Rightarrow> jm_delete oldestKey m1)
                else m1)
      in c\<lparr>tc_cache := jm_set key \<lparr>tags = ts, createdAt = now\<rparr> m2\<rparr>)"

text \<open>\<open>stats\<close>: \<open>hitRate\<close> is the exact quotient, whose nearest double the code returns.\<close>

record TagCacheStats =
  st_size :: nat
  st_hits :: nat
  st_misses :: nat
  st_hitRate :: real

definition tc_stats :: "'n TagCache \<Rightarrow> TagCacheStats" where
  "tc_stats c =
     (let total = tc_hits c + tc_misses c in
      \<lparr>st_size = length (tc_cache c), st_hits = tc_hits c, st_misses = tc_misses c,
       st_hitRate = (if total > 0 then real (tc_hits c) / real total else 0)\<rparr>)"

definition tc_clear :: "'n TagCache \<Rightarrow> 'n TagCache" where
  "tc_clear c = c\<lparr>tc_cache := [], tc_hits := 0, tc_misses := 0\<rparr>"

text \<open>A sequence of lookups and stores, as the tagger issues them.\<close>

datatype 'n tc_op = TGet millis string | TSet millis string "'n CachedTag list"

fun tc_text :: "'n tc_op \<Rightarrow> string" where
  "tc_text (TGet _ text) = text"
| "tc_text (TSet _ text _) = text"

fun tc_exec :: "(string \<Rightarrow> string) \<Rightarrow> 'n tc_op \<Rightarrow> 'n TagCache \<Rightarrow> 'n TagCache" where
  "tc_exec sha (TGet now text) c = snd (tc_get sha now text c)"
| "tc_exec sha (TSet now text ts) c = tc_set sha now text ts c"

definition tc_run :: "(string \<Rightarrow> string) \<Rightarrow> 'n tc_op list \<Rightarrow> 'n TagCache \<Rightarrow> 'n TagCache" where
  "tc_run sha ops c = fold (tc_exec sha) ops c"

section \<open>Invariant\<close>

definition tc_inv :: "'n TagCache \<Rightarrow> bool" where
  "tc_inv c \<longleftrightarrow> jm_wf (tc_cache c) \<and> int (length (tc_cache c)) \<le> tc_maxSize c"

text \<open>The map between removing the key and storing it: the two deletions of \<open>set\<close>.\<close>

definition tc_room :: "string \<Rightarrow> 'n TagCache \<Rightarrow> (string, 'n TagCacheEntry) jsmap" where
  "tc_room key c =
     (let m1 = jm_delete key (tc_cache c) in
      if int (length m1) \<ge> tc_maxSize c then drop 1 m1 else m1)"

lemma jm_delete_length: "length (jm_delete k m) \<le> length m"
  by (simp add: jm_delete_def)

lemma jm_delete_absent: "jm_get m k = None \<Longrightarrow> jm_delete k m = m"
  by (force simp: jm_get_def jm_delete_def map_of_eq_None_iff intro!: filter_True)

lemma tc_set_room:
  assumes "jm_wf (tc_cache c)"
  shows "tc_set sha now text ts c =
    c\<lparr>tc_cache := tc_room (sha text) c @ [(sha text, \<lparr>tags = ts, createdAt = now\<rparr>)]\<rparr>"
proof -
  let ?k = "sha text" and ?m1 = "jm_delete (sha text) (tc_cache c)"
  have wf1: "jm_wf ?m1" using assms by (rule jm.wf_del)
  have "(case jm_keys ?m1 of [] \<Rightarrow> ?m1 | k # _ \<Rightarrow> jm_delete k ?m1) = drop 1 ?m1"
  proof (cases ?m1)
    case Nil
    then show ?thesis by (simp add: jm_keys_def)
  next
    case (Cons e es)
    then show ?thesis using jm_delete_head wf1 by (simp add: jm_keys_def)
  qed
  then have m2: "(if int (length ?m1) \<ge> tc_maxSize c
      then (case jm_keys ?m1 of [] \<Rightarrow> ?m1 | k # _ \<Rightarrow> jm_delete k ?m1) else ?m1) = tc_room ?k c"
    by (simp add: tc_room_def Let_def)
  have m1: "(if jm_get (tc_cache c) ?k \<noteq> None then ?m1 else tc_cache c) = ?m1"
    by (simp add: jm_delete_absent)
  have new: "jm_get (tc_room ?k c) ?k = None"
    using jm_get_delete [of ?k "tc_cache c" ?k]
    by (auto simp: tc_room_def Let_def jm_get_def map_of_eq_None_iff dest: in_set_dropD)
  show ?thesis
    unfolding tc_set_def Let_def m1 m2 by (simp add: jm_set_new [OF new])
qed

lemma tc_room_wf: "jm_wf (tc_cache c) \<Longrightarrow> jm_wf (tc_room k c)"
  using jm.wf_del [of "tc_cache c" k]
  by (simp add: tc_room_def Let_def jm_wf_def drop_map [symmetric] distinct_drop)

lemma tc_room_length:
  "tc_inv c \<Longrightarrow> 1 \<le> tc_maxSize c \<Longrightarrow> int (length (tc_room k c)) < tc_maxSize c"
proof -
  assume "tc_inv c" and "1 \<le> tc_maxSize c"
  moreover have "length (jm_delete k (tc_cache c)) \<le> length (tc_cache c)"
    by (simp add: jm_delete_def)
  ultimately show ?thesis
    by (auto simp: tc_room_def Let_def tc_inv_def)
qed

lemma tc_set_inv:
  assumes "tc_inv c" and "1 \<le> tc_maxSize c"
  shows "tc_inv (tc_set sha now text ts c)"
proof -
  have wf: "jm_wf (tc_cache c)" using assms(1) by (simp add: tc_inv_def)
  have "jm_wf (tc_cache (tc_set sha now text ts c))"
    using wf by (auto simp: tc_set_def Let_def jm_laws split: list.splits)
  then show ?thesis
    using tc_room_length [OF assms, of "sha text"] by (simp add: tc_inv_def tc_set_room [OF wf])
qed

lemma tc_get_inv: "tc_inv c \<Longrightarrow> tc_inv (snd (tc_get sha now text c))"
proof -
  assume inv: "tc_inv c"
  then have wf: "jm_wf (tc_cache c)" by (simp add: tc_inv_def)
  have "length (jm_set k e (jm_delete k (tc_cache c))) = length (tc_cache c)"
    if "jm_get (tc_cache c) k = Some e" for k e
    using jm.length_move_present [OF wf, of k e] that by simp
  moreover have "int (length (jm_delete k (tc_cache c))) \<le> tc_maxSize c" for k
    using inv jm_delete_length [of k "tc_cache c"] by (simp add: tc_inv_def)
  ultimately show ?thesis
    using inv wf by (auto simp: tc_get_def Let_def tc_inv_def jm_laws split: option.splits)
qed

lemma tc_exec_config [simp]:
  "tc_maxSize (tc_exec sha op c) = tc_maxSize c" "tc_ttlMs (tc_exec sha op c) = tc_ttlMs c"
  by (cases op; simp add: tc_get_def tc_set_def Let_def split: option.splits)+

lemma tc_exec_inv: "tc_inv c \<Longrightarrow> 1 \<le> tc_maxSize c \<Longrightarrow> tc_inv (tc_exec sha op c)"
  by (cases op) (simp_all add: tc_set_inv tc_get_inv)

lemma tc_run_inv:
  "tc_inv c \<Longrightarrow> 1 \<le> tc_maxSize c \<Longrightarrow> tc_inv (tc_run sha ops c) \<and> tc_maxSize (tc_run sha ops c) = tc_maxSize c"
  by (induction ops arbitrary: c) (simp_all add: tc_run_def tc_exec_inv)

section \<open>Retention\<close>

text \<open>Key \<open>k\<close> holds entry \<open>e\<close>, with at most \<open>n\<close> keys used more recently.\<close>

definition kept :: "string \<Rightarrow> 'n TagCacheEntry \<Rightarrow> nat \<Rightarrow> 'n TagCache \<Rightarrow> bool" where
  "kept k e n c \<longleftrightarrow>
     (\<exists>xs ys. tc_cache c = xs @ (k, e) # ys \<and> length ys \<le> n)"

lemma keptI: "tc_cache c = xs @ (k, e) # ys \<Longrightarrow> length ys \<le> n \<Longrightarrow> kept k e n c"
  by (auto simp: kept_def)

lemma kept_get: "tc_inv c \<Longrightarrow> kept k e n c \<Longrightarrow> jm_get (tc_cache c) k = Some e"
  by (auto simp: kept_def tc_inv_def jm_wf_def jm_get_def map_of_eq_None_iff map_add_def
      split: option.splits)

lemma jm_delete_split:
  "k' \<noteq> k \<Longrightarrow> jm_delete k' (xs @ (k, e) # ys) = jm_delete k' xs @ (k, e) # jm_delete k' ys"
  by (simp add: jm_delete_def)

lemma kept_exec:
  assumes inv: "tc_inv c" and size: "int (Suc n) < tc_maxSize c"
    and other: "sha (tc_text op) \<noteq> k" and kept: "kept k e n c"
  shows "kept k e (Suc n) (tc_exec sha op c)"
proof -
  let ?k' = "sha (tc_text op)"
  obtain xs ys where m: "tc_cache c = xs @ (k, e) # ys" and ys: "length ys \<le> n"
    using kept by (auto simp: kept_def)
  have del: "jm_delete ?k' (tc_cache c) = jm_delete ?k' xs @ (k, e) # jm_delete ?k' ys"
    using other by (simp add: m jm_delete_split)
  have ys': "length (jm_delete ?k' ys) \<le> n"
    using jm_delete_length [of ?k' ys] ys by simp
  have wf: "jm_wf (tc_cache c)" using inv by (simp add: tc_inv_def)
  show ?thesis
  proof (cases op)
    case (TGet now tx)
    have new: "jm_get (jm_delete ?k' (tc_cache c)) ?k' = None"
      by (simp add: jm_get_delete)
    have "jm_set ?k' en (jm_delete ?k' (tc_cache c)) =
        jm_delete ?k' xs @ (k, e) # (jm_delete ?k' ys @ [(?k', en)])" for en
      using jm_set_new [OF new, of en] by (simp add: del)
    then show ?thesis
      using m ys ys' del TGet
      by (auto simp: tc_get_def Let_def kept_def split: option.splits)
         (metis le_SucI length_append_singleton Suc_le_mono)+
  next
    case (TSet now tx ts)
    have "\<exists>zs. tc_room ?k' c = zs @ (k, e) # jm_delete ?k' ys"
    proof (cases "int (length (jm_delete ?k' (tc_cache c))) \<ge> tc_maxSize c")
      case True
      then have "jm_delete ?k' xs \<noteq> []" using del ys' size by auto
      then have "drop 1 (jm_delete ?k' (tc_cache c)) =
          drop 1 (jm_delete ?k' xs) @ (k, e) # jm_delete ?k' ys"
        by (cases "jm_delete ?k' xs") (simp_all add: del)
      with True show ?thesis by (auto simp: tc_room_def Let_def)
    next
      case False
      with del show ?thesis by (auto simp: tc_room_def Let_def)
    qed
    then obtain zs where zs: "tc_room ?k' c = zs @ (k, e) # jm_delete ?k' ys" ..
    show ?thesis
      by (rule keptI [of _ zs _ _ "jm_delete ?k' ys @ [(?k', \<lparr>tags = ts, createdAt = now\<rparr>)]"])
        (use TSet ys' zs in \<open>simp_all add: tc_set_room [OF wf]\<close>)
  qed
qed

lemma kept_run:
  assumes "tc_inv c" and "int (n + length ops) < tc_maxSize c"
    and "\<forall>op \<in> set ops. sha (tc_text op) \<noteq> k" and "kept k e n c"
  shows "kept k e (n + length ops) (tc_run sha ops c)"
  using assms
proof (induction ops arbitrary: c n)
  case Nil
  then show ?case by (simp add: tc_run_def)
next
  case (Cons op ops)
  have "kept k e (Suc n) (tc_exec sha op c)"
    using Cons.prems by (intro kept_exec) auto
  moreover have "tc_inv (tc_exec sha op c)"
    using Cons.prems by (intro tc_exec_inv) auto
  ultimately have "kept k e (Suc n + length ops) (tc_run sha ops (tc_exec sha op c))"
    using Cons.prems by (intro Cons.IH) auto
  then show ?case by (simp add: tc_run_def)
qed

lemma tc_run_ttl [simp]: "tc_ttlMs (tc_run sha ops c) = tc_ttlMs c"
  by (induction ops arbitrary: c) (simp_all add: tc_run_def)

section \<open>Properties\<close>

text \<open>
  Tags stored for a chunk are found again: after a store, any sequence of fewer than
  \<open>maxSize\<close> lookups and stores for texts with other hashes leaves the entry in the cache, and a
  lookup of the text returns exactly the stored tags until the time to live has passed.
\<close>

theorem tag_cache_retention:
  assumes "tc_inv c" and "int (length ops) < tc_maxSize c"
    and "\<forall>op \<in> set ops. sha (tc_text op) \<noteq> sha text"
    and "now' - now \<le> tc_ttlMs c"
  shows "fst (tc_get sha now' text (tc_run sha ops (tc_set sha now text ts c))) = Some ts"
proof -
  let ?e = "\<lparr>tags = ts, createdAt = now\<rparr>" and ?c = "tc_set sha now text ts c"
  have wf: "jm_wf (tc_cache c)" using assms(1) by (simp add: tc_inv_def)
  have cfg: "tc_maxSize ?c = tc_maxSize c" "tc_ttlMs ?c = tc_ttlMs c"
    by (simp_all add: tc_set_room [OF wf])
  have inv: "tc_inv ?c" using assms(1,2) by (intro tc_set_inv) auto
  have "kept (sha text) ?e 0 ?c"
    by (auto simp: kept_def tc_set_room [OF wf])
  then have "kept (sha text) ?e (length ops) (tc_run sha ops ?c)"
    using kept_run [of ?c 0 ops sha "sha text" ?e] inv assms(2,3) cfg by simp
  moreover have "tc_inv (tc_run sha ops ?c)"
    using tc_run_inv [OF inv] assms(2) cfg by simp
  ultimately have "jm_get (tc_cache (tc_run sha ops ?c)) (sha text) = Some ?e"
    by (rule kept_get [rotated])
  then show ?thesis
    using assms(4) cfg by (simp add: tc_get_def Let_def)
qed

theorem tag_cache_retention_witness:
  "fst (tc_get id 50 ''x'' (tc_run id [TSet 20 ''y'' [], TGet 30 ''z'']
      (tc_set id 10 ''x'' [\<lparr>funnelStage = ''TOFU'', topic = ''t'', confidence = (1::nat)\<rparr>]
        (tc_new 3 1000)))) =
   Some [\<lparr>funnelStage = ''TOFU'', topic = ''t'', confidence = (1::nat)\<rparr>]"
  by (rule tag_cache_retention) (simp_all add: tc_inv_def tc_new_def)

text \<open>
  From an empty cache with room for at least one entry, no sequence of lookups and stores ever
  makes the tag cache exceed \<open>maxSize\<close> or hold a hash twice, and hits and misses together count
  exactly the lookups.
\<close>

lemma tc_exec_counts:
  "tc_hits (tc_exec sha op c) + tc_misses (tc_exec sha op c) =
     tc_hits c + tc_misses c + (case op of TGet _ _ \<Rightarrow> 1 | TSet _ _ _ \<Rightarrow> 0)"
  by (cases op) (auto simp: tc_get_def tc_set_def Let_def split: option.splits)

lemma tc_run_counts:
  "tc_hits (tc_run sha ops c) + tc_misses (tc_run sha ops c) =
     tc_hits c + tc_misses c + length (filter (\<lambda>op. \<exists>t x. op = TGet t x) ops)"
proof (induction ops arbitrary: c)
  case Nil
  then show ?case by (simp add: tc_run_def)
next
  case (Cons op ops)
  then show ?case
    using tc_exec_counts [of sha op c] by (cases op) (simp_all add: tc_run_def)
qed

theorem tag_cache_bounded_and_counted:
  fixes ops :: "'n tc_op list"
  assumes "1 \<le> mx"
  shows "int (length (tc_cache (tc_run sha ops (tc_new mx ttl)))) \<le> mx \<and>
    distinct (jm_keys (tc_cache (tc_run sha ops (tc_new mx ttl)))) \<and>
    st_hits (tc_stats (tc_run sha ops (tc_new mx ttl))) +
      st_misses (tc_stats (tc_run sha ops (tc_new mx ttl))) =
      length (filter (\<lambda>op. \<exists>t x. op = TGet t x) ops)"
proof -
  let ?c = "tc_new mx ttl :: 'n TagCache"
  have "tc_inv ?c" and mx: "tc_maxSize ?c = mx"
    using assms by (simp_all add: tc_inv_def tc_new_def)
  then have "tc_inv (tc_run sha ops ?c)" and "tc_maxSize (tc_run sha ops ?c) = mx"
    using tc_run_inv [of ?c sha ops] assms by simp_all
  then show ?thesis
    using tc_run_counts [of sha ops "tc_new mx ttl"]
    by (simp add: tc_inv_def jm_wf_def jm_keys_def tc_stats_def Let_def tc_new_def)
qed

theorem tag_cache_bounded_and_counted_witness:
  "int (length (tc_cache (tc_run id [TSet 0 ''a'' [], TSet 1 ''b'' [], TGet 2 ''b'']
      (tc_new 1 9 :: nat TagCache)))) \<le> 1"
  using tag_cache_bounded_and_counted
    [of 1 id "[TSet 0 ''a'' [], TSet 1 ''b'' [], TGet 2 ''b''] :: nat tc_op list" 9]
  by simp

end
