(* ===== verification/Schema.thy ===== *)
theory Schema
  imports Prelude Complex_Main
begin

text \<open>
  The rows of the tables the modelled services read and write, after \<open>prisma/schema.prisma\<close>:
  enumerations as datatypes, a model as a record (its columns prefixed by the table's initials),
  an optional column as an \<open>option\<close>. Columns no modelled code reads are left out. A component whose
  operations touch several tables collects them in a record (here \<open>AccessDb\<close> for the access-control
  services) and updates it field by field.
\<close>

section \<open>Enumerations\<close>

datatype UserRole = OWNER | ADMIN | MEMBER | VIEWER

datatype PermissionType =
    CREATE_LANDING_PAGE | PUBLISH_LANDING_PAGE | PUBLISH_NAMED_LANDING_PAGE
  | APPROVE_PUBLISH_REQUESTS | VIEW_RAW_TRANSCRIPTS | EDIT_ANY_LANDING_PAGE
  | DELETE_ANY_LANDING_PAGE | MANAGE_PERMISSIONS | VIEW_ANALYTICS
  | MANAGE_ENTITY_RESOLUTION | MANAGE_AI_SETTINGS

datatype AccountScopeType = ALL_ACCOUNTS | SINGLE_ACCOUNT | ACCOUNT_LIST | CRM_REPORT

datatype CRMProvider = SALESFORCE | HUBSPOT

datatype PageStatus = PAGE_DRAFT | PAGE_PUBLISHED | PAGE_ARCHIVED

datatype PageVisibility = PRIVATE | SHARED_WITH_LINK

datatype ApprovalPolicy = ALL_REQUIRED | ANON_NO_APPROVAL | NAMED_NO_APPROVAL | ALL_NO_APPROVAL

datatype AIOperation =
  STORY_GENERATION | QUOTE_EXTRACTION | TRANSCRIPT_TAGGING | RAG_QUERY | EMBEDDING

datatype TranscriptTruncationMode = OLDEST_FIRST | NEWEST_FIRST

datatype VersionStatus = ACTIVE | SUPERSEDED | ROLLED_BACK

datatype MergeRunStatus = COMPLETED | UNDONE

datatype AITransactionType = CREDIT | DEBIT

section \<open>Users, roles and access\<close>

record User =
  u_id :: ident
  u_organizationId :: ident
  u_role :: UserRole

text \<open>The columns a role profile and the policy computed from it share.\<close>

record RolePolicy =
  permissions :: "PermissionType list"
  canAccessAnonymousStories :: bool
  canGenerateAnonymousStories :: bool
  canAccessNamedStories :: bool
  canGenerateNamedStories :: bool
  defaultAccountScopeType :: AccountScopeType
  defaultAccountIds :: "ident list"
  maxTokensPerDay :: "int option"
  maxTokensPerMonth :: "int option"
  maxRequestsPerDay :: "int option"
  maxRequestsPerMonth :: "int option"
  maxStoriesPerMonth :: "int option"

record RoleProfile = RolePolicy +
  rp_id :: ident
  rp_organizationId :: ident
  rp_key :: string
  rp_name :: string
  rp_description :: "string option"
  rp_isPreset :: bool

record UserRoleAssignment =
  ura_userId :: ident
  ura_roleProfileId :: ident
  ura_assignedById :: "ident option"

record UserAccountAccess =
  uaa_id :: ident
  uaa_userId :: ident
  uaa_organizationId :: ident
  uaa_scopeType :: AccountScopeType
  uaa_accountId :: "ident option"
  uaa_crmReportId :: "string option"
  uaa_crmProvider :: "CRMProvider option"
  uaa_crmReportName :: "string option"
  uaa_cachedAccountIds :: "ident list"
  uaa_lastSyncedAt :: "millis option"
  uaa_grantedById :: "ident option"

record UserPermission =
  up_userId :: ident
  up_permission :: PermissionType
  up_grantedById :: "ident option"

record OrgSettings =
  os_organizationId :: ident
  os_landingPagesEnabled :: bool
  os_defaultPageVisibility :: PageVisibility
  os_approvalPolicy :: ApprovalPolicy
  os_requireApprovalToPublish :: bool
  os_allowedPublishers :: "UserRole list"
  os_maxPagesPerUser :: "int option"
  os_anonymizationEnabled :: bool
  os_piiExportEnabled :: "bool option"
  os_transcriptMergeMaxWords :: int
  os_transcriptTruncationMode :: TranscriptTruncationMode

section \<open>AI usage\<close>

record AIUsageLimit =
  lim_organizationId :: ident
  lim_userId :: "ident option"
  lim_maxTokensPerWeek :: "int option"
  lim_maxTokensPerDay :: "int option"
  lim_maxTokensPerMonth :: "int option"
  lim_maxRequestsPerWeek :: "int option"
  lim_maxRequestsPerDay :: "int option"
  lim_maxRequestsPerMonth :: "int option"
  lim_maxStoriesPerWeek :: "int option"
  lim_maxStoriesPerMonth :: "int option"
  lim_warningThresholdPct :: int

text \<open>The tables of the access-control services.\<close>

record AccessDb =
  db_users :: "User list"
  db_roleProfiles :: "RoleProfile list"
  db_roleAssignments :: "UserRoleAssignment list"
  db_usageLimits :: "AIUsageLimit list"
  db_accountAccess :: "UserAccountAccess list"
  db_userPermissions :: "UserPermission list"
  db_orgSettings :: "OrgSettings list"

section \<open>Accounts and their records\<close>

record Account =
  a_id :: ident
  a_organizationId :: ident
  a_name :: string
  a_normalizedName :: string
  a_domain :: "string option"
  a_salesforceId :: "string option"
  a_hubspotId :: "string option"
  a_mergeAccountId :: "string option"
  a_industry :: "string option"
  a_employeeCount :: "int option"
  a_annualRevenue :: "real option"

record AccountDomain =
  ad_id :: ident
  ad_accountId :: ident
  ad_domain :: string

record Contact =
  ct_id :: ident
  ct_accountId :: ident
  ct_email :: string

record CallParticipant =
  cp_id :: ident
  cp_callId :: ident
  cp_contactId :: "ident option"

record Call =
  call_id :: ident
  call_organizationId :: ident
  call_accountId :: "ident option"
  call_duration :: "int option"

record Story =
  st_id :: ident
  st_organizationId :: ident
  st_accountId :: ident
  st_publishedAt :: "millis option"
  st_markdownBody :: string

record SalesforceEvent =
  se_id :: ident
  se_accountId :: ident
  se_opportunityId :: "string option"
  se_stageName :: "string option"

record StoryRegenLog =
  srl_id :: ident
  srl_accountId :: ident

record Quote =
  q_id :: ident
  q_accountId :: ident

record HighValueQuote =
  hq_storyId :: ident
  hq_metricType :: "string option"
  hq_metricValue :: "string option"
  hq_quoteText :: string

section \<open>Landing pages\<close>

datatype CalloutIcon =
  icon_metric | icon_quote | icon_insight | icon_timeline | icon_warning | icon_success

record CalloutBox =
  cb_title :: string
  cb_body :: string
  cb_icon :: "CalloutIcon option"

text \<open>
  The JSON columns of callout boxes hold \<open>null\<close> (\<open>None\<close>) or an array the code wrote; decoding the
  array gives it back and decoding \<open>null\<close> gives no box.
\<close>

definition decodeCalloutBoxes :: "CalloutBox list option \<Rightarrow> CalloutBox list" where
  "decodeCalloutBoxes v = (case v of None \<Rightarrow> [] | Some bs \<Rightarrow> bs)"

record LandingPage =
  lp_id :: ident
  lp_organizationId :: ident
  lp_storyId :: ident
  lp_createdById :: ident
  lp_slug :: string
  lp_title :: string
  lp_subtitle :: "string option"
  lp_editableBody :: string
  lp_scrubbedBody :: string
  lp_scrubbedTitle :: "string option"
  lp_scrubbedSubtitle :: "string option"
  lp_heroImageUrl :: "string option"
  lp_calloutBoxes :: "CalloutBox list option"
  lp_scrubbedCalloutBoxes :: "CalloutBox list option"
  lp_totalCallHours :: real
  lp_visibility :: PageVisibility
  lp_status :: PageStatus
  lp_password :: "string option"
  lp_includeCompanyName :: bool
  lp_noIndex :: bool
  lp_customCss :: "string option"
  lp_viewCount :: int
  lp_publishedAt :: "millis option"
  lp_expiresAt :: "millis option"
  lp_updatedAt :: millis

record LandingPageEdit =
  le_id :: ident
  le_landingPageId :: ident
  le_editedById :: ident
  le_previousBody :: string
  le_newBody :: string
  le_editSummary :: "string option"

text \<open>\<open>PublishedArtifactVersion\<close>; the edits of a page are kept newest first.\<close>

record ArtifactVersion =
  av_id :: ident
  av_organizationId :: ident
  av_landingPageId :: ident
  av_versionNumber :: int
  av_status :: VersionStatus
  av_releaseNotes :: "string option"
  av_titleSnapshot :: string
  av_subtitleSnapshot :: "string option"
  av_bodySnapshot :: string
  av_calloutBoxesSnapshot :: "CalloutBox list option"
  av_visibilitySnapshot :: PageVisibility
  av_expiresAtSnapshot :: "millis option"
  av_publishedAtSnapshot :: "millis option"
  av_sourceEditId :: "ident option"
  av_publishedByUserId :: "ident option"
  av_approvalRequestId :: "ident option"
  av_rolledBackFromVersionId :: "ident option"

section \<open>Publish approvals\<close>

datatype ApproverScopeType = ROLE_PROFILE | TEAM | USER | GROUP | SELF

record PublishApprovalStep =
  step_order :: int
  min_approvals :: int
  required_role_profile_key :: "string option"
  required_user_role :: "UserRole option"
  approver_scope_type :: ApproverScopeType
  approver_scope_value :: "string option"
  allow_self_approval :: bool

record PublishApproval =
  apv_step_order :: int
  apv_reviewer_user_id :: ident
  apv_decided_at :: millis
  apv_notes :: "string option"

record PublishRequestOptions =
  opt_visibility :: PageVisibility
  opt_password :: "string option"
  opt_expires_at :: "millis option"
  opt_release_notes :: "string option"

record PublishApprovalPayload =
  pay_page_id :: ident
  pay_options :: PublishRequestOptions
  pay_steps :: "PublishApprovalStep list"
  pay_approvals :: "PublishApproval list"
  pay_current_step_order :: "int option"

record ApprovalRequest =
  ar_id :: ident
  ar_organizationId :: ident
  ar_requestType :: string
  ar_targetType :: string
  ar_targetId :: ident
  ar_requestedByUserId :: ident
  ar_reviewerUserId :: "ident option"
  ar_status :: string
  ar_requestPayload :: PublishApprovalPayload
  ar_reviewNotes :: "string option"
  ar_reviewedAt :: "millis option"
  ar_createdAt :: millis

end
