(* ===== verification/Role_Profiles.thy ===== *)
theory Role_Profiles
  imports Schema
begin

text \<open>
  \<open>src/services/role-profiles.ts\<close>: the preset role profiles, the fallback policy of a user without
  an assigned profile, the policy in force for a user, and the assignment of a profile to a user,
  which rewrites the user's usage limit and account grants in one transaction.
\<close>

section \<open>Policies and presets\<close>

datatype PolicySource = admin_override | assigned_profile | fallback

record EffectiveRolePolicy = RolePolicy +
  policy_source :: PolicySource

text \<open>
  \<open>RoleProfileInput\<close>: the optional fields are options (an absent limit and \<open>null\<close> are both stored
  as \<open>null\<close>).
\<close>

record RoleProfileInput =
  in_key :: string
  in_name :: string
  in_description :: "string option"
  in_permissions :: "PermissionType list"
  in_canAccessAnonymousStories :: bool
  in_canGenerateAnonymousStories :: bool
  in_canAccessNamedStories :: bool
  in_canGenerateNamedStories :: bool
  in_defaultAccountScopeType :: AccountScopeType
  in_defaultAccountIds :: "ident list option"
  in_maxTokensPerDay :: "int option"
  in_maxTokensPerMonth :: "int option"
  in_maxRequestsPerDay :: "int option"
  in_maxRequestsPerMonth :: "int option"
  in_maxStoriesPerMonth :: "int option"

text \<open>A preset, from the fields the source gives; it leaves the others out.\<close>

definition preset ::
  "string \<Rightarrow> string \<Rightarrow> string \<Rightarrow> PermissionType list \<Rightarrow> bool \<Rightarrow> bool \<Rightarrow> bool \<Rightarrow> bool \<Rightarrow> AccountScopeType \<Rightarrow>
     int \<Rightarrow> RoleProfileInput" where
  "preset key nm descr perms aa ga an gn scope stories =
     \<lparr> in_key = key, in_name = nm, in_description = Some descr, in_permissions = perms,
       in_canAccessAnonymousStories = aa, in_canGenerateAnonymousStories = ga,
       in_canAccessNamedStories = an, in_canGenerateNamedStories = gn,
       in_defaultAccountScopeType = scope, in_defaultAccountIds = None,
       in_maxTokensPerDay = None, in_maxTokensPerMonth = None, in_maxRequestsPerDay = None,
       in_maxRequestsPerMonth = None, in_maxStoriesPerMonth = Some stories \<rparr>"

definition PRESETS :: "RoleProfileInput list" where
  "PRESETS =
    [preset ''SALES'' ''Sales Team''
       ''Builds stories and publishes customer-facing outputs.''
       [CREATE_LANDING_PAGE, PUBLISH_LANDING_PAGE, PUBLISH_NAMED_LANDING_PAGE, VIEW_ANALYTICS]
       True True True True ALL_ACCOUNTS 200,
     preset ''CS'' ''Customer Success Team''
       ''Builds internal/external stories, usually anonymized by default.''
       [CREATE_LANDING_PAGE, PUBLISH_LANDING_PAGE, VIEW_ANALYTICS]
       True True False False ALL_ACCOUNTS 120,
     preset ''EXEC'' ''Executive (View Only)''
       ''View reporting and content that has already been created. No generation/publish actions.''
       [VIEW_ANALYTICS]
       True False False False ACCOUNT_LIST 0,
     preset ''BILLING_ADMIN'' ''Billing Admin''
       ''Manages seats, billing readiness, and all approval workflows.''
       [MANAGE_PERMISSIONS, VIEW_ANALYTICS, PUBLISH_LANDING_PAGE, APPROVE_PUBLISH_REQUESTS]
       True False True False ALL_ACCOUNTS 0,
     preset ''APPROVAL_ADMIN'' ''Approval Admin''
       ''Can perform organization-wide review and approval actions.''
       [PUBLISH_LANDING_PAGE, VIEW_ANALYTICS, APPROVE_PUBLISH_REQUESTS]
       True False True False ALL_ACCOUNTS 0,
     preset ''TEAM_APPROVAL_ADMIN'' ''Team Approval Admin''
       ''Can review approvals for assigned teams configured by billing admins.''
       [PUBLISH_LANDING_PAGE, VIEW_ANALYTICS, APPROVE_PUBLISH_REQUESTS]
       True False True False ALL_ACCOUNTS 0]"

text \<open>\<open>userRole\<close> is optional in the source: \<open>None\<close> takes the last branch.\<close>

definition fallbackPolicy :: "UserRole option \<Rightarrow> EffectiveRolePolicy" where
  "fallbackPolicy userRole =
    (if userRole = Some OWNER \<or> userRole = Some ADMIN then
       \<lparr> permissions =
           [CREATE_LANDING_PAGE, PUBLISH_LANDING_PAGE, PUBLISH_NAMED_LANDING_PAGE,
            APPROVE_PUBLISH_REQUESTS, VIEW_RAW_TRANSCRIPTS, EDIT_ANY_LANDING_PAGE,
            DELETE_ANY_LANDING_PAGE, MANAGE_PERMISSIONS, VIEW_ANALYTICS,
            MANAGE_ENTITY_RESOLUTION, MANAGE_AI_SETTINGS],
         canAccessAnonymousStories = True, canGenerateAnonymousStories = True,
         canAccessNamedStories = True, canGenerateNamedStories = True,
         defaultAccountScopeType = ALL_ACCOUNTS, defaultAccountIds = [],
         maxTokensPerDay = None, maxTokensPerMonth = None, maxRequestsPerDay = None,
         maxRequestsPerMonth = None, maxStoriesPerMonth = None,
         policy_source = admin_override \<rparr>
     else if userRole = Some VIEWER then
       \<lparr> permissions = [VIEW_ANALYTICS],
         canAccessAnonymousStories = True, canGenerateAnonymousStories = False,
         canAccessNamedStories = False, canGenerateNamedStories = False,
         defaultAccountScopeType = ACCOUNT_LIST, defaultAccountIds = [],
         maxTokensPerDay = None, maxTokensPerMonth = None, maxRequestsPerDay = None,
         maxRequestsPerMonth = None, maxStoriesPerMonth = Some 0,
         policy_source = fallback \<rparr>
     else
       \<lparr> permissions = [],
         canAccessAnonymousStories = True, canGenerateAnonymousStories = True,
         canAccessNamedStories = False, canGenerateNamedStories = False,
         defaultAccountScopeType = ACCOUNT_LIST, defaultAccountIds = [],
         maxTokensPerDay = None, maxTokensPerMonth = None, maxRequestsPerDay = None,
         maxRequestsPerMonth = None, maxStoriesPerMonth = None,
         policy_source = fallback \<rparr>)"

section \<open>ensurePresetRoles\<close>

definition profile_of_preset :: "ident \<Rightarrow> ident \<Rightarrow> RoleProfileInput \<Rightarrow> RoleProfile" where
  "profile_of_preset newId org p =
     \<lparr> permissions = in_permissions p,
       canAccessAnonymousStories = in_canAccessAnonymousStories p,
       canGenerateAnonymousStories = in_canGenerateAnonymousStories p,
       canAccessNamedStories = in_canAccessNamedStories p,
       canGenerateNamedStories = in_canGenerateNamedStories p,
       defaultAccountScopeType = in_defaultAccountScopeType p,
       defaultAccountIds = (case in_defaultAccountIds p of None \<Rightarrow> [] | Some ids \<Rightarrow> ids),
       maxTokensPerDay = in_maxTokensPerDay p, maxTokensPerMonth = in_maxTokensPerMonth p,
       maxRequestsPerDay = in_maxRequestsPerDay p, maxRequestsPerMonth = in_maxRequestsPerMonth p,
       maxStoriesPerMonth = in_maxStoriesPerMonth p,
       rp_id = newId, rp_organizationId = org, rp_key = in_key p, rp_name = in_name p,
       rp_description = in_description p, rp_isPreset = True \<rparr>"

text \<open>The \<open>update\<close> branch keeps \<open>id\<close>, \<open>organizationId\<close> and \<open>key\<close> and rewrites every other column.\<close>

definition refresh_preset :: "RoleProfileInput \<Rightarrow> RoleProfile \<Rightarrow> RoleProfile" where
  "refresh_preset p r =
     (profile_of_preset (rp_id r) (rp_organizationId r) p)\<lparr> rp_key := rp_key r \<rparr>"

definition has_key :: "ident \<Rightarrow> string \<Rightarrow> RoleProfile \<Rightarrow> bool" where
  "has_key org key r \<longleftrightarrow> rp_organizationId r = org \<and> rp_key r = key"

text \<open>\<open>newId key\<close> is the identifier the database gives a preset row it has to create.\<close>

definition ensurePresetRoles ::
  "(string \<Rightarrow> ident) \<Rightarrow> ident \<Rightarrow> RoleProfile list \<Rightarrow> RoleProfile list" where
  "ensurePresetRoles newId org rows =
     fold (\<lambda>p. upsert (has_key org (in_key p)) (profile_of_preset (newId (in_key p)) org p)
                      (refresh_preset p)) PRESETS rows"

section \<open>getEffectivePolicy and assignRoleToUser\<close>

definition policy_of_profile :: "RoleProfile \<Rightarrow> EffectiveRolePolicy" where
  "policy_of_profile r =
     \<lparr> permissions = permissions r,
       canAccessAnonymousStories = canAccessAnonymousStories r,
       canGenerateAnonymousStories = canGenerateAnonymousStories r,
       canAccessNamedStories = canAccessNamedStories r,
       canGenerateNamedStories = canGenerateNamedStories r,
       defaultAccountScopeType = defaultAccountScopeType r,
       defaultAccountIds = defaultAccountIds r,
       maxTokensPerDay = maxTokensPerDay r, maxTokensPerMonth = maxTokensPerMonth r,
       maxRequestsPerDay = maxRequestsPerDay r, maxRequestsPerMonth = maxRequestsPerMonth r,
       maxStoriesPerMonth = maxStoriesPerMonth r,
       policy_source = assigned_profile \<rparr>"

text \<open>
  \<open>include: { roleProfile: true }\<close> joins the profile by its id; the foreign key makes the join
  succeed, so the \<open>None\<close> branch of the join is never taken on a consistent database.
\<close>

definition assigned_profile_of :: "AccessDb \<Rightarrow> ident \<Rightarrow> RoleProfile option" where
  "assigned_profile_of db userId =
     (case List.find (\<lambda>a. ura_userId a = userId) (db_roleAssignments db) of
        None \<Rightarrow> None
      | Some a \<Rightarrow> List.find (\<lambda>r. rp_id r = ura_roleProfileId a) (db_roleProfiles db))"

definition getEffectivePolicy ::
  "AccessDb \<Rightarrow> ident \<Rightarrow> ident \<Rightarrow> UserRole option \<Rightarrow> EffectiveRolePolicy" where
  "getEffectivePolicy db organizationId userId userRole =
     (if userRole = Some OWNER \<or> userRole = Some ADMIN then fallbackPolicy userRole
      else case assigned_profile_of db userId of
        Some r \<Rightarrow>
          if rp_organizationId r = organizationId then policy_of_profile r
          else fallbackPolicy userRole
      | None \<Rightarrow> fallbackPolicy userRole)"

datatype RoleError = RoleOrUserNotFound

definition limits_of_profile :: "RoleProfile \<Rightarrow> AIUsageLimit \<Rightarrow> AIUsageLimit" where
  "limits_of_profile p l =
     l\<lparr> lim_maxTokensPerDay := maxTokensPerDay p, lim_maxTokensPerMonth := maxTokensPerMonth p,
        lim_maxRequestsPerDay := maxRequestsPerDay p,
        lim_maxRequestsPerMonth := maxRequestsPerMonth p,
        lim_maxStoriesPerMonth := maxStoriesPerMonth p \<rparr>"

text \<open>A limit row as the database creates it: absent columns \<open>null\<close>, warning threshold 80.\<close>

definition new_limit :: "ident \<Rightarrow> ident option \<Rightarrow> AIUsageLimit" where
  "new_limit org userId =
     \<lparr> lim_organizationId = org, lim_userId = userId,
       lim_maxTokensPerWeek = None, lim_maxTokensPerDay = None, lim_maxTokensPerMonth = None,
       lim_maxRequestsPerWeek = None, lim_maxRequestsPerDay = None,
       lim_maxRequestsPerMonth = None, lim_maxStoriesPerWeek = None,
       lim_maxStoriesPerMonth = None, lim_warningThresholdPct = 80 \<rparr>"

definition default_grant ::
  "ident \<Rightarrow> ident \<Rightarrow> ident \<Rightarrow> ident option \<Rightarrow> RoleProfile \<Rightarrow> UserAccountAccess" where
  "default_grant newId userId org assignedById p =
     \<lparr> uaa_id = newId, uaa_userId = userId, uaa_organizationId = org,
       uaa_scopeType = defaultAccountScopeType p,
       uaa_accountId =
         (if defaultAccountScopeType p = SINGLE_ACCOUNT
          then case defaultAccountIds p of [] \<Rightarrow> None | x # _ \<Rightarrow> Some x else None),
       uaa_crmReportId = None, uaa_crmProvider = None, uaa_crmReportName = None,
       uaa_cachedAccountIds =
         (if defaultAccountScopeType p = ACCOUNT_LIST then defaultAccountIds p else []),
       uaa_lastSyncedAt = None, uaa_grantedById = assignedById \<rparr>"

text \<open>
  The transaction of \<open>assignRoleToUser\<close>. An undefined \<open>assignedById\<close> in the \<open>update\<close> branch leaves the
  column as it is.
\<close>

definition assignRoleToUser ::
  "ident \<Rightarrow> ident \<Rightarrow> ident \<Rightarrow> ident \<Rightarrow> ident option \<Rightarrow> AccessDb \<Rightarrow> (RoleError, AccessDb) res" where
  "assignRoleToUser newId organizationId userId roleProfileId assignedById db =
     (case (List.find (\<lambda>r. rp_id r = roleProfileId \<and> rp_organizationId r = organizationId)
              (db_roleProfiles db),
            List.find (\<lambda>u. u_id u = userId \<and> u_organizationId u = organizationId)
              (db_users db)) of
        (Some profile, Some user) \<Rightarrow>
          Inr (db\<lparr>
            db_roleAssignments :=
              upsert (\<lambda>a. ura_userId a = userId)
                \<lparr> ura_userId = userId, ura_roleProfileId = roleProfileId,
                  ura_assignedById = assignedById \<rparr>
                (\<lambda>a. a\<lparr> ura_roleProfileId := roleProfileId,
                       ura_assignedById :=
                         (case assignedById of None \<Rightarrow> ura_assignedById a | Some b \<Rightarrow> Some b) \<rparr>)
                (db_roleAssignments db),
            db_usageLimits :=
              upsert (\<lambda>l. lim_organizationId l = organizationId \<and> lim_userId l = Some userId)
                (limits_of_profile profile (new_limit organizationId (Some userId)))
                (limits_of_profile profile)
                (db_usageLimits db),
            db_accountAccess :=
              delete_many (\<lambda>g. uaa_userId g = userId \<and> uaa_organizationId g = organizationId)
                (db_accountAccess db)
              @ [default_grant newId userId organizationId assignedById profile] \<rparr>)
      | _ \<Rightarrow> Inl RoleOrUserNotFound)"

section \<open>The presets in the table\<close>

lemma has_key_refresh [simp]: "has_key org k (refresh_preset p r) = has_key org k r"
  by (simp add: has_key_def refresh_preset_def profile_of_preset_def)

lemma has_key_new [simp]:
  "has_key org k (profile_of_preset i org' p) \<longleftrightarrow> org' = org \<and> in_key p = k"
  by (auto simp: has_key_def profile_of_preset_def)

text \<open>The columns of a preset row that \<open>ensurePresetRoles\<close> fixes.\<close>

definition preset_columns :: "RoleProfileInput \<Rightarrow> RoleProfile \<Rightarrow> bool" where
  "preset_columns p r \<longleftrightarrow> r = profile_of_preset (rp_id r) (rp_organizationId r) p"

lemma refresh_preset_columns:
  "has_key org (in_key p) r \<Longrightarrow> preset_columns p (refresh_preset p r)"
  by (simp add: preset_columns_def refresh_preset_def profile_of_preset_def has_key_def)

lemma refresh_preset_fixed:
  "preset_columns p r \<Longrightarrow> refresh_preset p r = r"
  by (simp add: preset_columns_def refresh_preset_def profile_of_preset_def)

text \<open>One step of the loop: every row under the preset's key has the preset's columns, one exists,
  and the rows under other keys are the ones there were.\<close>

definition preset_in :: "ident \<Rightarrow> RoleProfileInput \<Rightarrow> RoleProfile list \<Rightarrow> bool" where
  "preset_in org p rows \<longleftrightarrow>
     (\<exists>r \<in> set rows. has_key org (in_key p) r) \<and>
     (\<forall>r \<in> set rows. has_key org (in_key p) r \<longrightarrow> preset_columns p r)"

abbreviation ensure_one :: "(string \<Rightarrow> ident) \<Rightarrow> ident \<Rightarrow> RoleProfileInput \<Rightarrow> RoleProfile list \<Rightarrow> RoleProfile list" where
  "ensure_one newId org p \<equiv>
     upsert (has_key org (in_key p)) (profile_of_preset (newId (in_key p)) org p) (refresh_preset p)"

lemma preset_columns_new: "preset_columns p (profile_of_preset i org p)"
  by (simp add: preset_columns_def profile_of_preset_def)

lemma preset_in_ensure_one: "preset_in org p (ensure_one newId org p rows)"
proof (cases "\<exists>r \<in> set rows. has_key org (in_key p) r")
  case True
  then obtain r where "r \<in> set rows" "has_key org (in_key p) r" by blast
  then have "refresh_preset p r \<in> set (ensure_one newId org p rows)"
    by (auto simp: set_upsert)
  moreover have "has_key org (in_key p) (refresh_preset p r)"
    using \<open>has_key org (in_key p) r\<close> by simp
  moreover have "preset_columns p x"
    if "x \<in> set (ensure_one newId org p rows)" "has_key org (in_key p) x" for x
    using that True refresh_preset_columns by (auto simp: set_upsert)
  ultimately show ?thesis unfolding preset_in_def by blast
next
  case False
  then show ?thesis
    by (auto simp: preset_in_def set_upsert preset_columns_new)
qed

lemma filter_ensure_one_other:
  "(\<And>r. has_key org (in_key p) r \<Longrightarrow> \<not> q r) \<Longrightarrow> filter q (ensure_one newId org p rows) = filter q rows"
  by (rule filter_upsert_other) simp_all

lemma has_key_neq: "has_key org k r \<Longrightarrow> k \<noteq> k' \<Longrightarrow> \<not> has_key org k' r"
  by (simp add: has_key_def)

lemma filter_fold_ensure_other:
  "(\<And>p r. p \<in> set ps \<Longrightarrow> has_key org (in_key p) r \<Longrightarrow> \<not> q r) \<Longrightarrow>
     filter q (fold (ensure_one newId org) ps rows) = filter q rows"
proof (induction ps arbitrary: rows)
  case (Cons p ps)
  have "filter q (fold (ensure_one newId org) ps (ensure_one newId org p rows)) =
          filter q (ensure_one newId org p rows)"
    by (rule Cons.IH) (use Cons.prems in auto)
  also have "\<dots> = filter q rows"
    by (rule filter_ensure_one_other) (use Cons.prems in auto)
  finally show ?case by simp
qed simp

lemma preset_in_filter: "preset_in org p rows \<longleftrightarrow> preset_in org p (filter (has_key org (in_key p)) rows)"
  by (auto simp: preset_in_def)

lemma ensure_one_fixed: "preset_in org p rows \<Longrightarrow> ensure_one newId org p rows = rows"
  by (auto simp: preset_in_def upsert_def list_ex_iff update_many_def refresh_preset_fixed
      intro!: map_idI)

lemma preset_in_fold:
  "distinct (map in_key ps) \<Longrightarrow> p \<in> set ps \<Longrightarrow> preset_in org p (fold (ensure_one newId org) ps rows)"
proof (induction ps arbitrary: rows)
  case (Cons q ps)
  show ?case
  proof (cases "p \<in> set ps")
    case True
    with Cons show ?thesis by simp
  next
    case False
    with Cons.prems have p: "p = q" and "in_key q \<notin> in_key ` set ps"
      by auto
    then have "has_key org (in_key x) r \<Longrightarrow> \<not> has_key org (in_key q) r" if "x \<in> set ps" for x r
      using that by (auto simp: has_key_def image_iff)
    then have "filter (has_key org (in_key q)) (fold (ensure_one newId org) ps rows') =
            filter (has_key org (in_key q)) rows'" for rows'
      by (rule filter_fold_ensure_other)
    then show ?thesis
      using p preset_in_ensure_one [of org q newId rows]
        preset_in_filter [of org q "ensure_one newId org q rows"]
        preset_in_filter [of org q "fold (ensure_one newId org) ps (ensure_one newId org q rows)"]
      by simp
  qed
qed simp

lemma fold_ensure_fixed:
  "(\<And>p. p \<in> set ps \<Longrightarrow> preset_in org p rows) \<Longrightarrow> fold (ensure_one newId org) ps rows = rows"
  by (induction ps) (simp_all add: ensure_one_fixed)

lemma distinct_preset_keys: "distinct (map in_key PRESETS)"
  by (simp add: PRESETS_def preset_def)

text \<open>
  \<open>ensurePresetRoles\<close> brings every preset of the source into the organization's table exactly as
  the source declares it, running it again changes nothing, and the rows that are not presets of
  the organization (custom profiles, other organizations) are untouched and keep their order.
\<close>

theorem ensurePresetRoles_correct:
  "list_all (\<lambda>p. preset_in org p (ensurePresetRoles newId org rows)) PRESETS \<and>
   ensurePresetRoles newId' org (ensurePresetRoles newId org rows) = ensurePresetRoles newId org rows \<and>
   filter (\<lambda>r. \<not> (rp_organizationId r = org \<and> rp_key r \<in> in_key ` set PRESETS))
     (ensurePresetRoles newId org rows) =
   filter (\<lambda>r. \<not> (rp_organizationId r = org \<and> rp_key r \<in> in_key ` set PRESETS)) rows"
proof (intro conjI)
  show "list_all (\<lambda>p. preset_in org p (ensurePresetRoles newId org rows)) PRESETS"
    unfolding ensurePresetRoles_def list_all_iff
    using preset_in_fold [OF distinct_preset_keys] by blast
  show "ensurePresetRoles newId' org (ensurePresetRoles newId org rows) =
          ensurePresetRoles newId org rows"
    unfolding ensurePresetRoles_def
    using fold_ensure_fixed preset_in_fold [OF distinct_preset_keys] by blast
  show "filter (\<lambda>r. \<not> (rp_organizationId r = org \<and> rp_key r \<in> in_key ` set PRESETS))
          (ensurePresetRoles newId org rows) =
        filter (\<lambda>r. \<not> (rp_organizationId r = org \<and> rp_key r \<in> in_key ` set PRESETS)) rows"
    unfolding ensurePresetRoles_def
    by (rule filter_fold_ensure_other) (auto simp: has_key_def)
qed

section \<open>Assignment\<close>

lemma limits_key [simp]:
  "lim_organizationId (limits_of_profile p l) = lim_organizationId l"
  "lim_userId (limits_of_profile p l) = lim_userId l"
  "lim_organizationId (new_limit org u) = org"
  "lim_userId (new_limit org u) = u"
  by (simp_all add: limits_of_profile_def new_limit_def)

lemma assignRoleToUser_InrD:
  assumes "assignRoleToUser newId org uid pid by' db = Inr db'"
  obtains p where "List.find (\<lambda>r. rp_id r = pid \<and> rp_organizationId r = org) (db_roleProfiles db) = Some p"
    "rp_id p = pid" "rp_organizationId p = org" "p \<in> set (db_roleProfiles db)"
    "db_roleProfiles db' = db_roleProfiles db"
    "db_accountAccess db' =
       delete_many (\<lambda>g. uaa_userId g = uid \<and> uaa_organizationId g = org) (db_accountAccess db)
       @ [default_grant newId uid org by' p]"
    "db_usageLimits db' =
       upsert (\<lambda>l. lim_organizationId l = org \<and> lim_userId l = Some uid)
         (limits_of_profile p (new_limit org (Some uid))) (limits_of_profile p) (db_usageLimits db)"
    "\<And>v. List.find (\<lambda>a. ura_userId a = v) (db_roleAssignments db') =
          (if v = uid then
             Some (case List.find (\<lambda>a. ura_userId a = uid) (db_roleAssignments db) of
               None \<Rightarrow> \<lparr> ura_userId = uid, ura_roleProfileId = pid, ura_assignedById = by' \<rparr>
             | Some a \<Rightarrow> a\<lparr> ura_roleProfileId := pid, ura_assignedById :=
                 (case by' of None \<Rightarrow> ura_assignedById a | Some b \<Rightarrow> Some b) \<rparr>)
           else List.find (\<lambda>a. ura_userId a = v) (db_roleAssignments db))"
proof -
  from assms obtain p u where
    p: "List.find (\<lambda>r. rp_id r = pid \<and> rp_organizationId r = org) (db_roleProfiles db) = Some p"
    and "List.find (\<lambda>u. u_id u = uid \<and> u_organizationId u = org) (db_users db) = Some u"
    by (auto simp: assignRoleToUser_def split: option.splits)
  with assms show ?thesis
    using find_SomeD [OF p]
    by (intro that [OF p]) (auto simp: assignRoleToUser_def find_upsert_same intro!: find_upsert_other)
qed


definition sample_profile :: RoleProfile where
  "sample_profile = profile_of_preset ''p1'' ''org'' (PRESETS ! 1)"

definition sample_access_db :: AccessDb where
  "sample_access_db =
     \<lparr> db_users = [\<lparr> u_id = ''u1'', u_organizationId = ''org'', u_role = MEMBER \<rparr>],
       db_roleProfiles = [sample_profile], db_roleAssignments = [], db_usageLimits = [],
       db_accountAccess = [], db_userPermissions = [], db_orgSettings = [] \<rparr>"

lemmas sample_access_defs =
  sample_access_db_def sample_profile_def PRESETS_def preset_def profile_of_preset_def

lemma sample_assign:
  "\<exists>db'. assignRoleToUser ''g'' ''org'' ''u1'' ''p1'' None sample_access_db = Inr db'"
  by (simp add: assignRoleToUser_def sample_access_defs)


end
