(* ===== verification/Account_Access.thy ===== *)
theory Account_Access
  imports Schema Role_Profiles
begin

text \<open>
  \<open>src/services/account-access.ts\<close>: which accounts a user may work on. The per-account check
  \<open>canAccessAccount\<close> and the listing \<open>getAccessibleAccountIds\<close> are two loops over the same grants;
  the locale \<open>account_scope\<close> states the contract they share and the listing endpoints rely on.
\<close>

section \<open>Operations\<close>

fun canAccess_loop :: "ident \<Rightarrow> UserAccountAccess list \<Rightarrow> bool" where
  "canAccess_loop accountId [] = False"
| "canAccess_loop accountId (grant # grants) =
    (case uaa_scopeType grant of
       ALL_ACCOUNTS \<Rightarrow> True
     | SINGLE_ACCOUNT \<Rightarrow>
         if uaa_accountId grant = Some accountId then True else canAccess_loop accountId grants
     | ACCOUNT_LIST \<Rightarrow>
         if accountId \<in> set (uaa_cachedAccountIds grant) then True else canAccess_loop accountId grants
     | CRM_REPORT \<Rightarrow>
         if accountId \<in> set (uaa_cachedAccountIds grant) then True else canAccess_loop accountId grants)"

definition user_grants :: "ident \<Rightarrow> ident \<Rightarrow> UserAccountAccess list \<Rightarrow> UserAccountAccess list" where
  "user_grants userId organizationId rows =
     filter (\<lambda>g. uaa_userId g = userId \<and> uaa_organizationId g = organizationId) rows"

definition canAccessAccount ::
  "UserAccountAccess list \<Rightarrow> ident \<Rightarrow> ident \<Rightarrow> ident \<Rightarrow> UserRole option \<Rightarrow> bool" where
  "canAccessAccount rows userId organizationId accountId userRole =
     (if userRole = Some OWNER \<or> userRole = Some ADMIN then True
      else let grants = user_grants userId organizationId rows in
        if grants = [] then False else canAccess_loop accountId grants)"

text \<open>\<open>None\<close> is the \<open>null\<close> that means every account; the accumulator is the \<open>Set\<close> of ids.\<close>

fun accessible_loop :: "ident list \<Rightarrow> UserAccountAccess list \<Rightarrow> ident list option" where
  "accessible_loop accountIds [] = Some accountIds"
| "accessible_loop accountIds (grant # grants) =
    (case uaa_scopeType grant of
       ALL_ACCOUNTS \<Rightarrow> None
     | SINGLE_ACCOUNT \<Rightarrow>
         accessible_loop
           (if truthy (uaa_accountId grant) then js_add (the (uaa_accountId grant)) accountIds
            else accountIds) grants
     | ACCOUNT_LIST \<Rightarrow> accessible_loop (fold js_add (uaa_cachedAccountIds grant) accountIds) grants
     | CRM_REPORT \<Rightarrow> accessible_loop (fold js_add (uaa_cachedAccountIds grant) accountIds) grants)"

definition getAccessibleAccountIds ::
  "UserAccountAccess list \<Rightarrow> ident \<Rightarrow> ident \<Rightarrow> UserRole option \<Rightarrow> ident list option" where
  "getAccessibleAccountIds rows userId organizationId userRole =
     (if userRole = Some OWNER \<or> userRole = Some ADMIN then None
      else let grants = user_grants userId organizationId rows in
        if grants = [] then Some [] else accessible_loop [] grants)"

record AccountAccessGrant =
  gr_userId :: ident
  gr_organizationId :: ident
  gr_scopeType :: AccountScopeType
  gr_accountId :: "ident option"
  gr_accountIds :: "ident list option"
  gr_crmReportId :: "string option"
  gr_crmProvider :: "CRMProvider option"
  gr_crmReportName :: "string option"
  gr_grantedById :: ident

text \<open>\<open>newId\<close> is the id the database gives the row, the string \<open>grantAccess\<close> returns.\<close>

definition grantAccess ::
  "ident \<Rightarrow> AccountAccessGrant \<Rightarrow> UserAccountAccess list \<Rightarrow> UserAccountAccess list" where
  "grantAccess newId inp rows = rows @
     [\<lparr> uaa_id = newId, uaa_userId = gr_userId inp, uaa_organizationId = gr_organizationId inp,
        uaa_scopeType = gr_scopeType inp,
        uaa_accountId =
          (if gr_scopeType inp = SINGLE_ACCOUNT \<and> truthy (gr_accountId inp)
           then gr_accountId inp else None),
        uaa_crmReportId = (if gr_scopeType inp = CRM_REPORT then gr_crmReportId inp else None),
        uaa_crmProvider = (if gr_scopeType inp = CRM_REPORT then gr_crmProvider inp else None),
        uaa_crmReportName = (if gr_scopeType inp = CRM_REPORT then gr_crmReportName inp else None),
        uaa_cachedAccountIds =
          (if gr_scopeType inp = ACCOUNT_LIST
           then case gr_accountIds inp of None \<Rightarrow> [] | Some ids \<Rightarrow> ids else []),
        uaa_lastSyncedAt = None, uaa_grantedById = Some (gr_grantedById inp) \<rparr>]"

datatype AccessError = GrantNotFound | NotCrmReport

text \<open>\<open>delete\<close> by id throws when there is no such row.\<close>

definition revokeAccess ::
  "ident \<Rightarrow> UserAccountAccess list \<Rightarrow> (AccessError, UserAccountAccess list) res" where
  "revokeAccess grantId rows =
     (if list_ex (\<lambda>g. uaa_id g = grantId) rows
      then Inr (delete_many (\<lambda>g. uaa_id g = grantId) rows) else Inl GrantNotFound)"

definition findGrantById ::
  "ident \<Rightarrow> ident \<Rightarrow> UserAccountAccess list \<Rightarrow> UserAccountAccess option" where
  "findGrantById grantId organizationId rows =
     List.find (\<lambda>g. uaa_id g = grantId \<and> uaa_organizationId g = organizationId) rows"

text \<open>The source's placeholder: no CRM is called and the report is empty.\<close>

definition fetchCrmReportAccountIds :: "ident \<Rightarrow> CRMProvider option \<Rightarrow> string \<Rightarrow> ident list" where
  "fetchCrmReportAccountIds organizationId provider reportId = []"

definition matchCrmIdsToAccounts ::
  "Account list \<Rightarrow> ident \<Rightarrow> CRMProvider option \<Rightarrow> ident list \<Rightarrow> ident list" where
  "matchCrmIdsToAccounts accounts organizationId provider crmAccountIds =
     (if crmAccountIds = [] then []
      else let field = (if provider = Some SALESFORCE then a_salesforceId else a_hubspotId) in
        map a_id (filter (\<lambda>a. a_organizationId a = organizationId \<and>
                              (case field a of None \<Rightarrow> False | Some x \<Rightarrow> x \<in> set crmAccountIds))
                    accounts))"

definition syncCrmReportGrant ::
  "millis \<Rightarrow> Account list \<Rightarrow> ident \<Rightarrow> UserAccountAccess list \<Rightarrow>
     (AccessError, nat \<times> UserAccountAccess list) res" where
  "syncCrmReportGrant now accounts grantId rows =
     (case List.find (\<lambda>g. uaa_id g = grantId) rows of
        None \<Rightarrow> Inl GrantNotFound
      | Some grant \<Rightarrow>
          if uaa_scopeType grant \<noteq> CRM_REPORT \<or> \<not> truthy (uaa_crmReportId grant)
          then Inl NotCrmReport
          else let
            accountIds = fetchCrmReportAccountIds (uaa_organizationId grant) (uaa_crmProvider grant)
                           (the (uaa_crmReportId grant));
            matchedAccounts = matchCrmIdsToAccounts accounts (uaa_organizationId grant)
                                (uaa_crmProvider grant) accountIds
          in Inr (length matchedAccounts,
               update_many (\<lambda>g. uaa_id g = grantId)
                 (\<lambda>g. g\<lparr> uaa_cachedAccountIds := matchedAccounts, uaa_lastSyncedAt := Some now \<rparr>) rows))"

text \<open>A grant whose sync throws is logged and skipped.\<close>

definition syncAllCrmReports ::
  "millis \<Rightarrow> Account list \<Rightarrow> ident \<Rightarrow> UserAccountAccess list \<Rightarrow> UserAccountAccess list" where
  "syncAllCrmReports now accounts organizationId rows =
     fold (\<lambda>grant rs. case syncCrmReportGrant now accounts (uaa_id grant) rs of
             Inl _ \<Rightarrow> rs | Inr (_, rs') \<Rightarrow> rs')
       (filter (\<lambda>g. uaa_organizationId g = organizationId \<and> uaa_scopeType g = CRM_REPORT) rows) rows"

text \<open>
  The account selector of \<open>GET /api/rag/accounts\<close>: the rows its \<open>where\<close> clause admits. \<open>contains\<close> is
  the database's case-insensitive containment of the trimmed search text.
\<close>

definition rag_accounts ::
  "(string \<Rightarrow> string \<Rightarrow> bool) \<Rightarrow> UserAccountAccess list \<Rightarrow> Account list \<Rightarrow> ident \<Rightarrow> ident \<Rightarrow>
     UserRole option \<Rightarrow> string option \<Rightarrow> Account list" where
  "rag_accounts contains rows accounts orgId userId userRole search =
     (let accessibleIds = getAccessibleAccountIds rows userId orgId userRole;
          s = map_option trim search in
      filter (\<lambda>a. a_organizationId a = orgId \<and>
                  (case accessibleIds of None \<Rightarrow> True | Some ids \<Rightarrow> a_id a \<in> set ids) \<and>
                  (truthy s \<longrightarrow> contains (the s) (a_name a))) accounts)"

section \<open>The contract of an account scope\<close>

text \<open>
  A check of one account and a listing of the accounts in scope that agree. An empty account id is
  outside the contract: the check compares it, the listing drops it.
\<close>

locale account_scope =
  fixes can :: "'req \<Rightarrow> ident \<Rightarrow> bool"
    and listed :: "'req \<Rightarrow> ident list option"
  assumes agree: "acc \<noteq> [] \<Longrightarrow>
    can r acc \<longleftrightarrow> (case listed r of None \<Rightarrow> True | Some ids \<Rightarrow> acc \<in> set ids)"
begin

lemma none_listed_can: "listed r = None \<Longrightarrow> acc \<noteq> [] \<Longrightarrow> can r acc"
  by (simp add: agree)

lemma empty_listed_cannot: "listed r = Some [] \<Longrightarrow> acc \<noteq> [] \<Longrightarrow> \<not> can r acc"
  by (simp add: agree)

text \<open>Scoping a query by the listing admits exactly the rows the per-account check admits.\<close>

lemma scoped_query:
  assumes "\<And>x. x \<in> set xs \<Longrightarrow> acc_of x \<noteq> []"
  shows "filter (\<lambda>x. case listed r of None \<Rightarrow> True | Some ids \<Rightarrow> acc_of x \<in> set ids) xs =
         filter (\<lambda>x. can r (acc_of x)) xs"
  using assms by (intro filter_cong) (simp_all add: agree)

end

section \<open>The loops agree\<close>

text \<open>What one grant gives.\<close>

definition grant_gives :: "UserAccountAccess \<Rightarrow> ident \<Rightarrow> bool" where
  "grant_gives g acc \<longleftrightarrow>
     (case uaa_scopeType g of
        ALL_ACCOUNTS \<Rightarrow> True
      | SINGLE_ACCOUNT \<Rightarrow> uaa_accountId g = Some acc
      | ACCOUNT_LIST \<Rightarrow> acc \<in> set (uaa_cachedAccountIds g)
      | CRM_REPORT \<Rightarrow> acc \<in> set (uaa_cachedAccountIds g))"

lemma canAccess_loop_iff: "canAccess_loop acc gs \<longleftrightarrow> (\<exists>g \<in> set gs. grant_gives g acc)"
  by (induction gs) (auto simp: grant_gives_def split: AccountScopeType.splits)

lemma accessible_loop_None:
  "accessible_loop acs gs = None \<longleftrightarrow> (\<exists>g \<in> set gs. uaa_scopeType g = ALL_ACCOUNTS)"
  by (induction acs gs rule: accessible_loop.induct) (auto split: AccountScopeType.splits)

lemma accessible_loop_Some:
  "accessible_loop acs gs = Some ids \<Longrightarrow> acc \<noteq> [] \<Longrightarrow>
     acc \<in> set ids \<longleftrightarrow> acc \<in> set acs \<or> (\<exists>g \<in> set gs. grant_gives g acc)"
  by (induction acs gs rule: accessible_loop.induct)
    (auto simp: grant_gives_def split: AccountScopeType.splits if_splits elim!: truthyE)

lemma accessible_loop_distinct:
  "accessible_loop acs gs = Some ids \<Longrightarrow> distinct acs \<Longrightarrow> distinct ids"
  by (induction acs gs rule: accessible_loop.induct) (auto split: AccountScopeType.splits if_splits)

lemma canAccessAccount_iff:
  "canAccessAccount rows uid org acc role \<longleftrightarrow>
     role = Some OWNER \<or> role = Some ADMIN \<or> (\<exists>g \<in> set (user_grants uid org rows). grant_gives g acc)"
  by (auto simp: canAccessAccount_def Let_def canAccess_loop_iff)

type_synonym scope_request = "UserAccountAccess list \<times> ident \<times> ident \<times> UserRole option"

definition can_request :: "scope_request \<Rightarrow> ident \<Rightarrow> bool" where
  "can_request r acc = (case r of (rows, uid, org, role) \<Rightarrow> canAccessAccount rows uid org acc role)"

definition listed_request :: "scope_request \<Rightarrow> ident list option" where
  "listed_request r = (case r of (rows, uid, org, role) \<Rightarrow> getAccessibleAccountIds rows uid org role)"

lemma check_agrees_with_listing:
  assumes "acc \<noteq> []"
  shows "canAccessAccount rows uid org acc role \<longleftrightarrow>
    (case getAccessibleAccountIds rows uid org role of None \<Rightarrow> True | Some ids \<Rightarrow> acc \<in> set ids)"
proof (cases "accessible_loop [] (user_grants uid org rows)")
  case None
  then obtain g where "g \<in> set (user_grants uid org rows)" "uaa_scopeType g = ALL_ACCOUNTS"
    by (auto simp: accessible_loop_None)
  then have "\<exists>g \<in> set (user_grants uid org rows). grant_gives g acc"
    by (intro bexI [of _ g]) (simp_all add: grant_gives_def)
  with None show ?thesis
    by (auto simp: canAccessAccount_iff getAccessibleAccountIds_def Let_def)
next
  case (Some ids)
  with accessible_loop_Some [OF Some assms] show ?thesis
    by (auto simp: canAccessAccount_iff getAccessibleAccountIds_def Let_def)
qed

interpretation acct: account_scope can_request listed_request
  by unfold_locales
    (simp add: can_request_def listed_request_def check_agrees_with_listing split: prod.splits)

section \<open>Properties\<close>


definition sample_grant :: UserAccountAccess where
  "sample_grant =
     \<lparr> uaa_id = ''g1'', uaa_userId = ''u1'', uaa_organizationId = ''org'',
       uaa_scopeType = ACCOUNT_LIST, uaa_accountId = None, uaa_crmReportId = None,
       uaa_crmProvider = None, uaa_crmReportName = None, uaa_cachedAccountIds = [''a1'', ''a2'', ''a1''],
       uaa_lastSyncedAt = None, uaa_grantedById = None \<rparr>"


text \<open>
  A grant adds exactly what its scope gives, to its user in its organization and to nobody else,
  and revoking it by its (fresh) id restores the table; revoking an id that is not there is an error.
\<close>

theorem grant_then_revoke:
  assumes "newId \<notin> uaa_id ` set rows"
    and "role \<notin> {Some OWNER, Some ADMIN}"
  shows "canAccessAccount (grantAccess newId inp rows) uid org acc role =
       (canAccessAccount rows uid org acc role \<or>
        uid = gr_userId inp \<and> org = gr_organizationId inp \<and>
        (case gr_scopeType inp of
           ALL_ACCOUNTS \<Rightarrow> True
         | SINGLE_ACCOUNT \<Rightarrow> acc \<noteq> [] \<and> gr_accountId inp = Some acc
         | ACCOUNT_LIST \<Rightarrow> acc \<in> set (case gr_accountIds inp of None \<Rightarrow> [] | Some ids \<Rightarrow> ids)
         | CRM_REPORT \<Rightarrow> False)) \<and>
    revokeAccess newId (grantAccess newId inp rows) = Inr rows \<and>
    revokeAccess newId rows = Inl GrantNotFound"
proof (intro conjI)
  show "canAccessAccount (grantAccess newId inp rows) uid org acc role =
       (canAccessAccount rows uid org acc role \<or>
        uid = gr_userId inp \<and> org = gr_organizationId inp \<and>
        (case gr_scopeType inp of
           ALL_ACCOUNTS \<Rightarrow> True
         | SINGLE_ACCOUNT \<Rightarrow> acc \<noteq> [] \<and> gr_accountId inp = Some acc
         | ACCOUNT_LIST \<Rightarrow> acc \<in> set (case gr_accountIds inp of None \<Rightarrow> [] | Some ids \<Rightarrow> ids)
         | CRM_REPORT \<Rightarrow> False))"
    using assms(2)
    by (cases "gr_scopeType inp")
      (auto simp: canAccessAccount_iff grantAccess_def user_grants_def grant_gives_def elim: truthyE)
  show "revokeAccess newId (grantAccess newId inp rows) = Inr rows"
    using assms(1)
    by (auto simp: revokeAccess_def grantAccess_def delete_many_def filter_id_conv)
  show "revokeAccess newId rows = Inl GrantNotFound"
    using assms(1) by (auto simp: revokeAccess_def list_ex_iff)
qed

definition sample_grant_input :: AccountAccessGrant where
  "sample_grant_input =
     \<lparr> gr_userId = ''u1'', gr_organizationId = ''org'', gr_scopeType = SINGLE_ACCOUNT,
       gr_accountId = Some ''a9'', gr_accountIds = None, gr_crmReportId = None,
       gr_crmProvider = None, gr_crmReportName = None, gr_grantedById = ''admin'' \<rparr>"

theorem grant_then_revoke_witness:
  "canAccessAccount (grantAccess ''g2'' sample_grant_input [sample_grant]) ''u1'' ''org'' ''a9'' (Some VIEWER)"
  using grant_then_revoke [of "''g2''" "[sample_grant]" "Some VIEWER" sample_grant_input "''u1''" "''org''" "''a9''"]
  by (simp add: sample_grant_def sample_grant_input_def)

text \<open>
  Syncing a CRM report grant always empties it: the report fetch is a placeholder that returns
  nothing, so a sync that succeeds reports zero accounts, clears the grant's cached ids and thereby
  takes away whatever access the grant gave; the other grants are untouched. A grant of another type
  or without a report id is an error.
\<close>

theorem syncCrmReportGrant_empties:
  assumes "List.find (\<lambda>g. uaa_id g = gid) rows = Some g"
  shows "(case syncCrmReportGrant now accounts gid rows of
            Inl e \<Rightarrow> e = NotCrmReport \<and> (uaa_scopeType g \<noteq> CRM_REPORT \<or> \<not> truthy (uaa_crmReportId g))
          | Inr (n, rows') \<Rightarrow>
              uaa_scopeType g = CRM_REPORT \<and> truthy (uaa_crmReportId g) \<and> n = 0 \<and>
              List.find (\<lambda>h. uaa_id h = gid) rows' =
                Some (g\<lparr> uaa_cachedAccountIds := [], uaa_lastSyncedAt := Some now \<rparr>) \<and>
              (\<forall>acc. \<not> grant_gives (the (List.find (\<lambda>h. uaa_id h = gid) rows')) acc) \<and>
              filter (\<lambda>h. uaa_id h \<noteq> gid) rows' = filter (\<lambda>h. uaa_id h \<noteq> gid) rows)"
  using assms find_SomeD [OF assms]
  by (auto simp: syncCrmReportGrant_def fetchCrmReportAccountIds_def matchCrmIdsToAccounts_def Let_def
      find_update_many grant_gives_def filter_update_many_other)

definition sample_crm_grant :: UserAccountAccess where
  "sample_crm_grant = sample_grant\<lparr> uaa_scopeType := CRM_REPORT, uaa_crmReportId := Some ''r1'' \<rparr>"

theorem syncCrmReportGrant_empties_witness:
  "grant_gives sample_crm_grant ''a1'' \<and>
   (\<exists>rows'. syncCrmReportGrant 5 [] ''g1'' [sample_crm_grant] = Inr (0, rows'))"
  using syncCrmReportGrant_empties [of "''g1''" "[sample_crm_grant]" sample_crm_grant 5 "[]"]
  by (auto simp: sample_crm_grant_def sample_grant_def grant_gives_def split: sum.splits)

end
