(* ===== verification/Policy_Engine.thy ===== *)
theory Policy_Engine
  imports Account_Access
begin

text \<open>
  \<open>src/services/policy-engine.ts\<close> and \<open>src/middleware/permissions.ts\<close>: the decision procedure for an
  action of a user, the Express guards built on it, and the administration of permissions and
  organization settings. A guard returns \<open>Next\<close> (the handler runs) or the HTTP status and error it
  sends.
\<close>

section \<open>The decision procedure\<close>

datatype PolicyAction =
    create_landing_page | publish_landing_page | edit_any_landing_page | delete_any_landing_page
  | manage_permissions | view_analytics | view_queue_health | manage_integrations | view_audit_logs
  | export_pii | view_named_story | view_anonymous_story | generate_named_story
  | generate_anonymous_story

text \<open>\<open>pol_piiExportEnabled\<close> is \<open>orgDataGovernancePolicy?.pii_export_enabled\<close>.\<close>

record PolicyEvaluationInput =
  pol_action :: PolicyAction
  pol_organizationId :: ident
  pol_userId :: ident
  pol_userRole :: "UserRole option"
  pol_accountId :: "ident option"
  pol_piiExportEnabled :: "bool option"

datatype PolicyReason =
    admin_bypass | role_profile_allow | user_permission_allow | account_scope_denied
  | story_sensitivity_denied | org_policy_denied | permission_denied

record PolicyDecision =
  allowed :: bool
  reason :: PolicyReason
  requiredPermission :: "PermissionType option"

fun ACTION_PERMISSION_MATRIX :: "PolicyAction \<Rightarrow> PermissionType option" where
  "ACTION_PERMISSION_MATRIX create_landing_page = Some CREATE_LANDING_PAGE"
| "ACTION_PERMISSION_MATRIX publish_landing_page = Some PUBLISH_LANDING_PAGE"
| "ACTION_PERMISSION_MATRIX edit_any_landing_page = Some EDIT_ANY_LANDING_PAGE"
| "ACTION_PERMISSION_MATRIX delete_any_landing_page = Some DELETE_ANY_LANDING_PAGE"
| "ACTION_PERMISSION_MATRIX manage_permissions = Some MANAGE_PERMISSIONS"
| "ACTION_PERMISSION_MATRIX view_analytics = Some VIEW_ANALYTICS"
| "ACTION_PERMISSION_MATRIX view_queue_health = Some MANAGE_PERMISSIONS"
| "ACTION_PERMISSION_MATRIX manage_integrations = Some MANAGE_PERMISSIONS"
| "ACTION_PERMISSION_MATRIX view_audit_logs = Some MANAGE_PERMISSIONS"
| "ACTION_PERMISSION_MATRIX _ = None"

definition ADMIN_ROLES :: "UserRole list" where
  "ADMIN_ROLES = [OWNER, ADMIN]"

definition is_admin :: "UserRole option \<Rightarrow> bool" where
  "is_admin r = (case r of None \<Rightarrow> False | Some role \<Rightarrow> role \<in> set ADMIN_ROLES)"

definition has_user_permission :: "AccessDb \<Rightarrow> ident \<Rightarrow> PermissionType \<Rightarrow> bool" where
  "has_user_permission db userId perm =
     (List.find (\<lambda>p. up_userId p = userId \<and> up_permission p = perm) (db_userPermissions db) \<noteq> None)"

definition deny :: "PolicyReason \<Rightarrow> PolicyDecision" where
  "deny r = \<lparr> allowed = False, reason = r, requiredPermission = None \<rparr>"

definition evaluate :: "AccessDb \<Rightarrow> PolicyEvaluationInput \<Rightarrow> PolicyDecision" where
  "evaluate db inp =
    (if is_admin (pol_userRole inp) then
       \<lparr> allowed = True, reason = admin_bypass, requiredPermission = None \<rparr>
     else let
       rolePolicy = getEffectivePolicy db (pol_organizationId inp) (pol_userId inp) (pol_userRole inp);
       action = pol_action inp
     in
       if action = export_pii \<and> pol_piiExportEnabled inp = Some False then deny org_policy_denied
       else if (action = view_named_story \<or> action = generate_named_story) \<and>
               (\<not> canAccessNamedStories rolePolicy \<or> \<not> canGenerateNamedStories rolePolicy)
       then deny story_sensitivity_denied
       else if (action = view_anonymous_story \<or> action = generate_anonymous_story) \<and>
               \<not> (if action = view_anonymous_story then canAccessAnonymousStories rolePolicy
                  else canGenerateAnonymousStories rolePolicy)
       then deny story_sensitivity_denied
       else if truthy (pol_accountId inp) \<and>
               \<not> canAccessAccount (db_accountAccess db) (pol_userId inp) (pol_organizationId inp)
                   (the (pol_accountId inp)) (pol_userRole inp)
       then deny account_scope_denied
       else (case ACTION_PERMISSION_MATRIX action of
           Some perm \<Rightarrow>
             if perm \<in> set (permissions rolePolicy) then
               \<lparr> allowed = True, reason = role_profile_allow, requiredPermission = Some perm \<rparr>
             else if has_user_permission db (pol_userId inp) perm then
               \<lparr> allowed = True, reason = user_permission_allow, requiredPermission = Some perm \<rparr>
             else \<lparr> allowed = False, reason = permission_denied, requiredPermission = Some perm \<rparr>
         | None \<Rightarrow> \<lparr> allowed = True, reason = role_profile_allow, requiredPermission = None \<rparr>))"

definition legacyPermissionActionToPolicyAction :: "string \<Rightarrow> PolicyAction option" where
  "legacyPermissionActionToPolicyAction action =
     map_of [(''create'', create_landing_page), (''publish'', publish_landing_page),
             (''edit_any'', edit_any_landing_page), (''delete_any'', delete_any_landing_page),
             (''manage_permissions'', manage_permissions), (''view_analytics'', view_analytics)] action"

section \<open>Guards\<close>

record AuthRequest =
  req_organizationId :: "ident option"
  req_userId :: "ident option"
  req_userRole :: "UserRole option"

datatype guard = Next | Status nat string

definition org_settings :: "AccessDb \<Rightarrow> ident \<Rightarrow> OrgSettings option" where
  "org_settings db org = List.find (\<lambda>s. os_organizationId s = org) (db_orgSettings db)"

definition requireLandingPagesEnabled :: "AccessDb \<Rightarrow> AuthRequest \<Rightarrow> guard" where
  "requireLandingPagesEnabled db req =
     (if \<not> truthy (req_organizationId req) then Status 401 ''Authentication required''
      else case org_settings db (the (req_organizationId req)) of
        Some settings \<Rightarrow>
          if \<not> os_landingPagesEnabled settings then Status 403 ''feature_disabled'' else Next
      | None \<Rightarrow> Next)"

definition requirePermission :: "string \<Rightarrow> AccessDb \<Rightarrow> AuthRequest \<Rightarrow> guard" where
  "requirePermission action db req =
     (if \<not> truthy (req_userId req) \<or> \<not> truthy (req_organizationId req)
      then Status 401 ''Authentication required''
      else if is_admin (req_userRole req) then Next
      else case legacyPermissionActionToPolicyAction action of
        None \<Rightarrow> Status 500 (''Unknown permission action: '' @ action)
      | Some policyAction \<Rightarrow>
          let organizationId = the (req_organizationId req);
              settings = org_settings db organizationId;
              decision = evaluate db
                \<lparr> pol_action = policyAction, pol_organizationId = organizationId,
                  pol_userId = the (req_userId req), pol_userRole = req_userRole req,
                  pol_accountId = None,
                  pol_piiExportEnabled = Option.bind settings os_piiExportEnabled \<rparr>
          in if allowed decision then Next
             else if action = ''publish'' \<and>
                     (case (req_userRole req, settings) of
                        (Some role, Some s) \<Rightarrow> role \<in> set (os_allowedPublishers s) | _ \<Rightarrow> False)
             then Next
             else Status 403 ''permission_denied'')"

definition requirePageOwnerOrPermission ::
  "AccessDb \<Rightarrow> LandingPage list \<Rightarrow> AuthRequest \<Rightarrow> ident \<Rightarrow> guard" where
  "requirePageOwnerOrPermission db pages req pageId =
     (if \<not> truthy (req_userId req) \<or> \<not> truthy (req_organizationId req)
      then Status 401 ''Authentication required''
      else if is_admin (req_userRole req) then Next
      else let userId = the (req_userId req); organizationId = the (req_organizationId req) in
        case List.find (\<lambda>p. lp_id p = pageId \<and> lp_organizationId p = organizationId) pages of
          None \<Rightarrow> Status 404 ''Landing page not found''
        | Some page \<Rightarrow>
            if lp_createdById page = userId then Next
            else if EDIT_ANY_LANDING_PAGE \<in>
                      set (permissions (getEffectivePolicy db organizationId userId (req_userRole req)))
            then Next
            else if has_user_permission db userId EDIT_ANY_LANDING_PAGE then Next
            else Status 403 ''permission_denied'')"

section \<open>PermissionManager\<close>

definition grantPermission :: "ident \<Rightarrow> PermissionType \<Rightarrow> ident \<Rightarrow> AccessDb \<Rightarrow> AccessDb" where
  "grantPermission userId perm grantedById db =
     db\<lparr> db_userPermissions :=
       upsert (\<lambda>p. up_userId p = userId \<and> up_permission p = perm)
         \<lparr> up_userId = userId, up_permission = perm, up_grantedById = Some grantedById \<rparr>
         (\<lambda>p. p\<lparr> up_grantedById := Some grantedById \<rparr>) (db_userPermissions db) \<rparr>"

definition revokePermission :: "ident \<Rightarrow> PermissionType \<Rightarrow> AccessDb \<Rightarrow> AccessDb" where
  "revokePermission userId perm db =
     db\<lparr> db_userPermissions :=
       delete_many (\<lambda>p. up_userId p = userId \<and> up_permission p = perm) (db_userPermissions db) \<rparr>"

definition getUserPermissions :: "ident \<Rightarrow> AccessDb \<Rightarrow> PermissionType list" where
  "getUserPermissions userId db =
     map up_permission (filter (\<lambda>p. up_userId p = userId) (db_userPermissions db))"

definition getOrgPermissionMatrix ::
  "ident \<Rightarrow> AccessDb \<Rightarrow> (ident \<times> UserRole \<times> PermissionType list) list" where
  "getOrgPermissionMatrix organizationId db =
     map (\<lambda>u. (u_id u, u_role u, getUserPermissions (u_id u) db))
       (filter (\<lambda>u. u_organizationId u = organizationId) (db_users db))"

text \<open>
  The body of \<open>updateOrgSettings\<close>: \<open>None\<close> is an \<open>undefined\<close> update, which is filtered out;
  \<open>maxPagesPerUser\<close> may be set to \<open>null\<close>.
\<close>

record OrgSettingsUpdate =
  upd_landingPagesEnabled :: "bool option"
  upd_defaultPageVisibility :: "PageVisibility option"
  upd_approvalPolicy :: "ApprovalPolicy option"
  upd_requireApprovalToPublish :: "bool option"
  upd_allowedPublishers :: "UserRole list option"
  upd_maxPagesPerUser :: "int option option"
  upd_transcriptMergeMaxWords :: "int option"
  upd_transcriptTruncationMode :: "TranscriptTruncationMode option"

definition cleanUpdates :: "OrgSettingsUpdate \<Rightarrow> OrgSettings \<Rightarrow> OrgSettings" where
  "cleanUpdates u s =
     s\<lparr> os_landingPagesEnabled := keep (upd_landingPagesEnabled u) (os_landingPagesEnabled s),
        os_defaultPageVisibility := keep (upd_defaultPageVisibility u) (os_defaultPageVisibility s),
        os_approvalPolicy := keep (upd_approvalPolicy u) (os_approvalPolicy s),
        os_requireApprovalToPublish :=
          keep (upd_requireApprovalToPublish u) (os_requireApprovalToPublish s),
        os_allowedPublishers := keep (upd_allowedPublishers u) (os_allowedPublishers s),
        os_maxPagesPerUser := keep (upd_maxPagesPerUser u) (os_maxPagesPerUser s),
        os_transcriptMergeMaxWords :=
          keep (upd_transcriptMergeMaxWords u) (os_transcriptMergeMaxWords s),
        os_transcriptTruncationMode :=
          keep (upd_transcriptTruncationMode u) (os_transcriptTruncationMode s) \<rparr>"

text \<open>The row the database creates from the column defaults of the schema.\<close>

definition default_org_settings :: "ident \<Rightarrow> OrgSettings" where
  "default_org_settings org =
     \<lparr> os_organizationId = org, os_landingPagesEnabled = True,
       os_defaultPageVisibility = PRIVATE, os_approvalPolicy = ALL_NO_APPROVAL,
       os_requireApprovalToPublish = False, os_allowedPublishers = [OWNER, ADMIN],
       os_maxPagesPerUser = None, os_anonymizationEnabled = True, os_piiExportEnabled = None,
       os_transcriptMergeMaxWords = 600000, os_transcriptTruncationMode = OLDEST_FIRST \<rparr>"

definition updateOrgSettings :: "ident \<Rightarrow> OrgSettingsUpdate \<Rightarrow> AccessDb \<Rightarrow> AccessDb" where
  "updateOrgSettings organizationId u db =
     db\<lparr> db_orgSettings :=
       upsert (\<lambda>s. os_organizationId s = organizationId)
         (cleanUpdates u (default_org_settings organizationId))
         (cleanUpdates u) (db_orgSettings db) \<rparr>"

section \<open>Shared facts\<close>

lemma cleanUpdates_simps [simp]:
  "os_organizationId (cleanUpdates u s) = os_organizationId s"
  "os_organizationId (default_org_settings org) = org"
  "cleanUpdates u (cleanUpdates u s) = cleanUpdates u s"
  by (auto simp: cleanUpdates_def keep_def default_org_settings_def split: option.splits)

lemma is_admin_iff [simp]: "is_admin r \<longleftrightarrow> r = Some OWNER \<or> r = Some ADMIN"
  by (cases r) (auto simp: is_admin_def ADMIN_ROLES_def)

lemma has_user_permission_iff:
  "has_user_permission db u p \<longleftrightarrow> (\<exists>r \<in> set (db_userPermissions db). up_userId r = u \<and> up_permission r = p)"
  by (auto simp: has_user_permission_def find_None_iff)

lemma has_user_permission_grant:
  "has_user_permission (grantPermission u p by' db) v q \<longleftrightarrow>
     has_user_permission db v q \<or> v = u \<and> q = p"
proof -
  have "List.find (\<lambda>r. up_userId r = v \<and> up_permission r = q)
      (db_userPermissions (grantPermission u p by' db)) \<noteq> None \<longleftrightarrow>
    List.find (\<lambda>r. up_userId r = v \<and> up_permission r = q) (db_userPermissions db) \<noteq> None \<or> v = u \<and> q = p"
  proof (cases "v = u \<and> q = p")
    case True
    then show ?thesis by (simp add: grantPermission_def find_upsert_same)
  next
    case False
    then have "List.find (\<lambda>r. up_userId r = v \<and> up_permission r = q)
        (db_userPermissions (grantPermission u p by' db)) =
      List.find (\<lambda>r. up_userId r = v \<and> up_permission r = q) (db_userPermissions db)"
      unfolding grantPermission_def by (simp, intro find_upsert_other) auto
    with False show ?thesis by auto
  qed
  then show ?thesis by (simp add: has_user_permission_def)
qed

lemma has_user_permission_revoke:
  "has_user_permission (revokePermission u p db) v q \<longleftrightarrow>
     has_user_permission db v q \<and> \<not> (v = u \<and> q = p)"
  by (auto simp: has_user_permission_iff revokePermission_def)

text \<open>The policy in force and the account grants do not depend on the direct permissions.\<close>

lemma policy_grant_revoke [simp]:
  "getEffectivePolicy (grantPermission u p by' db) = getEffectivePolicy db"
  "getEffectivePolicy (revokePermission u p db) = getEffectivePolicy db"
  "db_accountAccess (grantPermission u p by' db) = db_accountAccess db"
  "db_accountAccess (revokePermission u p db) = db_accountAccess db"
  by (auto simp: fun_eq_iff getEffectivePolicy_def assigned_profile_of_def grantPermission_def
      revokePermission_def split: option.split)

section \<open>Properties\<close>

text \<open>What a non-administrator needs for an action, gate by gate.\<close>

definition story_gate :: "EffectiveRolePolicy \<Rightarrow> PolicyAction \<Rightarrow> bool" where
  "story_gate pol a =
     (case a of
        view_named_story \<Rightarrow> canAccessNamedStories pol \<and> canGenerateNamedStories pol
      | generate_named_story \<Rightarrow> canAccessNamedStories pol \<and> canGenerateNamedStories pol
      | view_anonymous_story \<Rightarrow> canAccessAnonymousStories pol
      | generate_anonymous_story \<Rightarrow> canGenerateAnonymousStories pol
      | _ \<Rightarrow> True)"

definition permission_gate :: "AccessDb \<Rightarrow> EffectiveRolePolicy \<Rightarrow> ident \<Rightarrow> PolicyAction \<Rightarrow> bool" where
  "permission_gate db pol uid a =
     (case ACTION_PERMISSION_MATRIX a of
        None \<Rightarrow> True
      | Some perm \<Rightarrow> perm \<in> set (permissions pol) \<or> has_user_permission db uid perm)"

definition account_gate :: "AccessDb \<Rightarrow> PolicyEvaluationInput \<Rightarrow> bool" where
  "account_gate db inp \<longleftrightarrow>
     (truthy (pol_accountId inp) \<longrightarrow>
      canAccessAccount (db_accountAccess db) (pol_userId inp) (pol_organizationId inp)
        (the (pol_accountId inp)) (pol_userRole inp))"

lemma allowed_evaluate:
  "allowed (evaluate db inp) \<longleftrightarrow>
     is_admin (pol_userRole inp) \<or>
     (\<not> (pol_action inp = export_pii \<and> pol_piiExportEnabled inp = Some False) \<and>
      story_gate (getEffectivePolicy db (pol_organizationId inp) (pol_userId inp) (pol_userRole inp))
        (pol_action inp) \<and>
      account_gate db inp \<and>
      permission_gate db
        (getEffectivePolicy db (pol_organizationId inp) (pol_userId inp) (pol_userRole inp))
        (pol_userId inp) (pol_action inp))"
  unfolding evaluate_def account_gate_def permission_gate_def Let_def
  by (cases "pol_action inp") (auto simp: deny_def story_gate_def)


text \<open>
  Granting a permission to a user never takes anything away, changes the decision only for that
  user and only for actions that need that permission; revoking it afterwards leaves exactly the
  decisions that revoking without the grant would leave, and a revoked permission is not held.
\<close>

theorem permission_grant_revoke:
  "(allowed (evaluate db inp) \<longrightarrow> allowed (evaluate (grantPermission u p by' db) inp)) \<and>
   (pol_userId inp \<noteq> u \<or> ACTION_PERMISSION_MATRIX (pol_action inp) \<noteq> Some p \<longrightarrow>
      evaluate (grantPermission u p by' db) inp = evaluate db inp) \<and>
   evaluate (revokePermission u p (grantPermission u p by' db)) inp =
     evaluate (revokePermission u p db) inp \<and>
   \<not> has_user_permission (revokePermission u p db) u p"
proof (intro conjI impI)
  show "allowed (evaluate (grantPermission u p by' db) inp)" if "allowed (evaluate db inp)"
    using that
    by (auto simp: allowed_evaluate permission_gate_def account_gate_def has_user_permission_grant
        split: option.splits)
  show "evaluate (grantPermission u p by' db) inp = evaluate db inp"
    if "pol_userId inp \<noteq> u \<or> ACTION_PERMISSION_MATRIX (pol_action inp) \<noteq> Some p"
    using that
    by (auto simp: evaluate_def Let_def has_user_permission_grant split: option.split)
  show "evaluate (revokePermission u p (grantPermission u p by' db)) inp =
     evaluate (revokePermission u p db) inp"
    by (simp add: evaluate_def Let_def has_user_permission_revoke has_user_permission_grant
        cong: if_cong split: option.split) auto
  show "\<not> has_user_permission (revokePermission u p db) u p"
    by (simp add: has_user_permission_revoke)
qed

definition sample_request :: PolicyEvaluationInput where
  "sample_request =
     \<lparr> pol_action = publish_landing_page, pol_organizationId = ''org'', pol_userId = ''u1'',
       pol_userRole = Some MEMBER, pol_accountId = None, pol_piiExportEnabled = None \<rparr>"

theorem permission_grant_revoke_witness:
  "\<not> allowed (evaluate sample_access_db sample_request) \<and>
   evaluate (grantPermission ''u2'' PUBLISH_LANDING_PAGE ''admin'' sample_access_db) sample_request =
     evaluate sample_access_db sample_request"
  using permission_grant_revoke [of sample_access_db sample_request "''u2''" PUBLISH_LANDING_PAGE "''admin''"]
  by (simp add: sample_request_def allowed_evaluate permission_gate_def sample_access_defs
      getEffectivePolicy_def assigned_profile_of_def fallbackPolicy_def has_user_permission_def)

text \<open>
  C36. The page guard separates tenants only for users who are not administrators: such a user passes
  only for an existing page of the own organization that the user created or may edit; an owner or
  administrator passes for every page id, whatever organization the page belongs to.
\<close>

theorem page_guard_tenancy:
  assumes "truthy (req_userId req)" and "truthy (req_organizationId req)"
  shows "(\<not> is_admin (req_userRole req) \<and> requirePageOwnerOrPermission db pages req pageId = Next \<longrightarrow>
      (\<exists>page \<in> set pages. lp_id page = pageId \<and> Some (lp_organizationId page) = req_organizationId req \<and>
         (Some (lp_createdById page) = req_userId req \<or>
          EDIT_ANY_LANDING_PAGE \<in> set (permissions (getEffectivePolicy db (lp_organizationId page)
             (the (req_userId req)) (req_userRole req))) \<or>
          has_user_permission db (the (req_userId req)) EDIT_ANY_LANDING_PAGE))) \<and>
    (is_admin (req_userRole req) \<longrightarrow> requirePageOwnerOrPermission db pages req pageId = Next)"
proof (intro conjI impI; (elim conjE)?)
  show "requirePageOwnerOrPermission db pages req pageId = Next" if "is_admin (req_userRole req)"
    using assms that by (simp add: requirePageOwnerOrPermission_def)
next
  assume na: "\<not> is_admin (req_userRole req)"
    and nx: "requirePageOwnerOrPermission db pages req pageId = Next"
  then obtain page where
    f: "List.find (\<lambda>p. lp_id p = pageId \<and> lp_organizationId p = the (req_organizationId req)) pages = Some page"
    using assms by (auto simp: requirePageOwnerOrPermission_def Let_def split: option.splits if_splits)
  from find_SomeD [OF f] na nx f assms show "\<exists>page \<in> set pages. lp_id page = pageId \<and>
       Some (lp_organizationId page) = req_organizationId req \<and>
       (Some (lp_createdById page) = req_userId req \<or>
        EDIT_ANY_LANDING_PAGE \<in> set (permissions (getEffectivePolicy db (lp_organizationId page)
             (the (req_userId req)) (req_userRole req))) \<or>
        has_user_permission db (the (req_userId req)) EDIT_ANY_LANDING_PAGE)"
    by (intro bexI [of _ page])
      (auto simp: requirePageOwnerOrPermission_def Let_def elim!: truthyE split: if_splits)
qed

theorem page_guard_tenancy_witness:
  "requirePageOwnerOrPermission sample_access_db []
     \<lparr> req_organizationId = Some ''org'', req_userId = Some ''admin'', req_userRole = Some ADMIN \<rparr>
     ''page-of-another-org'' = Next"
  using page_guard_tenancy [of "\<lparr> req_organizationId = Some ''org'', req_userId = Some ''admin'', req_userRole = Some ADMIN \<rparr>"
      sample_access_db "[]" "''page-of-another-org''"]
  by simp

text \<open>
  A role that may see named stories but not generate them is refused the viewing of a named story
  by the policy engine: with an assigned profile of the organization that has
  \<open>canAccessNamedStories\<close> and not \<open>canGenerateNamedStories\<close>, \<open>view_named_story\<close> is denied as sensitive.
\<close>

theorem view_named_story_needs_generate:
  assumes "assigned_profile_of db (pol_userId inp) = Some r"
    and "rp_organizationId r = pol_organizationId inp"
    and "\<not> is_admin (pol_userRole inp)"
    and "canAccessNamedStories r" and "\<not> canGenerateNamedStories r"
    and "pol_action inp = view_named_story"
  shows "canAccessNamedStories (getEffectivePolicy db (pol_organizationId inp) (pol_userId inp) (pol_userRole inp)) \<and>
    evaluate db inp = deny story_sensitivity_denied"
  using assms by (simp add: evaluate_def Let_def getEffectivePolicy_def policy_of_profile_def)

theorem view_named_story_needs_generate_witness:
  "evaluate
     (sample_access_db\<lparr>
        db_roleProfiles := [profile_of_preset ''p4'' ''org'' (PRESETS ! 3)],
        db_roleAssignments := [\<lparr> ura_userId = ''u1'', ura_roleProfileId = ''p4'', ura_assignedById = None \<rparr>] \<rparr>)
     (sample_request\<lparr> pol_action := view_named_story \<rparr>) = deny story_sensitivity_denied"
  using view_named_story_needs_generate
    [of "sample_access_db\<lparr>
        db_roleProfiles := [profile_of_preset ''p4'' ''org'' (PRESETS ! 3)],
        db_roleAssignments := [\<lparr> ura_userId = ''u1'', ura_roleProfileId = ''p4'', ura_assignedById = None \<rparr>] \<rparr>"
      "sample_request\<lparr> pol_action := view_named_story \<rparr>" "profile_of_preset ''p4'' ''org'' (PRESETS ! 3)"]
  by (simp add: sample_request_def sample_access_defs assigned_profile_of_def)

text \<open>
  A settings update changes the given fields of the organization's row, creating it from the
  schema's defaults when there is none, leaves every field that is not given and every other
  organization's row as they were, and repeating it changes nothing.
\<close>

theorem updateOrgSettings_effect:
  "org_settings (updateOrgSettings org u db) org =
     Some (cleanUpdates u (case org_settings db org of None \<Rightarrow> default_org_settings org | Some s \<Rightarrow> s)) \<and>
   (org' \<noteq> org \<longrightarrow> org_settings (updateOrgSettings org u db) org' = org_settings db org') \<and>
   updateOrgSettings org u (updateOrgSettings org u db) = updateOrgSettings org u db"
proof (intro conjI impI)
  show "org_settings (updateOrgSettings org u db) org =
     Some (cleanUpdates u (case org_settings db org of None \<Rightarrow> default_org_settings org | Some s \<Rightarrow> s))"
    by (simp add: org_settings_def updateOrgSettings_def find_upsert_same split: option.split)
  show "org_settings (updateOrgSettings org u db) org' = org_settings db org'" if "org' \<noteq> org"
    unfolding org_settings_def updateOrgSettings_def
    using that by (simp, intro find_upsert_other) auto
  show "updateOrgSettings org u (updateOrgSettings org u db) = updateOrgSettings org u db"
    by (simp add: updateOrgSettings_def upsert_idem)
qed

definition sample_update :: OrgSettingsUpdate where
  "sample_update =
     \<lparr> upd_landingPagesEnabled = Some False, upd_defaultPageVisibility = None,
       upd_approvalPolicy = None, upd_requireApprovalToPublish = Some True,
       upd_allowedPublishers = None, upd_maxPagesPerUser = Some None,
       upd_transcriptMergeMaxWords = None, upd_transcriptTruncationMode = None \<rparr>"

theorem updateOrgSettings_effect_witness:
  "org_settings (updateOrgSettings ''org'' sample_update
      (sample_access_db\<lparr> db_orgSettings := [default_org_settings ''other''] \<rparr>)) ''other'' =
     Some (default_org_settings ''other'')"
  using updateOrgSettings_effect [of "''org''" sample_update
      "sample_access_db\<lparr> db_orgSettings := [default_org_settings ''other''] \<rparr>" "''other''"]
  by (simp add: org_settings_def default_org_settings_def)

end
