(* ===== verification/Lifecycle.thy ===== *)
theory Lifecycle
  imports Policy_Engine Js_Map
begin

text \<open>
  \<open>src/services/lifecycle-stage.ts\<close>, \<open>lifecycle-stage-service.ts\<close> and \<open>publish-approval-policy.ts\<close>:
  the lifecycle stage of a story or page (computed from its publication date and its latest approval
  request), and whether the organization's policy asks for an approval before publishing.
  \<open>String.prototype.localeCompare\<close> is the parameter \<open>lc\<close>.
\<close>

section \<open>Lifecycle stage\<close>

datatype LifecycleStage = DRAFT | IN_REVIEW | STAGE_APPROVED | STAGE_PUBLISHED

datatype ApprovalReviewStatus = PENDING | APPROVED | REJECTED

definition normalizeApprovalStatus :: "string option \<Rightarrow> ApprovalReviewStatus option" where
  "normalizeApprovalStatus status =
     (if status = Some ''PENDING'' then Some PENDING
      else if status = Some ''APPROVED'' then Some APPROVED
      else if status = Some ''REJECTED'' then Some REJECTED
      else None)"

definition resolveLifecycleStage :: "millis option \<Rightarrow> string option \<Rightarrow> LifecycleStage" where
  "resolveLifecycleStage publishedAt latestApprovalStatus =
     (if publishedAt \<noteq> None then STAGE_PUBLISHED
      else let latest = normalizeApprovalStatus latestApprovalStatus in
        if latest = Some PENDING then IN_REVIEW
        else if latest = Some APPROVED then STAGE_APPROVED
        else DRAFT)"

text \<open>The columns of an approval request the comparison reads.\<close>

record ApprovalRef =
  apr_id :: ident
  apr_status :: string
  apr_createdAt :: millis

definition compareApprovalRecency ::
  "(string \<Rightarrow> string \<Rightarrow> int) \<Rightarrow> ApprovalRef \<Rightarrow> ApprovalRef \<Rightarrow> int" where
  "compareApprovalRecency lc a b =
     (let dateCmp = apr_createdAt b - apr_createdAt a in
      if dateCmp \<noteq> 0 then dateCmp else lc (apr_id b) (apr_id a))"

text \<open>\<open>Array.prototype.sort\<close> is the stable sort by the comparator.\<close>

fun insort_cmp :: "('a \<Rightarrow> 'a \<Rightarrow> int) \<Rightarrow> 'a \<Rightarrow> 'a list \<Rightarrow> 'a list" where
  "insort_cmp cmp x [] = [x]"
| "insort_cmp cmp x (y # ys) = (if cmp x y \<le> 0 then x # y # ys else y # insort_cmp cmp x ys)"

definition sort_cmp :: "('a \<Rightarrow> 'a \<Rightarrow> int) \<Rightarrow> 'a list \<Rightarrow> 'a list" where
  "sort_cmp cmp xs = foldr (insort_cmp cmp) xs []"

definition pickLatestApproval ::
  "(string \<Rightarrow> string \<Rightarrow> int) \<Rightarrow> ApprovalRef list \<Rightarrow> ApprovalRef option" where
  "pickLatestApproval lc requests =
     (if requests = [] then None
      else case sort_cmp (compareApprovalRecency lc) requests of [] \<Rightarrow> None | a # _ \<Rightarrow> Some a)"

definition isPublishedWithinUtcWindow :: "millis option \<Rightarrow> millis \<Rightarrow> int \<Rightarrow> bool" where
  "isPublishedWithinUtcWindow publishedAt nowUtc days =
     (case publishedAt of
        None \<Rightarrow> False
      | Some t \<Rightarrow> t \<ge> nowUtc - days * 24 * 60 * 60 * 1000)"

section \<open>Lifecycle of stories and pages\<close>

record StoryLifecycleInput =
  sli_id :: ident
  sli_publishedAt :: "millis option"
  sli_landingPages :: "ident list"

record PageLifecycleInput =
  pli_id :: ident
  pli_publishedAt :: "millis option"

record LifecycleResolution =
  lr_stage :: LifecycleStage
  lr_latestApprovalStatus :: "string option"
  lr_latestApprovalRequestId :: "ident option"
  lr_latestApprovalCreatedAt :: "millis option"

definition resolution :: "millis option \<Rightarrow> ApprovalRef option \<Rightarrow> LifecycleResolution" where
  "resolution publishedAt latest =
     \<lparr> lr_stage = resolveLifecycleStage publishedAt (map_option apr_status latest),
       lr_latestApprovalStatus = map_option apr_status latest,
       lr_latestApprovalRequestId = map_option apr_id latest,
       lr_latestApprovalCreatedAt = map_option apr_createdAt latest \<rparr>"

definition approval_ref :: "ApprovalRequest \<Rightarrow> ApprovalRef" where
  "approval_ref r = \<lparr> apr_id = ar_id r, apr_status = ar_status r, apr_createdAt = ar_createdAt r \<rparr>"

definition page_to_story :: "StoryLifecycleInput list \<Rightarrow> (ident, ident) jsmap" where
  "page_to_story stories =
     fold (\<lambda>s m. fold (\<lambda>p m. jm_set p (sli_id s) m) (sli_landingPages s) m) stories []"

definition latest_by_story ::
  "(string \<Rightarrow> string \<Rightarrow> int) \<Rightarrow> (ident, ident) jsmap \<Rightarrow> ApprovalRequest list \<Rightarrow>
     (ident, ApprovalRef) jsmap" where
  "latest_by_story lc pageToStory approvals =
     fold (\<lambda>approval m.
       case (if ar_targetType approval = ''story'' then Some (ar_targetId approval)
             else jm_get pageToStory (ar_targetId approval)) of
         None \<Rightarrow> m
       | Some storyId \<Rightarrow>
           if storyId = [] then m
           else case jm_get m storyId of
               None \<Rightarrow> jm_set storyId (approval_ref approval) m
             | Some existing \<Rightarrow>
                 if compareApprovalRecency lc (approval_ref approval) existing < 0
                 then jm_set storyId (approval_ref approval) m else m) approvals []"

definition resolveStoryLifecycle ::
  "(string \<Rightarrow> string \<Rightarrow> int) \<Rightarrow> ApprovalRequest list \<Rightarrow> ident \<Rightarrow> StoryLifecycleInput list \<Rightarrow>
     (ident, LifecycleResolution) jsmap" where
  "resolveStoryLifecycle lc requests organizationId stories =
     (if stories = [] then []
      else let
        storyIds = map sli_id stories;
        allPageIds = concat (map sli_landingPages stories);
        approvals = filter (\<lambda>r. ar_organizationId r = organizationId \<and>
            (ar_targetType r = ''story'' \<and> ar_targetId r \<in> set storyIds \<or>
             allPageIds \<noteq> [] \<and> ar_targetType r = ''landing_page'' \<and> ar_targetId r \<in> set allPageIds))
          requests;
        latest = latest_by_story lc (page_to_story stories) approvals
      in fold (\<lambda>s. jm_set (sli_id s) (resolution (sli_publishedAt s) (jm_get latest (sli_id s))))
           stories [])"

definition resolveLandingPageLifecycle ::
  "(string \<Rightarrow> string \<Rightarrow> int) \<Rightarrow> ApprovalRequest list \<Rightarrow> ident \<Rightarrow> PageLifecycleInput list \<Rightarrow>
     (ident, LifecycleResolution) jsmap" where
  "resolveLandingPageLifecycle lc requests organizationId pages =
     (if pages = [] then []
      else let
        pageIds = map pli_id pages;
        approvals = filter (\<lambda>r. ar_organizationId r = organizationId \<and>
            ar_targetType r = ''landing_page'' \<and> ar_targetId r \<in> set pageIds) requests;
        grouped = fold (\<lambda>r m. jm_set (ar_targetId r)
            ((case jm_get m (ar_targetId r) of None \<Rightarrow> [] | Some arr \<Rightarrow> arr) @ [approval_ref r]) m)
          approvals []
      in fold (\<lambda>p. jm_set (pli_id p)
            (resolution (pli_publishedAt p)
              (pickLatestApproval lc
                (case jm_get grouped (pli_id p) of None \<Rightarrow> [] | Some arr \<Rightarrow> arr)))) pages [])"

section \<open>Approval policy\<close>

definition resolveApprovalPolicyFromSettings ::
  "ApprovalPolicy option \<Rightarrow> bool option \<Rightarrow> ApprovalPolicy" where
  "resolveApprovalPolicyFromSettings approvalPolicy requireApprovalToPublish =
     (case approvalPolicy of
        Some p \<Rightarrow> p
      | None \<Rightarrow> if requireApprovalToPublish = Some True then ALL_REQUIRED else ALL_NO_APPROVAL)"

definition requiresPublishApproval :: "ApprovalPolicy \<Rightarrow> bool \<Rightarrow> bool" where
  "requiresPublishApproval approvalPolicy isNamedStory =
     (if approvalPolicy = ALL_REQUIRED then True
      else if approvalPolicy = ALL_NO_APPROVAL then False
      else if approvalPolicy = ANON_NO_APPROVAL then isNamedStory
      else \<not> isNamedStory)"

definition getOrgApprovalPolicy :: "AccessDb \<Rightarrow> ident \<Rightarrow> ApprovalPolicy" where
  "getOrgApprovalPolicy db organizationId =
     (let settings = org_settings db organizationId in
      resolveApprovalPolicyFromSettings (map_option os_approvalPolicy settings)
        (map_option os_requireApprovalToPublish settings))"

definition requiresApproval :: "AccessDb \<Rightarrow> ident \<Rightarrow> bool \<Rightarrow> ApprovalPolicy \<times> bool" where
  "requiresApproval db organizationId isNamedStory =
     (let p = getOrgApprovalPolicy db organizationId in (p, requiresPublishApproval p isNamedStory))"

section \<open>The latest approval\<close>

text \<open>What \<open>localeCompare\<close> gives on the identifiers of a table: a total order.\<close>

definition total_comparator :: "(string \<Rightarrow> string \<Rightarrow> int) \<Rightarrow> bool" where
  "total_comparator f \<longleftrightarrow>
     (\<forall>x y. f x y = 0 \<longleftrightarrow> x = y) \<and> (\<forall>x y. f x y < 0 \<longleftrightarrow> 0 < f y x) \<and>
     (\<forall>x y z. f x y \<le> 0 \<longrightarrow> f y z \<le> 0 \<longrightarrow> f x z \<le> 0)"

abbreviation recency_le :: "(string \<Rightarrow> string \<Rightarrow> int) \<Rightarrow> ApprovalRef \<Rightarrow> ApprovalRef \<Rightarrow> bool" where
  "recency_le lc a b \<equiv> compareApprovalRecency lc a b \<le> 0"

lemma recency_total: "total_comparator lc \<Longrightarrow> recency_le lc a b \<or> recency_le lc b a"
  unfolding total_comparator_def compareApprovalRecency_def Let_def
  by (smt (verit))

lemma recency_trans:
  "total_comparator lc \<Longrightarrow> recency_le lc a b \<Longrightarrow> recency_le lc b c \<Longrightarrow> recency_le lc a c"
  unfolding total_comparator_def compareApprovalRecency_def Let_def
  by (smt (verit))

lemma recency_antisym:
  "total_comparator lc \<Longrightarrow> recency_le lc a b \<Longrightarrow> recency_le lc b a \<Longrightarrow> apr_id a = apr_id b"
  unfolding total_comparator_def compareApprovalRecency_def Let_def
  by (smt (verit))

lemma recency_less: "total_comparator lc \<Longrightarrow> compareApprovalRecency lc a b < 0 \<longleftrightarrow> \<not> recency_le lc b a"
  unfolding total_comparator_def compareApprovalRecency_def Let_def
  by (smt (verit))

definition is_latest :: "(string \<Rightarrow> string \<Rightarrow> int) \<Rightarrow> ApprovalRef \<Rightarrow> ApprovalRef list \<Rightarrow> bool" where
  "is_latest lc a xs \<longleftrightarrow> a \<in> set xs \<and> (\<forall>b \<in> set xs. recency_le lc a b)"

lemma is_latest_single: "total_comparator lc \<Longrightarrow> is_latest lc a [a]"
  using recency_total [of lc a a] by (auto simp: is_latest_def)

lemma is_latest_unique:
  assumes "total_comparator lc" "is_latest lc a xs" "is_latest lc b xs" "inj_on apr_id (set xs)"
  shows "a = b"
proof -
  have "apr_id a = apr_id b"
    using assms(1-3) by (auto simp: is_latest_def intro: recency_antisym)
  with assms(2-4) show ?thesis
    by (auto simp: is_latest_def dest: inj_onD)
qed

lemma is_latest_step:
  assumes "total_comparator lc" and "is_latest lc a xs"
  shows "recency_le lc x a \<Longrightarrow> is_latest lc x (x # xs)"
    and "\<not> recency_le lc x a \<Longrightarrow> is_latest lc a (x # xs)"
proof -
  from assms(2) have a: "a \<in> set xs" "\<And>b. b \<in> set xs \<Longrightarrow> recency_le lc a b"
    by (auto simp: is_latest_def)
  show "is_latest lc x (x # xs)" if "recency_le lc x a"
    using recency_total [OF assms(1), of x x] recency_trans [OF assms(1) that a(2)]
    by (simp add: is_latest_def)
  show "is_latest lc a (x # xs)" if "\<not> recency_le lc x a"
    using recency_total [OF assms(1), of x a] that a by (simp add: is_latest_def)
qed

lemma set_insort_cmp [simp]: "set (insort_cmp cmp x ys) = insert x (set ys)"
  by (induction ys) auto

lemma set_sort_cmp [simp]: "set (sort_cmp cmp xs) = set xs"
  by (induction xs) (auto simp: sort_cmp_def)

lemma hd_sort_latest:
  assumes "total_comparator lc" and "xs \<noteq> []"
  shows "is_latest lc (hd (sort_cmp (compareApprovalRecency lc) xs)) xs"
  using assms(2)
proof (induction xs)
  case (Cons x xs)
  let ?s = "sort_cmp (compareApprovalRecency lc)"
  have eq: "?s (x # xs) = insort_cmp (compareApprovalRecency lc) x (?s xs)"
    by (simp add: sort_cmp_def)
  show ?case
  proof (cases "?s xs")
    case Nil
    then have "xs = []" by (metis set_empty set_sort_cmp)
    with assms(1) show ?thesis by (simp add: sort_cmp_def is_latest_single)
  next
    case (Cons h t)
    then have "xs \<noteq> []" by (auto simp: sort_cmp_def)
    with Cons.IH Cons have "is_latest lc h xs" by simp
    with is_latest_step [OF assms(1) this] show ?thesis by (simp add: eq Cons)
  qed
qed simp

lemma pickLatest_iff:
  assumes "total_comparator lc"
  shows "(xs = [] \<longrightarrow> pickLatestApproval lc xs = None) \<and>
    (xs \<noteq> [] \<longrightarrow> (\<exists>a. pickLatestApproval lc xs = Some a \<and> is_latest lc a xs))"
proof (cases "xs = []")
  case False
  then obtain h t where "sort_cmp (compareApprovalRecency lc) xs = h # t"
    by (metis list.exhaust set_empty set_sort_cmp)
  with hd_sort_latest [OF assms False] False show ?thesis
    by (simp add: pickLatestApproval_def)
qed (simp add: pickLatestApproval_def)

section \<open>The running minimum of the story lifecycle\<close>

definition newer :: "(string \<Rightarrow> string \<Rightarrow> int) \<Rightarrow> ApprovalRef \<Rightarrow> ApprovalRef option \<Rightarrow> ApprovalRef option" where
  "newer lc a cur =
     (case cur of None \<Rightarrow> Some a
      | Some e \<Rightarrow> if compareApprovalRecency lc a e < 0 then Some a else Some e)"

lemma fold_newer_latest:
  assumes "total_comparator lc"
  shows "cur = None \<and> ys = [] \<or> (\<exists>e. cur = Some e \<and> is_latest lc e ys) \<Longrightarrow> xs @ ys \<noteq> [] \<Longrightarrow>
    \<exists>a. fold (newer lc) xs cur = Some a \<and> is_latest lc a (rev xs @ ys)"
proof (induction xs arbitrary: cur ys)
  case (Cons x xs)
  have "\<exists>e. newer lc x cur = Some e \<and> is_latest lc e (x # ys)"
  proof (cases cur)
    case None
    with Cons.prems assms show ?thesis by (auto simp: newer_def is_latest_single)
  next
    case (Some e)
    with Cons.prems have "is_latest lc e ys" by auto
    with Some show ?thesis
      using is_latest_step(1) [OF assms, of e ys x] recency_less [OF assms, of x e]
        recency_total [OF assms, of x e]
      by (cases "recency_le lc e x") (simp_all add: newer_def is_latest_def)
  qed
  with Cons.IH [of "newer lc x cur" "x # ys"] show ?case by auto
qed auto

lemma fold_newer_pick:
  assumes "total_comparator lc" and "inj_on apr_id (set xs)"
  shows "fold (newer lc) xs None = pickLatestApproval lc xs"
proof (cases "xs = []")
  case False
  with fold_newer_latest [OF assms(1), of None "[]" xs] obtain a where
    a: "fold (newer lc) xs None = Some a" "is_latest lc a (rev xs)" by auto
  from False pickLatest_iff [OF assms(1), of xs] obtain b where
    b: "pickLatestApproval lc xs = Some b" "is_latest lc b xs" by auto
  have "a = b"
    using a(2) b(2) is_latest_unique [OF assms(1) _ b(2) assms(2), of a] by (simp add: is_latest_def)
  with a b show ?thesis by simp
qed (simp add: pickLatestApproval_def)

definition target_story :: "(ident, ident) jsmap \<Rightarrow> ApprovalRequest \<Rightarrow> ident option" where
  "target_story m r =
     (if ar_targetType r = ''story'' then Some (ar_targetId r) else jm_get m (ar_targetId r))"

lemma jm_get_latest_by_story:
  assumes "sid \<noteq> []"
  shows "jm_get (latest_by_story lc m rs) sid =
    fold (newer lc) (map approval_ref (filter (\<lambda>r. target_story m r = Some sid) rs)) None"
proof -
  let ?step = "\<lambda>r acc. case target_story m r of None \<Rightarrow> acc
       | Some storyId \<Rightarrow> if storyId = [] then acc
           else case jm_get acc storyId of
               None \<Rightarrow> jm_set storyId (approval_ref r) acc
             | Some existing \<Rightarrow> if compareApprovalRecency lc (approval_ref r) existing < 0
                 then jm_set storyId (approval_ref r) acc else acc"
  have step: "jm_get (?step r acc) sid =
     (if target_story m r = Some sid then newer lc (approval_ref r) (jm_get acc sid) else jm_get acc sid)"
    for r acc
    using assms by (auto simp: newer_def jm_get_set split: option.split)
  have "jm_get (fold ?step rs acc) sid =
      fold (newer lc) (map approval_ref (filter (\<lambda>r. target_story m r = Some sid) rs)) (jm_get acc sid)" for acc
    by (induction rs arbitrary: acc) (simp_all add: step del: option.case)
  then show ?thesis
    by (simp add: latest_by_story_def target_story_def)
qed

lemma jm_get_fold_set:
  "jm_get (fold (\<lambda>p m. jm_set p v m) ps m) q = (if q \<in> set ps then Some v else jm_get m q)"
  by (induction ps arbitrary: m) (auto simp: jm_get_set)

lemma page_to_story_iff:
  assumes "distinct (concat (map sli_landingPages stories))" and "distinct (map sli_id stories)"
    and "story \<in> set stories"
  shows "jm_get (page_to_story stories) p = Some (sli_id story) \<longleftrightarrow> p \<in> set (sli_landingPages story)"
proof -
  let ?f = "\<lambda>s m. fold (\<lambda>p m. jm_set p (sli_id s) m) (sli_landingPages s) m"
  have none: "jm_get (fold ?f ss m) p = jm_get m p" if "p \<notin> set (concat (map sli_landingPages ss))" for ss m
    using that by (induction ss arbitrary: m) (auto simp: jm_get_fold_set)
  have some: "jm_get (fold ?f ss m) p = Some (sli_id s)"
    if "distinct (concat (map sli_landingPages ss))" "s \<in> set ss" "p \<in> set (sli_landingPages s)" for ss m s
    using that
  proof (induction ss arbitrary: m)
    case (Cons a ss)
    show ?case
    proof (cases "s \<in> set ss")
      case True
      with Cons show ?thesis by simp
    next
      case False
      with Cons.prems have "s = a" "p \<notin> set (concat (map sli_landingPages ss))" by auto
      with Cons.prems(3) show ?thesis using none [of ss "?f a m"] by (simp add: jm_get_fold_set)
    qed
  qed simp
  show ?thesis
  proof
    assume get: "jm_get (page_to_story stories) p = Some (sli_id story)"
    show "p \<in> set (sli_landingPages story)"
    proof (cases "p \<in> set (concat (map sli_landingPages stories))")
      case True
      then obtain s where s: "s \<in> set stories" "p \<in> set (sli_landingPages s)" by auto
      with some [OF assms(1) s] get have "sli_id s = sli_id story"
        by (simp add: page_to_story_def)
      with s assms(2,3) show ?thesis by (metis distinct_map inj_onD)
    next
      case False
      with none [of stories "[]"] get show ?thesis by (simp add: page_to_story_def)
    qed
  qed (use some [OF assms(1,3)] in \<open>simp add: page_to_story_def\<close>)
qed

lemma jm_get_fold_keyed:
  assumes "distinct (map k xs)" and "x \<in> set xs"
  shows "jm_get (fold (\<lambda>y. jm_set (k y) (v y)) xs m) (k x) = Some (v x)"
  using assms
proof (induction xs arbitrary: m)
  case (Cons y ys)
  have "jm_get (fold (\<lambda>y. jm_set (k y) (v y)) ys m) q = jm_get m q" if "q \<notin> k ` set ys" for m q
    using that by (induction ys arbitrary: m) (auto simp: jm_get_set)
  with Cons show ?case by (auto simp: jm_get_set)
qed simp

lemma jm_get_grouped:
  "(case jm_get (fold (\<lambda>r m. jm_set (ar_targetId r)
            ((case jm_get m (ar_targetId r) of None \<Rightarrow> [] | Some arr \<Rightarrow> arr) @ [approval_ref r]) m) rs m) k
    of None \<Rightarrow> [] | Some arr \<Rightarrow> arr) =
   (case jm_get m k of None \<Rightarrow> [] | Some arr \<Rightarrow> arr) @
     map approval_ref (filter (\<lambda>r. ar_targetId r = k) rs)"
  by (induction rs arbitrary: m) (auto simp: jm_get_set)

text \<open>The approval requests that count for a story: its own and those of its landing pages.\<close>

definition story_requests :: "ident \<Rightarrow> StoryLifecycleInput \<Rightarrow> ApprovalRequest list \<Rightarrow> ApprovalRequest list" where
  "story_requests org story requests =
     filter (\<lambda>r. ar_organizationId r = org \<and>
       (ar_targetType r = ''story'' \<and> ar_targetId r = sli_id story \<or>
        ar_targetType r = ''landing_page'' \<and> ar_targetId r \<in> set (sli_landingPages story))) requests"

lemma inj_on_refs: "unique_key ar_id rs \<Longrightarrow> inj_on apr_id (set (map approval_ref (filter P rs)))"
  by (auto simp: unique_key_def distinct_map approval_ref_def inj_on_def)

lemma story_relevant:
  assumes "distinct (concat (map sli_landingPages stories))" and "distinct (map sli_id stories)"
    and "story \<in> set stories"
  shows "filter (\<lambda>r. target_story (page_to_story stories) r = Some (sli_id story))
      (filter (\<lambda>r. ar_organizationId r = org \<and>
            (ar_targetType r = ''story'' \<and> ar_targetId r \<in> set (map sli_id stories) \<or>
             concat (map sli_landingPages stories) \<noteq> [] \<and> ar_targetType r = ''landing_page'' \<and>
             ar_targetId r \<in> set (concat (map sli_landingPages stories)))) requests) =
    story_requests org story requests"
proof -
  have "target_story (page_to_story stories) r = Some (sli_id story) \<longleftrightarrow>
      (if ar_targetType r = ''story'' then ar_targetId r = sli_id story
       else ar_targetId r \<in> set (sli_landingPages story))" for r
    by (simp add: target_story_def page_to_story_iff [OF assms])
  moreover define C where "C = concat (map sli_landingPages stories)"
  moreover have "p \<in> set C \<and> C \<noteq> []" if "p \<in> set (sli_landingPages story)" for p
  proof -
    have "p \<in> set C" using that assms(3) by (auto simp: C_def)
    then show ?thesis by auto
  qed
  moreover have "sli_id story \<in> set (map sli_id stories)"
    using assms(3) by auto
  ultimately show ?thesis
    unfolding story_requests_def filter_filter C_def [symmetric]
    by (intro filter_cong) (auto simp del: set_map split: if_splits)
qed

section \<open>Properties\<close>

text \<open>
  C19. The story lifecycle is decided by the most recent approval request of the story or of one of
  its landing pages: the running comparison over the joined query gives the request that the sorting
  routine \<open>pickLatestApproval\<close> picks from them, whatever order the database returns the rows in.
  (Request ids are the primary key, a page belongs to one story.)
\<close>

theorem story_lifecycle_latest:
  assumes "total_comparator lc" and "unique_key ar_id requests"
    and "distinct (concat (map sli_landingPages stories))" and "distinct (map sli_id stories)"
    and "story \<in> set stories" and "sli_id story \<noteq> []"
  shows "jm_get (resolveStoryLifecycle lc requests org stories) (sli_id story) =
    Some (resolution (sli_publishedAt story)
      (pickLatestApproval lc (map approval_ref (story_requests org story requests))))"
proof -
  have ne: "stories \<noteq> []" using assms(5) by auto
  have "jm_get (resolveStoryLifecycle lc requests org stories) (sli_id story) =
    Some (resolution (sli_publishedAt story)
      (fold (newer lc) (map approval_ref (story_requests org story requests)) None))"
    unfolding resolveStoryLifecycle_def Let_def if_not_P [OF ne]
    by (subst jm_get_fold_keyed [OF assms(4,5)])
      (simp only: jm_get_latest_by_story [OF assms(6)] story_relevant [OF assms(3-5)])
  moreover have "fold (newer lc) (map approval_ref (story_requests org story requests)) None =
      pickLatestApproval lc (map approval_ref (story_requests org story requests))"
    unfolding story_requests_def by (intro fold_newer_pick assms(1) inj_on_refs assms(2))
  ultimately show ?thesis by simp
qed

text \<open>
  The page lifecycle is decided by the page's own most recent approval request: grouping by page
  and picking from the group is picking from the page's requests, and the picked request is at least
  as recent as every other one (creation time first, then id).
\<close>

theorem page_lifecycle_latest:
  assumes "total_comparator lc" and "distinct (map pli_id pages)" and "page \<in> set pages"
  shows "\<exists>latest. jm_get (resolveLandingPageLifecycle lc requests org pages) (pli_id page) =
      Some (resolution (pli_publishedAt page) latest) \<and>
    (let rs = map approval_ref (filter (\<lambda>r. ar_organizationId r = org \<and>
        ar_targetType r = ''landing_page'' \<and> ar_targetId r = pli_id page) requests) in
     case latest of None \<Rightarrow> rs = [] | Some a \<Rightarrow> is_latest lc a rs)"
proof -
  let ?rs = "filter (\<lambda>r. ar_organizationId r = org \<and>
        ar_targetType r = ''landing_page'' \<and> ar_targetId r = pli_id page) requests"
  let ?g = "\<lambda>r m. jm_set (ar_targetId r)
            ((case jm_get m (ar_targetId r) of None \<Rightarrow> [] | Some arr \<Rightarrow> arr) @ [approval_ref r]) m"
  have ne: "pages \<noteq> []" using assms(3) by auto
  have rel: "filter (\<lambda>r. ar_targetId r = pli_id page)
      (filter (\<lambda>r. ar_organizationId r = org \<and> ar_targetType r = ''landing_page'' \<and>
         ar_targetId r \<in> set (map pli_id pages)) requests) = ?rs"
    using assms(3) unfolding filter_filter by (intro filter_cong) auto
  have "jm_get (resolveLandingPageLifecycle lc requests org pages) (pli_id page) =
      Some (resolution (pli_publishedAt page) (pickLatestApproval lc (map approval_ref ?rs)))"
    unfolding resolveLandingPageLifecycle_def Let_def if_not_P [OF ne]
    by (subst jm_get_fold_keyed [OF assms(2,3)]) (simp add: jm_get_grouped rel del: set_map filter_filter)
  moreover have "case pickLatestApproval lc (map approval_ref ?rs) of
      None \<Rightarrow> map approval_ref ?rs = [] | Some a \<Rightarrow> is_latest lc a (map approval_ref ?rs)"
    using pickLatest_iff [OF assms(1), of "map approval_ref ?rs"]
    by (cases "map approval_ref ?rs = []") auto
  ultimately show ?thesis by (auto simp: Let_def)
qed

text \<open>A comparator for the witnesses: strings compared by an injective code.\<close>

primrec str_code :: "string \<Rightarrow> int" where
  "str_code [] = 0"
| "str_code (c # cs) = 257 * str_code cs + of_char c + 1"

definition code_compare :: "string \<Rightarrow> string \<Rightarrow> int" where
  "code_compare x y = str_code x - str_code y"

lemma of_char_bounds: "0 \<le> (of_char c :: int)" "(of_char c :: int) < 256"
  by (metis of_char_of of_char_mod_256 of_nat_0_le_iff of_nat_of_char,
      metis of_char_mod_256 pos_mod_bound zero_less_numeral)

lemma str_code_nonneg: "0 \<le> str_code s"
  using of_char_bounds(1) by (induction s) (auto simp: add_nonneg_nonneg)

lemma digit_unique:
  "257 * (a::int) + x = 257 * b + y \<Longrightarrow> 0 \<le> x \<Longrightarrow> x < 256 \<Longrightarrow> 0 \<le> y \<Longrightarrow> y < 256 \<Longrightarrow> a = b"
  by linarith

lemma str_code_inj: "str_code x = str_code y \<Longrightarrow> x = y"
proof (induction x arbitrary: y)
  case Nil
  then show ?case
    using str_code_nonneg of_char_bounds(1)
    by (cases y) (auto, smt (verit, best))
next
  case (Cons c cs)
  show ?case
  proof (cases y)
    case Nil
    with Cons.prems str_code_nonneg [of cs] of_char_bounds [of c] show ?thesis by simp
  next
    case (Cons d ds)
    with Cons.prems have eq: "257 * str_code cs + of_char c = 257 * str_code ds + of_char d" by simp
    then have "str_code cs = str_code ds"
      by (rule digit_unique) (rule of_char_bounds)+
    with eq Cons.IH Cons show ?thesis by simp
  qed
qed

lemma code_compare_total: "total_comparator code_compare"
  using str_code_inj by (auto simp: total_comparator_def code_compare_def)

definition sample_payload :: PublishApprovalPayload where
  "sample_payload =
     \<lparr> pay_page_id = ''p1'',
       pay_options = \<lparr> opt_visibility = PRIVATE, opt_password = None, opt_expires_at = None,
                       opt_release_notes = None \<rparr>,
       pay_steps = [], pay_approvals = [], pay_current_step_order = Some 1 \<rparr>"

definition sample_approval :: "ident \<Rightarrow> string \<Rightarrow> millis \<Rightarrow> ApprovalRequest" where
  "sample_approval i st t =
     \<lparr> ar_id = i, ar_organizationId = ''org'', ar_requestType = ''LANDING_PAGE_PUBLISH'',
       ar_targetType = ''landing_page'', ar_targetId = ''p1'', ar_requestedByUserId = ''u1'',
       ar_reviewerUserId = None, ar_status = st, ar_requestPayload = sample_payload,
       ar_reviewNotes = None, ar_reviewedAt = None, ar_createdAt = t \<rparr>"

lemmas lifecycle_eval =
  pickLatestApproval_def sort_cmp_def compareApprovalRecency_def resolution_def
  resolveLifecycleStage_def normalizeApprovalStatus_def approval_ref_def sample_approval_def

theorem story_lifecycle_latest_witness:
  "map_option lr_stage (jm_get
     (resolveStoryLifecycle code_compare
        [sample_approval ''r1'' ''REJECTED'' 5, sample_approval ''r2'' ''PENDING'' 9] ''org''
        [\<lparr> sli_id = ''s1'', sli_publishedAt = None, sli_landingPages = [''p1'', ''p2''] \<rparr>]) ''s1'') =
   Some IN_REVIEW"
  using story_lifecycle_latest [OF code_compare_total,
      of "[sample_approval ''r1'' ''REJECTED'' 5, sample_approval ''r2'' ''PENDING'' 9]"
        "[\<lparr> sli_id = ''s1'', sli_publishedAt = None, sli_landingPages = [''p1'', ''p2''] \<rparr>]"
        "\<lparr> sli_id = ''s1'', sli_publishedAt = None, sli_landingPages = [''p1'', ''p2''] \<rparr>" "''org''"]
  by (simp add: unique_key_def story_requests_def lifecycle_eval)

theorem page_lifecycle_latest_witness:
  "\<exists>latest. jm_get
     (resolveLandingPageLifecycle code_compare
        [sample_approval ''r1'' ''REJECTED'' 5, sample_approval ''r2'' ''PENDING'' 9] ''org''
        [\<lparr> pli_id = ''p1'', pli_publishedAt = None \<rparr>]) ''p1'' = Some (resolution None latest)"
  using page_lifecycle_latest [OF code_compare_total,
      of "[\<lparr> pli_id = ''p1'', pli_publishedAt = None \<rparr>]" "\<lparr> pli_id = ''p1'', pli_publishedAt = None \<rparr>"
        "[sample_approval ''r1'' ''REJECTED'' 5, sample_approval ''r2'' ''PENDING'' 9]" "''org''"]
  by auto

text \<open>
  Turning on \<open>requireApprovalToPublish\<close> alone has no effect: the settings row always carries an
  approval policy (the schema defaults it to \<open>ALL_NO_APPROVAL\<close>), which takes precedence, so after an
  update that gives no approval policy the organization's policy is what it was before.
\<close>

theorem require_approval_flag_ignored:
  assumes "upd_approvalPolicy u = None"
  shows "getOrgApprovalPolicy (updateOrgSettings org u db) org =
     (case org_settings db org of None \<Rightarrow> ALL_NO_APPROVAL | Some s \<Rightarrow> os_approvalPolicy s)"
proof -
  have "org_settings (updateOrgSettings org u db) org =
     Some (cleanUpdates u (case org_settings db org of None \<Rightarrow> default_org_settings org | Some s \<Rightarrow> s))"
    by (simp add: org_settings_def updateOrgSettings_def find_upsert_same split: option.split)
  with assms show ?thesis
    by (simp add: getOrgApprovalPolicy_def resolveApprovalPolicyFromSettings_def cleanUpdates_def
        default_org_settings_def split: option.split)
qed

theorem require_approval_flag_ignored_witness:
  "upd_requireApprovalToPublish sample_update = Some True \<and>
   requiresApproval (updateOrgSettings ''org'' sample_update sample_access_db) ''org'' True =
     (ALL_NO_APPROVAL, False)"
  using require_approval_flag_ignored [of sample_update "''org''" sample_access_db]
  by (simp add: sample_update_def sample_access_db_def org_settings_def requiresApproval_def
      requiresPublishApproval_def)

end
