(* ===== verification/Company_Text.thy ===== *)
theory Company_Text
  imports Prelude "HOL-Library.Sublist"
begin

text \<open>
  Text functions of the publishing pipeline: lower-casing, the regular expressions with word
  boundaries that look for a company's identifiers (\<open>detectScrubLeakage\<close>), the normal form of a
  company name (\<open>normalizeCompanyName\<close> of \<open>src/services/entity-resolution.ts\<close>) and the base of a page's
  slug (\<open>generateUniqueSlug\<close>). Code units are the one-byte ones.
\<close>

section \<open>Characters\<close>

text \<open>\<open>toLowerCase\<close>: ASCII capitals, and the Latin-1 capitals (all of 0xC0..0xDE but the sign 0xD7).\<close>

definition lower_char :: "char \<Rightarrow> char" where
  "lower_char c =
     (let n = (of_char c :: nat) in
      if 65 \<le> n \<and> n \<le> 90 \<or> 192 \<le> n \<and> n \<le> 222 \<and> n \<noteq> 215 then char_of (n + 32) else c)"

definition toLowerCase :: "string \<Rightarrow> string" where
  "toLowerCase s = map lower_char s"

definition is_lower_az :: "char \<Rightarrow> bool" where
  "is_lower_az c \<longleftrightarrow> 97 \<le> (of_char c :: nat) \<and> (of_char c :: nat) \<le> 122"

definition is_digit :: "char \<Rightarrow> bool" where
  "is_digit c \<longleftrightarrow> 48 \<le> (of_char c :: nat) \<and> (of_char c :: nat) \<le> 57"

text \<open>\<open>\w\<close> is [A-Za-z0-9_].\<close>

definition word_char :: "char \<Rightarrow> bool" where
  "word_char c \<longleftrightarrow> is_lower_az c \<or> is_digit c \<or>
     65 \<le> (of_char c :: nat) \<and> (of_char c :: nat) \<le> 90 \<or> c = CHR ''_''"

section \<open>Word boundaries\<close>

text \<open>The character before and the one after a position; \<open>None\<close> is the end of the input.\<close>

definition is_word :: "char option \<Rightarrow> bool" where
  "is_word c = (case c of None \<Rightarrow> False | Some c \<Rightarrow> word_char c)"

definition boundary :: "char option \<Rightarrow> char option \<Rightarrow> bool" where
  "boundary a b \<longleftrightarrow> is_word a \<noteq> is_word b"

fun first_char :: "string \<Rightarrow> char option" where
  "first_char [] = None"
| "first_char (c # _) = Some c"

text \<open>\<open>\bw\b\<close> at the current position, \<open>prev\<close> being the character before it.\<close>

definition word_at :: "string \<Rightarrow> char option \<Rightarrow> string \<Rightarrow> bool" where
  "word_at w prev s \<longleftrightarrow>
     prefix w s \<and> boundary prev (first_char s) \<and>
     boundary (if w = [] then prev else Some (last w)) (first_char (drop (length w) s))"

fun test_word :: "string \<Rightarrow> char option \<Rightarrow> string \<Rightarrow> bool" where
  "test_word w prev [] = word_at w prev []"
| "test_word w prev (c # s) = (word_at w prev (c # s) \<or> test_word w (Some c) s)"

fun test_substring :: "string \<Rightarrow> string \<Rightarrow> bool" where
  "test_substring w [] = prefix w []"
| "test_substring w (c # s) = (prefix w (c # s) \<or> test_substring w s)"

text \<open>The regular expression \<open>detectScrubLeakage\<close> builds for a candidate, tested on a text.\<close>

definition mentions :: "string \<Rightarrow> string \<Rightarrow> bool" where
  "mentions candidate s =
     (if CHR ''.'' \<in> set candidate then test_substring candidate s else test_word candidate None s)"

section \<open>Normal form of a company name\<close>

text \<open>The alternatives of the suffix expression in their order; the flag is the optional dot.\<close>

definition company_suffixes :: "(string \<times> bool) list" where
  "company_suffixes =
     [(''inc'', True), (''incorporated'', False), (''corp'', True), (''corporation'', False),
      (''llc'', False), (''ltd'', True), (''limited'', False), (''co'', True), (''company'', False),
      (''group'', False), (''holdings'', False), (''plc'', False), (''gmbh'', False), (''sa'', False),
      (''ag'', False)]"

text \<open>One alternative: with its dot if that matches up to a boundary, else without. The length of
  the match.\<close>

definition match_suffix :: "char option \<Rightarrow> string \<Rightarrow> string \<times> bool \<Rightarrow> nat option" where
  "match_suffix prev s alt =
     (let w = fst alt; wd = w @ ''.'' in
      if snd alt \<and> word_at wd prev s then Some (length wd)
      else if word_at w prev s then Some (length w)
      else None)"

fun first_some :: "('a \<Rightarrow> 'b option) \<Rightarrow> 'a list \<Rightarrow> 'b option" where
  "first_some f [] = None"
| "first_some f (x # xs) = (case f x of None \<Rightarrow> first_some f xs | Some y \<Rightarrow> Some y)"

definition suffix_at :: "char option \<Rightarrow> string \<Rightarrow> nat option" where
  "suffix_at prev s = first_some (match_suffix prev s) company_suffixes"

text \<open>The global replacement by the empty string: a match of length \<open>n\<close> is skipped (\<open>skip\<close> counts
  what is left of it), matching goes on behind it.\<close>

fun remove_suffixes :: "nat \<Rightarrow> char option \<Rightarrow> string \<Rightarrow> string" where
  "remove_suffixes skip prev [] = []"
| "remove_suffixes (Suc skip) prev (c # s) = remove_suffixes skip (Some c) s"
| "remove_suffixes 0 prev (c # s) =
     (case suffix_at prev (c # s) of
        Some (Suc n) \<Rightarrow> remove_suffixes n (Some c) s
      | _ \<Rightarrow> c # remove_suffixes 0 (Some c) s)"

text \<open>\<open>replace(/\s+/g, " ")\<close>.\<close>

fun collapse_ws :: "string \<Rightarrow> string" where
  "collapse_ws [] = []"
| "collapse_ws (c # s) =
     (if js_ws c then
        (case collapse_ws s of
           [] \<Rightarrow> '' ''
         | d # t \<Rightarrow> if d = CHR '' '' then d # t else CHR '' '' # d # t)
      else c # collapse_ws s)"

definition normalizeCompanyName :: "string \<Rightarrow> string" where
  "normalizeCompanyName name =
     trim (collapse_ws (map (\<lambda>c. if c \<in> set ''.,-()'' then CHR '' '' else c)
       (remove_suffixes 0 None (toLowerCase name))))"

section \<open>Slugs\<close>

text \<open>\<open>replace(/[^a-z0-9]+/g, "-")\<close>.\<close>

definition slug_char :: "char \<Rightarrow> bool" where
  "slug_char c \<longleftrightarrow> is_lower_az c \<or> is_digit c"

fun dash_runs :: "bool \<Rightarrow> string \<Rightarrow> string" where
  "dash_runs inrun [] = []"
| "dash_runs inrun (c # s) =
     (if slug_char c then c # dash_runs False s
      else if inrun then dash_runs True s
      else CHR ''-'' # dash_runs True s)"

text \<open>\<open>replace(/^-|-$/g, "")\<close>: one dash at either end.\<close>

definition strip_dashes :: "string \<Rightarrow> string" where
  "strip_dashes s =
     (let t = (case s of c # r \<Rightarrow> if c = CHR ''-'' then r else s | [] \<Rightarrow> []) in
      if t \<noteq> [] \<and> last t = CHR ''-'' then butlast t else t)"

definition slug_base :: "string \<Rightarrow> string" where
  "slug_base title = take 40 (strip_dashes (dash_runs False (toLowerCase title)))"

text \<open>\<open>hex4\<close> and \<open>hex6\<close> are the random suffixes; the second is used when the first slug is taken.\<close>

definition generateUniqueSlug :: "string list \<Rightarrow> string \<Rightarrow> string \<Rightarrow> string \<Rightarrow> string" where
  "generateUniqueSlug slugs hex4 hex6 title =
     (let base = slug_base title; slug = base @ ''-'' @ hex4 in
      if slug \<in> set slugs then base @ ''-'' @ hex6 else slug)"

section \<open>Mentions in a joined text\<close>

lemma boundary_cong: "is_word a = is_word a' \<Longrightarrow> is_word b = is_word b' \<Longrightarrow> boundary a b = boundary a' b'"
  by (simp add: boundary_def)

lemma word_at_prev: "w \<noteq> [] \<Longrightarrow> is_word p = is_word q \<Longrightarrow> word_at w p s = word_at w q s"
  by (simp add: word_at_def boundary_def)

lemma test_word_prev: "w \<noteq> [] \<Longrightarrow> is_word p = is_word q \<Longrightarrow> test_word w p s = test_word w q s"
  by (cases s) (simp_all add: word_at_prev [of w p q])

lemma first_char_append: "first_char (s @ t) = (if s = [] then first_char t else first_char s)"
  by (cases s) auto

lemma word_at_append:
  assumes "word_at w p s" and "w \<noteq> []" and "\<not> is_word (first_char t)"
  shows "word_at w p (s @ t)"
proof -
  from assms(1) obtain r where s: "s = w @ r" by (auto simp: word_at_def prefix_def)
  with assms show ?thesis
    by (cases r) (auto simp: word_at_def boundary_def first_char_append is_word_def)
qed

lemma test_word_append_left:
  "test_word w p s \<Longrightarrow> w \<noteq> [] \<Longrightarrow> \<not> is_word (first_char t) \<Longrightarrow> test_word w p (s @ t)"
proof (induction s arbitrary: p)
  case Nil
  then show ?case by (simp add: word_at_def)
next
  case (Cons c s)
  then show ?case using word_at_append [of w p "c # s" t] by auto
qed

lemma test_word_append_right:
  "test_word w (Some d) s \<Longrightarrow> test_word w p (u @ d # s)"
  by (induction u arbitrary: p) auto

lemma test_substring_iff: "test_substring w s \<longleftrightarrow> (\<exists>u v. s = u @ w @ v)"
proof (induction s)
  case (Cons c s)
  show ?case
  proof
    assume "test_substring w (c # s)"
    then consider "prefix w (c # s)" | "test_substring w s" by auto
    then show "\<exists>u v. c # s = u @ w @ v"
    proof cases
      case 1
      then obtain v where "c # s = w @ v" by (auto simp: prefix_def)
      then show ?thesis by (intro exI [of _ "[]"] exI [of _ v]) simp
    next
      case 2
      with Cons.IH obtain u v where "s = u @ w @ v" by auto
      then show ?thesis by (intro exI [of _ "c # u"] exI [of _ v]) simp
    qed
  next
    assume "\<exists>u v. c # s = u @ w @ v"
    then obtain u v where uv: "c # s = u @ w @ v" by blast
    then show "test_substring w (c # s)"
    proof (cases u)
      case Nil
      with uv have "prefix w (c # s)" by (simp add: prefix_def)
      then show ?thesis by simp
    next
      case (Cons d u')
      with uv \<open>test_substring w s \<longleftrightarrow> (\<exists>u v. s = u @ w @ v)\<close> show ?thesis by auto
    qed
  qed
qed (auto simp: prefix_def)

definition join_nl :: "string list \<Rightarrow> string" where
  "join_nl frags = concat (case frags of [] \<Rightarrow> [] | f # fs \<Rightarrow> f # map (\<lambda>g. CHR 0x0A # g) fs)"

lemma not_word_nl [simp]: "\<not> word_char (CHR 0x0A)"
  by (simp add: word_char_def is_lower_az_def is_digit_def)

lemma is_word_simps [simp]: "is_word None = False" "is_word (Some c) = word_char c"
  by (simp_all add: is_word_def)

lemma lower_nl [simp]: "lower_char (CHR 0x0A) = CHR 0x0A"
  by (simp add: lower_char_def)

text \<open>Every fragment stands in the joined text between newlines or its ends.\<close>

lemma join_nl_split:
  "f \<in> set frags \<Longrightarrow> \<exists>u v. join_nl frags = u @ f @ v \<and> (u = [] \<or> last u = CHR 0x0A) \<and>
     (v = [] \<or> hd v = CHR 0x0A)"
proof (induction frags)
  case (Cons g gs)
  have rest: "join_nl (g # gs) = g @ concat (map (\<lambda>h. CHR 0x0A # h) gs)"
    by (simp add: join_nl_def)
  show ?case
  proof (cases "f = g")
    case True
    show ?thesis
      by (rule exI [of _ "[]"], rule exI [of _ "concat (map (\<lambda>h. CHR 0x0A # h) gs)"])
        (use True rest in \<open>cases gs; auto\<close>)
  next
    case False
    with Cons.prems obtain as bs where "gs = as @ f # bs" by (auto dest: split_list)
    then show ?thesis
      using rest
      by (intro exI [of _ "g @ concat (map (\<lambda>h. CHR 0x0A # h) as) @ [CHR 0x0A]"]
          exI [of _ "concat (map (\<lambda>h. CHR 0x0A # h) bs)"]) (cases bs; auto)
  qed
qed simp

lemma mentions_join:
  assumes "mentions w (toLowerCase f)" and "f \<in> set frags" and "w \<noteq> []"
  shows "mentions w (toLowerCase (join_nl frags))"
proof -
  from join_nl_split [OF assms(2)] obtain u v where
    j: "join_nl frags = u @ f @ v" and u: "u = [] \<or> last u = CHR 0x0A" and v: "v = [] \<or> hd v = CHR 0x0A"
    by blast
  have lc: "toLowerCase (join_nl frags) = toLowerCase u @ toLowerCase f @ toLowerCase v"
    by (simp add: j toLowerCase_def)
  show ?thesis
  proof (cases "CHR ''.'' \<in> set w")
    case True
    with assms(1) obtain x y where "toLowerCase f = x @ w @ y"
      by (auto simp: mentions_def test_substring_iff)
    with True show ?thesis
      unfolding mentions_def lc by (auto simp: test_substring_iff) (metis append.assoc)
  next
    case False
    have "\<not> is_word (first_char (toLowerCase v))"
      using v by (cases v) (auto simp: toLowerCase_def)
    with False assms(1,3) have t: "test_word w None (toLowerCase f @ toLowerCase v)"
      by (simp add: mentions_def test_word_append_left)
    show ?thesis
    proof (cases "u = []")
      case True
      with t False lc show ?thesis by (simp add: mentions_def toLowerCase_def [of "[]"])
    next
      case ne: False
      with u have "toLowerCase u = toLowerCase (butlast u) @ [CHR 0x0A]"
        by (metis append_butlast_last_id list.simps(8,9) lower_nl map_append toLowerCase_def)
      moreover have "test_word w (Some (CHR 0x0A)) (toLowerCase f @ toLowerCase v)"
        using t test_word_prev [OF assms(3), of "Some (CHR 0x0A)" None] by simp
      ultimately show ?thesis
        using test_word_append_right [of w "CHR 0x0A" "toLowerCase f @ toLowerCase v" None]
        by (simp add: mentions_def False lc)
    qed
  qed
qed

section \<open>Slug properties\<close>

lemma set_dash_runs: "set (dash_runs b s) \<subseteq> {c. slug_char c} \<union> {CHR ''-''}"
  by (induction s arbitrary: b) auto

lemma dash_runs_starts: "dash_runs True s = [] \<or> hd (dash_runs True s) \<noteq> CHR ''-''"
  by (induction s) (auto simp: slug_char_def is_lower_az_def is_digit_def)

lemma strip_dash_runs_starts:
  "strip_dashes (dash_runs False s) = [] \<or> hd (strip_dashes (dash_runs False s)) \<noteq> CHR ''-''"
proof -
  have no_dash: "\<not> slug_char (CHR ''-'')"
    by (simp add: slug_char_def is_lower_az_def is_digit_def)
  have bl: "butlast t = [] \<or> hd (butlast t) = hd t" if "t \<noteq> []" for t :: string
    using that by (cases t) auto
  show ?thesis
  proof (cases s)
    case (Cons c r)
    show ?thesis
    proof (cases "slug_char c")
      case True
      with no_dash have "c \<noteq> CHR ''-''" by auto
      with Cons True bl [of "c # dash_runs False r"] show ?thesis
        by (auto simp: strip_dashes_def Let_def)
    next
      case False
      with Cons have "dash_runs False s = CHR ''-'' # dash_runs True r" by simp
      with dash_runs_starts [of r] bl [of "dash_runs True r"] show ?thesis
        by (auto simp: strip_dashes_def Let_def)
    qed
  qed (simp add: strip_dashes_def)
qed

lemma set_strip_dashes: "set (strip_dashes s) \<subseteq> set s"
  by (auto simp: strip_dashes_def Let_def dest: in_set_butlastD split: list.splits if_splits)

lemma set_slug_base: "set (slug_base title) \<subseteq> {c. slug_char c} \<union> {CHR ''-''}"
  unfolding slug_base_def
  using set_strip_dashes set_dash_runs by (meson in_set_takeD subset_iff)

text \<open>
  A generated slug is URL-safe and bounded: with hexadecimal random suffixes it consists of
  lower-case letters, digits and dashes only, its title part is at most 40 characters long and does
  not start with a dash, and it is not a slug in use unless both random suffixes collide.
\<close>

theorem slug_wellformed:
  assumes "\<And>c. c \<in> set hex4 \<union> set hex6 \<Longrightarrow> slug_char c"
    and "slug_base title @ ''-'' @ hex6 \<notin> set slugs"
  shows "list_all (\<lambda>c. slug_char c \<or> c = CHR ''-'') (generateUniqueSlug slugs hex4 hex6 title) \<and>
    length (slug_base title) \<le> 40 \<and>
    (slug_base title = [] \<or> hd (slug_base title) \<noteq> CHR ''-'') \<and>
    generateUniqueSlug slugs hex4 hex6 title \<notin> set slugs"
proof -
  have "list_all (\<lambda>c. slug_char c \<or> c = CHR ''-'') (slug_base title)"
    using set_slug_base by (fastforce simp: list_all_iff)
  moreover have "slug_base title = [] \<or> hd (slug_base title) \<noteq> CHR ''-''"
    using strip_dash_runs_starts [of "toLowerCase title"] by (auto simp: slug_base_def)
  moreover have "length (slug_base title) \<le> 40"
    by (simp add: slug_base_def)
  ultimately show ?thesis
    using assms by (auto simp: generateUniqueSlug_def Let_def list_all_iff)
qed

theorem slug_wellformed_witness:
  "generateUniqueSlug [''acme-q3-results-00ff''] ''00ff'' ''aa11bb'' ''  Acme: Q3 results! '' = ''acme-q3-results-aa11bb'' \<and>
   list_all (\<lambda>c. slug_char c \<or> c = CHR ''-'')
     (generateUniqueSlug [''acme-q3-results-00ff''] ''00ff'' ''aa11bb'' ''  Acme: Q3 results! '')"
proof -
  have b: "slug_base ''  Acme: Q3 results! '' = ''acme-q3-results''"
    by code_simp
  have "\<And>c. c \<in> set ''00ff'' \<union> set ''aa11bb'' \<Longrightarrow> slug_char c"
    by (auto simp: slug_char_def is_lower_az_def is_digit_def)
  from slug_wellformed [of "''00ff''" "''aa11bb''" "''  Acme: Q3 results! ''" "[''acme-q3-results-00ff'']", OF this]
  show ?thesis
    by (simp add: b generateUniqueSlug_def)
qed

end
