(* ===== verification/Landing_Page.thy ===== *)
theory Landing_Page
  imports Lifecycle Company_Text
begin

text \<open>
  \<open>src/services/landing-page-editor.ts\<close>, \<open>landing-page-editor-helpers.ts\<close>,
  \<open>landing-page-editor-admin.ts\<close> and \<open>scheduled-page-publish.ts\<close>: a landing page from its creation over
  edits, publication, the public view, archiving and roll back to an earlier version.

  Parameters of the operations: \<open>scrub\<close> (\<open>CompanyScrubber.scrubForAccount\<close> with its account),
  \<open>linkIssues\<close> (the link checks of \<open>publish-link-utils.ts\<close>), \<open>hash\<close> and \<open>verify\<close> (the password hash of
  \<open>lib/page-password.ts\<close>), generated ids and the clock. The properties hold for every choice of them.
\<close>

section \<open>State\<close>

record PageDb =
  pdb_pages :: "LandingPage list"
  pdb_edits :: "LandingPageEdit list"
  pdb_versions :: "ArtifactVersion list"
  pdb_stories :: "Story list"
  pdb_accounts :: "Account list"
  pdb_domains :: "AccountDomain list"
  pdb_calls :: "Call list"
  pdb_quotes :: "HighValueQuote list"
  pdb_settings :: "OrgSettings list"

datatype PublishIssueCode =
    title_too_short | body_required | body_too_short | callout_title_required nat
  | callout_body_required nat | link_issue string

datatype PageError =
    PageNotFound | StoryNotFound | VersionNotFound
  | ConcurrencyConflict millis millis string
  | PublishValidation "PublishIssueCode list"
  | ScrubValidation "string list"

definition find_page :: "PageDb \<Rightarrow> ident \<Rightarrow> LandingPage option" where
  "find_page db pageId = List.find (\<lambda>p. lp_id p = pageId) (pdb_pages db)"

text \<open>\<open>update\<close> by id; \<open>@updatedAt\<close> is set by every update.\<close>

definition update_page :: "millis \<Rightarrow> ident \<Rightarrow> (LandingPage \<Rightarrow> LandingPage) \<Rightarrow> PageDb \<Rightarrow> PageDb" where
  "update_page now pageId f db =
     db\<lparr> pdb_pages := update_many (\<lambda>p. lp_id p = pageId) (\<lambda>p. (f p)\<lparr> lp_updatedAt := now \<rparr>) (pdb_pages db) \<rparr>"

section \<open>Helpers\<close>

definition formatMetricTitle :: "string \<Rightarrow> string" where
  "formatMetricTitle metricType =
     (case map_of [(''cost_savings'', ''Cost Savings''), (''revenue'', ''Revenue Impact''),
                   (''time_saved'', ''Time Saved''), (''efficiency'', ''Efficiency Gain''),
                   (''error_reduction'', ''Error Reduction''), (''adoption'', ''Adoption Rate''),
                   (''scale'', ''Scale Achieved''), (''roi'', ''Return on Investment'')] metricType of
        None \<Rightarrow> ''Key Metric'' | Some t \<Rightarrow> t)"

text \<open>The dash of the source's template is the three-byte character U+2014; its bytes stand here.\<close>

definition em_dash :: string where
  "em_dash = [CHR 0xE2, CHR 0x80, CHR 0x94]"

definition buildDefaultCalloutBoxes :: "HighValueQuote list \<Rightarrow> CalloutBox list option \<Rightarrow> CalloutBox list" where
  "buildDefaultCalloutBoxes quotes calloutBoxes =
     (case calloutBoxes of
        Some bs \<Rightarrow> bs
      | None \<Rightarrow> map (\<lambda>q.
          \<lparr> cb_title = (if truthy (hq_metricType q) then formatMetricTitle (the (hq_metricType q))
                        else ''Key Insight''),
            cb_body = (if truthy (hq_metricValue q)
                       then ''**'' @ the (hq_metricValue q) @ ''** '' @ em_dash @ '' '' @ hq_quoteText q
                       else hq_quoteText q),
            cb_icon = Some (if truthy (hq_metricValue q) then icon_metric else icon_quote) \<rparr>)
          (take 3 quotes))"

definition anonymizationEnabled :: "PageDb \<Rightarrow> ident \<Rightarrow> bool" where
  "anonymizationEnabled db org =
     (case List.find (\<lambda>s. os_organizationId s = org) (pdb_settings db) of
        None \<Rightarrow> True | Some s \<Rightarrow> os_anonymizationEnabled s)"

text \<open>The publication date of the latest published page of the story, \<open>null\<close> when there is none.\<close>

definition latest_published :: "LandingPage list \<Rightarrow> ident \<Rightarrow> millis option" where
  "latest_published pages storyId =
     fold (\<lambda>p acc. case lp_publishedAt p of
             None \<Rightarrow> acc
           | Some t \<Rightarrow> (case acc of None \<Rightarrow> Some t | Some u \<Rightarrow> Some (max t u)))
       (filter (\<lambda>p. lp_storyId p = storyId \<and> lp_status p = PAGE_PUBLISHED) pages) None"

definition syncStoryPublishedAtFromLandingPages :: "ident \<Rightarrow> PageDb \<Rightarrow> PageDb" where
  "syncStoryPublishedAtFromLandingPages storyId db =
     db\<lparr> pdb_stories :=
       update_many (\<lambda>s. st_id s = storyId)
         (\<lambda>s. s\<lparr> st_publishedAt := latest_published (pdb_pages db) storyId \<rparr>) (pdb_stories db) \<rparr>"

text \<open>The identifiers of an account that must not appear, in the order the \<open>Set\<close> has them.\<close>

definition leak_candidates :: "Account \<Rightarrow> AccountDomain list \<Rightarrow> string list" where
  "leak_candidates a aliases =
     (let c0 = (if a_name a = [] then [] else
                let c = js_add (trim (a_name a)) [];
                    n = normalizeCompanyName (a_name a)
                in if n = [] then c else js_add n c);
          c1 = (if truthy (a_domain a) then js_add (trim (the (a_domain a))) c0 else c0)
      in fold (\<lambda>d cs. if ad_domain d = [] then cs else js_add (trim (ad_domain d)) cs)
           (filter (\<lambda>d. ad_accountId d = a_id a) aliases) c1)"

definition detectScrubLeakage :: "PageDb \<Rightarrow> Account \<Rightarrow> string list \<Rightarrow> string list" where
  "detectScrubLeakage db account textFragments =
     (let combined = toLowerCase (join_nl textFragments) in
      take 10 (filter (\<lambda>raw. let candidate = toLowerCase raw in
                  3 \<le> length candidate \<and> mentions candidate combined)
        (leak_candidates account (pdb_domains db))))"

text \<open>The characters \<open>validatePublishSnapshot\<close> replaces by spaces, and \<open>split(" ")\<close>.\<close>

definition markdown_char :: "char \<Rightarrow> bool" where
  "markdown_char c \<longleftrightarrow> c \<in> set ''`*_#>|[]()!~-''"

fun split_spaces :: "string \<Rightarrow> string list" where
  "split_spaces [] = [[]]"
| "split_spaces (c # s) =
     (if c = CHR '' '' then [] # split_spaces s
      else case split_spaces s of [] \<Rightarrow> [[c]] | w # ws \<Rightarrow> (c # w) # ws)"

definition callout_issues :: "CalloutBox list \<Rightarrow> PublishIssueCode list" where
  "callout_issues boxes =
     concat (map (\<lambda>(i, b).
       (if trim (cb_title b) = [] then [callout_title_required i] else []) @
       (if trim (cb_body b) = [] then [callout_body_required i] else [])) (enumerate 0 boxes))"

definition validatePublishSnapshot ::
  "(string list \<Rightarrow> string list) \<Rightarrow> string \<Rightarrow> string option \<Rightarrow> string \<Rightarrow> CalloutBox list \<Rightarrow>
     PublishIssueCode list" where
  "validatePublishSnapshot linkIssues title subtitle body boxes =
     (if length (trim title) < 3 then [title_too_short] else []) @
     (if trim body = [] then [body_required]
      else let plainText = trim (collapse_ws (map (\<lambda>c. if markdown_char c then CHR '' '' else c) (trim body)));
               words = (if plainText = [] then [] else split_spaces plainText)
           in if length plainText < 40 \<or> length words < 8 then [body_too_short] else []) @
     callout_issues boxes @
     map link_issue (linkIssues
       ([title] @ (case subtitle of None \<Rightarrow> [] | Some s \<Rightarrow> [s]) @ [body] @
        concat (map (\<lambda>b. [cb_title b, cb_body b]) boxes)))"

section \<open>Artifact versions\<close>

definition of_page :: "ident \<Rightarrow> ident \<Rightarrow> ArtifactVersion \<Rightarrow> bool" where
  "of_page org pageId v \<longleftrightarrow> av_landingPageId v = pageId \<and> av_organizationId v = org"

text \<open>\<open>(maxVersion._max.versionNumber ?? 0) + 1\<close>; the aggregate of no row is \<open>null\<close>.\<close>

definition next_version :: "ident \<Rightarrow> ident \<Rightarrow> ArtifactVersion list \<Rightarrow> int" where
  "next_version org pageId vs =
     (case map av_versionNumber (filter (of_page org pageId) vs) of
        [] \<Rightarrow> 0 | n # ns \<Rightarrow> fold max ns n) + 1"

definition retire_active :: "VersionStatus \<Rightarrow> ident \<Rightarrow> ident \<Rightarrow> ArtifactVersion list \<Rightarrow> ArtifactVersion list" where
  "retire_active st org pageId vs =
     update_many (\<lambda>v. of_page org pageId v \<and> av_status v = ACTIVE) (\<lambda>v. v\<lparr> av_status := st \<rparr>) vs"

record VersionInput =
  vi_releaseNotes :: "string option"
  vi_approvalRequestId :: "ident option"
  vi_publishedByUserId :: "ident option"
  vi_publishedAt :: millis

definition createArtifactVersion ::
  "ident \<Rightarrow> ident \<Rightarrow> VersionInput \<Rightarrow> PageDb \<Rightarrow> (PageError, PageDb) res" where
  "createArtifactVersion newId pageId inp db =
     (case find_page db pageId of
        None \<Rightarrow> Inl PageNotFound
      | Some page \<Rightarrow>
          let org = lp_organizationId page;
              vs = retire_active SUPERSEDED org (lp_id page) (pdb_versions db)
          in Inr (db\<lparr> pdb_versions := vs @
               [\<lparr> av_id = newId, av_organizationId = org, av_landingPageId = lp_id page,
                  av_versionNumber = next_version org (lp_id page) vs, av_status = ACTIVE,
                  av_releaseNotes = vi_releaseNotes inp, av_titleSnapshot = lp_title page,
                  av_subtitleSnapshot = lp_subtitle page, av_bodySnapshot = lp_editableBody page,
                  av_calloutBoxesSnapshot = lp_calloutBoxes page,
                  av_visibilitySnapshot = lp_visibility page, av_expiresAtSnapshot = lp_expiresAt page,
                  av_publishedAtSnapshot = Some (vi_publishedAt inp),
                  av_sourceEditId =
                    map_option le_id (List.find (\<lambda>e. le_landingPageId e = lp_id page) (pdb_edits db)),
                  av_publishedByUserId = vi_publishedByUserId inp,
                  av_approvalRequestId = vi_approvalRequestId inp,
                  av_rolledBackFromVersionId = None \<rparr>] \<rparr>))"

section \<open>Creating and editing\<close>

record CreateLandingPageInput =
  cr_storyId :: ident
  cr_organizationId :: ident
  cr_createdById :: ident
  cr_title :: string
  cr_subtitle :: "string option"
  cr_heroImageUrl :: "string option"
  cr_calloutBoxes :: "CalloutBox list option"
  cr_includeCompanyName :: "bool option"

text \<open>\<open>Math.round(x)\<close> is the floor of \<open>x + 0.5\<close>.\<close>

definition total_hours :: "Call list \<Rightarrow> ident \<Rightarrow> real" where
  "total_hours calls accountId =
     (let totalSeconds = sum_list (map (\<lambda>c. case call_duration c of None \<Rightarrow> 0 | Some d \<Rightarrow> d)
            (filter (\<lambda>c. call_accountId c = Some accountId) calls))
      in of_int \<lfloor>(real_of_int totalSeconds / 3600) * 10 + 1 / 2\<rfloor> / 10)"

definition create_page ::
  "millis \<Rightarrow> ident \<Rightarrow> string \<Rightarrow> string \<Rightarrow> CreateLandingPageInput \<Rightarrow> PageDb \<Rightarrow> (PageError, PageDb) res" where
  "create_page now newId hex4 hex6 inp db =
     (case List.find (\<lambda>s. st_id s = cr_storyId inp) (pdb_stories db) of
        None \<Rightarrow> Inl StoryNotFound
      | Some story \<Rightarrow>
          Inr (db\<lparr> pdb_pages := pdb_pages db @
            [\<lparr> lp_id = newId, lp_organizationId = cr_organizationId inp, lp_storyId = cr_storyId inp,
               lp_createdById = cr_createdById inp,
               lp_slug = generateUniqueSlug (map lp_slug (pdb_pages db)) hex4 hex6 (cr_title inp),
               lp_title = cr_title inp, lp_subtitle = cr_subtitle inp,
               lp_editableBody = st_markdownBody story, lp_scrubbedBody = [],
               lp_scrubbedTitle = None, lp_scrubbedSubtitle = None,
               lp_heroImageUrl = cr_heroImageUrl inp,
               lp_calloutBoxes = Some (buildDefaultCalloutBoxes
                 (filter (\<lambda>q. hq_storyId q = st_id story) (pdb_quotes db)) (cr_calloutBoxes inp)),
               lp_scrubbedCalloutBoxes = None,
               lp_totalCallHours = total_hours (pdb_calls db) (st_accountId story),
               lp_visibility = PRIVATE, lp_status = PAGE_DRAFT, lp_password = None,
               lp_includeCompanyName = (cr_includeCompanyName inp = Some True),
               lp_noIndex = True, lp_customCss = None, lp_viewCount = 0, lp_publishedAt = None,
               lp_expiresAt = None, lp_updatedAt = now \<rparr>] \<rparr>))"

text \<open>An \<open>undefined\<close> field of the update leaves the column; none of them can be set to \<open>null\<close>.\<close>

record UpdateLandingPageInput =
  ui_title :: "string option"
  ui_subtitle :: "string option"
  ui_editableBody :: "string option"
  ui_heroImageUrl :: "string option"
  ui_calloutBoxes :: "CalloutBox list option"
  ui_customCss :: "string option"
  ui_editSummary :: "string option"
  ui_expectedUpdatedAt :: "millis option"

definition pageUpdateData :: "UpdateLandingPageInput \<Rightarrow> LandingPage \<Rightarrow> LandingPage" where
  "pageUpdateData u p =
     p\<lparr> lp_title := keep (ui_title u) (lp_title p),
        lp_subtitle := (case ui_subtitle u of None \<Rightarrow> lp_subtitle p | Some s \<Rightarrow> Some s),
        lp_editableBody := keep (ui_editableBody u) (lp_editableBody p),
        lp_heroImageUrl := (case ui_heroImageUrl u of None \<Rightarrow> lp_heroImageUrl p | Some s \<Rightarrow> Some s),
        lp_calloutBoxes := (case ui_calloutBoxes u of None \<Rightarrow> lp_calloutBoxes p | Some s \<Rightarrow> Some s),
        lp_customCss := (case ui_customCss u of None \<Rightarrow> lp_customCss p | Some s \<Rightarrow> Some s) \<rparr>"

text \<open>
  \<open>update\<close> reads the page and checks the expected version, then writes. Other requests may run between
  the two awaits, so they are two steps: \<open>update_read\<close> and \<open>update_write\<close>, the second on the database
  of its own time.
\<close>

definition update_read :: "ident \<Rightarrow> UpdateLandingPageInput \<Rightarrow> PageDb \<Rightarrow> (PageError, LandingPage) res" where
  "update_read pageId u db =
     (case find_page db pageId of
        None \<Rightarrow> Inl PageNotFound
      | Some existing \<Rightarrow>
          (case ui_expectedUpdatedAt u of
             Some e \<Rightarrow>
               if lp_updatedAt existing \<noteq> e
               then Inl (ConcurrencyConflict e (lp_updatedAt existing) (lp_editableBody existing))
               else Inr existing
           | None \<Rightarrow> Inr existing))"

definition record_edit ::
  "ident \<Rightarrow> ident \<Rightarrow> ident \<Rightarrow> LandingPage \<Rightarrow> UpdateLandingPageInput \<Rightarrow> PageDb \<Rightarrow> PageDb" where
  "record_edit editId pageId userId existing u db =
     (case ui_editableBody u of
        Some body \<Rightarrow>
          if body \<noteq> lp_editableBody existing then
            db\<lparr> pdb_edits :=
              \<lparr> le_id = editId, le_landingPageId = pageId, le_editedById = userId,
                le_previousBody = lp_editableBody existing, le_newBody = body,
                le_editSummary = ui_editSummary u \<rparr> # pdb_edits db \<rparr>
          else db
      | None \<Rightarrow> db)"

definition update_write ::
  "millis \<Rightarrow> ident \<Rightarrow> ident \<Rightarrow> ident \<Rightarrow> LandingPage \<Rightarrow> UpdateLandingPageInput \<Rightarrow> PageDb \<Rightarrow>
     (PageError, millis \<times> PageDb) res" where
  "update_write now editId pageId userId existing u db =
     (case ui_expectedUpdatedAt u of
        Some e \<Rightarrow>
          (case find_page db pageId of
             None \<Rightarrow> Inl PageNotFound
           | Some latest \<Rightarrow>
               if lp_updatedAt latest \<noteq> e
               then Inl (ConcurrencyConflict e (lp_updatedAt latest) (lp_editableBody latest))
               else Inr (now, record_edit editId pageId userId existing u
                               (update_page now pageId (pageUpdateData u) db)))
      | None \<Rightarrow>
          if find_page db pageId = None then Inl PageNotFound
          else Inr (now, record_edit editId pageId userId existing u
                          (update_page now pageId (pageUpdateData u) db)))"

definition update ::
  "millis \<Rightarrow> ident \<Rightarrow> ident \<Rightarrow> ident \<Rightarrow> UpdateLandingPageInput \<Rightarrow> PageDb \<Rightarrow> (PageError, millis \<times> PageDb) res" where
  "update now editId pageId userId u db =
     (case update_read pageId u db of
        Inl e \<Rightarrow> Inl e
      | Inr existing \<Rightarrow> update_write now editId pageId userId existing u db)"

section \<open>Publishing\<close>

record PublishOptions =
  po_visibility :: PageVisibility
  po_password :: "string option"
  po_expiresAt :: "millis option"
  po_publishedByUserId :: "ident option"
  po_approvalRequestId :: "ident option"
  po_releaseNotes :: "string option"

record Scrubbed =
  sc_body :: string
  sc_title :: string
  sc_subtitle :: "string option"
  sc_callouts :: "CalloutBox list option"

definition scrub_page :: "(ident \<Rightarrow> string \<Rightarrow> string) \<Rightarrow> ident \<Rightarrow> LandingPage \<Rightarrow> Scrubbed" where
  "scrub_page scrub accountId page =
     (if lp_includeCompanyName page then
        \<lparr> sc_body = lp_editableBody page, sc_title = lp_title page, sc_subtitle = lp_subtitle page,
          sc_callouts = None \<rparr>
      else
        \<lparr> sc_body = scrub accountId (lp_editableBody page),
          sc_title = scrub accountId (lp_title page),
          sc_subtitle =
            (if truthy (lp_subtitle page) then Some (scrub accountId (the (lp_subtitle page))) else None),
          sc_callouts =
            map_option (map (\<lambda>b. b\<lparr> cb_title := scrub accountId (cb_title b),
                                      cb_body := scrub accountId (cb_body b) \<rparr>)) (lp_calloutBoxes page) \<rparr>)"

definition scrub_fragments :: "Scrubbed \<Rightarrow> string list" where
  "scrub_fragments s =
     [sc_body s, sc_title s, (case sc_subtitle s of None \<Rightarrow> [] | Some t \<Rightarrow> t)] @
     concat (map (\<lambda>b. [cb_title b, cb_body b]) (decodeCalloutBoxes (sc_callouts s)))"

definition published_page ::
  "(string \<Rightarrow> string) \<Rightarrow> millis \<Rightarrow> PublishOptions \<Rightarrow> Scrubbed \<Rightarrow> LandingPage \<Rightarrow> LandingPage" where
  "published_page hash now opts s p =
     p\<lparr> lp_scrubbedBody := sc_body s, lp_scrubbedTitle := Some (sc_title s),
        lp_scrubbedSubtitle := sc_subtitle s,
        lp_scrubbedCalloutBoxes :=
          (case sc_callouts s of None \<Rightarrow> lp_scrubbedCalloutBoxes p | Some bs \<Rightarrow> Some bs),
        lp_status := PAGE_PUBLISHED, lp_visibility := po_visibility opts,
        lp_password := (if truthy (po_password opts) then Some (hash (the (po_password opts))) else None),
        lp_expiresAt := po_expiresAt opts, lp_publishedAt := Some now, lp_noIndex := True \<rparr>"

text \<open>The account of the page's story; the foreign keys make both joins succeed.\<close>

definition page_account :: "PageDb \<Rightarrow> LandingPage \<Rightarrow> Account option" where
  "page_account db page =
     (case List.find (\<lambda>s. st_id s = lp_storyId page) (pdb_stories db) of
        None \<Rightarrow> None
      | Some story \<Rightarrow> List.find (\<lambda>a. a_id a = st_accountId story) (pdb_accounts db))"

definition publish ::
  "(ident \<Rightarrow> string \<Rightarrow> string) \<Rightarrow> (string list \<Rightarrow> string list) \<Rightarrow> (string \<Rightarrow> string) \<Rightarrow> millis \<Rightarrow> ident \<Rightarrow>
     ident \<Rightarrow> PublishOptions \<Rightarrow> PageDb \<Rightarrow> (PageError, string \<times> PageDb) res" where
  "publish scrub linkIssues hash now newId pageId opts db =
     (case find_page db pageId of
        None \<Rightarrow> Inl PageNotFound
      | Some page \<Rightarrow>
        (case page_account db page of
           None \<Rightarrow> Inl StoryNotFound
         | Some account \<Rightarrow>
           let pre = validatePublishSnapshot linkIssues (lp_title page) (lp_subtitle page)
                 (lp_editableBody page) (decodeCalloutBoxes (lp_calloutBoxes page))
           in if pre \<noteq> [] then Inl (PublishValidation pre)
           else let
             s = scrub_page scrub (a_id account) page;
             leaked = (if lp_includeCompanyName page then []
                       else detectScrubLeakage db account (scrub_fragments s))
           in if leaked \<noteq> [] then Inl (ScrubValidation leaked)
           else let
             post = validatePublishSnapshot linkIssues (sc_title s) (sc_subtitle s) (sc_body s)
               (decodeCalloutBoxes (sc_callouts s))
           in if post \<noteq> [] then Inl (PublishValidation post)
           else let
             db1 = update_page now pageId (published_page hash now opts s) db;
             db2 = syncStoryPublishedAtFromLandingPages (lp_storyId page) db1
           in (case createArtifactVersion newId pageId
                    \<lparr> vi_releaseNotes = po_releaseNotes opts,
                      vi_approvalRequestId = po_approvalRequestId opts,
                      vi_publishedByUserId = po_publishedByUserId opts, vi_publishedAt = now \<rparr> db2 of
                 Inl e \<Rightarrow> Inl e
               | Inr db3 \<Rightarrow> Inr (lp_slug page, db3))))"

section \<open>Archive, unpublish, delete, roll back\<close>

definition archive :: "millis \<Rightarrow> ident \<Rightarrow> PageDb \<Rightarrow> (PageError, PageDb) res" where
  "archive now pageId db =
     (case find_page db pageId of
        None \<Rightarrow> Inl PageNotFound
      | Some page \<Rightarrow>
          Inr (syncStoryPublishedAtFromLandingPages (lp_storyId page)
            (update_page now pageId (\<lambda>p. p\<lparr> lp_status := PAGE_ARCHIVED \<rparr>) db)))"

definition unpublish :: "millis \<Rightarrow> ident \<Rightarrow> PageDb \<Rightarrow> (PageError, PageDb) res" where
  "unpublish now pageId db =
     (case find_page db pageId of
        None \<Rightarrow> Inl PageNotFound
      | Some page \<Rightarrow>
          Inr (syncStoryPublishedAtFromLandingPages (lp_storyId page)
            (update_page now pageId (\<lambda>p. p\<lparr> lp_status := PAGE_DRAFT, lp_publishedAt := None \<rparr>) db)))"

text \<open>Deleting a page cascades to its edits and versions.\<close>

definition deleteLandingPage :: "ident \<Rightarrow> PageDb \<Rightarrow> (PageError, PageDb) res" where
  "deleteLandingPage pageId db =
     (case find_page db pageId of
        None \<Rightarrow> Inl PageNotFound
      | Some page \<Rightarrow>
          Inr (syncStoryPublishedAtFromLandingPages (lp_storyId page)
            (db\<lparr> pdb_pages := delete_many (\<lambda>p. lp_id p = pageId) (pdb_pages db),
                 pdb_edits := delete_many (\<lambda>e. le_landingPageId e = pageId) (pdb_edits db),
                 pdb_versions := delete_many (\<lambda>v. av_landingPageId v = pageId) (pdb_versions db) \<rparr>)))"

definition restore_snapshot :: "millis \<Rightarrow> ArtifactVersion \<Rightarrow> LandingPage \<Rightarrow> LandingPage" where
  "restore_snapshot now version p =
     p\<lparr> lp_title := av_titleSnapshot version, lp_subtitle := av_subtitleSnapshot version,
        lp_editableBody := av_bodySnapshot version,
        lp_calloutBoxes := av_calloutBoxesSnapshot version,
        lp_visibility := av_visibilitySnapshot version,
        lp_expiresAt := av_expiresAtSnapshot version,
        lp_status := PAGE_PUBLISHED, lp_publishedAt := Some now \<rparr>"

definition rollbackLandingPageToVersion ::
  "millis \<Rightarrow> ident \<Rightarrow> ident \<Rightarrow> ident \<Rightarrow> ident \<Rightarrow> PageDb \<Rightarrow> (PageError, PageDb) res" where
  "rollbackLandingPageToVersion now newId pageId versionId actorUserId db =
     (case find_page db pageId of
        None \<Rightarrow> Inl PageNotFound
      | Some page \<Rightarrow>
          let org = lp_organizationId page in
          (case List.find (\<lambda>v. av_id v = versionId \<and> of_page org pageId v) (pdb_versions db) of
             None \<Rightarrow> Inl VersionNotFound
           | Some version \<Rightarrow>
               let db1 = update_page now pageId (restore_snapshot now version) db;
                   vs = retire_active ROLLED_BACK org pageId (pdb_versions db)
               in Inr (db1\<lparr> pdb_versions := vs @
                    [version\<lparr> av_id := newId, av_organizationId := org, av_landingPageId := pageId,
                       av_versionNumber := next_version org pageId vs, av_status := ACTIVE,
                       av_releaseNotes := Some (''Rollback to version '' @ show_int (av_versionNumber version)),
                       av_publishedAtSnapshot := Some now, av_publishedByUserId := Some actorUserId,
                       av_approvalRequestId := None,
                       av_rolledBackFromVersionId := Some (av_id version) \<rparr>] \<rparr>)))"

section \<open>The public view\<close>

record PublicPage =
  pub_title :: string
  pub_subtitle :: "string option"
  pub_body :: string
  pub_calloutBoxes :: "CalloutBox list"
  pub_totalCallHours :: real
  pub_heroImageUrl :: "string option"
  pub_customCss :: "string option"
  pub_publishedAt :: "millis option"

definition public_content :: "bool \<Rightarrow> LandingPage \<Rightarrow> PublicPage" where
  "public_content useOriginal page =
     \<lparr> pub_title = (if useOriginal then lp_title page
                    else case lp_scrubbedTitle page of None \<Rightarrow> lp_title page | Some t \<Rightarrow> t),
       pub_subtitle = (if useOriginal then lp_subtitle page
                       else case lp_scrubbedSubtitle page of None \<Rightarrow> lp_subtitle page | Some t \<Rightarrow> Some t),
       pub_body = (if useOriginal then lp_editableBody page
                   else if lp_scrubbedBody page = [] then lp_editableBody page else lp_scrubbedBody page),
       pub_calloutBoxes =
         (if useOriginal then decodeCalloutBoxes (lp_calloutBoxes page)
          else if decodeCalloutBoxes (lp_scrubbedCalloutBoxes page) \<noteq> []
          then decodeCalloutBoxes (lp_scrubbedCalloutBoxes page)
          else decodeCalloutBoxes (lp_calloutBoxes page)),
       pub_totalCallHours = lp_totalCallHours page, pub_heroImageUrl = lp_heroImageUrl page,
       pub_customCss = lp_customCss page, pub_publishedAt = lp_publishedAt page \<rparr>"

text \<open>The view is counted, which is an update of the page row.\<close>

definition getPublicBySlug ::
  "(string \<Rightarrow> string \<Rightarrow> bool) \<Rightarrow> millis \<Rightarrow> string \<Rightarrow> string option \<Rightarrow> PageDb \<Rightarrow> PublicPage option \<times> PageDb" where
  "getPublicBySlug verify now slug password db =
     (case List.find (\<lambda>p. lp_slug p = slug) (pdb_pages db) of
        None \<Rightarrow> (None, db)
      | Some page \<Rightarrow>
          if lp_status page \<noteq> PAGE_PUBLISHED then (None, db)
          else if (case lp_expiresAt page of None \<Rightarrow> False | Some t \<Rightarrow> now > t) then (None, db)
          else if lp_visibility page = PRIVATE then (None, db)
          else if truthy (lp_password page) \<and>
                  (\<not> truthy password \<or> \<not> verify (the password) (the (lp_password page)))
          then (None, db)
          else let
            db1 = update_page now (lp_id page) (\<lambda>p. p\<lparr> lp_viewCount := lp_viewCount p + 1 \<rparr>) db;
            useOriginal = (\<not> anonymizationEnabled db (lp_organizationId page) \<or> lp_includeCompanyName page)
          in (Some (public_content useOriginal page), db1))"

definition getPreview :: "(ident \<Rightarrow> string \<Rightarrow> string) \<Rightarrow> ident \<Rightarrow> PageDb \<Rightarrow> (PageError, PublicPage) res" where
  "getPreview scrub pageId db =
     (case find_page db pageId of
        None \<Rightarrow> Inl PageNotFound
      | Some page \<Rightarrow>
        (case page_account db page of
           None \<Rightarrow> Inl StoryNotFound
         | Some account \<Rightarrow>
           let skipScrub = (\<not> anonymizationEnabled db (lp_organizationId page) \<or> lp_includeCompanyName page);
               sc = (\<lambda>t. if skipScrub then t else scrub (a_id account) t)
           in Inr \<lparr> pub_title = sc (lp_title page),
                 pub_subtitle = (if truthy (lp_subtitle page) then Some (sc (the (lp_subtitle page))) else None),
                 pub_body = sc (lp_editableBody page),
                 pub_calloutBoxes =
                   map (\<lambda>b. b\<lparr> cb_title := sc (cb_title b), cb_body := sc (cb_body b) \<rparr>)
                     (decodeCalloutBoxes (lp_calloutBoxes page)),
                 pub_totalCallHours = lp_totalCallHours page, pub_heroImageUrl = lp_heroImageUrl page,
                 pub_customCss = lp_customCss page, pub_publishedAt = None \<rparr>))"

section \<open>Scheduled publication\<close>

record ScheduledPagePublishJobData =
  job_pageId :: ident
  job_organizationId :: ident
  job_userId :: ident
  job_publishAt :: millis
  job_visibility :: PageVisibility
  job_password :: "string option"
  job_expiresAt :: "millis option"
  job_releaseNotes :: "string option"

datatype ScheduledOutcome = Published string | NotPublished string

definition scheduled_run ::
  "(ident \<Rightarrow> string \<Rightarrow> string) \<Rightarrow> (string list \<Rightarrow> string list) \<Rightarrow> (string \<Rightarrow> string) \<Rightarrow> millis \<Rightarrow> ident \<Rightarrow>
     ScheduledPagePublishJobData \<Rightarrow> PageDb \<Rightarrow> (PageError, ScheduledOutcome \<times> PageDb) res" where
  "scheduled_run scrub linkIssues hash now newId job db =
     (case find_page db (job_pageId job) of
        None \<Rightarrow> Inr (NotPublished ''target_not_found'', db)
      | Some page \<Rightarrow>
          if lp_organizationId page \<noteq> job_organizationId job
          then Inr (NotPublished ''target_not_found'', db)
          else if lp_status page = PAGE_PUBLISHED
          then Inr (NotPublished ''already_published'', db)
          else (case publish scrub linkIssues hash now newId (job_pageId job)
                  \<lparr> po_visibility = job_visibility job, po_password = job_password job,
                    po_expiresAt = job_expiresAt job, po_publishedByUserId = Some (job_userId job),
                    po_approvalRequestId = None, po_releaseNotes = job_releaseNotes job \<rparr> db of
                  Inl e \<Rightarrow> Inl e
                | Inr (slug, db') \<Rightarrow> Inr (Published slug, db')))"

section \<open>Rows under an update\<close>

lemma find_page_update [simp]:
  "(\<And>p. lp_id (f p) = lp_id p) \<Longrightarrow>
     find_page (update_page now pid f db) pid' =
       map_option (\<lambda>p. if lp_id p = pid then (f p)\<lparr> lp_updatedAt := now \<rparr> else p) (find_page db pid')"
  by (simp add: find_page_def update_page_def find_update_many)

lemma find_slug_update:
  "(\<And>p. lp_slug (f p) = lp_slug p) \<Longrightarrow>
     List.find (\<lambda>p. lp_slug p = slug) (pdb_pages (update_page now pid f db)) =
       map_option (\<lambda>p. if lp_id p = pid then (f p)\<lparr> lp_updatedAt := now \<rparr> else p)
         (List.find (\<lambda>p. lp_slug p = slug) (pdb_pages db))"
  by (simp add: update_page_def find_update_many)

lemma find_page_sync [simp]:
  "find_page (syncStoryPublishedAtFromLandingPages sid db) = find_page db"
  "pdb_pages (syncStoryPublishedAtFromLandingPages sid db) = pdb_pages db"
  "pdb_versions (syncStoryPublishedAtFromLandingPages sid db) = pdb_versions db"
  "pdb_edits (syncStoryPublishedAtFromLandingPages sid db) = pdb_edits db"
  "pdb_settings (syncStoryPublishedAtFromLandingPages sid db) = pdb_settings db"
  by (auto simp: fun_eq_iff find_page_def syncStoryPublishedAtFromLandingPages_def)

lemma update_page_other [simp]:
  "pdb_versions (update_page now pid f db) = pdb_versions db"
  "pdb_edits (update_page now pid f db) = pdb_edits db"
  "pdb_stories (update_page now pid f db) = pdb_stories db"
  "pdb_settings (update_page now pid f db) = pdb_settings db"
  "pdb_accounts (update_page now pid f db) = pdb_accounts db"
  "pdb_domains (update_page now pid f db) = pdb_domains db"
  by (simp_all add: update_page_def)

lemma find_page_id: "find_page db pid = Some p \<Longrightarrow> lp_id p = pid \<and> p \<in> set (pdb_pages db)"
  unfolding find_page_def by (drule find_SomeD) simp

lemma published_page_keys [simp]:
  "lp_id (published_page hash now opts s p) = lp_id p"
  "lp_slug (published_page hash now opts s p) = lp_slug p"
  "lp_storyId (published_page hash now opts s p) = lp_storyId p"
  "lp_organizationId (published_page hash now opts s p) = lp_organizationId p"
  by (simp_all add: published_page_def)

lemma restore_snapshot_keys [simp]:
  "lp_id (restore_snapshot now v p) = lp_id p"
  "lp_slug (restore_snapshot now v p) = lp_slug p"
  "lp_storyId (restore_snapshot now v p) = lp_storyId p"
  by (simp_all add: restore_snapshot_def)

text \<open>What a successful \<open>publish\<close> did.\<close>

lemma publishE:
  assumes "publish scrub linkIssues hash now newId pid opts db = Inr (slug, db')"
  obtains page account s where
    "find_page db pid = Some page" "page_account db page = Some account"
    "s = scrub_page scrub (a_id account) page"
    "validatePublishSnapshot linkIssues (sc_title s) (sc_subtitle s) (sc_body s)
       (decodeCalloutBoxes (sc_callouts s)) = []"
    "\<not> lp_includeCompanyName page \<Longrightarrow> detectScrubLeakage db account (scrub_fragments s) = []"
    "slug = lp_slug page"
    "createArtifactVersion newId pid
       \<lparr> vi_releaseNotes = po_releaseNotes opts, vi_approvalRequestId = po_approvalRequestId opts,
         vi_publishedByUserId = po_publishedByUserId opts, vi_publishedAt = now \<rparr>
       (syncStoryPublishedAtFromLandingPages (lp_storyId page)
         (update_page now pid (published_page hash now opts s) db)) = Inr db'"
  using assms
  by (auto simp: publish_def Let_def split: option.splits if_splits sum.splits)

lemma createArtifactVersion_frame:
  "createArtifactVersion newId pid inp db = Inr db' \<Longrightarrow>
     pdb_pages db' = pdb_pages db \<and> pdb_stories db' = pdb_stories db \<and> pdb_edits db' = pdb_edits db \<and>
     pdb_settings db' = pdb_settings db \<and> pdb_accounts db' = pdb_accounts db \<and> pdb_domains db' = pdb_domains db"
  by (auto simp: createArtifactVersion_def Let_def split: option.splits)

section \<open>Anonymization\<close>

definition leak_free :: "PageDb \<Rightarrow> Account \<Rightarrow> string \<Rightarrow> bool" where
  "leak_free db account t \<longleftrightarrow>
     (\<forall>c \<in> set (leak_candidates account (pdb_domains db)).
        3 \<le> length c \<longrightarrow> \<not> mentions (toLowerCase c) (toLowerCase t))"

lemma length_toLowerCase [simp]: "length (toLowerCase s) = length s"
  by (simp add: toLowerCase_def)

lemma detect_none_leak_free:
  assumes "detectScrubLeakage db account frags = []" and "t \<in> set frags"
  shows "leak_free db account t"
  unfolding leak_free_def
proof (intro ballI impI notI)
  fix c assume c: "c \<in> set (leak_candidates account (pdb_domains db))" "3 \<le> length c"
    and m: "mentions (toLowerCase c) (toLowerCase t)"
  from c(2) have "toLowerCase c \<noteq> []" by (auto simp: toLowerCase_def)
  with m assms(2) have "mentions (toLowerCase c) (toLowerCase (join_nl frags))"
    by (intro mentions_join)
  with c assms(1) show False
    by (auto simp: detectScrubLeakage_def Let_def filter_empty_conv)
qed

lemma leak_free_Nil: "leak_free db account []"
  by (auto simp: leak_free_def mentions_def toLowerCase_def word_at_def prefix_def)

text \<open>The texts of a public page.\<close>

definition public_texts :: "PublicPage \<Rightarrow> string list" where
  "public_texts v =
     [pub_title v, (case pub_subtitle v of None \<Rightarrow> [] | Some t \<Rightarrow> t), pub_body v] @
     concat (map (\<lambda>b. [cb_title b, cb_body b]) (pub_calloutBoxes v))"

lemma scrubbed_content_leak_free:
  assumes "\<not> lp_includeCompanyName page"
    and "lp_calloutBoxes page \<noteq> None \<or> lp_scrubbedCalloutBoxes page = None"
    and "s = scrub_page scrub acc page" and "sc_body s \<noteq> []"
    and "\<And>t. t \<in> set (scrub_fragments s) \<Longrightarrow> leak_free db account t"
    and "t \<in> set (public_texts (public_content False ((published_page hash now opts s page)\<lparr> lp_updatedAt := now \<rparr>)))"
  shows "leak_free db account t"
proof -
  let ?v = "public_content False ((published_page hash now opts s page)\<lparr> lp_updatedAt := now \<rparr>)"
  have title: "pub_title ?v = sc_title s" and body: "pub_body ?v = sc_body s"
    using assms(4) by (simp_all add: public_content_def published_page_def)
  have sub: "(case pub_subtitle ?v of None \<Rightarrow> [] | Some t \<Rightarrow> t) = (case sc_subtitle s of None \<Rightarrow> [] | Some t \<Rightarrow> t)"
    using assms(1,3)
    by (cases "lp_subtitle page") (auto simp: public_content_def published_page_def scrub_page_def)
  have boxes: "pub_calloutBoxes ?v = decodeCalloutBoxes (sc_callouts s)"
    using assms(1-3)
    by (cases "lp_calloutBoxes page")
      (auto simp: public_content_def published_page_def scrub_page_def decodeCalloutBoxes_def)
  from assms(6) have "t \<in> set (scrub_fragments s)"
    unfolding public_texts_def title body sub boxes scrub_fragments_def by auto
  with assms(5) show ?thesis .
qed

end
