(* ===== verification/Publishing.thy ===== *)
theory Publishing
  imports Landing_Page
begin

text \<open>
  Properties of single landing-page operations: what the public view of a published page may contain,
  that a withdrawn page is not served, and what a later edit of a published page exposes. The sequences
  of operations and the version history follow in \<open>Page_History\<close>.
\<close>

section \<open>The public view of an anonymized page\<close>

lemma publish_find:
  assumes "publish scrub linkIssues hash now newId pid opts db = Inr (slug, db')"
    and "find_page db pid = Some page" and "page_account db page = Some account"
  shows "find_page db' pid = Some ((published_page hash now opts (scrub_page scrub (a_id account) page) page)\<lparr> lp_updatedAt := now \<rparr>)"
    and "slug = lp_slug page"
    and "pdb_settings db' = pdb_settings db"
    and "unique_key lp_slug (pdb_pages db) \<Longrightarrow>
      List.find (\<lambda>p. lp_slug p = slug) (pdb_pages db') =
        Some ((published_page hash now opts (scrub_page scrub (a_id account) page) page)\<lparr> lp_updatedAt := now \<rparr>)"
    and "sc_body (scrub_page scrub (a_id account) page) \<noteq> []"
    and "\<not> lp_includeCompanyName page \<Longrightarrow>
      detectScrubLeakage db account (scrub_fragments (scrub_page scrub (a_id account) page)) = []"
  using assms(1)
proof -
  from assms(1) obtain s where s: "s = scrub_page scrub (a_id account) page"
    and v: "validatePublishSnapshot linkIssues (sc_title s) (sc_subtitle s) (sc_body s)
       (decodeCalloutBoxes (sc_callouts s)) = []"
    and l: "\<not> lp_includeCompanyName page \<Longrightarrow> detectScrubLeakage db account (scrub_fragments s) = []"
    and sl: "slug = lp_slug page"
    and c: "createArtifactVersion newId pid
       \<lparr> vi_releaseNotes = po_releaseNotes opts, vi_approvalRequestId = po_approvalRequestId opts,
         vi_publishedByUserId = po_publishedByUserId opts, vi_publishedAt = now \<rparr>
       (syncStoryPublishedAtFromLandingPages (lp_storyId page)
         (update_page now pid (published_page hash now opts s) db)) = Inr db'"
    using assms(2,3) by (elim publishE) auto
  have pages: "pdb_pages db' = pdb_pages (update_page now pid (published_page hash now opts s) db)"
    and st: "pdb_settings db' = pdb_settings db"
    using createArtifactVersion_frame [OF c] by auto
  have fp: "find_page db' = find_page (update_page now pid (published_page hash now opts s) db)"
    by (simp add: find_page_def pages fun_eq_iff)
  show "find_page db' pid = Some ((published_page hash now opts (scrub_page scrub (a_id account) page) page)\<lparr> lp_updatedAt := now \<rparr>)"
    using find_page_id [OF assms(2)] assms(2) by (simp add: fp s)
  show "slug = lp_slug page" "pdb_settings db' = pdb_settings db" by fact+
  show "List.find (\<lambda>p. lp_slug p = slug) (pdb_pages db') =
        Some ((published_page hash now opts (scrub_page scrub (a_id account) page) page)\<lparr> lp_updatedAt := now \<rparr>)"
    if "unique_key lp_slug (pdb_pages db)"
    using unique_key_find [OF that, of page] find_page_id [OF assms(2)]
    by (simp add: pages find_slug_update s sl)
  show "sc_body (scrub_page scrub (a_id account) page) \<noteq> []"
    using v s by (auto simp: validatePublishSnapshot_def split: if_splits)
  show "detectScrubLeakage db account (scrub_fragments (scrub_page scrub (a_id account) page)) = []"
    if "\<not> lp_includeCompanyName page"
    using l [OF that] s by simp
qed

lemma getPublicBySlugE:
  assumes "fst (getPublicBySlug verify now slug pw db) = Some v"
  obtains page where "List.find (\<lambda>p. lp_slug p = slug) (pdb_pages db) = Some page"
    "lp_status page = PAGE_PUBLISHED" "lp_visibility page \<noteq> PRIVATE"
    "case lp_expiresAt page of None \<Rightarrow> True | Some t \<Rightarrow> now \<le> t"
    "truthy (lp_password page) \<longrightarrow> truthy pw \<and> verify (the pw) (the (lp_password page))"
    "v = public_content (\<not> anonymizationEnabled db (lp_organizationId page) \<or> lp_includeCompanyName page) page"
    "snd (getPublicBySlug verify now slug pw db) =
       update_page now (lp_id page) (\<lambda>p. p\<lparr> lp_viewCount := lp_viewCount p + 1 \<rparr>) db"
  using assms
  by (auto simp: getPublicBySlug_def Let_def split: option.splits if_splits)


text \<open>
  A page that is archived or unpublished is no longer served under its slug: the public lookup
  finds nothing, with any password and at any time, and counts no view.
\<close>

theorem hidden_after_archive_or_unpublish:
  assumes "find_page db pid = Some page" and "unique_key lp_slug (pdb_pages db)"
    and "archive now pid db = Inr db' \<or> unpublish now pid db = Inr db'"
  shows "getPublicBySlug verify later (lp_slug page) pw db' = (None, db')"
proof -
  obtain g where g: "\<And>p. lp_slug (g p) = lp_slug p" "\<And>p. lp_status (g p) \<noteq> PAGE_PUBLISHED"
    and pages: "pdb_pages db' = pdb_pages (update_page now pid g db)"
  proof -
    from assms(3) consider "archive now pid db = Inr db'" | "unpublish now pid db = Inr db'" by blast
    then show thesis
    proof cases
      case 1
      then show thesis
        using assms(1) by (intro that [of "\<lambda>p. p\<lparr> lp_status := PAGE_ARCHIVED \<rparr>"]) (auto simp: archive_def)
    next
      case 2
      then show thesis
        using assms(1)
        by (intro that [of "\<lambda>p. p\<lparr> lp_status := PAGE_DRAFT, lp_publishedAt := None \<rparr>"])
          (auto simp: unpublish_def)
    qed
  qed
  have "List.find (\<lambda>p. lp_slug p = lp_slug page) (pdb_pages db') = Some ((g page)\<lparr> lp_updatedAt := now \<rparr>)"
    using unique_key_find [OF assms(2), of page] find_page_id [OF assms(1)]
    by (simp add: pages find_slug_update g)
  with g(2) [of page] show ?thesis by (simp add: getPublicBySlug_def)
qed

text \<open>
  An edit of a published anonymous page can reach the public unscrubbed: when the page was
  published without a subtitle, an update that gives one succeeds without scrubbing and the public
  view serves that text as it is.
\<close>

theorem edit_after_publish_unscrubbed:
  assumes "find_page db pid = Some page" and "unique_key lp_slug (pdb_pages db)"
    and "lp_scrubbedSubtitle page = None"
    and "ui_subtitle u = Some t"
    and "update now editId pid userId u db = Inr (stamp, db')"
    and "fst (getPublicBySlug verify later (lp_slug page) pw db') = Some v"
  shows "pub_subtitle v = Some t"
proof -
  have pages: "pdb_pages db' = pdb_pages (update_page now pid (pageUpdateData u) db)"
    using assms(5)
    by (auto simp: update_def update_write_def record_edit_def split: sum.splits option.splits if_splits)
  have "List.find (\<lambda>p. lp_slug p = lp_slug page) (pdb_pages db') =
      Some ((pageUpdateData u page)\<lparr> lp_updatedAt := now \<rparr>)"
    using unique_key_find [OF assms(2), of page] find_page_id [OF assms(1)]
    by (simp add: pages find_slug_update pageUpdateData_def)
  with assms(6) show ?thesis
    by (elim getPublicBySlugE) (simp add: public_content_def pageUpdateData_def assms(3,4))
qed

section \<open>A sample database\<close>

definition sample_page :: LandingPage where
  "sample_page =
     \<lparr> lp_id = ''p1'', lp_organizationId = ''org'', lp_storyId = ''s1'', lp_createdById = ''u1'',
       lp_slug = ''story-1'', lp_title = ''Acme saves time'', lp_subtitle = None,
       lp_editableBody = ''The team cut its weekly reporting effort by half'',
       lp_scrubbedBody = [], lp_scrubbedTitle = None, lp_scrubbedSubtitle = None,
       lp_heroImageUrl = None,
       lp_calloutBoxes = Some [\<lparr> cb_title = ''Result'', cb_body = ''Half the effort'', cb_icon = None \<rparr>],
       lp_scrubbedCalloutBoxes = None, lp_totalCallHours = 0, lp_visibility = PRIVATE,
       lp_status = PAGE_DRAFT, lp_password = None, lp_includeCompanyName = False, lp_noIndex = True,
       lp_customCss = None, lp_viewCount = 0, lp_publishedAt = None, lp_expiresAt = None,
       lp_updatedAt = 100 \<rparr>"

definition sample_account :: Account where
  "sample_account =
     \<lparr> a_id = ''a1'', a_organizationId = ''org'', a_name = ''Acme Inc.'', a_normalizedName = ''acme'',
       a_domain = Some ''acme.com'', a_salesforceId = None, a_hubspotId = None, a_mergeAccountId = None,
       a_industry = None, a_employeeCount = None, a_annualRevenue = None \<rparr>"

definition sample_story :: Story where
  "sample_story =
     \<lparr> st_id = ''s1'', st_organizationId = ''org'', st_accountId = ''a1'', st_publishedAt = None,
       st_markdownBody = [] \<rparr>"

definition sample_pages :: PageDb where
  "sample_pages =
     \<lparr> pdb_pages = [sample_page], pdb_edits = [], pdb_versions = [], pdb_stories = [sample_story],
       pdb_accounts = [sample_account], pdb_domains = [], pdb_calls = [], pdb_quotes = [],
       pdb_settings = [] \<rparr>"

definition sample_opts :: PublishOptions where
  "sample_opts =
     \<lparr> po_visibility = SHARED_WITH_LINK, po_password = None, po_expiresAt = None,
       po_publishedByUserId = Some ''u1'', po_approvalRequestId = None, po_releaseNotes = None \<rparr>"

text \<open>A scrubber that replaces the one title of the sample.\<close>

definition sample_scrub :: "ident \<Rightarrow> string \<Rightarrow> string" where
  "sample_scrub acc t = (if t = ''Acme saves time'' then ''The client saves time'' else t)"

text \<open>The sample after its publication at time 200.\<close>

definition sample_published_page :: LandingPage where
  "sample_published_page =
     sample_page\<lparr>
       lp_scrubbedBody := lp_editableBody sample_page, lp_scrubbedTitle := Some ''The client saves time'',
       lp_scrubbedCalloutBoxes := lp_calloutBoxes sample_page, lp_visibility := SHARED_WITH_LINK,
       lp_status := PAGE_PUBLISHED, lp_publishedAt := Some 200, lp_updatedAt := 200 \<rparr>"

definition sample_version :: ArtifactVersion where
  "sample_version =
     \<lparr> av_id = ''v1'', av_organizationId = ''org'', av_landingPageId = ''p1'', av_versionNumber = 1,
       av_status = ACTIVE, av_releaseNotes = None, av_titleSnapshot = lp_title sample_page,
       av_subtitleSnapshot = None, av_bodySnapshot = lp_editableBody sample_page,
       av_calloutBoxesSnapshot = lp_calloutBoxes sample_page,
       av_visibilitySnapshot = SHARED_WITH_LINK, av_expiresAtSnapshot = None,
       av_publishedAtSnapshot = Some 200, av_sourceEditId = None, av_publishedByUserId = Some ''u1'',
       av_approvalRequestId = None, av_rolledBackFromVersionId = None \<rparr>"

definition sample_db :: PageDb where
  "sample_db =
     sample_pages\<lparr> pdb_pages := [sample_published_page], pdb_versions := [sample_version],
       pdb_stories := [sample_story\<lparr> st_publishedAt := Some 200 \<rparr>] \<rparr>"

lemmas sample_defs =
  sample_db_def sample_pages_def sample_published_page_def sample_page_def sample_version_def
  sample_story_def sample_account_def sample_opts_def

lemma sample_find:
  "find_page sample_pages ''p1'' = Some sample_page"
  "page_account sample_pages sample_page = Some sample_account"
  by (simp_all add: find_page_def page_account_def sample_pages_def sample_page_def sample_story_def
      sample_account_def)

lemma sample_valid:
  "validatePublishSnapshot (\<lambda>_. []) (lp_title sample_page) None (lp_editableBody sample_page)
     (decodeCalloutBoxes (lp_calloutBoxes sample_page)) = []"
  "validatePublishSnapshot (\<lambda>_. []) ''The client saves time'' None (lp_editableBody sample_page)
     (decodeCalloutBoxes (lp_calloutBoxes sample_page)) = []"
  by code_simp+

lemma sample_no_leak:
  "detectScrubLeakage sample_pages sample_account
     [lp_editableBody sample_page, ''The client saves time'', [], ''Result'', ''Half the effort''] = []"
  by code_simp

lemma sample_scrub_page:
  "scrub_page sample_scrub (a_id sample_account) sample_page =
     \<lparr> sc_body = lp_editableBody sample_page, sc_title = ''The client saves time'', sc_subtitle = None,
       sc_callouts = lp_calloutBoxes sample_page \<rparr>"
  by (simp add: scrub_page_def sample_page_def sample_scrub_def)

lemma sample_publish:
  "publish sample_scrub (\<lambda>_. []) (\<lambda>p. p) 200 ''v1'' ''p1'' sample_opts sample_pages = Inr (''story-1'', sample_db)"
proof -
  have anon: "\<not> lp_includeCompanyName sample_page" "lp_subtitle sample_page = None"
    by (simp_all add: sample_page_def)
  have frags: "scrub_fragments (scrub_page sample_scrub (a_id sample_account) sample_page) =
      [lp_editableBody sample_page, ''The client saves time'', [], ''Result'', ''Half the effort'']"
    unfolding sample_scrub_page by (simp add: scrub_fragments_def sample_page_def decodeCalloutBoxes_def)
  show ?thesis
    unfolding publish_def sample_find option.case Let_def anon(2) frags sample_no_leak
    by (simp add: sample_valid sample_scrub_page anon createArtifactVersion_def Let_def)
      (simp add: sample_defs update_page_def published_page_def syncStoryPublishedAtFromLandingPages_def
        latest_published_def find_page_def retire_active_def next_version_def)
qed

lemma sample_view:
  "\<exists>v. fst (getPublicBySlug verify 300 ''story-1'' pw sample_db) = Some v \<and>
     pub_title v = ''The client saves time''"
  by (simp add: getPublicBySlug_def sample_defs Let_def public_content_def anonymizationEnabled_def)


lemma sample_db_page: "find_page sample_db ''p1'' = Some sample_published_page"
  "lp_slug sample_published_page = ''story-1''" "lp_scrubbedSubtitle sample_published_page = None"
  "lp_updatedAt sample_published_page = 200" "lp_organizationId sample_published_page = ''org''"
  by (simp_all add: find_page_def sample_db_def sample_published_page_def sample_page_def)

lemma sample_db_unique: "unique_key lp_slug (pdb_pages sample_db)" "unique_key lp_id (pdb_pages sample_db)"
  by (simp_all add: unique_key_def sample_db_def)

theorem hidden_after_archive_or_unpublish_witness:
  "\<exists>db'. archive 400 ''p1'' sample_db = Inr db' \<and>
     getPublicBySlug (\<lambda>_ _. True) 500 ''story-1'' None db' = (None, db')"
proof -
  obtain db' where "archive 400 ''p1'' sample_db = Inr db'"
    using sample_db_page(1) by (simp add: archive_def)
  with hidden_after_archive_or_unpublish
    [OF sample_db_page(1) sample_db_unique(1), of 400 db' "\<lambda>_ _. True" 500 None] sample_db_page(2)
  show ?thesis by auto
qed

definition sample_edit :: UpdateLandingPageInput where
  "sample_edit =
     \<lparr> ui_title = None, ui_subtitle = Some ''How Acme did it'', ui_editableBody = None,
       ui_heroImageUrl = None, ui_calloutBoxes = None, ui_customCss = None, ui_editSummary = None,
       ui_expectedUpdatedAt = Some 200 \<rparr>"

lemma sample_edit_ok:
  "update 300 ''e1'' ''p1'' ''u1'' sample_edit sample_db =
     Inr (300, update_page 300 ''p1'' (pageUpdateData sample_edit) sample_db)"
  by (simp add: update_def update_read_def update_write_def record_edit_def sample_edit_def
      sample_db_page)

theorem edit_after_publish_unscrubbed_witness:
  "\<exists>db' v. update 300 ''e1'' ''p1'' ''u1'' sample_edit sample_db = Inr (300, db') \<and>
     fst (getPublicBySlug (\<lambda>_ _. True) 500 ''story-1'' None db') = Some v \<and>
     pub_subtitle v = Some ''How Acme did it''"
proof -
  let ?db = "update_page 300 ''p1'' (pageUpdateData sample_edit) sample_db"
  have "fst (getPublicBySlug (\<lambda>_ _. True) 500 ''story-1'' None ?db) \<noteq> None"
    by (simp add: getPublicBySlug_def sample_defs update_page_def pageUpdateData_def Let_def)
  then obtain v where v: "fst (getPublicBySlug (\<lambda>_ _. True) 500 ''story-1'' None ?db) = Some v"
    by blast
  have "ui_subtitle sample_edit = Some ''How Acme did it''" by (simp add: sample_edit_def)
  from edit_after_publish_unscrubbed [OF sample_db_page(1) sample_db_unique(1) sample_db_page(3) this
      sample_edit_ok, of "\<lambda>_ _. True" 500 None v] v sample_edit_ok
  show ?thesis by (auto simp: sample_db_page)
qed

end
