(* ===== verification/Page_History.thy ===== *)
theory Page_History
  imports Publishing
begin

text \<open>
  The version history of a page and sequences of page operations. \<open>version_log\<close> is the contract of an
  operation that retires the active version and appends the next one; creating a version on
  publication and rolling back are its two instances, so the history invariant is proved once.
  \<open>exec\<close> and \<open>run_pages\<close> run the operations of the landing-page service one after another, an operation
  that throws leaving the database as it was.
\<close>

section \<open>The contract of a version history\<close>

definition page_versions :: "ident \<Rightarrow> ident \<Rightarrow> ArtifactVersion list \<Rightarrow> ArtifactVersion list" where
  "page_versions org pid vs = filter (of_page org pid) vs"

definition versions_ok :: "ident \<Rightarrow> ident \<Rightarrow> ArtifactVersion list \<Rightarrow> bool" where
  "versions_ok org pid vs =
     (let rows = page_versions org pid vs in
      distinct (map av_versionNumber rows) \<and>
      list_all (\<lambda>v. 1 \<le> av_versionNumber v) rows \<and>
      list_all (\<lambda>v. av_status v = ACTIVE \<longrightarrow> list_all (\<lambda>w. av_versionNumber w \<le> av_versionNumber v) rows) rows)"

lemma fold_max_ge: "x \<in> set (n # ns) \<Longrightarrow> x \<le> fold max ns (n::int)"
  using Max.set_eq_fold [of n ns] by (metis List.finite_set Max_ge)

lemma next_version_greater: "v \<in> set (page_versions org pid vs) \<Longrightarrow> av_versionNumber v < next_version org pid vs"
proof -
  assume "v \<in> set (page_versions org pid vs)"
  then have "av_versionNumber v \<in> set (map av_versionNumber (filter (of_page org pid) vs))"
    by (simp add: page_versions_def)
  then obtain n ns where eq: "map av_versionNumber (filter (of_page org pid) vs) = n # ns"
    and mem: "av_versionNumber v \<in> set (n # ns)"
    by (cases "map av_versionNumber (filter (of_page org pid) vs)") auto
  show ?thesis
    unfolding next_version_def eq using fold_max_ge [OF mem] by simp
qed

lemma next_version_first: "page_versions org pid vs = [] \<Longrightarrow> next_version org pid vs = 1"
  by (simp add: next_version_def page_versions_def)

lemma of_page_status [simp]: "of_page org pid (v\<lparr> av_status := st \<rparr>) = of_page org pid v"
  by (simp add: of_page_def)

lemma numbers_retire: "map av_versionNumber (page_versions org' pid' (retire_active st org pid vs)) =
    map av_versionNumber (page_versions org' pid' vs)"
  by (induction vs) (auto simp: retire_active_def page_versions_def)

lemma next_version_retire [simp]:
  "next_version org' pid' (retire_active st org pid vs) = next_version org' pid' vs"
  using numbers_retire [of org' pid' st org pid vs] by (simp add: next_version_def page_versions_def)

lemma in_retire:
  assumes "v \<in> set (page_versions org pid (retire_active st org pid vs))" and "st \<noteq> ACTIVE"
  shows "av_status v \<noteq> ACTIVE"
  using assms by (auto simp: page_versions_def retire_active_def elim!: in_update_manyE)

lemma retire_other:
  "(org', pid') \<noteq> (org, pid) \<Longrightarrow> page_versions org' pid' (retire_active st org pid vs) = page_versions org' pid' vs"
  by (auto simp: page_versions_def retire_active_def of_page_def intro!: filter_update_many_other)

definition appends_version :: "ident \<Rightarrow> PageDb \<Rightarrow> PageDb \<Rightarrow> bool" where
  "appends_version pid db db' \<longleftrightarrow>
    (\<exists>page st v. find_page db pid = Some page \<and> st \<noteq> ACTIVE \<and>
      pdb_versions db' = retire_active st (lp_organizationId page) pid (pdb_versions db) @ [v] \<and>
      of_page (lp_organizationId page) pid v \<and> av_status v = ACTIVE \<and>
      av_versionNumber v = next_version (lp_organizationId page) pid (pdb_versions db))"

lemma appends_versionE:
  assumes "appends_version pid db db'"
  obtains page st v where "find_page db pid = Some page" "st \<noteq> ACTIVE"
    "pdb_versions db' = retire_active st (lp_organizationId page) pid (pdb_versions db) @ [v]"
    "of_page (lp_organizationId page) pid v" "av_status v = ACTIVE"
    "av_versionNumber v = next_version (lp_organizationId page) pid (pdb_versions db)"
  using assms unfolding appends_version_def by (elim exE conjE)

locale version_log =
  fixes step :: "'x \<Rightarrow> ident \<Rightarrow> PageDb \<Rightarrow> (PageError, PageDb) res"
  assumes appends: "step x pid db = Inr db' \<Longrightarrow> appends_version pid db db'"
begin

lemma keeps_versions_ok:
  assumes "step x pid db = Inr db'" and "versions_ok org' pid' (pdb_versions db)"
  shows "versions_ok org' pid' (pdb_versions db')"
proof -
  from appends [OF assms(1)] obtain page st v where "find_page db pid = Some page"
    and st: "st \<noteq> ACTIVE"
    and vs: "pdb_versions db' = retire_active st (lp_organizationId page) pid (pdb_versions db) @ [v]"
    and v: "of_page (lp_organizationId page) pid v" "av_status v = ACTIVE"
      "av_versionNumber v = next_version (lp_organizationId page) pid (pdb_versions db)"
    by (rule appends_versionE)
  let ?org = "lp_organizationId page"
  let ?old = "page_versions org' pid' (retire_active st ?org pid (pdb_versions db))"
  show ?thesis
  proof (cases "(org', pid') = (?org, pid)")
    case False
    then have "\<not> of_page org' pid' v"
      using v(1) by (auto simp: of_page_def)
    with False assms(2) show ?thesis
      by (simp add: versions_ok_def vs retire_other [OF False] page_versions_def [of _ _ "_ @ _"]
          page_versions_def [symmetric])
  next
    case True
    have new: "page_versions org' pid' (pdb_versions db') = ?old @ [v]"
      using True v(1) by (simp add: vs page_versions_def)
    have lt: "av_versionNumber w < av_versionNumber v" if "w \<in> set ?old" for w
      using next_version_greater [OF that] True v(3) by simp
    have old: "distinct (map av_versionNumber ?old)" "list_all (\<lambda>w. 1 \<le> av_versionNumber w) ?old"
      using assms(2) numbers_retire [of org' pid' st ?org pid "pdb_versions db"]
      by (simp_all add: versions_ok_def Let_def list_all_iff)
        (metis (no_types, lifting) image_eqI imageE list.set_map)
    have "1 \<le> av_versionNumber v"
    proof (cases ?old)
      case Nil
      then show ?thesis using next_version_first [OF Nil] True v(3) by simp
    next
      case (Cons w ws)
      then show ?thesis using lt [of w] old(2) by simp
    qed
    moreover have "av_versionNumber v \<notin> av_versionNumber ` set ?old" using lt by force
    moreover have "av_status w \<noteq> ACTIVE" if "w \<in> set ?old" for w
      using in_retire [of w ?org pid st "pdb_versions db"] that True st by simp
    ultimately show ?thesis
      using old lt unfolding versions_ok_def new Let_def by (auto simp: list_all_iff less_imp_le)
  qed
qed

text \<open>After the operation the page has exactly one active version, the new one.\<close>

lemma one_active:
  assumes "step x pid db = Inr db'" and "find_page db pid = Some page"
  shows "map av_versionNumber (filter (\<lambda>v. of_page (lp_organizationId page) pid v \<and> av_status v = ACTIVE)
           (pdb_versions db')) = [next_version (lp_organizationId page) pid (pdb_versions db)]"
proof -
  from appends [OF assms(1)] assms(2) obtain st v where
    st: "st \<noteq> ACTIVE"
    and vs: "pdb_versions db' = retire_active st (lp_organizationId page) pid (pdb_versions db) @ [v]"
    and v: "of_page (lp_organizationId page) pid v" "av_status v = ACTIVE"
      "av_versionNumber v = next_version (lp_organizationId page) pid (pdb_versions db)"
    by (elim appends_versionE) auto
  have "filter (\<lambda>v. of_page (lp_organizationId page) pid v \<and> av_status v = ACTIVE)
      (retire_active st (lp_organizationId page) pid (pdb_versions db)) = []"
    using in_retire st by (fastforce simp: filter_empty_conv page_versions_def)
  with vs v show ?thesis by simp
qed

end

lemma createArtifactVersion_appends:
  assumes "createArtifactVersion newId pid inp db = Inr db'"
  shows "appends_version pid db db'"
proof -
  from assms obtain page where p: "find_page db pid = Some page"
    by (auto simp: createArtifactVersion_def split: option.splits)
  from find_page_id [OF p] assms p show ?thesis
    unfolding appends_version_def
    by (intro exI [of _ page] exI [of _ SUPERSEDED] exI [of _ "last (pdb_versions db')"])
      (auto simp: createArtifactVersion_def Let_def of_page_def)
qed

interpretation created: version_log "\<lambda>x pid db. createArtifactVersion (fst x) pid (snd x) db"
  by unfold_locales (rule createArtifactVersion_appends)

lemma rollback_appends:
  assumes "rollbackLandingPageToVersion now newId pid versionId actor db = Inr db'"
  shows "appends_version pid db db'"
proof -
  from assms obtain page where p: "find_page db pid = Some page"
    by (auto simp: rollbackLandingPageToVersion_def split: option.splits)
  from assms p show ?thesis
    unfolding appends_version_def
    by (intro exI [of _ page] exI [of _ ROLLED_BACK] exI [of _ "last (pdb_versions db')"])
      (auto simp: rollbackLandingPageToVersion_def Let_def of_page_def split: option.splits)
qed

interpretation rolled: version_log
  "\<lambda>(now, newId, versionId, actor) pid db. rollbackLandingPageToVersion now newId pid versionId actor db"
  by unfold_locales (auto intro: rollback_appends split: prod.splits)

lemma publish_appends:
  assumes "publish scrub linkIssues hash now newId pid opts db = Inr (slug, db')"
  shows "appends_version pid db db'"
  using assms
proof (rule publishE)
  fix page account s
  assume p: "find_page db pid = Some page"
    and c: "createArtifactVersion newId pid
       \<lparr> vi_releaseNotes = po_releaseNotes opts, vi_approvalRequestId = po_approvalRequestId opts,
         vi_publishedByUserId = po_publishedByUserId opts, vi_publishedAt = now \<rparr>
       (syncStoryPublishedAtFromLandingPages (lp_storyId page)
         (update_page now pid (published_page hash now opts s) db)) = Inr db'"
  from createArtifactVersion_appends [OF c] p show ?thesis
    using find_page_id [OF p] by (auto simp: appends_version_def)
qed

text \<open>Publishing is a version-appending operation too.\<close>

interpretation pub: version_log
  "\<lambda>(scrub, linkIssues, hash, now, newId, opts) pid db.
     map_sum id snd (publish scrub linkIssues hash now newId pid opts db)"
proof (unfold_locales, goal_cases)
  case (1 x pid db db')
  obtain scrub linkIssues hash now newId opts where x: "x = (scrub, linkIssues, hash, now, newId, opts)"
    by (cases x)
  with 1 obtain slug where "publish scrub linkIssues hash now newId pid opts db = Inr (slug, db')"
    by (cases "publish scrub linkIssues hash now newId pid opts db") auto
  then show ?case by (rule publish_appends)
qed

section \<open>Sequences of operations\<close>

datatype PageOp =
    OpCreate millis ident string string CreateLandingPageInput
  | OpUpdate millis ident ident ident UpdateLandingPageInput
  | OpPublish millis ident ident PublishOptions
  | OpArchive millis ident
  | OpUnpublish millis ident
  | OpDelete ident
  | OpRollback millis ident ident ident ident
  | OpView millis string "string option"

record PageEnv =
  env_scrub :: "ident \<Rightarrow> string \<Rightarrow> string"
  env_linkIssues :: "string list \<Rightarrow> string list"
  env_hash :: "string \<Rightarrow> string"
  env_verify :: "string \<Rightarrow> string \<Rightarrow> bool"

definition or_keep :: "PageDb \<Rightarrow> (PageError, PageDb) res \<Rightarrow> PageDb" where
  "or_keep db r = (case r of Inl _ \<Rightarrow> db | Inr db' \<Rightarrow> db')"

text \<open>A created row that violates a unique column of the table is rejected by the database.\<close>

fun exec :: "PageEnv \<Rightarrow> PageOp \<Rightarrow> PageDb \<Rightarrow> PageDb" where
  "exec env (OpCreate now newId hex4 hex6 inp) db =
     (let db' = or_keep db (create_page now newId hex4 hex6 inp db) in
      if unique_key lp_id (pdb_pages db') \<and> unique_key lp_slug (pdb_pages db') then db' else db)"
| "exec env (OpUpdate now editId pid uid u) db =
     or_keep db (map_sum id snd (update now editId pid uid u db))"
| "exec env (OpPublish now newId pid opts) db =
     or_keep db (map_sum id snd
       (publish (env_scrub env) (env_linkIssues env) (env_hash env) now newId pid opts db))"
| "exec env (OpArchive now pid) db = or_keep db (archive now pid db)"
| "exec env (OpUnpublish now pid) db = or_keep db (unpublish now pid db)"
| "exec env (OpDelete pid) db = or_keep db (deleteLandingPage pid db)"
| "exec env (OpRollback now newId pid vid actor) db =
     or_keep db (rollbackLandingPageToVersion now newId pid vid actor db)"
| "exec env (OpView now slug pw) db = snd (getPublicBySlug (env_verify env) now slug pw db)"

definition run_pages :: "PageEnv \<Rightarrow> PageOp list \<Rightarrow> PageDb \<Rightarrow> PageDb" where
  "run_pages env ops db = fold (exec env) ops db"

fun is_rollback :: "PageOp \<Rightarrow> bool" where
  "is_rollback (OpRollback _ _ _ _ _) = True"
| "is_rollback _ = False"

text \<open>What an operation does to the page table: rows are rewritten (keeping key, slug and story),
  added at the end, or removed.\<close>

lemma or_keep_cases: "(\<And>db'. r = Inr db' \<Longrightarrow> P db') \<Longrightarrow> P db \<Longrightarrow> P (or_keep db r)"
  by (cases r) (auto simp: or_keep_def)

lemma map_sum_Inr: "map_sum id snd r = Inr y \<longleftrightarrow> (\<exists>x. r = Inr (x, y))"
  by (cases r) (auto simp: prod_eq_iff)

subsection \<open>Unique columns\<close>

definition page_keys_ok :: "PageDb \<Rightarrow> bool" where
  "page_keys_ok db \<longleftrightarrow> unique_key lp_id (pdb_pages db) \<and> unique_key lp_slug (pdb_pages db)"

lemma page_keys_update:
  "(\<And>p. lp_id (f p) = lp_id p) \<Longrightarrow> (\<And>p. lp_slug (f p) = lp_slug p) \<Longrightarrow>
     page_keys_ok (update_page now pid f db) = page_keys_ok db"
  by (simp add: page_keys_ok_def update_page_def unique_key_update_many)

lemma keys_rewritten:
  "pdb_pages db' = pdb_pages (update_page now pid f db) \<Longrightarrow>
     (\<And>p. lp_id (f p) = lp_id p) \<Longrightarrow> (\<And>p. lp_slug (f p) = lp_slug p) \<Longrightarrow>
     page_keys_ok db \<Longrightarrow> page_keys_ok db'"
  using page_keys_update [of f now pid db] by (simp add: page_keys_ok_def)

lemma update_pages:
  "update now editId pid uid u db = Inr (t, db') \<Longrightarrow>
     pdb_pages db' = pdb_pages (update_page now pid (pageUpdateData u) db) \<and>
     pdb_stories db' = pdb_stories db \<and> pdb_versions db' = pdb_versions db"
  by (auto simp: update_def update_write_def record_edit_def split: sum.splits option.splits if_splits)

lemma publish_pages:
  assumes "publish scrub linkIssues hash now newId pid opts db = Inr (slug, db')"
  obtains page s where "find_page db pid = Some page"
    "pdb_pages db' = pdb_pages (update_page now pid (published_page hash now opts s) db)"
    "pdb_stories db' = pdb_stories (syncStoryPublishedAtFromLandingPages (lp_storyId page)
       (update_page now pid (published_page hash now opts s) db))"
  using assms by (elim publishE) (auto dest!: createArtifactVersion_frame)

lemma rollback_pages:
  assumes "rollbackLandingPageToVersion now newId pid vid actor db = Inr db'"
  obtains page version where
    "pdb_pages db' = pdb_pages (update_page now pid (restore_snapshot now version) db)"
    "find_page db pid = Some page"
    "List.find (\<lambda>v. av_id v = vid \<and> of_page (lp_organizationId page) pid v) (pdb_versions db) = Some version"
    "pdb_stories db' = pdb_stories db" "pdb_settings db' = pdb_settings db"
  using assms
  by (auto simp: rollbackLandingPageToVersion_def Let_def split: option.splits)

lemma view_pages:
  "\<exists>pid. snd (getPublicBySlug verify now slug pw db) = db \<or>
     snd (getPublicBySlug verify now slug pw db) =
       update_page now pid (\<lambda>p. p\<lparr> lp_viewCount := lp_viewCount p + 1 \<rparr>) db"
  by (auto simp: getPublicBySlug_def Let_def split: option.split)

lemma exec_keys: "page_keys_ok db \<Longrightarrow> page_keys_ok (exec env op db)"
proof (induction op)
  case (OpCreate now newId hex4 hex6 inp)
  then show ?case by (simp add: Let_def page_keys_ok_def)
next
  case (OpUpdate now editId pid uid u)
  show ?case unfolding exec.simps
  proof (rule or_keep_cases)
    fix db' assume "map_sum id snd (update now editId pid uid u db) = Inr db'"
    then obtain t where "update now editId pid uid u db = Inr (t, db')" by (auto simp: map_sum_Inr)
    from conjunct1 [OF update_pages [OF this]] show "page_keys_ok db'"
      by (rule keys_rewritten) (simp_all add: pageUpdateData_def OpUpdate)
  qed (rule OpUpdate)
next
  case (OpPublish now newId pid opts)
  show ?case unfolding exec.simps
  proof (rule or_keep_cases)
    fix db' assume "map_sum id snd (publish (env_scrub env) (env_linkIssues env) (env_hash env)
        now newId pid opts db) = Inr db'"
    then obtain t where "publish (env_scrub env) (env_linkIssues env) (env_hash env) now newId pid opts db = Inr (t, db')"
      by (auto simp: map_sum_Inr)
    then obtain s where "pdb_pages db' = pdb_pages (update_page now pid (published_page (env_hash env) now opts s) db)"
      by (rule publish_pages)
    then show "page_keys_ok db'" by (rule keys_rewritten) (simp_all add: OpPublish)
  qed (rule OpPublish)
next
  case (OpArchive now pid)
  show ?case unfolding exec.simps
  proof (rule or_keep_cases)
    fix db' assume "archive now pid db = Inr db'"
    then have "pdb_pages db' = pdb_pages (update_page now pid (\<lambda>p. p\<lparr> lp_status := PAGE_ARCHIVED \<rparr>) db)"
      by (auto simp: archive_def split: option.splits)
    then show "page_keys_ok db'" by (rule keys_rewritten) (simp_all add: OpArchive)
  qed (rule OpArchive)
next
  case (OpUnpublish now pid)
  show ?case unfolding exec.simps
  proof (rule or_keep_cases)
    fix db' assume "unpublish now pid db = Inr db'"
    then have "pdb_pages db' = pdb_pages (update_page now pid (\<lambda>p. p\<lparr> lp_status := PAGE_DRAFT, lp_publishedAt := None \<rparr>) db)"
      by (auto simp: unpublish_def split: option.splits)
    then show "page_keys_ok db'" by (rule keys_rewritten) (simp_all add: OpUnpublish)
  qed (rule OpUnpublish)
next
  case (OpDelete pid)
  then show ?case
    by (auto simp: deleteLandingPage_def page_keys_ok_def unique_key_delete_many or_keep_def
        split: option.split)
next
  case (OpRollback now newId pid vid actor)
  show ?case unfolding exec.simps
  proof (rule or_keep_cases)
    fix db' assume "rollbackLandingPageToVersion now newId pid vid actor db = Inr db'"
    then show "page_keys_ok db'"
    proof (rule rollback_pages)
      fix page version
      assume "pdb_pages db' = pdb_pages (update_page now pid (restore_snapshot now version) db)"
      then show "page_keys_ok db'" by (rule keys_rewritten) (simp_all add: OpRollback)
    qed
  qed (rule OpRollback)
next
  case (OpView now slug pw)
  from view_pages [of "env_verify env" now slug pw db] obtain pid where
    "snd (getPublicBySlug (env_verify env) now slug pw db) = db \<or>
     snd (getPublicBySlug (env_verify env) now slug pw db) =
       update_page now pid (\<lambda>p. p\<lparr> lp_viewCount := lp_viewCount p + 1 \<rparr>) db" ..
  with OpView show ?case by (elim disjE) (simp_all add: page_keys_update)
qed

subsection \<open>Version history\<close>

lemma versions_ok_delete:
  "versions_ok org pid vs \<Longrightarrow> versions_ok org pid (delete_many (\<lambda>v. av_landingPageId v = pid') vs)"
proof (cases "pid' = pid")
  case True
  then have "page_versions org pid (delete_many (\<lambda>v. av_landingPageId v = pid') vs) = []"
    by (auto simp: page_versions_def delete_many_def of_page_def filter_empty_conv)
  then show ?thesis by (simp add: versions_ok_def)
next
  case False
  then have "page_versions org pid (delete_many (\<lambda>v. av_landingPageId v = pid') vs) = page_versions org pid vs"
    by (auto simp: page_versions_def delete_many_def of_page_def intro!: filter_cong)
  then show "versions_ok org pid vs \<Longrightarrow> ?thesis" by (simp add: versions_ok_def)
qed

lemma exec_versions: "versions_ok org pid (pdb_versions db) \<Longrightarrow> versions_ok org pid (pdb_versions (exec env op db))"
proof (induction op)
  case (OpCreate now newId hex4 hex6 inp)
  then show ?case
    by (auto simp: Let_def or_keep_def create_page_def split: option.split)
next
  case (OpUpdate now editId q uid u)
  show ?case
    unfolding exec.simps
  proof (rule or_keep_cases)
    fix db' assume "map_sum id snd (update now editId q uid u db) = Inr db'"
    then obtain t where "update now editId q uid u db = Inr (t, db')" by (auto simp: map_sum_Inr)
    from update_pages [OF this] OpUpdate show "versions_ok org pid (pdb_versions db')" by simp
  qed (rule OpUpdate)
next
  case (OpPublish now newId q opts)
  show ?case
    unfolding exec.simps
  proof (rule or_keep_cases)
    fix db' assume "map_sum id snd (publish (env_scrub env) (env_linkIssues env) (env_hash env)
        now newId q opts db) = Inr db'"
    then show "versions_ok org pid (pdb_versions db')"
      using pub.keeps_versions_ok [of "(env_scrub env, env_linkIssues env, env_hash env, now, newId, opts)" q db db']
        OpPublish by simp
  qed (rule OpPublish)
next
  case (OpArchive now q)
  then show ?case by (simp add: or_keep_def archive_def split: option.split)
next
  case (OpUnpublish now q)
  then show ?case by (simp add: or_keep_def unpublish_def split: option.split)
next
  case (OpDelete q)
  then show ?case by (simp add: or_keep_def deleteLandingPage_def versions_ok_delete split: option.split)
next
  case (OpRollback now newId q vid actor)
  show ?case
    unfolding exec.simps
  proof (rule or_keep_cases)
    fix db' assume "rollbackLandingPageToVersion now newId q vid actor db = Inr db'"
    then show "versions_ok org pid (pdb_versions db')"
      using rolled.keeps_versions_ok [of "(now, newId, vid, actor)" q db db'] OpRollback by simp
  qed (rule OpRollback)
next
  case (OpView now slug pw)
  from view_pages [of "env_verify env" now slug pw db] obtain q where
    "snd (getPublicBySlug (env_verify env) now slug pw db) = db \<or>
     snd (getPublicBySlug (env_verify env) now slug pw db) =
       update_page now q (\<lambda>p. p\<lparr> lp_viewCount := lp_viewCount p + 1 \<rparr>) db" ..
  with OpView show ?case by (elim disjE) simp_all
qed

text \<open>
  C4. Every sequence of operations keeps the version history of every page sound: version numbers
  start at one and are never used twice, and a version is active only if it is the latest, so at most
  one is; page ids and slugs stay unique.
\<close>

theorem run_keeps_history:
  assumes "page_keys_ok db" and "versions_ok org pid (pdb_versions db)"
  shows "page_keys_ok (run_pages env ops db) \<and> versions_ok org pid (pdb_versions (run_pages env ops db))"
  using assms unfolding run_pages_def
  by (induction ops arbitrary: db) (simp_all add: exec_keys exec_versions)

text \<open>
  Publishing a page, and rolling it back to a version, each leave the page with exactly one active
  version, whose number is one more than the highest so far.
\<close>

theorem one_active_version:
  assumes "find_page db pid = Some page"
    and "publish scrub linkIssues hash now newId pid opts db = Inr (slug, db') \<or>
         rollbackLandingPageToVersion now newId pid vid actor db = Inr db'"
  shows "map av_versionNumber
       (filter (\<lambda>v. of_page (lp_organizationId page) pid v \<and> av_status v = ACTIVE) (pdb_versions db')) =
     [next_version (lp_organizationId page) pid (pdb_versions db)] \<and>
     list_all (\<lambda>v. av_versionNumber v < next_version (lp_organizationId page) pid (pdb_versions db))
       (page_versions (lp_organizationId page) pid (pdb_versions db))"
  using assms(2) pub.one_active [of "(scrub, linkIssues, hash, now, newId, opts)" pid db db' page]
    rolled.one_active [of "(now, newId, vid, actor)" pid db db' page] assms(1) next_version_greater
  by (fastforce simp: list_all_iff)

subsection \<open>Publication date of stories\<close>

definition stories_synced :: "PageDb \<Rightarrow> bool" where
  "stories_synced db \<longleftrightarrow>
     list_all (\<lambda>s. st_publishedAt s = latest_published (pdb_pages db) (st_id s)) (pdb_stories db)"

lemma fold_filter_update:
  "(\<And>r. p r \<Longrightarrow> q (f r) = q r \<and> g (f r) = g r) \<Longrightarrow>
     fold g (filter q (update_many p f rows)) acc = fold g (filter q rows) acc"
  by (induction rows arbitrary: acc) auto

lemma latest_published_update:
  assumes "\<And>p. lp_storyId (f p) = lp_storyId p" "\<And>p. lp_status (f p) = lp_status p"
    "\<And>p. lp_publishedAt (f p) = lp_publishedAt p"
  shows "latest_published (pdb_pages (update_page now pid f db)) sid = latest_published (pdb_pages db) sid"
  unfolding latest_published_def update_page_def
  by (simp, rule fold_filter_update) (simp add: assms)

lemma latest_published_other:
  assumes "page_keys_ok db" and "find_page db pid = Some page" and "sid \<noteq> lp_storyId page"
    and "\<And>p. lp_storyId (f p) = lp_storyId p"
  shows "latest_published (pdb_pages (update_page now pid f db)) sid = latest_published (pdb_pages db) sid"
proof -
  have "lp_storyId p = lp_storyId page" if "p \<in> set (pdb_pages db)" "lp_id p = pid" for p
    using unique_key_find [of lp_id "pdb_pages db" p] that assms(1,2)
    by (simp add: page_keys_ok_def find_page_def)
  with assms(3,4) have "filter (\<lambda>p. lp_storyId p = sid \<and> lp_status p = PAGE_PUBLISHED)
      (pdb_pages (update_page now pid f db)) =
     filter (\<lambda>p. lp_storyId p = sid \<and> lp_status p = PAGE_PUBLISHED) (pdb_pages db)"
    unfolding update_page_def by (simp, intro filter_update_many_on) auto
  then show ?thesis by (simp add: latest_published_def)
qed

text \<open>Synchronizing the story of the page that changed keeps all stories synchronized.\<close>

lemma synced_after_sync:
  assumes "stories_synced db" and "pdb_stories db1 = pdb_stories db"
    and "\<And>sid. sid \<noteq> sid0 \<Longrightarrow> latest_published (pdb_pages db1) sid = latest_published (pdb_pages db) sid"
  shows "stories_synced (syncStoryPublishedAtFromLandingPages sid0 db1)"
  using assms
  unfolding stories_synced_def syncStoryPublishedAtFromLandingPages_def
  by (auto simp: list_all_iff elim!: in_update_manyE)

lemma synced_cong:
  "pdb_stories db' = pdb_stories db \<Longrightarrow>
     (\<And>sid. latest_published (pdb_pages db') sid = latest_published (pdb_pages db) sid) \<Longrightarrow>
     stories_synced db \<Longrightarrow> stories_synced db'"
  by (simp add: stories_synced_def)

lemma latest_published_create:
  "create_page now newId hex4 hex6 inp db = Inr db' \<Longrightarrow>
     pdb_stories db' = pdb_stories db \<and>
     latest_published (pdb_pages db') sid = latest_published (pdb_pages db) sid"
  by (auto simp: create_page_def latest_published_def split: option.splits)

lemma latest_published_delete:
  assumes "page_keys_ok db" and "find_page db pid = Some page" and "sid \<noteq> lp_storyId page"
  shows "latest_published (delete_many (\<lambda>p. lp_id p = pid) (pdb_pages db)) sid = latest_published (pdb_pages db) sid"
proof -
  have "lp_storyId p = lp_storyId page" if "p \<in> set (pdb_pages db)" "lp_id p = pid" for p
    using unique_key_find [of lp_id "pdb_pages db" p] that assms(1,2)
    by (simp add: page_keys_ok_def find_page_def)
  with assms(3) have "filter (\<lambda>p. lp_storyId p = sid \<and> lp_status p = PAGE_PUBLISHED)
      (delete_many (\<lambda>p. lp_id p = pid) (pdb_pages db)) =
     filter (\<lambda>p. lp_storyId p = sid \<and> lp_status p = PAGE_PUBLISHED) (pdb_pages db)"
    unfolding delete_many_def filter_filter by (intro filter_cong) auto
  then show ?thesis by (simp add: latest_published_def)
qed

lemma synced_status_change:
  assumes "page_keys_ok db" "stories_synced db" "find_page db pid = Some page"
    and "\<And>p. lp_storyId (f p) = lp_storyId p"
  shows "stories_synced (syncStoryPublishedAtFromLandingPages (lp_storyId page) (update_page now pid f db))"
  using latest_published_other [OF assms(1,3) _ assms(4), of _ now]
  by (intro synced_after_sync [OF assms(2)]) simp_all

lemma exec_synced:
  assumes "page_keys_ok db" and "stories_synced db" and "\<not> is_rollback op"
  shows "stories_synced (exec env op db)"
proof (cases op)
  case (OpCreate now newId hex4 hex6 inp)
  show ?thesis
  proof (cases "create_page now newId hex4 hex6 inp db")
    case (Inr db')
    have "stories_synced db'"
      using latest_published_create [OF Inr] assms(2) by (intro synced_cong [of db' db]) simp_all
    with Inr assms(2) show ?thesis by (simp add: OpCreate or_keep_def Let_def)
  qed (simp add: OpCreate or_keep_def assms(2))
next
  case (OpUpdate now editId pid uid u)
  show ?thesis unfolding OpUpdate exec.simps
  proof (rule or_keep_cases)
    fix db' assume "map_sum id snd (update now editId pid uid u db) = Inr db'"
    then obtain t where "update now editId pid uid u db = Inr (t, db')" by (auto simp: map_sum_Inr)
    from update_pages [OF this] show "stories_synced db'"
      by (intro synced_cong [OF _ _ assms(2)])
        (simp_all add: latest_published_update pageUpdateData_def)
  qed (rule assms(2))
next
  case (OpPublish now newId pid opts)
  show ?thesis unfolding OpPublish exec.simps
  proof (rule or_keep_cases)
    fix db' assume "map_sum id snd (publish (env_scrub env) (env_linkIssues env) (env_hash env)
        now newId pid opts db) = Inr db'"
    then obtain t where "publish (env_scrub env) (env_linkIssues env) (env_hash env) now newId pid opts db = Inr (t, db')"
      by (auto simp: map_sum_Inr)
    then obtain page s where p: "find_page db pid = Some page"
      and "pdb_pages db' = pdb_pages (update_page now pid (published_page (env_hash env) now opts s) db)"
      and "pdb_stories db' = pdb_stories (syncStoryPublishedAtFromLandingPages (lp_storyId page)
       (update_page now pid (published_page (env_hash env) now opts s) db))"
      by (rule publish_pages)
    then show "stories_synced db'"
      using synced_status_change [OF assms(1,2) p, of "published_page (env_hash env) now opts s" now]
      by (simp add: stories_synced_def)
  qed (rule assms(2))
next
  case (OpArchive now pid)
  then show ?thesis
    using synced_status_change [OF assms(1,2)] assms(2) by (simp add: or_keep_def archive_def split: option.split)
next
  case (OpUnpublish now pid)
  then show ?thesis
    using synced_status_change [OF assms(1,2)] assms(2) by (simp add: or_keep_def unpublish_def split: option.split)
next
  case (OpDelete pid)
  show ?thesis
  proof (cases "find_page db pid")
    case (Some page)
    then show ?thesis
      using latest_published_delete [OF assms(1) Some]
      by (simp add: OpDelete or_keep_def deleteLandingPage_def synced_after_sync [OF assms(2)])
  qed (simp add: OpDelete or_keep_def deleteLandingPage_def assms(2))
next
  case (OpView now slug pw)
  from view_pages [of "env_verify env" now slug pw db] obtain pid where
    "snd (getPublicBySlug (env_verify env) now slug pw db) = db \<or>
     snd (getPublicBySlug (env_verify env) now slug pw db) =
       update_page now pid (\<lambda>p. p\<lparr> lp_viewCount := lp_viewCount p + 1 \<rparr>) db" ..
  then show ?thesis
  proof
    assume "snd (getPublicBySlug (env_verify env) now slug pw db) =
       update_page now pid (\<lambda>p. p\<lparr> lp_viewCount := lp_viewCount p + 1 \<rparr>) db"
    then show ?thesis
      using assms(2) by (simp add: OpView stories_synced_def latest_published_update)
  qed (simp add: OpView assms(2))
qed (use assms(3) in simp)

text \<open>What the date is: none without a published page, else the latest one.\<close>

lemma latest_published_fold:
  "fold (\<lambda>p acc. case lp_publishedAt p of None \<Rightarrow> acc
           | Some t \<Rightarrow> (case acc of None \<Rightarrow> Some t | Some u \<Rightarrow> Some (max t u))) ps acc = Some m \<Longrightarrow>
     (acc = Some m \<or> (\<exists>p \<in> set ps. lp_publishedAt p = Some m)) \<and>
     (\<forall>t. acc = Some t \<or> (\<exists>p \<in> set ps. lp_publishedAt p = Some t) \<longrightarrow> t \<le> m)"
proof (induction ps arbitrary: acc)
  case (Cons p ps)
  let ?acc = "case lp_publishedAt p of None \<Rightarrow> acc
           | Some t \<Rightarrow> (case acc of None \<Rightarrow> Some t | Some u \<Rightarrow> Some (max t u))"
  from Cons.IH [of ?acc] Cons.prems show ?case
    by (cases "lp_publishedAt p"; cases acc) (auto simp: max_def split: if_splits)
qed auto

lemma latest_published_fold_None:
  "fold (\<lambda>p acc. case lp_publishedAt p of None \<Rightarrow> acc
           | Some t \<Rightarrow> (case acc of None \<Rightarrow> Some t | Some u \<Rightarrow> Some (max t u))) ps acc = None \<longleftrightarrow>
     acc = None \<and> (\<forall>p \<in> set ps. lp_publishedAt p = None)"
  by (induction ps arbitrary: acc) (auto split: option.splits)

lemma latest_published_None:
  "latest_published pages sid = None \<longleftrightarrow>
     (\<forall>p \<in> set pages. lp_storyId p = sid \<and> lp_status p = PAGE_PUBLISHED \<longrightarrow> lp_publishedAt p = None)"
  unfolding latest_published_def latest_published_fold_None by auto

lemma latest_published_Some:
  "latest_published pages sid = Some m \<Longrightarrow>
     (\<exists>p \<in> set pages. lp_storyId p = sid \<and> lp_status p = PAGE_PUBLISHED \<and> lp_publishedAt p = Some m) \<and>
     (\<forall>p \<in> set pages. \<forall>t. lp_storyId p = sid \<and> lp_status p = PAGE_PUBLISHED \<and> lp_publishedAt p = Some t \<longrightarrow> t \<le> m)"
  unfolding latest_published_def by (drule latest_published_fold) auto


text \<open>
  A roll back does not synchronize the story: rolling back a page of a story that had no published
  page leaves the story without a publication date although the page is published again.
\<close>

theorem rollback_desyncs_story:
  assumes "rollbackLandingPageToVersion now newId pid vid actor db = Inr db'"
    and "find_page db pid = Some page"
    and "s \<in> set (pdb_stories db)" and "st_id s = lp_storyId page" and "st_publishedAt s = None"
  shows "s \<in> set (pdb_stories db') \<and> \<not> stories_synced db'"
  using assms(1)
proof (rule rollback_pages)
  fix q version
  assume pages: "pdb_pages db' = pdb_pages (update_page now pid (restore_snapshot now version) db)"
    and st: "pdb_stories db' = pdb_stories db"
  have "(restore_snapshot now version page)\<lparr> lp_updatedAt := now \<rparr> \<in> set (pdb_pages db')"
    using find_page_id [OF assms(2)] unfolding pages by (auto simp: update_page_def set_update_many)
  then have "latest_published (pdb_pages db') (st_id s) \<noteq> None"
    unfolding latest_published_None
    by (intro notI) (drule bspec, assumption, simp add: restore_snapshot_def assms(4))
  with assms(5) have "st_publishedAt s \<noteq> latest_published (pdb_pages db') (st_id s)" by metis
  with assms(3) show ?thesis unfolding st stories_synced_def list_all_iff by blast
qed

text \<open>
  A roll back puts the snapshot's title, subtitle, body, callout boxes, visibility and expiration
  back and publishes the page, but not the scrubbed texts: the public view of an anonymized page goes on
  showing the title and body of the later publication.
\<close>

theorem rollback_keeps_scrubbed_text:
  assumes "rollbackLandingPageToVersion now newId pid vid actor db = Inr db'"
    and "find_page db pid = Some page"
    and "lp_scrubbedTitle page = Some t" and "lp_scrubbedBody page \<noteq> []"
  shows "\<exists>version page'. version \<in> set (pdb_versions db) \<and> av_id version = vid \<and>
      find_page db' pid = Some page' \<and>
      lp_title page' = av_titleSnapshot version \<and> lp_editableBody page' = av_bodySnapshot version \<and>
      lp_status page' = PAGE_PUBLISHED \<and>
      pub_title (public_content False page') = t \<and>
      pub_body (public_content False page') = lp_scrubbedBody page"
  using assms(1)
proof (rule rollback_pages)
  fix q version
  assume pages: "pdb_pages db' = pdb_pages (update_page now pid (restore_snapshot now version) db)"
    and q: "find_page db pid = Some q"
    and v: "List.find (\<lambda>v. av_id v = vid \<and> of_page (lp_organizationId q) pid v) (pdb_versions db) = Some version"
  have "find_page db' pid = find_page (update_page now pid (restore_snapshot now version) db) pid"
    by (simp add: find_page_def pages)
  also have "\<dots> = Some ((restore_snapshot now version page)\<lparr> lp_updatedAt := now \<rparr>)"
    using assms(2) find_page_id [OF assms(2)] by simp
  finally show ?thesis
    using find_SomeD [OF v] assms(3,4)
    by (intro exI [of _ version] exI [of _ "(restore_snapshot now version page)\<lparr> lp_updatedAt := now \<rparr>"])
      (auto simp: restore_snapshot_def public_content_def)
qed

section \<open>Concurrent edits\<close>

text \<open>
  C18. No edit is lost to a concurrent one: when two editors read the page at the same version and the
  first write goes through (at another time than that version's), the second write is refused with a
  conflict that reports the first writer's time and text; it changes nothing.
\<close>

theorem second_writer_conflicts:
  assumes "update_read pid u1 db = Inr old1" and "update_read pid u2 db = Inr old2"
    and "ui_expectedUpdatedAt u1 = Some e" and "ui_expectedUpdatedAt u2 = Some e"
    and "update_write now1 i1 pid user1 old1 u1 db = Inr (t1, db1)" and "now1 \<noteq> e"
  shows "update_write now2 i2 pid user2 old2 u2 db1 =
    Inl (ConcurrencyConflict e now1 (keep (ui_editableBody u1) (lp_editableBody old1)))"
proof -
  from assms(1) have p: "find_page db pid = Some old1"
    by (auto simp: update_read_def split: option.splits if_splits)
  have "find_page db1 pid = find_page (update_page now1 pid (pageUpdateData u1) db) pid"
    using assms(5)
    by (auto simp: update_write_def record_edit_def find_page_def split: option.splits if_splits)
  then have "find_page db1 pid = Some ((pageUpdateData u1 old1)\<lparr> lp_updatedAt := now1 \<rparr>)"
    using p find_page_id [OF p] by (simp add: pageUpdateData_def)
  with assms(4,6) show ?thesis
    by (simp add: update_write_def pageUpdateData_def)
qed

text \<open>
  Viewing a page makes the editors' saves fail: the view counter is an update of the page row, so
  a public view at another time than the page's version turns a save that expects that version into a
  conflict although nobody edited the page.
\<close>

theorem view_conflicts_with_edit:
  assumes "find_page db pid = Some page" and "unique_key lp_slug (pdb_pages db)"
    and "lp_updatedAt page = e"
    and "getPublicBySlug verify now (lp_slug page) pw db = (Some v, db')" and "now \<noteq> e"
    and "ui_expectedUpdatedAt u = Some e"
  shows "update later editId pid userId u db' = Inl (ConcurrencyConflict e now (lp_editableBody page))"
proof -
  have f: "List.find (\<lambda>p. lp_slug p = lp_slug page) (pdb_pages db) = Some page"
    using unique_key_find [OF assms(2), of page] find_page_id [OF assms(1)] by simp
  have "db' = update_page now pid (\<lambda>p. p\<lparr> lp_viewCount := lp_viewCount p + 1 \<rparr>) db"
    using assms(4) f find_page_id [OF assms(1)]
    by (auto simp: getPublicBySlug_def Let_def split: if_splits)
  then have "find_page db' pid = Some (page\<lparr> lp_viewCount := lp_viewCount page + 1, lp_updatedAt := now \<rparr>)"
    using assms(1) find_page_id [OF assms(1)] by simp
  with assms(5,6) show ?thesis by (simp add: update_def update_read_def)
qed

section \<open>Scheduled publication\<close>


section \<open>Witnesses\<close>

definition sample_env :: PageEnv where
  "sample_env = \<lparr> env_scrub = sample_scrub, env_linkIssues = (\<lambda>_. []), env_hash = (\<lambda>p. p),
     env_verify = (\<lambda>_ _. True) \<rparr>"

lemma sample_invariants:
  "page_keys_ok sample_db" "versions_ok ''org'' ''p1'' (pdb_versions sample_db)" "stories_synced sample_db"
  by (simp_all add: page_keys_ok_def unique_key_def versions_ok_def page_versions_def of_page_def
      stories_synced_def latest_published_def sample_defs)

theorem run_keeps_history_witness:
  "versions_ok ''org'' ''p1'' (pdb_versions (run_pages sample_env
     [OpUnpublish 300 ''p1'', OpPublish 400 ''v2'' ''p1'' sample_opts, OpRollback 500 ''v3'' ''p1'' ''v1'' ''u1'']
     sample_db))"
  using run_keeps_history [OF sample_invariants(1,2), of sample_env
      "[OpUnpublish 300 ''p1'', OpPublish 400 ''v2'' ''p1'' sample_opts, OpRollback 500 ''v3'' ''p1'' ''v1'' ''u1'']"]
  by blast

theorem one_active_version_witness:
  "map av_versionNumber (filter (\<lambda>v. of_page ''org'' ''p1'' v \<and> av_status v = ACTIVE) (pdb_versions sample_db)) = [1]"
  using one_active_version [OF sample_find(1), of sample_scrub "\<lambda>_. []" "\<lambda>p. p" 200 "''v1''" sample_opts
      "''story-1''" sample_db "''v0''" "''u1''"] sample_publish
  by (simp add: sample_pages_def sample_page_def next_version_def)


definition sample_unpublished :: PageDb where
  "sample_unpublished = exec sample_env (OpUnpublish 300 ''p1'') sample_db"

lemma sample_unpublished_eq:
  "sample_unpublished =
     sample_db\<lparr> pdb_pages := [sample_published_page\<lparr> lp_status := PAGE_DRAFT, lp_publishedAt := None, lp_updatedAt := 300 \<rparr>],
       pdb_stories := [sample_story] \<rparr>"
  by (simp add: sample_unpublished_def unpublish_def or_keep_def find_page_def update_page_def
      syncStoryPublishedAtFromLandingPages_def latest_published_def sample_defs)

lemma sample_rollback_ok:
  "\<exists>db'. rollbackLandingPageToVersion 500 ''v2'' ''p1'' ''v1'' ''u1'' sample_unpublished = Inr db'"
  by (simp add: rollbackLandingPageToVersion_def sample_unpublished_eq find_page_def of_page_def
      sample_published_page_def sample_db_def sample_page_def sample_version_def Let_def)

lemma sample_unpublished_page:
  "find_page sample_unpublished ''p1'' =
     Some (sample_published_page\<lparr> lp_status := PAGE_DRAFT, lp_publishedAt := None, lp_updatedAt := 300 \<rparr>)"
  by (simp add: sample_unpublished_eq find_page_def sample_published_page_def sample_page_def)

theorem rollback_desyncs_story_witness:
  "\<exists>db'. rollbackLandingPageToVersion 500 ''v2'' ''p1'' ''v1'' ''u1'' sample_unpublished = Inr db' \<and>
     \<not> stories_synced db'"
proof -
  obtain db' where r: "rollbackLandingPageToVersion 500 ''v2'' ''p1'' ''v1'' ''u1'' sample_unpublished = Inr db'"
    using sample_rollback_ok by blast
  from rollback_desyncs_story [OF r sample_unpublished_page, of sample_story] r show ?thesis
    by (simp add: sample_unpublished_eq sample_story_def sample_published_page_def sample_page_def)
qed

theorem rollback_keeps_scrubbed_text_witness:
  "\<exists>db' page'. rollbackLandingPageToVersion 500 ''v2'' ''p1'' ''v1'' ''u1'' sample_unpublished = Inr db' \<and>
     find_page db' ''p1'' = Some page' \<and> pub_title (public_content False page') = ''The client saves time''"
proof -
  obtain db' where r: "rollbackLandingPageToVersion 500 ''v2'' ''p1'' ''v1'' ''u1'' sample_unpublished = Inr db'"
    using sample_rollback_ok by blast
  from rollback_keeps_scrubbed_text [OF r sample_unpublished_page, of "''The client saves time''"] r
  show ?thesis by (auto simp: sample_published_page_def sample_page_def)
qed

definition sample_edit2 :: UpdateLandingPageInput where
  "sample_edit2 = sample_edit\<lparr> ui_title := Some ''Other title'' \<rparr>"

theorem second_writer_conflicts_witness:
  "\<exists>db1. update_write 300 ''e1'' ''p1'' ''u1'' sample_published_page sample_edit sample_db = Inr (300, db1) \<and>
     update_write 310 ''e2'' ''p1'' ''u2'' sample_published_page sample_edit2 db1 =
       Inl (ConcurrencyConflict 200 300 (lp_editableBody sample_page))"
proof -
  have rd: "update_read ''p1'' sample_edit sample_db = Inr sample_published_page"
    "update_read ''p1'' sample_edit2 sample_db = Inr sample_published_page"
    by (simp_all add: update_read_def sample_db_page sample_edit_def sample_edit2_def)
  have ex: "ui_expectedUpdatedAt sample_edit = Some 200" "ui_expectedUpdatedAt sample_edit2 = Some 200"
    by (simp_all add: sample_edit_def sample_edit2_def)
  obtain db1 where w: "update_write 300 ''e1'' ''p1'' ''u1'' sample_published_page sample_edit sample_db = Inr (300, db1)"
    by (simp add: update_write_def sample_db_page sample_edit_def)
  from second_writer_conflicts [OF rd ex w, of 310 "''e2''" "''u2''"] w show ?thesis
    by (simp add: sample_edit_def sample_published_page_def)
qed

theorem view_conflicts_with_edit_witness:
  "\<exists>v db'. getPublicBySlug (\<lambda>_ _. True) 300 ''story-1'' None sample_db = (Some v, db') \<and>
     update 400 ''e1'' ''p1'' ''u1'' sample_edit db' =
       Inl (ConcurrencyConflict 200 300 (lp_editableBody sample_published_page))"
proof -
  obtain v db' where g: "getPublicBySlug (\<lambda>_ _. True) 300 ''story-1'' None sample_db = (Some v, db')"
    using sample_view [of "\<lambda>_ _. True" None]
    by (cases "getPublicBySlug (\<lambda>_ _. True) 300 ''story-1'' None sample_db") auto
  from view_conflicts_with_edit [OF sample_db_page(1) sample_db_unique(1) sample_db_page(4), of _ 300 None v db' sample_edit
      400 "''e1''" "''u1''"] g
  show ?thesis by (auto simp: sample_db_page sample_edit_def)
qed

definition sample_job :: ScheduledPagePublishJobData where
  "sample_job =
     \<lparr> job_pageId = ''p1'', job_organizationId = ''org'', job_userId = ''u1'', job_publishAt = 200,
       job_visibility = SHARED_WITH_LINK, job_password = None, job_expiresAt = None,
       job_releaseNotes = None \<rparr>"

lemma sample_scheduled:
  "scheduled_run sample_scrub (\<lambda>_. []) (\<lambda>p. p) 200 ''v1'' sample_job sample_pages =
     Inr (Published ''story-1'', sample_db)"
proof -
  have "sample_opts = \<lparr> po_visibility = job_visibility sample_job, po_password = job_password sample_job,
        po_expiresAt = job_expiresAt sample_job, po_publishedByUserId = Some (job_userId sample_job),
        po_approvalRequestId = None, po_releaseNotes = job_releaseNotes sample_job \<rparr>"
    by (simp add: sample_opts_def sample_job_def)
  moreover have "job_pageId sample_job = ''p1''" "job_organizationId sample_job = ''org''"
    by (simp_all add: sample_job_def)
  moreover have "lp_organizationId sample_page = ''org''" "lp_status sample_page \<noteq> PAGE_PUBLISHED"
    by (simp_all add: sample_page_def)
  ultimately show ?thesis
    using sample_publish by (simp add: scheduled_run_def sample_find)
qed


end
