(* ===== verification/Approval.thy ===== *)
theory Approval
  imports Page_History
begin

text \<open>
  \<open>src/services/landing-page-approval.ts\<close> and the publish routes of \<open>src/api/landing-page/\<close>: who may
  see and generate named stories, who may approve a step of an approval chain, and the HTTP handlers
  that publish a page, ask for an approval, review it, schedule, unpublish, archive and roll back.
  A handler takes the state and returns the response (status and code) with the new state. Slack
  notifications, the validation queue and outbound webhooks are not part of the state; audit records
  are. A day added to a date is 24 hours.
\<close>

section \<open>State\<close>

record GovernancePolicy =
  gp_organizationId :: ident
  gp_approvalChainEnabled :: bool
  gp_maxExpirationDays :: "int option"
  gp_requireProvenance :: bool
  gp_approvalSteps :: "(bool \<times> PublishApprovalStep) list"

record PublishState =
  ps_access :: AccessDb
  ps_pages :: PageDb
  ps_approvals :: "ApprovalRequest list"
  ps_governance :: "GovernancePolicy list"
  ps_groupMembers :: "(ident \<times> ident \<times> ident) list"
  ps_teamScopes :: "(ident \<times> ident \<times> string) list"
  ps_scheduled :: "(ident \<times> ScheduledPagePublishJobData) list"
  ps_audit :: "(string \<times> ident \<times> ident) list"

definition audit :: "string \<Rightarrow> ident \<Rightarrow> ident \<Rightarrow> PublishState \<Rightarrow> PublishState" where
  "audit action actor target st = st\<lparr> ps_audit := ps_audit st @ [(action, actor, target)] \<rparr>"

section \<open>Permission helpers\<close>

definition isAdminRole :: "UserRole option \<Rightarrow> bool" where
  "isAdminRole r = (case r of None \<Rightarrow> False | Some x \<Rightarrow> x \<in> set [OWNER, ADMIN])"

definition access_named ::
  "(EffectiveRolePolicy \<Rightarrow> bool) \<Rightarrow> AccessDb \<Rightarrow> ident option \<Rightarrow> ident option \<Rightarrow> UserRole option \<Rightarrow> bool" where
  "access_named flag db organizationId userId userRole =
     (if isAdminRole userRole then True
      else if \<not> truthy organizationId \<or> \<not> truthy userId then False
      else let policy = getEffectivePolicy db (the organizationId) (the userId) userRole in
        if flag policy \<or> PUBLISH_NAMED_LANDING_PAGE \<in> set (permissions policy) then True
        else has_user_permission db (the userId) PUBLISH_NAMED_LANDING_PAGE)"

definition may_access_named_stories ::
  "AccessDb \<Rightarrow> ident option \<Rightarrow> ident option \<Rightarrow> UserRole option \<Rightarrow> bool" where
  "may_access_named_stories = access_named canAccessNamedStories"

definition may_generate_named_stories ::
  "AccessDb \<Rightarrow> ident option \<Rightarrow> ident option \<Rightarrow> UserRole option \<Rightarrow> bool" where
  "may_generate_named_stories = access_named canGenerateNamedStories"

definition getArtifactPublishGovernance :: "PublishState \<Rightarrow> ident \<Rightarrow> int option \<times> PublishApprovalStep list" where
  "getArtifactPublishGovernance st organizationId =
     (case List.find (\<lambda>g. gp_organizationId g = organizationId) (ps_governance st) of
        None \<Rightarrow> (None, [])
      | Some g \<Rightarrow> (gp_maxExpirationDays g, sort_key step_order (map snd (filter fst (gp_approvalSteps g)))))"

definition role_profile_key :: "AccessDb \<Rightarrow> ident \<Rightarrow> ident \<Rightarrow> string option" where
  "role_profile_key db organizationId userId =
     (case assigned_profile_of db userId of
        Some r \<Rightarrow> if rp_organizationId r = organizationId then Some (rp_key r) else None
      | None \<Rightarrow> None)"

definition canUserApproveStep ::
  "PublishState \<Rightarrow> ident option \<Rightarrow> ident option \<Rightarrow> UserRole option \<Rightarrow> PublishApprovalStep \<Rightarrow> ident \<Rightarrow> bool" where
  "canUserApproveStep st organizationId userId userRole step requestedByUserId =
     (if \<not> truthy organizationId \<or> \<not> truthy userId then False
      else if required_user_role step \<noteq> None \<and> userRole \<noteq> required_user_role step then False
      else let org = the organizationId; uid = the userId;
               roleProfileKey = role_profile_key (ps_access st) org uid
      in if roleProfileKey = Some ''BILLING_ADMIN'' \<or> roleProfileKey = Some ''APPROVAL_ADMIN'' then True
      else if truthy (required_role_profile_key step) \<and> roleProfileKey \<noteq> required_role_profile_key step
      then False
      else if \<not> allow_self_approval step \<and> requestedByUserId \<noteq> [] \<and> requestedByUserId = uid then False
      else (case approver_scope_type step of
          SELF \<Rightarrow> requestedByUserId = uid
        | USER \<Rightarrow> truthy (approver_scope_value step) \<and> approver_scope_value step = Some uid
        | GROUP \<Rightarrow> truthy (approver_scope_value step) \<and>
            (org, the (approver_scope_value step), uid) \<in> set (ps_groupMembers st)
        | TEAM \<Rightarrow> truthy (approver_scope_value step) \<and>
            (if roleProfileKey = Some ''TEAM_APPROVAL_ADMIN''
             then (org, uid, the (approver_scope_value step)) \<in> set (ps_teamScopes st)
             else roleProfileKey = approver_scope_value step)
        | ROLE_PROFILE \<Rightarrow>
            if \<not> truthy (approver_scope_value step) then truthy roleProfileKey
            else roleProfileKey = approver_scope_value step))"

definition canReviewPublishApprovals :: "AccessDb \<Rightarrow> AuthRequest \<Rightarrow> bool" where
  "canReviewPublishApprovals db req =
     (if \<not> truthy (req_organizationId req) \<or> \<not> truthy (req_userId req) then False
      else if is_admin (req_userRole req) then True
      else if APPROVE_PUBLISH_REQUESTS \<in> set (permissions
          (getEffectivePolicy db (the (req_organizationId req)) (the (req_userId req)) (req_userRole req)))
      then True
      else has_user_permission db (the (req_userId req)) APPROVE_PUBLISH_REQUESTS)"

section \<open>Approval requests\<close>

definition findPendingPublishApproval :: "PublishState \<Rightarrow> ident \<Rightarrow> ident \<Rightarrow> ApprovalRequest option" where
  "findPendingPublishApproval st organizationId pageId =
     List.find (\<lambda>r. ar_organizationId r = organizationId \<and> ar_requestType r = ''LANDING_PAGE_PUBLISH'' \<and>
        ar_targetType r = ''landing_page'' \<and> ar_targetId r = pageId \<and> ar_status r = ''PENDING'')
       (ps_approvals st)"

definition createPublishApprovalRequest ::
  "millis \<Rightarrow> ident \<Rightarrow> ident \<Rightarrow> ident \<Rightarrow> ident \<Rightarrow> PublishApprovalPayload \<Rightarrow> PublishState \<Rightarrow> PublishState" where
  "createPublishApprovalRequest now newId organizationId targetId requestedByUserId payload st =
     st\<lparr> ps_approvals := ps_approvals st @
       [\<lparr> ar_id = newId, ar_organizationId = organizationId, ar_requestType = ''LANDING_PAGE_PUBLISH'',
          ar_targetType = ''landing_page'', ar_targetId = targetId,
          ar_requestedByUserId = requestedByUserId, ar_reviewerUserId = None, ar_status = ''PENDING'',
          ar_requestPayload = payload, ar_reviewNotes = None, ar_reviewedAt = None, ar_createdAt = now \<rparr>] \<rparr>"

definition findPublishApprovalRequest :: "PublishState \<Rightarrow> ident \<Rightarrow> ident \<Rightarrow> ApprovalRequest option" where
  "findPublishApprovalRequest st requestId organizationId =
     List.find (\<lambda>r. ar_id r = requestId \<and> ar_organizationId r = organizationId \<and>
        ar_requestType r = ''LANDING_PAGE_PUBLISH'') (ps_approvals st)"

definition updateApprovalRequest :: "ident \<Rightarrow> (ApprovalRequest \<Rightarrow> ApprovalRequest) \<Rightarrow> PublishState \<Rightarrow> PublishState" where
  "updateApprovalRequest requestId f st =
     st\<lparr> ps_approvals := update_many (\<lambda>r. ar_id r = requestId) f (ps_approvals st) \<rparr>"

definition clearScheduledPublish :: "ident \<Rightarrow> PublishState \<Rightarrow> PublishState" where
  "clearScheduledPublish pageId st =
     st\<lparr> ps_scheduled := delete_many (\<lambda>j. fst j = pageId) (ps_scheduled st) \<rparr>"

section \<open>The publish handler\<close>

definition publish_body_ok :: "PublishRequestOptions \<Rightarrow> bool" where
  "publish_body_ok b \<longleftrightarrow>
     (case opt_password b of None \<Rightarrow> True | Some p \<Rightarrow> 4 \<le> length p \<and> length p \<le> 100) \<and>
     (case opt_release_notes b of None \<Rightarrow> True | Some n \<Rightarrow> length n \<le> 1000)"

definition exceeds_max_expiration :: "millis \<Rightarrow> int option \<Rightarrow> millis option \<Rightarrow> bool" where
  "exceeds_max_expiration now maxDays expiresAt =
     (case (expiresAt, maxDays) of
        (Some e, Some d) \<Rightarrow> d \<noteq> 0 \<and> e > now + d * 86400000
      | _ \<Rightarrow> False)"

definition publish_options :: "ident \<Rightarrow> ident option \<Rightarrow> PublishRequestOptions \<Rightarrow> PublishOptions" where
  "publish_options userId approvalRequestId b =
     \<lparr> po_visibility = opt_visibility b, po_password = opt_password b, po_expiresAt = opt_expires_at b,
       po_publishedByUserId = Some userId, po_approvalRequestId = approvalRequestId,
       po_releaseNotes = opt_release_notes b \<rparr>"

text \<open>\<open>sendPublishError\<close>, and the 500 of any other error.\<close>

definition publish_error_response :: "PageError \<Rightarrow> response" where
  "publish_error_response e =
     (case e of
        PublishValidation _ \<Rightarrow> Response 400 ''publish_validation_failed''
      | ScrubValidation _ \<Rightarrow> Response 400 ''scrub_validation_failed''
      | _ \<Rightarrow> Response 500 ''internal_error'')"

text \<open>The clock and the ids the database generates during one request.\<close>

record Ctx =
  cx_now :: millis
  cx_requestId :: ident
  cx_versionId :: ident

definition publish_route ::
  "PageEnv \<Rightarrow> Ctx \<Rightarrow> AuthRequest \<Rightarrow> ident \<Rightarrow> PublishRequestOptions \<Rightarrow> PublishState \<Rightarrow> response \<times> PublishState" where
  "publish_route env cx req pageId body st =
    (case requirePermission ''publish'' (ps_access st) req of
       Status code msg \<Rightarrow> (Response code msg, st)
     | Next \<Rightarrow>
       if \<not> publish_body_ok body then (Response 400 ''validation_error'', st)
       else if \<not> truthy (req_organizationId req) \<or> \<not> truthy (req_userId req)
       then (Response 401 ''unauthorized'', st)
       else let org = the (req_organizationId req); uid = the (req_userId req) in
       (case find_page (ps_pages st) pageId of
          None \<Rightarrow> (Response 500 ''internal_error'', st)
        | Some page \<Rightarrow>
          let rolePolicy = getEffectivePolicy (ps_access st) org uid (req_userRole req) in
          if \<not> (if lp_includeCompanyName page then canGenerateNamedStories rolePolicy
                else canGenerateAnonymousStories rolePolicy)
          then (Response 403 ''forbidden'', st)
          else if exceeds_max_expiration (cx_now cx) (fst (getArtifactPublishGovernance st org))
                    (opt_expires_at body)
          then (Response 400 ''bad_request'', st)
          else if snd (requiresApproval (ps_access st) org (lp_includeCompanyName page)) then
            (if findPendingPublishApproval st org (lp_id page) \<noteq> None
             then (Response 409 ''approval_already_pending'', st)
             else (Response 202 ''queued_for_approval'',
               audit ''PAGE_PUBLISH_APPROVAL_REQUESTED'' uid (lp_id page)
                 (createPublishApprovalRequest (cx_now cx) (cx_requestId cx) org (lp_id page) uid
                   \<lparr> pay_page_id = lp_id page, pay_options = body, pay_steps = [], pay_approvals = [],
                     pay_current_step_order = Some 1 \<rparr> st)))
          else
            (case publish (env_scrub env) (env_linkIssues env) (env_hash env) (cx_now cx) (cx_versionId cx)
                    pageId (publish_options uid None body) (ps_pages st) of
               Inl e \<Rightarrow> (publish_error_response e, st)
             | Inr (slug, pages) \<Rightarrow>
                 (Response 200 ''published'',
                  audit ''PAGE_PUBLISHED'' uid pageId
                    (clearScheduledPublish pageId (st\<lparr> ps_pages := pages \<rparr>))))))"

section \<open>The review handler\<close>

datatype ReviewDecision = APPROVE | REJECT

definition req_role :: "AuthRequest \<Rightarrow> UserRole option" where
  "req_role req = Some (case req_userRole req of None \<Rightarrow> MEMBER | Some r \<Rightarrow> r)"

definition current_order :: "PublishApprovalPayload \<Rightarrow> int" where
  "current_order p =
     (case pay_current_step_order p of
        Some o' \<Rightarrow> o'
      | None \<Rightarrow> (case pay_steps p of [] \<Rightarrow> 1 | s # _ \<Rightarrow> step_order s))"

definition current_step :: "PublishApprovalPayload \<Rightarrow> PublishApprovalStep option" where
  "current_step p = List.find (\<lambda>s. step_order s = current_order p) (pay_steps p)"

definition next_step :: "PublishApprovalPayload \<Rightarrow> PublishApprovalStep option" where
  "next_step p = List.find (\<lambda>s. step_order s > current_order p) (pay_steps p)"

definition add_approval :: "millis \<Rightarrow> ident \<Rightarrow> string option \<Rightarrow> PublishApprovalPayload \<Rightarrow> PublishApproval list" where
  "add_approval now uid notes p = pay_approvals p @
     [\<lparr> apv_step_order = current_order p, apv_reviewer_user_id = uid, apv_decided_at = now, apv_notes = notes \<rparr>]"

definition step_completed :: "PublishApprovalPayload \<Rightarrow> PublishApproval list \<Rightarrow> bool" where
  "step_completed p approvals \<longleftrightarrow>
     int (count_rows (\<lambda>a. apv_step_order a = current_order p) approvals) \<ge>
       (case current_step p of None \<Rightarrow> 1 | Some s \<Rightarrow> min_approvals s)"

definition review_route ::
  "PageEnv \<Rightarrow> Ctx \<Rightarrow> AuthRequest \<Rightarrow> ident \<Rightarrow> ReviewDecision \<Rightarrow> string option \<Rightarrow> PublishState \<Rightarrow>
     response \<times> PublishState" where
  "review_route env cx req requestId decision notes st =
    (if (case notes of None \<Rightarrow> False | Some n \<Rightarrow> length n > 1000) then (Response 400 ''validation_error'', st)
     else if \<not> truthy (req_organizationId req) \<or> \<not> truthy (req_userId req)
     then (Response 401 ''unauthorized'', st)
     else if \<not> canReviewPublishApprovals (ps_access st) req then (Response 403 ''forbidden'', st)
     else let org = the (req_organizationId req); uid = the (req_userId req) in
     (case findPublishApprovalRequest st requestId org of
        None \<Rightarrow> (Response 404 ''not_found'', st)
      | Some request \<Rightarrow>
        if ar_status request \<noteq> ''PENDING'' then (Response 409 ''conflict'', st)
        else let payload = ar_requestPayload request in
        if (case current_step payload of
              None \<Rightarrow> False
            | Some step \<Rightarrow> \<not> canUserApproveStep st (req_organizationId req) (req_userId req) (req_role req)
                step (ar_requestedByUserId request))
        then (Response 403 ''forbidden'', st)
        else if decision = REJECT then
          (Response 200 ''REJECTED'',
           audit ''PAGE_PUBLISH_APPROVAL_REJECTED'' uid (ar_targetId request)
             (updateApprovalRequest (ar_id request)
               (\<lambda>r. r\<lparr> ar_status := ''REJECTED'', ar_reviewerUserId := Some uid, ar_reviewNotes := notes,
                       ar_reviewedAt := Some (cx_now cx) \<rparr>) st))
        else if list_ex (\<lambda>a. apv_step_order a = current_order payload \<and> apv_reviewer_user_id a = uid)
                  (pay_approvals payload)
        then (Response 409 ''conflict'', st)
        else let approvals = add_approval (cx_now cx) uid notes payload;
                 done = step_completed payload approvals
        in if \<not> (done \<and> next_step payload = None) then
          (Response 200 ''PENDING'',
           updateApprovalRequest (ar_id request)
             (\<lambda>r. r\<lparr> ar_requestPayload := payload\<lparr> pay_approvals := approvals,
                pay_current_step_order := Some
                  (if done then (case next_step payload of None \<Rightarrow> current_order payload
                                 | Some s \<Rightarrow> step_order s)
                   else current_order payload) \<rparr> \<rparr>) st)
        else
          (case find_page (ps_pages st) (ar_targetId request) of
             None \<Rightarrow> (Response 500 ''internal_error'', st)
           | Some page \<Rightarrow>
             if exceeds_max_expiration (cx_now cx) (fst (getArtifactPublishGovernance st org))
                  (opt_expires_at (pay_options payload))
             then (Response 400 ''bad_request'', st)
             else if lp_includeCompanyName page \<and>
                     \<not> may_generate_named_stories (ps_access st) (req_organizationId req) (req_userId req) (req_role req)
             then (Response 403 ''forbidden'', st)
             else (case publish (env_scrub env) (env_linkIssues env) (env_hash env) (cx_now cx)
                      (cx_versionId cx) (ar_targetId request)
                      (publish_options uid (Some (ar_id request)) (pay_options payload)) (ps_pages st) of
                     Inl e \<Rightarrow> (publish_error_response e, st)
                   | Inr (slug, pages) \<Rightarrow>
                       (Response 200 ''APPROVED'',
                        audit ''PAGE_PUBLISH_APPROVAL_APPROVED'' uid (ar_targetId request)
                          (updateApprovalRequest (ar_id request)
                            (\<lambda>r. r\<lparr> ar_status := ''APPROVED'', ar_reviewerUserId := Some uid,
                                ar_reviewNotes := notes, ar_reviewedAt := Some (cx_now cx),
                                ar_requestPayload := payload\<lparr> pay_approvals := approvals,
                                  pay_current_step_order := Some (current_order payload) \<rparr> \<rparr>)
                            (clearScheduledPublish (ar_targetId request) (st\<lparr> ps_pages := pages \<rparr>))))))))"

section \<open>Unpublish, archive, roll back, schedule\<close>

text \<open>The handlers that end a publication differ in the operation and the audit action.\<close>

definition withdraw_route ::
  "(millis \<Rightarrow> ident \<Rightarrow> PageDb \<Rightarrow> (PageError, PageDb) res) \<Rightarrow> string \<Rightarrow> Ctx \<Rightarrow> AuthRequest \<Rightarrow> ident \<Rightarrow>
     PublishState \<Rightarrow> response \<times> PublishState" where
  "withdraw_route act action cx req pageId st =
    (case requirePageOwnerOrPermission (ps_access st) (pdb_pages (ps_pages st)) req pageId of
       Status code msg \<Rightarrow> (Response code msg, st)
     | Next \<Rightarrow>
       if \<not> truthy (req_organizationId req) \<or> \<not> truthy (req_userId req) then (Response 401 ''unauthorized'', st)
       else (case find_page (ps_pages st) pageId of
          None \<Rightarrow> (Response 500 ''internal_error'', st)
        | Some page \<Rightarrow>
          if lp_includeCompanyName page \<and>
             \<not> may_access_named_stories (ps_access st) (req_organizationId req) (req_userId req) (req_role req)
          then (Response 403 ''forbidden'', st)
          else (case act (cx_now cx) pageId (ps_pages st) of
                  Inl e \<Rightarrow> (Response 500 ''internal_error'', st)
                | Inr pages \<Rightarrow>
                    (Response 200 action,
                     audit action (the (req_userId req)) pageId
                       (clearScheduledPublish pageId (st\<lparr> ps_pages := pages \<rparr>))))))"

definition unpublish_route :: "Ctx \<Rightarrow> AuthRequest \<Rightarrow> ident \<Rightarrow> PublishState \<Rightarrow> response \<times> PublishState" where
  "unpublish_route = withdraw_route unpublish ''PAGE_UNPUBLISHED''"

definition archive_route :: "Ctx \<Rightarrow> AuthRequest \<Rightarrow> ident \<Rightarrow> PublishState \<Rightarrow> response \<times> PublishState" where
  "archive_route = withdraw_route archive ''PAGE_ARCHIVED''"

definition rollback_route :: "Ctx \<Rightarrow> AuthRequest \<Rightarrow> ident \<Rightarrow> ident \<Rightarrow> PublishState \<Rightarrow> response \<times> PublishState" where
  "rollback_route cx req pageId versionId st =
    (case requirePermission ''publish'' (ps_access st) req of
       Status code msg \<Rightarrow> (Response code msg, st)
     | Next \<Rightarrow>
       if \<not> truthy (req_organizationId req) \<or> \<not> truthy (req_userId req) then (Response 401 ''unauthorized'', st)
       else (case rollbackLandingPageToVersion (cx_now cx) (cx_versionId cx) pageId versionId
                    (the (req_userId req)) (ps_pages st) of
               Inl e \<Rightarrow> (Response 500 ''internal_error'', st)
             | Inr pages \<Rightarrow>
                 (Response 200 ''rolled_back'',
                  audit ''PAGE_VERSION_ROLLBACK'' (the (req_userId req)) pageId (st\<lparr> ps_pages := pages \<rparr>))))"

text \<open>Scheduling (with the queue configured); a page has at most one job, under its job id.\<close>

definition schedule_route ::
  "Ctx \<Rightarrow> AuthRequest \<Rightarrow> ident \<Rightarrow> millis \<Rightarrow> PublishRequestOptions \<Rightarrow> PublishState \<Rightarrow> response \<times> PublishState" where
  "schedule_route cx req pageId publishAt body st =
    (case requirePermission ''publish'' (ps_access st) req of
       Status code msg \<Rightarrow> (Response code msg, st)
     | Next \<Rightarrow>
    (case requirePageOwnerOrPermission (ps_access st) (pdb_pages (ps_pages st)) req pageId of
       Status code msg \<Rightarrow> (Response code msg, st)
     | Next \<Rightarrow>
       if \<not> publish_body_ok body then (Response 400 ''validation_error'', st)
       else if \<not> truthy (req_organizationId req) \<or> \<not> truthy (req_userId req) then (Response 401 ''unauthorized'', st)
       else let org = the (req_organizationId req); uid = the (req_userId req) in
       (case find_page (ps_pages st) pageId of
          None \<Rightarrow> (Response 500 ''internal_error'', st)
        | Some page \<Rightarrow>
          if lp_includeCompanyName page \<and>
             \<not> may_generate_named_stories (ps_access st) (req_organizationId req) (req_userId req) (req_role req)
          then (Response 403 ''forbidden'', st)
          else if snd (requiresApproval (ps_access st) org (lp_includeCompanyName page))
          then (Response 409 ''conflict'', st)
          else if publishAt - cx_now cx < 15000 then (Response 400 ''bad_request'', st)
          else let st1 = clearScheduledPublish (lp_id page) st in
            (Response 202 ''scheduled'',
             audit ''PAGE_PUBLISH_SCHEDULED'' uid (lp_id page)
               (st1\<lparr> ps_scheduled := ps_scheduled st1 @
                  [(lp_id page,
                    \<lparr> job_pageId = lp_id page, job_organizationId = org, job_userId = uid,
                      job_publishAt = publishAt, job_visibility = opt_visibility body,
                      job_password = opt_password body, job_expiresAt = opt_expires_at body,
                      job_releaseNotes = opt_release_notes body \<rparr>)] \<rparr>)))))"

text \<open>Every route of the router stands behind the feature gate.\<close>

definition feature_gate ::
  "AuthRequest \<Rightarrow> (PublishState \<Rightarrow> response \<times> PublishState) \<Rightarrow> PublishState \<Rightarrow> response \<times> PublishState" where
  "feature_gate req handler st =
    (case requireLandingPagesEnabled (ps_access st) req of
       Status code msg \<Rightarrow> (Response code msg, st)
     | Next \<Rightarrow> handler st)"

section \<open>Facts about the handlers\<close>

lemma audit_simps [simp]:
  "ps_access (audit a u t st) = ps_access st" "ps_pages (audit a u t st) = ps_pages st"
  "ps_approvals (audit a u t st) = ps_approvals st" "ps_scheduled (audit a u t st) = ps_scheduled st"
  "ps_governance (audit a u t st) = ps_governance st"
  by (simp_all add: audit_def)

lemma clear_simps [simp]:
  "ps_access (clearScheduledPublish p st) = ps_access st"
  "ps_pages (clearScheduledPublish p st) = ps_pages st"
  "ps_approvals (clearScheduledPublish p st) = ps_approvals st"
  by (simp_all add: clearScheduledPublish_def)

lemma update_request_simps [simp]:
  "ps_access (updateApprovalRequest i f st) = ps_access st"
  "ps_pages (updateApprovalRequest i f st) = ps_pages st"
  "ps_approvals (updateApprovalRequest i f st) = update_many (\<lambda>r. ar_id r = i) f (ps_approvals st)"
  by (simp_all add: updateApprovalRequest_def)

text \<open>What is written when the publish handler answers 202.\<close>

lemma publish_route_202:
  assumes "publish_route env cx req pageId body st = (Response 202 msg, st')"
  obtains page where "find_page (ps_pages st) pageId = Some page"
    "findPendingPublishApproval st (the (req_organizationId req)) pageId = None"
    "st' = audit ''PAGE_PUBLISH_APPROVAL_REQUESTED'' (the (req_userId req)) pageId
        (createPublishApprovalRequest (cx_now cx) (cx_requestId cx) (the (req_organizationId req)) pageId
          (the (req_userId req))
          \<lparr> pay_page_id = pageId, pay_options = body, pay_steps = [], pay_approvals = [],
            pay_current_step_order = Some 1 \<rparr> st)"
proof -
  have guard_code: "requirePermission ''publish'' db req \<noteq> Status 202 m" for db m
    by (auto simp: requirePermission_def Let_def split: option.splits)
  have err: "publish_error_response e \<noteq> Response 202 m" for e m
    by (cases e) (simp_all add: publish_error_response_def)
  from assms obtain page where p: "find_page (ps_pages st) pageId = Some page"
    by (auto simp: publish_route_def Let_def guard_code split: guard.splits if_splits option.splits)
  with assms find_page_id [OF p] show thesis
    by (intro that [of page])
      (auto simp: publish_route_def Let_def err guard_code split: guard.splits if_splits sum.splits prod.splits)
qed

lemma publish_error_not_200: "publish_error_response e \<noteq> Response 200 m"
  by (cases e) (simp_all add: publish_error_response_def)

text \<open>The write of a review that decides.\<close>

lemma review_final_update:
  assumes "review_route env cx req requestId decision notes st = (Response 200 outcome, st1)"
    and "outcome \<in> {''APPROVED'', ''REJECTED''}"
  obtains f where "ps_approvals st1 = update_many (\<lambda>r. ar_id r = requestId) f (ps_approvals st)"
    "\<And>r. ar_id (f r) = ar_id r" "\<And>r. ar_status (f r) = outcome"
proof -
  from assms obtain request where
    r: "findPublishApprovalRequest st requestId (the (req_organizationId req)) = Some request"
    by (auto simp: review_route_def Let_def split: if_splits option.splits)
  then have "ar_id request = requestId"
    using find_SomeD by (fastforce simp: findPublishApprovalRequest_def)
  with r assms show thesis
    by (auto simp: review_route_def Let_def publish_error_not_200 intro!: that
        split: if_splits option.splits sum.splits prod.splits)
qed

section \<open>Properties\<close>

text \<open>
  C2. Where the organization's policy requires an approval, publishing never happens directly: the
  publish handler leaves the pages as they are, whoever calls it, and at most queues one request for
  this page, which is pending and only when no other request for the page is.
\<close>

theorem publish_route_needs_approval:
  assumes "find_page (ps_pages st) pageId = Some page"
    and "snd (requiresApproval (ps_access st) (the (req_organizationId req)) (lp_includeCompanyName page))"
    and "publish_route env cx req pageId body st = (Response code msg, st')"
  shows "ps_pages st' = ps_pages st \<and>
    (ps_approvals st' = ps_approvals st \<or>
     code = 202 \<and>
     findPendingPublishApproval st (the (req_organizationId req)) pageId = None \<and>
     (\<exists>r. ps_approvals st' = ps_approvals st @ [r] \<and> ar_status r = ''PENDING'' \<and>
        ar_targetId r = pageId \<and> ar_targetType r = ''landing_page'' \<and>
        ar_organizationId r = the (req_organizationId req)))"
proof (cases "code = 202")
  case True
  with assms(3) have "publish_route env cx req pageId body st = (Response 202 msg, st')" by simp
  then show ?thesis
    by (rule publish_route_202) (auto simp: True createPublishApprovalRequest_def)
next
  case False
  with assms show ?thesis
    by (auto simp: publish_route_def Let_def split: guard.splits if_splits)
qed

text \<open>
  C38. The approval steps an organization configures are ignored: the request the publish handler queues
  has no step, so whatever governance policy is stored, anybody allowed to review, the requester
  included, finalizes it alone with one approval, and the page is published if it validates.
\<close>

theorem one_review_publishes:
  assumes "publish_route env cx req pageId body st = (Response 202 msg, st1)"
    and "\<And>r. r \<in> set (ps_approvals st) \<Longrightarrow> ar_id r \<noteq> cx_requestId cx"
    and "req_organizationId reviewer = req_organizationId req"
    and "canReviewPublishApprovals (ps_access st) reviewer"
    and "find_page (ps_pages st) pageId = Some page"
    and "lp_includeCompanyName page \<longrightarrow> is_admin (req_userRole reviewer)"
    and "\<not> exceeds_max_expiration (cx_now cx') (fst (getArtifactPublishGovernance st1 (the (req_organizationId req))))
           (opt_expires_at body)"
    and "publish (env_scrub env) (env_linkIssues env) (env_hash env) (cx_now cx') (cx_versionId cx') pageId
           (publish_options (the (req_userId reviewer)) (Some (cx_requestId cx)) body) (ps_pages st) =
         Inr (slug, pages)"
  shows "fst (review_route env cx' reviewer (cx_requestId cx) APPROVE None st1) = Response 200 ''APPROVED'' \<and>
    ps_pages (snd (review_route env cx' reviewer (cx_requestId cx) APPROVE None st1)) = pages"
  using assms(1)
proof (rule publish_route_202)
  let ?org = "the (req_organizationId req)"
  let ?pay = "\<lparr> pay_page_id = pageId, pay_options = body, pay_steps = [], pay_approvals = [],
            pay_current_step_order = Some 1 \<rparr>"
  let ?r = "\<lparr> ar_id = cx_requestId cx, ar_organizationId = ?org, ar_requestType = ''LANDING_PAGE_PUBLISH'',
          ar_targetType = ''landing_page'', ar_targetId = pageId,
          ar_requestedByUserId = the (req_userId req), ar_reviewerUserId = None, ar_status = ''PENDING'',
          ar_requestPayload = ?pay, ar_reviewNotes = None, ar_reviewedAt = None, ar_createdAt = cx_now cx \<rparr>"
  assume st1: "st1 = audit ''PAGE_PUBLISH_APPROVAL_REQUESTED'' (the (req_userId req)) pageId
        (createPublishApprovalRequest (cx_now cx) (cx_requestId cx) ?org pageId (the (req_userId req)) ?pay st)"
  have same: "ps_pages st1 = ps_pages st" "ps_access st1 = ps_access st"
    by (simp_all add: st1 createPublishApprovalRequest_def)
  have find: "findPublishApprovalRequest st1 (cx_requestId cx) ?org = Some ?r"
    using assms(2)
    by (auto simp: findPublishApprovalRequest_def st1 createPublishApprovalRequest_def find_append
        split: option.split dest!: find_SomeD)
  have auth: "truthy (req_organizationId reviewer)" "truthy (req_userId reviewer)"
    using assms(4) by (auto simp: canReviewPublishApprovals_def split: if_splits)
  have named: "lp_includeCompanyName page \<longrightarrow>
      may_generate_named_stories (ps_access st) (req_organizationId reviewer) (req_userId reviewer) (req_role reviewer)"
    using assms(6) by (auto simp: may_generate_named_stories_def access_named_def isAdminRole_def req_role_def)
  have "review_route env cx' reviewer (cx_requestId cx) APPROVE None st1 =
     (Response 200 ''APPROVED'', audit ''PAGE_PUBLISH_APPROVAL_APPROVED'' (the (req_userId reviewer)) pageId
       (updateApprovalRequest (cx_requestId cx)
         (\<lambda>r. r\<lparr> ar_status := ''APPROVED'', ar_reviewerUserId := Some (the (req_userId reviewer)),
            ar_reviewNotes := None, ar_reviewedAt := Some (cx_now cx'),
            ar_requestPayload := ?pay\<lparr> pay_approvals := add_approval (cx_now cx') (the (req_userId reviewer)) None ?pay,
              pay_current_step_order := Some (current_order ?pay) \<rparr> \<rparr>)
         (clearScheduledPublish pageId (st1\<lparr> ps_pages := pages \<rparr>))))"
    using auth assms(3-5,7,8) named
    by (simp add: review_route_def Let_def same find current_step_def next_step_def step_completed_def
        count_rows_def add_approval_def current_order_def)
  then show ?thesis by simp
qed

text \<open>
  C34. A decision is final: a review that answers \<open>APPROVED\<close> or \<open>REJECTED\<close> leaves the request in that
  status, and every later review of it, by anybody and with any decision, is refused without effect
  on pages, requests or schedule.
\<close>

theorem review_is_final:
  assumes "review_route env cx req requestId decision notes st = (Response 200 outcome, st1)"
    and "outcome \<in> {''APPROVED'', ''REJECTED''}"
    and "findPublishApprovalRequest st1 requestId (the (req_organizationId req2)) = Some r"
  shows "ar_status r = outcome \<and> snd (review_route env cx2 req2 requestId decision2 notes2 st1) = st1"
proof (rule review_final_update [OF assms(1,2)])
  fix f assume f: "ps_approvals st1 = update_many (\<lambda>r. ar_id r = requestId) f (ps_approvals st)"
    "\<And>r. ar_id (f r) = ar_id r" "\<And>r. ar_status (f r) = outcome"
  from find_SomeD [OF assms(3) [unfolded findPublishApprovalRequest_def]]
  have "r \<in> set (ps_approvals st1)" "ar_id r = requestId" by auto
  with f have status: "ar_status r = outcome" by (auto elim!: in_update_manyE)
  with assms(2) have "ar_status r \<noteq> ''PENDING''" by auto
  with assms(3) have "snd (review_route env cx2 req2 requestId decision2 notes2 st1) = st1"
    by (simp add: review_route_def Let_def)
  with status show ?thesis by simp
qed

section \<open>The approval chain\<close>

definition reviewers :: "PublishApproval list \<Rightarrow> PublishApprovalStep \<Rightarrow> ident set" where
  "reviewers approvals s =
     apv_reviewer_user_id ` {a \<in> set approvals. apv_step_order a = step_order s}"

definition chain_ok :: "PublishApprovalPayload \<Rightarrow> bool" where
  "chain_ok p \<longleftrightarrow>
     sorted_wrt (<) (map step_order (pay_steps p)) \<and>
     (pay_steps p \<noteq> [] \<longrightarrow> current_order p \<in> step_order ` set (pay_steps p)) \<and>
     distinct (map (\<lambda>a. (apv_step_order a, apv_reviewer_user_id a)) (pay_approvals p)) \<and>
     (\<forall>s \<in> set (pay_steps p). step_order s < current_order p \<longrightarrow>
        min_approvals s \<le> int (card (reviewers (pay_approvals p) s)))"

lemma card_reviewers:
  assumes "distinct (map (\<lambda>a. (apv_step_order a, apv_reviewer_user_id a)) approvals)"
  shows "card (reviewers approvals s) = count_rows (\<lambda>a. apv_step_order a = step_order s) approvals"
proof -
  let ?xs = "filter (\<lambda>a. apv_step_order a = step_order s) approvals"
  have "distinct (map (\<lambda>a. (apv_step_order a, apv_reviewer_user_id a)) ?xs)"
    using assms by (rule distinct_map_filter)
  then have "distinct (map apv_reviewer_user_id ?xs)"
    by (auto simp: distinct_map inj_on_def)
  moreover have "reviewers approvals s = set (map apv_reviewer_user_id ?xs)"
    by (simp add: reviewers_def)
  ultimately show ?thesis
    by (simp add: distinct_card count_rows_def del: set_map)
qed

lemma reviewers_mono: "card (reviewers approvals s) \<le> card (reviewers (approvals @ extra) s)"
  unfolding reviewers_def by (intro card_mono) auto

lemma distinct_add_approval:
  assumes "distinct (map (\<lambda>a. (apv_step_order a, apv_reviewer_user_id a)) (pay_approvals p))"
    and "\<not> list_ex (\<lambda>a. apv_step_order a = current_order p \<and> apv_reviewer_user_id a = uid) (pay_approvals p)"
  shows "distinct (map (\<lambda>a. (apv_step_order a, apv_reviewer_user_id a)) (add_approval now uid notes p))"
  using assms by (auto simp: add_approval_def list_ex_iff)

lemma sorted_find_greater:
  assumes "sorted_wrt (<) (map step_order steps)" and "List.find (\<lambda>s. step_order s > c) steps = Some t"
    and "s \<in> set steps" and "step_order s < step_order t"
  shows "step_order s \<le> (c :: int)"
  using assms by (induction steps) (auto split: if_splits dest: find_SomeD)

lemma sorted_find_equal:
  assumes "sorted_wrt (<) (map step_order steps)" and "s \<in> set steps"
  shows "List.find (\<lambda>t. step_order t = step_order s) steps = Some s"
  using assms by (induction steps) (auto dest: less_imp_neq)

lemma chain_keeps_earlier:
  assumes "chain_ok p" and "approvals = add_approval now uid notes p"
    and "s \<in> set (pay_steps p)" and "step_order s < current_order p"
  shows "min_approvals s \<le> int (card (reviewers approvals s))"
proof -
  have "min_approvals s \<le> int (card (reviewers (pay_approvals p) s))"
    using assms(1,3,4) by (simp add: chain_ok_def)
  also have "\<dots> \<le> int (card (reviewers approvals s))"
    using reviewers_mono by (simp add: assms(2) add_approval_def)
  finally show ?thesis .
qed

text \<open>A completed step has its approvals, and an approval keeps those of the earlier steps.\<close>

lemma chain_step_done:
  assumes "chain_ok p" and "step_completed p approvals" and "approvals = add_approval now uid notes p"
    and "distinct (map (\<lambda>a. (apv_step_order a, apv_reviewer_user_id a)) approvals)"
    and "s \<in> set (pay_steps p)" and "step_order s \<le> current_order p"
  shows "min_approvals s \<le> int (card (reviewers approvals s))"
proof (cases "step_order s = current_order p")
  case True
  have "current_step p = Some s"
    using sorted_find_equal [of "pay_steps p" s] assms(1,5) True
    by (simp add: current_step_def chain_ok_def)
  with assms(2) True show ?thesis
    by (simp add: step_completed_def card_reviewers [OF assms(4)])
next
  case False
  with assms(6) show ?thesis by (intro chain_keeps_earlier [OF assms(1,3,5)]) simp
qed

lemma chain_advance:
  assumes "chain_ok p" and "approvals = add_approval now uid notes p"
    and "\<not> list_ex (\<lambda>a. apv_step_order a = current_order p \<and> apv_reviewer_user_id a = uid) (pay_approvals p)"
    and "nxt = (if step_completed p approvals
                then (case next_step p of None \<Rightarrow> current_order p | Some s \<Rightarrow> step_order s)
                else current_order p)"
    and "\<not> (step_completed p approvals \<and> next_step p = None)"
  shows "chain_ok (p\<lparr> pay_approvals := approvals, pay_current_step_order := Some nxt \<rparr>)"
proof -
  have dist: "distinct (map (\<lambda>a. (apv_step_order a, apv_reviewer_user_id a)) approvals)"
    using distinct_add_approval assms(1-3) by (simp add: chain_ok_def)
  have order: "current_order (p\<lparr> pay_approvals := approvals, pay_current_step_order := Some nxt \<rparr>) = nxt"
    by (simp add: current_order_def)
  have sorted: "sorted_wrt (<) (map step_order (pay_steps p))"
    and mem: "pay_steps p \<noteq> [] \<longrightarrow> current_order p \<in> step_order ` set (pay_steps p)"
    using assms(1) by (simp_all add: chain_ok_def)
  show ?thesis
  proof (cases "step_completed p approvals")
    case True
    with assms(5) obtain t where t: "next_step p = Some t" by auto
    have tm: "t \<in> set (pay_steps p)" using find_SomeD [OF t [unfolded next_step_def]] by simp
    have "min_approvals s \<le> int (card (reviewers approvals s))"
      if "s \<in> set (pay_steps p)" "step_order s < step_order t" for s
      using sorted_find_greater [OF sorted t [unfolded next_step_def] that]
        chain_step_done [OF assms(1) True assms(2) dist that(1)] by simp
    with True t tm sorted dist show ?thesis
      unfolding chain_ok_def order by (auto simp: assms(4))
  next
    case False
    with chain_keeps_earlier [OF assms(1,2)] sorted mem dist show ?thesis
      unfolding chain_ok_def order by (auto simp: assms(4))
  qed
qed

lemma chain_finished:
  assumes "chain_ok p" and "approvals = add_approval now uid notes p"
    and "\<not> list_ex (\<lambda>a. apv_step_order a = current_order p \<and> apv_reviewer_user_id a = uid) (pay_approvals p)"
    and "step_completed p approvals" and "next_step p = None" and "s \<in> set (pay_steps p)"
  shows "min_approvals s \<le> int (card (reviewers approvals s))"
proof -
  have "distinct (map (\<lambda>a. (apv_step_order a, apv_reviewer_user_id a)) approvals)"
    using distinct_add_approval assms(1-3) by (simp add: chain_ok_def)
  moreover have "step_order s \<le> current_order p"
    using assms(5,6) by (auto simp: next_step_def find_None_iff not_less)
  ultimately show ?thesis
    using chain_step_done [OF assms(1,4,2) _ assms(6)] by blast
qed

text \<open>
  C3. An approval chain is never cut short: as long as a review answers \<open>PENDING\<close> the stored payload
  keeps the invariant (steps below the current one have their minimum of approvals, by different
  reviewers) and no page changes; when a review answers \<open>APPROVED\<close>, every step of the chain has its
  minimum number of approvals, each by a different reviewer.
\<close>

theorem approval_chain_complete:
  assumes "findPublishApprovalRequest st requestId (the (req_organizationId req)) = Some r"
    and "chain_ok (ar_requestPayload r)"
    and "review_route env cx req requestId APPROVE notes st = (Response 200 outcome, st1)"
  shows "\<exists>r1. findPublishApprovalRequest st1 requestId (the (req_organizationId req)) = Some r1 \<and>
    (outcome = ''PENDING'' \<longrightarrow> ps_pages st1 = ps_pages st \<and> ar_status r1 = ''PENDING'' \<and>
       chain_ok (ar_requestPayload r1)) \<and>
    (outcome = ''APPROVED'' \<longrightarrow>
       list_all (\<lambda>s. min_approvals s \<le> int (card (reviewers (pay_approvals (ar_requestPayload r1)) s)))
         (pay_steps (ar_requestPayload r)))"
proof -
  let ?org = "the (req_organizationId req)" and ?p = "ar_requestPayload r" and ?uid = "the (req_userId req)"
  define approvals where "approvals = add_approval (cx_now cx) ?uid notes ?p"
  define nxt where "nxt = (if step_completed ?p approvals
                then (case next_step ?p of None \<Rightarrow> current_order ?p | Some s \<Rightarrow> step_order s)
                else current_order ?p)"
  have r: "ar_id r = requestId"
    using find_SomeD [OF assms(1) [unfolded findPublishApprovalRequest_def]] by simp
  have fresh: "\<not> list_ex (\<lambda>a. apv_step_order a = current_order ?p \<and> apv_reviewer_user_id a = ?uid) (pay_approvals ?p)"
    and pend: "ar_status r = ''PENDING''"
    using assms(1,3) by (auto simp: review_route_def Let_def split: if_splits)
  have find1: "findPublishApprovalRequest st1 requestId ?org = Some (f r)"
    if "ps_approvals st1 = update_many (\<lambda>r. ar_id r = requestId) f (ps_approvals st)"
      and "\<And>r. ar_id (f r) = ar_id r \<and> ar_organizationId (f r) = ar_organizationId r \<and> ar_requestType (f r) = ar_requestType r"
    for f
    using assms(1) that(2) r unfolding findPublishApprovalRequest_def that(1)
    by (subst find_update_many) auto
  show ?thesis
  proof (cases "step_completed ?p approvals \<and> next_step ?p = None")
    case False
    let ?f = "\<lambda>x. x\<lparr> ar_requestPayload := ?p\<lparr> pay_approvals := approvals, pay_current_step_order := Some nxt \<rparr> \<rparr>"
    from False assms(1,3) r have st1: "outcome = ''PENDING''"
      "st1 = updateApprovalRequest requestId ?f st"
      by (auto simp: review_route_def Let_def approvals_def [symmetric] nxt_def split: if_splits option.splits)
    have "findPublishApprovalRequest st1 requestId ?org = Some (?f r)"
      by (rule find1) (simp_all add: st1)
    with st1 pend chain_advance [OF assms(2) approvals_def fresh nxt_def False] show ?thesis
      by auto
  next
    case True
    let ?f = "\<lambda>x. x\<lparr> ar_status := ''APPROVED'', ar_reviewerUserId := Some ?uid, ar_reviewNotes := notes,
        ar_reviewedAt := Some (cx_now cx),
        ar_requestPayload := ?p\<lparr> pay_approvals := approvals, pay_current_step_order := Some (current_order ?p) \<rparr> \<rparr>"
    from True assms(1,3) r have st1: "outcome = ''APPROVED''"
      "ps_approvals st1 = update_many (\<lambda>r. ar_id r = requestId) ?f (ps_approvals st)"
      by (auto simp: review_route_def Let_def approvals_def [symmetric] publish_error_not_200
          split: if_splits option.splits sum.splits prod.splits)
    have "findPublishApprovalRequest st1 requestId ?org = Some (?f r)"
      by (rule find1) (simp_all add: st1)
    with st1 chain_finished [OF assms(2) approvals_def fresh conjunct1 [OF True] conjunct2 [OF True]]
    show ?thesis by (auto simp: list_all_iff)
  qed
qed

text \<open>
  Step eligibility has a bypass: a reviewer with the role profile \<open>BILLING_ADMIN\<close> or
  \<open>APPROVAL_ADMIN\<close> is eligible for every step that names no user role, also for the own request and
  with self-approval off; every other reviewer is refused the own request when self-approval is off.
\<close>

theorem self_approval_rule:
  assumes "truthy (Some org)" and "truthy (Some uid)"
    and "\<not> allow_self_approval step" and "required_user_role step = None"
  shows "canUserApproveStep st (Some org) (Some uid) role step uid =
    (role_profile_key (ps_access st) org uid \<in> {Some ''BILLING_ADMIN'', Some ''APPROVAL_ADMIN''})"
  using assms by (auto simp: canUserApproveStep_def Let_def)

text \<open>
  C37. An administrator can publish a page of another organization: the publish handler looks the page
  up by its id alone, so with an approval policy of the own organization that asks for none, the
  handler publishes whatever page the id names, provided only that its content validates.
\<close>

theorem publish_route_cross_tenant:
  assumes "truthy (req_organizationId req)" and "truthy (req_userId req)"
    and "is_admin (req_userRole req)" and "publish_body_ok body"
    and "find_page (ps_pages st) pageId = Some page"
    and "Some (lp_organizationId page) \<noteq> req_organizationId req"
    and "\<not> exceeds_max_expiration (cx_now cx)
          (fst (getArtifactPublishGovernance st (the (req_organizationId req)))) (opt_expires_at body)"
    and "\<not> snd (requiresApproval (ps_access st) (the (req_organizationId req)) (lp_includeCompanyName page))"
    and "publish (env_scrub env) (env_linkIssues env) (env_hash env) (cx_now cx) (cx_versionId cx) pageId
          (publish_options (the (req_userId req)) None body) (ps_pages st) = Inr (slug, pages)"
  shows "fst (publish_route env cx req pageId body st) = Response 200 ''published'' \<and>
    ps_pages (snd (publish_route env cx req pageId body st)) = pages"
  using assms
  by (auto simp: publish_route_def requirePermission_def Let_def getEffectivePolicy_def fallbackPolicy_def)

text \<open>
  Scheduling never bypasses the approval policy at the time of scheduling and keeps one job per
  page: the handler adds a job only when no approval is required, the publication lies at least 15
  seconds ahead, and the page's earlier job is replaced.
\<close>

theorem schedule_route_respects_policy:
  assumes "schedule_route cx req pageId publishAt body st = (resp, st')"
  shows "ps_pages st' = ps_pages st \<and>
    (st' = st \<or>
     (\<exists>page job. find_page (ps_pages st) pageId = Some page \<and>
        \<not> snd (requiresApproval (ps_access st) (the (req_organizationId req)) (lp_includeCompanyName page)) \<and>
        cx_now cx + 15000 \<le> publishAt \<and> job_publishAt job = publishAt \<and> job_pageId job = pageId \<and>
        filter (\<lambda>j. fst j = pageId) (ps_scheduled st') = [(pageId, job)] \<and>
        filter (\<lambda>j. fst j \<noteq> pageId) (ps_scheduled st') = filter (\<lambda>j. fst j \<noteq> pageId) (ps_scheduled st)))"
proof (cases "st' = st")
  case True
  then show ?thesis by simp
next
  case False
  with assms obtain page where p: "find_page (ps_pages st) pageId = Some page"
    by (auto simp: schedule_route_def Let_def split: guard.splits if_splits option.splits)
  from False assms p find_page_id [OF p] show ?thesis
    by (auto simp: schedule_route_def Let_def clearScheduledPublish_def delete_many_def filter_empty_conv
        split: guard.splits if_splits intro!: exI)
qed

section \<open>Witnesses\<close>

definition owner_req :: AuthRequest where
  "owner_req = \<lparr> req_organizationId = Some ''org'', req_userId = Some ''u1'', req_userRole = Some OWNER \<rparr>"

definition sample_body :: PublishRequestOptions where
  "sample_body = \<lparr> opt_visibility = SHARED_WITH_LINK, opt_password = None, opt_expires_at = None,
     opt_release_notes = None \<rparr>"

definition sample_ctx :: Ctx where
  "sample_ctx = \<lparr> cx_now = 200, cx_requestId = ''r1'', cx_versionId = ''v1'' \<rparr>"

text \<open>An organization that requires approvals for all pages and has an approval step configured.\<close>

definition sample_step :: PublishApprovalStep where
  "sample_step = \<lparr> step_order = 1, min_approvals = 2, required_role_profile_key = None,
     required_user_role = None, approver_scope_type = ROLE_PROFILE, approver_scope_value = None,
     allow_self_approval = False \<rparr>"

definition sample_state :: "ApprovalPolicy \<Rightarrow> PublishState" where
  "sample_state policy =
     \<lparr> ps_access = sample_access_db\<lparr> db_orgSettings := [(default_org_settings ''org'')\<lparr> os_approvalPolicy := policy \<rparr>] \<rparr>,
       ps_pages = sample_pages, ps_approvals = [],
       ps_governance = [\<lparr> gp_organizationId = ''org'', gp_approvalChainEnabled = True,
          gp_maxExpirationDays = None, gp_requireProvenance = True,
          gp_approvalSteps = [(True, sample_step)] \<rparr>],
       ps_groupMembers = [], ps_teamScopes = [], ps_scheduled = [], ps_audit = [] \<rparr>"

lemma sample_state_simps [simp]:
  "ps_pages (sample_state pol) = sample_pages" "ps_approvals (sample_state pol) = []"
  "snd (requiresApproval (ps_access (sample_state pol)) ''org'' False) = requiresPublishApproval pol False"
  "fst (getArtifactPublishGovernance (sample_state pol) ''org'') = None"
  by (simp_all add: sample_state_def requiresApproval_def getOrgApprovalPolicy_def org_settings_def
      default_org_settings_def resolveApprovalPolicyFromSettings_def Let_def getArtifactPublishGovernance_def)

lemma sample_page_simps [simp]:
  "lp_includeCompanyName sample_page = False" "lp_id sample_page = ''p1''"
  "lp_organizationId sample_page = ''org''"
  by (simp_all add: sample_page_def)

lemma owner_req_simps [simp]:
  "req_organizationId owner_req = Some ''org''" "req_userId owner_req = Some ''u1''"
  "req_userRole owner_req = Some OWNER"
  by (simp_all add: owner_req_def)

lemma sample_body_ok [simp]: "publish_body_ok sample_body" "opt_expires_at sample_body = None"
  by (simp_all add: publish_body_ok_def sample_body_def)

lemma sample_not_exceeds [simp]: "\<not> exceeds_max_expiration now d None"
  by (simp add: exceeds_max_expiration_def)

lemma sample_publish_route:
  "\<exists>st1. publish_route env sample_ctx owner_req ''p1'' sample_body (sample_state ALL_REQUIRED) =
     (Response 202 ''queued_for_approval'', st1)"
  by (simp add: publish_route_def requirePermission_def Let_def sample_find getEffectivePolicy_def
      fallbackPolicy_def requiresPublishApproval_def findPendingPublishApproval_def)

theorem publish_route_needs_approval_witness:
  "\<exists>st1. publish_route sample_env sample_ctx owner_req ''p1'' sample_body (sample_state ALL_REQUIRED) =
     (Response 202 ''queued_for_approval'', st1) \<and> ps_pages st1 = sample_pages"
proof -
  obtain st1 where r: "publish_route sample_env sample_ctx owner_req ''p1'' sample_body (sample_state ALL_REQUIRED) =
     (Response 202 ''queued_for_approval'', st1)"
    using sample_publish_route by blast
  have "find_page (ps_pages (sample_state ALL_REQUIRED)) ''p1'' = Some sample_page" by (simp add: sample_find)
  from publish_route_needs_approval [OF this _ r] r show ?thesis
    by (simp add: requiresPublishApproval_def)
qed

lemma sample_publishes:
  "\<exists>pages. publish (env_scrub sample_env) (env_linkIssues sample_env) (env_hash sample_env) now newId ''p1''
     opts sample_pages = Inr (''story-1'', pages)"
proof -
  have sub: "lp_subtitle sample_page = None" and slug: "lp_slug sample_page = ''story-1''"
    by (simp_all add: sample_page_def)
  have frags: "scrub_fragments (scrub_page sample_scrub (a_id sample_account) sample_page) =
      [lp_editableBody sample_page, ''The client saves time'', [], ''Result'', ''Half the effort'']"
    unfolding sample_scrub_page by (simp add: scrub_fragments_def sample_page_def decodeCalloutBoxes_def)
  have env: "env_scrub sample_env = sample_scrub" "env_linkIssues sample_env = (\<lambda>_. [])" "env_hash sample_env = (\<lambda>p. p)"
    by (simp_all add: sample_env_def)
  show ?thesis
    unfolding publish_def sample_find option.case Let_def sub env frags sample_no_leak
    by (simp add: sample_valid sample_scrub_page createArtifactVersion_def Let_def sample_find slug)
qed

theorem one_review_publishes_witness:
  "\<exists>st1. publish_route sample_env sample_ctx owner_req ''p1'' sample_body (sample_state ALL_REQUIRED) =
       (Response 202 ''queued_for_approval'', st1) \<and>
     fst (review_route sample_env sample_ctx owner_req ''r1'' APPROVE None st1) = Response 200 ''APPROVED''"
proof -
  obtain st1 where r: "publish_route sample_env sample_ctx owner_req ''p1'' sample_body (sample_state ALL_REQUIRED) =
     (Response 202 ''queued_for_approval'', st1)"
    using sample_publish_route by blast
  obtain pages where p: "publish (env_scrub sample_env) (env_linkIssues sample_env) (env_hash sample_env)
      (cx_now sample_ctx) (cx_versionId sample_ctx) ''p1''
      (publish_options (the (req_userId owner_req)) (Some (cx_requestId sample_ctx)) sample_body)
      (ps_pages (sample_state ALL_REQUIRED)) = Inr (''story-1'', pages)"
    using sample_publishes by (simp only: sample_state_simps) blast
  have rev: "canReviewPublishApprovals (ps_access (sample_state ALL_REQUIRED)) owner_req"
    and pg: "find_page (ps_pages (sample_state ALL_REQUIRED)) ''p1'' = Some sample_page"
    by (simp_all add: canReviewPublishApprovals_def sample_find)
  from one_review_publishes [OF r _ refl rev pg _ _ p] r show ?thesis
    by (simp add: sample_ctx_def)
qed

definition sample_chain :: "ApprovalRequest" where
  "sample_chain = (sample_approval ''r1'' ''PENDING'' 100)\<lparr>
     ar_requestPayload := \<lparr> pay_page_id = ''p1'', pay_options = sample_body, pay_steps = [sample_step],
       pay_approvals = [], pay_current_step_order = Some 1 \<rparr>, ar_requestedByUserId := ''u9'' \<rparr>"

definition reviewer_req :: AuthRequest where
  "reviewer_req = \<lparr> req_organizationId = Some ''org'', req_userId = Some ''u1'', req_userRole = Some MEMBER \<rparr>"

text \<open>\<open>u1\<close> has the role profile \<open>BILLING_ADMIN\<close>.\<close>

definition chain_state :: PublishState where
  "chain_state = (sample_state ALL_REQUIRED)\<lparr> ps_approvals := [sample_chain],
     ps_access := sample_access_db\<lparr>
        db_roleProfiles := [profile_of_preset ''p4'' ''org'' (PRESETS ! 3)],
        db_roleAssignments := [\<lparr> ura_userId = ''u1'', ura_roleProfileId = ''p4'', ura_assignedById = None \<rparr>] \<rparr> \<rparr>"

lemma chain_state_profile:
  "assigned_profile_of (ps_access chain_state) ''u1'' = Some (profile_of_preset ''p4'' ''org'' (PRESETS ! 3))"
  by (simp add: chain_state_def assigned_profile_of_def profile_of_preset_def sample_access_db_def)

lemma chain_reviewer: "canReviewPublishApprovals (ps_access chain_state) reviewer_req"
  by (simp add: canReviewPublishApprovals_def reviewer_req_def getEffectivePolicy_def chain_state_profile)
    (simp add: profile_of_preset_def policy_of_profile_def PRESETS_def preset_def)

lemma chain_key: "role_profile_key (ps_access chain_state) ''org'' ''u1'' = Some ''BILLING_ADMIN''"
  by (simp add: role_profile_key_def chain_state_profile)
    (simp add: profile_of_preset_def PRESETS_def preset_def)

lemma chain_find: "findPublishApprovalRequest chain_state ''r1'' ''org'' = Some sample_chain"
  by (simp add: findPublishApprovalRequest_def chain_state_def sample_chain_def sample_approval_def)

lemma chain_review:
  "\<exists>st1. review_route env sample_ctx reviewer_req ''r1'' APPROVE None chain_state = (Response 200 ''PENDING'', st1)"
proof -
  have elig: "canUserApproveStep chain_state (Some ''org'') (Some ''u1'') role sample_step u" for role u
    by (simp add: canUserApproveStep_def Let_def chain_key sample_step_def)
  show ?thesis
    using chain_reviewer elig chain_find
    by (simp add: review_route_def Let_def reviewer_req_def)
      (simp add: sample_chain_def sample_approval_def current_step_def current_order_def sample_step_def
        step_completed_def add_approval_def count_rows_def)
qed

theorem approval_chain_complete_witness:
  "\<exists>st1 r1. review_route sample_env sample_ctx reviewer_req ''r1'' APPROVE None chain_state = (Response 200 ''PENDING'', st1) \<and>
     findPublishApprovalRequest st1 ''r1'' ''org'' = Some r1 \<and> chain_ok (ar_requestPayload r1)"
proof -
  obtain st1 where r: "review_route sample_env sample_ctx reviewer_req ''r1'' APPROVE None chain_state = (Response 200 ''PENDING'', st1)"
    using chain_review by blast
  have ok: "chain_ok (ar_requestPayload sample_chain)"
    by (simp add: chain_ok_def sample_chain_def sample_approval_def current_order_def sample_step_def)
  have f: "findPublishApprovalRequest chain_state ''r1'' (the (req_organizationId reviewer_req)) = Some sample_chain"
    using chain_find by (simp add: reviewer_req_def)
  from approval_chain_complete [OF f ok r] r show ?thesis by (auto simp: reviewer_req_def)
qed

theorem self_approval_rule_witness:
  "canUserApproveStep chain_state (Some ''org'') (Some ''u1'') (Some MEMBER) sample_step ''u1''"
  using self_approval_rule [of "''org''" "''u1''" sample_step chain_state "Some MEMBER"]
  by (simp add: chain_key sample_step_def)

theorem review_is_final_witness:
  "\<exists>st1 r. review_route sample_env sample_ctx reviewer_req ''r1'' REJECT None chain_state = (Response 200 ''REJECTED'', st1) \<and>
     findPublishApprovalRequest st1 ''r1'' ''org'' = Some r \<and> ar_status r = ''REJECTED'' \<and>
     snd (review_route sample_env sample_ctx reviewer_req ''r1'' APPROVE None st1) = st1"
proof -
  have elig: "canUserApproveStep chain_state (Some ''org'') (Some ''u1'') role sample_step u" for role u
    by (simp add: canUserApproveStep_def Let_def chain_key sample_step_def)
  obtain st1 r where r: "review_route sample_env sample_ctx reviewer_req ''r1'' REJECT None chain_state = (Response 200 ''REJECTED'', st1)"
    and f: "findPublishApprovalRequest st1 ''r1'' (the (req_organizationId reviewer_req)) = Some r"
    using chain_reviewer elig chain_find
    by (simp add: review_route_def Let_def reviewer_req_def)
      (simp add: sample_chain_def sample_approval_def current_step_def current_order_def sample_step_def
        findPublishApprovalRequest_def chain_state_def)
  from review_is_final [OF r _ f, of sample_ctx APPROVE None] r f show ?thesis
    by (auto simp: reviewer_req_def)
qed

definition foreign_req :: AuthRequest where
  "foreign_req = \<lparr> req_organizationId = Some ''other'', req_userId = Some ''x'', req_userRole = Some ADMIN \<rparr>"

theorem publish_route_cross_tenant_witness:
  "lp_organizationId sample_page = ''org'' \<and>
   fst (publish_route sample_env sample_ctx foreign_req ''p1'' sample_body (sample_state ALL_REQUIRED)) =
     Response 200 ''published''"
proof -
  obtain pages where p: "publish (env_scrub sample_env) (env_linkIssues sample_env) (env_hash sample_env)
      (cx_now sample_ctx) (cx_versionId sample_ctx) ''p1''
      (publish_options (the (req_userId foreign_req)) None sample_body)
      (ps_pages (sample_state ALL_REQUIRED)) = Inr (''story-1'', pages)"
    using sample_publishes by (simp only: sample_state_simps) blast
  have pg: "find_page (ps_pages (sample_state ALL_REQUIRED)) ''p1'' = Some sample_page"
    by (simp add: sample_find)
  have pol: "\<not> snd (requiresApproval (ps_access (sample_state ALL_REQUIRED)) (the (req_organizationId foreign_req))
        (lp_includeCompanyName sample_page))"
    by (simp add: foreign_req_def sample_state_def requiresApproval_def getOrgApprovalPolicy_def org_settings_def
        default_org_settings_def resolveApprovalPolicyFromSettings_def requiresPublishApproval_def Let_def)
  from publish_route_cross_tenant [OF _ _ _ _ pg _ _ pol p] show ?thesis
    by (simp add: foreign_req_def)
qed

theorem schedule_route_respects_policy_witness:
  "\<exists>st'. schedule_route sample_ctx owner_req ''p1'' 20000 sample_body (sample_state ALL_NO_APPROVAL) =
     (Response 202 ''scheduled'', st') \<and> ps_pages st' = sample_pages"
proof -
  obtain st' where r: "schedule_route sample_ctx owner_req ''p1'' 20000 sample_body (sample_state ALL_NO_APPROVAL) =
     (Response 202 ''scheduled'', st')"
    by (simp add: schedule_route_def requirePermission_def requirePageOwnerOrPermission_def Let_def sample_find
        requiresPublishApproval_def sample_ctx_def)
  from schedule_route_respects_policy [OF r] r show ?thesis by auto
qed

end
