(* ===== verification/Utc_Calendar.thy ===== *)
theory Utc_Calendar
  imports Prelude
begin

text \<open>
  The UTC calendar of JavaScript's \<open>Date\<close>, as ECMAScript specifies it on epoch milliseconds, and
  \<open>getUtcUsageWindow\<close> of \<open>src/services/ai-usage-logic.ts\<close>, which cuts time into days, weeks that start
  on Monday, and months. The locale \<open>time_window\<close> is what the users of such a window rely on: its
  start is not after the present, and it is the same for all times of one window.
\<close>

section \<open>Days, years and months\<close>

definition ms_per_day :: int where
  "ms_per_day = 86400000"

definition day_of :: "millis \<Rightarrow> int" where
  "day_of t = t div ms_per_day"

text \<open>\<open>DayFromYear\<close>: the day number of the first of January; 1970-01-01 is day 0.\<close>

definition day_from_year :: "int \<Rightarrow> int" where
  "day_from_year y =
     365 * (y - 1970) + (y - 1969) div 4 - (y - 1901) div 100 + (y - 1601) div 400"

definition leap_year :: "int \<Rightarrow> bool" where
  "leap_year y \<longleftrightarrow> y mod 4 = 0 \<and> (y mod 100 \<noteq> 0 \<or> y mod 400 = 0)"

lemma div_le_iff:
  fixes a d k :: int
  assumes "0 < k"
  shows "d * k \<le> a \<longleftrightarrow> d \<le> a div k"
proof
  assume "d * k \<le> a"
  then have "(d * k) div k \<le> a div k" using assms by (rule zdiv_mono1)
  with assms show "d \<le> a div k" by simp
next
  assume "d \<le> a div k"
  then have "d * k \<le> (a div k) * k" using assms by simp
  also have "\<dots> \<le> a" using div_mult_mod_eq [of a k] pos_mod_sign [OF assms, of a] by linarith
  finally show "d * k \<le> a" .
qed

lemma div_stable:
  fixes d e k :: int
  assumes "0 < k" and "(d div k) * k \<le> e" and "e \<le> d"
  shows "e div k = d div k"
  using assms div_le_iff [OF assms(1)] zdiv_mono1 [OF assms(3,1)] by (simp add: order_antisym)

lemma div_succ:
  fixes a k :: int
  assumes "1 < k"
  shows "(a + 1) div k = a div k + (if (a + 1) mod k = 0 then 1 else 0)"
proof -
  have "(a + 1) div k = a div k + 1 div k + (a mod k + 1 mod k) div k"
    by (rule div_add1_eq)
  moreover have "(a mod k + 1) div k = (if (a + 1) mod k = 0 then 1 else 0)"
  proof (cases "a mod k + 1 = k")
    case True
    then have "(a + 1) mod k = 0" by (metis mod_add_left_eq mod_self)
    with True assms show ?thesis by simp
  next
    case False
    have "0 \<le> a mod k" "a mod k < k" using assms by simp_all
    with False have lt: "a mod k + 1 < k" by simp
    then have "(a + 1) mod k = a mod k + 1"
      using \<open>0 \<le> a mod k\<close> by (metis mod_add_left_eq mod_pos_pos_trivial add_increasing2 zero_le_one)
    with lt \<open>0 \<le> a mod k\<close> show ?thesis by simp
  qed
  ultimately show ?thesis using assms by simp
qed

lemma year_length: "day_from_year (y + 1) = day_from_year y + (if leap_year y then 366 else 365)"
proof -
  have a: "(y - 1968) mod 4 = y mod 4" using mod_mult_self1 [of "y - 1968" 492 4] by simp
  have b: "(y - 1900) mod 100 = y mod 100" using mod_mult_self1 [of "y - 1900" 19 100] by simp
  have c: "(y - 1600) mod 400 = y mod 400" using mod_mult_self1 [of "y - 1600" 4 400] by simp
  have "(4 :: int) dvd 100" "(100 :: int) dvd 400" by simp_all
  then have ba: "y mod 100 = 0 \<Longrightarrow> y mod 4 = 0" and cb: "y mod 400 = 0 \<Longrightarrow> y mod 100 = 0"
    using dvd_trans by (auto simp: mod_eq_0_iff_dvd)
  have e: "y + 1 - 1969 = (y - 1969) + 1" "y + 1 - 1901 = (y - 1901) + 1" "y + 1 - 1601 = (y - 1601) + 1"
    "(y - 1969) + 1 = y - 1968" "(y - 1901) + 1 = y - 1900" "(y - 1601) + 1 = y - 1600" by simp_all
  have d4: "(y + 1 - 1969) div 4 = (y - 1969) div 4 + (if y mod 4 = 0 then 1 else 0)"
    unfolding e(1) using div_succ [of 4 "y - 1969"] by (simp add: e a)
  have d100: "(y + 1 - 1901) div 100 = (y - 1901) div 100 + (if y mod 100 = 0 then 1 else 0)"
    unfolding e(2) using div_succ [of 100 "y - 1901"] by (simp add: e b)
  have d400: "(y + 1 - 1601) div 400 = (y - 1601) div 400 + (if y mod 400 = 0 then 1 else 0)"
    unfolding e(3) using div_succ [of 400 "y - 1601"] by (simp add: e c)
  have "365 * (y + 1 - 1970) = 365 * (y - 1970) + 365" by simp
  then show ?thesis
    unfolding day_from_year_def leap_year_def d4 d100 d400
    by (cases "y mod 4 = 0"; cases "y mod 100 = 0"; cases "y mod 400 = 0") (use ba cb in simp_all)
qed

lemma year_length_bounds:
  "day_from_year y + 365 \<le> day_from_year (y + 1)" "day_from_year (y + 1) \<le> day_from_year y + 366"
  by (simp_all add: year_length)

lemma year_bounds_nat:
  "365 * int n \<le> day_from_year (y + int n) - day_from_year y"
  "day_from_year (y + int n) - day_from_year y \<le> 366 * int n"
proof (induction n)
  case (Suc n)
  have e: "y + int (Suc n) = (y + int n) + 1" by simp
  { case 1 show ?case using Suc year_length_bounds [of "y + int n"] unfolding e by simp }
  { case 2 show ?case using Suc year_length_bounds [of "y + int n"] unfolding e by simp }
qed simp_all

lemma day_from_year_mono: "y \<le> y' \<Longrightarrow> day_from_year y \<le> day_from_year y'"
  using year_bounds_nat(1) [of "nat (y' - y)" y] by simp

lemma day_from_1970 [simp]: "day_from_year 1970 = 0"
  by (simp add: day_from_year_def)

text \<open>
  \<open>YearFromTime\<close> is the largest year that starts no later than the day: an estimate from below, then
  year by year.
\<close>

function year_search :: "int \<Rightarrow> int \<Rightarrow> int" where
  "year_search d y = (if day_from_year (y + 1) \<le> d then year_search d (y + 1) else y)"
  by auto
termination
proof (relation "measure (\<lambda>(d, y). nat (d - day_from_year y))", goal_cases)
  case (2 d y)
  then show ?case using year_length_bounds(1) [of y] by simp
qed simp

declare year_search.simps [simp del]

definition year_from_day :: "int \<Rightarrow> int" where
  "year_from_day d = year_search d (1970 + (if 0 \<le> d then d div 366 else d div 365))"

lemma year_search_correct:
  "day_from_year y \<le> d \<Longrightarrow>
     day_from_year (year_search d y) \<le> d \<and> d < day_from_year (year_search d y + 1)"
proof (induction d y rule: year_search.induct)
  case (1 d y)
  then show ?case by (subst (1 2) year_search.simps) auto
qed

lemma year_estimate: "day_from_year (1970 + (if 0 \<le> d then d div 366 else d div 365)) \<le> d"
proof (cases "0 \<le> d")
  case True
  then show ?thesis
    using year_bounds_nat(2) [of 1970 "nat (d div 366)"] by (simp add: pos_imp_zdiv_nonneg_iff)
next
  case False
  then have "d div 365 < 0" by (simp add: neg_imp_zdiv_neg_iff)
  then show ?thesis
    using False year_bounds_nat(1) [where n = "nat (- (d div 365))" and y = "1970 + d div 365"] by simp
qed

lemma year_from_day_bounds:
  "day_from_year (year_from_day d) \<le> d" "d < day_from_year (year_from_day d + 1)"
  using year_search_correct [OF year_estimate] unfolding year_from_day_def by blast+

lemma year_from_day_eq:
  assumes "day_from_year y \<le> d" and "d < day_from_year (y + 1)"
  shows "year_from_day d = y"
proof -
  have "\<not> y + 1 \<le> year_from_day d" "\<not> year_from_day d + 1 \<le> y"
    using day_from_year_mono [of "y + 1" "year_from_day d"] day_from_year_mono [of "year_from_day d + 1" y]
      year_from_day_bounds [of d] assms by linarith+
  then show ?thesis by simp
qed

definition month_lengths :: "int \<Rightarrow> int list" where
  "month_lengths y = [31, if leap_year y then 29 else 28, 31, 30, 31, 30, 31, 31, 30, 31, 30, 31]"

text \<open>The month of a day of the year, and the days before a month.\<close>

fun month_walk :: "int \<Rightarrow> int list \<Rightarrow> nat" where
  "month_walk d [] = 0"
| "month_walk d (l # ls) = (if d < l then 0 else Suc (month_walk (d - l) ls))"

definition month_from_day :: "int \<Rightarrow> nat" where
  "month_from_day d =
     month_walk (d - day_from_year (year_from_day d)) (month_lengths (year_from_day d))"

definition days_before :: "int \<Rightarrow> nat \<Rightarrow> int" where
  "days_before y m = sum_list (take m (month_lengths y))"

text \<open>
  \<open>MakeDay\<close> and \<open>Date.UTC\<close>: the date may lie outside of the month, as after \<open>setUTCDate\<close> with a value
  below one.
\<close>

definition Date_UTC :: "int \<Rightarrow> nat \<Rightarrow> int \<Rightarrow> millis" where
  "Date_UTC y m dt = (day_from_year y + days_before y m + dt - 1) * ms_per_day"

definition getUTCFullYear :: "millis \<Rightarrow> int" where
  "getUTCFullYear t = year_from_day (day_of t)"

definition getUTCMonth :: "millis \<Rightarrow> nat" where
  "getUTCMonth t = month_from_day (day_of t)"

definition getUTCDate :: "millis \<Rightarrow> int" where
  "getUTCDate t =
     day_of t - day_from_year (getUTCFullYear t) - days_before (getUTCFullYear t) (getUTCMonth t) + 1"

definition getUTCDay :: "millis \<Rightarrow> int" where
  "getUTCDay t = (day_of t + 4) mod 7"

lemma month_walk_le: "0 \<le> d \<Longrightarrow> sum_list (take (month_walk d ls) ls) \<le> d"
  by (induction d ls rule: month_walk.induct) auto

lemma month_walk_stable:
  "list_all (\<lambda>l. 0 \<le> l) ls \<Longrightarrow> sum_list (take (month_walk d ls) ls) \<le> d' \<Longrightarrow> d' \<le> d \<Longrightarrow>
     month_walk d' ls = month_walk d ls"
proof (induction d ls arbitrary: d' rule: month_walk.induct)
  case (2 d l ls)
  show ?case
  proof (cases "d < l")
    case False
    have "list_all (\<lambda>l. 0 \<le> l) (take (month_walk (d - l) ls) ls)"
      using "2.prems"(1) by (auto simp: list_all_iff dest: in_set_takeD)
    then have "0 \<le> sum_list (take (month_walk (d - l) ls) ls)"
      by (auto simp: list_all_iff intro: sum_list_nonneg)
    with False "2.prems" "2.IH" [OF False, of "d' - l"] show ?thesis by simp
  qed (use "2.prems" in simp)
qed simp

lemma month_lengths_nonneg: "list_all (\<lambda>l. 0 \<le> l) (month_lengths y)"
  by (simp add: month_lengths_def)

section \<open>The usage window\<close>

record UsageWindowBounds =
  startOfDay :: millis
  startOfWeek :: millis
  startOfMonth :: millis
  startOfTomorrow :: millis

definition getUtcUsageWindow :: "millis \<Rightarrow> UsageWindowBounds" where
  "getUtcUsageWindow now =
     (let sd = Date_UTC (getUTCFullYear now) (getUTCMonth now) (getUTCDate now);
          sm = Date_UTC (getUTCFullYear now) (getUTCMonth now) 1;
          daysSinceMonday = (getUTCDay now + 6) mod 7;
          sw = Date_UTC (getUTCFullYear sd) (getUTCMonth sd) (getUTCDate sd - daysSinceMonday)
      in \<lparr> startOfDay = sd, startOfWeek = sw, startOfMonth = sm,
           startOfTomorrow = sd + 24 * 60 * 60 * 1000 \<rparr>)"

lemma day_of_mult [simp]: "day_of (d * ms_per_day) = d"
  by (simp add: day_of_def ms_per_day_def)

lemma startOfDay_eq: "startOfDay (getUtcUsageWindow t) = day_of t * ms_per_day"
  by (simp add: getUtcUsageWindow_def Let_def Date_UTC_def getUTCDate_def)

lemma startOfTomorrow_eq: "startOfTomorrow (getUtcUsageWindow t) = (day_of t + 1) * ms_per_day"
  by (simp add: getUtcUsageWindow_def Let_def Date_UTC_def getUTCDate_def ms_per_day_def)

lemma startOfWeek_eq:
  "startOfWeek (getUtcUsageWindow t) = (day_of t - (day_of t + 3) mod 7) * ms_per_day"
proof -
  have "((day_of t + 4) mod 7 + 6) mod 7 = (day_of t + 3) mod 7" by presburger
  then show ?thesis
    by (simp add: getUtcUsageWindow_def Let_def Date_UTC_def getUTCDate_def getUTCDay_def)
qed

lemma startOfMonth_eq:
  "startOfMonth (getUtcUsageWindow t) =
     (day_from_year (getUTCFullYear t) + days_before (getUTCFullYear t) (getUTCMonth t)) * ms_per_day"
  by (simp add: getUtcUsageWindow_def Let_def Date_UTC_def)

lemma day_of_bounds: "day_of t * ms_per_day \<le> t" "t < (day_of t + 1) * ms_per_day"
  using div_mult_mod_eq [of t ms_per_day] pos_mod_sign [of ms_per_day t] pos_mod_bound [of ms_per_day t]
  unfolding day_of_def by (simp_all add: ms_per_day_def distrib_right)

lemma day_of_mono: "s \<le> t \<Longrightarrow> day_of s \<le> day_of t"
  by (simp add: day_of_def ms_per_day_def zdiv_mono1)

lemma le_day_of_iff: "d * ms_per_day \<le> t \<longleftrightarrow> d \<le> day_of t"
  unfolding day_of_def by (rule div_le_iff) (simp add: ms_per_day_def)

lemma month_first_le: "day_from_year (getUTCFullYear t) + days_before (getUTCFullYear t) (getUTCMonth t) \<le> day_of t"
  using month_walk_le [of "day_of t - day_from_year (getUTCFullYear t)" "month_lengths (getUTCFullYear t)"]
    year_from_day_bounds(1) [of "day_of t"]
  by (simp add: days_before_def getUTCMonth_def month_from_day_def getUTCFullYear_def)

lemma month_stable:
  assumes "day_from_year (getUTCFullYear t) + days_before (getUTCFullYear t) (getUTCMonth t) \<le> day_of s"
    and "s \<le> t"
  shows "getUTCFullYear s = getUTCFullYear t" and "getUTCMonth s = getUTCMonth t"
proof -
  have "0 \<le> days_before (getUTCFullYear t) (getUTCMonth t)"
    unfolding days_before_def using month_lengths_nonneg [of "getUTCFullYear t"]
    by (auto simp: list_all_iff dest: in_set_takeD intro!: sum_list_nonneg)
  then show y: "getUTCFullYear s = getUTCFullYear t"
    unfolding getUTCFullYear_def
    using assms day_of_mono [OF assms(2)] year_from_day_bounds(2) [of "day_of t"]
    by (intro year_from_day_eq) (auto simp: getUTCFullYear_def)
  show "getUTCMonth s = getUTCMonth t"
    using assms(1) day_of_mono [OF assms(2)] y
      month_walk_stable [OF month_lengths_nonneg [of "getUTCFullYear t"],
        of "day_of t - day_from_year (getUTCFullYear t)" "day_of s - day_from_year (getUTCFullYear t)"]
    by (simp add: getUTCMonth_def month_from_day_def getUTCFullYear_def days_before_def)
qed

section \<open>Windows\<close>

locale time_window =
  fixes start :: "millis \<Rightarrow> millis"
  assumes start_le: "start t \<le> t"
    and start_stable: "start t \<le> s \<Longrightarrow> s \<le> t \<Longrightarrow> start s = start t"
begin

lemma start_idem: "start (start t) = start t"
  by (rule start_stable) (auto simp: start_le)

lemma start_mono:
  assumes "s \<le> t"
  shows "start s \<le> start t"
proof (cases "start t \<le> s")
  case True
  then show ?thesis using start_stable assms by simp
next
  case False
  then show ?thesis using start_le [of s] by linarith
qed

end

interpretation daily: time_window "\<lambda>t. startOfDay (getUtcUsageWindow t)"
proof
  show "startOfDay (getUtcUsageWindow t) \<le> t" for t
    unfolding startOfDay_eq by (rule day_of_bounds)
  show "startOfDay (getUtcUsageWindow s) = startOfDay (getUtcUsageWindow t)"
    if "startOfDay (getUtcUsageWindow t) \<le> s" "s \<le> t" for s t
    using that day_of_mono [OF that(2)] unfolding startOfDay_eq le_day_of_iff by simp
qed

interpretation weekly: time_window "\<lambda>t. startOfWeek (getUtcUsageWindow t)"
proof
  have m: "0 \<le> (d + 3) mod 7" for d :: int by simp
  show "startOfWeek (getUtcUsageWindow t) \<le> t" for t
    unfolding startOfWeek_eq le_day_of_iff using m [of "day_of t"] by linarith
  show "startOfWeek (getUtcUsageWindow s) = startOfWeek (getUtcUsageWindow t)"
    if "startOfWeek (getUtcUsageWindow t) \<le> s" "s \<le> t" for s t
  proof -
    have m: "d - (d + 3) mod 7 = (d + 3) div 7 * 7 - 3" for d :: int
      using div_mult_mod_eq [of "d + 3" 7] by linarith
    have "e - (e + 3) mod 7 = d - (d + 3) mod 7" if "d - (d + 3) mod 7 \<le> e" "e \<le> d" for d e :: int
      using that div_stable [of 7 "d + 3" "e + 3"] unfolding m by simp
    then show ?thesis
      using that day_of_mono [OF that(2)] unfolding startOfWeek_eq le_day_of_iff by simp
  qed
qed

interpretation monthly: time_window "\<lambda>t. startOfMonth (getUtcUsageWindow t)"
proof
  show "startOfMonth (getUtcUsageWindow t) \<le> t" for t
    unfolding startOfMonth_eq le_day_of_iff by (rule month_first_le)
  show "startOfMonth (getUtcUsageWindow s) = startOfMonth (getUtcUsageWindow t)"
    if "startOfMonth (getUtcUsageWindow t) \<le> s" "s \<le> t" for s t
    using that month_stable [of t s] unfolding startOfMonth_eq le_day_of_iff by simp
qed

text \<open>
  The window of \<open>getUtcUsageWindow\<close>: the present lies in the day, the week starts on a Monday at
  midnight less than seven days before the end of the day, and the month starts on its first day, in
  the month and year of the present.
\<close>

theorem usage_window_correct:
  "startOfDay (getUtcUsageWindow now) \<le> now \<and> now < startOfTomorrow (getUtcUsageWindow now) \<and>
   getUTCDay (startOfWeek (getUtcUsageWindow now)) = 1 \<and>
   startOfWeek (getUtcUsageWindow now) \<le> now \<and> now < startOfWeek (getUtcUsageWindow now) + 7 * ms_per_day \<and>
   getUTCDate (startOfMonth (getUtcUsageWindow now)) = 1 \<and>
   getUTCMonth (startOfMonth (getUtcUsageWindow now)) = getUTCMonth now \<and>
   getUTCFullYear (startOfMonth (getUtcUsageWindow now)) = getUTCFullYear now \<and>
   startOfMonth (getUtcUsageWindow now) \<le> startOfDay (getUtcUsageWindow now)"
proof (intro conjI)
  let ?m = "startOfMonth (getUtcUsageWindow now)"
  have d: "day_of ?m = day_from_year (getUTCFullYear now) + days_before (getUTCFullYear now) (getUTCMonth now)"
    by (simp add: startOfMonth_eq)
  have st: "getUTCFullYear ?m = getUTCFullYear now" "getUTCMonth ?m = getUTCMonth now"
    using month_stable [of now ?m] monthly.start_le [of now] d by simp_all
  then show "getUTCFullYear ?m = getUTCFullYear now" "getUTCMonth ?m = getUTCMonth now"
    "getUTCDate ?m = 1" by (simp_all add: getUTCDate_def d)
  show "?m \<le> startOfDay (getUtcUsageWindow now)"
    using month_first_le [of now] by (simp add: startOfMonth_eq startOfDay_eq ms_per_day_def)
  show "now < startOfTomorrow (getUtcUsageWindow now)"
    by (simp add: startOfTomorrow_eq day_of_bounds)
  have "(d - (d + 3) mod 7 + 4) mod 7 = 1" for d :: int by presburger
  then show "getUTCDay (startOfWeek (getUtcUsageWindow now)) = 1"
    by (simp add: startOfWeek_eq getUTCDay_def)
  have "d + 1 \<le> d - (d + 3) mod 7 + 7" for d :: int by presburger
  from this [of "day_of now"] show "now < startOfWeek (getUtcUsageWindow now) + 7 * ms_per_day"
    using day_of_bounds(2) [of now] by (simp add: startOfWeek_eq ms_per_day_def)
qed (rule daily.start_le weekly.start_le)+

end
