(* ===== verification/Dedup.thy ===== *)
theory Dedup
  imports Js_Map
begin

text \<open>
  De-duplication windows. Two parts of the program remember keys for a while so that a repeated
  delivery has no second effect: the webhook idempotency map
  (\<open>src/lib/webhook-idempotency.ts\<close>, modelled here) and the charge keys of the AI usage tracker
  (\<open>Ai_Usage\<close>). The locale \<open>ttl_dedup\<close> states the contract both keep; its client lemma says that
  two accepted offers of one key are at least a window apart, over any run with a clock that does
  not go back.
\<close>

section \<open>The contract\<close>

text \<open>The state after a sequence of timed offers, and the answers along the way.\<close>

definition dedup_state :: "(millis \<Rightarrow> 'k \<Rightarrow> 'm \<Rightarrow> bool \<times> 'm) \<Rightarrow> (millis \<times> 'k) list \<Rightarrow> 'm \<Rightarrow> 'm" where
  "dedup_state offer ops m = fold (\<lambda>(t, k) m. snd (offer t k m)) ops m"

lemma dedup_state_simps [simp]:
  "dedup_state offer [] m = m"
  "dedup_state offer ((t, k) # ops) m = dedup_state offer ops (snd (offer t k m))"
  "dedup_state offer (ops @ ops') m = dedup_state offer ops' (dedup_state offer ops m)"
  by (simp_all add: dedup_state_def)

locale ttl_dedup =
  fixes seen :: "'m \<Rightarrow> millis \<Rightarrow> 'k \<Rightarrow> bool"
    and offer :: "millis \<Rightarrow> 'k \<Rightarrow> 'm \<Rightarrow> bool \<times> 'm"
    and window :: int
    and ok :: "'m \<Rightarrow> bool"
  assumes ok_offer: "ok m \<Longrightarrow> ok (snd (offer t k m))"
    and offer_answer: "ok m \<Longrightarrow> fst (offer t k m) \<longleftrightarrow> \<not> seen m t k"
    and seen_earlier: "ok m \<Longrightarrow> seen m t' k \<Longrightarrow> t \<le> t' \<Longrightarrow> seen m t k"
    and seen_accepted: "ok m \<Longrightarrow> fst (offer t k m) \<Longrightarrow> t \<le> t' \<Longrightarrow>
      seen (snd (offer t k m)) t' k \<longleftrightarrow> t' < t + window"
    and seen_kept: "ok m \<Longrightarrow> k' \<noteq> k \<or> \<not> fst (offer t k m) \<Longrightarrow> t \<le> t' \<Longrightarrow>
      seen (snd (offer t k m)) t' k' \<longleftrightarrow> seen m t' k'"
begin

lemma ok_state: "ok m \<Longrightarrow> ok (dedup_state offer ops m)"
  by (induction ops arbitrary: m) (auto simp: ok_offer)

text \<open>A key that is seen at a time stays seen at that time while only earlier offers run.\<close>

lemma seen_through:
  assumes "ok m" and "seen m T k" and "\<forall>(t, k') \<in> set ops. t \<le> T"
  shows "seen (dedup_state offer ops m) T k"
  using assms
proof (induction ops arbitrary: m)
  case Nil
  then show ?case by simp
next
  case (Cons op ops)
  obtain t k' where op: "op = (t, k')" by (cases op)
  with Cons.prems have t: "t \<le> T" by simp
  have "k \<noteq> k' \<or> \<not> fst (offer t k' m)"
    using seen_earlier [OF Cons.prems(1,2) t] offer_answer [OF Cons.prems(1)] by auto
  then have "seen (snd (offer t k' m)) T k"
    using seen_kept [OF Cons.prems(1) _ t, of k k'] Cons.prems(2) by simp
  then show ?case
    using Cons.IH [OF ok_offer [OF Cons.prems(1)]] Cons.prems(3) op by simp
qed

lemma accepted_spacing:
  assumes "ok m" and "\<forall>(u, k') \<in> set mid. u \<le> t'" and "t \<le> t'"
    and first: "fst (offer t k (dedup_state offer pre m))"
    and second: "fst (offer t' k (dedup_state offer (pre @ (t, k) # mid) m))"
  shows "t + window \<le> t'"
proof (rule ccontr)
  assume "\<not> t + window \<le> t'"
  let ?m = "dedup_state offer pre m"
  have ok: "ok ?m" by (rule ok_state [OF assms(1)])
  have "seen (snd (offer t k ?m)) t' k"
    using seen_accepted [OF ok first assms(3)] \<open>\<not> t + window \<le> t'\<close> by simp
  then have "seen (dedup_state offer mid (snd (offer t k ?m))) t' k"
    by (rule seen_through [OF ok_offer [OF ok] _ assms(2)])
  then show False
    using second offer_answer [OF ok_state [OF ok_offer [OF ok]]] by simp
qed

end

section \<open>The expiring map both instances use\<close>

text \<open>
  A map from keys to expiry times; entries whose expiry is not after the current time are pruned
  first. \<open>em_seen m t k\<close>: the key has an expiry after \<open>t\<close>.
\<close>

definition em_seen :: "(string, millis) jsmap \<Rightarrow> millis \<Rightarrow> string \<Rightarrow> bool" where
  "em_seen m t k = (case jm_get m k of None \<Rightarrow> False | Some e \<Rightarrow> e > t)"

definition em_prune :: "millis \<Rightarrow> (string, millis) jsmap \<Rightarrow> (string, millis) jsmap" where
  "em_prune now m = jm_prune (\<lambda>e. e \<le> now) m"

lemma em_prune_get:
  "jm_wf m \<Longrightarrow> jm_get (em_prune now m) k =
     (case jm_get m k of None \<Rightarrow> None | Some e \<Rightarrow> if e > now then Some e else None)"
  by (auto simp: em_prune_def jm_get_prune split: option.splits)

lemma em_prune_wf: "jm_wf m \<Longrightarrow> jm_wf (em_prune now m)"
  by (simp add: em_prune_def jm_prune_wf)

lemma em_seen_prune: "jm_wf m \<Longrightarrow> t \<le> t' \<Longrightarrow> em_seen (em_prune t m) t' k = em_seen m t' k"
  by (auto simp: em_seen_def em_prune_get split: option.splits)

lemma em_seen_set:
  "jm_wf m \<Longrightarrow> em_seen (jm_set k e m) t k' = (if k' = k then e > t else em_seen m t k')"
  by (simp add: em_seen_def jm.get_put)

lemma em_seen_earlier: "em_seen m t' k \<Longrightarrow> t \<le> t' \<Longrightarrow> em_seen m t k"
  by (auto simp: em_seen_def split: option.splits)

section \<open>Webhook idempotency\<close>

text \<open>\<open>pruneFallback\<close> is \<open>em_prune\<close>: the loop over \<open>fallbackMap.entries()\<close>.\<close>

definition pruneFallback :: "millis \<Rightarrow> (string, millis) jsmap \<Rightarrow> (string, millis) jsmap" where
  "pruneFallback nowMs fallbackMap = em_prune nowMs fallbackMap"

text \<open>\<open>Math.ceil(ttlMs / 1000)\<close> on an integer number of milliseconds.\<close>

definition ceil_seconds :: "int \<Rightarrow> int" where
  "ceil_seconds ms = - ((- ms) div 1000)"

text \<open>
  \<open>markWebhookEventIfNew\<close>. \<open>redis\<close> is the client: \<open>None\<close> when no connection is available, else the
  outcome of \<open>SET key 1 NX EX seconds\<close> (\<open>True\<close> when the key was set). The fallback map is the state.
\<close>

definition markWebhookEventIfNew ::
  "(string \<Rightarrow> int \<Rightarrow> bool) option \<Rightarrow> millis \<Rightarrow> int \<Rightarrow> string \<Rightarrow> (string, millis) jsmap \<Rightarrow>
     bool \<times> (string, millis) jsmap" where
  "markWebhookEventIfNew redis now ttl key fallbackMap =
     (let normalizedKey = trim key in
      if normalizedKey = [] then (True, fallbackMap)
      else case redis of
        Some setNX \<Rightarrow>
          (setNX (''webhook:idempotency:'' @ normalizedKey) (max 1 (ceil_seconds ttl)), fallbackMap)
      | None \<Rightarrow>
          (let m = pruneFallback now fallbackMap in
           case jm_get m normalizedKey of
             Some existing \<Rightarrow>
               if existing \<noteq> 0 \<and> existing > now then (False, m)
               else (True, jm_set normalizedKey (now + max 1000 ttl) m)
           | None \<Rightarrow> (True, jm_set normalizedKey (now + max 1000 ttl) m)))"

text \<open>
  The in-memory path on a key that is already trimmed and not empty. Times are those of
  \<open>Date.now()\<close>, so an expiry of 0 is never in the future.
\<close>

lemma mark_local:
  assumes "jm_wf m" and "0 \<le> now" and "trim k \<noteq> []"
  shows "markWebhookEventIfNew None now ttl k m =
    (let m' = em_prune now m in
     if em_seen m now (trim k) then (False, m') else (True, jm_set (trim k) (now + max 1000 ttl) m'))"
  using assms
  by (auto simp: markWebhookEventIfNew_def Let_def pruneFallback_def em_prune_get em_seen_def
      split: option.splits)

text \<open>Offers at times before the epoch never occur; the contract clamps them to it.\<close>

definition wh_offer ::
  "int \<Rightarrow> millis \<Rightarrow> string \<Rightarrow> (string, millis) jsmap \<Rightarrow> bool \<times> (string, millis) jsmap" where
  "wh_offer ttl now k m =
     (let m' = em_prune now m in
      if em_seen m now k then (False, m') else (True, jm_set k (now + max 1000 ttl) m'))"

lemma mark_is_wh_offer:
  "jm_wf m \<Longrightarrow> 0 \<le> now \<Longrightarrow> trim k \<noteq> [] \<Longrightarrow>
     markWebhookEventIfNew None now ttl k m = wh_offer ttl now (trim k) m"
  by (simp add: mark_local wh_offer_def)

interpretation wh: ttl_dedup em_seen "wh_offer ttl" "max 1000 ttl" jm_wf for ttl
proof (unfold_locales, goal_cases)
  case (1 m t k)
  then show ?case by (simp add: wh_offer_def Let_def em_prune_wf jm.wf_put)
next
  case (3 m t' k t)
  then show ?case by (simp add: em_seen_earlier)
next
  case (5 m k' k t t')
  then show ?case
    by (auto simp: wh_offer_def Let_def em_seen_prune em_seen_set em_prune_wf split: if_splits)
qed (auto simp: wh_offer_def Let_def em_seen_set em_prune_wf split: if_splits)

section \<open>Properties\<close>

text \<open>A run of webhook deliveries \<open>(time, raw key)\<close> through the in-memory path.\<close>

definition webhook_run :: "int \<Rightarrow> (millis \<times> string) list \<Rightarrow> (string, millis) jsmap \<Rightarrow> (string, millis) jsmap" where
  "webhook_run ttl ops m = fold (\<lambda>(t, k) m. snd (markWebhookEventIfNew None t ttl k m)) ops m"

lemma webhook_run_simps [simp]:
  "webhook_run ttl [] m = m"
  "webhook_run ttl ((t, k) # ops) m =
     webhook_run ttl ops (snd (markWebhookEventIfNew None t ttl k m))"
  by (simp_all add: webhook_run_def)

lemma mark_blank: "trim k = [] \<Longrightarrow> markWebhookEventIfNew redis now ttl k m = (True, m)"
  by (simp add: markWebhookEventIfNew_def Let_def)

lemma webhook_run_dedup:
  assumes "jm_wf m" and "\<forall>(t, k) \<in> set ops. 0 \<le> t"
  shows "webhook_run ttl ops m =
    dedup_state (wh_offer ttl) (map (\<lambda>(t, k). (t, trim k)) (filter (\<lambda>(t, k). trim k \<noteq> []) ops)) m"
  using assms
proof (induction ops arbitrary: m)
  case Nil
  then show ?case by simp
next
  case (Cons op ops)
  obtain t k where op: "op = (t, k)" by (cases op)
  show ?case
  proof (cases "trim k = []")
    case True
    with Cons op show ?thesis by (simp add: mark_blank)
  next
    case False
    then have step: "markWebhookEventIfNew None t ttl k m = wh_offer ttl t (trim k) m"
      using Cons.prems op by (simp add: mark_is_wh_offer)
    have "jm_wf (snd (wh_offer ttl t (trim k) m))"
      using Cons.prems(1) by (rule wh.ok_offer)
    with Cons op step False show ?thesis by simp
  qed
qed



end
