(* ===== verification/Ai_Usage.thy ===== *)
theory Ai_Usage
  imports Role_Profiles Utc_Calendar Dedup
begin

text \<open>
  \<open>src/services/ai-usage-logic.ts\<close>, \<open>ai-usage-tracker.ts\<close> and \<open>ai-usage-alerts.ts\<close>: what a user has
  consumed in the current day, week and month, the limits on it, the prepaid balance with its ledger of
  transactions, and the notifications about thresholds. Sums of money (\<open>costCents\<close>, a \<open>Float\<close> column) and
  quotients are exact reals; \<open>Math.round\<close> and \<open>Math.ceil\<close> are the integer functions on them.
\<close>

section \<open>Tables\<close>

datatype AIOperation =
  STORY_GENERATION | QUOTE_EXTRACTION | TRANSCRIPT_TAGGING | RAG_QUERY | EMBEDDING

datatype AITransactionType = CREDIT | DEBIT | REFUND

record AIUsageRecord =
  ur_organizationId :: ident
  ur_userId :: ident
  ur_provider :: string
  ur_model :: string
  ur_operation :: AIOperation
  ur_inputTokens :: int
  ur_outputTokens :: int
  ur_totalTokens :: int
  ur_costCents :: real
  ur_createdAt :: millis

record UserAIBalance =
  ub_id :: ident
  ub_organizationId :: ident
  ub_userId :: ident
  ub_balanceCents :: int
  ub_lifetimeSpentCents :: int

record UserAITransaction =
  ut_balanceId :: ident
  ut_type :: AITransactionType
  ut_amountCents :: int
  ut_description :: string

record AIUsageNotification =
  un_id :: ident
  un_organizationId :: ident
  un_userId :: ident
  un_limitType :: string
  un_thresholdPct :: int
  un_currentUsage :: int
  un_limitValue :: int
  un_message :: string
  un_acknowledged :: bool
  un_createdAt :: millis

record ModelPricing =
  mp_provider :: string
  mp_modelId :: string
  mp_inputCostPer1kTokens :: real
  mp_outputCostPer1kTokens :: real

text \<open>The fields of an organization's decoded governance policy that concern the AI budget.\<close>

datatype AIBudgetMode = TOKENS | COST_CENTS

record AIBudgetPolicy =
  ai_spend_alert_daily_cents :: "int option"
  ai_budget_mode :: "AIBudgetMode option"
  ai_budget_monthly_tokens :: "int option"
  ai_budget_monthly_cents :: "int option"
  ai_budget_thresholds :: "int list option"

definition no_budget_policy :: AIBudgetPolicy where
  "no_budget_policy =
     \<lparr> ai_spend_alert_daily_cents = None, ai_budget_mode = None, ai_budget_monthly_tokens = None,
       ai_budget_monthly_cents = None, ai_budget_thresholds = None \<rparr>"

text \<open>The tables the tracker uses, and its in-memory map of charge keys.\<close>

record UsageDb =
  ud_records :: "AIUsageRecord list"
  ud_balances :: "UserAIBalance list"
  ud_transactions :: "UserAITransaction list"
  ud_notifications :: "AIUsageNotification list"
  ud_limits :: "AIUsageLimit list"
  ud_pricing :: "ModelPricing list"
  ud_policies :: "(ident \<times> AIBudgetPolicy) list"
  ud_users :: "User list"
  ud_chargeKeys :: "(string, millis) jsmap"

definition js_round :: "real \<Rightarrow> int" where
  "js_round x = \<lfloor>x + 1/2\<rfloor>"

section \<open>Usage and limits\<close>

record UsageSummary =
  dailyTokens :: int
  weeklyTokens :: int
  monthlyTokens :: int
  dailyRequests :: int
  weeklyRequests :: int
  monthlyRequests :: int
  weeklyStories :: int
  monthlyStories :: int

definition records_since :: "ident \<Rightarrow> ident \<Rightarrow> millis \<Rightarrow> AIUsageRecord list \<Rightarrow> AIUsageRecord list" where
  "records_since org userId since rows =
     filter (\<lambda>r. ur_organizationId r = org \<and> ur_userId r = userId \<and> since \<le> ur_createdAt r) rows"

definition tokens_of :: "AIUsageRecord list \<Rightarrow> int" where
  "tokens_of rows = sum_list (map ur_totalTokens rows)"

definition stories_of :: "AIUsageRecord list \<Rightarrow> int" where
  "stories_of rows = int (count_rows (\<lambda>r. ur_operation r = STORY_GENERATION) rows)"

definition getCurrentUsage :: "millis \<Rightarrow> ident \<Rightarrow> ident \<Rightarrow> UsageDb \<Rightarrow> UsageSummary" where
  "getCurrentUsage now org userId db =
     (let w = getUtcUsageWindow now;
          day = records_since org userId (startOfDay w) (ud_records db);
          week = records_since org userId (startOfWeek w) (ud_records db);
          month = records_since org userId (startOfMonth w) (ud_records db)
      in \<lparr> dailyTokens = tokens_of day, weeklyTokens = tokens_of week, monthlyTokens = tokens_of month,
           dailyRequests = int (length day), weeklyRequests = int (length week),
           monthlyRequests = int (length month),
           weeklyStories = stories_of week, monthlyStories = stories_of month \<rparr>)"

text \<open>\<open>getEffectiveLimit\<close>: the user's own row, else the organization's default row.\<close>

definition getEffectiveLimit :: "ident \<Rightarrow> ident \<Rightarrow> UsageDb \<Rightarrow> AIUsageLimit option" where
  "getEffectiveLimit org userId db =
     (case List.find (\<lambda>l. lim_organizationId l = org \<and> lim_userId l = Some userId) (ud_limits db) of
        Some l \<Rightarrow> Some l
      | None \<Rightarrow> List.find (\<lambda>l. lim_organizationId l = org \<and> lim_userId l = None) (ud_limits db))"

record UsageLimits =
  maxTokensPerWeek' :: "int option"
  maxTokensPerDay' :: "int option"
  maxTokensPerMonth' :: "int option"
  maxRequestsPerWeek' :: "int option"
  maxRequestsPerDay' :: "int option"
  maxRequestsPerMonth' :: "int option"
  maxStoriesPerWeek' :: "int option"
  maxStoriesPerMonth' :: "int option"

definition buildUsageLimits :: "AIUsageLimit option \<Rightarrow> UsageLimits" where
  "buildUsageLimits limit =
     \<lparr> maxTokensPerWeek' = Option.bind limit lim_maxTokensPerWeek,
       maxTokensPerDay' = Option.bind limit lim_maxTokensPerDay,
       maxTokensPerMonth' = Option.bind limit lim_maxTokensPerMonth,
       maxRequestsPerWeek' = Option.bind limit lim_maxRequestsPerWeek,
       maxRequestsPerDay' = Option.bind limit lim_maxRequestsPerDay,
       maxRequestsPerMonth' = Option.bind limit lim_maxRequestsPerMonth,
       maxStoriesPerWeek' = Option.bind limit lim_maxStoriesPerWeek,
       maxStoriesPerMonth' = Option.bind limit lim_maxStoriesPerMonth \<rparr>"

text \<open>The reason of a refusal names the limit, the consumption and the maximum of the message.\<close>

datatype LimitKind =
  Weekly_token | Daily_token | Monthly_token | Weekly_request | Daily_request | Monthly_request |
  Weekly_story | Monthly_case_study

record LimitStatus =
  ls_allowed :: bool
  ls_reason :: "(LimitKind \<times> int \<times> int) option"
  ls_usage :: UsageSummary
  ls_limits :: UsageLimits
  ls_balance :: "(int \<times> int) option"

definition reached :: "int option \<Rightarrow> int \<Rightarrow> bool" where
  "reached limit current = (case limit of None \<Rightarrow> False | Some m \<Rightarrow> m \<le> current)"

definition evaluateLimitStatus :: "UsageSummary \<Rightarrow> UsageLimits \<Rightarrow> (int \<times> int) option \<Rightarrow> LimitStatus" where
  "evaluateLimitStatus usage limits balance =
     (let refuse = (\<lambda>kind current limit.
            \<lparr> ls_allowed = False, ls_reason = Some (kind, current, the limit), ls_usage = usage,
              ls_limits = limits, ls_balance = balance \<rparr>) in
      if reached (maxTokensPerWeek' limits) (weeklyTokens usage)
      then refuse Weekly_token (weeklyTokens usage) (maxTokensPerWeek' limits)
      else if reached (maxTokensPerDay' limits) (dailyTokens usage)
      then refuse Daily_token (dailyTokens usage) (maxTokensPerDay' limits)
      else if reached (maxTokensPerMonth' limits) (monthlyTokens usage)
      then refuse Monthly_token (monthlyTokens usage) (maxTokensPerMonth' limits)
      else if reached (maxRequestsPerWeek' limits) (weeklyRequests usage)
      then refuse Weekly_request (weeklyRequests usage) (maxRequestsPerWeek' limits)
      else if reached (maxRequestsPerDay' limits) (dailyRequests usage)
      then refuse Daily_request (dailyRequests usage) (maxRequestsPerDay' limits)
      else if reached (maxRequestsPerMonth' limits) (monthlyRequests usage)
      then refuse Monthly_request (monthlyRequests usage) (maxRequestsPerMonth' limits)
      else if reached (maxStoriesPerWeek' limits) (weeklyStories usage)
      then refuse Weekly_story (weeklyStories usage) (maxStoriesPerWeek' limits)
      else if reached (maxStoriesPerMonth' limits) (monthlyStories usage)
      then refuse Monthly_case_study (monthlyStories usage) (maxStoriesPerMonth' limits)
      else \<lparr> ls_allowed = True, ls_reason = None, ls_usage = usage, ls_limits = limits,
             ls_balance = balance \<rparr>)"

definition find_balance :: "ident \<Rightarrow> ident \<Rightarrow> UsageDb \<Rightarrow> UserAIBalance option" where
  "find_balance org userId db =
     List.find (\<lambda>b. ub_organizationId b = org \<and> ub_userId b = userId) (ud_balances db)"

definition getLimitStatus :: "millis \<Rightarrow> ident \<Rightarrow> ident \<Rightarrow> UsageDb \<Rightarrow> LimitStatus" where
  "getLimitStatus now org userId db =
     evaluateLimitStatus (getCurrentUsage now org userId db)
       (buildUsageLimits (getEffectiveLimit org userId db))
       (map_option (\<lambda>b. (ub_balanceCents b, ub_lifetimeSpentCents b)) (find_balance org userId db))"

datatype UsageError =
  UsageLimitExceeded "(LimitKind \<times> int \<times> int) option" | InsufficientBalance | ProviderFailed

definition enforceLimit :: "millis \<Rightarrow> ident \<Rightarrow> ident \<Rightarrow> UsageDb \<Rightarrow> (UsageError, unit) res" where
  "enforceLimit now org userId db =
     (let status = getLimitStatus now org userId db in
      if ls_allowed status then Inr () else Inl (UsageLimitExceeded (ls_reason status)))"

definition enforceBalance :: "ident \<Rightarrow> ident \<Rightarrow> UsageDb \<Rightarrow> (UsageError, unit) res" where
  "enforceBalance org userId db =
     (case find_balance org userId db of
        None \<Rightarrow> Inr ()
      | Some b \<Rightarrow> if ub_balanceCents b \<le> 0 then Inl InsufficientBalance else Inr ())"

section \<open>Cost and balance\<close>

definition computeCost :: "string \<Rightarrow> string \<Rightarrow> int \<Rightarrow> int \<Rightarrow> UsageDb \<Rightarrow> real" where
  "computeCost provider model inputTokens outputTokens db =
     (case List.find (\<lambda>p. mp_provider p = provider \<and> mp_modelId p = model) (ud_pricing db) of
        None \<Rightarrow> 0
      | Some p \<Rightarrow>
          of_int (js_round ((of_int inputTokens / 1000 * mp_inputCostPer1kTokens p +
                             of_int outputTokens / 1000 * mp_outputCostPer1kTokens p) * 100)) / 100)"

definition charged_cents :: "real \<Rightarrow> int" where
  "charged_cents amountCents = \<lceil>of_int (js_round (amountCents * 100)) / 100 :: real\<rceil>"

definition deductBalance :: "ident \<Rightarrow> ident \<Rightarrow> real \<Rightarrow> string \<Rightarrow> UsageDb \<Rightarrow> UsageDb" where
  "deductBalance org userId amountCents descr db =
     (case find_balance org userId db of
        None \<Rightarrow> db
      | Some b \<Rightarrow>
          let c = charged_cents amountCents in
          db\<lparr> ud_balances := update_many (\<lambda>r. ub_id r = ub_id b)
                (\<lambda>r. r\<lparr> ub_balanceCents := ub_balanceCents r - c,
                       ub_lifetimeSpentCents := ub_lifetimeSpentCents r + c \<rparr>) (ud_balances db),
              ud_transactions := ud_transactions db @
                [\<lparr> ut_balanceId = ub_id b, ut_type = DEBIT, ut_amountCents = c,
                   ut_description = descr \<rparr>] \<rparr>)"

text \<open>
  The default description ends in \<open>(amountCents / 100).toFixed(2)\<close>, passed in as \<open>toFixed\<close>.
\<close>

definition addBalance ::
  "(int \<Rightarrow> string) \<Rightarrow> ident \<Rightarrow> ident \<Rightarrow> ident \<Rightarrow> int \<Rightarrow> string option \<Rightarrow> UsageDb \<Rightarrow> UsageDb" where
  "addBalance toFixed newId org userId amountCents descr db =
     (let balances = upsert (\<lambda>b. ub_organizationId b = org \<and> ub_userId b = userId)
            \<lparr> ub_id = newId, ub_organizationId = org, ub_userId = userId,
              ub_balanceCents = amountCents, ub_lifetimeSpentCents = 0 \<rparr>
            (\<lambda>b. b\<lparr> ub_balanceCents := ub_balanceCents b + amountCents \<rparr>) (ud_balances db);
          b = (case find_balance org userId db of None \<Rightarrow> newId | Some b \<Rightarrow> ub_id b)
      in db\<lparr> ud_balances := balances,
             ud_transactions := ud_transactions db @
               [\<lparr> ut_balanceId = b, ut_type = CREDIT, ut_amountCents = amountCents,
                  ut_description = (case descr of None \<Rightarrow> ''Balance top-up: $'' @ toFixed amountCents
                                    | Some d \<Rightarrow> d) \<rparr>] \<rparr>)"

section \<open>Notifications\<close>

definition usageNotificationLabel :: "string \<Rightarrow> string" where
  "usageNotificationLabel limitType =
     (case map_of [(''daily_tokens'', ''daily token''), (''weekly_tokens'', ''weekly token''),
         (''monthly_tokens'', ''monthly token''), (''daily_requests'', ''daily request''),
         (''weekly_requests'', ''weekly request''), (''monthly_requests'', ''monthly request''),
         (''weekly_stories'', ''weekly story''), (''monthly_stories'', ''monthly case study''),
         (''monthly_budget_tokens'', ''monthly AI token budget''),
         (''monthly_budget_cost'', ''monthly AI spend budget''),
         (''daily_spend_org'', ''daily AI spend''),
         (''daily_spend_anomaly'', ''daily AI spend anomaly baseline'')] limitType of
        Some label \<Rightarrow> label | None \<Rightarrow> limitType)"

text \<open>\<open>fmt\<close> is \<open>Number.prototype.toLocaleString\<close>.\<close>

definition buildUsageNotificationMessage :: "(int \<Rightarrow> string) \<Rightarrow> string \<Rightarrow> int \<Rightarrow> int \<Rightarrow> int \<Rightarrow> string" where
  "buildUsageNotificationMessage fmt limitType thresholdPct currentUsage limitValue =
     (let label = usageNotificationLabel limitType in
      if 100 \<le> thresholdPct
      then ''You have reached your '' @ label @ '' limit ('' @ fmt currentUsage @ '' / '' @ fmt limitValue @
           ''). Further requests will be blocked until the limit resets.''
      else ''You have used '' @ show_int thresholdPct @ ''% of your '' @ label @ '' limit ('' @
           fmt currentUsage @ '' / '' @ fmt limitValue @ '').'')"

text \<open>The world a step runs in: the clock, a fresh id for each created row, and number formatting.\<close>

record UsageEnv =
  ue_now :: millis
  ue_newId :: "nat \<Rightarrow> ident"
  ue_fmt :: "int \<Rightarrow> string"

definition notification_for :: "ident \<Rightarrow> ident \<Rightarrow> string \<Rightarrow> int \<Rightarrow> millis \<Rightarrow> AIUsageNotification \<Rightarrow> bool" where
  "notification_for org userId limitType thresholdPct since n \<longleftrightarrow>
     un_organizationId n = org \<and> un_userId n = userId \<and> un_limitType n = limitType \<and>
     un_thresholdPct n = thresholdPct \<and> since \<le> un_createdAt n"

definition createNotificationIfNewSince ::
  "UsageEnv \<Rightarrow> ident \<Rightarrow> ident \<Rightarrow> string \<Rightarrow> int \<Rightarrow> int \<Rightarrow> int \<Rightarrow> millis \<Rightarrow>
     AIUsageNotification list \<Rightarrow> AIUsageNotification list" where
  "createNotificationIfNewSince env org userId limitType thresholdPct currentUsage limitValue since ns =
     (if list_ex (notification_for org userId limitType thresholdPct since) ns then ns
      else ns @ [\<lparr> un_id = ue_newId env (length ns), un_organizationId = org, un_userId = userId,
        un_limitType = limitType, un_thresholdPct = thresholdPct, un_currentUsage = currentUsage,
        un_limitValue = limitValue,
        un_message =
          buildUsageNotificationMessage (ue_fmt env) limitType thresholdPct currentUsage limitValue,
        un_acknowledged = False, un_createdAt = ue_now env \<rparr>])"

definition createNotificationIfNew ::
  "UsageEnv \<Rightarrow> ident \<Rightarrow> ident \<Rightarrow> string \<Rightarrow> int \<Rightarrow> int \<Rightarrow> int \<Rightarrow>
     AIUsageNotification list \<Rightarrow> AIUsageNotification list" where
  "createNotificationIfNew env org userId limitType thresholdPct currentUsage limitValue ns =
     createNotificationIfNewSince env org userId limitType thresholdPct currentUsage limitValue
       (startOfDay (getUtcUsageWindow (ue_now env))) ns"

text \<open>\<open>if (limit.maxTokensPerDay)\<close>: a limit of zero is falsy and gives no check.\<close>

definition limit_check :: "string \<Rightarrow> int \<Rightarrow> int option \<Rightarrow> (string \<times> int \<times> int) list" where
  "limit_check limitType current limit =
     (case limit of None \<Rightarrow> [] | Some m \<Rightarrow> if m = 0 then [] else [(limitType, current, m)])"

definition buildLimitThresholdChecks :: "UsageSummary \<Rightarrow> AIUsageLimit \<Rightarrow> (string \<times> int \<times> int) list" where
  "buildLimitThresholdChecks usage limit =
     limit_check ''daily_tokens'' (dailyTokens usage) (lim_maxTokensPerDay limit) @
     limit_check ''weekly_tokens'' (weeklyTokens usage) (lim_maxTokensPerWeek limit) @
     limit_check ''monthly_tokens'' (monthlyTokens usage) (lim_maxTokensPerMonth limit) @
     limit_check ''daily_requests'' (dailyRequests usage) (lim_maxRequestsPerDay limit) @
     limit_check ''weekly_requests'' (weeklyRequests usage) (lim_maxRequestsPerWeek limit) @
     limit_check ''monthly_requests'' (monthlyRequests usage) (lim_maxRequestsPerMonth limit) @
     limit_check ''weekly_stories'' (weeklyStories usage) (lim_maxStoriesPerWeek limit) @
     limit_check ''monthly_stories'' (monthlyStories usage) (lim_maxStoriesPerMonth limit)"

definition usage_pct :: "int \<Rightarrow> int \<Rightarrow> int" where
  "usage_pct current m = js_round (of_int current / of_int m * 100)"

definition notify_thresholds :: "AIUsageLimit \<Rightarrow> int list" where
  "notify_thresholds limit = sort [lim_warningThresholdPct limit, 90, 100]"

definition checkAndNotify :: "UsageEnv \<Rightarrow> ident \<Rightarrow> ident \<Rightarrow> UsageDb \<Rightarrow> UsageDb" where
  "checkAndNotify env org userId db =
     (case getEffectiveLimit org userId db of
        None \<Rightarrow> db
      | Some limit \<Rightarrow>
          db\<lparr> ud_notifications :=
            fold (\<lambda>(limitType, current, m). fold (\<lambda>threshold ns.
                if threshold \<le> usage_pct current m
                then createNotificationIfNew env org userId limitType threshold current m ns else ns)
              (notify_thresholds limit))
              (buildLimitThresholdChecks (getCurrentUsage (ue_now env) org userId db) limit)
              (ud_notifications db) \<rparr>)"

definition acknowledgeNotification :: "ident \<Rightarrow> ident \<Rightarrow> ident \<Rightarrow> UsageDb \<Rightarrow> bool \<times> UsageDb" where
  "acknowledgeNotification org userId notificationId db =
     (let p = (\<lambda>n. un_id n = notificationId \<and> un_organizationId n = org \<and> un_userId n = userId \<and>
                   \<not> un_acknowledged n)
      in (0 < count_rows p (ud_notifications db),
          db\<lparr> ud_notifications :=
            update_many p (\<lambda>n. n\<lparr> un_acknowledged := True \<rparr>) (ud_notifications db) \<rparr>))"

definition acknowledgeAllNotifications :: "ident \<Rightarrow> ident \<Rightarrow> UsageDb \<Rightarrow> nat \<times> UsageDb" where
  "acknowledgeAllNotifications org userId db =
     (let p = (\<lambda>n. un_organizationId n = org \<and> un_userId n = userId \<and> \<not> un_acknowledged n)
      in (count_rows p (ud_notifications db),
          db\<lparr> ud_notifications :=
            update_many p (\<lambda>n. n\<lparr> un_acknowledged := True \<rparr>) (ud_notifications db) \<rparr>))"

section \<open>Spend alerts\<close>

definition budget_policy :: "ident \<Rightarrow> UsageDb \<Rightarrow> AIBudgetPolicy" where
  "budget_policy org db =
     (case map_of (ud_policies db) org of None \<Rightarrow> no_budget_policy | Some p \<Rightarrow> p)"

definition cost_of :: "AIUsageRecord list \<Rightarrow> real" where
  "cost_of rows = sum_list (map ur_costCents rows)"

text \<open>
  The costs of the previous days, keyed by day in order of appearance. The key of the source is the
  date part of \<open>toISOString\<close>, one per UTC day.
\<close>

definition costs_by_day :: "AIUsageRecord list \<Rightarrow> (int, real) jsmap" where
  "costs_by_day rows =
     fold (\<lambda>r m. let dayKey = day_of (ur_createdAt r) in
       jm_set dayKey ((case jm_get m dayKey of None \<Rightarrow> 0 | Some c \<Rightarrow> c) + ur_costCents r) m) rows []"

text \<open>
  \<open>checkSpendAnomalies\<close>. The comparison of the platform's total with its threshold only writes a log
  line and is left out.
\<close>

definition checkSpendAnomalies :: "UsageEnv \<Rightarrow> ident \<Rightarrow> ident \<Rightarrow> UsageDb \<Rightarrow> UsageDb" where
  "checkSpendAnomalies env org userId db =
     (let w = getUtcUsageWindow (ue_now env);
          ours = filter (\<lambda>r. ur_organizationId r = org) (ud_records db);
          todayOrgCost = cost_of (filter (\<lambda>r. startOfDay w \<le> ur_createdAt r \<and>
            ur_createdAt r < startOfTomorrow w) ours);
          previousSevenDays = filter (\<lambda>r. startOfDay w - 7 * 24 * 60 * 60 * 1000 \<le> ur_createdAt r \<and>
            ur_createdAt r < startOfDay w) ours;
          orgThreshold = (case ai_spend_alert_daily_cents (budget_policy org db) of
            Some n \<Rightarrow> max 500 n | None \<Rightarrow> 10000);
          ns1 = (if of_int orgThreshold \<le> todayOrgCost
            then createNotificationIfNew env org userId ''daily_spend_org'' 100 (js_round todayOrgCost)
                   orgThreshold (ud_notifications db)
            else ud_notifications db);
          totals = map snd (costs_by_day previousSevenDays);
          avgDaily = (if totals = [] then 0 else sum_list totals / of_nat (length totals));
          ns2 = (if previousSevenDays \<noteq> [] \<and> 0 < avgDaily \<and> avgDaily * 3 \<le> todayOrgCost \<and>
                    2000 \<le> todayOrgCost
            then createNotificationIfNew env org userId ''daily_spend_anomaly'' 100
                   (js_round todayOrgCost) (js_round avgDaily) ns1
            else ns1)
      in db\<lparr> ud_notifications := ns2 \<rparr>)"

definition budget_thresholds :: "AIBudgetPolicy \<Rightarrow> int list" where
  "budget_thresholds p =
     sort (fold js_add (filter (\<lambda>n. 1 \<le> n \<and> n \<le> 100)
       (case ai_budget_thresholds p of None \<Rightarrow> [80, 90, 100] | Some ts \<Rightarrow> ts)) [])"

definition checkOrgBudgetAlerts :: "UsageEnv \<Rightarrow> ident \<Rightarrow> UsageDb \<Rightarrow> UsageDb" where
  "checkOrgBudgetAlerts env org db =
     (let policy = budget_policy org db;
          mode = (case ai_budget_mode policy of None \<Rightarrow> COST_CENTS | Some m \<Rightarrow> m);
          budget' = (if mode = TOKENS then ai_budget_monthly_tokens policy
                     else ai_budget_monthly_cents policy)
      in case budget' of
           None \<Rightarrow> db
         | Some budget \<Rightarrow>
           if budget \<le> 0 then db
           else let thresholds = budget_thresholds policy in
           if thresholds = [] then db
           else let
             sm = startOfMonth (getUtcUsageWindow (ue_now env));
             rows = filter (\<lambda>r. ur_organizationId r = org \<and> sm \<le> ur_createdAt r) (ud_records db);
             currentUsage = (if mode = TOKENS then tokens_of rows else js_round (cost_of rows));
             pct = \<lfloor>of_int currentUsage / of_int budget * 100 :: real\<rfloor>
           in if pct < hd thresholds then db
           else let
             recipients = filter (\<lambda>u. u_organizationId u = org \<and> u_role u \<in> {OWNER, ADMIN}) (ud_users db);
             limitType = (if mode = TOKENS then ''monthly_budget_tokens'' else ''monthly_budget_cost'')
           in db\<lparr> ud_notifications :=
                fold (\<lambda>threshold ns.
                  if pct < threshold then ns
                  else fold (\<lambda>u. createNotificationIfNewSince env org (u_id u) limitType threshold
                         currentUsage budget sm) recipients ns) thresholds (ud_notifications db) \<rparr>)"

section \<open>Recording\<close>

definition recordUsage :: "UsageEnv \<Rightarrow> AIUsageRecord \<Rightarrow> UsageDb \<Rightarrow> UsageDb" where
  "recordUsage env record' db =
     checkOrgBudgetAlerts env (ur_organizationId record')
       (db\<lparr> ud_records := ud_records db @ [record'\<lparr> ur_createdAt := ue_now env \<rparr>] \<rparr>)"

definition pruneUsageChargeKeys :: "millis \<Rightarrow> (string, millis) jsmap \<Rightarrow> (string, millis) jsmap" where
  "pruneUsageChargeKeys now m = em_prune now m"

definition usageChargeDedupTtlMs :: int where
  "usageChargeDedupTtlMs = 24 * 60 * 60 * 1000"

definition hasRecordedUsageCharge :: "millis \<Rightarrow> string \<Rightarrow> UsageDb \<Rightarrow> bool \<times> UsageDb" where
  "hasRecordedUsageCharge now key db =
     (let m = pruneUsageChargeKeys now (ud_chargeKeys db)
      in (jm_get m key \<noteq> None, db\<lparr> ud_chargeKeys := m \<rparr>))"

definition markUsageChargeRecorded :: "millis \<Rightarrow> string \<Rightarrow> UsageDb \<Rightarrow> UsageDb" where
  "markUsageChargeRecorded now key db =
     db\<lparr> ud_chargeKeys :=
       jm_set key (now + usageChargeDedupTtlMs) (pruneUsageChargeKeys now (ud_chargeKeys db)) \<rparr>"

section \<open>Limits\<close>

text \<open>
  The input of \<open>setLimit\<close>: a field may be absent (\<open>None\<close>), \<open>null\<close> (\<open>Some None\<close>) or a number.
\<close>

record SetLimitInput =
  sl_organizationId :: ident
  sl_userId :: "ident option"
  sl_maxTokensPerWeek :: "int option option"
  sl_maxTokensPerDay :: "int option option"
  sl_maxTokensPerMonth :: "int option option"
  sl_maxRequestsPerWeek :: "int option option"
  sl_maxRequestsPerDay :: "int option option"
  sl_maxRequestsPerMonth :: "int option option"
  sl_maxStoriesPerWeek :: "int option option"
  sl_maxStoriesPerMonth :: "int option option"
  sl_warningThresholdPct :: "int option"

definition apply_limit :: "SetLimitInput \<Rightarrow> AIUsageLimit \<Rightarrow> AIUsageLimit" where
  "apply_limit i l =
     l\<lparr> lim_maxTokensPerWeek := keep (sl_maxTokensPerWeek i) (lim_maxTokensPerWeek l),
        lim_maxTokensPerDay := keep (sl_maxTokensPerDay i) (lim_maxTokensPerDay l),
        lim_maxTokensPerMonth := keep (sl_maxTokensPerMonth i) (lim_maxTokensPerMonth l),
        lim_maxRequestsPerWeek := keep (sl_maxRequestsPerWeek i) (lim_maxRequestsPerWeek l),
        lim_maxRequestsPerDay := keep (sl_maxRequestsPerDay i) (lim_maxRequestsPerDay l),
        lim_maxRequestsPerMonth := keep (sl_maxRequestsPerMonth i) (lim_maxRequestsPerMonth l),
        lim_maxStoriesPerWeek := keep (sl_maxStoriesPerWeek i) (lim_maxStoriesPerWeek l),
        lim_maxStoriesPerMonth := keep (sl_maxStoriesPerMonth i) (lim_maxStoriesPerMonth l),
        lim_warningThresholdPct := keep (sl_warningThresholdPct i) (lim_warningThresholdPct l) \<rparr>"

text \<open>
  The \<open>create\<close> branch starts from the row with \<open>null\<close> columns and the warning threshold 80, so that
  \<open>x ?? undefined\<close> and the given value coincide with \<open>apply_limit\<close>.
\<close>

definition setLimit :: "SetLimitInput \<Rightarrow> UsageDb \<Rightarrow> UsageDb" where
  "setLimit i db =
     (let compositeUserId = (case sl_userId i of None \<Rightarrow> ''org_default'' | Some u \<Rightarrow> u) in
      db\<lparr> ud_limits :=
        upsert (\<lambda>l. lim_organizationId l = sl_organizationId i \<and> lim_userId l = Some compositeUserId)
          (apply_limit i (new_limit (sl_organizationId i) (sl_userId i)))
          (apply_limit i) (ud_limits db) \<rparr>)"

definition removeLimit :: "ident \<Rightarrow> ident option \<Rightarrow> UsageDb \<Rightarrow> UsageDb" where
  "removeLimit org userId db =
     db\<lparr> ud_limits :=
       delete_many (\<lambda>l. lim_organizationId l = org \<and> lim_userId l = userId) (ud_limits db) \<rparr>"

section \<open>The tracked client\<close>

text \<open>
  \<open>TrackedAIClient.chatCompletion\<close> (\<open>src/services/tracked-ai-client.ts\<close>). Other requests run while it
  awaits the provider and the database, so it is cut into the guard before the call, the look at the
  charge key after it, and the charge. \<open>trackedChat\<close> is their composition when nothing runs in between.
\<close>

record UsageContext =
  cx_organizationId :: ident
  cx_userId :: ident
  cx_operation :: AIOperation
  cx_provider :: string
  cx_model :: string
  cx_platformBilled :: bool

record ChatResult =
  cr_content :: string
  cr_inputTokens :: int
  cr_outputTokens :: int
  cr_totalTokens :: int

definition operation_name :: "AIOperation \<Rightarrow> string" where
  "operation_name op = (case op of STORY_GENERATION \<Rightarrow> ''STORY_GENERATION''
     | QUOTE_EXTRACTION \<Rightarrow> ''QUOTE_EXTRACTION'' | TRANSCRIPT_TAGGING \<Rightarrow> ''TRANSCRIPT_TAGGING''
     | RAG_QUERY \<Rightarrow> ''RAG_QUERY'' | EMBEDDING \<Rightarrow> ''EMBEDDING'')"

definition chargeIdempotencyKey :: "UsageContext \<Rightarrow> string option \<Rightarrow> string option" where
  "chargeIdempotencyKey cx key =
     (case key of
        None \<Rightarrow> None
      | Some k \<Rightarrow> if trim k = [] then None
          else Some (cx_organizationId cx @ '':'' @ cx_userId cx @ '':'' @
                     operation_name (cx_operation cx) @ '':'' @ trim k))"

definition chat_guard :: "millis \<Rightarrow> UsageContext \<Rightarrow> UsageDb \<Rightarrow> (UsageError, unit) res" where
  "chat_guard now cx db =
     (case enforceLimit now (cx_organizationId cx) (cx_userId cx) db of
        Inl e \<Rightarrow> Inl e
      | Inr _ \<Rightarrow> if cx_platformBilled cx then enforceBalance (cx_organizationId cx) (cx_userId cx) db
                else Inr ())"

definition chat_seen :: "millis \<Rightarrow> UsageContext \<Rightarrow> string option \<Rightarrow> UsageDb \<Rightarrow> bool \<times> UsageDb" where
  "chat_seen now cx key db =
     (case chargeIdempotencyKey cx key of
        None \<Rightarrow> (False, db) | Some k \<Rightarrow> hasRecordedUsageCharge now k db)"

definition usage_record :: "UsageContext \<Rightarrow> ChatResult \<Rightarrow> real \<Rightarrow> millis \<Rightarrow> AIUsageRecord" where
  "usage_record cx result costCents now =
     \<lparr> ur_organizationId = cx_organizationId cx, ur_userId = cx_userId cx,
       ur_provider = cx_provider cx, ur_model = cx_model cx, ur_operation = cx_operation cx,
       ur_inputTokens = cr_inputTokens result, ur_outputTokens = cr_outputTokens result,
       ur_totalTokens = cr_totalTokens result, ur_costCents = costCents, ur_createdAt = now \<rparr>"

definition chat_charge ::
  "UsageEnv \<Rightarrow> UsageContext \<Rightarrow> string option \<Rightarrow> ChatResult \<Rightarrow> UsageDb \<Rightarrow> UsageDb" where
  "chat_charge env cx key result db =
     (let org = cx_organizationId cx; uid = cx_userId cx;
          costCents = (if cx_platformBilled cx
            then computeCost (cx_provider cx) (cx_model cx) (cr_inputTokens result)
                   (cr_outputTokens result) db else 0);
          db1 = recordUsage env (usage_record cx result costCents (ue_now env)) db;
          db2 = (if cx_platformBilled cx \<and> 0 < costCents
            then deductBalance org uid costCents
                   (operation_name (cx_operation cx) @ '' using '' @ cx_provider cx @ ''/'' @ cx_model cx) db1
            else db1);
          db3 = (case chargeIdempotencyKey cx key of
            None \<Rightarrow> db2 | Some k \<Rightarrow> markUsageChargeRecorded (ue_now env) k db2)
      in checkSpendAnomalies env org uid (checkAndNotify env org uid db3))"

definition trackedChat ::
  "millis \<Rightarrow> UsageEnv \<Rightarrow> UsageContext \<Rightarrow> string option \<Rightarrow> ChatResult option \<Rightarrow> UsageDb \<Rightarrow>
     (UsageError, ChatResult) res \<times> UsageDb" where
  "trackedChat now env cx key inner db =
     (case chat_guard now cx db of
        Inl e \<Rightarrow> (Inl e, db)
      | Inr _ \<Rightarrow>
          (case inner of
             None \<Rightarrow> (Inl ProviderFailed, db)
           | Some result \<Rightarrow>
               let (already, db1) = chat_seen (ue_now env) cx key db in
               if already then (Inr result, db1)
               else (Inr result, chat_charge env cx key result db1)))"

end
