(* ===== verification/Usage_Ledger.thy ===== *)
theory Usage_Ledger
  imports Ai_Usage
begin

text \<open>
  What the usage tracker guarantees: the balance of a user is the sum of the ledger under every
  interleaving of charges, top-ups and administration (\<open>usage_step\<close>); calls made one after the other
  never exceed a limit on requests or stories; a charge key is charged once in 24 hours; a threshold is
  notified once a day.
\<close>

section \<open>What the steps change\<close>

lemma notifications_only [simp]:
  "ud_records (checkAndNotify env org u db) = ud_records db"
  "ud_balances (checkAndNotify env org u db) = ud_balances db"
  "ud_transactions (checkAndNotify env org u db) = ud_transactions db"
  "ud_limits (checkAndNotify env org u db) = ud_limits db"
  "ud_chargeKeys (checkAndNotify env org u db) = ud_chargeKeys db"
  "ud_records (checkSpendAnomalies env org u db) = ud_records db"
  "ud_balances (checkSpendAnomalies env org u db) = ud_balances db"
  "ud_transactions (checkSpendAnomalies env org u db) = ud_transactions db"
  "ud_limits (checkSpendAnomalies env org u db) = ud_limits db"
  "ud_chargeKeys (checkSpendAnomalies env org u db) = ud_chargeKeys db"
  by (simp_all add: checkAndNotify_def checkSpendAnomalies_def Let_def split: option.split)

lemma budget_alerts_only [simp]:
  "ud_records (checkOrgBudgetAlerts env org db) = ud_records db"
  "ud_balances (checkOrgBudgetAlerts env org db) = ud_balances db"
  "ud_transactions (checkOrgBudgetAlerts env org db) = ud_transactions db"
  "ud_limits (checkOrgBudgetAlerts env org db) = ud_limits db"
  "ud_chargeKeys (checkOrgBudgetAlerts env org db) = ud_chargeKeys db"
  by (simp_all add: checkOrgBudgetAlerts_def Let_def split: option.split)

lemma recordUsage_only [simp]:
  "ud_records (recordUsage env r db) = ud_records db @ [r\<lparr> ur_createdAt := ue_now env \<rparr>]"
  "ud_balances (recordUsage env r db) = ud_balances db"
  "ud_transactions (recordUsage env r db) = ud_transactions db"
  "ud_limits (recordUsage env r db) = ud_limits db"
  "ud_chargeKeys (recordUsage env r db) = ud_chargeKeys db"
  by (simp_all add: recordUsage_def)

lemma deductBalance_only [simp]:
  "ud_records (deductBalance org u c d db) = ud_records db"
  "ud_limits (deductBalance org u c d db) = ud_limits db"
  "ud_chargeKeys (deductBalance org u c d db) = ud_chargeKeys db"
  by (simp_all add: deductBalance_def Let_def split: option.split)

lemma charge_keys_only [simp]:
  "ud_records (markUsageChargeRecorded t k db) = ud_records db"
  "ud_balances (markUsageChargeRecorded t k db) = ud_balances db"
  "ud_transactions (markUsageChargeRecorded t k db) = ud_transactions db"
  "ud_limits (markUsageChargeRecorded t k db) = ud_limits db"
  "ud_records (snd (hasRecordedUsageCharge t k db)) = ud_records db"
  "ud_balances (snd (hasRecordedUsageCharge t k db)) = ud_balances db"
  "ud_transactions (snd (hasRecordedUsageCharge t k db)) = ud_transactions db"
  "ud_limits (snd (hasRecordedUsageCharge t k db)) = ud_limits db"
  by (simp_all add: markUsageChargeRecorded_def hasRecordedUsageCharge_def Let_def)

lemma chat_seen_only [simp]:
  "ud_records (snd (chat_seen t cx key db)) = ud_records db"
  "ud_balances (snd (chat_seen t cx key db)) = ud_balances db"
  "ud_transactions (snd (chat_seen t cx key db)) = ud_transactions db"
  "ud_limits (snd (chat_seen t cx key db)) = ud_limits db"
  by (simp_all add: chat_seen_def split: option.split)

definition chat_cost :: "UsageContext \<Rightarrow> ChatResult \<Rightarrow> UsageDb \<Rightarrow> real" where
  "chat_cost cx result db =
     (if cx_platformBilled cx
      then computeCost (cx_provider cx) (cx_model cx) (cr_inputTokens result) (cr_outputTokens result) db
      else 0)"

lemma chat_charge_records [simp]:
  "ud_records (chat_charge env cx key result db) =
     ud_records db @ [usage_record cx result (chat_cost cx result db) (ue_now env)]"
  by (simp add: chat_charge_def Let_def chat_cost_def usage_record_def split: option.split)

lemma chat_charge_limits [simp]: "ud_limits (chat_charge env cx key result db) = ud_limits db"
  by (simp add: chat_charge_def Let_def split: option.split)

lemma chat_charge_money:
  "\<exists>c d db1. ud_balances db1 = ud_balances db \<and> ud_transactions db1 = ud_transactions db \<and>
     (let db2 = (if 0 < chat_cost cx result db
                 then deductBalance (cx_organizationId cx) (cx_userId cx) c d db1 else db1)
      in ud_balances (chat_charge env cx key result db) = ud_balances db2 \<and>
         ud_transactions (chat_charge env cx key result db) = ud_transactions db2)"
  by (rule exI [of _ "chat_cost cx result db"], rule exI,
      rule exI [of _ "recordUsage env (usage_record cx result (chat_cost cx result db) (ue_now env)) db"])
    (auto simp: chat_charge_def Let_def chat_cost_def split: option.split)

section \<open>The ledger\<close>

definition amounts :: "AITransactionType \<Rightarrow> ident \<Rightarrow> UserAITransaction list \<Rightarrow> int" where
  "amounts ty b ts =
     sum_list (map ut_amountCents (filter (\<lambda>t. ut_balanceId t = b \<and> ut_type t = ty) ts))"

definition ledger_ok :: "UsageDb \<Rightarrow> bool" where
  "ledger_ok db \<longleftrightarrow>
     unique_key ub_id (ud_balances db) \<and>
     unique_key (\<lambda>b. (ub_organizationId b, ub_userId b)) (ud_balances db) \<and>
     (\<forall>t \<in> set (ud_transactions db). ut_balanceId t \<in> ub_id ` set (ud_balances db)) \<and>
     (\<forall>b \<in> set (ud_balances db).
        ub_balanceCents b = amounts CREDIT (ub_id b) (ud_transactions db) -
          amounts DEBIT (ub_id b) (ud_transactions db) \<and>
        ub_lifetimeSpentCents b = amounts DEBIT (ub_id b) (ud_transactions db))"

lemma amounts_append [simp]: "amounts ty b (ts @ ts') = amounts ty b ts + amounts ty b ts'"
  by (simp add: amounts_def)

lemma amounts_one [simp]:
  "amounts ty b [t] = (if ut_balanceId t = b \<and> ut_type t = ty then ut_amountCents t else 0)"
  by (simp add: amounts_def)

lemma amounts_unused: "b \<notin> ut_balanceId ` set ts \<Longrightarrow> amounts ty b ts = 0"
  by (induction ts) (auto simp: amounts_def)

lemma find_balanceD:
  assumes "find_balance org u db = Some b"
  shows "b \<in> set (ud_balances db)" "ub_organizationId b = org" "ub_userId b = u"
  using find_SomeD [OF assms [unfolded find_balance_def]] by auto

lemma ledger_deduct: "ledger_ok db \<Longrightarrow> ledger_ok (deductBalance org u c d db)"
proof (cases "find_balance org u db")
  case None
  then show "ledger_ok db \<Longrightarrow> ?thesis" by (simp add: deductBalance_def)
next
  case (Some b)
  assume ok: "ledger_ok db"
  have ids: "ub_id ` set (update_many (\<lambda>r. ub_id r = ub_id b) f (ud_balances db)) = ub_id ` set (ud_balances db)"
    if "\<And>r. ub_id (f r) = ub_id r" for f
    using map_update_many_inv [of _ ub_id f] that by (metis list.set_map)
  from ok Some show ?thesis
    using find_balanceD [OF Some]
    by (auto simp: deductBalance_def ledger_ok_def Let_def unique_key_update_many ids
        elim!: in_update_manyE)
qed

lemma ledger_add:
  assumes "ledger_ok db" and "newId \<notin> ub_id ` set (ud_balances db)"
  shows "ledger_ok (addBalance tf newId org u c d db)"
proof (cases "find_balance org u db")
  case None
  then have none: "\<not> list_ex (\<lambda>b. ub_organizationId b = org \<and> ub_userId b = u) (ud_balances db)"
    by (auto simp: find_balance_def find_None_iff list_ex_iff)
  have fresh: "amounts ty newId (ud_transactions db) = 0" for ty
    using assms by (intro amounts_unused) (auto simp: ledger_ok_def)
  from assms None none fresh show ?thesis
    by (auto simp: addBalance_def ledger_ok_def Let_def upsert_def unique_key_def list_ex_iff)
next
  case (Some b)
  note b = find_balanceD [OF Some]
  then have ex: "list_ex (\<lambda>b. ub_organizationId b = org \<and> ub_userId b = u) (ud_balances db)"
    by (auto simp: list_ex_iff)
  have same: "r \<in> set (ud_balances db) \<Longrightarrow> ub_organizationId r = org \<and> ub_userId r = u \<Longrightarrow> r = b" for r
    using assms(1) b inj_onD [of "\<lambda>b. (ub_organizationId b, ub_userId b)" "set (ud_balances db)" r b]
    by (auto simp: ledger_ok_def unique_key_def distinct_map)
  have other: "r \<in> set (ud_balances db) \<Longrightarrow> ub_id b = ub_id r \<Longrightarrow> r = b" for r
    using assms(1) b inj_onD [of ub_id "set (ud_balances db)" r b]
    by (auto simp: ledger_ok_def unique_key_def distinct_map)
  let ?f = "\<lambda>r. r\<lparr> ub_balanceCents := ub_balanceCents r + c \<rparr>"
  have ids: "ub_id ` set (update_many p ?f (ud_balances db)) = ub_id ` set (ud_balances db)" for p
    using map_update_many_inv [of p ub_id ?f] by (metis (no_types, lifting) list.set_map
        UserAIBalance.select_convs(1) UserAIBalance.surjective UserAIBalance.update_convs(4))
  from assms Some ex b show ?thesis
    by (auto simp: addBalance_def ledger_ok_def Let_def upsert_def unique_key_update_many ids
        elim!: in_update_manyE dest: same other)
qed

lemma ledger_charge:
  assumes "ledger_ok db"
  shows "ledger_ok (chat_charge env cx key result db)"
proof -
  obtain c d db1 where m: "ud_balances db1 = ud_balances db" "ud_transactions db1 = ud_transactions db"
    and e: "let db2 = (if 0 < chat_cost cx result db
                 then deductBalance (cx_organizationId cx) (cx_userId cx) c d db1 else db1)
      in ud_balances (chat_charge env cx key result db) = ud_balances db2 \<and>
         ud_transactions (chat_charge env cx key result db) = ud_transactions db2"
    using chat_charge_money [of db cx result env key] by blast
  have "ledger_ok db1" using assms m by (simp add: ledger_ok_def)
  then have "ledger_ok (deductBalance (cx_organizationId cx) (cx_userId cx) c d db1)"
    by (rule ledger_deduct)
  with \<open>ledger_ok db1\<close> e show ?thesis
    by (auto simp: ledger_ok_def Let_def split: if_splits)
qed

text \<open>
  The steps of the service on the usage tables, in any order: charges of any client, whether or not
  its guard ran just before, looks at a charge key, top-ups by an administrator, and administration.
\<close>

inductive usage_step :: "UsageDb \<Rightarrow> UsageDb \<Rightarrow> bool" where
  charge: "usage_step db (chat_charge env cx key result db)"
| look: "usage_step db (snd (chat_seen now cx key db))"
| top_up: "newId \<notin> ub_id ` set (ud_balances db) \<Longrightarrow>
    usage_step db (addBalance toFixed newId org uid cents descr db)"
| set_limit: "usage_step db (setLimit i db)"
| remove_limit: "usage_step db (removeLimit org uid' db)"
| acknowledge: "usage_step db (snd (acknowledgeNotification org uid nid db))"
| acknowledge_all: "usage_step db (snd (acknowledgeAllNotifications org uid db))"

lemma ledger_step: "usage_step db db' \<Longrightarrow> ledger_ok db \<Longrightarrow> ledger_ok db'"
proof (induction rule: usage_step.induct)
  case (charge db env cx key result)
  then show ?case by (simp add: ledger_charge)
next
  case (top_up newId db toFixed org uid cents descr)
  then show ?case by (simp add: ledger_add)
qed (simp_all add: ledger_ok_def setLimit_def removeLimit_def acknowledgeNotification_def
  acknowledgeAllNotifications_def Let_def)

text \<open>
  C20. The ledger is exact: after any sequence of charges, top-ups and administrative steps, in any
  interleaving, every balance is the sum of its credits minus the sum of its debits, the lifetime
  spending is the sum of the debits, there is one balance per user and organization, and no transaction
  is without its balance.
\<close>

theorem usage_ledger_exact:
  assumes "usage_step\<^sup>*\<^sup>* db db'" and "ledger_ok db"
  shows "ledger_ok db'"
  using assms by (induction rule: rtranclp_induct) (auto intro: ledger_step)

section \<open>Limits on requests and stories\<close>

lemma reached_simps [simp]: "\<not> reached None n" "reached (Some m) n \<longleftrightarrow> m \<le> n"
  by (simp_all add: reached_def)

lemma evaluateLimitStatus_allowed:
  "ls_allowed (evaluateLimitStatus u l b) \<longleftrightarrow>
     \<not> reached (maxTokensPerWeek' l) (weeklyTokens u) \<and> \<not> reached (maxTokensPerDay' l) (dailyTokens u) \<and>
     \<not> reached (maxTokensPerMonth' l) (monthlyTokens u) \<and>
     \<not> reached (maxRequestsPerWeek' l) (weeklyRequests u) \<and>
     \<not> reached (maxRequestsPerDay' l) (dailyRequests u) \<and>
     \<not> reached (maxRequestsPerMonth' l) (monthlyRequests u) \<and>
     \<not> reached (maxStoriesPerWeek' l) (weeklyStories u) \<and> \<not> reached (maxStoriesPerMonth' l) (monthlyStories u)"
  by (simp add: evaluateLimitStatus_def Let_def)

text \<open>A quota on the records of one kind in the current window, at the latest time of a run.\<close>

definition count_in :: "(AIUsageRecord \<Rightarrow> bool) \<Rightarrow> millis \<Rightarrow> AIUsageRecord list \<Rightarrow> int" where
  "count_in p since rows = int (count_rows (\<lambda>r. p r \<and> since \<le> ur_createdAt r) rows)"

lemma count_in_append [simp]: "count_in p s (xs @ ys) = count_in p s xs + count_in p s ys"
  by (simp add: count_in_def count_rows_def)

lemma count_in_nonneg [simp]: "0 \<le> count_in p s rows"
  by (simp add: count_in_def)

lemma count_in_one: "count_in p s [r] \<le> 1" "\<not> p r \<Longrightarrow> count_in p s [r] = 0"
  by (simp_all add: count_in_def count_rows_def)

lemma count_in_past: "\<forall>r \<in> set rows. ur_createdAt r < s \<Longrightarrow> count_in p s rows = 0"
  by (auto simp: count_in_def count_rows_def filter_empty_conv)

definition quota_ok ::
  "(millis \<Rightarrow> millis) \<Rightarrow> (AIUsageRecord \<Rightarrow> bool) \<Rightarrow> int \<Rightarrow> millis \<Rightarrow> AIUsageRecord list \<Rightarrow> bool" where
  "quota_ok start p m t rows \<longleftrightarrow>
     (\<forall>r \<in> set rows. ur_createdAt r \<le> t) \<and> (\<forall>T \<ge> t. count_in p (start T) rows \<le> m)"

context time_window
begin

lemma quota_later: "quota_ok start p m t rows \<Longrightarrow> t \<le> t' \<Longrightarrow> quota_ok start p m t' rows"
  by (fastforce simp: quota_ok_def)

lemma count_antimono: "s \<le> s' \<Longrightarrow> count_in p s' rows \<le> count_in p s rows"
  by (induction rows) (auto simp: count_in_def count_rows_def)

lemma quota_start:
  assumes "\<forall>r \<in> set rows. ur_createdAt r \<le> t" and "count_in p (start t) rows \<le> m"
  shows "quota_ok start p m t rows"
  unfolding quota_ok_def using assms count_antimono [OF start_mono] by (meson order_trans)

lemma quota_add:
  assumes w: "quota_ok start p m t rows" and "t \<le> t0" and "t0 \<le> t1" and c: "ur_createdAt r = t1"
    and q: "p r \<Longrightarrow> count_in p (start t0) rows < m"
  shows "quota_ok start p m t1 (rows @ [r])"
proof (cases "p r")
  case True
  show ?thesis
    unfolding quota_ok_def
  proof (intro conjI allI impI)
    show "\<forall>s \<in> set (rows @ [r]). ur_createdAt s \<le> t1"
      using w assms(2,3) c by (fastforce simp: quota_ok_def)
    fix T assume T: "t1 \<le> T"
    show "count_in p (start T) (rows @ [r]) \<le> m"
    proof (cases "start T \<le> t0")
      case True
      then have "start t0 = start T" using start_stable T assms(3) by simp
      with q [OF \<open>p r\<close>] count_in_one(1) [of p "start T" r] show ?thesis by simp
    next
      case False
      then have "\<forall>s \<in> set rows. ur_createdAt s < start T"
        using w assms(2) by (fastforce simp: quota_ok_def)
      then have "count_in p (start T) rows = 0" by (rule count_in_past)
      moreover have "1 \<le> m" using q [OF \<open>p r\<close>] count_in_nonneg [of p "start t0" rows] by linarith
      ultimately show ?thesis using count_in_one(1) [of p "start T" r] by simp
    qed
  qed
next
  case False
  have "quota_ok start p m t1 rows" using w assms(2,3) by (auto intro: quota_later)
  with False c show ?thesis by (auto simp: quota_ok_def count_in_one(2))
qed

end

text \<open>
  A sequence of tracked calls, each run to its end before the next starts: the time of the guard, the
  world of the charge, the context, the charge key and the answer of the provider.
\<close>

type_synonym chat_call = "millis \<times> UsageEnv \<times> UsageContext \<times> string option \<times> ChatResult option"

definition call_step :: "chat_call \<Rightarrow> UsageDb \<Rightarrow> UsageDb" where
  "call_step c db = (case c of (now, env, cx, key, inner) \<Rightarrow> snd (trackedChat now env cx key inner db))"

definition run_calls :: "chat_call list \<Rightarrow> UsageDb \<Rightarrow> UsageDb" where
  "run_calls cs db = fold call_step cs db"

fun clocked :: "millis \<Rightarrow> chat_call list \<Rightarrow> bool" where
  "clocked t [] = True"
| "clocked t ((now, env, cx, key, inner) # cs) \<longleftrightarrow> t \<le> now \<and> now \<le> ue_now env \<and> clocked (ue_now env) cs"

definition end_time :: "millis \<Rightarrow> chat_call list \<Rightarrow> millis" where
  "end_time t cs = (if cs = [] then t else ue_now (fst (snd (last cs))))"

lemma run_calls_simps [simp]:
  "run_calls [] db = db" "run_calls (c # cs) db = run_calls cs (call_step c db)"
  "run_calls (cs @ cs') db = run_calls cs' (run_calls cs db)"
  by (simp_all add: run_calls_def)

lemma end_time_simps [simp]:
  "end_time t [] = t" "end_time t ((now, env, cx, key, inner) # cs) = end_time (ue_now env) cs"
  by (simp_all add: end_time_def)

lemma call_step_eq:
  "call_step (now, env, cx, key, inner) db =
     (if chat_guard now cx db = Inr ()
      then case inner of
          None \<Rightarrow> db
        | Some result \<Rightarrow>
            let s = chat_seen (ue_now env) cx key db in
            if fst s then snd s else chat_charge env cx key result (snd s)
      else db)"
  by (auto simp: call_step_def trackedChat_def Let_def case_prod_beta split: sum.split option.split)

lemma call_step_limits [simp]: "ud_limits (call_step c db) = ud_limits db"
  by (cases c) (simp add: call_step_eq Let_def split: option.split)

text \<open>A call adds nothing, or one record, and then its guard had passed.\<close>

lemma call_step_records:
  "ud_records (call_step (now, env, cx, key, inner) db) = ud_records db \<or>
   (\<exists>result cost. ud_records (call_step (now, env, cx, key, inner) db) =
      ud_records db @ [usage_record cx result cost (ue_now env)] \<and> chat_guard now cx db = Inr ())"
  by (auto simp: call_step_eq Let_def split: option.split)

lemma chat_guard_limits: "chat_guard now cx db = Inr () \<Longrightarrow>
   ls_allowed (getLimitStatus now (cx_organizationId cx) (cx_userId cx) db)"
  by (auto simp: chat_guard_def enforceLimit_def Let_def split: if_splits sum.splits)

lemma getEffectiveLimit_run [simp]:
  "getEffectiveLimit org u (call_step c db) = getEffectiveLimit org u db"
  by (simp add: getEffectiveLimit_def cong: option.case_cong)

context time_window
begin

text \<open>
  A quota that the guard checks for the user's own records of a kind holds along every run of calls.
\<close>

lemma quota_run:
  assumes "clocked t cs" and "quota_ok start p m t (ud_records db)"
    and mine: "\<And>cx result cost now. p (usage_record cx result cost now) \<Longrightarrow>
      cx_organizationId cx = org \<and> cx_userId cx = u"
    and checked: "\<And>now db'. ud_limits db' = ud_limits db \<Longrightarrow> ls_allowed (getLimitStatus now org u db') \<Longrightarrow>
      count_in p (start now) (ud_records db') < m"
  shows "quota_ok start p m (end_time t cs) (ud_records (run_calls cs db))"
  using assms(1,2) checked
proof (induction cs arbitrary: t db)
  case Nil
  then show ?case by simp
next
  case (Cons c cs)
  obtain now env cx key inner where c: "c = (now, env, cx, key, inner)" by (cases c)
  have t: "t \<le> now" "now \<le> ue_now env" and cl: "clocked (ue_now env) cs"
    using Cons.prems(1) c by auto
  have "quota_ok start p m (ue_now env) (ud_records (call_step c db))"
    using call_step_records [of now env cx key inner db]
  proof (elim disjE exE conjE)
    assume "ud_records (call_step (now, env, cx, key, inner) db) = ud_records db"
    then show ?thesis using quota_later [OF Cons.prems(2)] t c by simp
  next
    fix result cost
    assume r: "ud_records (call_step (now, env, cx, key, inner) db) =
        ud_records db @ [usage_record cx result cost (ue_now env)]"
      and g: "chat_guard now cx db = Inr ()"
    have "count_in p (start now) (ud_records db) < m" if "p (usage_record cx result cost (ue_now env))"
      using mine [OF that] chat_guard_limits [OF g] Cons.prems(3) by simp
    then show ?thesis
      unfolding c r
      by (intro quota_add [OF Cons.prems(2) t]) (simp_all add: usage_record_def)
  qed
  with Cons.IH [OF cl] Cons.prems(3) c show ?case by simp
qed

lemma quota_holds:
  assumes "clocked t cs" and "list_all (\<lambda>r. ur_createdAt r \<le> t) (ud_records db)"
    and "count_in p (start t) (ud_records db) \<le> m"
    and "\<And>cx result cost now. p (usage_record cx result cost now) \<Longrightarrow>
      cx_organizationId cx = org \<and> cx_userId cx = u"
    and "\<And>now db'. ud_limits db' = ud_limits db \<Longrightarrow> ls_allowed (getLimitStatus now org u db') \<Longrightarrow>
      count_in p (start now) (ud_records db') < m"
    and "end_time t cs \<le> T"
  shows "count_in p (start T) (ud_records (run_calls cs db)) \<le> m"
  using quota_run [OF assms(1) quota_start assms(4,5)] assms(2,3,6)
  by (auto simp: list_all_iff quota_ok_def)

end

definition request_of :: "ident \<Rightarrow> ident \<Rightarrow> AIUsageRecord \<Rightarrow> bool" where
  "request_of org u r \<longleftrightarrow> ur_organizationId r = org \<and> ur_userId r = u"

definition story_of :: "ident \<Rightarrow> ident \<Rightarrow> AIUsageRecord \<Rightarrow> bool" where
  "story_of org u r \<longleftrightarrow> request_of org u r \<and> ur_operation r = STORY_GENERATION"

lemma current_usage_counts:
  "dailyRequests (getCurrentUsage t org u db) =
     count_in (request_of org u) (startOfDay (getUtcUsageWindow t)) (ud_records db)"
  "weeklyRequests (getCurrentUsage t org u db) =
     count_in (request_of org u) (startOfWeek (getUtcUsageWindow t)) (ud_records db)"
  "monthlyRequests (getCurrentUsage t org u db) =
     count_in (request_of org u) (startOfMonth (getUtcUsageWindow t)) (ud_records db)"
  "weeklyStories (getCurrentUsage t org u db) =
     count_in (story_of org u) (startOfWeek (getUtcUsageWindow t)) (ud_records db)"
  "monthlyStories (getCurrentUsage t org u db) =
     count_in (story_of org u) (startOfMonth (getUtcUsageWindow t)) (ud_records db)"
  by (simp_all add: getCurrentUsage_def Let_def records_since_def stories_of_def count_in_def
      count_rows_def request_of_def story_of_def conj_ac)

lemma own_records:
  "request_of org u (usage_record cx result cost now) \<Longrightarrow> cx_organizationId cx = org \<and> cx_userId cx = u"
  "story_of org u (usage_record cx result cost now) \<Longrightarrow> cx_organizationId cx = org \<and> cx_userId cx = u"
  by (simp_all add: request_of_def story_of_def usage_record_def)

lemma allowed_below:
  assumes "ls_allowed (getLimitStatus t org u db')" and "ud_limits db' = ud_limits db"
    and "getEffectiveLimit org u db = Some l"
  shows "lim_maxRequestsPerDay l = Some m \<Longrightarrow> dailyRequests (getCurrentUsage t org u db') < m"
    and "lim_maxRequestsPerWeek l = Some m \<Longrightarrow> weeklyRequests (getCurrentUsage t org u db') < m"
    and "lim_maxRequestsPerMonth l = Some m \<Longrightarrow> monthlyRequests (getCurrentUsage t org u db') < m"
    and "lim_maxStoriesPerWeek l = Some m \<Longrightarrow> weeklyStories (getCurrentUsage t org u db') < m"
    and "lim_maxStoriesPerMonth l = Some m \<Longrightarrow> monthlyStories (getCurrentUsage t org u db') < m"
proof -
  have "getEffectiveLimit org u db' = Some l"
    using assms(2,3) by (simp add: getEffectiveLimit_def cong: option.case_cong)
  with assms(1) show
    "lim_maxRequestsPerDay l = Some m \<Longrightarrow> dailyRequests (getCurrentUsage t org u db') < m"
    "lim_maxRequestsPerWeek l = Some m \<Longrightarrow> weeklyRequests (getCurrentUsage t org u db') < m"
    "lim_maxRequestsPerMonth l = Some m \<Longrightarrow> monthlyRequests (getCurrentUsage t org u db') < m"
    "lim_maxStoriesPerWeek l = Some m \<Longrightarrow> weeklyStories (getCurrentUsage t org u db') < m"
    "lim_maxStoriesPerMonth l = Some m \<Longrightarrow> monthlyStories (getCurrentUsage t org u db') < m"
    by (auto simp: getLimitStatus_def evaluateLimitStatus_allowed buildUsageLimits_def)
qed

definition within_limits :: "UsageSummary \<Rightarrow> AIUsageLimit \<Rightarrow> bool" where
  "within_limits usage l \<longleftrightarrow>
     (case lim_maxRequestsPerDay l of None \<Rightarrow> True | Some m \<Rightarrow> dailyRequests usage \<le> m) \<and>
     (case lim_maxRequestsPerWeek l of None \<Rightarrow> True | Some m \<Rightarrow> weeklyRequests usage \<le> m) \<and>
     (case lim_maxRequestsPerMonth l of None \<Rightarrow> True | Some m \<Rightarrow> monthlyRequests usage \<le> m) \<and>
     (case lim_maxStoriesPerWeek l of None \<Rightarrow> True | Some m \<Rightarrow> weeklyStories usage \<le> m) \<and>
     (case lim_maxStoriesPerMonth l of None \<Rightarrow> True | Some m \<Rightarrow> monthlyStories usage \<le> m)"

text \<open>
  C21. Limits hold: a user whose requests and stories are within the limits in force stays within every one
  of them, by day, week and month, through any sequence of calls by any users that run one after the
  other, also across midnight, the end of a week or of a month.
\<close>

theorem usage_stays_within_limits:
  assumes "clocked t cs" and "list_all (\<lambda>r. ur_createdAt r \<le> t) (ud_records db)"
    and l: "getEffectiveLimit org u db = Some l"
    and w: "within_limits (getCurrentUsage t org u db) l" and "end_time t cs \<le> T"
  shows "within_limits (getCurrentUsage T org u (run_calls cs db)) l"
proof -
  note below = allowed_below [OF _ _ l, unfolded current_usage_counts]
  note w' = w [unfolded within_limits_def current_usage_counts]
  have "lim_maxRequestsPerDay l = Some m \<Longrightarrow>
      count_in (request_of org u) (startOfDay (getUtcUsageWindow T)) (ud_records (run_calls cs db)) \<le> m" for m
    using w' by (intro daily.quota_holds [OF assms(1,2) _ own_records(1) below(1) assms(5)]) auto
  moreover have "lim_maxRequestsPerWeek l = Some m \<Longrightarrow>
      count_in (request_of org u) (startOfWeek (getUtcUsageWindow T)) (ud_records (run_calls cs db)) \<le> m" for m
    using w' by (intro weekly.quota_holds [OF assms(1,2) _ own_records(1) below(2) assms(5)]) auto
  moreover have "lim_maxRequestsPerMonth l = Some m \<Longrightarrow>
      count_in (request_of org u) (startOfMonth (getUtcUsageWindow T)) (ud_records (run_calls cs db)) \<le> m" for m
    using w' by (intro monthly.quota_holds [OF assms(1,2) _ own_records(1) below(3) assms(5)]) auto
  moreover have "lim_maxStoriesPerWeek l = Some m \<Longrightarrow>
      count_in (story_of org u) (startOfWeek (getUtcUsageWindow T)) (ud_records (run_calls cs db)) \<le> m" for m
    using w' by (intro weekly.quota_holds [OF assms(1,2) _ own_records(2) below(4) assms(5)]) auto
  moreover have "lim_maxStoriesPerMonth l = Some m \<Longrightarrow>
      count_in (story_of org u) (startOfMonth (getUtcUsageWindow T)) (ud_records (run_calls cs db)) \<le> m" for m
    using w' by (intro monthly.quota_holds [OF assms(1,2) _ own_records(2) below(5) assms(5)]) auto
  ultimately show ?thesis
    unfolding within_limits_def current_usage_counts by (auto split: option.split)
qed

section \<open>Charge keys\<close>

text \<open>The look at a key followed, when the key is new, by its mark at the same time.\<close>

definition charge_offer ::
  "millis \<Rightarrow> string \<Rightarrow> (string, millis) jsmap \<Rightarrow> bool \<times> (string, millis) jsmap" where
  "charge_offer now k m =
     (let m' = em_prune now m in
      if jm_get m' k \<noteq> None then (False, m')
      else (True, jm_set k (now + usageChargeDedupTtlMs) (em_prune now m')))"

lemma pruned_get: "jm_wf m \<Longrightarrow> jm_get (em_prune now m) k \<noteq> None \<longleftrightarrow> em_seen m now k"
  by (auto simp: em_prune_get em_seen_def split: option.splits)

interpretation charges: ttl_dedup em_seen charge_offer usageChargeDedupTtlMs jm_wf
proof (unfold_locales, goal_cases)
  case (1 m t k)
  then show ?case by (simp add: charge_offer_def Let_def em_prune_wf jm.wf_put)
next
  case (2 m t k)
  then show ?case by (simp add: charge_offer_def Let_def pruned_get del: not_None_eq)
next
  case (3 m t' k t)
  then show ?case by (simp add: em_seen_earlier)
next
  case (4 m t k t')
  then show ?case
    by (auto simp: charge_offer_def Let_def em_seen_set em_prune_wf split: if_splits)
next
  case (5 m k' k t t')
  then show ?case
    by (auto simp: charge_offer_def Let_def em_seen_prune em_seen_set em_prune_wf split: if_splits)
qed

lemma chat_charge_keys [simp]:
  "ud_chargeKeys (chat_charge env cx key result db) =
     (case chargeIdempotencyKey cx key of
        None \<Rightarrow> ud_chargeKeys db
      | Some k \<Rightarrow> jm_set k (ue_now env + usageChargeDedupTtlMs) (em_prune (ue_now env) (ud_chargeKeys db)))"
  by (simp add: chat_charge_def Let_def markUsageChargeRecorded_def pruneUsageChargeKeys_def split: option.split)

lemma call_keys:
  "ud_chargeKeys (call_step (now, env, cx, key, inner) db) =
     (if chat_guard now cx db = Inr () \<and> inner \<noteq> None
      then case chargeIdempotencyKey cx key of
          None \<Rightarrow> ud_chargeKeys db
        | Some k \<Rightarrow> snd (charge_offer (ue_now env) k (ud_chargeKeys db))
      else ud_chargeKeys db)"
  by (auto simp: call_step_eq Let_def charge_offer_def chat_seen_def hasRecordedUsageCharge_def
      pruneUsageChargeKeys_def split: option.split)

lemma call_charged:
  assumes "ud_records (call_step (now, env, cx, key, inner) db) \<noteq> ud_records db"
    and "chargeIdempotencyKey cx key = Some k"
  shows "fst (charge_offer (ue_now env) k (ud_chargeKeys db))"
    and "ud_chargeKeys (call_step (now, env, cx, key, inner) db) =
      snd (charge_offer (ue_now env) k (ud_chargeKeys db))"
  using assms
  by (auto simp: call_step_eq Let_def charge_offer_def chat_seen_def hasRecordedUsageCharge_def
      pruneUsageChargeKeys_def split: option.splits if_splits)

text \<open>A run of calls offers its keys at the times of its charges.\<close>

lemma run_offers:
  "\<exists>ops. (\<forall>(u, k) \<in> set ops. \<exists>c \<in> set cs. u = ue_now (fst (snd c))) \<and>
     ud_chargeKeys (run_calls cs db) = dedup_state charge_offer ops (ud_chargeKeys db)"
proof (induction cs arbitrary: db)
  case Nil
  show ?case by (rule exI [of _ "[]"]) simp
next
  case (Cons c cs)
  obtain now env cx key inner where c: "c = (now, env, cx, key, inner)" by (cases c)
  from Cons.IH obtain ops where ops: "\<forall>(u, k) \<in> set ops. \<exists>c \<in> set cs. u = ue_now (fst (snd c))"
    and run: "ud_chargeKeys (run_calls cs (call_step c db)) =
      dedup_state charge_offer ops (ud_chargeKeys (call_step c db))" by blast
  show ?case
  proof (cases "ud_chargeKeys (call_step c db) = ud_chargeKeys db")
    case True
    with ops run show ?thesis by (intro exI [of _ ops]) auto
  next
    case False
    then obtain k where "ud_chargeKeys (call_step c db) = snd (charge_offer (ue_now env) k (ud_chargeKeys db))"
      unfolding c call_keys by (auto split: if_splits option.splits)
    with ops run show ?thesis
      by (intro exI [of _ "(ue_now env, k) # ops"]) (auto simp: c)
  qed
qed

lemma clocked_append: "clocked t (cs @ cs') \<longleftrightarrow> clocked t cs \<and> clocked (end_time t cs) cs'"
  by (induction t cs rule: clocked.induct) auto

lemma clocked_le: "clocked t cs \<Longrightarrow> t \<le> end_time t cs \<and> (\<forall>c \<in> set cs. ue_now (fst (snd c)) \<le> end_time t cs)"
  by (induction t cs rule: clocked.induct) auto

text \<open>
  C22. A repeated call is charged once: of two calls with the same charge key (organization, user,
  operation and trimmed idempotency key) that both leave a usage record, the second comes at least 24
  hours after the first, whatever calls run in between, when the calls run one after the other from the
  start of the process.
\<close>

theorem charged_once_per_day:
  assumes "clocked t (pre @ (nA, eA, cxA, keyA, iA) # mid @ [(nB, eB, cxB, keyB, iB)])"
    and "ud_chargeKeys db = []"
    and kA: "chargeIdempotencyKey cxA keyA = Some k" and kB: "chargeIdempotencyKey cxB keyB = Some k"
    and chA: "ud_records (run_calls (pre @ [(nA, eA, cxA, keyA, iA)]) db) \<noteq> ud_records (run_calls pre db)"
    and chB: "ud_records (run_calls (pre @ (nA, eA, cxA, keyA, iA) # mid @ [(nB, eB, cxB, keyB, iB)]) db) \<noteq>
      ud_records (run_calls (pre @ (nA, eA, cxA, keyA, iA) # mid) db)"
  shows "ue_now eA + 24 * 60 * 60 * 1000 \<le> ue_now eB"
proof -
  let ?A = "(nA, eA, cxA, keyA, iA)"
  let ?d1 = "run_calls pre db" and ?d2 = "call_step ?A (run_calls pre db)"
  obtain ops where ops: "ud_chargeKeys ?d1 = dedup_state charge_offer ops []"
    using run_offers [of pre db] assms(2) by auto
  obtain ops' where o': "\<forall>(u, k) \<in> set ops'. \<exists>c \<in> set mid. u = ue_now (fst (snd c))"
    and run': "ud_chargeKeys (run_calls mid ?d2) = dedup_state charge_offer ops' (ud_chargeKeys ?d2)"
    using run_offers [of mid ?d2] by blast
  have cl: "clocked (ue_now eA) mid" "end_time (ue_now eA) mid \<le> ue_now eB"
    using assms(1) by (auto simp: clocked_append)
  from cl(2) clocked_le [OF cl(1)] have mid: "\<forall>(u, k') \<in> set ops'. u \<le> ue_now eB"
    using o' by fastforce
  have le: "ue_now eA \<le> ue_now eB" using clocked_le [OF cl(1)] cl(2) by simp
  note a = call_charged [OF _ kA, of nA eA iA ?d1] and b = call_charged [OF _ kB, of nB eB iB "run_calls mid ?d2"]
  have first: "fst (charge_offer (ue_now eA) k (dedup_state charge_offer ops []))"
    using a(1) chA ops by simp
  have "fst (charge_offer (ue_now eB) k (dedup_state charge_offer (ops @ (ue_now eA, k) # ops') []))"
    using b(1) chB run' a(2) chA ops by simp
  from charges.accepted_spacing [OF jm_wf_Nil mid le first this] show ?thesis
    by (simp add: usageChargeDedupTtlMs_def)
qed

text \<open>
  Two overlapping calls with one charge key are both charged: when neither has marked the key before
  the other looked, each leaves its own usage record.
\<close>

theorem overlapping_calls_both_charged:
  assumes "\<not> fst (chat_seen t cx key db)" and "jm_wf (ud_chargeKeys db)" and "t \<le> t'"
  shows "\<not> fst (chat_seen t' cx key (snd (chat_seen t cx key db))) \<and>
    length (ud_records (chat_charge env' cx key r' (chat_charge env cx key r
      (snd (chat_seen t' cx key (snd (chat_seen t cx key db))))))) = length (ud_records db) + 2"
proof
  show "\<not> fst (chat_seen t' cx key (snd (chat_seen t cx key db)))"
    using assms
    by (auto simp: chat_seen_def hasRecordedUsageCharge_def Let_def pruneUsageChargeKeys_def
        em_prune_get em_prune_wf split: option.splits if_splits)
qed simp

section \<open>Notifications\<close>

lemma notify_covers:
  "since \<le> ue_now env \<Longrightarrow>
     list_ex (notification_for org u lt thr since)
       (createNotificationIfNewSince env org u lt thr cur m since ns)"
  by (auto simp: createNotificationIfNewSince_def notification_for_def)

lemma notify_grows:
  "\<exists>new. createNotificationIfNewSince env org u lt thr cur m since ns = ns @ new"
  by (auto simp: createNotificationIfNewSince_def)

lemma notify_fixed:
  "list_ex (notification_for org u lt thr since) ns \<Longrightarrow>
     createNotificationIfNewSince env org u lt thr cur m since ns = ns"
  by (simp add: createNotificationIfNewSince_def)

lemma notify_unique:
  assumes "count_rows (notification_for org u lt thr since) ns \<le> 1"
  shows "count_rows (notification_for org u lt thr since)
    (createNotificationIfNewSince env org' u' lt' thr' cur m since ns) \<le> 1"
proof (cases "org' = org \<and> u' = u \<and> lt' = lt \<and> thr' = thr")
  case True
  then show ?thesis
    using assms
    by (auto simp: createNotificationIfNewSince_def count_rows_def list_ex_iff filter_empty_conv)
next
  case False
  with assms show ?thesis
    by (auto simp: createNotificationIfNewSince_def count_rows_def notification_for_def)
qed

text \<open>The notifications of a day that a user should have, and \<open>checkAndNotify\<close> as one pass over them.\<close>

definition due :: "millis \<Rightarrow> ident \<Rightarrow> ident \<Rightarrow> UsageDb \<Rightarrow> (string \<times> int \<times> int \<times> int) list" where
  "due now org u db =
     (case getEffectiveLimit org u db of
        None \<Rightarrow> []
      | Some limit \<Rightarrow>
          concat (map (\<lambda>(limitType, current, m).
              map (\<lambda>threshold. (limitType, threshold, current, m))
                (filter (\<lambda>threshold. threshold \<le> usage_pct current m) (notify_thresholds limit)))
            (buildLimitThresholdChecks (getCurrentUsage now org u db) limit)))"

definition notify_all ::
  "UsageEnv \<Rightarrow> ident \<Rightarrow> ident \<Rightarrow> (string \<times> int \<times> int \<times> int) list \<Rightarrow>
     AIUsageNotification list \<Rightarrow> AIUsageNotification list" where
  "notify_all env org u ds ns =
     fold (\<lambda>(limitType, threshold, current, m).
       createNotificationIfNew env org u limitType threshold current m) ds ns"

lemma notify_all_simps [simp]:
  "notify_all env org u [] ns = ns"
  "notify_all env org u ((lt, thr, cur, m) # ds) ns =
     notify_all env org u ds (createNotificationIfNew env org u lt thr cur m ns)"
  "notify_all env org u (ds @ ds') ns = notify_all env org u ds' (notify_all env org u ds ns)"
  by (simp_all add: notify_all_def)

lemma fold_thresholds:
  "fold (\<lambda>threshold ns. if threshold \<le> pct
        then createNotificationIfNew env org u lt threshold cur m ns else ns) ts ns =
     notify_all env org u (map (\<lambda>threshold. (lt, threshold, cur, m)) (filter (\<lambda>t. t \<le> pct) ts)) ns"
  by (induction ts arbitrary: ns) auto

lemma fold_checks:
  "fold (\<lambda>(limitType, current, m). fold (\<lambda>threshold ns.
       if threshold \<le> usage_pct current m
       then createNotificationIfNew env org u limitType threshold current m ns else ns) ts) checks ns =
   notify_all env org u (concat (map (\<lambda>(limitType, current, m).
       map (\<lambda>threshold. (limitType, threshold, current, m))
         (filter (\<lambda>threshold. threshold \<le> usage_pct current m) ts)) checks)) ns"
  by (induction checks arbitrary: ns) (auto simp: fold_thresholds)

lemma checkAndNotify_due:
  "ud_notifications (checkAndNotify env org u db) =
     notify_all env org u (due (ue_now env) org u db) (ud_notifications db)"
  by (simp add: checkAndNotify_def due_def fold_checks split: option.split)

lemma notify_all_grows: "\<exists>new. notify_all env org u ds ns = ns @ new"
proof (induction ds arbitrary: ns)
  case (Cons d ds)
  obtain lt thr cur m where d: "d = (lt, thr, cur, m)" by (cases d)
  obtain x where "createNotificationIfNew env org u lt thr cur m ns = ns @ x"
    unfolding createNotificationIfNew_def using notify_grows by blast
  with Cons.IH [of "ns @ x"] d show ?case by auto
qed simp

lemma notify_all_covers:
  "(lt, thr, cur, m) \<in> set ds \<Longrightarrow>
     list_ex (notification_for org u lt thr (startOfDay (getUtcUsageWindow (ue_now env))))
       (notify_all env org u ds ns)"
proof (induction ds arbitrary: ns)
  case (Cons d ds)
  obtain lt' thr' cur' m' where d: "d = (lt', thr', cur', m')" by (cases d)
  show ?case
  proof (cases "d = (lt, thr, cur, m)")
    case True
    let ?ns = "createNotificationIfNew env org u lt thr cur m ns"
    have "list_ex (notification_for org u lt thr (startOfDay (getUtcUsageWindow (ue_now env)))) ?ns"
      unfolding createNotificationIfNew_def by (rule notify_covers [OF daily.start_le])
    moreover obtain x where "notify_all env org u ds ?ns = ?ns @ x" using notify_all_grows by blast
    ultimately show ?thesis using True by simp
  next
    case False
    then have "(lt, thr, cur, m) \<in> set ds" using Cons.prems by auto
    from Cons.IH [OF this] d show ?thesis by simp
  qed
qed simp

lemma notify_all_fixed:
  "(\<And>lt thr cur m. (lt, thr, cur, m) \<in> set ds \<Longrightarrow>
      list_ex (notification_for org u lt thr (startOfDay (getUtcUsageWindow (ue_now env)))) ns) \<Longrightarrow>
     notify_all env org u ds ns = ns"
proof (induction ds)
  case (Cons d ds)
  obtain lt thr cur m where d: "d = (lt, thr, cur, m)" by (cases d)
  with Cons.prems [of lt thr cur m] have "createNotificationIfNew env org u lt thr cur m ns = ns"
    by (simp add: createNotificationIfNew_def notify_fixed)
  moreover have "notify_all env org u ds ns = ns"
    by (rule Cons.IH) (use Cons.prems in auto)
  ultimately show ?case using d by simp
qed simp

lemma notify_all_unique:
  "count_rows (notification_for org u lt thr (startOfDay (getUtcUsageWindow (ue_now env)))) ns \<le> 1 \<Longrightarrow>
   count_rows (notification_for org u lt thr (startOfDay (getUtcUsageWindow (ue_now env))))
     (notify_all env org' u' ds ns) \<le> 1"
proof (induction ds arbitrary: ns)
  case (Cons d ds)
  obtain lt' thr' cur m where d: "d = (lt', thr', cur, m)" by (cases d)
  show ?case
    using Cons.IH [OF notify_unique [OF Cons.prems], of env org' u' lt' thr' cur m] d
    by (simp add: createNotificationIfNew_def)
qed simp

lemma due_notifications [simp]: "due now org u (db\<lparr> ud_notifications := ns \<rparr>) = due now org u db"
  by (simp add: due_def getEffectiveLimit_def getCurrentUsage_def cong: option.case_cong)

lemma checkAndNotify_shape:
  "checkAndNotify env org u db =
     db\<lparr> ud_notifications := notify_all env org u (due (ue_now env) org u db) (ud_notifications db) \<rparr>"
  by (simp add: checkAndNotify_def due_def fold_checks split: option.split)

text \<open>
  Notifications of thresholds: after \<open>checkAndNotify\<close> every threshold the user's consumption has
  reached has its notification of the day, a threshold is notified at most once a day, earlier
  notifications are kept, and checking again at the same time adds nothing.
\<close>

theorem thresholds_notified_once:
  assumes "getEffectiveLimit org u db = Some l"
    and "(limitType, current, m) \<in> set (buildLimitThresholdChecks (getCurrentUsage (ue_now env) org u db) l)"
    and "threshold \<in> set (notify_thresholds l)" and "threshold \<le> usage_pct current m"
    and "count_rows (notification_for org u limitType threshold
      (startOfDay (getUtcUsageWindow (ue_now env)))) (ud_notifications db) \<le> 1"
  shows "count_rows (notification_for org u limitType threshold
      (startOfDay (getUtcUsageWindow (ue_now env)))) (ud_notifications (checkAndNotify env org u db)) = 1 \<and>
    (\<exists>new. ud_notifications (checkAndNotify env org u db) = ud_notifications db @ new) \<and>
    checkAndNotify env org u (checkAndNotify env org u db) = checkAndNotify env org u db"
proof (intro conjI)
  let ?p = "notification_for org u limitType threshold (startOfDay (getUtcUsageWindow (ue_now env)))"
  have "(limitType, threshold, current, m) \<in> set (due (ue_now env) org u db)"
    unfolding due_def assms(1) option.case set_concat set_map
    by (rule UN_I [OF imageI [OF assms(2)]]) (use assms(3,4) in simp)
  then have "list_ex ?p (ud_notifications (checkAndNotify env org u db))"
    unfolding checkAndNotify_due by (rule notify_all_covers)
  then have "0 < count_rows ?p (ud_notifications (checkAndNotify env org u db))"
    by (auto simp: count_rows_def list_ex_iff filter_empty_conv)
  moreover have "count_rows ?p (ud_notifications (checkAndNotify env org u db)) \<le> 1"
    unfolding checkAndNotify_due by (rule notify_all_unique [OF assms(5)])
  ultimately show "count_rows ?p (ud_notifications (checkAndNotify env org u db)) = 1" by simp
  show "\<exists>new. ud_notifications (checkAndNotify env org u db) = ud_notifications db @ new"
    unfolding checkAndNotify_due by (rule notify_all_grows)
  show "checkAndNotify env org u (checkAndNotify env org u db) = checkAndNotify env org u db"
  proof -
    have "notify_all env org u (due (ue_now env) org u db)
        (notify_all env org u (due (ue_now env) org u db) (ud_notifications db)) =
      notify_all env org u (due (ue_now env) org u db) (ud_notifications db)"
      by (rule notify_all_fixed) (rule notify_all_covers)
    then show ?thesis by (simp add: checkAndNotify_shape)
  qed
qed

section \<open>The default limit of an organization\<close>

text \<open>
  The default limit cannot be changed: setting the limit of an organization (no user given) looks for a
  row of the user \<open>org_default\<close>, which the default row, stored with no user, never is. When the
  organization has a default limit and no user of that id, a second row is added, and in insertion
  order the users without a limit of their own keep the old one.
\<close>

theorem default_limit_unchangeable:
  assumes "sl_userId i = None" and "sl_organizationId i = org"
    and "List.find (\<lambda>l. lim_organizationId l = org \<and> lim_userId l = Some ''org_default'') (ud_limits db) = None"
    and "List.find (\<lambda>l. lim_organizationId l = org \<and> lim_userId l = Some u) (ud_limits db) = None"
    and "getEffectiveLimit org u db = Some l"
  shows "getEffectiveLimit org u (setLimit i db) = Some l \<and>
    count_rows (\<lambda>l. lim_organizationId l = org \<and> lim_userId l = None) (ud_limits (setLimit i db)) =
    Suc (count_rows (\<lambda>l. lim_organizationId l = org \<and> lim_userId l = None) (ud_limits db))"
proof -
  have "\<not> list_ex (\<lambda>l. lim_organizationId l = org \<and> lim_userId l = Some ''org_default'') (ud_limits db)"
    using assms(3) by (auto simp: find_None_iff list_ex_iff)
  with assms(1,2) have s: "ud_limits (setLimit i db) = ud_limits db @ [apply_limit i (new_limit org None)]"
    by (simp add: setLimit_def upsert_def)
  have new: "lim_organizationId (apply_limit i (new_limit org None)) = org"
    "lim_userId (apply_limit i (new_limit org None)) = None"
    by (simp_all add: apply_limit_def new_limit_def)
  from assms(4,5) show ?thesis
    unfolding getEffectiveLimit_def s by (simp add: find_append new count_rows_def)
qed

text \<open>Setting the limit of a user puts it in force, and touches no other user's limit.\<close>

theorem user_limit_in_force:
  assumes "sl_userId i = Some u" and "sl_organizationId i = org"
    and "u' \<noteq> u \<or> org' \<noteq> org"
  shows "getEffectiveLimit org u (setLimit i db) =
      Some (apply_limit i (case List.find (\<lambda>l. lim_organizationId l = org \<and> lim_userId l = Some u) (ud_limits db) of
        None \<Rightarrow> new_limit org (Some u) | Some l \<Rightarrow> l)) \<and>
    getEffectiveLimit org' u' (setLimit i db) = getEffectiveLimit org' u' db"
proof
  let ?p = "\<lambda>l. lim_organizationId l = org \<and> lim_userId l = Some u"
  have k: "?p (apply_limit i l) \<longleftrightarrow> ?p l" "lim_organizationId (apply_limit i l) = lim_organizationId l"
    "lim_userId (apply_limit i l) = lim_userId l" for l
    by (simp_all add: apply_limit_def)
  have n: "?p (new_limit org (Some u))" by (simp add: new_limit_def)
  have lim: "ud_limits (setLimit i db) =
      upsert ?p (apply_limit i (new_limit org (Some u))) (apply_limit i) (ud_limits db)"
    using assms(1,2) by (simp add: setLimit_def)
  have "List.find ?p (ud_limits (setLimit i db)) =
      Some (case List.find ?p (ud_limits db) of None \<Rightarrow> apply_limit i (new_limit org (Some u))
            | Some r \<Rightarrow> apply_limit i r)"
    unfolding lim by (rule find_upsert_same) (use k n in simp_all)
  then show "getEffectiveLimit org u (setLimit i db) =
      Some (apply_limit i (case List.find ?p (ud_limits db) of None \<Rightarrow> new_limit org (Some u) | Some l \<Rightarrow> l))"
    by (simp add: getEffectiveLimit_def split: option.split)
  have "List.find q (ud_limits (setLimit i db)) = List.find q (ud_limits db)"
    if "\<And>l. ?p l \<Longrightarrow> \<not> q l" "\<And>l. q (apply_limit i l) = q l" for q
    unfolding lim using that n by (intro find_upsert_other) auto
  from this [of "\<lambda>l. lim_organizationId l = org' \<and> lim_userId l = Some u'"]
    this [of "\<lambda>l. lim_organizationId l = org' \<and> lim_userId l = None"] assms(3)
  show "getEffectiveLimit org' u' (setLimit i db) = getEffectiveLimit org' u' db"
    by (auto simp: getEffectiveLimit_def k cong: option.case_cong)
qed

end
