(* ===== verification/Usage_Witness.thy ===== *)
theory Usage_Witness
  imports Usage_Ledger
begin

text \<open>Concrete states of the usage tables at which the properties of \<open>Usage_Ledger\<close> apply.\<close>

definition sample_usage_db :: UsageDb where
  "sample_usage_db =
     \<lparr> ud_records = [],
       ud_balances = [\<lparr> ub_id = ''b1'', ub_organizationId = ''org'', ub_userId = ''u1'',
                        ub_balanceCents = 500, ub_lifetimeSpentCents = 0 \<rparr>],
       ud_transactions = [\<lparr> ut_balanceId = ''b1'', ut_type = CREDIT, ut_amountCents = 500,
                            ut_description = ''top-up'' \<rparr>],
       ud_notifications = [],
       ud_limits = [(new_limit ''org'' None)\<lparr> lim_maxRequestsPerDay := Some 2 \<rparr>],
       ud_pricing = [\<lparr> mp_provider = ''openai'', mp_modelId = ''gpt'', mp_inputCostPer1kTokens = 3,
                       mp_outputCostPer1kTokens = 6 \<rparr>],
       ud_policies = [], ud_users = [], ud_chargeKeys = [] \<rparr>"

definition sample_context :: UsageContext where
  "sample_context =
     \<lparr> cx_organizationId = ''org'', cx_userId = ''u1'', cx_operation = RAG_QUERY,
       cx_provider = ''openai'', cx_model = ''gpt'', cx_platformBilled = True \<rparr>"

definition sample_result :: ChatResult where
  "sample_result =
     \<lparr> cr_content = ''ok'', cr_inputTokens = 1000, cr_outputTokens = 500, cr_totalTokens = 1500 \<rparr>"

definition sample_usage_env :: "millis \<Rightarrow> UsageEnv" where
  "sample_usage_env t = \<lparr> ue_now = t, ue_newId = digits, ue_fmt = show_int \<rparr>"

definition sample_call :: "millis \<Rightarrow> chat_call" where
  "sample_call t =
     (t, sample_usage_env t, sample_context\<lparr> cx_platformBilled := False \<rparr>, Some ''key'', Some sample_result)"

lemmas sample_usage_defs = sample_usage_db_def sample_context_def sample_result_def
  sample_usage_env_def sample_call_def new_limit_def

lemma sample_usage_fields [simp]:
  "ud_records sample_usage_db = []" "ud_chargeKeys sample_usage_db = []"
  "ud_notifications sample_usage_db = []"
  "ue_now (sample_usage_env t) = t"
  by (simp_all add: sample_usage_defs)

theorem usage_ledger_exact_witness:
  "ledger_ok (chat_charge (sample_usage_env 7) sample_context None sample_result sample_usage_db)"
proof -
  have "ledger_ok sample_usage_db"
    by (simp add: ledger_ok_def sample_usage_defs unique_key_def amounts_def)
  moreover have "usage_step\<^sup>*\<^sup>* sample_usage_db
      (chat_charge (sample_usage_env 7) sample_context None sample_result sample_usage_db)"
    by (intro r_into_rtranclp usage_step.charge)
  ultimately show ?thesis by (rule usage_ledger_exact [rotated])
qed

lemma sample_limit:
  "getEffectiveLimit ''org'' ''u1'' sample_usage_db =
     Some ((new_limit ''org'' None)\<lparr> lim_maxRequestsPerDay := Some 2 \<rparr>)"
  by (simp add: getEffectiveLimit_def sample_usage_defs)

lemma sample_guard:
  assumes "ud_limits db = ud_limits sample_usage_db"
    and "count_in (request_of ''org'' ''u1'') (startOfDay (getUtcUsageWindow t)) (ud_records db) < 2"
  shows "chat_guard t (sample_context\<lparr> cx_platformBilled := False \<rparr>) db = Inr ()"
proof -
  have "getEffectiveLimit ''org'' ''u1'' db = Some ((new_limit ''org'' None)\<lparr> lim_maxRequestsPerDay := Some 2 \<rparr>)"
    using assms(1) sample_limit by (simp add: getEffectiveLimit_def cong: option.case_cong)
  with assms(2) show ?thesis
    by (simp add: chat_guard_def enforceLimit_def Let_def getLimitStatus_def evaluateLimitStatus_allowed
        current_usage_counts buildUsageLimits_def new_limit_def sample_context_def)
qed

lemma sample_key:
  "chargeIdempotencyKey (sample_context\<lparr> cx_platformBilled := False \<rparr>) (Some ''key'') = Some ''org:u1:RAG_QUERY:key''"
  by code_simp

lemma sample_call_step:
  assumes "ud_limits db = ud_limits sample_usage_db"
    and "count_in (request_of ''org'' ''u1'') (startOfDay (getUtcUsageWindow t)) (ud_records db) < 2"
    and "jm_get (em_prune t (ud_chargeKeys db)) ''org:u1:RAG_QUERY:key'' = None"
  shows "ud_records (call_step (sample_call t) db) =
      ud_records db @ [usage_record (sample_context\<lparr> cx_platformBilled := False \<rparr>) sample_result 0 t]"
    and "ud_chargeKeys (call_step (sample_call t) db) =
      snd (charge_offer t ''org:u1:RAG_QUERY:key'' (ud_chargeKeys db))"
proof -
  note g = sample_guard [OF assms(1,2)]
  show "ud_records (call_step (sample_call t) db) =
      ud_records db @ [usage_record (sample_context\<lparr> cx_platformBilled := False \<rparr>) sample_result 0 t]"
    unfolding sample_call_def call_step_eq using assms(3)
    by (simp add: g chat_seen_def sample_key hasRecordedUsageCharge_def pruneUsageChargeKeys_def Let_def
        chat_cost_def)
  show "ud_chargeKeys (call_step (sample_call t) db) =
      snd (charge_offer t ''org:u1:RAG_QUERY:key'' (ud_chargeKeys db))"
    unfolding sample_call_def call_keys using g by (simp add: sample_key)
qed

lemma sample_first:
  "ud_records (call_step (sample_call 1000) sample_usage_db) =
     [usage_record (sample_context\<lparr> cx_platformBilled := False \<rparr>) sample_result 0 1000]"
  "ud_chargeKeys (call_step (sample_call 1000) sample_usage_db) =
     [(''org:u1:RAG_QUERY:key'', 86401000)]"
proof -
  note s = sample_call_step [of sample_usage_db 1000]
  show "ud_records (call_step (sample_call 1000) sample_usage_db) =
     [usage_record (sample_context\<lparr> cx_platformBilled := False \<rparr>) sample_result 0 1000]"
    by (subst s(1)) (simp_all add: count_in_def count_rows_def em_prune_def jm_prune_def)
  have "snd (charge_offer 1000 ''org:u1:RAG_QUERY:key'' []) = [(''org:u1:RAG_QUERY:key'', 86401000)]"
    by code_simp
  then show "ud_chargeKeys (call_step (sample_call 1000) sample_usage_db) =
     [(''org:u1:RAG_QUERY:key'', 86401000)]"
    by (subst s(2)) (simp_all add: count_in_def count_rows_def em_prune_def jm_prune_def)
qed

lemma sample_second:
  "ud_records (call_step (sample_call 90000000) (call_step (sample_call 1000) sample_usage_db)) \<noteq>
     ud_records (call_step (sample_call 1000) sample_usage_db)"
proof -
  have "jm_get (em_prune 90000000 [(''org:u1:RAG_QUERY:key'', 86401000)]) ''org:u1:RAG_QUERY:key'' = None"
    by code_simp
  then show ?thesis
    by (subst sample_call_step(1)) (simp_all add: sample_first count_in_def count_rows_def)
qed

theorem usage_stays_within_limits_witness:
  "within_limits (getCurrentUsage 1000 ''org'' ''u1'' (run_calls [sample_call 1000] sample_usage_db))
     ((new_limit ''org'' None)\<lparr> lim_maxRequestsPerDay := Some 2 \<rparr>) \<and>
   ud_records (run_calls [sample_call 1000] sample_usage_db) \<noteq> []"
proof
  show "within_limits (getCurrentUsage 1000 ''org'' ''u1'' (run_calls [sample_call 1000] sample_usage_db))
     ((new_limit ''org'' None)\<lparr> lim_maxRequestsPerDay := Some 2 \<rparr>)"
    by (rule usage_stays_within_limits [of 0, OF _ _ sample_limit])
      (simp_all add: sample_call_def within_limits_def current_usage_counts count_in_def count_rows_def
        new_limit_def)
qed (simp add: sample_first)

theorem charged_once_per_day_witness:
  "1000 + 24 * 60 * 60 * 1000 \<le> (90000000 :: int) \<and>
   ud_records (run_calls [sample_call 1000, sample_call 90000000] sample_usage_db) \<noteq>
     ud_records (run_calls [sample_call 1000] sample_usage_db)"
proof -
  have "ue_now (sample_usage_env 1000) + 24 * 60 * 60 * 1000 \<le> ue_now (sample_usage_env 90000000)"
    by (rule charged_once_per_day [where t = 0 and pre = "[]" and mid = "[]" and db = sample_usage_db and
          nA = 1000 and nB = 90000000 and iA = "Some sample_result" and iB = "Some sample_result",
          OF _ _ sample_key sample_key])
      (use sample_first sample_second in \<open>simp_all add: sample_call_def\<close>)
  with sample_second show ?thesis by simp
qed

theorem overlapping_calls_both_charged_witness:
  "length (ud_records (chat_charge (sample_usage_env 9) sample_context (Some ''key'') sample_result
     (chat_charge (sample_usage_env 8) sample_context (Some ''key'') sample_result
       (snd (chat_seen 7 sample_context (Some ''key'') (snd (chat_seen 6 sample_context (Some ''key'')
         sample_usage_db))))))) = 2"
proof -
  have "\<not> fst (chat_seen 6 sample_context (Some ''key'') sample_usage_db)"
    by (simp add: chat_seen_def hasRecordedUsageCharge_def pruneUsageChargeKeys_def em_prune_def
        jm_prune_def Let_def split: option.split)
  from overlapping_calls_both_charged [OF this, of 7] show ?thesis by simp
qed

definition warned_usage_db :: UsageDb where
  "warned_usage_db = sample_usage_db\<lparr>
     ud_records := [usage_record sample_context sample_result 6 1000],
     ud_limits := [(new_limit ''org'' None)\<lparr> lim_maxRequestsPerDay := Some 2, lim_warningThresholdPct := 50 \<rparr>] \<rparr>"

theorem thresholds_notified_once_witness:
  "count_rows (notification_for ''org'' ''u1'' ''daily_requests'' 50
     (startOfDay (getUtcUsageWindow 1000)))
     (ud_notifications (checkAndNotify (sample_usage_env 1000) ''org'' ''u1'' warned_usage_db)) = 1"
proof -
  let ?l = "(new_limit ''org'' None)\<lparr> lim_maxRequestsPerDay := Some 2, lim_warningThresholdPct := 50 \<rparr>"
  have l: "getEffectiveLimit ''org'' ''u1'' warned_usage_db = Some ?l"
    by (simp add: getEffectiveLimit_def warned_usage_db_def new_limit_def)
  have "dailyRequests (getCurrentUsage 1000 ''org'' ''u1'' warned_usage_db) = 1"
    by (simp add: current_usage_counts warned_usage_db_def count_in_def count_rows_def request_of_def
        usage_record_def sample_context_def startOfDay_eq day_of_def ms_per_day_def)
  then have c: "(''daily_requests'', 1, 2) \<in> set (buildLimitThresholdChecks
      (getCurrentUsage (ue_now (sample_usage_env 1000)) ''org'' ''u1'' warned_usage_db) ?l)"
    by (simp add: buildLimitThresholdChecks_def limit_check_def new_limit_def)
  show ?thesis
    using thresholds_notified_once [OF l c, of 50]
    by (simp add: notify_thresholds_def usage_pct_def js_round_def warned_usage_db_def count_rows_def)
qed

definition sample_set_limit :: "ident option \<Rightarrow> SetLimitInput" where
  "sample_set_limit u =
     \<lparr> sl_organizationId = ''org'', sl_userId = u, sl_maxTokensPerWeek = None, sl_maxTokensPerDay = None,
       sl_maxTokensPerMonth = None, sl_maxRequestsPerWeek = None, sl_maxRequestsPerDay = Some (Some 9),
       sl_maxRequestsPerMonth = None, sl_maxStoriesPerWeek = None, sl_maxStoriesPerMonth = None,
       sl_warningThresholdPct = None \<rparr>"

theorem default_limit_unchangeable_witness:
  "map_option lim_maxRequestsPerDay
     (getEffectiveLimit ''org'' ''u1'' (setLimit (sample_set_limit None) sample_usage_db)) = Some (Some 2)"
proof -
  have "List.find (\<lambda>l. lim_organizationId l = ''org'' \<and> lim_userId l = Some x) (ud_limits sample_usage_db) = None"
    for x by (simp add: sample_usage_defs)
  from default_limit_unchangeable [OF _ _ this this sample_limit, of "sample_set_limit None"]
  show ?thesis by (simp add: sample_set_limit_def new_limit_def)
qed

theorem user_limit_in_force_witness:
  "map_option lim_maxRequestsPerDay
     (getEffectiveLimit ''org'' ''u1'' (setLimit (sample_set_limit (Some ''u1'')) sample_usage_db)) =
   Some (Some 9)"
  using user_limit_in_force [of "sample_set_limit (Some ''u1'')" "''u1''" "''org''" "''u2''" "''org''"
      sample_usage_db]
  by (simp add: sample_set_limit_def apply_limit_def new_limit_def sample_usage_defs)

end
