(* ===== verification/Account_Merge.thy ===== *)
theory Account_Merge
  imports Account_Access Company_Text
begin

text \<open>
  \<open>src/services/account-merge.ts\<close>: merging a duplicate account into another and undoing the merge. A
  merge is one database transaction; the constraints of the schema it can violate are checked where
  the statement runs: the unique keys of contacts, events and Salesforce ids, and the foreign key of the
  regeneration logs when the account is deleted. A violation aborts the transaction.
\<close>

section \<open>State\<close>

text \<open>The snapshot of an account; its lists are those of the tables, by id.\<close>

record AccountPreview =
  pv_id :: ident
  pv_name :: string
  pv_domain :: "string option"
  pv_industry :: "string option"
  pv_employeeCount :: "int option"
  pv_annualRevenue :: "real option"
  pv_domainAliases :: "string list"
  pv_contacts :: "ident list"
  pv_calls :: "ident list"
  pv_stories :: "ident list"
  pv_landingPages :: "ident list"

record AccountMergeRun =
  mr_id :: ident
  mr_organizationId :: ident
  mr_primaryAccountId :: ident
  mr_secondaryAccountId :: ident
  mr_status :: string
  mr_initiatedByUserId :: "ident option"
  mr_undoneByUserId :: "ident option"
  mr_mergePreview :: "(AccountPreview \<times> AccountPreview) option"
  mr_movedContactIds :: "ident list"
  mr_movedCallIds :: "ident list"
  mr_movedStoryIds :: "ident list"
  mr_movedLandingPageIds :: "ident list"
  mr_notes :: "string option"
  mr_undoneAt :: "millis option"

record MergeDb =
  md_accounts :: "Account list"
  md_domains :: "AccountDomain list"
  md_contacts :: "Contact list"
  md_participants :: "CallParticipant list"
  md_calls :: "Call list"
  md_stories :: "Story list"
  md_pages :: "LandingPage list"
  md_events :: "SalesforceEvent list"
  md_access :: "UserAccountAccess list"
  md_quotes :: "Quote list"
  md_regenLogs :: "StoryRegenLog list"
  md_runs :: "AccountMergeRun list"

datatype MergeError =
  AccountNotFound ident | SelfMerge | UniqueViolation | ForeignKeyViolation |
  RunNotFound | RunAlreadyUndone | SnapshotMissing

record MergeResult =
  res_mergeRunId :: ident
  res_contactsMoved :: nat
  res_callsMoved :: nat
  res_storiesMoved :: nat
  res_landingPagesMoved :: nat
  res_domainAliasesAdded :: "string list"

definition find_account :: "ident \<Rightarrow> ident \<Rightarrow> Account list \<Rightarrow> Account option" where
  "find_account org accountId rows =
     List.find (\<lambda>a. a_id a = accountId \<and> a_organizationId a = org) rows"

section \<open>Preview\<close>

definition loadAccountPreview :: "ident \<Rightarrow> ident \<Rightarrow> MergeDb \<Rightarrow> (MergeError, AccountPreview) res" where
  "loadAccountPreview org accountId db =
     (case find_account org accountId (md_accounts db) of
        None \<Rightarrow> Inl (AccountNotFound accountId)
      | Some account \<Rightarrow>
          let stories = map st_id (filter (\<lambda>s. st_accountId s = accountId) (md_stories db)) in
          Inr \<lparr> pv_id = a_id account, pv_name = a_name account, pv_domain = a_domain account,
                pv_industry = a_industry account, pv_employeeCount = a_employeeCount account,
                pv_annualRevenue = a_annualRevenue account,
                pv_domainAliases =
                  map ad_domain (filter (\<lambda>d. ad_accountId d = accountId) (md_domains db)),
                pv_contacts = map ct_id (filter (\<lambda>c. ct_accountId c = accountId) (md_contacts db)),
                pv_calls = map call_id (filter (\<lambda>c. call_accountId c = Some accountId) (md_calls db)),
                pv_stories = stories,
                pv_landingPages = map lp_id (filter (\<lambda>p. lp_organizationId p = org \<and>
                  lp_storyId p \<in> set stories) (md_pages db)) \<rparr>)"

definition previewMerge ::
  "ident \<Rightarrow> ident \<Rightarrow> ident \<Rightarrow> MergeDb \<Rightarrow> (MergeError, AccountPreview \<times> AccountPreview) res" where
  "previewMerge org primaryId secondaryId db =
     (case loadAccountPreview org primaryId db of
        Inl e \<Rightarrow> Inl e
      | Inr primary \<Rightarrow>
          (case loadAccountPreview org secondaryId db of
             Inl e \<Rightarrow> Inl e
           | Inr secondary \<Rightarrow> Inr (primary, secondary)))"

section \<open>The steps of a merge\<close>

text \<open>One turn of the loop over the secondary account's contacts.\<close>

definition move_contact ::
  "ident \<Rightarrow> string set \<Rightarrow> Contact \<Rightarrow> Contact list \<times> CallParticipant list \<times> ident list \<Rightarrow>
     Contact list \<times> CallParticipant list \<times> ident list" where
  "move_contact primaryId primaryEmails contact st =
     (case st of (contacts, participants, moved) \<Rightarrow>
        if ct_email contact \<in> primaryEmails
        then (delete_many (\<lambda>c. ct_id c = ct_id contact) contacts,
              update_many (\<lambda>p. cp_contactId p = Some (ct_id contact)) (\<lambda>p. p\<lparr> cp_contactId := None \<rparr>)
                participants,
              moved)
        else (update_many (\<lambda>c. ct_id c = ct_id contact) (\<lambda>c. c\<lparr> ct_accountId := primaryId \<rparr>) contacts,
              participants, moved @ [ct_id contact]))"

definition has_alias :: "ident \<Rightarrow> string \<Rightarrow> AccountDomain list \<Rightarrow> bool" where
  "has_alias accountId domain rows = list_ex (\<lambda>d. ad_accountId d = accountId \<and> ad_domain d = domain) rows"

definition add_main_domain ::
  "ident \<Rightarrow> Account \<Rightarrow> Account \<Rightarrow> AccountDomain list \<Rightarrow> AccountDomain list \<times> string list" where
  "add_main_domain newId primary secondary rows =
     (if truthy (a_domain secondary) \<and> a_domain secondary \<noteq> a_domain primary then
        let d = the (a_domain secondary) in
        if has_alias (a_id primary) d rows then (rows, [])
        else (rows @ [\<lparr> ad_id = newId, ad_accountId = a_id primary, ad_domain = d \<rparr>], [d])
      else (rows, []))"

definition move_alias ::
  "Account \<Rightarrow> AccountDomain \<Rightarrow> AccountDomain list \<times> string list \<Rightarrow> AccountDomain list \<times> string list" where
  "move_alias primary alias st =
     (case st of (rows, added) \<Rightarrow>
        if Some (ad_domain alias) = a_domain primary
        then (delete_many (\<lambda>d. ad_id d = ad_id alias) rows, added)
        else if \<not> has_alias (a_id primary) (ad_domain alias) rows
        then (update_many (\<lambda>d. ad_id d = ad_id alias) (\<lambda>d. d\<lparr> ad_accountId := a_id primary \<rparr>) rows,
              added @ [ad_domain alias])
        else (delete_many (\<lambda>d. ad_id d = ad_id alias) rows, added))"

text \<open>\<open>crmUpdates\<close>: what the primary lacks and the secondary has.\<close>

definition fill :: "string option \<Rightarrow> string option \<Rightarrow> string option" where
  "fill mine other = (if \<not> truthy mine \<and> truthy other then other else mine)"

definition fill_num :: "'a option \<Rightarrow> 'a option \<Rightarrow> 'a option" where
  "fill_num mine other = (if mine = None \<and> other \<noteq> None then other else mine)"

definition crmUpdates :: "Account \<Rightarrow> Account \<Rightarrow> Account \<Rightarrow> Account" where
  "crmUpdates primary secondary a =
     a\<lparr> a_salesforceId := fill (a_salesforceId primary) (a_salesforceId secondary),
        a_hubspotId := fill (a_hubspotId primary) (a_hubspotId secondary),
        a_mergeAccountId := fill (a_mergeAccountId primary) (a_mergeAccountId secondary),
        a_industry := fill (a_industry primary) (a_industry secondary),
        a_employeeCount := fill_num (a_employeeCount primary) (a_employeeCount secondary),
        a_annualRevenue := fill_num (a_annualRevenue primary) (a_annualRevenue secondary) \<rparr>"

text \<open>The unique keys; \<open>null\<close> never equals \<open>null\<close>.\<close>

definition salesforce_keys :: "Account list \<Rightarrow> (ident \<times> string) list" where
  "salesforce_keys rows =
     concat (map (\<lambda>a. case a_salesforceId a of None \<Rightarrow> [] | Some s \<Rightarrow> [(a_organizationId a, s)]) rows)"

definition event_keys :: "SalesforceEvent list \<Rightarrow> (ident \<times> string \<times> string) list" where
  "event_keys rows =
     concat (map (\<lambda>e. case (se_opportunityId e, se_stageName e) of
       (Some opp, Some stage) \<Rightarrow> [(se_accountId e, opp, stage)] | _ \<Rightarrow> []) rows)"

definition contact_key :: "Contact \<Rightarrow> ident \<times> string" where
  "contact_key c = (ct_accountId c, ct_email c)"

section \<open>Merge and undo\<close>

definition executeMerge ::
  "ident \<Rightarrow> ident \<Rightarrow> ident \<Rightarrow> ident \<Rightarrow> ident \<Rightarrow> ident option \<Rightarrow> string option \<Rightarrow> MergeDb \<Rightarrow>
     (MergeError, MergeResult \<times> MergeDb) res" where
  "executeMerge runId aliasId org primaryId secondaryId initiatedBy notes db =
    (case (find_account org primaryId (md_accounts db), find_account org secondaryId (md_accounts db)) of
       (None, _) \<Rightarrow> Inl (AccountNotFound primaryId)
     | (Some _, None) \<Rightarrow> Inl (AccountNotFound secondaryId)
     | (Some primary, Some secondary) \<Rightarrow>
       if primaryId = secondaryId then Inl SelfMerge
       else (case previewMerge org primaryId secondaryId db of
         Inl e \<Rightarrow> Inl e
       | Inr preview \<Rightarrow>
         let
           primaryEmails = ct_email ` set (filter (\<lambda>c. ct_accountId c = primaryId) (md_contacts db));
           secondaryContacts = filter (\<lambda>c. ct_accountId c = secondaryId) (md_contacts db);
           (contacts, participants, movedContactIds) =
             fold (move_contact primaryId primaryEmails) secondaryContacts
               (md_contacts db, md_participants db, []);
           movedCallIds = map call_id (filter (\<lambda>c. call_accountId c = Some secondaryId) (md_calls db));
           calls = update_many (\<lambda>c. call_accountId c = Some secondaryId)
             (\<lambda>c. c\<lparr> call_accountId := Some primaryId \<rparr>) (md_calls db);
           movedStoryIds = map st_id (filter (\<lambda>s. st_accountId s = secondaryId) (md_stories db));
           stories = update_many (\<lambda>s. st_accountId s = secondaryId)
             (\<lambda>s. s\<lparr> st_accountId := primaryId \<rparr>) (md_stories db);
           movedLandingPageIds = map lp_id (filter (\<lambda>p. lp_organizationId p = org \<and>
             lp_storyId p \<in> set movedStoryIds) (md_pages db));
           events = update_many (\<lambda>e. se_accountId e = secondaryId)
             (\<lambda>e. e\<lparr> se_accountId := primaryId \<rparr>) (md_events db);
           access = update_many (\<lambda>g. uaa_accountId g = Some secondaryId)
             (\<lambda>g. g\<lparr> uaa_accountId := Some primaryId \<rparr>) (md_access db);
           (domains1, added1) = add_main_domain aliasId primary secondary (md_domains db);
           (domains2, added2) = fold (move_alias primary)
             (filter (\<lambda>d. ad_accountId d = secondaryId) domains1) (domains1, added1);
           accounts = update_many (\<lambda>a. a_id a = primaryId) (crmUpdates primary secondary) (md_accounts db)
         in
           if \<not> unique_key contact_key contacts \<or> \<not> distinct (event_keys events) \<or>
              \<not> distinct (salesforce_keys accounts)
           then Inl UniqueViolation
           else if list_ex (\<lambda>l. srl_accountId l = secondaryId) (md_regenLogs db)
           then Inl ForeignKeyViolation
           else Inr
             (\<lparr> res_mergeRunId = runId, res_contactsMoved = length movedContactIds,
                res_callsMoved = length movedCallIds, res_storiesMoved = length movedStoryIds,
                res_landingPagesMoved = length movedLandingPageIds, res_domainAliasesAdded = added2 \<rparr>,
              db\<lparr> md_accounts := delete_many (\<lambda>a. a_id a = secondaryId) accounts,
                  md_domains := delete_many (\<lambda>d. ad_accountId d = secondaryId) domains2,
                  md_contacts := contacts, md_participants := participants, md_calls := calls,
                  md_stories := stories, md_events := events, md_access := access,
                  md_quotes := delete_many (\<lambda>q. q_accountId q = secondaryId) (md_quotes db),
                  md_runs := md_runs db @
                    [\<lparr> mr_id = runId, mr_organizationId = org, mr_primaryAccountId = primaryId,
                       mr_secondaryAccountId = secondaryId, mr_status = ''COMPLETED'',
                       mr_initiatedByUserId = initiatedBy, mr_undoneByUserId = None,
                       mr_mergePreview = Some preview, mr_movedContactIds = movedContactIds,
                       mr_movedCallIds = movedCallIds, mr_movedStoryIds = movedStoryIds,
                       mr_movedLandingPageIds = movedLandingPageIds, mr_notes = notes,
                       mr_undoneAt = None \<rparr>] \<rparr>)))"

text \<open>
  \<open>undoMerge\<close>. The account is created anew when it does not exist; a domain or id of another account
  with the same unique key aborts the transaction.
\<close>

definition account_of_snapshot :: "ident \<Rightarrow> AccountPreview \<Rightarrow> Account" where
  "account_of_snapshot org s =
     \<lparr> a_id = pv_id s, a_organizationId = org, a_name = pv_name s,
       a_normalizedName = normalizeCompanyName (pv_name s), a_domain = pv_domain s,
       a_salesforceId = None, a_hubspotId = None, a_mergeAccountId = None,
       a_industry = pv_industry s, a_employeeCount = pv_employeeCount s,
       a_annualRevenue = pv_annualRevenue s \<rparr>"

definition account_clash :: "Account \<Rightarrow> Account list \<Rightarrow> bool" where
  "account_clash new rows =
     list_ex (\<lambda>a. a_id a = a_id new \<or>
       (a_organizationId a = a_organizationId new \<and> a_domain new \<noteq> None \<and> a_domain a = a_domain new)) rows"

definition undoMerge ::
  "millis \<Rightarrow> ident \<Rightarrow> ident \<Rightarrow> ident option \<Rightarrow> MergeDb \<Rightarrow> (MergeError, MergeDb) res" where
  "undoMerge now org runId undoneBy db =
    (case List.find (\<lambda>r. mr_id r = runId \<and> mr_organizationId r = org) (md_runs db) of
       None \<Rightarrow> Inl RunNotFound
     | Some run \<Rightarrow>
       if mr_status run = ''UNDONE'' then Inl RunAlreadyUndone
       else (case mr_mergePreview run of
         None \<Rightarrow> Inl SnapshotMissing
       | Some (_, secondary) \<Rightarrow>
         let new = account_of_snapshot org secondary;
             exists = find_account org (pv_id secondary) (md_accounts db) \<noteq> None;
             contacts = update_many
               (\<lambda>c. ct_id c \<in> set (mr_movedContactIds run) \<and> ct_accountId c = mr_primaryAccountId run)
               (\<lambda>c. c\<lparr> ct_accountId := mr_secondaryAccountId run \<rparr>) (md_contacts db)
         in
           if (\<not> exists \<and> account_clash new (md_accounts db)) \<or> \<not> unique_key contact_key contacts
           then Inl UniqueViolation
           else Inr (db\<lparr>
             md_accounts := (if exists then md_accounts db else md_accounts db @ [new]),
             md_contacts := contacts,
             md_calls := update_many
               (\<lambda>c. call_id c \<in> set (mr_movedCallIds run) \<and> call_accountId c = Some (mr_primaryAccountId run))
               (\<lambda>c. c\<lparr> call_accountId := Some (mr_secondaryAccountId run) \<rparr>) (md_calls db),
             md_stories := update_many
               (\<lambda>s. st_id s \<in> set (mr_movedStoryIds run) \<and> st_accountId s = mr_primaryAccountId run)
               (\<lambda>s. s\<lparr> st_accountId := mr_secondaryAccountId run \<rparr>) (md_stories db),
             md_runs := update_many (\<lambda>r. mr_id r = mr_id run)
               (\<lambda>r. r\<lparr> mr_status := ''UNDONE'', mr_undoneByUserId := undoneBy, mr_undoneAt := Some now \<rparr>)
               (md_runs db) \<rparr>)))"

section \<open>The loops\<close>

lemma move_contact_step:
  "move_contact p emails c (contacts, parts, moved) =
     (if ct_email c \<in> emails
      then (delete_many (\<lambda>r. ct_id r = ct_id c) contacts,
            update_many (\<lambda>r. cp_contactId r = Some (ct_id c)) (\<lambda>r. r\<lparr> cp_contactId := None \<rparr>) parts, moved)
      else (update_many (\<lambda>r. ct_id r = ct_id c) (\<lambda>r. r\<lparr> ct_accountId := p \<rparr>) contacts, parts,
            moved @ [ct_id c]))"
  by (simp add: move_contact_def)

lemma fold_move_contact:
  "fst (fold (move_contact p emails) cs (contacts, parts, moved)) =
     update_many (\<lambda>r. ct_id r \<in> ct_id ` set (filter (\<lambda>c. ct_email c \<notin> emails) cs)) (\<lambda>r. r\<lparr> ct_accountId := p \<rparr>)
       (delete_many (\<lambda>r. ct_id r \<in> ct_id ` set (filter (\<lambda>c. ct_email c \<in> emails) cs)) contacts) \<and>
   snd (snd (fold (move_contact p emails) cs (contacts, parts, moved))) =
     moved @ map ct_id (filter (\<lambda>c. ct_email c \<notin> emails) cs)"
proof (induction cs arbitrary: contacts parts moved)
  case Nil
  then show ?case by (simp add: update_many_def delete_many_def)
next
  case (Cons c cs)
  show ?case
  proof (cases "ct_email c \<in> emails")
    case True
    then show ?thesis by (simp add: move_contact_step Cons.IH delete_delete)
  next
    case False
    then show ?thesis
      by (simp add: move_contact_step Cons.IH delete_after_update update_update_same)
  qed
qed

lemma moved_contacts:
  fixes contacts :: "Contact list" and parts :: "CallParticipant list" and s p :: ident and emails :: "string set"
  defines "loop \<equiv> fold (move_contact p emails) (filter (\<lambda>c. ct_accountId c = s) contacts) (contacts, parts, [])"
  assumes "unique_key ct_id contacts"
  shows "fst loop = update_many (\<lambda>c. ct_accountId c = s) (\<lambda>c. c\<lparr> ct_accountId := p \<rparr>)
        (delete_many (\<lambda>c. ct_accountId c = s \<and> ct_email c \<in> emails) contacts)"
    and "snd (snd loop) = map ct_id (filter (\<lambda>c. ct_accountId c = s \<and> ct_email c \<notin> emails) contacts)"
proof -
  have id: "ct_id c \<in> ct_id ` set (filter q (filter (\<lambda>c. ct_accountId c = s) contacts)) \<longleftrightarrow>
      ct_accountId c = s \<and> q c" if "c \<in> set contacts" for c q
    using that unique_key_eq [OF assms(2), of c] by (auto simp: image_iff)
  have "delete_many (\<lambda>c. ct_id c \<in> ct_id ` set (filter (\<lambda>c. ct_email c \<in> emails)
        (filter (\<lambda>c. ct_accountId c = s) contacts))) contacts =
      delete_many (\<lambda>c. ct_accountId c = s \<and> ct_email c \<in> emails) contacts"
    by (rule delete_many_cong) (rule id)
  moreover have "update_many (\<lambda>c. ct_id c \<in> ct_id ` set (filter (\<lambda>c. ct_email c \<notin> emails)
        (filter (\<lambda>c. ct_accountId c = s) contacts))) (\<lambda>c. c\<lparr> ct_accountId := p \<rparr>)
        (delete_many (\<lambda>c. ct_accountId c = s \<and> ct_email c \<in> emails) contacts) =
      update_many (\<lambda>c. ct_accountId c = s) (\<lambda>c. c\<lparr> ct_accountId := p \<rparr>)
        (delete_many (\<lambda>c. ct_accountId c = s \<and> ct_email c \<in> emails) contacts)"
    by (rule update_many_cong) (use id [of _ "\<lambda>c. ct_email c \<notin> emails"] in auto)
  ultimately show "fst loop = update_many (\<lambda>c. ct_accountId c = s) (\<lambda>c. c\<lparr> ct_accountId := p \<rparr>)
        (delete_many (\<lambda>c. ct_accountId c = s \<and> ct_email c \<in> emails) contacts)"
    unfolding loop_def by (simp add: fold_move_contact)
  show "snd (snd loop) = map ct_id (filter (\<lambda>c. ct_accountId c = s \<and> ct_email c \<notin> emails) contacts)"
    unfolding loop_def by (simp add: fold_move_contact conj_commute)
qed

text \<open>The aliases: what is on the primary stays, and every alias of the secondary ends up covered.\<close>

definition covered :: "Account \<Rightarrow> string \<Rightarrow> AccountDomain list \<Rightarrow> bool" where
  "covered primary d rows \<longleftrightarrow> a_domain primary = Some d \<or> has_alias (a_id primary) d rows"

definition alias_loop_ok :: "Account \<Rightarrow> AccountDomain list \<Rightarrow> AccountDomain list \<Rightarrow> bool" where
  "alias_loop_ok primary al rows \<longleftrightarrow>
     unique_key ad_id rows \<and> unique_key ad_id al \<and>
     (\<forall>a \<in> set al. a \<in> set rows \<and> ad_accountId a \<noteq> a_id primary)"

lemma move_alias_ok:
  assumes "alias_loop_ok primary (a # al) rows"
  shows "alias_loop_ok primary al (fst (move_alias primary a (rows, added)))"
    and "covered primary d rows \<Longrightarrow> covered primary d (fst (move_alias primary a (rows, added)))"
    and "covered primary (ad_domain a) (fst (move_alias primary a (rows, added)))"
proof -
  have a: "a \<in> set rows" "ad_accountId a \<noteq> a_id primary" and u: "unique_key ad_id rows"
    using assms by (auto simp: alias_loop_ok_def)
  have ual: "unique_key ad_id al" using assms by (simp add: alias_loop_ok_def unique_key_def)
  have rest: "b \<in> set al \<Longrightarrow> ad_id b \<noteq> ad_id a" for b
    using assms by (auto simp: alias_loop_ok_def unique_key_def image_iff)
  have own: "r \<in> set rows \<Longrightarrow> ad_accountId r = a_id primary \<Longrightarrow> ad_id r \<noteq> ad_id a" for r
    using unique_key_eq [OF u _ a(1), of r] a(2) by auto
  show "alias_loop_ok primary al (fst (move_alias primary a (rows, added)))"
    using assms rest u ual
    by (auto simp: alias_loop_ok_def move_alias_def unique_key_delete_many unique_key_update_many
        set_update_many)
  show "covered primary d rows \<Longrightarrow> covered primary d (fst (move_alias primary a (rows, added)))"
    using own by (auto simp: covered_def has_alias_def list_ex_iff move_alias_def set_update_many image_iff)
  show "covered primary (ad_domain a) (fst (move_alias primary a (rows, added)))"
  proof (cases "has_alias (a_id primary) (ad_domain a) rows \<or> Some (ad_domain a) = a_domain primary")
    case True
    then show ?thesis
      using own by (auto simp: covered_def has_alias_def list_ex_iff move_alias_def)
  next
    case False
    have "a\<lparr> ad_accountId := a_id primary \<rparr> \<in>
        set (update_many (\<lambda>d. ad_id d = ad_id a) (\<lambda>d. d\<lparr> ad_accountId := a_id primary \<rparr>) rows)"
      using a(1) by (simp add: set_update_many)
    then have "list_ex (\<lambda>d. ad_accountId d = a_id primary \<and> ad_domain d = ad_domain a)
        (update_many (\<lambda>d. ad_id d = ad_id a) (\<lambda>d. d\<lparr> ad_accountId := a_id primary \<rparr>) rows)"
      unfolding list_ex_iff by (rule bexI [rotated]) simp
    with False show ?thesis by (simp add: covered_def has_alias_def move_alias_def)
  qed
qed

lemma fold_move_alias:
  "alias_loop_ok primary al rows \<Longrightarrow>
     (covered primary d rows \<or> d \<in> ad_domain ` set al) \<Longrightarrow>
     covered primary d (fst (fold (move_alias primary) al (rows, added)))"
proof (induction al arbitrary: rows added)
  case Nil
  then show ?case by simp
next
  case (Cons a al)
  obtain rows' added' where m: "move_alias primary a (rows, added) = (rows', added')"
    by (cases "move_alias primary a (rows, added)")
  note ok = move_alias_ok [OF Cons.prems(1), where added = added, unfolded m fst_conv]
  from Cons.prems(2) ok(2,3) have "covered primary d rows' \<or> d \<in> ad_domain ` set al" by auto
  from Cons.IH [OF ok(1) this] m show ?case by simp
qed

section \<open>A merge moves everything\<close>

definition merge_wf :: "MergeDb \<Rightarrow> bool" where
  "merge_wf db \<longleftrightarrow>
     unique_key a_id (md_accounts db) \<and> unique_key ad_id (md_domains db) \<and>
     unique_key ct_id (md_contacts db) \<and> unique_key contact_key (md_contacts db) \<and>
     unique_key call_id (md_calls db) \<and> unique_key st_id (md_stories db) \<and>
     distinct (salesforce_keys (md_accounts db)) \<and>
     (\<forall>a \<in> set (md_accounts db). \<forall>b \<in> set (md_accounts db).
        a_organizationId a = a_organizationId b \<and> a_domain a = a_domain b \<and> a_domain a \<noteq> None \<longrightarrow> a = b)"

text \<open>The domains by which calls find an account: its own and its aliases, where they are not empty.\<close>

definition account_domains :: "ident \<Rightarrow> MergeDb \<Rightarrow> string set" where
  "account_domains a db =
     {d. d \<noteq> [] \<and> ((\<exists>r \<in> set (md_accounts db). a_id r = a \<and> a_domain r = Some d) \<or>
                   (\<exists>r \<in> set (md_domains db). ad_accountId r = a \<and> ad_domain r = d))}"

lemma find_accountD:
  "find_account org i rows = Some a \<Longrightarrow> a \<in> set rows \<and> a_id a = i \<and> a_organizationId a = org"
  unfolding find_account_def by (drule find_SomeD) auto

text \<open>The final state of a successful merge, with the loops in closed form.\<close>

lemma executeMergeE:
  assumes "executeMerge runId aliasId org p s by' notes db = Inr (r, db')"
  obtains primary secondary preview emails where
    "find_account org p (md_accounts db) = Some primary"
    "find_account org s (md_accounts db) = Some secondary" "p \<noteq> s"
    "previewMerge org p s db = Inr preview"
    "emails = ct_email ` {c \<in> set (md_contacts db). ct_accountId c = p}"
    "md_accounts db' = delete_many (\<lambda>a. a_id a = s)
       (update_many (\<lambda>a. a_id a = p) (crmUpdates primary secondary) (md_accounts db))"
    "md_calls db' = update_many (\<lambda>c. call_accountId c = Some s)
       (\<lambda>c. c\<lparr> call_accountId := Some p \<rparr>) (md_calls db)"
    "md_stories db' = update_many (\<lambda>x. st_accountId x = s) (\<lambda>x. x\<lparr> st_accountId := p \<rparr>) (md_stories db)"
    "md_events db' = update_many (\<lambda>e. se_accountId e = s) (\<lambda>e. e\<lparr> se_accountId := p \<rparr>) (md_events db)"
    "md_access db' = update_many (\<lambda>g. uaa_accountId g = Some s)
       (\<lambda>g. g\<lparr> uaa_accountId := Some p \<rparr>) (md_access db)"
    "md_quotes db' = delete_many (\<lambda>q. q_accountId q = s) (md_quotes db)"
    "md_contacts db' = fst (fold (move_contact p emails) (filter (\<lambda>c. ct_accountId c = s) (md_contacts db))
       (md_contacts db, md_participants db, []))"
    "md_domains db' = delete_many (\<lambda>d. ad_accountId d = s)
       (fst (fold (move_alias primary)
          (filter (\<lambda>d. ad_accountId d = s) (fst (add_main_domain aliasId primary secondary (md_domains db))))
          (add_main_domain aliasId primary secondary (md_domains db))))"
    "\<not> list_ex (\<lambda>l. srl_accountId l = s) (md_regenLogs db)" "md_regenLogs db' = md_regenLogs db"
    "md_pages db' = md_pages db" "res_mergeRunId r = runId"
    "\<exists>run. md_runs db' = md_runs db @ [run] \<and> mr_id run = runId \<and> mr_organizationId run = org \<and>
       mr_primaryAccountId run = p \<and> mr_secondaryAccountId run = s \<and> mr_status run = ''COMPLETED'' \<and>
       mr_mergePreview run = Some preview \<and>
       mr_movedContactIds run = snd (snd (fold (move_contact p emails)
         (filter (\<lambda>c. ct_accountId c = s) (md_contacts db)) (md_contacts db, md_participants db, []))) \<and>
       mr_movedCallIds run = map call_id (filter (\<lambda>c. call_accountId c = Some s) (md_calls db)) \<and>
       mr_movedStoryIds run = map st_id (filter (\<lambda>x. st_accountId x = s) (md_stories db))"
proof -
  from assms obtain primary secondary preview where
    f: "find_account org p (md_accounts db) = Some primary"
      "find_account org s (md_accounts db) = Some secondary" "p \<noteq> s"
      "previewMerge org p s db = Inr preview"
    by (auto simp: executeMerge_def split: option.splits if_splits sum.splits)
  show thesis
    by (rule that [OF f refl])
      (use assms f in \<open>auto simp: executeMerge_def Let_def case_prod_beta split: if_splits\<close>)
qed

lemma add_main_domain_ok:
  fixes primary secondary :: Account and rows :: "AccountDomain list"
  assumes "unique_key ad_id rows" and "newId \<notin> ad_id ` set rows" and "a_id primary \<noteq> a_id secondary"
  defines "rows' \<equiv> fst (add_main_domain newId primary secondary rows)"
  shows "unique_key ad_id rows'"
    and "filter (\<lambda>d. ad_accountId d = a_id secondary) rows' = filter (\<lambda>d. ad_accountId d = a_id secondary) rows"
    and "covered primary d rows \<Longrightarrow> covered primary d rows'"
    and "a_domain secondary = Some d \<Longrightarrow> d \<noteq> [] \<Longrightarrow> covered primary d rows'"
  using assms
  by (auto simp: add_main_domain_def Let_def unique_key_def covered_def has_alias_def)

lemma covered_domains:
  assumes u: "unique_key a_id (md_accounts db)" and "find_account org p (md_accounts db) = Some primary"
    and "d \<in> account_domains p db"
  shows "covered primary d (md_domains db)"
proof -
  have "r \<in> set (md_accounts db) \<Longrightarrow> a_id r = p \<Longrightarrow> r = primary" for r
    using find_accountD [OF assms(2)] unique_key_eq [OF u, of r primary] by auto
  with assms(3) find_accountD [OF assms(2)] show ?thesis
    by (auto simp: account_domains_def covered_def has_alias_def list_ex_iff)
qed

lemma crmUpdates_keys [simp]:
  "a_id (crmUpdates x y a) = a_id a" "a_organizationId (crmUpdates x y a) = a_organizationId a"
  "a_domain (crmUpdates x y a) = a_domain a"
  by (simp_all add: crmUpdates_def)

lemma merged_emails:
  assumes "p \<noteq> s"
  shows "ct_email ` {c \<in> set (update_many (\<lambda>c. ct_accountId c = s) (\<lambda>c. c\<lparr> ct_accountId := p \<rparr>)
      (delete_many (\<lambda>c. ct_accountId c = s \<and> ct_email c \<in> ct_email ` {c \<in> set cs. ct_accountId c = p}) cs)).
      ct_accountId c = p} =
    ct_email ` {c \<in> set cs. ct_accountId c \<in> {p, s}}"
    (is "?L = ?R")
proof
  show "?L \<subseteq> ?R"
  proof
    fix e assume "e \<in> ?L"
    then obtain c where c: "c \<in> set (update_many (\<lambda>c. ct_accountId c = s) (\<lambda>c. c\<lparr> ct_accountId := p \<rparr>)
      (delete_many (\<lambda>c. ct_accountId c = s \<and> ct_email c \<in> ct_email ` {c \<in> set cs. ct_accountId c = p}) cs))"
      and p: "ct_accountId c = p" and e: "e = ct_email c" by auto
    from c show "e \<in> ?R"
    proof (cases rule: in_update_manyE)
      case (1 c')
      then have "e = ct_email c'" "c' \<in> set cs" "ct_accountId c' = s" using e by simp_all
      then show ?thesis by blast
    next
      case 2
      then show ?thesis using p e by auto
    qed
  qed
  show "?R \<subseteq> ?L"
  proof
    fix e assume "e \<in> ?R"
    then obtain c where c: "c \<in> set cs" "ct_accountId c \<in> {p, s}" "e = ct_email c" by auto
    show "e \<in> ?L"
    proof (cases "e \<in> ct_email ` {c \<in> set cs. ct_accountId c = p}")
      case True
      then obtain c' where "c' \<in> set cs" "ct_accountId c' = p" "e = ct_email c'" by auto
      with assms show ?thesis by (auto simp: set_update_many)
    next
      case False
      with c have "c \<in> {r \<in> set (delete_many (\<lambda>c. ct_accountId c = s \<and>
          ct_email c \<in> ct_email ` {c \<in> set cs. ct_accountId c = p}) cs). ct_accountId r = s}"
        by auto
      then have "c\<lparr> ct_accountId := p \<rparr> \<in> {c \<in> set (update_many (\<lambda>c. ct_accountId c = s)
          (\<lambda>c. c\<lparr> ct_accountId := p \<rparr>) (delete_many (\<lambda>c. ct_accountId c = s \<and>
          ct_email c \<in> ct_email ` {c \<in> set cs. ct_accountId c = p}) cs)). ct_accountId c = p}"
        unfolding set_update_many by simp
      from imageI [OF this, of ct_email] c(3) show ?thesis by simp
    qed
  qed
qed

lemma merge_covers_domains:
  assumes f: "find_account org p (md_accounts db) = Some primary"
      "find_account org s (md_accounts db) = Some secondary" "p \<noteq> s"
    and wf: "merge_wf db" and fresh: "aliasId \<notin> ad_id ` set (md_domains db)"
    and acc: "md_accounts db' = delete_many (\<lambda>a. a_id a = s)
       (update_many (\<lambda>a. a_id a = p) (crmUpdates primary secondary) (md_accounts db))"
    and dom: "md_domains db' = delete_many (\<lambda>d. ad_accountId d = s)
       (fst (fold (move_alias primary)
          (filter (\<lambda>d. ad_accountId d = s) (fst (add_main_domain aliasId primary secondary (md_domains db))))
          (add_main_domain aliasId primary secondary (md_domains db))))"
  shows "account_domains p db \<union> account_domains s db \<subseteq> account_domains p db'"
proof
  let ?d1 = "fst (add_main_domain aliasId primary secondary (md_domains db))"
  let ?al = "filter (\<lambda>d. ad_accountId d = s) ?d1"
  have ids: "a_id primary = p" "a_id secondary = s" "primary \<in> set (md_accounts db)"
    using find_accountD [OF f(1)] find_accountD [OF f(2)] by auto
  have u: "unique_key a_id (md_accounts db)" and ud: "unique_key ad_id (md_domains db)"
    using wf by (simp_all add: merge_wf_def)
  have "a_id primary \<noteq> a_id secondary" using ids f(3) by simp
  note main = add_main_domain_ok [OF ud fresh this]
  have loop: "alias_loop_ok primary ?al ?d1"
    using main(1) f(3) ids by (auto simp: alias_loop_ok_def unique_key_def distinct_map_filter)
  have sec: "r \<in> set (md_accounts db) \<Longrightarrow> a_id r = s \<Longrightarrow> r = secondary" for r
    using find_accountD [OF f(2)] unique_key_eq [OF u, of r secondary] by auto
  fix d assume d: "d \<in> account_domains p db \<union> account_domains s db"
  have "covered primary d ?d1 \<or> d \<in> ad_domain ` set ?al"
  proof (cases "d \<in> account_domains p db")
    case True
    then show ?thesis using main(3) [OF covered_domains [OF u f(1)]] by simp
  next
    case False
    with d have "d \<in> account_domains s db" by simp
    then consider (main') "d \<noteq> []" "a_domain secondary = Some d"
      | (aliased) "d \<in> ad_domain ` set (filter (\<lambda>d. ad_accountId d = s) (md_domains db))"
      unfolding account_domains_def by (auto dest: sec)
    then show ?thesis
    proof cases
      case main'
      then show ?thesis using main(4) by simp
    next
      case aliased
      then show ?thesis using main(2) ids by simp
    qed
  qed
  from fold_move_alias [OF loop this, of "snd (add_main_domain aliasId primary secondary (md_domains db))"]
  have "covered primary d (md_domains db')"
    using f(3) ids by (auto simp: dom covered_def has_alias_def list_ex_iff)
  moreover have "crmUpdates primary secondary primary \<in> set (md_accounts db')"
    using ids f(3) by (simp add: acc set_update_many)
  ultimately show "d \<in> account_domains p db'"
    using d ids unfolding account_domains_def covered_def has_alias_def list_ex_iff
    by (auto intro!: bexI [of _ "crmUpdates primary secondary primary"])
qed

text \<open>
  C24. A merge moves everything: after it the secondary account is gone, nothing refers to it, the primary
  has the calls, stories and Salesforce events of both, the contact e-mails of both, and every domain or
  alias of either leads to the primary.
\<close>

theorem merge_moves_everything:
  assumes m: "executeMerge runId aliasId org p s initiator notes db = Inr (r, db')" and wf: "merge_wf db"
    and fresh: "aliasId \<notin> ad_id ` set (md_domains db)"
  shows "find_account org s (md_accounts db') = None \<and>
    list_all (\<lambda>c. call_accountId c \<noteq> Some s) (md_calls db') \<and>
    list_all (\<lambda>x. st_accountId x \<noteq> s) (md_stories db') \<and>
    list_all (\<lambda>c. ct_accountId c \<noteq> s) (md_contacts db') \<and>
    list_all (\<lambda>d. ad_accountId d \<noteq> s) (md_domains db') \<and>
    list_all (\<lambda>g. uaa_accountId g \<noteq> Some s) (md_access db') \<and>
    map call_id (filter (\<lambda>c. call_accountId c = Some p) (md_calls db')) =
      map call_id (filter (\<lambda>c. call_accountId c \<in> {Some p, Some s}) (md_calls db)) \<and>
    map st_id (filter (\<lambda>x. st_accountId x = p) (md_stories db')) =
      map st_id (filter (\<lambda>x. st_accountId x \<in> {p, s}) (md_stories db)) \<and>
    map se_id (filter (\<lambda>e. se_accountId e = p) (md_events db')) =
      map se_id (filter (\<lambda>e. se_accountId e \<in> {p, s}) (md_events db)) \<and>
    ct_email ` {c \<in> set (md_contacts db'). ct_accountId c = p} =
      ct_email ` {c \<in> set (md_contacts db). ct_accountId c \<in> {p, s}} \<and>
    account_domains p db \<union> account_domains s db \<subseteq> account_domains p db'"
proof -
  from m obtain primary secondary preview emails where
    f: "find_account org p (md_accounts db) = Some primary"
      "find_account org s (md_accounts db) = Some secondary" "p \<noteq> s"
    and emails: "emails = ct_email ` {c \<in> set (md_contacts db). ct_accountId c = p}"
    and acc: "md_accounts db' = delete_many (\<lambda>a. a_id a = s)
       (update_many (\<lambda>a. a_id a = p) (crmUpdates primary secondary) (md_accounts db))"
    and rows: "md_calls db' = update_many (\<lambda>c. call_accountId c = Some s)
       (\<lambda>c. c\<lparr> call_accountId := Some p \<rparr>) (md_calls db)"
      "md_stories db' = update_many (\<lambda>x. st_accountId x = s) (\<lambda>x. x\<lparr> st_accountId := p \<rparr>) (md_stories db)"
      "md_events db' = update_many (\<lambda>e. se_accountId e = s) (\<lambda>e. e\<lparr> se_accountId := p \<rparr>) (md_events db)"
      "md_access db' = update_many (\<lambda>g. uaa_accountId g = Some s)
       (\<lambda>g. g\<lparr> uaa_accountId := Some p \<rparr>) (md_access db)"
    and con: "md_contacts db' = fst (fold (move_contact p emails)
       (filter (\<lambda>c. ct_accountId c = s) (md_contacts db)) (md_contacts db, md_participants db, []))"
    and dom: "md_domains db' = delete_many (\<lambda>d. ad_accountId d = s)
       (fst (fold (move_alias primary)
          (filter (\<lambda>d. ad_accountId d = s) (fst (add_main_domain aliasId primary secondary (md_domains db))))
          (add_main_domain aliasId primary secondary (md_domains db))))"
    by (rule executeMergeE)
  have con': "md_contacts db' = update_many (\<lambda>c. ct_accountId c = s) (\<lambda>c. c\<lparr> ct_accountId := p \<rparr>)
        (delete_many (\<lambda>c. ct_accountId c = s \<and> ct_email c \<in> emails) (md_contacts db))"
    unfolding con using wf by (intro moved_contacts) (simp add: merge_wf_def)
  have "find_account org s (md_accounts db') = None"
    by (simp add: acc find_account_def find_None_iff)
  moreover have "list_all (\<lambda>c. ct_accountId c \<noteq> s) (md_contacts db')"
    unfolding con' by (rule reassigned(2) [where k = ct_id]) (use f in simp_all)
  moreover have "list_all (\<lambda>d. ad_accountId d \<noteq> s) (md_domains db')"
    by (simp add: dom list_all_iff)
  moreover have "ct_email ` {c \<in> set (md_contacts db'). ct_accountId c = p} =
      ct_email ` {c \<in> set (md_contacts db). ct_accountId c \<in> {p, s}}"
    unfolding con' emails by (rule merged_emails [OF f(3)])
  moreover have "account_domains p db \<union> account_domains s db \<subseteq> account_domains p db'"
    by (rule merge_covers_domains [OF f wf fresh acc dom])
  moreover note r = reassigned [OF _ _ f(3)] and r' = reassigned [of _ _ "Some p" _ "Some s"]
  have "list_all (\<lambda>c. call_accountId c \<noteq> Some s) (md_calls db')"
    and "map call_id (filter (\<lambda>c. call_accountId c = Some p) (md_calls db')) =
      map call_id (filter (\<lambda>c. call_accountId c \<in> {Some p, Some s}) (md_calls db))"
    unfolding rows by (rule r' [where k = call_id]; use f(3) in simp)+
  moreover have "list_all (\<lambda>x. st_accountId x \<noteq> s) (md_stories db')"
    and "map st_id (filter (\<lambda>x. st_accountId x = p) (md_stories db')) =
      map st_id (filter (\<lambda>x. st_accountId x \<in> {p, s}) (md_stories db))"
    unfolding rows by (rule r [where k = st_id]; simp)+
  moreover have "map se_id (filter (\<lambda>e. se_accountId e = p) (md_events db')) =
      map se_id (filter (\<lambda>e. se_accountId e \<in> {p, s}) (md_events db))"
    unfolding rows by (rule r; simp)
  moreover have "list_all (\<lambda>g. uaa_accountId g \<noteq> Some s) (md_access db')"
    unfolding rows by (rule r'(2) [where k = uaa_grantedById]; use f(3) in simp)
  ultimately show ?thesis by blast
qed

section \<open>Undoing a merge\<close>

lemma undone_rows:
  assumes "unique_key k rows" and "p \<noteq> s" and "\<And>r. own (f r) = p" and "\<And>r. own (g r) = s"
    and "\<And>r. k (f r) = k r" and undo: "\<And>r. own r = s \<Longrightarrow> g (f r) = r"
  shows "update_many (\<lambda>r. k r \<in> k ` set (filter (\<lambda>r. own r = s) rows) \<and> own r = p) g
     (update_many (\<lambda>r. own r = s) f rows) = rows"
proof -
  have id: "r \<in> set rows \<Longrightarrow> k r \<in> k ` set (filter (\<lambda>r. own r = s) rows) \<longleftrightarrow> own r = s" for r
    using unique_key_eq [OF assms(1), of r] by auto
  have "map (\<lambda>r. if k (if own r = s then f r else r) \<in> k ` set (filter (\<lambda>r. own r = s) rows) \<and>
        own (if own r = s then f r else r) = p
      then g (if own r = s then f r else r) else if own r = s then f r else r) rows = map (\<lambda>r. r) rows"
    using assms(2,3,5) id undo by (intro map_cong) auto
  then show ?thesis by (simp add: update_many_def o_def)
qed

lemma undone_contacts:
  assumes "unique_key ct_id cs" and "p \<noteq> s"
  shows "update_many (\<lambda>c. ct_id c \<in> set (map ct_id (filter (\<lambda>c. ct_accountId c = s \<and> ct_email c \<notin> E) cs)) \<and>
        ct_accountId c = p) (\<lambda>c. c\<lparr> ct_accountId := s \<rparr>)
      (update_many (\<lambda>c. ct_accountId c = s) (\<lambda>c. c\<lparr> ct_accountId := p \<rparr>)
        (delete_many (\<lambda>c. ct_accountId c = s \<and> ct_email c \<in> E) cs)) =
    delete_many (\<lambda>c. ct_accountId c = s \<and> ct_email c \<in> E) cs"
proof -
  let ?d = "delete_many (\<lambda>c. ct_accountId c = s \<and> ct_email c \<in> E) cs"
  have "filter (\<lambda>c. ct_accountId c = s \<and> ct_email c \<notin> E) cs = filter (\<lambda>c. ct_accountId c = s) ?d"
    by (induction cs) auto
  moreover have "unique_key ct_id ?d" by (rule unique_key_delete_many [OF assms(1)])
  ultimately show ?thesis
    using undone_rows [of ct_id ?d p s ct_accountId "\<lambda>c. c\<lparr> ct_accountId := p \<rparr>" "\<lambda>c. c\<lparr> ct_accountId := s \<rparr>"]
      assms(2) by simp
qed

text \<open>
  C25. Undo after a merge: it succeeds, gives every call and story back to the account it came from and
  every contact that was not a duplicate, recreates the secondary account with its id, name, domain,
  industry and size, and can not be done twice. What it does not give back: Salesforce events, grants
  and domain aliases stay with the primary, quotes stay deleted, and the recreated account has no CRM
  identifiers.
\<close>

theorem merge_undo_roundtrip:
  assumes m: "executeMerge runId aliasId org p s initiator notes db = Inr (r, db')" and wf: "merge_wf db"
    and fresh: "runId \<notin> mr_id ` set (md_runs db)"
    and sec: "find_account org s (md_accounts db) = Some secondary"
  shows "\<exists>db''. undoMerge now org runId undoer db' = Inr db'' \<and>
    md_calls db'' = md_calls db \<and> md_stories db'' = md_stories db \<and>
    md_contacts db'' = delete_many (\<lambda>c. ct_accountId c = s \<and>
      ct_email c \<in> ct_email ` {c \<in> set (md_contacts db). ct_accountId c = p}) (md_contacts db) \<and>
    find_account org s (md_accounts db'') =
      Some (secondary\<lparr> a_normalizedName := normalizeCompanyName (a_name secondary),
        a_salesforceId := None, a_hubspotId := None, a_mergeAccountId := None \<rparr>) \<and>
    md_events db'' = md_events db' \<and> md_access db'' = md_access db' \<and> md_domains db'' = md_domains db' \<and>
    md_quotes db'' = md_quotes db' \<and>
    undoMerge now' org runId undoer' db'' = Inl RunAlreadyUndone"
proof -
  from m obtain primary secondary' preview emails run where
    f: "find_account org p (md_accounts db) = Some primary"
      "find_account org s (md_accounts db) = Some secondary'" "p \<noteq> s"
    and pv: "previewMerge org p s db = Inr preview"
    and emails: "emails = ct_email ` {c \<in> set (md_contacts db). ct_accountId c = p}"
    and acc: "md_accounts db' = delete_many (\<lambda>a. a_id a = s)
       (update_many (\<lambda>a. a_id a = p) (crmUpdates primary secondary') (md_accounts db))"
    and rows: "md_calls db' = update_many (\<lambda>c. call_accountId c = Some s)
       (\<lambda>c. c\<lparr> call_accountId := Some p \<rparr>) (md_calls db)"
      "md_stories db' = update_many (\<lambda>x. st_accountId x = s) (\<lambda>x. x\<lparr> st_accountId := p \<rparr>) (md_stories db)"
    and con: "md_contacts db' = fst (fold (move_contact p emails)
       (filter (\<lambda>c. ct_accountId c = s) (md_contacts db)) (md_contacts db, md_participants db, []))"
    and run: "md_runs db' = md_runs db @ [run]" "mr_id run = runId" "mr_organizationId run = org"
      "mr_primaryAccountId run = p" "mr_secondaryAccountId run = s" "mr_status run = ''COMPLETED''"
      "mr_mergePreview run = Some preview"
      "mr_movedContactIds run = snd (snd (fold (move_contact p emails)
         (filter (\<lambda>c. ct_accountId c = s) (md_contacts db)) (md_contacts db, md_participants db, [])))"
      "mr_movedCallIds run = map call_id (filter (\<lambda>c. call_accountId c = Some s) (md_calls db))"
      "mr_movedStoryIds run = map st_id (filter (\<lambda>x. st_accountId x = s) (md_stories db))"
    by (rule executeMergeE) blast
  have s': "secondary' = secondary" using f(2) sec by simp
  note sD = find_accountD [OF sec]
  have uc: "unique_key ct_id (md_contacts db)" using wf by (simp add: merge_wf_def)
  let ?D = "delete_many (\<lambda>c. ct_accountId c = s \<and> ct_email c \<in> emails) (md_contacts db)"
  let ?new = "account_of_snapshot org (snd preview)"
  have snap: "?new = secondary\<lparr> a_normalizedName := normalizeCompanyName (a_name secondary),
        a_salesforceId := None, a_hubspotId := None, a_mergeAccountId := None \<rparr>" "pv_id (snd preview) = s"
    using pv sec sD
    by (auto simp: previewMerge_def loadAccountPreview_def Let_def account_of_snapshot_def
        split: sum.splits option.splits)
  have restored: "update_many (\<lambda>c. ct_id c \<in> set (mr_movedContactIds run) \<and> ct_accountId c = p)
      (\<lambda>c. c\<lparr> ct_accountId := s \<rparr>) (md_contacts db') = ?D"
    unfolding con run(8) moved_contacts [OF uc] by (rule undone_contacts [OF uc f(3)])
  have found: "List.find (\<lambda>r. mr_id r = runId \<and> mr_organizationId r = org) (md_runs db') = Some run"
  proof -
    have "List.find (\<lambda>r. mr_id r = runId \<and> mr_organizationId r = org) (md_runs db) = None"
      using fresh by (auto simp: find_None_iff)
    then show ?thesis by (simp add: run(1-3) find_append)
  qed
  have gone: "find_account org s (md_accounts db') = None"
    by (simp add: acc find_account_def find_None_iff)
  have clash: "\<not> account_clash ?new (md_accounts db')"
  proof
    assume "account_clash ?new (md_accounts db')"
    then obtain a where a: "a \<in> set (md_accounts db')" "a_id a = s \<or>
        a_organizationId a = org \<and> a_domain secondary \<noteq> None \<and> a_domain a = a_domain secondary"
      using sD unfolding snap account_clash_def by (auto simp: list_ex_iff)
    from a(1) have "a_id a \<noteq> s" by (simp add: acc)
    from a(1) obtain a' where "a' \<in> set (md_accounts db)" "a_id a' = a_id a"
        "a_organizationId a' = a_organizationId a" "a_domain a' = a_domain a"
      unfolding acc by (auto elim!: in_update_manyE)
    with a(2) \<open>a_id a \<noteq> s\<close> sD wf show False
      unfolding merge_wf_def by metis
  qed
  have uk: "unique_key contact_key ?D" using wf by (intro unique_key_delete_many) (simp add: merge_wf_def)
  have "update_many (\<lambda>c. call_id c \<in> set (mr_movedCallIds run) \<and> call_accountId c = Some p)
      (\<lambda>c. c\<lparr> call_accountId := Some s \<rparr>) (md_calls db') = md_calls db"
    unfolding rows run(9) set_map
    by (rule undone_rows) (use wf f(3) in \<open>simp_all add: merge_wf_def\<close>)
  moreover have "update_many (\<lambda>x. st_id x \<in> set (mr_movedStoryIds run) \<and> st_accountId x = p)
      (\<lambda>x. x\<lparr> st_accountId := s \<rparr>) (md_stories db') = md_stories db"
    unfolding rows run(10) set_map
    by (rule undone_rows) (use wf f(3) in \<open>simp_all add: merge_wf_def\<close>)
  moreover have "List.find (\<lambda>r. mr_id r = runId \<and> mr_organizationId r = org)
      (update_many (\<lambda>r. mr_id r = runId)
        (\<lambda>r. r\<lparr> mr_status := ''UNDONE'', mr_undoneByUserId := undoer, mr_undoneAt := Some now \<rparr>) (md_runs db')) =
      Some (run\<lparr> mr_status := ''UNDONE'', mr_undoneByUserId := undoer, mr_undoneAt := Some now \<rparr>)"
    by (subst find_update_many) (simp_all add: found run(2))
  moreover have "find_account org s (md_accounts db' @ [?new]) = Some ?new"
    using gone snap sD by (simp add: find_account_def find_append)
  ultimately show ?thesis
    using restored uk gone clash snap found run(2-7)
    by (simp add: undoMerge_def Let_def case_prod_beta emails)
qed

end
