(* ===== verification/Merge_Routes.thy ===== *)
theory Merge_Routes
  imports Account_Merge Policy_Engine
begin

text \<open>
  \<open>src/api/account-merge-routes.ts\<close>: requesting, reviewing, executing and undoing a merge, with the
  answers; what a merge may touch and what it loses; and the detection of duplicates.
\<close>

section \<open>What a merge loses, and when it cannot run\<close>

lemma distinct_concat_disjoint:
  "distinct (concat (map f xs)) \<Longrightarrow> x \<in> set xs \<Longrightarrow> y \<in> set xs \<Longrightarrow> x \<noteq> y \<Longrightarrow> set (f x) \<inter> set (f y) = {}"
  by (induction xs) auto

text \<open>
  A merge into an account without a Salesforce id of one that has it always fails: the id is written to
  the primary while the secondary still has it, which the unique key forbids.
\<close>

theorem merge_blocked_by_salesforce_id:
  assumes wf: "merge_wf db" and "p \<noteq> s"
    and p: "find_account org p (md_accounts db) = Some primary"
    and s: "find_account org s (md_accounts db) = Some secondary"
    and "\<not> truthy (a_salesforceId primary)" and sf: "truthy (a_salesforceId secondary)"
  shows "executeMerge runId aliasId org p s initiator notes db = Inl UniqueViolation"
proof -
  let ?acc = "update_many (\<lambda>a. a_id a = p) (crmUpdates primary secondary) (md_accounts db)"
  let ?k = "\<lambda>a. case a_salesforceId a of None \<Rightarrow> [] | Some x \<Rightarrow> [(a_organizationId a, x)]"
  obtain x where x: "a_salesforceId secondary = Some x" using sf by (cases "a_salesforceId secondary") auto
  note pD = find_accountD [OF p] and sD = find_accountD [OF s]
  have mem: "crmUpdates primary secondary primary \<in> set ?acc" "secondary \<in> set ?acc"
    using pD sD assms(2) by (auto simp: set_update_many)
  moreover have "crmUpdates primary secondary primary \<noteq> secondary"
    using pD sD assms(2) by (metis crmUpdates_keys(1))
  moreover have "(org, x) \<in> set (?k (crmUpdates primary secondary primary))" "(org, x) \<in> set (?k secondary)"
    using x sf assms(5) pD sD by (simp_all add: crmUpdates_def fill_def)
  ultimately have "\<not> distinct (salesforce_keys ?acc)"
    using distinct_concat_disjoint [of ?k ?acc] unfolding salesforce_keys_def by blast
  moreover obtain preview where "previewMerge org p s db = Inr preview"
    using p s by (simp add: previewMerge_def loadAccountPreview_def Let_def)
  ultimately show ?thesis
    using p s assms(2) by (simp add: executeMerge_def Let_def case_prod_beta)
qed

text \<open>
  What a merge loses: the quotes of the secondary account are deleted although its calls move, and a
  user whose grants are lists of accounts that hold the secondary but not the primary could work on the
  secondary account and cannot work on the merged one.
\<close>

theorem merge_loses_quotes_and_list_grants:
  assumes m: "executeMerge runId aliasId org p s initiator notes db = Inr (r, db')"
    and "user_grants u org (md_access db) \<noteq> []"
    and lists: "list_all (\<lambda>g. uaa_scopeType g \<in> {ACCOUNT_LIST, CRM_REPORT} \<and> s \<in> set (uaa_cachedAccountIds g) \<and>
      p \<notin> set (uaa_cachedAccountIds g)) (user_grants u org (md_access db))"
  shows "canAccessAccount (md_access db) u org s (Some MEMBER) \<and>
    \<not> canAccessAccount (md_access db') u org p (Some MEMBER) \<and>
    md_quotes db' = delete_many (\<lambda>q. q_accountId q = s) (md_quotes db)"
proof -
  from m have acc: "md_access db' = update_many (\<lambda>g. uaa_accountId g = Some s)
       (\<lambda>g. g\<lparr> uaa_accountId := Some p \<rparr>) (md_access db)"
    and q: "md_quotes db' = delete_many (\<lambda>q. q_accountId q = s) (md_quotes db)"
    by (rule executeMergeE, blast)+
  have g: "user_grants u org (md_access db') =
      map (\<lambda>g. if uaa_accountId g = Some s then g\<lparr> uaa_accountId := Some p \<rparr> else g) (user_grants u org (md_access db))"
    unfolding acc user_grants_def by (induction "md_access db" arbitrary: db) (auto simp: update_many_def filter_map o_def cong: filter_cong)
  have yes: "canAccess_loop s gs" if "gs \<noteq> []" "list_all (\<lambda>g. uaa_scopeType g \<in> {ACCOUNT_LIST, CRM_REPORT} \<and>
      s \<in> set (uaa_cachedAccountIds g) \<and> p \<notin> set (uaa_cachedAccountIds g)) gs" for gs
    using that by (cases gs) auto
  have no: "\<not> canAccess_loop p (map (\<lambda>g. if uaa_accountId g = Some s then g\<lparr> uaa_accountId := Some p \<rparr> else g) gs)"
    if "list_all (\<lambda>g. uaa_scopeType g \<in> {ACCOUNT_LIST, CRM_REPORT} \<and>
      s \<in> set (uaa_cachedAccountIds g) \<and> p \<notin> set (uaa_cachedAccountIds g)) gs" for gs
    using that by (induction gs) auto
  show ?thesis
    using yes [OF assms(2) lists] no [OF lists] q assms(2)
    by (simp add: canAccessAccount_def Let_def g)
qed

section \<open>Handlers\<close>

record MergeRequest =
  mq_id :: ident
  mq_organizationId :: ident
  mq_targetId :: ident
  mq_requestedByUserId :: ident
  mq_status :: string
  mq_primaryId :: ident
  mq_secondaryId :: ident
  mq_notes :: "string option"
  mq_reviewerUserId :: "ident option"
  mq_reviewNotes :: "string option"
  mq_reviewedAt :: "millis option"

text \<open>\<open>ms_db\<close> holds the grants the merge rewrites; the guards read them from there.\<close>

record MergeState =
  ms_access :: AccessDb
  ms_db :: MergeDb
  ms_requests :: "MergeRequest list"

record MergeCtx =
  mc_now :: millis
  mc_requestId :: ident
  mc_runId :: ident
  mc_aliasId :: ident

definition merge_guard :: "AuthRequest \<Rightarrow> MergeState \<Rightarrow> guard" where
  "merge_guard req st =
     requirePermission ''manage_permissions''
       ((ms_access st)\<lparr> db_accountAccess := md_access (ms_db st) \<rparr>) req"

definition merge_body_ok :: "ident \<Rightarrow> ident \<Rightarrow> string option \<Rightarrow> bool" where
  "merge_body_ok p s notes \<longleftrightarrow>
     p \<noteq> [] \<and> s \<noteq> [] \<and> (case notes of None \<Rightarrow> True | Some n \<Rightarrow> length n \<le> 1000)"

text \<open>Errors whose message says \<open>not found\<close> answer 404.\<close>

definition merge_error_response :: "MergeError \<Rightarrow> response" where
  "merge_error_response e =
     (case e of AccountNotFound _ \<Rightarrow> Response 404 ''not_found'' | RunNotFound \<Rightarrow> Response 404 ''not_found''
      | _ \<Rightarrow> Response 500 ''internal_error'')"

definition createMergeRequest ::
  "MergeCtx \<Rightarrow> ident \<Rightarrow> ident \<Rightarrow> ident \<Rightarrow> ident \<Rightarrow> string option \<Rightarrow> MergeState \<Rightarrow> MergeState" where
  "createMergeRequest cx org p s uid notes st =
     st\<lparr> ms_requests := ms_requests st @
       [\<lparr> mq_id = mc_requestId cx, mq_organizationId = org, mq_targetId = s, mq_requestedByUserId = uid,
          mq_status = ''PENDING'', mq_primaryId = p, mq_secondaryId = s, mq_notes = notes,
          mq_reviewerUserId = None, mq_reviewNotes = None, mq_reviewedAt = None \<rparr>] \<rparr>"

definition merge_request_route ::
  "MergeCtx \<Rightarrow> AuthRequest \<Rightarrow> ident \<Rightarrow> ident \<Rightarrow> string option \<Rightarrow> MergeState \<Rightarrow> response \<times> MergeState" where
  "merge_request_route cx req p s notes st =
    (case merge_guard req st of
       Status code msg \<Rightarrow> (Response code msg, st)
     | Next \<Rightarrow>
       if \<not> truthy (req_organizationId req) \<or> \<not> truthy (req_userId req)
       then (Response 401 ''unauthorized'', st)
       else if \<not> merge_body_ok p s notes then (Response 400 ''validation_error'', st)
       else if p = s then (Response 400 ''bad_request'', st)
       else let org = the (req_organizationId req) in
       (case previewMerge org p s (ms_db st) of
          Inl e \<Rightarrow> (merge_error_response e, st)
        | Inr preview \<Rightarrow>
            (Response 202 ''queued_for_approval'',
             createMergeRequest cx org p s (the (req_userId req)) notes st)))"

definition finish_request :: "millis \<Rightarrow> ident \<Rightarrow> ident \<Rightarrow> string \<Rightarrow> string option \<Rightarrow> MergeState \<Rightarrow> MergeState" where
  "finish_request now requestId uid status notes st =
     st\<lparr> ms_requests := update_many (\<lambda>q. mq_id q = requestId)
       (\<lambda>q. q\<lparr> mq_status := status, mq_reviewerUserId := Some uid, mq_reviewNotes := notes,
               mq_reviewedAt := Some now \<rparr>) (ms_requests st) \<rparr>"

definition merge_review_route ::
  "MergeCtx \<Rightarrow> AuthRequest \<Rightarrow> ident \<Rightarrow> bool \<Rightarrow> string option \<Rightarrow> MergeState \<Rightarrow> response \<times> MergeState" where
  "merge_review_route cx req requestId approve notes st =
    (case merge_guard req st of
       Status code msg \<Rightarrow> (Response code msg, st)
     | Next \<Rightarrow>
       if \<not> truthy (req_organizationId req) \<or> \<not> truthy (req_userId req)
       then (Response 401 ''unauthorized'', st)
       else if (case notes of None \<Rightarrow> False | Some n \<Rightarrow> 1000 < length n)
       then (Response 400 ''validation_error'', st)
       else let org = the (req_organizationId req); uid = the (req_userId req) in
       (case List.find (\<lambda>q. mq_id q = requestId \<and> mq_organizationId q = org) (ms_requests st) of
          None \<Rightarrow> (Response 404 ''not_found'', st)
        | Some request \<Rightarrow>
            if mq_status request \<noteq> ''PENDING'' then (Response 409 ''conflict'', st)
            else if \<not> approve
            then (Response 200 ''REJECTED'', finish_request (mc_now cx) (mq_id request) uid ''REJECTED'' notes st)
            else (case executeMerge (mc_runId cx) (mc_aliasId cx) org (mq_primaryId request)
                         (mq_secondaryId request) (Some (mq_requestedByUserId request)) (mq_notes request)
                         (ms_db st) of
                    Inl e \<Rightarrow> (merge_error_response e, st)
                  | Inr (r, db) \<Rightarrow>
                      (Response 200 ''APPROVED'',
                       finish_request (mc_now cx) (mq_id request) uid ''APPROVED'' notes (st\<lparr> ms_db := db \<rparr>)))))"

definition merge_route ::
  "MergeCtx \<Rightarrow> AuthRequest \<Rightarrow> ident \<Rightarrow> ident \<Rightarrow> string option \<Rightarrow> MergeState \<Rightarrow> response \<times> MergeState" where
  "merge_route cx req p s notes st =
    (case merge_guard req st of
       Status code msg \<Rightarrow> (Response code msg, st)
     | Next \<Rightarrow>
       if \<not> truthy (req_organizationId req) then (Response 401 ''unauthorized'', st)
       else if \<not> merge_body_ok p s notes then (Response 400 ''validation_error'', st)
       else if p = s then (Response 400 ''bad_request'', st)
       else (case executeMerge (mc_runId cx) (mc_aliasId cx) (the (req_organizationId req)) p s
                    (req_userId req) notes (ms_db st) of
               Inl e \<Rightarrow> (merge_error_response e, st)
             | Inr (r, db) \<Rightarrow> (Response 200 ''merged'', st\<lparr> ms_db := db \<rparr>)))"

definition undo_route ::
  "MergeCtx \<Rightarrow> AuthRequest \<Rightarrow> ident \<Rightarrow> MergeState \<Rightarrow> response \<times> MergeState" where
  "undo_route cx req runId st =
    (case merge_guard req st of
       Status code msg \<Rightarrow> (Response code msg, st)
     | Next \<Rightarrow>
       if \<not> truthy (req_organizationId req) then (Response 401 ''unauthorized'', st)
       else (case undoMerge (mc_now cx) (the (req_organizationId req)) runId (req_userId req) (ms_db st) of
               Inl e \<Rightarrow> (merge_error_response e, st)
             | Inr db \<Rightarrow> (Response 200 ''undone'', st\<lparr> ms_db := db \<rparr>)))"

end
