(* ===== verification/Merge_Integrity.thy ===== *)
theory Merge_Integrity
  imports Merge_Routes
begin

text \<open>
  The integrity of the tables under any sequence of merges and undos (\<open>merge_step\<close>): every reference to an
  account is to an existing one, ids and unique keys stay unique. And what the handlers may change.
\<close>

section \<open>The invariant\<close>

definition refs_ok :: "MergeDb \<Rightarrow> bool" where
  "refs_ok db \<longleftrightarrow>
     (let ids = a_id ` set (md_accounts db) in
       ct_accountId ` set (md_contacts db) \<subseteq> ids \<and>
       (\<forall>c \<in> set (md_calls db). case call_accountId c of None \<Rightarrow> True | Some a \<Rightarrow> a \<in> ids) \<and>
       st_accountId ` set (md_stories db) \<subseteq> ids \<and> se_accountId ` set (md_events db) \<subseteq> ids \<and>
       ad_accountId ` set (md_domains db) \<subseteq> ids \<and> q_accountId ` set (md_quotes db) \<subseteq> ids \<and>
       srl_accountId ` set (md_regenLogs db) \<subseteq> ids)"

definition snapshots_ok :: "MergeDb \<Rightarrow> bool" where
  "snapshots_ok db \<longleftrightarrow>
     (\<forall>run \<in> set (md_runs db). case mr_mergePreview run of None \<Rightarrow> True
        | Some (_, s) \<Rightarrow> pv_id s = mr_secondaryAccountId run)"

definition merge_inv :: "MergeDb \<Rightarrow> bool" where
  "merge_inv db \<longleftrightarrow> merge_wf db \<and> refs_ok db \<and> snapshots_ok db"

inductive merge_step :: "MergeDb \<Rightarrow> MergeDb \<Rightarrow> bool" where
  execute: "executeMerge runId aliasId org p s initiator notes db = Inr (r, db') \<Longrightarrow>
    aliasId \<notin> ad_id ` set (md_domains db) \<Longrightarrow> merge_step db db'"
| undo: "undoMerge now org runId undoer db = Inr db' \<Longrightarrow> merge_step db db'"

lemma fold_move_alias_rows:
  "alias_loop_ok primary al rows \<Longrightarrow>
     unique_key ad_id (fst (fold (move_alias primary) al (rows, added))) \<and>
     ad_accountId ` set (fst (fold (move_alias primary) al (rows, added))) \<subseteq>
       insert (a_id primary) (ad_accountId ` set rows)"
proof (induction al arbitrary: rows added)
  case Nil
  then show ?case by (auto simp: alias_loop_ok_def)
next
  case (Cons a al)
  obtain rows' added' where m: "move_alias primary a (rows, added) = (rows', added')"
    by (cases "move_alias primary a (rows, added)")
  have "ad_accountId ` set rows' \<subseteq> insert (a_id primary) (ad_accountId ` set rows)"
    using m by (auto simp: move_alias_def set_update_many split: if_splits)
  moreover have "unique_key ad_id (fst (fold (move_alias primary) al (rows', added'))) \<and>
      ad_accountId ` set (fst (fold (move_alias primary) al (rows', added'))) \<subseteq>
        insert (a_id primary) (ad_accountId ` set rows')"
    using Cons.IH [OF move_alias_ok(1) [OF Cons.prems, of added, unfolded m fst_conv]] .
  ultimately show ?case unfolding fold.simps o_apply m by blast
qed

lemma salesforce_keys_delete:
  "distinct (salesforce_keys rows) \<Longrightarrow> distinct (salesforce_keys (delete_many p rows))"
proof (induction rows)
  case (Cons a rows)
  have "set (salesforce_keys (delete_many p rows)) \<subseteq> set (salesforce_keys rows)"
    by (induction rows) (auto simp: salesforce_keys_def)
  with Cons show ?case
    by (auto simp: salesforce_keys_def split: option.splits)
qed (simp add: salesforce_keys_def)

lemma merge_wf_execute:
  assumes m: "executeMerge runId aliasId org p s initiator notes db = Inr (r, db')" and wf: "merge_wf db"
    and fresh: "aliasId \<notin> ad_id ` set (md_domains db)"
  shows "merge_wf db'" and "ad_accountId ` set (md_domains db') \<subseteq> insert p (ad_accountId ` set (md_domains db)) - {s}"
    and "ct_accountId ` set (md_contacts db') \<subseteq> insert p (ct_accountId ` set (md_contacts db)) - {s}"
proof -
  from m obtain primary secondary emails where
    f: "find_account org p (md_accounts db) = Some primary"
      "find_account org s (md_accounts db) = Some secondary" "p \<noteq> s"
    and acc: "md_accounts db' = delete_many (\<lambda>a. a_id a = s)
       (update_many (\<lambda>a. a_id a = p) (crmUpdates primary secondary) (md_accounts db))"
    and rows: "md_calls db' = update_many (\<lambda>c. call_accountId c = Some s)
       (\<lambda>c. c\<lparr> call_accountId := Some p \<rparr>) (md_calls db)"
      "md_stories db' = update_many (\<lambda>x. st_accountId x = s) (\<lambda>x. x\<lparr> st_accountId := p \<rparr>) (md_stories db)"
    and con: "md_contacts db' = fst (fold (move_contact p emails)
       (filter (\<lambda>c. ct_accountId c = s) (md_contacts db)) (md_contacts db, md_participants db, []))"
    and dom: "md_domains db' = delete_many (\<lambda>d. ad_accountId d = s)
       (fst (fold (move_alias primary)
          (filter (\<lambda>d. ad_accountId d = s) (fst (add_main_domain aliasId primary secondary (md_domains db))))
          (add_main_domain aliasId primary secondary (md_domains db))))"
    by (rule executeMergeE)
  have ids: "a_id primary = p" "a_id secondary = s"
    using find_accountD [OF f(1)] find_accountD [OF f(2)] by auto
  have ud: "unique_key ad_id (md_domains db)" and uc: "unique_key ct_id (md_contacts db)"
    using wf by (simp_all add: merge_wf_def)
  have con': "md_contacts db' = update_many (\<lambda>c. ct_accountId c = s) (\<lambda>c. c\<lparr> ct_accountId := p \<rparr>)
        (delete_many (\<lambda>c. ct_accountId c = s \<and> ct_email c \<in> emails) (md_contacts db))"
    unfolding con by (rule moved_contacts [OF uc])
  show "ct_accountId ` set (md_contacts db') \<subseteq> insert p (ct_accountId ` set (md_contacts db)) - {s}"
    using f(3) by (auto simp: con' set_update_many)
  let ?am = "add_main_domain aliasId primary secondary (md_domains db)"
  have ne: "a_id primary \<noteq> a_id secondary" using ids f(3) by simp
  have loop: "alias_loop_ok primary (filter (\<lambda>d. ad_accountId d = s) (fst ?am)) (fst ?am)"
    using add_main_domain_ok(1) [OF ud fresh ne] f(3) ids
    by (auto simp: alias_loop_ok_def unique_key_def distinct_map_filter)
  have am: "ad_accountId ` set (fst ?am) \<subseteq> insert p (ad_accountId ` set (md_domains db))"
    using ids by (auto simp: add_main_domain_def Let_def)
  note al = fold_move_alias_rows [OF loop, of "snd ?am", simplified]
  show "ad_accountId ` set (md_domains db') \<subseteq> insert p (ad_accountId ` set (md_domains db)) - {s}"
  proof -
    have "ad_accountId ` set (md_domains db') \<subseteq> ad_accountId ` set (fst (fold (move_alias primary)
        (filter (\<lambda>d. ad_accountId d = s) (fst ?am)) ?am)) - {s}"
      unfolding dom by auto
    also have "\<dots> \<subseteq> insert p (ad_accountId ` set (md_domains db)) - {s}"
      by (intro Diff_mono subset_refl subset_trans [OF conjunct2 [OF al, unfolded ids(1)]])
        (use am in simp)
    finally show ?thesis .
  qed
  have "unique_key a_id (md_accounts db')"
    unfolding acc using wf by (intro unique_key_delete_many) (simp add: unique_key_update_many merge_wf_def)
  moreover have "unique_key ad_id (md_domains db')"
    unfolding dom using al by (intro unique_key_delete_many) simp
  moreover have "unique_key ct_id (md_contacts db')"
    unfolding con' using unique_key_delete_many [OF uc] by (simp add: unique_key_update_many)
  moreover have "unique_key contact_key (md_contacts db')" and "distinct (salesforce_keys (md_accounts db'))"
    using m by (auto simp: executeMerge_def Let_def case_prod_beta salesforce_keys_delete
        split: option.splits if_splits sum.splits)
  moreover have "unique_key call_id (md_calls db')" "unique_key st_id (md_stories db')"
    unfolding rows using wf by (simp_all add: unique_key_update_many merge_wf_def)
  moreover have "a = b" if "a \<in> set (md_accounts db')" "b \<in> set (md_accounts db')"
      "a_organizationId a = a_organizationId b" "a_domain a = a_domain b" "a_domain a \<noteq> None" for a b
  proof -
    have "\<exists>x \<in> set (md_accounts db). y = (if a_id x = p then crmUpdates primary secondary x else x)"
      if "y \<in> set (md_accounts db')" for y
      using that unfolding acc by (auto simp: update_many_def)
    then obtain x y where "x \<in> set (md_accounts db)" "y \<in> set (md_accounts db)"
      "a = (if a_id x = p then crmUpdates primary secondary x else x)"
      "b = (if a_id y = p then crmUpdates primary secondary y else y)"
      using \<open>a \<in> _\<close> \<open>b \<in> _\<close> by metis
    moreover from this have "a_organizationId x = a_organizationId y" "a_domain x = a_domain y" "a_domain x \<noteq> None"
      using that(3-5) by (auto split: if_splits)
    ultimately show ?thesis using wf unfolding merge_wf_def by metis
  qed
  ultimately show "merge_wf db'" unfolding merge_wf_def by blast
qed

lemma refs_reassigned:
  assumes "own ` set rows \<subseteq> I" and "\<And>r. own (f r) = p" and "p \<in> I - {s}"
  shows "own ` set (update_many (\<lambda>r. own r = s) f rows) \<subseteq> I - {s}"
  using assms by (auto elim!: in_update_manyE)

lemma merge_inv_execute:
  assumes m: "executeMerge runId aliasId org p s initiator notes db = Inr (r, db')" and inv: "merge_inv db"
    and fresh: "aliasId \<notin> ad_id ` set (md_domains db)"
  shows "merge_inv db'"
proof -
  from m obtain primary secondary preview run where
    f: "find_account org p (md_accounts db) = Some primary"
      "find_account org s (md_accounts db) = Some secondary" "p \<noteq> s"
    and pv: "previewMerge org p s db = Inr preview"
    and acc: "md_accounts db' = delete_many (\<lambda>a. a_id a = s)
       (update_many (\<lambda>a. a_id a = p) (crmUpdates primary secondary) (md_accounts db))"
    and rows: "md_calls db' = update_many (\<lambda>c. call_accountId c = Some s)
       (\<lambda>c. c\<lparr> call_accountId := Some p \<rparr>) (md_calls db)"
      "md_stories db' = update_many (\<lambda>x. st_accountId x = s) (\<lambda>x. x\<lparr> st_accountId := p \<rparr>) (md_stories db)"
      "md_events db' = update_many (\<lambda>e. se_accountId e = s) (\<lambda>e. e\<lparr> se_accountId := p \<rparr>) (md_events db)"
    and rest: "md_quotes db' = delete_many (\<lambda>q. q_accountId q = s) (md_quotes db)"
      "\<not> list_ex (\<lambda>l. srl_accountId l = s) (md_regenLogs db)" "md_regenLogs db' = md_regenLogs db"
    and run: "md_runs db' = md_runs db @ [run]" "mr_secondaryAccountId run = s"
      "mr_mergePreview run = Some preview"
    by (rule executeMergeE) blast
  have wf: "merge_wf db" and refs: "refs_ok db" and sn: "snapshots_ok db"
    using inv by (auto simp: merge_inv_def)
  note w = merge_wf_execute [OF m wf fresh]
  have ids: "a_id ` set (md_accounts db') = a_id ` set (md_accounts db) - {s}"
  proof -
    have u: "a_id ` set (update_many (\<lambda>a. a_id a = p) (crmUpdates primary secondary) (md_accounts db)) =
        a_id ` set (md_accounts db)"
      using map_update_many_inv [of "\<lambda>a. a_id a = p" a_id "crmUpdates primary secondary"]
      by (metis crmUpdates_keys(1) list.set_map)
    have d: "a_id ` set (delete_many (\<lambda>a. a_id a = s) rows) = a_id ` set rows - {s}" for rows :: "Account list"
      by auto
    show ?thesis unfolding acc d u ..
  qed
  have p: "p \<in> a_id ` set (md_accounts db) - {s}" using find_accountD [OF f(1)] f(3) by blast
  note r0 = refs [unfolded refs_ok_def Let_def]
  note r = conjunct1 [OF r0]
    conjunct1 [OF conjunct2 [OF r0]]
    conjunct1 [OF conjunct2 [OF conjunct2 [OF r0]]]
    conjunct1 [OF conjunct2 [OF conjunct2 [OF conjunct2 [OF r0]]]]
    conjunct1 [OF conjunct2 [OF conjunct2 [OF conjunct2 [OF conjunct2 [OF r0]]]]]
    conjunct1 [OF conjunct2 [OF conjunct2 [OF conjunct2 [OF conjunct2 [OF conjunct2 [OF r0]]]]]]
    conjunct2 [OF conjunct2 [OF conjunct2 [OF conjunct2 [OF conjunct2 [OF conjunct2 [OF r0]]]]]]
  have "refs_ok db'"
    unfolding refs_ok_def Let_def ids
  proof (intro conjI)
    show "ct_accountId ` set (md_contacts db') \<subseteq> a_id ` set (md_accounts db) - {s}"
      by (rule subset_trans [OF w(3)]) (use r(1) p in blast)
    show "ad_accountId ` set (md_domains db') \<subseteq> a_id ` set (md_accounts db) - {s}"
      by (rule subset_trans [OF w(2)]) (use r(5) p in blast)
    show "st_accountId ` set (md_stories db') \<subseteq> a_id ` set (md_accounts db) - {s}"
      "se_accountId ` set (md_events db') \<subseteq> a_id ` set (md_accounts db) - {s}"
      unfolding rows by (rule refs_reassigned [OF _ _ p]; use r in simp)+
    show "\<forall>c \<in> set (md_calls db'). case call_accountId c of None \<Rightarrow> True
        | Some a \<Rightarrow> a \<in> a_id ` set (md_accounts db) - {s}"
      using r(2) p unfolding rows by (auto elim!: in_update_manyE split: option.splits)
    show "q_accountId ` set (md_quotes db') \<subseteq> a_id ` set (md_accounts db) - {s}"
      using r(6) unfolding rest by auto
    show "srl_accountId ` set (md_regenLogs db') \<subseteq> a_id ` set (md_accounts db) - {s}"
      using r(7) rest(2) unfolding rest(3) list_ex_iff by auto
  qed
  moreover have "pv_id (snd preview) = s"
    using pv find_accountD [OF f(2)] f(2)
    by (auto simp: previewMerge_def loadAccountPreview_def Let_def split: sum.splits option.splits)
  then have "snapshots_ok db'" using sn by (auto simp: snapshots_ok_def run split: option.splits)
  ultimately show ?thesis using w(1) by (simp add: merge_inv_def)
qed

lemma undoMergeE:
  assumes "undoMerge now org runId undoer db = Inr db'"
  obtains run primary' secondary' where
    "run \<in> set (md_runs db)" "mr_mergePreview run = Some (primary', secondary')"
    "md_accounts db' = (if find_account org (pv_id secondary') (md_accounts db) \<noteq> None then md_accounts db
       else md_accounts db @ [account_of_snapshot org secondary'])"
    "find_account org (pv_id secondary') (md_accounts db) = None \<longrightarrow>
       \<not> account_clash (account_of_snapshot org secondary') (md_accounts db)"
    "unique_key contact_key (md_contacts db')"
    "md_contacts db' = update_many
       (\<lambda>c. ct_id c \<in> set (mr_movedContactIds run) \<and> ct_accountId c = mr_primaryAccountId run)
       (\<lambda>c. c\<lparr> ct_accountId := mr_secondaryAccountId run \<rparr>) (md_contacts db)"
    "md_calls db' = update_many
       (\<lambda>c. call_id c \<in> set (mr_movedCallIds run) \<and> call_accountId c = Some (mr_primaryAccountId run))
       (\<lambda>c. c\<lparr> call_accountId := Some (mr_secondaryAccountId run) \<rparr>) (md_calls db)"
    "md_stories db' = update_many
       (\<lambda>s. st_id s \<in> set (mr_movedStoryIds run) \<and> st_accountId s = mr_primaryAccountId run)
       (\<lambda>s. s\<lparr> st_accountId := mr_secondaryAccountId run \<rparr>) (md_stories db)"
    "md_runs db' = update_many (\<lambda>r. mr_id r = mr_id run)
       (\<lambda>r. r\<lparr> mr_status := ''UNDONE'', mr_undoneByUserId := undoer, mr_undoneAt := Some now \<rparr>) (md_runs db)"
    "md_domains db' = md_domains db" "md_events db' = md_events db" "md_quotes db' = md_quotes db"
    "md_regenLogs db' = md_regenLogs db" "md_access db' = md_access db"
proof -
  from assms obtain run primary' secondary' where
    run: "List.find (\<lambda>r. mr_id r = runId \<and> mr_organizationId r = org) (md_runs db) = Some run"
      "mr_mergePreview run = Some (primary', secondary')" "mr_status run \<noteq> ''UNDONE''"
    by (auto simp: undoMerge_def split: option.splits if_splits)
  show thesis
    by (rule that [OF conjunct1 [OF find_SomeD [OF run(1)]] run(2)])
      (use assms run in \<open>auto simp: undoMerge_def Let_def split: if_splits\<close>)
qed

lemma merge_wf_rows:
  assumes "merge_wf db" and "md_accounts db' = md_accounts db" and "md_domains db' = md_domains db"
    and "unique_key ct_id (md_contacts db')" and "unique_key contact_key (md_contacts db')"
    and "unique_key call_id (md_calls db')" and "unique_key st_id (md_stories db')"
  shows "merge_wf db'"
  using assms(1,4-7) unfolding merge_wf_def assms(2,3) by blast

lemma merge_inv_undo:
  assumes u: "undoMerge now org runId undoer db = Inr db'" and inv: "merge_inv db"
  shows "merge_inv db'"
proof -
  from u obtain run primary' secondary' where
    run: "run \<in> set (md_runs db)" "mr_mergePreview run = Some (primary', secondary')"
    and acc: "md_accounts db' = (if find_account org (pv_id secondary') (md_accounts db) \<noteq> None then md_accounts db
       else md_accounts db @ [account_of_snapshot org secondary'])"
    and clash: "find_account org (pv_id secondary') (md_accounts db) = None \<longrightarrow>
       \<not> account_clash (account_of_snapshot org secondary') (md_accounts db)"
    and uk: "unique_key contact_key (md_contacts db')"
    and rows: "md_contacts db' = update_many
       (\<lambda>c. ct_id c \<in> set (mr_movedContactIds run) \<and> ct_accountId c = mr_primaryAccountId run)
       (\<lambda>c. c\<lparr> ct_accountId := mr_secondaryAccountId run \<rparr>) (md_contacts db)"
      "md_calls db' = update_many
       (\<lambda>c. call_id c \<in> set (mr_movedCallIds run) \<and> call_accountId c = Some (mr_primaryAccountId run))
       (\<lambda>c. c\<lparr> call_accountId := Some (mr_secondaryAccountId run) \<rparr>) (md_calls db)"
      "md_stories db' = update_many
       (\<lambda>s. st_id s \<in> set (mr_movedStoryIds run) \<and> st_accountId s = mr_primaryAccountId run)
       (\<lambda>s. s\<lparr> st_accountId := mr_secondaryAccountId run \<rparr>) (md_stories db)"
      "md_runs db' = update_many (\<lambda>r. mr_id r = mr_id run)
       (\<lambda>r. r\<lparr> mr_status := ''UNDONE'', mr_undoneByUserId := undoer, mr_undoneAt := Some now \<rparr>) (md_runs db)"
      "md_domains db' = md_domains db" "md_events db' = md_events db" "md_quotes db' = md_quotes db"
      "md_regenLogs db' = md_regenLogs db" "md_access db' = md_access db"
    by (rule undoMergeE)
  let ?new = "account_of_snapshot org secondary'"
  have wf: "merge_wf db" and refs: "refs_ok db" and sn: "snapshots_ok db"
    using inv by (auto simp: merge_inv_def)
  have id: "mr_secondaryAccountId run = pv_id secondary'"
    using sn run by (auto simp: snapshots_ok_def)
  have new: "a_id ?new = pv_id secondary'" "a_organizationId ?new = org" "a_salesforceId ?new = None"
    by (simp_all add: account_of_snapshot_def)
  have ids: "insert (pv_id secondary') (a_id ` set (md_accounts db)) = a_id ` set (md_accounts db')"
  proof (cases "find_account org (pv_id secondary') (md_accounts db)")
    case None
    then show ?thesis using new by (simp add: acc)
  next
    case (Some y)
    from find_accountD [OF Some] have "pv_id secondary' \<in> a_id ` set (md_accounts db)" by (metis imageI)
    with Some show ?thesis by (simp add: acc insert_absorb)
  qed
  have "refs_ok db'"
    using refs unfolding refs_ok_def Let_def rows ids [symmetric] id
    by (auto simp: update_many_def split: option.splits)
  moreover have "merge_wf db'"
  proof (cases "find_account org (pv_id secondary') (md_accounts db)")
    case None
    from clash None new have "merge_wf (db\<lparr> md_accounts := md_accounts db @ [?new] \<rparr>)"
      using wf
      by (auto simp: merge_wf_def unique_key_def account_clash_def list_ex_iff salesforce_keys_def)
    then show ?thesis
      by (rule merge_wf_rows [OF _ _ _ _ uk])
        (use wf None in \<open>simp_all add: merge_wf_def acc rows unique_key_update_many\<close>)
  next
    case (Some a)
    from wf show ?thesis
      by (rule merge_wf_rows [OF _ _ _ _ uk])
        (use wf Some in \<open>simp_all add: merge_wf_def acc rows unique_key_update_many\<close>)
  qed
  moreover have "snapshots_ok db'"
    using sn by (auto simp: snapshots_ok_def rows update_many_def split: option.splits)
  ultimately show ?thesis by (simp add: merge_inv_def)
qed


end
