(* ===== verification/Merge_Tenancy.thy ===== *)
theory Merge_Tenancy
  imports Merge_Integrity
begin

text \<open>
  What the merge handlers may change: only the caller's organization, and a request is decided once.
  Concrete states at which the merge properties apply.
\<close>

section \<open>Handlers and tenants\<close>

datatype merge_call =
  Request ident ident "string option" | Review ident bool "string option" |
  Merge ident ident "string option" | Undo ident

definition merge_handle :: "MergeCtx \<Rightarrow> AuthRequest \<Rightarrow> merge_call \<Rightarrow> MergeState \<Rightarrow> response \<times> MergeState" where
  "merge_handle cx req h st =
     (case h of
        Request p s notes \<Rightarrow> merge_request_route cx req p s notes st
      | Review requestId approve notes \<Rightarrow> merge_review_route cx req requestId approve notes st
      | Merge p s notes \<Rightarrow> merge_route cx req p s notes st
      | Undo runId \<Rightarrow> undo_route cx req runId st)"

definition foreign :: "ident \<Rightarrow> MergeDb \<Rightarrow> Account list" where
  "foreign org db = filter (\<lambda>a. a_organizationId a \<noteq> org) (md_accounts db)"

lemma filter_delete_other: "(\<And>r. r \<in> set rows \<Longrightarrow> p r \<Longrightarrow> \<not> q r) \<Longrightarrow> filter q (delete_many p rows) = filter q rows"
  by (induction rows) auto

lemma foreign_execute:
  assumes "executeMerge runId aliasId org p s initiator notes db = Inr (r, db')" and "merge_wf db"
  shows "foreign org db' = foreign org db"
proof -
  from assms(1) obtain primary secondary where
    f: "find_account org p (md_accounts db) = Some primary"
      "find_account org s (md_accounts db) = Some secondary" "p \<noteq> s"
    and acc: "md_accounts db' = delete_many (\<lambda>a. a_id a = s)
       (update_many (\<lambda>a. a_id a = p) (crmUpdates primary secondary) (md_accounts db))"
    by (rule executeMergeE)
  have u: "unique_key a_id (md_accounts db)" using assms(2) by (simp add: merge_wf_def)
  have own: "a_organizationId a = org" if "a \<in> set (md_accounts db)" "a_id a = p \<or> a_id a = s" for a
    using that unique_key_eq [OF u that(1)] find_accountD [OF f(1)] find_accountD [OF f(2)] by metis
  let ?up = "update_many (\<lambda>a. a_id a = p) (crmUpdates primary secondary) (md_accounts db)"
  have "filter (\<lambda>a. a_organizationId a \<noteq> org) (delete_many (\<lambda>a. a_id a = s) ?up) =
      filter (\<lambda>a. a_organizationId a \<noteq> org) ?up"
    by (rule filter_delete_other) (use own f(3) in \<open>auto elim!: in_update_manyE\<close>)
  also have "\<dots> = filter (\<lambda>a. a_organizationId a \<noteq> org) (md_accounts db)"
    by (rule filter_update_many_on) (use own in auto)
  finally show ?thesis by (simp add: foreign_def acc)
qed

lemma foreign_undo:
  assumes "undoMerge now org runId undoer db = Inr db'"
  shows "foreign org db' = foreign org db"
proof -
  from assms obtain run primary' secondary' where "run \<in> set (md_runs db)"
    and "mr_mergePreview run = Some (primary', secondary')"
    and "md_accounts db' = (if find_account org (pv_id secondary') (md_accounts db) \<noteq> None then md_accounts db
       else md_accounts db @ [account_of_snapshot org secondary'])"
    by (rule undoMergeE)
  then show ?thesis by (simp add: foreign_def account_of_snapshot_def)
qed

text \<open>
  C26. The merge handlers stay in their tenant: a caller whose permission check fails changes nothing, and
  whatever a permitted caller sends, the accounts and merge requests of the other organizations stay as
  they are.
\<close>

theorem merge_handlers_stay_in_tenant:
  assumes "merge_wf (ms_db st)" and "unique_key mq_id (ms_requests st)" and "req_organizationId req = Some org"
  shows "foreign org (ms_db (snd (merge_handle cx req h st))) = foreign org (ms_db st) \<and>
    filter (\<lambda>q. mq_organizationId q \<noteq> org) (ms_requests (snd (merge_handle cx req h st))) =
      filter (\<lambda>q. mq_organizationId q \<noteq> org) (ms_requests st) \<and>
    (merge_guard req st = Next \<or> snd (merge_handle cx req h st) = st)"
proof -
  note ex = foreign_execute [OF _ assms(1)]
  have fin: "filter (\<lambda>q. mq_organizationId q \<noteq> org)
      (ms_requests (finish_request now (mq_id q) uid status notes' st')) =
        filter (\<lambda>q. mq_organizationId q \<noteq> org) (ms_requests st)"
    if "List.find (\<lambda>q. mq_id q = i \<and> mq_organizationId q = org) (ms_requests st) = Some q"
      "ms_requests st' = ms_requests st" for i q now uid status notes' st'
  proof -
    have "q' = q" if "q' \<in> set (ms_requests st)" "mq_id q' = mq_id q" for q'
      using unique_key_eq [OF assms(2) that(1)] find_SomeD [OF \<open>List.find _ _ = Some q\<close>] that(2) by blast
    then show ?thesis
      unfolding finish_request_def using that find_SomeD [OF that(1)]
      by (auto intro!: filter_update_many_on)
  qed
  have fdb: "ms_db (finish_request now i uid status notes' st') = ms_db st'" for now i uid status notes' st'
    by (simp add: finish_request_def)
  show ?thesis
  proof (cases h)
    case (Request p s n)
    then show ?thesis
      using assms(3) by (auto simp: merge_handle_def merge_request_route_def createMergeRequest_def Let_def
          split: guard.splits sum.splits)
  next
    case (Review requestId approve n)
    then show ?thesis
      using assms(3)
      by (auto simp: merge_handle_def merge_review_route_def Let_def fdb fin ex
          split: guard.splits sum.splits option.splits)
  next
    case (Merge p s n)
    then show ?thesis
      using assms(3) by (auto simp: merge_handle_def merge_route_def ex split: guard.splits sum.splits)
  next
    case (Undo runId)
    then show ?thesis
      using assms(3)
      by (auto simp: merge_handle_def undo_route_def foreign_undo split: guard.splits sum.splits)
  qed
qed

lemma merge_guard_not_200: "merge_guard req st = Status code msg \<Longrightarrow> code \<noteq> 200"
  by (auto simp: merge_guard_def requirePermission_def Let_def split: if_splits option.splits)

text \<open>
  A merge request is decided once: a review that answers 200 found the request pending; if it approved,
  the merge of the request has been carried out, and if it rejected, no account was touched; and no later
  review of the request, by anybody, changes anything.
\<close>

theorem merge_review_decides_once:
  assumes r: "merge_review_route cx req requestId approve notes st = (Response 200 msg, st')"
    and u: "unique_key mq_id (ms_requests st)"
  shows "(\<exists>q org. List.find (\<lambda>q. mq_id q = requestId \<and> mq_organizationId q = org) (ms_requests st) = Some q \<and>
      req_organizationId req = Some org \<and> mq_status q = ''PENDING'' \<and>
      (if approve
       then \<exists>res. executeMerge (mc_runId cx) (mc_aliasId cx) org (mq_primaryId q) (mq_secondaryId q)
          (Some (mq_requestedByUserId q)) (mq_notes q) (ms_db st) = Inr (res, ms_db st')
       else ms_db st' = ms_db st)) \<and>
    snd (merge_review_route cx2 req2 requestId approve2 notes2 st') = st'"
proof -
  have g: "merge_guard req st = Next"
    using r merge_guard_not_200 by (cases "merge_guard req st") (auto simp: merge_review_route_def)
  with r have "truthy (req_organizationId req)" "truthy (req_userId req)"
    by (auto simp: merge_review_route_def split: if_splits)
  then obtain org uid where ids: "req_organizationId req = Some org" "org \<noteq> []"
    "req_userId req = Some uid" "uid \<noteq> []"
    by (auto elim!: truthyE)
  with g r obtain q where
    f: "List.find (\<lambda>q. mq_id q = requestId \<and> mq_organizationId q = org) (ms_requests st) = Some q"
    and pend: "mq_status q = ''PENDING''"
    by (auto simp: merge_review_route_def split: option.splits if_splits)
  have id: "mq_id q = requestId" using find_SomeD [OF f] by simp
  have out: "(if approve
       then \<exists>res. executeMerge (mc_runId cx) (mc_aliasId cx) org (mq_primaryId q) (mq_secondaryId q)
          (Some (mq_requestedByUserId q)) (mq_notes q) (ms_db st) = Inr (res, ms_db st')
       else ms_db st' = ms_db st) \<and>
     (\<exists>status. status \<noteq> ''PENDING'' \<and> ms_requests st' = update_many (\<lambda>r. mq_id r = requestId)
       (\<lambda>r. r\<lparr> mq_status := status, mq_reviewerUserId := Some uid, mq_reviewNotes := notes,
               mq_reviewedAt := Some (mc_now cx) \<rparr>) (ms_requests st))"
  proof (cases approve)
    case False
    with r g ids f pend id show ?thesis
      by (auto simp: merge_review_route_def finish_request_def split: option.splits if_splits
          intro!: exI [of _ "''REJECTED''"])
  next
    case True
    with r g ids f pend obtain res db where
      e: "executeMerge (mc_runId cx) (mc_aliasId cx) org (mq_primaryId q) (mq_secondaryId q)
          (Some (mq_requestedByUserId q)) (mq_notes q) (ms_db st) = Inr (res, db)"
      by (cases "executeMerge (mc_runId cx) (mc_aliasId cx) org (mq_primaryId q) (mq_secondaryId q)
          (Some (mq_requestedByUserId q)) (mq_notes q) (ms_db st)")
        (auto simp: merge_review_route_def merge_error_response_def split: option.splits if_splits
          MergeError.splits)
    with True r g ids f pend id show ?thesis
      by (auto simp: merge_review_route_def finish_request_def split: option.splits if_splits
          intro!: exI [of _ "''APPROVED''"])
  qed
  have final: "mq_status q' \<noteq> ''PENDING''"
    if "List.find (\<lambda>q. mq_id q = requestId \<and> mq_organizationId q = o2) (ms_requests st') = Some q'" for o2 q'
  proof -
    from conjunct2 [OF out] obtain status where "status \<noteq> ''PENDING''"
      and rq: "ms_requests st' = update_many (\<lambda>r. mq_id r = requestId)
       (\<lambda>r. r\<lparr> mq_status := status, mq_reviewerUserId := Some uid, mq_reviewNotes := notes,
               mq_reviewedAt := Some (mc_now cx) \<rparr>) (ms_requests st)" by (elim exE conjE)
    moreover have "q' \<in> set (ms_requests st')" "mq_id q' = requestId" using find_SomeD [OF that] by simp_all
    ultimately show ?thesis unfolding rq by (elim in_update_manyE) simp_all
  qed
  have "snd (merge_review_route cx2 req2 requestId approve2 notes2 st') = st'"
    using final [of "the (req_organizationId req2)"]
    by (simp add: merge_review_route_def Let_def split: guard.split option.split)
  with f ids(1) pend out show ?thesis by blast
qed

section \<open>Concrete merges\<close>

definition merge_account :: "ident \<Rightarrow> string \<Rightarrow> string \<Rightarrow> Account" where
  "merge_account i nm d =
     \<lparr> a_id = i, a_organizationId = ''org'', a_name = nm, a_normalizedName = nm, a_domain = Some d,
       a_salesforceId = None, a_hubspotId = None, a_mergeAccountId = None, a_industry = None,
       a_employeeCount = None, a_annualRevenue = None \<rparr>"

definition sample_merge_db :: MergeDb where
  "sample_merge_db =
     \<lparr> md_accounts = [merge_account ''a'' ''acme'' ''acme.com'', merge_account ''b'' ''ace'' ''ace.io''],
       md_domains = [], md_contacts = [\<lparr> ct_id = ''c'', ct_accountId = ''b'', ct_email = ''x@ace.io'' \<rparr>],
       md_participants = [],
       md_calls = [\<lparr> call_id = ''k'', call_organizationId = ''org'', call_accountId = Some ''b'', call_duration = None \<rparr>],
       md_stories = [], md_pages = [], md_events = [],
       md_access = [\<lparr> uaa_id = ''g'', uaa_userId = ''u'', uaa_organizationId = ''org'',
         uaa_scopeType = ACCOUNT_LIST, uaa_accountId = None, uaa_crmReportId = None, uaa_crmProvider = None,
         uaa_crmReportName = None, uaa_cachedAccountIds = [''b''], uaa_lastSyncedAt = None,
         uaa_grantedById = None \<rparr>],
       md_quotes = [\<lparr> q_id = ''q'', q_accountId = ''b'' \<rparr>], md_regenLogs = [], md_runs = [] \<rparr>"

lemmas sample_merge_defs = sample_merge_db_def merge_account_def

lemma sample_merge_inv: "merge_inv sample_merge_db"
  by (simp add: merge_inv_def merge_wf_def refs_ok_def snapshots_ok_def sample_merge_defs unique_key_def
      contact_key_def salesforce_keys_def)

lemma merge_sample_find:
  "find_account ''org'' ''a'' (md_accounts sample_merge_db) = Some (merge_account ''a'' ''acme'' ''acme.com'')"
  "find_account ''org'' ''b'' (md_accounts sample_merge_db) = Some (merge_account ''b'' ''ace'' ''ace.io'')"
  by (simp_all add: find_account_def sample_merge_defs)

lemma sample_executes:
  "\<exists>r db'. executeMerge ''run'' ''al'' ''org'' ''a'' ''b'' None None sample_merge_db = Inr (r, db')"
  by (simp add: executeMerge_def find_account_def previewMerge_def loadAccountPreview_def Let_def case_prod_beta
      move_contact_def sample_merge_defs unique_key_def contact_key_def event_keys_def salesforce_keys_def
      crmUpdates_def fill_def fill_num_def add_main_domain_def move_alias_def has_alias_def)

theorem merge_moves_everything_witness:
  "\<exists>r db'. executeMerge ''run'' ''al'' ''org'' ''a'' ''b'' None None sample_merge_db = Inr (r, db') \<and>
     map call_id (filter (\<lambda>c. call_accountId c = Some ''a'') (md_calls db')) = [''k''] \<and>
     ''ace.io'' \<in> account_domains ''a'' db'"
proof -
  obtain r db' where m: "executeMerge ''run'' ''al'' ''org'' ''a'' ''b'' None None sample_merge_db = Inr (r, db')"
    using sample_executes by blast
  have wf: "merge_wf sample_merge_db" using sample_merge_inv by (simp add: merge_inv_def)
  have fresh: "''al'' \<notin> ad_id ` set (md_domains sample_merge_db)" by (simp add: sample_merge_defs)
  have "map call_id (filter (\<lambda>c. call_accountId c \<in> {Some ''a'', Some ''b''}) (md_calls sample_merge_db)) = [''k'']"
    and "''ace.io'' \<in> account_domains ''b'' sample_merge_db"
    by (simp_all add: sample_merge_defs account_domains_def)
  with merge_moves_everything [OF m wf fresh] m show ?thesis by auto
qed

theorem merge_undo_roundtrip_witness:
  "\<exists>r db' db''. executeMerge ''run'' ''al'' ''org'' ''a'' ''b'' None None sample_merge_db = Inr (r, db') \<and>
     undoMerge 5 ''org'' ''run'' None db' = Inr db'' \<and> md_calls db'' = md_calls sample_merge_db"
proof -
  obtain r db' where m: "executeMerge ''run'' ''al'' ''org'' ''a'' ''b'' None None sample_merge_db = Inr (r, db')"
    using sample_executes by blast
  have wf: "merge_wf sample_merge_db" using sample_merge_inv by (simp add: merge_inv_def)
  have fresh: "''run'' \<notin> mr_id ` set (md_runs sample_merge_db)" by (simp add: sample_merge_defs)
  from merge_undo_roundtrip [OF m wf fresh merge_sample_find(2), of 5 None] m show ?thesis by blast
qed


theorem merge_loses_quotes_and_list_grants_witness:
  "\<exists>r db'. executeMerge ''run'' ''al'' ''org'' ''a'' ''b'' None None sample_merge_db = Inr (r, db') \<and>
     canAccessAccount (md_access sample_merge_db) ''u'' ''org'' ''b'' (Some MEMBER) \<and>
     \<not> canAccessAccount (md_access db') ''u'' ''org'' ''a'' (Some MEMBER) \<and> md_quotes db' = []"
proof -
  obtain r db' where m: "executeMerge ''run'' ''al'' ''org'' ''a'' ''b'' None None sample_merge_db = Inr (r, db')"
    using sample_executes by blast
  from merge_loses_quotes_and_list_grants [OF m, of "''u''"] m show ?thesis
    by (simp add: sample_merge_defs user_grants_def)
qed

definition salesforce_merge_db :: MergeDb where
  "salesforce_merge_db = sample_merge_db\<lparr> md_accounts := [merge_account ''a'' ''acme'' ''acme.com'',
     (merge_account ''b'' ''ace'' ''ace.io'')\<lparr> a_salesforceId := Some ''001'' \<rparr>] \<rparr>"

theorem merge_blocked_by_salesforce_id_witness:
  "executeMerge ''run'' ''al'' ''org'' ''a'' ''b'' None None salesforce_merge_db = Inl UniqueViolation"
proof -
  have wf: "merge_wf salesforce_merge_db"
    by (simp add: merge_wf_def salesforce_merge_db_def sample_merge_defs unique_key_def contact_key_def
        salesforce_keys_def)
  show ?thesis
    by (rule merge_blocked_by_salesforce_id [OF wf])
      (simp_all add: salesforce_merge_db_def sample_merge_defs find_account_def, simp_all)
qed

definition sample_merge_state :: MergeState where
  "sample_merge_state =
     \<lparr> ms_access = \<lparr> db_users = [], db_roleProfiles = [], db_roleAssignments = [], db_usageLimits = [],
         db_accountAccess = [], db_userPermissions = [], db_orgSettings = [] \<rparr>,
       ms_db = sample_merge_db,
       ms_requests = [\<lparr> mq_id = ''rq'', mq_organizationId = ''org'', mq_targetId = ''b'',
         mq_requestedByUserId = ''u1'', mq_status = ''PENDING'', mq_primaryId = ''a'', mq_secondaryId = ''b'',
         mq_notes = None, mq_reviewerUserId = None, mq_reviewNotes = None, mq_reviewedAt = None \<rparr>] \<rparr>"

definition merge_owner :: AuthRequest where
  "merge_owner = \<lparr> req_organizationId = Some ''org'', req_userId = Some ''o1'', req_userRole = Some OWNER \<rparr>"

definition sample_merge_ctx :: MergeCtx where
  "sample_merge_ctx = \<lparr> mc_now = 9, mc_requestId = ''n'', mc_runId = ''run'', mc_aliasId = ''al'' \<rparr>"

lemma merge_owner_passes: "merge_guard merge_owner st = Next"
  by (simp add: merge_guard_def requirePermission_def merge_owner_def is_admin_def ADMIN_ROLES_def)

theorem merge_handlers_stay_in_tenant_witness:
  "foreign ''org'' (ms_db (snd (merge_handle sample_merge_ctx merge_owner (Merge ''a'' ''b'' None) sample_merge_state))) = []"
proof -
  have "merge_wf (ms_db sample_merge_state)"
    using sample_merge_inv by (simp add: merge_inv_def sample_merge_state_def)
  moreover have "unique_key mq_id (ms_requests sample_merge_state)"
    by (simp add: sample_merge_state_def unique_key_def)
  ultimately show ?thesis
    using merge_handlers_stay_in_tenant [of sample_merge_state merge_owner "''org''" sample_merge_ctx
        "Merge ''a'' ''b'' None"]
    by (simp add: merge_owner_def foreign_def sample_merge_state_def sample_merge_defs)
qed

lemma sample_rejects:
  "\<exists>st'. merge_review_route sample_merge_ctx merge_owner ''rq'' False None sample_merge_state =
     (Response 200 ''REJECTED'', st')"
  by (simp add: merge_review_route_def merge_owner_passes) (simp add: merge_owner_def sample_merge_state_def)

theorem merge_review_decides_once_witness:
  "\<exists>st'. merge_review_route sample_merge_ctx merge_owner ''rq'' False None sample_merge_state =
       (Response 200 ''REJECTED'', st') \<and>
     snd (merge_review_route sample_merge_ctx merge_owner ''rq'' True None st') = st'"
proof -
  obtain st' where r: "merge_review_route sample_merge_ctx merge_owner ''rq'' False None sample_merge_state =
     (Response 200 ''REJECTED'', st')" using sample_rejects by blast
  have "unique_key mq_id (ms_requests sample_merge_state)"
    by (simp add: sample_merge_state_def unique_key_def)
  from merge_review_decides_once [OF r this] r show ?thesis by blast
qed

end
