(* ===== verification/Rate_Limiter.thy ===== *)
theory Rate_Limiter
  imports Prelude "HOL-Library.Multiset"
begin

text \<open>
  The limiter of requests and tokens per minute in front of the language model
  (\<open>src/services/rate-limiter.ts\<close>, class \<open>RateLimiter\<close>).

  A caller that finds no capacity is queued and released by a timer. The field \<open>drainScheduled\<close> and
  the timer behind it are one field: the time the drain is due, if one is scheduled. \<open>Date.now()\<close> is
  an argument; the callback \<open>resolve\<close> of a released caller is the output of the operation. The steps
  of \<open>rl_step\<close> are the events of the event loop: a call of \<open>acquire\<close>, a usage report, and the timer,
  which JavaScript may run late but never before it is due.
\<close>

section \<open>State and operations\<close>

record PendingRequest =
  pr_caller :: nat
  estimatedTokens :: int

record RateLimiter =
  maxRPM :: int
  maxTPM :: int
  requestsThisWindow :: int
  tokensThisWindow :: int
  windowStartMs :: millis
  rl_queue :: "PendingRequest list"
  drainAt :: "millis option"

definition windowMs :: int where
  "windowMs = 60000"

definition newRateLimiter :: "int \<Rightarrow> int \<Rightarrow> millis \<Rightarrow> RateLimiter" where
  "newRateLimiter rpm tpm now =
     \<lparr> maxRPM = rpm, maxTPM = tpm, requestsThisWindow = 0, tokensThisWindow = 0, windowStartMs = now,
       rl_queue = [], drainAt = None \<rparr>"

definition estimateTokens :: "string \<Rightarrow> nat" where
  "estimateTokens t = (length t + 3) div 4"

definition maybeResetWindow :: "millis \<Rightarrow> RateLimiter \<Rightarrow> RateLimiter" where
  "maybeResetWindow now l =
     (if windowMs \<le> now - windowStartMs l
      then l\<lparr> requestsThisWindow := 0, tokensThisWindow := 0, windowStartMs := now \<rparr> else l)"

definition canProceed :: "int \<Rightarrow> RateLimiter \<Rightarrow> bool" where
  "canProceed tokens l \<longleftrightarrow>
     requestsThisWindow l < maxRPM l \<and> tokensThisWindow l + tokens \<le> maxTPM l"

definition rl_consume :: "int \<Rightarrow> RateLimiter \<Rightarrow> RateLimiter" where
  "rl_consume tokens l =
     l\<lparr> requestsThisWindow := requestsThisWindow l + 1, tokensThisWindow := tokensThisWindow l + tokens \<rparr>"

definition drain_delay :: "millis \<Rightarrow> RateLimiter \<Rightarrow> int" where
  "drain_delay now l =
     (let timeUntilReset = max 0 (windowMs - (now - windowStartMs l)) in min 500 (timeUntilReset + 50))"

definition scheduleDrain :: "millis \<Rightarrow> RateLimiter \<Rightarrow> RateLimiter" where
  "scheduleDrain now l =
     (case drainAt l of Some t \<Rightarrow> l | None \<Rightarrow> l\<lparr> drainAt := Some (now + drain_delay now l) \<rparr>)"

definition acquire :: "millis \<Rightarrow> PendingRequest \<Rightarrow> RateLimiter \<Rightarrow> PendingRequest list \<times> RateLimiter" where
  "acquire now r l =
     (let l = maybeResetWindow now l in
      if canProceed (estimatedTokens r) l then ([r], rl_consume (estimatedTokens r) l)
      else ([], scheduleDrain now (l\<lparr> rl_queue := rl_queue l @ [r] \<rparr>)))"

definition reportUsage :: "int \<Rightarrow> int \<Rightarrow> RateLimiter \<Rightarrow> RateLimiter" where
  "reportUsage actual estimated l =
     (let diff = actual - estimated in
      if 0 < diff then l\<lparr> tokensThisWindow := tokensThisWindow l + diff \<rparr> else l)"

fun drain_loop :: "millis \<Rightarrow> PendingRequest list \<Rightarrow> RateLimiter \<Rightarrow> PendingRequest list \<times> RateLimiter" where
  "drain_loop now [] l = ([], l\<lparr> rl_queue := [] \<rparr>)"
| "drain_loop now (r # rs) l =
     (if canProceed (estimatedTokens r) l
      then (let (released, l') = drain_loop now rs (rl_consume (estimatedTokens r) l) in (r # released, l'))
      else ([], scheduleDrain now (l\<lparr> rl_queue := r # rs \<rparr>)))"

definition drain :: "millis \<Rightarrow> RateLimiter \<Rightarrow> PendingRequest list \<times> RateLimiter" where
  "drain now l = (let l = maybeResetWindow now l in drain_loop now (rl_queue l) l)"

definition drain_timer :: "millis \<Rightarrow> RateLimiter \<Rightarrow> PendingRequest list \<times> RateLimiter" where
  "drain_timer now l = drain now (l\<lparr> drainAt := None \<rparr>)"

section \<open>Runs of the event loop\<close>

text \<open>
  A run carries the clock, the limiter and the log of the released requests with the time of their
  release and the start of the window that admitted them.
\<close>

record Grant =
  gr_time :: millis
  gr_window :: millis
  gr_request :: PendingRequest

type_synonym rl_state = "millis \<times> RateLimiter \<times> Grant list"

definition grants :: "millis \<Rightarrow> PendingRequest list \<times> RateLimiter \<Rightarrow> Grant list" where
  "grants now out =
     map (\<lambda>r. \<lparr> gr_time = now, gr_window = windowStartMs (snd out), gr_request = r \<rparr>) (fst out)"

definition rl_event :: "millis \<Rightarrow> PendingRequest list \<times> RateLimiter \<Rightarrow> Grant list \<Rightarrow> rl_state" where
  "rl_event now out log = (now, snd out, log @ grants now out)"

inductive rl_step :: "rl_state \<Rightarrow> rl_state \<Rightarrow> bool" where
  call: "now \<le> now' \<Longrightarrow> 0 \<le> estimatedTokens r \<Longrightarrow>
     rl_step (now, l, log) (rl_event now' (acquire now' r l) log)"
| report: "now \<le> now' \<Longrightarrow> rl_step (now, l, log) (now', reportUsage actual estimated l, log)"
| timer: "now \<le> now' \<Longrightarrow> drainAt l = Some due \<Longrightarrow> due \<le> now' \<Longrightarrow>
     rl_step (now, l, log) (rl_event now' (drain_timer now' l) log)"

inductive_cases rl_stepE: "rl_step s s'"

definition start_state :: "int \<Rightarrow> int \<Rightarrow> millis \<Rightarrow> rl_state" where
  "start_state rpm tpm now = (now, newRateLimiter rpm tpm now, [])"

section \<open>What the operations keep\<close>

lemmas rl_defs = maybeResetWindow_def rl_consume_def scheduleDrain_def

lemma reset_fields [simp]:
  "maxRPM (maybeResetWindow now l) = maxRPM l" "maxTPM (maybeResetWindow now l) = maxTPM l"
  "rl_queue (maybeResetWindow now l) = rl_queue l" "drainAt (maybeResetWindow now l) = drainAt l"
  by (simp_all add: maybeResetWindow_def)

lemma consume_fields [simp]:
  "maxRPM (rl_consume n l) = maxRPM l" "maxTPM (rl_consume n l) = maxTPM l"
  "rl_queue (rl_consume n l) = rl_queue l" "drainAt (rl_consume n l) = drainAt l"
  "windowStartMs (rl_consume n l) = windowStartMs l"
  "requestsThisWindow (rl_consume n l) = requestsThisWindow l + 1"
  "tokensThisWindow (rl_consume n l) = tokensThisWindow l + n"
  by (simp_all add: rl_consume_def)

lemma schedule_fields [simp]:
  "maxRPM (scheduleDrain now l) = maxRPM l" "maxTPM (scheduleDrain now l) = maxTPM l"
  "rl_queue (scheduleDrain now l) = rl_queue l" "windowStartMs (scheduleDrain now l) = windowStartMs l"
  "requestsThisWindow (scheduleDrain now l) = requestsThisWindow l"
  "tokensThisWindow (scheduleDrain now l) = tokensThisWindow l"
  "drainAt (scheduleDrain now l) \<noteq> None"
  by (simp_all add: scheduleDrain_def split: option.splits)

lemma report_fields [simp]:
  "maxRPM (reportUsage a e l) = maxRPM l" "maxTPM (reportUsage a e l) = maxTPM l"
  "rl_queue (reportUsage a e l) = rl_queue l" "drainAt (reportUsage a e l) = drainAt l"
  "windowStartMs (reportUsage a e l) = windowStartMs l"
  "requestsThisWindow (reportUsage a e l) = requestsThisWindow l"
  "tokensThisWindow l \<le> tokensThisWindow (reportUsage a e l)"
  by (simp_all add: reportUsage_def Let_def)

lemma loop_fields:
  assumes "drain_loop now rs l = (released, l')"
  shows "maxRPM l' = maxRPM l" "maxTPM l' = maxTPM l" "windowStartMs l' = windowStartMs l"
    and "rs = released @ rl_queue l'"
    and "requestsThisWindow l' = requestsThisWindow l + int (length released)"
    and "tokensThisWindow l' = tokensThisWindow l + sum_list (map estimatedTokens released)"
    and "rl_queue l' = [] \<or> drainAt l' \<noteq> None"
  using assms by (induction now rs l arbitrary: released l' rule: drain_loop.induct)
    (auto split: if_splits prod.splits simp del: not_None_eq)

text \<open>What one turn of the loop releases fits into the window.\<close>

lemma loop_fits:
  "drain_loop now rs l = (released, l') \<Longrightarrow>
     released = [] \<or> (requestsThisWindow l' \<le> maxRPM l \<and> tokensThisWindow l' \<le> maxTPM l)"
proof (induction now rs l arbitrary: released l' rule: drain_loop.induct)
  case (2 now r rs l)
  show ?case
  proof (cases "canProceed (estimatedTokens r) l")
    case True
    obtain released1 l1 where d: "drain_loop now rs (rl_consume (estimatedTokens r) l) = (released1, l1)"
      by fastforce
    with 2(2) True have "released = r # released1" "l' = l1" by simp_all
    with 2(1) [OF True d] loop_fields(5,6) [OF d] True show ?thesis
      by (auto simp: canProceed_def)
  qed (use 2(2) in simp)
qed simp

text \<open>
  The contract of an operation that may release callers: it works in the window of the present,
  counts what it releases, releases only what fits, loses nobody, and leaves a timer running as
  long as somebody waits.
\<close>

locale admission =
  fixes op :: "millis \<Rightarrow> RateLimiter \<Rightarrow> PendingRequest list \<times> RateLimiter"
    and candidates :: "RateLimiter \<Rightarrow> PendingRequest list"
  assumes limits: "maxRPM (snd (op now l)) = maxRPM l" "maxTPM (snd (op now l)) = maxTPM l"
    and window: "windowStartMs (snd (op now l)) = windowStartMs (maybeResetWindow now l)"
    and counted:
      "requestsThisWindow (snd (op now l)) =
         requestsThisWindow (maybeResetWindow now l) + int (length (fst (op now l)))"
      "tokensThisWindow (snd (op now l)) =
         tokensThisWindow (maybeResetWindow now l) + sum_list (map estimatedTokens (fst (op now l)))"
    and fits: "fst (op now l) = [] \<or>
      (requestsThisWindow (snd (op now l)) \<le> maxRPM l \<and> tokensThisWindow (snd (op now l)) \<le> maxTPM l)"
    and nobody_lost: "mset (fst (op now l)) + mset (rl_queue (snd (op now l))) = mset (candidates l)"
    and timer_runs: "rl_queue l = [] \<or> drainAt l \<noteq> None \<Longrightarrow>
      rl_queue (snd (op now l)) = [] \<or> drainAt (snd (op now l)) \<noteq> None"

definition by_call :: "PendingRequest \<Rightarrow> millis \<Rightarrow> RateLimiter \<Rightarrow> PendingRequest list \<times> RateLimiter" where
  "by_call r now l = acquire now r l"

interpretation calls: admission "by_call r" "\<lambda>l. rl_queue l @ [r]" for r
  by unfold_locales (auto simp: by_call_def acquire_def Let_def canProceed_def simp del: not_None_eq)

lemma reset_drainAt: "maybeResetWindow now (l\<lparr> drainAt := d \<rparr>) = (maybeResetWindow now l)\<lparr> drainAt := d \<rparr>"
  by (simp add: maybeResetWindow_def)

lemma canProceed_drainAt [simp]: "canProceed n (l\<lparr> drainAt := d \<rparr>) = canProceed n l"
  by (simp add: canProceed_def)

lemma timer_fields:
  obtains released l' where "drain_timer now l = (released, l')"
    "drain_loop now (rl_queue l) ((maybeResetWindow now l)\<lparr> drainAt := None \<rparr>) = (released, l')"
  by (cases "drain_timer now l") (simp add: drain_timer_def drain_def Let_def reset_drainAt)

interpretation timer: admission drain_timer rl_queue
proof (unfold_locales, goal_cases)
  case (1 now l) show ?case by (rule timer_fields [of now l]) (use loop_fields(1) in force)
next
  case (2 now l) show ?case by (rule timer_fields [of now l]) (use loop_fields(2) in force)
next
  case (3 now l) show ?case by (rule timer_fields [of now l]) (use loop_fields(3) in force)
next
  case (4 now l) show ?case by (rule timer_fields [of now l]) (use loop_fields(5) in force)
next
  case (5 now l) show ?case by (rule timer_fields [of now l]) (use loop_fields(6) in force)
next
  case (6 now l) show ?case by (rule timer_fields [of now l]) (use loop_fits in force)
next
  case (7 now l) show ?case by (rule timer_fields [of now l]) (use loop_fields(4) in \<open>force simp flip: mset_append\<close>)
next
  case (8 l now) show ?case by (rule timer_fields [of now l]) (use loop_fields(7) in force)
qed

section \<open>The rate is bounded\<close>

definition in_window :: "millis \<Rightarrow> Grant list \<Rightarrow> Grant list" where
  "in_window w log = filter (\<lambda>g. gr_window g = w) log"

definition in_minute :: "millis \<Rightarrow> Grant list \<Rightarrow> Grant list" where
  "in_minute t log = filter (\<lambda>g. t \<le> gr_time g \<and> gr_time g < t + windowMs) log"

definition load :: "Grant list \<Rightarrow> int" where
  "load log = sum_list (map (\<lambda>g. estimatedTokens (gr_request g)) log)"

text \<open>The windows of the log are a minute long and do not overlap.\<close>

definition windows_ok :: "millis \<Rightarrow> Grant list \<Rightarrow> bool" where
  "windows_ok current log \<longleftrightarrow>
     (\<forall>g \<in> set log. gr_window g \<le> gr_time g \<and> gr_time g < gr_window g + windowMs \<and>
        (gr_window g = current \<or> gr_window g + windowMs \<le> current) \<and>
        (\<forall>h \<in> set log. gr_window g < gr_window h \<longrightarrow> gr_window g + windowMs \<le> gr_window h))"

definition fits_limits :: "int \<Rightarrow> int \<Rightarrow> Grant list \<Rightarrow> bool" where
  "fits_limits rpm tpm log \<longleftrightarrow>
     (\<forall>w. int (length (in_window w log)) \<le> rpm \<and> load (in_window w log) \<le> tpm)"

definition rl_inv :: "int \<Rightarrow> int \<Rightarrow> rl_state \<Rightarrow> bool" where
  "rl_inv rpm tpm s =
     (case s of (now, l, log) \<Rightarrow>
        maxRPM l = rpm \<and> maxTPM l = tpm \<and> windowStartMs l \<le> now \<and>
        requestsThisWindow l = int (length (in_window (windowStartMs l) log)) \<and>
        load (in_window (windowStartMs l) log) \<le> tokensThisWindow l \<and>
        windows_ok (windowStartMs l) log \<and> fits_limits rpm tpm log \<and>
        (\<forall>r \<in> set (map gr_request log @ rl_queue l). 0 \<le> estimatedTokens r) \<and>
        (rl_queue l = [] \<or> drainAt l \<noteq> None))"

lemma load_append [simp]: "load (xs @ ys) = load xs + load ys" "load [] = 0"
  by (simp_all add: load_def)

lemma in_window_append [simp]: "in_window w (xs @ ys) = in_window w xs @ in_window w ys"
  by (simp add: in_window_def)

lemma in_window_grants:
  "in_window w (grants now out) = (if w = windowStartMs (snd out) then grants now out else [])"
  by (induction "fst out") (auto simp: in_window_def grants_def)

lemma load_grants: "load (grants now out) = sum_list (map estimatedTokens (fst out))"
  by (simp add: load_def grants_def o_def)

lemma windows_ok_fresh: "windows_ok c log \<Longrightarrow> c + windowMs \<le> now \<Longrightarrow> in_window now log = []"
  by (force simp: windows_ok_def in_window_def windowMs_def filter_empty_conv)

lemma windows_apart:
  "windows_ok c log \<Longrightarrow> g \<in> set log \<Longrightarrow> h \<in> set log \<Longrightarrow> gr_window g < gr_window h \<Longrightarrow>
     gr_window g + windowMs \<le> gr_window h"
  by (simp add: windows_ok_def)

lemma windows_ok_extend:
  assumes "windows_ok c log" "now < c' + windowMs" "c' \<le> now" "c' = c \<or> c + windowMs \<le> c'"
    and "\<forall>g \<in> set gs. gr_time g = now \<and> gr_window g = c'"
  shows "windows_ok c' (log @ gs)"
  using assms unfolding windows_ok_def windowMs_def by (auto; fastforce)

lemma reset_cases:
  obtains (same) "maybeResetWindow now l = l" "now < windowStartMs l + windowMs"
  | (fresh) "maybeResetWindow now l = l\<lparr> requestsThisWindow := 0, tokensThisWindow := 0, windowStartMs := now \<rparr>"
      "windowStartMs l + windowMs \<le> now"
  by (cases "windowMs \<le> now - windowStartMs l") (auto simp: maybeResetWindow_def)

lemma reset_counters:
  assumes "rl_inv rpm tpm (now, l, log)" "now \<le> now'"
  defines "m \<equiv> maybeResetWindow now' l"
  shows "requestsThisWindow m = int (length (in_window (windowStartMs m) log))"
    and "load (in_window (windowStartMs m) log) \<le> tokensThisWindow m"
    and "windowStartMs m \<le> now'" "now' < windowStartMs m + windowMs"
    and "windowStartMs m = windowStartMs l \<or> windowStartMs l + windowMs \<le> windowStartMs m"
proof -
  have start: "windowStartMs l \<le> now'" using assms(1,2) by (simp add: rl_inv_def)
  have ok: "windows_ok (windowStartMs l) log" using assms(1) by (simp add: rl_inv_def)
  show "requestsThisWindow m = int (length (in_window (windowStartMs m) log))"
    "load (in_window (windowStartMs m) log) \<le> tokensThisWindow m"
    "windowStartMs m \<le> now'" "now' < windowStartMs m + windowMs"
    "windowStartMs m = windowStartMs l \<or> windowStartMs l + windowMs \<le> windowStartMs m"
    using assms(1,2) windows_ok_fresh [OF ok, of now']
    by (cases rule: reset_cases [of now' l]; simp add: m_def rl_inv_def windowMs_def)+
qed

context admission
begin

lemma keeps_inv:
  assumes inv: "rl_inv rpm tpm (now, l, log)" and now: "now \<le> now'"
    and nonneg: "\<forall>r \<in> set (candidates l). 0 \<le> estimatedTokens r"
  shows "rl_inv rpm tpm (rl_event now' (op now' l) log)"
proof -
  define l' where "l' = snd (op now' l)"
  define gs where "gs = grants now' (op now' l)"
  note counters = reset_counters [OF inv now]
  have w: "windowStartMs l' = windowStartMs (maybeResetWindow now' l)" by (simp add: l'_def window)
  have new: "in_window w gs = (if w = windowStartMs l' then gs else [])" for w
    by (simp add: gs_def l'_def in_window_grants)
  have len: "length gs = length (fst (op now' l))" "load gs = sum_list (map estimatedTokens (fst (op now' l)))"
    by (simp_all add: gs_def load_grants) (simp add: grants_def)
  have req: "requestsThisWindow l' = int (length (in_window (windowStartMs l') (log @ gs)))"
    and tok: "load (in_window (windowStartMs l') (log @ gs)) \<le> tokensThisWindow l'"
    using counted [of now' l] counters(1,2) by (simp_all add: w new len l'_def [symmetric])
  have "windows_ok (windowStartMs l') (log @ gs)"
    by (rule windows_ok_extend [of "windowStartMs l" _ now'])
      (use inv counters(3-5) in \<open>auto simp: rl_inv_def w gs_def grants_def window\<close>)
  moreover have "fits_limits rpm tpm (log @ gs)"
  proof (cases "gs = []")
    case True
    with inv show ?thesis by (simp add: rl_inv_def)
  next
    case False
    then have "requestsThisWindow l' \<le> maxRPM l" "tokensThisWindow l' \<le> maxTPM l"
      using fits [of now' l] by (auto simp: l'_def gs_def grants_def)
    with req tok inv show ?thesis
      by (auto simp: fits_limits_def rl_inv_def new)
  qed
  moreover have "\<forall>r \<in> set (map gr_request (log @ gs) @ rl_queue l'). 0 \<le> estimatedTokens r"
    using nonneg inv arg_cong [OF nobody_lost [of now' l], of set_mset]
    by (auto simp: rl_inv_def gs_def grants_def l'_def)
  ultimately show ?thesis
    using inv req tok counters(3) w limits [of now' l] timer_runs [of l now']
    by (simp add: rl_inv_def rl_event_def l'_def gs_def image_Un Un_assoc del: not_None_eq)
qed

end

lemma rl_step_inv: "rl_step s s' \<Longrightarrow> rl_inv rpm tpm s \<Longrightarrow> rl_inv rpm tpm s'"
proof (induction rule: rl_step.induct)
  case (call now now' r l log)
  then show ?case using calls.keeps_inv [of rpm tpm now l log now' r]
    by (auto simp: by_call_def rl_inv_def)
next
  case (report now now' l log actual estimated)
  then show ?case
    using report_fields(7) [of l actual estimated] by (auto simp: rl_inv_def simp del: report_fields(7))
next
  case (timer now now' l due log)
  then show ?case using timer.keeps_inv [of rpm tpm now l log now'] by (auto simp: rl_inv_def)
qed

lemma rl_reachable_inv:
  assumes "rl_step\<^sup>*\<^sup>* (start_state rpm tpm t0) s" "0 \<le> rpm" "0 \<le> tpm"
  shows "rl_inv rpm tpm s"
  using assms(1)
proof (induction rule: rtranclp_induct)
  case base
  show ?case using assms(2,3)
    by (simp add: rl_inv_def start_state_def newRateLimiter_def in_window_def windows_ok_def fits_limits_def)
qed (rule rl_step_inv)

lemma same_window_fits:
  assumes "fits_limits rpm tpm log" "\<forall>g \<in> set log. 0 \<le> estimatedTokens (gr_request g)"
    and "\<forall>g \<in> set gs. gr_window g = w" "gs = filter P log"
  shows "int (length gs) \<le> rpm" "load gs \<le> tpm"
proof -
  have gs: "gs = filter P (in_window w log)"
    using assms(3) unfolding assms(4) in_window_def filter_filter by (auto intro: filter_cong)
  have "length gs \<le> length (in_window w log)" by (simp add: gs)
  with assms(1) show "int (length gs) \<le> rpm" by (metis fits_limits_def of_nat_le_iff order_trans)
  have "load (filter P xs) \<le> load xs" if "\<forall>g \<in> set xs. 0 \<le> estimatedTokens (gr_request g)" for xs
    using that by (induction xs) (auto simp: load_def)
  moreover have "\<forall>g \<in> set (in_window w log). 0 \<le> estimatedTokens (gr_request g)"
    using assms(2) by (simp add: in_window_def)
  ultimately show "load gs \<le> tpm"
    using assms(1) unfolding gs fits_limits_def by (meson order_trans)
qed

text \<open>
  C14. Whatever calls, reports and timers come in whatever order, a window admits at most \<open>maxRPM\<close> requests
  with at most \<open>maxTPM\<close> estimated tokens, and any minute, wherever it starts, at most twice as many.
\<close>

theorem rate_limit_respected:
  assumes run: "rl_step\<^sup>*\<^sup>* (start_state rpm tpm t0) (now, l, log)" and "0 \<le> rpm" "0 \<le> tpm"
  shows "int (length (in_window w log)) \<le> rpm \<and> load (in_window w log) \<le> tpm \<and>
         int (length (in_minute t log)) \<le> 2 * rpm \<and> load (in_minute t log) \<le> 2 * tpm"
proof -
  have inv: "rl_inv rpm tpm (now, l, log)" by (rule rl_reachable_inv [OF assms])
  then have fits: "fits_limits rpm tpm log" and ok: "windows_ok (windowStartMs l) log"
    and pos: "\<forall>g \<in> set log. 0 \<le> estimatedTokens (gr_request g)" by (auto simp: rl_inv_def)
  define old where "old = filter (\<lambda>g. gr_window g \<le> t) (in_minute t log)"
  define new where "new = filter (\<lambda>g. \<not> gr_window g \<le> t) (in_minute t log)"
  have one: "\<exists>w. \<forall>g \<in> set gs. gr_window g = w" if "gs \<in> {old, new}" for gs
  proof (cases gs)
    case (Cons h hs)
    have "gr_window g = gr_window h" if "g \<in> set gs" for g
    proof -
      have h: "h \<in> set gs" by (simp add: Cons)
      with that \<open>gs \<in> {old, new}\<close> have log: "g \<in> set log" "h \<in> set log"
        by (auto simp: old_def new_def in_minute_def)
      with ok have "gr_window g \<le> gr_time g \<and> gr_time g < gr_window g + windowMs"
        "gr_window h \<le> gr_time h \<and> gr_time h < gr_window h + windowMs" by (simp_all add: windows_ok_def)
      with h that \<open>gs \<in> {old, new}\<close> have "\<bar>gr_window g - gr_window h\<bar> < windowMs"
        by (auto simp: old_def new_def in_minute_def windowMs_def)
      with windows_apart [OF ok log] windows_apart [OF ok log(2,1)] show ?thesis by linarith
    qed
    then show ?thesis by blast
  qed simp
  have "int (length gs) \<le> rpm \<and> load gs \<le> tpm" if "gs \<in> {old, new}" for gs
  proof -
    from one [OF that] obtain w where "\<forall>g \<in> set gs. gr_window g = w" by blast
    from same_window_fits [OF fits pos this] that show ?thesis
      unfolding old_def new_def in_minute_def by (auto simp: filter_filter)
  qed
  then have parts: "int (length old) \<le> rpm" "load old \<le> tpm" "int (length new) \<le> rpm" "load new \<le> tpm"
    by blast+
  have "length gs = length (filter P gs) + length (filter (\<lambda>g. \<not> P g) gs)"
    "load gs = load (filter P gs) + load (filter (\<lambda>g. \<not> P g) gs)" for P gs
    by (induction gs) (auto simp: load_def)
  from this [of "in_minute t log" "\<lambda>g. gr_window g \<le> t"] parts fits show ?thesis
    by (simp add: fits_limits_def old_def new_def)
qed

section \<open>Nobody waits forever for the timer\<close>

text \<open>
  \<open>run_timers\<close> lets the timer run once for every element of the list, late by that many milliseconds,
  with no call in between.
\<close>

definition fire :: "nat \<Rightarrow> rl_state \<Rightarrow> rl_state" where
  "fire late s =
     (case s of (now, l, log) \<Rightarrow>
        (case drainAt l of
           None \<Rightarrow> s
         | Some due \<Rightarrow> let now' = max now due + int late in rl_event now' (drain_timer now' l) log))"

fun run_timers :: "nat list \<Rightarrow> rl_state \<Rightarrow> rl_state" where
  "run_timers [] s = s"
| "run_timers (d # ds) s = run_timers ds (fire d s)"

abbreviation limiter :: "rl_state \<Rightarrow> RateLimiter" where
  "limiter s \<equiv> fst (snd s)"

abbreviation granted :: "rl_state \<Rightarrow> PendingRequest list" where
  "granted s \<equiv> map gr_request (snd (snd s))"

lemma fire_step: "fire d s = s \<or> rl_step s (fire d s)"
  by (cases s) (auto simp: fire_def Let_def intro!: rl_step.timer split: option.splits)

lemma fire_fifo: "granted (fire d s) @ rl_queue (limiter (fire d s)) = granted s @ rl_queue (limiter s)"
proof (cases s)
  case (fields now l log)
  show ?thesis
  proof (cases "drainAt l")
    case (Some due)
    define t where "t = max now due + int d"
    show ?thesis
      by (rule timer_fields [of t l])
        (use loop_fields(4) in \<open>force simp: fields fire_def Some Let_def t_def [symmetric] rl_event_def grants_def o_def\<close>)
  qed (simp add: fields fire_def)
qed

lemma fire_inv: "rl_inv rpm tpm s \<Longrightarrow> rl_inv rpm tpm (fire d s)"
  using fire_step [of d s] rl_step_inv by metis

text \<open>After a drain that left somebody waiting: the timer is due half a minute step later, or
  just after the end of the window.\<close>

definition settled :: "rl_state \<Rightarrow> bool" where
  "settled s = (case s of (now, l, log) \<Rightarrow>
     rl_queue l = [] \<or> (now < windowStartMs l + windowMs \<and> drainAt l = Some (now + drain_delay now l)))"

definition patience :: "rl_state \<Rightarrow> nat" where
  "patience s = (case s of (now, l, log) \<Rightarrow>
     if rl_queue l = [] then 0
     else 121 * (length (rl_queue l) - 1) + nat ((windowStartMs l + windowMs - now + 499) div 500))"

lemma loop_blocked:
  assumes "drain_loop now rs l = (released, l')" "drainAt l = None" "rl_queue l' \<noteq> []"
  shows "drainAt l' = Some (now + drain_delay now l')"
    and "\<not> canProceed (estimatedTokens (hd (rl_queue l'))) l'"
  using assms by (induction now rs l arbitrary: released l' rule: drain_loop.induct)
    (auto split: if_splits prod.splits simp: scheduleDrain_def drain_delay_def canProceed_def)

text \<open>One firing of the timer on a waiting queue, in the window \<open>m\<close> of the present.\<close>

lemma fireE:
  assumes inv: "rl_inv rpm tpm (now, l, log)" and wait: "rl_queue l \<noteq> []"
  obtains t due released l' where "drainAt l = Some due" "now \<le> t" "due \<le> t"
    "fire d (now, l, log) = (t, l', log @ grants t (released, l'))"
    "drain_loop t (rl_queue l) ((maybeResetWindow t l)\<lparr> drainAt := None \<rparr>) = (released, l')"
    "windowStartMs l' = windowStartMs (maybeResetWindow t l)"
    "windowStartMs l' \<le> t" "t < windowStartMs l' + windowMs" "rl_queue l = released @ rl_queue l'"
proof -
  from inv wait obtain due where due: "drainAt l = Some due" by (auto simp: rl_inv_def)
  define t where "t = max now due + int d"
  have t: "now \<le> t" "due \<le> t" by (simp_all add: t_def)
  obtain released l' where out: "drain_timer t l = (released, l')"
    and loop: "drain_loop t (rl_queue l) ((maybeResetWindow t l)\<lparr> drainAt := None \<rparr>) = (released, l')"
    by (rule timer_fields)
  have w: "windowStartMs l' = windowStartMs (maybeResetWindow t l)"
    using loop_fields(3) [OF loop] by simp
  have "fire d (now, l, log) = (t, l', log @ grants t (released, l'))"
    by (simp add: fire_def due Let_def t_def [symmetric] out rl_event_def)
  from that [OF due t this loop w] reset_counters(3,4) [OF inv t(1)] loop_fields(4) [OF loop] w
  show thesis by simp
qed

lemma patience_le:
  assumes "windowStartMs l \<le> t" "length (rl_queue l) \<le> n"
  shows "patience (t, l, log) \<le> 121 * n - 1"
proof (cases "rl_queue l = []")
  case False
  have "(windowStartMs l + windowMs - t + 499) div 500 \<le> 60499 div 500"
    by (rule zdiv_mono1) (use assms(1) in \<open>simp_all add: windowMs_def\<close>)
  then have "nat ((windowStartMs l + windowMs - t + 499) div 500) \<le> 120" by simp
  with False assms(2) show ?thesis
    by (cases "rl_queue l") (auto simp: patience_def intro: order_trans)
qed (simp add: patience_def)

lemma fire_settles:
  assumes inv: "rl_inv rpm tpm s"
  shows "settled (fire d s)" "patience (fire d s) \<le> 121 * length (rl_queue (limiter s)) - 1"
proof -
  obtain now l log where s: "s = (now, l, log)" by (cases s)
  have "settled (fire d s) \<and> patience (fire d s) \<le> 121 * length (rl_queue (limiter s)) - 1"
  proof (cases "rl_queue l = []")
    case True
    with fire_fifo [of d s] have "rl_queue (limiter (fire d s)) = []"
      using timer.nobody_lost by (cases "drainAt l") (auto simp: s fire_def Let_def rl_event_def)
    with True show ?thesis by (cases "fire d s") (simp add: settled_def patience_def)
  next
    case False
    show ?thesis
    proof (rule fireE [OF inv [unfolded s] False, of d], goal_cases)
      case (1 t due released l')
      with loop_blocked(1) [OF 1(5)] patience_le [of l' t "length (rl_queue l)"] show ?case
        by (auto simp: s settled_def)
    qed
  qed
  then show "settled (fire d s)" "patience (fire d s) \<le> 121 * length (rl_queue (limiter s)) - 1" by auto
qed

lemma fire_progress:
  assumes inv: "rl_inv rpm tpm s" and "0 < rpm"
    and fit: "\<forall>r \<in> set (rl_queue (limiter s)). estimatedTokens r \<le> tpm"
    and set: "settled s" and wait: "rl_queue (limiter s) \<noteq> []"
  shows "patience (fire d s) < patience s"
proof -
  obtain now l log where s: "s = (now, l, log)" by (cases s)
  from wait have q: "rl_queue l \<noteq> []" by (simp add: s)
  define x where "x = windowStartMs l + windowMs - now + 499"
  from set q have x: "500 \<le> x" and due: "drainAt l = Some (now + drain_delay now l)"
    by (auto simp: settled_def s x_def)
  have p: "patience s = 121 * (length (rl_queue l) - 1) + nat (x div 500)" "1 \<le> nat (x div 500)"
    using q x by (auto simp: s patience_def x_def)
  show ?thesis
  proof (rule fireE [OF inv [unfolded s] q, of d], goal_cases)
    case (1 t due' released l')
    show ?case
    proof (cases "released = []")
      case False
      with 1(9) have "length (rl_queue l') \<le> length (rl_queue l) - 1" by (cases released) auto
      from patience_le [OF 1(7) this, of "log @ grants t (released, l')"] p show ?thesis
        unfolding s 1(4) by linarith
    next
      case True
      with 1(9) q have q': "rl_queue l' = rl_queue l" "rl_queue l' \<noteq> []" by auto
      have blocked: "\<not> canProceed (estimatedTokens (hd (rl_queue l'))) l'"
        by (rule loop_blocked(2) [OF 1(5)]) (use q' in simp_all)
      have counts: "requestsThisWindow l' = requestsThisWindow (maybeResetWindow t l)"
        "tokensThisWindow l' = tokensThisWindow (maybeResetWindow t l)" "maxRPM l' = rpm" "maxTPM l' = tpm"
        using loop_fields(1,2,5,6) [OF 1(5)] inv True by (simp_all add: s rl_inv_def)
      have "maybeResetWindow t l = l \<and> t < windowStartMs l + windowMs"
      proof (cases rule: reset_cases [of t l])
        case fresh
        with counts blocked \<open>0 < rpm\<close> fit q' show ?thesis by (auto simp: canProceed_def s)
      qed simp
      then have same: "windowStartMs l' = windowStartMs l" "t < windowStartMs l + windowMs"
        using 1(6) by simp_all
      moreover have "now + drain_delay now l \<le> t" using 1(1,3) due by simp
      ultimately have "now + 500 \<le> t" using x
        by (auto simp: drain_delay_def Let_def x_def min_def max_def split: if_splits)
      then have "(windowStartMs l' + windowMs - t + 499) div 500 \<le> (x - 500) div 500"
        by (intro zdiv_mono1) (simp_all add: x_def same)
      also have "\<dots> = x div 500 - 1" by simp
      finally show ?thesis using p q' by (auto simp: s 1(4) patience_def)
    qed
  qed
qed

lemma run_timers_fifo:
  "granted (run_timers ds s) @ rl_queue (limiter (run_timers ds s)) = granted s @ rl_queue (limiter s)"
  by (induction ds arbitrary: s) (simp_all add: fire_fifo)

lemma queue_suffix: "set (rl_queue (limiter (fire d s))) \<subseteq> set (rl_queue (limiter s))"
proof -
  have "length (granted s) \<le> length (granted (fire d s))"
    by (cases s) (auto simp: fire_def Let_def rl_event_def split: option.splits)
  with fire_fifo [of d s] have "\<exists>us. rl_queue (limiter s) = us @ rl_queue (limiter (fire d s))"
    by (metis append_eq_append_conv_if append_eq_conv_conj)
  then show ?thesis by auto
qed

lemma run_timers_empties:
  assumes "rl_inv rpm tpm s" "0 < rpm" "\<forall>r \<in> set (rl_queue (limiter s)). estimatedTokens r \<le> tpm"
    and "settled s" "patience s \<le> length ds"
  shows "rl_queue (limiter (run_timers ds s)) = []"
  using assms
proof (induction ds arbitrary: s)
  case Nil
  then show ?case
    by (cases s) (auto simp: patience_def settled_def split: if_splits)
next
  case (Cons d ds)
  have fit: "\<forall>r \<in> set (rl_queue (limiter (fire d s))). estimatedTokens r \<le> tpm"
    using Cons.prems(3) queue_suffix [of d s] by blast
  have "patience (fire d s) \<le> length ds"
  proof (cases "rl_queue (limiter s) = []")
    case True
    then have "rl_queue (limiter (fire d s)) = []" using queue_suffix [of d s] by simp
    then show ?thesis by (cases "fire d s") (simp add: patience_def)
  next
    case False
    then show ?thesis using fire_progress [OF Cons.prems(1,2,3,4), of d] Cons.prems(5) by simp
  qed
  then show ?case
    using Cons.IH [OF fire_inv [OF Cons.prems(1)] Cons.prems(2) fit fire_settles(1) [OF Cons.prems(1)]]
    by simp
qed


section \<open>What calls do to the queue\<close>

lemma oversized_step:
  assumes "rl_step s s'" "rl_inv rpm tpm s" "rl_queue (limiter s) = r # rs" "tpm < estimatedTokens r"
  shows "\<exists>us. rl_queue (limiter s') = rl_queue (limiter s) @ us"
  using assms
proof (induction rule: rl_step.induct)
  case (call now now' q l log)
  then show ?case
    by (auto simp: rl_event_def acquire_def Let_def)
next
  case (timer now now' l due log)
  have "\<forall>g \<in> set log. 0 \<le> estimatedTokens (gr_request g)" using timer.prems(1) by (simp add: rl_inv_def)
  then have "0 \<le> load (in_window w log)" for w
    unfolding load_def in_window_def by (intro sum_list_nonneg) auto
  with reset_counters(2) [OF timer.prems(1) timer.hyps(1)]
  have "0 \<le> tokensThisWindow (maybeResetWindow now' l)" by (meson order_trans)
  with timer.prems have "\<not> canProceed (estimatedTokens r) (maybeResetWindow now' l)"
    by (simp add: canProceed_def rl_inv_def)
  with timer.prems(2) show ?case
    by (simp add: rl_event_def drain_timer_def drain_def Let_def reset_drainAt)
qed simp

text \<open>
  A request whose estimate exceeds \<open>maxTPM\<close> is queued like any other and never released; everybody
  queued behind it waits for ever, whatever happens.
\<close>

theorem oversized_request_blocks_queue:
  assumes run: "rl_step\<^sup>*\<^sup>* (start_state rpm tpm t0) s" and "0 \<le> rpm" "0 \<le> tpm"
    and big: "rl_queue (limiter s) = r # rs" "tpm < estimatedTokens r"
    and later: "rl_step\<^sup>*\<^sup>* s s'"
  shows "\<exists>us. rl_queue (limiter s') = r # rs @ us"
  using later
proof (induction rule: rtranclp_induct)
  case base
  show ?case using big by simp
next
  case (step s1 s2)
  then obtain us where us: "rl_queue (limiter s1) = r # rs @ us" by blast
  have "rl_step\<^sup>*\<^sup>* (start_state rpm tpm t0) s1" using run step.hyps(1) by simp
  then have "rl_inv rpm tpm s1" by (rule rl_reachable_inv) (use assms in simp_all)
  from oversized_step [OF step.hyps(2) this us big(2)] us show ?case by auto
qed

definition small :: "nat \<Rightarrow> PendingRequest" where
  "small i = \<lparr> pr_caller = i, estimatedTokens = 10 \<rparr>"

definition overtaken :: "millis \<Rightarrow> millis \<Rightarrow> RateLimiter" where
  "overtaken w due =
     \<lparr> maxRPM = 1, maxTPM = 100, requestsThisWindow = 1, tokensThisWindow = 10, windowStartMs = w,
       rl_queue = [small 0], drainAt = Some due \<rparr>"

lemmas overtaken_defs = overtaken_def small_def acquire_def drain_timer_def drain_def rl_defs canProceed_def
  drain_delay_def windowMs_def rl_event_def grants_def

lemma overtaken_waits:
  assumes "j \<le> 118"
  shows "rl_step (w + 1 + 500 * int j, overtaken w (w + 501 + 500 * int j), log)
                 (w + 501 + 500 * int j, overtaken w (w + 1001 + 500 * int j), log)"
proof -
  define t where "t = w + 501 + 500 * int j"
  have "rl_event t (drain_timer t (overtaken w t)) log = (t, overtaken w (t + 500), log)"
    using assms by (simp add: overtaken_defs t_def)
  with rl_step.timer [of "w + 1 + 500 * int j" t "overtaken w t" t log] show ?thesis
    by (simp add: t_def overtaken_def add.assoc)
qed

lemma overtaken_window:
  "j \<le> 119 \<Longrightarrow> rl_step\<^sup>*\<^sup>* (w + 1, overtaken w (w + 501), log)
     (w + 1 + 500 * int j, overtaken w (w + 501 + 500 * int j), log)"
proof (induction j)
  case (Suc j)
  then have "rl_step\<^sup>*\<^sup>* (w + 1, overtaken w (w + 501), log)
     (w + 1 + 500 * int j, overtaken w (w + 501 + 500 * int j), log)" by simp
  also have "rl_step \<dots> (w + 501 + 500 * int j, overtaken w (w + 1001 + 500 * int j), log)"
    by (rule overtaken_waits) (use Suc.prems in simp)
  finally show ?case by (simp add: algebra_simps)
qed simp

lemma overtaken_once:
  "\<exists>g. gr_request g = small i \<and> rl_step\<^sup>*\<^sup>* (w + 1, overtaken w (w + 501), log)
     (w + 60001, overtaken (w + 60000) (w + 60501), log @ [g])"
proof -
  define g where "g = \<lparr> gr_time = w + 60000, gr_window = w + 60000, gr_request = small i \<rparr>"
  have "rl_step\<^sup>*\<^sup>* (w + 1, overtaken w (w + 501), log) (w + 59501, overtaken w (w + 60001), log)"
    using overtaken_window [of 119 w log] by (simp add: add.commute)
  also have "rl_step \<dots> (w + 60000, overtaken (w + 60000) (w + 60001), log @ [g])"
    using rl_step.call [of "w + 59501" "w + 60000" "small i" "overtaken w (w + 60001)" log]
    by (simp add: overtaken_defs g_def)
  also have "rl_step \<dots> (w + 60001, overtaken (w + 60000) (w + 60501), log @ [g])"
    using rl_step.timer [of "w + 60000" "w + 60001" "overtaken (w + 60000) (w + 60001)" "w + 60001" "log @ [g]"]
    by (simp add: overtaken_defs add.commute)
  finally show ?thesis by (force simp: g_def)
qed

definition first_grant :: Grant where
  "first_grant = \<lparr> gr_time = 0, gr_window = 0, gr_request = small 1 \<rparr>"

lemma overtaken_start: "rl_step\<^sup>*\<^sup>* (start_state 1 100 0) (1, overtaken 0 501, [first_grant])"
proof -
  define l where "l = \<lparr> maxRPM = 1, maxTPM = 100, requestsThisWindow = 1, tokensThisWindow = 10,
    windowStartMs = 0, rl_queue = [], drainAt = None \<rparr>"
  have "rl_step\<^sup>*\<^sup>* (start_state 1 100 0) (0, l, [first_grant])"
    using rl_step.call [of 0 0 "small 1" "newRateLimiter 1 100 0" "[]"]
    by (intro r_into_rtranclp) (simp add: overtaken_defs start_state_def newRateLimiter_def first_grant_def l_def)
  also have "rl_step (0, l, [first_grant]) (1, overtaken 0 501, [first_grant])"
    using rl_step.call [of 0 1 "small 0" l "[first_grant]"] by (simp add: overtaken_defs l_def)
  finally show ?thesis .
qed

text \<open>
  The fast path of \<open>acquire\<close> does not look at the queue: with one request per minute allowed, a caller
  that arrives just after each reset overtakes the waiting one every time.
\<close>

theorem late_callers_overtake:
  "\<exists>s. rl_step\<^sup>*\<^sup>* (start_state 1 100 0) s \<and> rl_queue (limiter s) = [small 0] \<and>
       granted s = map small [1..<n + 2]"
proof -
  have "\<exists>log. rl_step\<^sup>*\<^sup>* (start_state 1 100 0)
      (60000 * int n + 1, overtaken (60000 * int n) (60000 * int n + 501), log) \<and>
    map gr_request log = map small [1..<n + 2]"
  proof (induction n)
    case 0
    show ?case using overtaken_start by (force simp: first_grant_def)
  next
    case (Suc n)
    then obtain log where log: "rl_step\<^sup>*\<^sup>* (start_state 1 100 0)
        (60000 * int n + 1, overtaken (60000 * int n) (60000 * int n + 501), log)"
      "map gr_request log = map small [1..<n + 2]" by blast
    obtain g where g: "gr_request g = small (n + 2)"
      "rl_step\<^sup>*\<^sup>* (60000 * int n + 1, overtaken (60000 * int n) (60000 * int n + 501), log)
        (60000 * int n + 60001, overtaken (60000 * int n + 60000) (60000 * int n + 60501), log @ [g])"
      using overtaken_once by blast
    from rtranclp_trans [OF log(1) g(2)]
    have "rl_step\<^sup>*\<^sup>* (start_state 1 100 0)
      (60000 * int (Suc n) + 1, overtaken (60000 * int (Suc n)) (60000 * int (Suc n) + 501), log @ [g])"
      by (simp add: algebra_simps)
    moreover have "map gr_request (log @ [g]) = map small [1..<Suc n + 2]"
      using log(2) g(1) by (simp add: upt_Suc)
    ultimately show ?case by blast
  qed
  then show ?thesis by (force simp: overtaken_def)
qed

section \<open>Concrete runs\<close>

theorem rate_limit_respected_witness:
  "rl_step\<^sup>*\<^sup>* (start_state 1 100 0) (1, overtaken 0 501, [first_grant]) \<and>
   in_window 0 [first_grant] = [first_grant] \<and> int (length (in_minute 0 [first_grant])) \<le> 2"
  using rate_limit_respected [OF overtaken_start, of 0 0] overtaken_start
  by (simp add: in_window_def first_grant_def)


definition oversized :: PendingRequest where
  "oversized = \<lparr> pr_caller = 9, estimatedTokens = 200 \<rparr>"

definition oversized_state :: rl_state where
  "oversized_state = (0, (newRateLimiter 1 100 0)\<lparr> rl_queue := [oversized], drainAt := Some 500 \<rparr>, [])"

lemma oversized_reached: "rl_step (start_state 1 100 0) oversized_state"
  using rl_step.call [of 0 0 oversized "newRateLimiter 1 100 0" "[]"]
  by (simp add: overtaken_defs start_state_def newRateLimiter_def oversized_state_def oversized_def)

theorem oversized_request_blocks_queue_witness:
  "rl_step\<^sup>*\<^sup>* (start_state 1 100 0) oversized_state \<and>
   (\<exists>us. rl_queue (limiter (fire 0 oversized_state)) = [oversized] @ us)"
proof -
  have "rl_step\<^sup>*\<^sup>* oversized_state (fire 0 oversized_state)"
    using fire_step [of 0 oversized_state] by (auto intro: r_into_rtranclp)
  with oversized_request_blocks_queue [OF r_into_rtranclp [of rl_step, OF oversized_reached], of oversized "[]"]
  show ?thesis using oversized_reached by (auto simp: oversized_state_def oversized_def)
qed

end
