(* ===== verification/Sessions.thy ===== *)
theory Sessions
  imports Policy_Engine Company_Text "HOL-Library.Char_ord"
begin

text \<open>
  Sessions and who a request speaks for: \<open>src/services/auth.ts\<close> (class \<open>AuthService\<close>),
  \<open>src/middleware/session-auth.ts\<close>, \<open>auth.ts\<close>, \<open>dev-auth.ts\<close>, \<open>require-organization.ts\<close> and
  \<open>csrf-protection.ts\<close>, composed in the order of \<open>src/app.ts\<close>, and the SCIM provisioning of
  \<open>src/services/scim.ts\<close> with its handlers (\<open>src/api/scim-routes.ts\<close>), which deactivates users.

  A request carries the headers the middlewares read and the context they set. SHA-256 (\<open>hash\<close>), the
  keyed hash of the CSRF token (\<open>hmac\<close>) and the origin of a URL are arguments. Tokens are stored
  hashed; the database errors that the session middleware swallows do not occur in the model.
\<close>

section \<open>Tables\<close>

record AuthUser = User +
  au_email :: string
  au_name :: "string option"
  au_workosUserId :: "ident option"

record UserSession =
  us_id :: ident
  us_organizationId :: ident
  us_userId :: ident
  us_sessionToken :: string
  us_lastSeenAt :: millis
  us_revokedAt :: "millis option"
  us_expiresAt :: millis
  us_createdAt :: millis

record ScimIdentity =
  si_id :: ident
  si_organizationId :: ident
  si_userId :: ident
  si_externalId :: ident
  si_active :: bool
  si_lastSyncedAt :: "millis option"

record ScimProvisioning =
  sp_id :: ident
  sp_organizationId :: ident
  sp_enabled :: bool
  sp_tokenHash :: "string option"
  sp_lastSyncAt :: "millis option"

record SecurityPolicyBoundary =
  enforce_mfa_for_admin_actions :: bool
  sso_enforced :: bool
  allowed_sso_domains :: "string list option"
  session_controls_enabled :: bool
  max_session_age_hours :: "int option"
  reauth_interval_minutes :: "int option"
  ip_allowlist_enabled :: bool
  ip_allowlist :: "string list option"

record OrgInvite =
  inv_id :: ident
  inv_organizationId :: ident
  inv_email :: string
  inv_role :: UserRole
  inv_token :: string
  inv_expiresAt :: millis
  inv_acceptedAt :: "millis option"

record Organization =
  org_id :: ident
  org_name :: string
  org_trialEndsAt :: "millis option"

record OrgIpAllowlistEntry =
  ipe_organizationId :: ident
  ipe_cidr :: string
  ipe_enabled :: bool

record AuthDb =
  adb_organizations :: "Organization list"
  adb_users :: "AuthUser list"
  adb_sessions :: "UserSession list"
  adb_scim :: "ScimIdentity list"
  adb_provisioning :: "ScimProvisioning list"
  adb_policies :: "(ident \<times> SecurityPolicyBoundary) list"
  adb_allowlist :: "OrgIpAllowlistEntry list"
  adb_invites :: "OrgInvite list"

section \<open>Sessions\<close>

definition no_policy :: SecurityPolicyBoundary where
  "no_policy =
     \<lparr> enforce_mfa_for_admin_actions = False, sso_enforced = False, allowed_sso_domains = None,
       session_controls_enabled = False, max_session_age_hours = None, reauth_interval_minutes = None,
       ip_allowlist_enabled = False, ip_allowlist = None \<rparr>"

definition readOrgSecurityPolicy :: "ident \<Rightarrow> AuthDb \<Rightarrow> SecurityPolicyBoundary" where
  "readOrgSecurityPolicy org db =
     (case map_of (adb_policies db) org of None \<Rightarrow> no_policy | Some policy \<Rightarrow> policy)"

definition find_user :: "ident \<Rightarrow> AuthDb \<Rightarrow> AuthUser option" where
  "find_user uid db = List.find (\<lambda>u. u_id u = uid) (adb_users db)"

definition hours :: "int \<Rightarrow> millis" where
  "hours n = n * 60 * 60 * 1000"

definition session_lifetime :: "SecurityPolicyBoundary \<Rightarrow> int" where
  "session_lifetime policy =
     max 1 (case max_session_age_hours policy of None \<Rightarrow> 24 * 30 | Some h \<Rightarrow> h)"

text \<open>\<open>sid\<close> is the id the database gives the row, \<open>raw\<close> the token that is drawn.\<close>

definition createSessionForUser ::
  "(string \<Rightarrow> string) \<Rightarrow> millis \<Rightarrow> ident \<Rightarrow> string \<Rightarrow> AuthUser \<Rightarrow> AuthDb \<Rightarrow> AuthDb" where
  "createSessionForUser hash now sid raw user db =
     (let policy = readOrgSecurityPolicy (u_organizationId user) db in
      db\<lparr> adb_sessions := adb_sessions db @
        [\<lparr> us_id = sid, us_organizationId = u_organizationId user, us_userId = u_id user,
           us_sessionToken = hash raw, us_lastSeenAt = now, us_revokedAt = None,
           us_expiresAt = now + hours (session_lifetime policy), us_createdAt = now \<rparr>] \<rparr>)"

definition find_session :: "string \<Rightarrow> AuthDb \<Rightarrow> UserSession option" where
  "find_session hashed db =
     List.find (\<lambda>s. us_sessionToken s = hashed \<and> us_revokedAt s = None) (adb_sessions db)"

definition revoke_where :: "millis \<Rightarrow> (UserSession \<Rightarrow> bool) \<Rightarrow> AuthDb \<Rightarrow> AuthDb" where
  "revoke_where now p db =
     db\<lparr> adb_sessions := update_many (\<lambda>s. p s \<and> us_revokedAt s = None) (\<lambda>s. s\<lparr> us_revokedAt := Some now \<rparr>)
           (adb_sessions db) \<rparr>"

definition touch_session :: "millis \<Rightarrow> ident \<Rightarrow> AuthDb \<Rightarrow> AuthDb" where
  "touch_session now sid db =
     db\<lparr> adb_sessions := update_many (\<lambda>s. us_id s = sid) (\<lambda>s. s\<lparr> us_lastSeenAt := now \<rparr>) (adb_sessions db) \<rparr>"

definition findActiveSession ::
  "(string \<Rightarrow> string) \<Rightarrow> millis \<Rightarrow> string \<Rightarrow> AuthDb \<Rightarrow> (UserSession \<times> AuthUser option) option \<times> AuthDb" where
  "findActiveSession hash now raw db =
     (case find_session (hash raw) db of
        None \<Rightarrow> (None, db)
      | Some session \<Rightarrow>
          if us_expiresAt session \<le> now
          then (None, revoke_where now (\<lambda>s. us_id s = us_id session) db)
          else (Some (session, find_user (us_userId session) db), touch_session now (us_id session) db))"

definition revokeSession :: "(string \<Rightarrow> string) \<Rightarrow> millis \<Rightarrow> string \<Rightarrow> AuthDb \<Rightarrow> AuthDb" where
  "revokeSession hash now raw db = revoke_where now (\<lambda>s. us_sessionToken s = hash raw) db"

section \<open>The middlewares\<close>

record HttpRequest = AuthRequest +
  hq_method :: string
  hq_sessionToken :: "string option"
  hq_authorization :: "string option"
  hq_csrfToken :: "string option"
  hq_origin :: "string option"
  hq_referer :: "string option"
  hq_ip :: string
  hq_mfaVerified :: bool
  hq_amr :: "string list"
  hq_sessionId :: "ident option"

definition bearer :: "string option \<Rightarrow> string option" where
  "bearer authHeader =
     (case authHeader of
        None \<Rightarrow> None
      | Some h \<Rightarrow> if prefix ''Bearer '' h then Some (trim (drop 7 h)) else None)"

definition readHeader :: "string option \<Rightarrow> string option" where
  "readHeader v =
     (case v of None \<Rightarrow> None | Some h \<Rightarrow> if trim h = [] then None else Some (trim h))"

definition readSessionToken :: "HttpRequest \<Rightarrow> string option" where
  "readSessionToken req =
     (case readHeader (hq_sessionToken req) of
        Some t \<Rightarrow> Some t
      | None \<Rightarrow>
          (case bearer (hq_authorization req) of
             Some t \<Rightarrow> if t = [] then None else Some t
           | None \<Rightarrow> None))"

text \<open>The environment of the process: \<open>NODE_ENV\<close>, \<open>DEV_AUTH_BYPASS\<close> and \<open>DEV_USER_ID\<close>.\<close>

record DevEnv =
  env_node :: string
  env_devAuthBypass :: "string option"
  env_devUserId :: "ident option"

definition authenticated :: "('a) AuthRequest_scheme \<Rightarrow> bool" where
  "authenticated req \<longleftrightarrow> truthy (req_organizationId req) \<and> truthy (req_userId req)"

definition act_as :: "AuthUser \<Rightarrow> HttpRequest \<Rightarrow> HttpRequest" where
  "act_as user req =
     req\<lparr> req_organizationId := Some (u_organizationId user), req_userId := Some (u_id user),
          req_userRole := Some (u_role user) \<rparr>"

definition devAuthBypass :: "DevEnv \<Rightarrow> AuthDb \<Rightarrow> HttpRequest \<Rightarrow> HttpRequest" where
  "devAuthBypass env db req =
     (if env_node env \<noteq> ''development'' then req
      else if env_devAuthBypass env \<noteq> Some ''true'' then req
      else if authenticated req then req
      else (case find_user (case env_devUserId env of None \<Rightarrow> ''usr_alice'' | Some i \<Rightarrow> i) db of
              None \<Rightarrow> req | Some user \<Rightarrow> act_as user req))"

definition scim_blocked :: "ident \<Rightarrow> AuthDb \<Rightarrow> bool" where
  "scim_blocked uid db =
     (case List.find (\<lambda>i. si_userId i = uid) (adb_scim db) of None \<Rightarrow> False | Some i \<Rightarrow> \<not> si_active i)"

definition sessionAuth ::
  "(string \<Rightarrow> string) \<Rightarrow> millis \<Rightarrow> HttpRequest \<Rightarrow> AuthDb \<Rightarrow> HttpRequest \<times> AuthDb" where
  "sessionAuth hash now req db =
    (if authenticated req then (req, db)
     else (case readSessionToken req of
       None \<Rightarrow> (req, db)
     | Some raw \<Rightarrow>
         (case find_session (hash raw) db of
            None \<Rightarrow> (req, db)
          | Some session \<Rightarrow>
              let revoked = revoke_where now (\<lambda>s. us_id s = us_id session) db in
              if us_expiresAt session \<le> now then (req, revoked)
              else (case find_user (us_userId session) db of
                      None \<Rightarrow> (req, db)
                    | Some user \<Rightarrow>
                        if u_id user = [] \<or> u_organizationId user = [] then (req, db)
                        else if scim_blocked (u_id user) db then (req, revoked)
                        else ((act_as user req)\<lparr> hq_sessionId := Some (us_id session) \<rparr>,
                              touch_session now (us_id session) db)))))"

text \<open>\<open>toUpperCase\<close> on the name of an HTTP method, which is ASCII.\<close>

definition upper_ascii :: "string \<Rightarrow> string" where
  "upper_ascii s =
     map (\<lambda>c. if CHR ''a'' \<le> c \<and> c \<le> CHR ''z'' then char_of (of_char c - 32 :: nat) else c) s"

definition SAFE_METHODS :: "string list" where
  "SAFE_METHODS = [''GET'', ''HEAD'', ''OPTIONS'']"

definition csrfProtection ::
  "(string \<Rightarrow> string) \<Rightarrow> (string \<Rightarrow> string option) \<Rightarrow> string list \<Rightarrow> HttpRequest \<Rightarrow> guard" where
  "csrfProtection hmac url_origin allowedOrigins req =
    (if upper_ascii (hq_method req) \<in> set SAFE_METHODS then Next
     else
       let sessionToken = readHeader (hq_sessionToken req);
           bearerToken = bearer (hq_authorization req);
           tokenForCsrf = (if truthy sessionToken then sessionToken else bearerToken) in
       if \<not> truthy tokenForCsrf then Next
       else
         let csrfToken = readHeader (hq_csrfToken req);
             isValidCsrf =
               (case csrfToken of
                  None \<Rightarrow> False
                | Some t \<Rightarrow> t = hmac (the tokenForCsrf) \<or> t = the tokenForCsrf) in
         if \<not> isValidCsrf then Status 403 ''csrf_validation_failed''
         else
           let requestOrigin =
                 (case readHeader (hq_origin req) of
                    Some o1 \<Rightarrow> Some o1
                  | None \<Rightarrow> (case readHeader (hq_referer req) of None \<Rightarrow> None | Some r \<Rightarrow> url_origin r)) in
           if truthy requestOrigin \<and> the requestOrigin \<notin> set allowedOrigins
           then Status 403 ''csrf_origin_rejected'' else Next)"

definition requireAuth :: "HttpRequest \<Rightarrow> guard" where
  "requireAuth req = (if \<not> authenticated req then Status 401 ''authentication_required'' else Next)"

definition requireOrganization :: "HttpRequest \<Rightarrow> guard" where
  "requireOrganization req =
     (if \<not> truthy (req_organizationId req) then Status 401 ''Organization context required'' else Next)"

text \<open>The chain in front of the authenticated routes (\<open>createApp\<close>).\<close>

record AppConfig =
  cfg_env :: DevEnv
  cfg_hash :: "string \<Rightarrow> string"
  cfg_hmac :: "string \<Rightarrow> string"
  cfg_url_origin :: "string \<Rightarrow> string option"
  cfg_allowedOrigins :: "string list"

definition auth_chain :: "AppConfig \<Rightarrow> millis \<Rightarrow> HttpRequest \<Rightarrow> AuthDb \<Rightarrow> (guard \<times> HttpRequest) \<times> AuthDb" where
  "auth_chain cfg now req db =
     (case sessionAuth (cfg_hash cfg) now (devAuthBypass (cfg_env cfg) db req) db of
        (req, db) \<Rightarrow>
          (case csrfProtection (cfg_hmac cfg) (cfg_url_origin cfg) (cfg_allowedOrigins cfg) req of
             Status code msg \<Rightarrow> ((Status code msg, req), db)
           | Next \<Rightarrow>
               (case requireAuth req of
                  Status code msg \<Rightarrow> ((Status code msg, req), db)
                | Next \<Rightarrow> ((requireOrganization req, req), db))))"

section \<open>SCIM provisioning\<close>

datatype ScimError = DifferentOrganization | IdentityNotFound | ScimUnique

definition authenticateToken :: "(string \<Rightarrow> string) \<Rightarrow> string \<Rightarrow> AuthDb \<Rightarrow> (ident \<times> ident) option" where
  "authenticateToken hash bearerToken db =
     map_option (\<lambda>p. (sp_organizationId p, sp_id p))
       (List.find (\<lambda>p. sp_tokenHash p = Some (hash bearerToken) \<and> sp_enabled p) (adb_provisioning db))"

definition synced :: "millis \<Rightarrow> ident \<Rightarrow> AuthDb \<Rightarrow> AuthDb" where
  "synced now pid db =
     db\<lparr> adb_provisioning := update_many (\<lambda>p. sp_id p = pid) (\<lambda>p. p\<lparr> sp_lastSyncAt := Some now \<rparr>)
           (adb_provisioning db) \<rparr>"

record ScimUserInput =
  scu_externalId :: ident
  scu_email :: string
  scu_fullName :: "string option"
  scu_active :: bool

text \<open>The unique key (organization, external id) of the identities can be violated by the upsert.\<close>

definition scim_upsert :: "millis \<Rightarrow> ident \<Rightarrow> ident \<Rightarrow> ident \<Rightarrow> ScimUserInput \<Rightarrow> ScimIdentity list \<Rightarrow> ScimIdentity list" where
  "scim_upsert now newId org uid inp rows =
     upsert (\<lambda>i. si_userId i = uid)
       \<lparr> si_id = newId, si_organizationId = org, si_userId = uid, si_externalId = scu_externalId inp,
         si_active = scu_active inp, si_lastSyncedAt = Some now \<rparr>
       (\<lambda>i. i\<lparr> si_externalId := scu_externalId inp, si_active := scu_active inp, si_lastSyncedAt := Some now \<rparr>)
       rows"

definition createOrUpdateUser ::
  "millis \<Rightarrow> ident \<Rightarrow> ident \<Rightarrow> ident \<times> ident \<Rightarrow> ScimUserInput \<Rightarrow> AuthDb \<Rightarrow> (ScimError, ident) res \<times> AuthDb" where
  "createOrUpdateUser now newUserId newScimId auth inp db =
     (let org = fst auth;
          email = toLowerCase (scu_email inp);
          existing = List.find (\<lambda>u. au_email u = email) (adb_users db) in
      if (case existing of None \<Rightarrow> False | Some u \<Rightarrow> u_organizationId u \<noteq> org)
      then (Inl DifferentOrganization, db)
      else
        let (uid, users) =
              (case existing of
                 Some u \<Rightarrow> (u_id u, update_many (\<lambda>v. u_id v = u_id u) (\<lambda>v. v\<lparr> au_name := scu_fullName inp \<rparr>) (adb_users db))
               | None \<Rightarrow> (newUserId, adb_users db @
                   [\<lparr> u_id = newUserId, u_organizationId = org, u_role = MEMBER, au_email = email,
                      au_name = scu_fullName inp, au_workosUserId = None \<rparr>]));
            scim = scim_upsert now newScimId org uid inp (adb_scim db);
            db' = db\<lparr> adb_users := users \<rparr> in
        if \<not> unique_key (\<lambda>i. (si_organizationId i, si_externalId i)) scim
        then (Inl ScimUnique, db')
        else (Inr uid, synced now (snd auth) (db'\<lparr> adb_scim := scim \<rparr>)))"

definition find_identity :: "ident \<Rightarrow> ident \<Rightarrow> AuthDb \<Rightarrow> ScimIdentity option" where
  "find_identity org scopedUserId db =
     List.find (\<lambda>i. si_organizationId i = org \<and> (si_externalId i = scopedUserId \<or> si_userId i = scopedUserId))
       (adb_scim db)"

definition set_active :: "millis \<Rightarrow> ident \<Rightarrow> bool \<Rightarrow> AuthDb \<Rightarrow> AuthDb" where
  "set_active now iid active db =
     db\<lparr> adb_scim := update_many (\<lambda>i. si_id i = iid)
           (\<lambda>i. i\<lparr> si_active := active, si_lastSyncedAt := Some now \<rparr>) (adb_scim db) \<rparr>"

definition patchUser ::
  "millis \<Rightarrow> ident \<times> ident \<Rightarrow> ident \<Rightarrow> bool option \<Rightarrow> string option \<Rightarrow> AuthDb \<Rightarrow> (ScimError, ident) res \<times> AuthDb" where
  "patchUser now auth scopedUserId active name db =
     (case find_identity (fst auth) scopedUserId db of
        None \<Rightarrow> (Inl IdentityNotFound, db)
      | Some i \<Rightarrow>
          let db1 = set_active now (si_id i) (keep active (si_active i)) db;
              db2 = (if truthy name
                     then db1\<lparr> adb_users := update_many (\<lambda>u. u_id u = si_userId i) (\<lambda>u. u\<lparr> au_name := name \<rparr>)
                            (adb_users db1) \<rparr>
                     else db1);
              db3 = (if active = Some False then revoke_where now (\<lambda>s. us_userId s = si_userId i) db2 else db2) in
          (Inr (si_userId i), synced now (snd auth) db3))"

definition deactivateUser :: "millis \<Rightarrow> ident \<times> ident \<Rightarrow> ident \<Rightarrow> AuthDb \<Rightarrow> bool \<times> AuthDb" where
  "deactivateUser now auth scopedUserId db =
     (case find_identity (fst auth) scopedUserId db of
        None \<Rightarrow> (False, db)
      | Some i \<Rightarrow>
          (True, synced now (snd auth)
            (revoke_where now (\<lambda>s. us_userId s = si_userId i) (set_active now (si_id i) False db))))"

section \<open>Who is admitted\<close>

lemma find_sessionD:
  "find_session h db = Some s \<Longrightarrow> s \<in> set (adb_sessions db) \<and> us_sessionToken s = h \<and> us_revokedAt s = None"
  by (auto simp: find_session_def dest: find_SomeD)

lemma find_userD: "find_user i db = Some u \<Longrightarrow> u \<in> set (adb_users db) \<and> u_id u = i"
  by (auto simp: find_user_def dest: find_SomeD)

text \<open>The session that admits a request.\<close>

definition admits :: "(string \<Rightarrow> string) \<Rightarrow> millis \<Rightarrow> HttpRequest \<Rightarrow> AuthDb \<Rightarrow> UserSession \<Rightarrow> AuthUser \<Rightarrow> bool" where
  "admits hash now req db s u \<longleftrightarrow>
     (\<exists>raw. readSessionToken req = Some raw \<and> us_sessionToken s = hash raw) \<and>
     s \<in> set (adb_sessions db) \<and> us_revokedAt s = None \<and> now < us_expiresAt s \<and>
     u \<in> set (adb_users db) \<and> u_id u = us_userId s \<and> \<not> scim_blocked (u_id u) db"

lemma sessionAuth_admits:
  assumes "sessionAuth hash now req db = (req', db')" "\<not> authenticated req" "authenticated req'"
  obtains s u where "admits hash now req db s u" "req' = (act_as u req)\<lparr> hq_sessionId := Some (us_id s) \<rparr>"
  using assms by (fastforce simp: sessionAuth_def Let_def admits_def split: option.splits if_splits
      dest: find_sessionD find_userD)

lemma dev_bypass_off: "env_node env \<noteq> ''development'' \<Longrightarrow> devAuthBypass env db req = req"
  by (simp add: devAuthBypass_def)

definition csrf_ok :: "AppConfig \<Rightarrow> HttpRequest \<Rightarrow> bool" where
  "csrf_ok cfg req \<longleftrightarrow>
     (\<forall>raw. readSessionToken req = Some raw \<longrightarrow>
        readHeader (hq_csrfToken req) \<in> {Some (cfg_hmac cfg raw), Some raw}) \<and>
     (\<forall>o1. readHeader (hq_origin req) = Some o1 \<longrightarrow> o1 \<in> set (cfg_allowedOrigins cfg))"

lemma readHeader_truthy: "readHeader v = Some t \<Longrightarrow> t \<noteq> []"
  by (auto simp: readHeader_def split: option.splits if_splits)

lemma csrf_token:
  assumes "readSessionToken req = Some raw"
  defines "st \<equiv> readHeader (hq_sessionToken req)"
  shows "(if truthy st then st else bearer (hq_authorization req)) = Some raw" "raw \<noteq> []"
  using assms by (auto simp: readSessionToken_def truthy_def split: option.splits if_splits dest: readHeader_truthy)

lemma csrfProtection_ok:
  assumes "csrfProtection (cfg_hmac cfg) (cfg_url_origin cfg) (cfg_allowedOrigins cfg) req = Next"
    and unsafe: "upper_ascii (hq_method req) \<notin> set SAFE_METHODS" and raw: "readSessionToken req = Some raw"
  shows "csrf_ok cfg req"
  using assms(1) unsafe csrf_token [OF raw] raw
  unfolding csrfProtection_def Let_def csrf_ok_def
  by (auto split: if_splits option.splits dest: readHeader_truthy)

text \<open>
  C8. Outside development, a request that reaches the authenticated routes carries the token of a stored
  session that is neither revoked nor expired, acts as exactly that session's user, whom SCIM has not
  deactivated, and, if it is not a read, carries a valid CSRF token and no foreign origin.
\<close>

theorem admitted_requests_have_a_session:
  assumes admitted: "auth_chain cfg now req db = ((Next, req'), db')"
    and prod: "env_node (cfg_env cfg) \<noteq> ''development''" and anon: "\<not> authenticated req"
  shows "\<exists>s u. admits (cfg_hash cfg) now req db s u \<and>
           req_organizationId req' = Some (u_organizationId u) \<and> req_userId req' = Some (us_userId s) \<and>
           req_userRole req' = Some (u_role u) \<and>
           (upper_ascii (hq_method req) \<in> set SAFE_METHODS \<or> csrf_ok cfg req)"
proof -
  obtain req1 db1 where sa: "sessionAuth (cfg_hash cfg) now req db = (req1, db1)" by fastforce
  from admitted have csrf: "csrfProtection (cfg_hmac cfg) (cfg_url_origin cfg) (cfg_allowedOrigins cfg) req1 = Next"
    and auth: "authenticated req1" and r: "req' = req1"
    by (auto simp: auth_chain_def dev_bypass_off [OF prod] sa requireAuth_def split: guard.splits if_splits)
  from sessionAuth_admits [OF sa anon auth] obtain s u
    where ad: "admits (cfg_hash cfg) now req db s u" and r1: "req1 = (act_as u req)\<lparr> hq_sessionId := Some (us_id s) \<rparr>" .
  have same: "readSessionToken req1 = readSessionToken req" "hq_method req1 = hq_method req"
    "csrf_ok cfg req1 = csrf_ok cfg req"
    by (simp_all add: r1 act_as_def readSessionToken_def csrf_ok_def cong: option.case_cong)
  from ad obtain raw where "readSessionToken req1 = Some raw" by (auto simp: admits_def same)
  with csrfProtection_ok [OF csrf] same have "upper_ascii (hq_method req) \<in> set SAFE_METHODS \<or> csrf_ok cfg req"
    by metis
  with ad show ?thesis by (auto simp: r r1 act_as_def admits_def)
qed

section \<open>How the session table evolves\<close>

text \<open>
  Sessions are never deleted or rewritten: an operation keeps every row's token, user and expiry,
  never takes a revocation back, and new rows have new tokens.
\<close>

definition session_kept :: "UserSession \<Rightarrow> UserSession \<Rightarrow> bool" where
  "session_kept s s' \<longleftrightarrow>
     us_id s' = us_id s \<and> us_sessionToken s' = us_sessionToken s \<and> us_userId s' = us_userId s \<and>
     us_expiresAt s' = us_expiresAt s \<and> (us_revokedAt s \<noteq> None \<longrightarrow> us_revokedAt s' = us_revokedAt s)"

definition evolves :: "AuthDb \<Rightarrow> AuthDb \<Rightarrow> bool" where
  "evolves db db' \<longleftrightarrow>
     (\<exists>old new. adb_sessions db' = old @ new \<and> list_all2 session_kept (adb_sessions db) old \<and>
        us_sessionToken ` set new \<inter> us_sessionToken ` set (adb_sessions db) = {})"

lemma session_kept_refl [simp]: "session_kept s s"
  by (simp add: session_kept_def)

lemma session_kept_trans: "session_kept r s \<Longrightarrow> session_kept s t \<Longrightarrow> session_kept r t"
  by (auto simp: session_kept_def)

lemma kept_tokens: "list_all2 session_kept xs ys \<Longrightarrow> us_sessionToken ` set ys = us_sessionToken ` set xs"
  by (induction rule: list_all2_induct) (auto simp: session_kept_def)

lemma evolvesI:
  "adb_sessions db' = old @ new \<Longrightarrow> list_all2 session_kept (adb_sessions db) old \<Longrightarrow>
     us_sessionToken ` set new \<inter> us_sessionToken ` set (adb_sessions db) = {} \<Longrightarrow> evolves db db'"
  by (auto simp: evolves_def)

lemma evolves_update:
  assumes "\<And>s. session_kept s (f s)"
  shows "evolves db (db\<lparr> adb_sessions := update_many p f (adb_sessions db) \<rparr>)"
  by (rule evolvesI [of _ "update_many p f (adb_sessions db)" "[]"])
    (auto simp: update_many_def list_all2_map2 assms intro: list_all2_refl)

lemma evolves_same: "adb_sessions db' = adb_sessions db \<Longrightarrow> evolves db db'"
  by (rule evolvesI [of _ "adb_sessions db" "[]"]) (simp_all add: list_all2_refl)

lemma evolves_trans:
  assumes "evolves a b" "evolves b c"
  shows "evolves a c"
proof -
  from assms obtain old new old' new' where
    b: "adb_sessions b = old @ new" "list_all2 session_kept (adb_sessions a) old"
      "us_sessionToken ` set new \<inter> us_sessionToken ` set (adb_sessions a) = {}"
    and c: "adb_sessions c = old' @ new'" "list_all2 session_kept (old @ new) old'"
      "us_sessionToken ` set new' \<inter> us_sessionToken ` set (old @ new) = {}"
    by (auto simp: evolves_def)
  from c(2) obtain o1 o2 where o: "old' = o1 @ o2" "list_all2 session_kept old o1" "list_all2 session_kept new o2"
    by (auto simp: list_all2_append1)
  have "list_all2 session_kept (adb_sessions a) o1"
    by (rule list_all2_trans [OF session_kept_trans b(2) o(2)])
  moreover have "us_sessionToken ` set (o2 @ new') \<inter> us_sessionToken ` set (adb_sessions a) = {}"
    using b(3) c(3) kept_tokens [OF o(3)] kept_tokens [OF b(2)] by (auto simp: image_Un)
  ultimately show ?thesis using c(1) o(1) by (intro evolvesI [of c o1 "o2 @ new'"]) simp_all
qed

lemma evolves_revoke: "evolves db (revoke_where now p db)"
proof -
  have "revoke_where now p db = db\<lparr> adb_sessions := update_many (\<lambda>s. p s \<and> us_revokedAt s = None)
    (\<lambda>s. if us_revokedAt s = None then s\<lparr> us_revokedAt := Some now \<rparr> else s) (adb_sessions db) \<rparr>"
    by (simp add: revoke_where_def update_many_def cong: if_cong)
  then show ?thesis by (simp only:) (rule evolves_update, auto simp: session_kept_def)
qed

lemma evolves_touch: "evolves db (touch_session now i db)"
  unfolding touch_session_def by (rule evolves_update) (simp add: session_kept_def)

lemma evolves_create:
  "hash raw \<notin> us_sessionToken ` set (adb_sessions db) \<Longrightarrow> evolves db (createSessionForUser hash now sid raw u db)"
  by (rule evolvesI [of _ "adb_sessions db"]) (auto simp: createSessionForUser_def Let_def list_all2_refl)

lemmas evolves_intros = evolves_revoke evolves_touch evolves_same evolves_trans

lemma evolves_sessionAuth: "sessionAuth hash now req db = (req', db') \<Longrightarrow> evolves db db'"
  by (auto simp: sessionAuth_def Let_def split: option.splits if_splits intro: evolves_intros)

lemma evolves_findActive: "findActiveSession hash now raw db = (r, db') \<Longrightarrow> evolves db db'"
  by (auto simp: findActiveSession_def split: option.splits if_splits intro: evolves_intros)

lemma evolves_chain: "auth_chain cfg now req db = (out, db') \<Longrightarrow> evolves db db'"
  by (auto simp: auth_chain_def split: prod.splits guard.splits dest: evolves_sessionAuth)

lemma evolves_scim:
  "evolves db (snd (createOrUpdateUser now i j auth inp db))"
  "evolves db (snd (patchUser now auth sc act nm db))"
  "evolves db (snd (deactivateUser now auth sc db))"
proof -
  show "evolves db (snd (createOrUpdateUser now i j auth inp db))"
    by (auto simp: createOrUpdateUser_def Let_def synced_def split: prod.splits option.splits intro!: evolves_same)
  have "evolves db (synced now p (revoke_where now q (d :: AuthDb)))" if "adb_sessions d = adb_sessions db" for p q d
    by (rule evolves_trans [OF evolves_same [OF that] evolves_trans [OF evolves_revoke evolves_same]])
      (simp add: synced_def)
  then show "evolves db (snd (patchUser now auth sc act nm db))" "evolves db (snd (deactivateUser now auth sc db))"
    by (auto simp: patchUser_def deactivateUser_def Let_def set_active_def split: option.splits
        intro!: evolves_same) (simp_all add: synced_def)
qed

text \<open>A token is dead when it was issued and every session with it is revoked or expired.\<close>

definition dead :: "millis \<Rightarrow> string \<Rightarrow> AuthDb \<Rightarrow> bool" where
  "dead now h db \<longleftrightarrow>
     h \<in> us_sessionToken ` set (adb_sessions db) \<and>
     (\<forall>s \<in> set (adb_sessions db). us_sessionToken s = h \<longrightarrow> us_revokedAt s \<noteq> None \<or> us_expiresAt s \<le> now)"

lemma dead_evolves:
  assumes "dead now h db" "evolves db db'" "now \<le> now'"
  shows "dead now' h db'"
proof -
  from assms(2) obtain old new where e: "adb_sessions db' = old @ new" "list_all2 session_kept (adb_sessions db) old"
    "us_sessionToken ` set new \<inter> us_sessionToken ` set (adb_sessions db) = {}"
    by (auto simp: evolves_def)
  have "us_revokedAt s' \<noteq> None \<or> us_expiresAt s' \<le> now'" if s': "s' \<in> set old" "us_sessionToken s' = h" for s'
  proof -
    from e(2) s'(1) obtain s where "s \<in> set (adb_sessions db)" "session_kept s s'"
      by (metis in_set_conv_nth list_all2_conv_all_nth)
    with assms(1,3) s'(2) show ?thesis by (fastforce simp: dead_def session_kept_def)
  qed
  moreover have "s' \<in> set old" if "s' \<in> set (adb_sessions db')" "us_sessionToken s' = h" for s'
    using that e(1,3) assms(1) by (auto simp: dead_def)
  moreover have "h \<in> us_sessionToken ` set (adb_sessions db')"
    using assms(1) kept_tokens [OF e(2)] by (auto simp: dead_def e(1))
  ultimately show ?thesis unfolding dead_def by blast
qed

lemma dead_not_admitted: "dead now (hash raw) db \<Longrightarrow> readSessionToken req = Some raw \<Longrightarrow> now \<le> now' \<Longrightarrow> \<not> admits hash now' req db s u"
  by (force simp: dead_def admits_def)

lemma revoked_dead:
  "hash raw \<in> us_sessionToken ` set (adb_sessions db) \<Longrightarrow> dead now (hash raw) (revokeSession hash now raw db)"
  using kept_tokens [of "adb_sessions db" "adb_sessions (revokeSession hash now raw db)"]
  by (force simp: dead_def revokeSession_def revoke_where_def set_update_many update_many_def list_all2_map2
      session_kept_def intro: list_all2_refl)

end
