(* ===== verification/Security_Policy.thy ===== *)
theory Security_Policy
  imports Sessions Js_Map Complex_Main "HOL-Library.Word"
begin

text \<open>
  The organization's security policy in front of the administrative routes
  (\<open>src/middleware/security-policy.ts\<close>): multi-factor authentication, the IP allowlist with its CIDR
  arithmetic on 32-bit words, and the session controls. Policies and allowlists are read through two
  caches (\<open>policyCache\<close>, \<open>ipAllowlistCache\<close>) whose entries live for \<open>CACHE_TTL_MS\<close> and which hold at most 500
  organizations each.
\<close>

unbundle bit_operations_syntax

section \<open>Numbers in strings\<close>

text \<open>
  \<open>Number(s)\<close> on a string without a point, as \<open>ip.split(".")\<close> yields: surrounding white space is
  ignored, the empty string is 0, then a signed decimal integer with an optional exponent or a
  hexadecimal, octal or binary literal; its value is exact, not rounded to a double. \<open>None\<close> stands for \<open>NaN\<close>, and for \<open>Infinity\<close>, which the only
  caller treats alike.
\<close>

definition digit_val :: "char \<Rightarrow> nat" where
  "digit_val c =
     (let n = of_char c in
      if 48 \<le> n \<and> n \<le> 57 then n - 48
      else if 97 \<le> n \<and> n \<le> 102 then n - 87
      else if 65 \<le> n \<and> n \<le> 70 then n - 55 else 99)"

definition radix_num :: "nat \<Rightarrow> string \<Rightarrow> nat option" where
  "radix_num b s =
     (if s \<noteq> [] \<and> list_all (\<lambda>c. digit_val c < b) s
      then Some (foldl (\<lambda>n c. n * b + digit_val c) 0 s) else None)"

definition signed :: "string \<Rightarrow> int \<times> string" where
  "signed s =
     (case s of c # cs \<Rightarrow> if c = CHR ''-'' then (-1, cs) else if c = CHR ''+'' then (1, cs) else (1, s)
      | [] \<Rightarrow> (1, []))"

definition exponent :: "string \<Rightarrow> int option" where
  "exponent s =
     (if s = [] then Some 0
      else if hd s \<in> {CHR ''e'', CHR ''E''}
      then (case signed (tl s) of (sg, ds) \<Rightarrow> map_option (\<lambda>n. sg * int n) (radix_num 10 ds))
      else None)"

definition decimal :: "string \<Rightarrow> rat option" where
  "decimal s =
     (case signed s of (sg, body) \<Rightarrow>
        let ds = takeWhile (\<lambda>c. digit_val c < 10) body in
        (case radix_num 10 ds of
           None \<Rightarrow> None
         | Some m \<Rightarrow>
             (case exponent (drop (length ds) body) of
                None \<Rightarrow> None
              | Some e \<Rightarrow>
                  Some (of_int sg * of_nat m *
                    (if 0 \<le> e then 10 ^ nat e else 1 / 10 ^ nat (- e))))))"

definition js_number :: "string \<Rightarrow> rat option" where
  "js_number s =
     (let t = trim s in
      if t = [] then Some 0
      else if take 2 t \<in> {''0x'', ''0X''} then map_option of_nat (radix_num 16 (drop 2 t))
      else if take 2 t \<in> {''0o'', ''0O''} then map_option of_nat (radix_num 8 (drop 2 t))
      else if take 2 t \<in> {''0b'', ''0B''} then map_option of_nat (radix_num 2 (drop 2 t))
      else decimal t)"

text \<open>\<open>parseInt(s, 10)\<close>: the longest prefix of digits after white space and a sign.\<close>

definition parseInt10 :: "string \<Rightarrow> int option" where
  "parseInt10 s =
     (case signed (dropWhile js_ws s) of (sg, body) \<Rightarrow>
        map_option (\<lambda>n. sg * int n) (radix_num 10 (takeWhile (\<lambda>c. digit_val c < 10) body)))"

fun split_on :: "char \<Rightarrow> string \<Rightarrow> string list" where
  "split_on d [] = [[]]"
| "split_on d (c # s) =
     (if c = d then [] # split_on d s
      else (case split_on d s of p # ps \<Rightarrow> (c # p) # ps | [] \<Rightarrow> [[c]]))"

section \<open>Addresses\<close>

definition ipToLong :: "string \<Rightarrow> 32 word option" where
  "ipToLong ip =
     (case map js_number (split_on CHR ''.'' ip) of
        [Some a, Some b, Some c, Some d] \<Rightarrow>
          if list_all (\<lambda>p. 0 \<le> p \<and> p \<le> 255) [a, b, c, d]
          then Some (push_bit 24 (word_of_int \<lfloor>a\<rfloor>) OR push_bit 16 (word_of_int \<lfloor>b\<rfloor>) OR
                     push_bit 8 (word_of_int \<lfloor>c\<rfloor>) OR word_of_int \<lfloor>d\<rfloor>)
          else None
      | _ \<Rightarrow> None)"

definition subnet_mask :: "nat \<Rightarrow> 32 word" where
  "subnet_mask p = (if p = 0 then 0 else push_bit (32 - p) (NOT 0))"

definition same_subnet :: "nat \<Rightarrow> 32 word \<Rightarrow> 32 word \<Rightarrow> bool" where
  "same_subnet p ip network \<longleftrightarrow> ip AND subnet_mask p = network AND subnet_mask p"

definition ipMatchesAllowlist :: "string \<Rightarrow> string \<Rightarrow> bool" where
  "ipMatchesAllowlist ip v =
     (let entry = trim v in
      if entry = [] then False
      else if CHR ''/'' \<notin> set entry then ip = entry
      else
        (case split_on CHR ''/'' entry of
           network # prefixStr # _ \<Rightarrow>
             (case parseInt10 prefixStr of
                None \<Rightarrow> False
              | Some p \<Rightarrow>
                  if p < 0 \<or> 32 < p then False
                  else (case (ipToLong ip, ipToLong network) of
                          (Some a, Some n) \<Rightarrow> same_subnet (nat p) a n
                        | _ \<Rightarrow> False))
         | _ \<Rightarrow> False))"

section \<open>Caches\<close>

definition evictIfNeeded :: "nat \<Rightarrow> ('k, 'v) jsmap \<Rightarrow> ('k, 'v) jsmap" where
  "evictIfNeeded maxSize m =
     (if maxSize < length m then (case jm_keys m of [] \<Rightarrow> m | k # _ \<Rightarrow> jm_delete k m) else m)"

type_synonym 'v ttl_cache = "(ident, 'v \<times> millis) jsmap"

text \<open>The common body of \<open>getOrgSecurityPolicy\<close> and \<open>getOrgIpAllowlist\<close>; \<open>fresh\<close> is what the database holds.\<close>

definition read_through :: "int \<Rightarrow> millis \<Rightarrow> ident \<Rightarrow> 'v \<Rightarrow> 'v ttl_cache \<Rightarrow> 'v \<times> 'v ttl_cache" where
  "read_through ttl now org fresh cache =
     (case jm_get cache org of
        Some (v, expiresAt) \<Rightarrow>
          if now < expiresAt then (v, cache)
          else (fresh, evictIfNeeded 500 (jm_set org (fresh, now + ttl) cache))
      | None \<Rightarrow> (fresh, evictIfNeeded 500 (jm_set org (fresh, now + ttl) cache)))"

record PolicyCaches =
  pc_policy :: "SecurityPolicyBoundary ttl_cache"
  pc_allowlist :: "string list ttl_cache"

definition org_allowlist :: "ident \<Rightarrow> AuthDb \<Rightarrow> string list" where
  "org_allowlist org db =
     filter (\<lambda>c. c \<noteq> [])
       (map ipe_cidr (filter (\<lambda>e. ipe_organizationId e = org \<and> ipe_enabled e) (adb_allowlist db)))"

definition getOrgSecurityPolicy ::
  "int \<Rightarrow> millis \<Rightarrow> ident \<Rightarrow> AuthDb \<Rightarrow> PolicyCaches \<Rightarrow> SecurityPolicyBoundary \<times> PolicyCaches" where
  "getOrgSecurityPolicy ttl now org db cs =
     (case read_through ttl now org (readOrgSecurityPolicy org db) (pc_policy cs) of
        (policy, m) \<Rightarrow> (policy, cs\<lparr> pc_policy := m \<rparr>))"

definition getOrgIpAllowlist ::
  "int \<Rightarrow> millis \<Rightarrow> ident \<Rightarrow> AuthDb \<Rightarrow> PolicyCaches \<Rightarrow> string list \<times> PolicyCaches" where
  "getOrgIpAllowlist ttl now org db cs =
     (case read_through ttl now org (org_allowlist org db) (pc_allowlist cs) of
        (entries, m) \<Rightarrow> (entries, cs\<lparr> pc_allowlist := m \<rparr>))"

section \<open>The guard\<close>

record EnforceOptions =
  requireMfaIfConfigured :: bool
  enforceIpAllowlistIfConfigured :: bool
  requireSessionIfConfigured :: bool
  requireRecentAuthIfConfigured :: bool

definition standardPolicy :: EnforceOptions where
  "standardPolicy = \<lparr> requireMfaIfConfigured = True, enforceIpAllowlistIfConfigured = True,
     requireSessionIfConfigured = True, requireRecentAuthIfConfigured = False \<rparr>"

definition strictPolicy :: EnforceOptions where
  "strictPolicy = standardPolicy\<lparr> requireRecentAuthIfConfigured := True \<rparr>"

definition hasMfa :: "HttpRequest \<Rightarrow> bool" where
  "hasMfa req \<longleftrightarrow> hq_mfaVerified req \<or> ''mfa'' \<in> set (hq_amr req)"

definition ip_gate ::
  "EnforceOptions \<Rightarrow> int \<Rightarrow> millis \<Rightarrow> ident \<Rightarrow> SecurityPolicyBoundary \<Rightarrow> HttpRequest \<Rightarrow> AuthDb \<Rightarrow> PolicyCaches \<Rightarrow>
     guard \<times> PolicyCaches" where
  "ip_gate opts ttl now org policy req db cs =
     (if enforceIpAllowlistIfConfigured opts \<and> ip_allowlist_enabled policy then
        (case getOrgIpAllowlist ttl now org db cs of
           (dbAllowlist, cs) \<Rightarrow>
             let allowlist = (if dbAllowlist \<noteq> [] then dbAllowlist
                              else filter (\<lambda>e. e \<noteq> []) (case ip_allowlist policy of None \<Rightarrow> [] | Some l \<Rightarrow> l)) in
             (if allowlist \<noteq> [] \<and> \<not> list_ex (ipMatchesAllowlist (hq_ip req)) allowlist
              then Status 403 ''ip_restricted'' else Next, cs))
      else (Next, cs))"

definition session_gate ::
  "(string \<Rightarrow> string) \<Rightarrow> EnforceOptions \<Rightarrow> millis \<Rightarrow> ident \<Rightarrow> SecurityPolicyBoundary \<Rightarrow> HttpRequest \<Rightarrow> AuthDb \<Rightarrow>
     (guard \<times> HttpRequest) \<times> AuthDb" where
  "session_gate hash opts now org policy req db =
     (if \<not> (requireSessionIfConfigured opts \<and> session_controls_enabled policy) then ((Next, req), db)
      else if \<not> truthy (req_userId req) then ((Status 401 ''Authentication required'', req), db)
      else if \<not> truthy (hq_sessionToken req) then ((Status 401 ''session_required'', req), db)
      else
        (case List.find (\<lambda>s. us_organizationId s = org \<and> us_userId s = the (req_userId req) \<and>
                us_sessionToken s = hash (trim (the (hq_sessionToken req))) \<and> us_revokedAt s = None)
                (adb_sessions db) of
           None \<Rightarrow> ((Status 401 ''invalid_session'', req), db)
         | Some session \<Rightarrow>
             let revoked = revoke_where now (\<lambda>s. us_id s = us_id session) db in
             if us_expiresAt session \<le> now then ((Status 401 ''session_expired'', req), revoked)
             else if (case max_session_age_hours policy of None \<Rightarrow> False
                      | Some h \<Rightarrow> 0 < h \<and> us_createdAt session + hours h \<le> now)
             then ((Status 401 ''session_max_age_exceeded'', req), revoked)
             else if requireRecentAuthIfConfigured opts \<and>
                     (case reauth_interval_minutes policy of None \<Rightarrow> False
                      | Some m \<Rightarrow> 0 < m \<and> us_createdAt session < now - m * 60 * 1000)
             then ((Status 403 ''recent_reauth_required'', req), db)
             else ((Next, req\<lparr> hq_sessionId := Some (us_id session) \<rparr>), touch_session now (us_id session) db)))"

definition requireOrgSecurityPolicy ::
  "(string \<Rightarrow> string) \<Rightarrow> int \<Rightarrow> EnforceOptions \<Rightarrow> millis \<Rightarrow> HttpRequest \<Rightarrow> AuthDb \<Rightarrow> PolicyCaches \<Rightarrow>
     (guard \<times> HttpRequest) \<times> AuthDb \<times> PolicyCaches" where
  "requireOrgSecurityPolicy hash ttl opts now req db cs =
     (if \<not> truthy (req_organizationId req) then ((Status 401 ''Authentication required'', req), db, cs)
      else
        let org = the (req_organizationId req) in
        (case getOrgSecurityPolicy ttl now org db cs of
           (policy, cs) \<Rightarrow>
             if requireMfaIfConfigured opts \<and> enforce_mfa_for_admin_actions policy \<and> \<not> hasMfa req
             then ((Status 403 ''mfa_required'', req), db, cs)
             else
               (case ip_gate opts ttl now org policy req db cs of
                  (Status code msg, cs) \<Rightarrow> ((Status code msg, req), db, cs)
                | (Next, cs) \<Rightarrow>
                    (case session_gate hash opts now org policy req db of
                       (out, db) \<Rightarrow> (out, db, cs)))))"

section \<open>CIDR blocks\<close>

declare digits.simps [simp del]

lemma digit_chars:
  "char_of (48 :: nat) = CHR ''0''" "char_of (49 :: nat) = CHR ''1''" "char_of (50 :: nat) = CHR ''2''"
  "char_of (51 :: nat) = CHR ''3''" "char_of (52 :: nat) = CHR ''4''" "char_of (53 :: nat) = CHR ''5''"
  "char_of (54 :: nat) = CHR ''6''" "char_of (55 :: nat) = CHR ''7''" "char_of (56 :: nat) = CHR ''8''"
  "char_of (57 :: nat) = CHR ''9''"
  by code_simp+

lemma digits_set: "set (digits n) \<subseteq> set ''0123456789''"
proof (induction n rule: digits.induct)
  case (1 n)
  have "char_of (48 + k :: nat) \<in> set ''0123456789''" if "k < 10" for k
  proof -
    from that have "k \<in> {0,1,2,3,4,5,6,7,8,9}" by auto
    then show ?thesis by (elim insertE emptyE) (simp_all add: digit_chars)
  qed
  with 1 show ?case by (subst digits.simps) (auto)
qed

lemma digits_not_Nil [simp]: "digits n \<noteq> []"
  by (subst digits.simps) simp

lemma digit_facts:
  assumes "c \<in> set ''0123456789''"
  shows "\<not> js_ws c" "digit_val c < 10" "c \<notin> set ''./+-xXoObB''"
  using assms by (auto simp: js_ws_def digit_val_def)

lemmas digits_facts = digit_facts [OF subsetD [OF digits_set]]

lemma digit_val_char: "k < 10 \<Longrightarrow> digit_val (char_of (48 + k :: nat)) = k"
  by (simp add: digit_val_def)

lemma foldl_digits: "foldl (\<lambda>n c. n * 10 + digit_val c) 0 (digits n) = n"
proof (induction n rule: digits.induct)
  case (1 n)
  then show ?case by (subst digits.simps) (auto simp: digit_val_char)
qed

lemma radix_digits: "radix_num 10 (digits n) = Some n"
  using digits_facts(2) by (auto simp: radix_num_def foldl_digits list_all_iff)

lemma trim_no_ws: "(\<And>c. c \<in> set s \<Longrightarrow> \<not> js_ws c) \<Longrightarrow> trim s = s"
proof -
  assume a: "\<And>c. c \<in> set s \<Longrightarrow> \<not> js_ws c"
  have "dropWhile js_ws t = t" if "set t \<subseteq> set s" for t
    using that a by (cases t) auto
  then show ?thesis by (simp add: trim_def)
qed

lemma signed_digits: "signed (digits n) = (1, digits n)"
  using digits_facts(3) [of _ n] by (cases "digits n") (auto simp: signed_def)

lemma takeWhile_digits: "takeWhile (\<lambda>c. digit_val c < 10) (digits n) = digits n"
  by (rule takeWhile_eq_all_conv [THEN iffD2]) (use digits_facts(2) in blast)

lemma js_number_digits: "js_number (digits n) = Some (of_nat n)"
proof -
  have t: "trim (digits n) = digits n" by (rule trim_no_ws) (rule digits_facts(1))
  have "take 2 (digits n) \<notin> {''0x'', ''0X'', ''0o'', ''0O'', ''0b'', ''0B''}"
    using digits_facts(3) [of _ n] by (cases "digits n"; cases "tl (digits n)") (auto)
  then show ?thesis
    by (simp add: takeWhile_digits js_number_def t decimal_def signed_digits radix_digits exponent_def Let_def)
qed

lemma parseInt10_digits: "parseInt10 (digits n) = Some (int n)"
proof -
  have "dropWhile js_ws (digits n) = digits n"
    using digits_facts(1) [of "hd (digits n)" n] by (cases "digits n") (auto)
  then show ?thesis by (simp add: takeWhile_digits parseInt10_def signed_digits radix_digits)
qed

lemma split_on_last: "d \<notin> set xs \<Longrightarrow> split_on d xs = [xs]"
  by (induction xs) auto

lemma split_on_part: "d \<notin> set xs \<Longrightarrow> split_on d (xs @ d # ys) = xs # split_on d ys"
  by (induction xs) auto

text \<open>The usual way to write an address, and the number it stands for.\<close>

definition dotted :: "nat \<Rightarrow> nat \<Rightarrow> nat \<Rightarrow> nat \<Rightarrow> string" where
  "dotted a b c d = digits a @ ''.'' @ digits b @ ''.'' @ digits c @ ''.'' @ digits d"

definition address :: "nat \<Rightarrow> nat \<Rightarrow> nat \<Rightarrow> nat \<Rightarrow> nat" where
  "address a b c d = a * 2 ^ 24 + b * 2 ^ 16 + c * 2 ^ 8 + d"

lemma or_shift:
  assumes "y < (2 :: nat) ^ k"
  shows "push_bit k x OR y = x * 2 ^ k + y"
proof -
  have "\<not> bit y n" if "k \<le> n" for n
  proof -
    from assms that have "y < 2 ^ n" by (meson less_le_trans one_le_numeral power_increasing)
    then show ?thesis by (simp add: bit_iff_odd)
  qed
  then have "push_bit k x + y = push_bit k x OR y"
    by (intro disjunctive_add) (auto simp: bit_push_bit_iff not_le)
  then show ?thesis by (simp add: push_bit_eq_mult)
qed

lemma ipToLong_dotted:
  assumes "a < 256" "b < 256" "c < 256" "d < 256"
  shows "ipToLong (dotted a b c d) = Some (of_nat (address a b c d))"
proof -
  have no_dot: "CHR ''.'' \<notin> set (digits n)" for n using digits_facts(3) by auto
  have "split_on CHR ''.'' (dotted a b c d) = [digits a, digits b, digits c, digits d]"
    by (simp add: dotted_def split_on_part no_dot split_on_last)
  then have parts: "map js_number (split_on CHR ''.'' (dotted a b c d)) =
      [Some (of_nat a), Some (of_nat b), Some (of_nat c), Some (of_nat d)]"
    by (simp add: js_number_digits)
  have le: "(of_nat n :: rat) \<le> 255" if "n < 256" for n
  proof -
    from that have "(of_nat n :: rat) \<le> of_nat 255" by (subst of_nat_le_iff) simp
    then show ?thesis by simp
  qed
  have "push_bit 24 a OR push_bit 16 b OR push_bit 8 c OR d = address a b c d"
    using assms or_shift [of d 8 c] or_shift [of "c * 2 ^ 8 + d" 16 b]
      or_shift [of "b * 2 ^ 16 + (c * 2 ^ 8 + d)" 24 a]
    by (simp add: address_def or.assoc)
  moreover have "(of_nat (push_bit 24 a OR push_bit 16 b OR push_bit 8 c OR d) :: 32 word) =
      push_bit 24 (of_nat a) OR push_bit 16 (of_nat b) OR push_bit 8 (of_nat c) OR of_nat d"
    by (simp only: of_nat_or_eq push_bit_of_nat)
  ultimately have "(push_bit 24 (of_nat a) OR push_bit 16 (of_nat b) OR push_bit 8 (of_nat c) OR of_nat d :: 32 word) =
      of_nat (address a b c d)"
    by (simp only:)
  then show ?thesis
    unfolding ipToLong_def parts using assms by (simp add: le)
qed

lemma same_subnet_div:
  assumes "p \<le> 32"
  shows "same_subnet p x y \<longleftrightarrow> unat x div 2 ^ (32 - p) = unat y div 2 ^ (32 - p)"
proof (cases "p = 0")
  case True
  have "unat z div 4294967296 = 0" for z :: "32 word"
    using unsigned_less [of z, where ?'a = nat] by simp
  with True show ?thesis by (simp add: same_subnet_def subnet_mask_def)
next
  case False
  define k where "k = 32 - p"
  with False assms have k: "k < 32" by simp
  have and_mask: "z AND push_bit k (NOT 0) = push_bit k (drop_bit k z)" for z :: "32 word"
    by (rule bit_eqI) (auto simp: bit_simps)
  have "push_bit k (drop_bit k x) = push_bit k (drop_bit k y) \<longleftrightarrow> drop_bit k x = drop_bit k y"
  proof
    assume "push_bit k (drop_bit k x) = push_bit k (drop_bit k y)"
    then have "drop_bit k (push_bit k (drop_bit k x)) = drop_bit k (push_bit k (drop_bit k y))" by simp
    moreover have "drop_bit k (push_bit k (drop_bit k z)) = drop_bit k z" for z :: "32 word"
      by (rule bit_eqI) (auto simp: bit_simps dest: bit_imp_le_length)
    ultimately show "drop_bit k x = drop_bit k y" by simp
  qed simp
  also have "\<dots> \<longleftrightarrow> unat x div 2 ^ k = unat y div 2 ^ k"
    by (simp add: word_unat_eq_iff unat_drop_bit_eq drop_bit_eq_div [where 'a = nat])
  finally have eq: "push_bit k (drop_bit k x) = push_bit k (drop_bit k y) \<longleftrightarrow>
      unat x div 2 ^ k = unat y div 2 ^ k" .
  have "same_subnet p x y \<longleftrightarrow> x AND push_bit k (NOT 0) = y AND push_bit k (NOT 0)"
    using False unfolding same_subnet_def subnet_mask_def k_def by simp
  then show ?thesis unfolding and_mask eq by (simp add: k_def)
qed

text \<open>
  C13. An allowlist entry \<open>a.b.c.d/p\<close> admits exactly the addresses that agree with it on the first \<open>p\<close> of their
  32 bits, for every prefix length from 0 to 32.
\<close>

theorem cidr_allowlist_correct:
  assumes "a < 256" "b < 256" "c < 256" "d < 256" "a' < 256" "b' < 256" "c' < 256" "d' < 256" "p \<le> 32"
  shows "ipMatchesAllowlist (dotted a b c d) (dotted a' b' c' d' @ ''/'' @ digits p) \<longleftrightarrow>
         address a b c d div 2 ^ (32 - p) = address a' b' c' d' div 2 ^ (32 - p)"
proof -
  let ?e = "dotted a' b' c' d' @ ''/'' @ digits p"
  have ws: "\<not> js_ws ch" if "ch \<in> set ?e" for ch
    using that digits_facts(1) by (auto simp: dotted_def js_ws_def)
  have slash: "CHR ''/'' \<notin> set (dotted a' b' c' d')" "CHR ''/'' \<notin> set (digits p)"
    using digits_facts(3) by (auto simp: dotted_def)
  have u: "unat (of_nat (address i j k l) :: 32 word) = address i j k l" if "i < 256" "j < 256" "k < 256" "l < 256" for i j k l
  proof -
    have "address i j k l < 2 ^ 32" using that by (simp add: address_def)
    then show ?thesis by (simp add: unsigned_of_nat take_bit_nat_eq_self)
  qed
  have t: "trim (dotted a' b' c' d' @ CHR ''/'' # digits p) = dotted a' b' c' d' @ CHR ''/'' # digits p"
    by (rule trim_no_ws) (use ws in auto)
  have "ipMatchesAllowlist (dotted a b c d) ?e \<longleftrightarrow>
      same_subnet p (of_nat (address a b c d)) (of_nat (address a' b' c' d'))"
    using assms(9) slash
    by (simp add: ipMatchesAllowlist_def Let_def t split_on_part split_on_last parseInt10_digits
        ipToLong_dotted [OF assms(1-4)] ipToLong_dotted [OF assms(5-8)])
  also have "\<dots> \<longleftrightarrow> address a b c d div 2 ^ (32 - p) = address a' b' c' d' div 2 ^ (32 - p)"
    by (simp add: same_subnet_div assms(9) u assms(1-8))
  finally show ?thesis .
qed

section \<open>What the caches hold\<close>

text \<open>\<open>stored t org\<close> is what the database holds at time \<open>t\<close>. Every entry was read at the time its
  lifetime began.\<close>

definition cache_fresh :: "int \<Rightarrow> (millis \<Rightarrow> ident \<Rightarrow> 'v) \<Rightarrow> millis \<Rightarrow> 'v ttl_cache \<Rightarrow> bool" where
  "cache_fresh ttl stored now m \<longleftrightarrow>
     jm_wf m \<and> length m \<le> 500 \<and>
     (\<forall>(org, v, e) \<in> set m. e - ttl \<le> now \<and> v = stored (e - ttl) org)"

lemma set_jm_set: "set (jm_set k v m) \<subseteq> insert (k, v) (set m)"
  by (induction m) (auto split: if_splits)

lemma length_jm_set: "length (jm_set k v m) \<le> Suc (length m)"
  by (induction m) auto

lemma evict_bounded:
  assumes "jm_wf m" "length m \<le> Suc n"
  shows "jm_wf (evictIfNeeded n m)" "length (evictIfNeeded n m) \<le> n" "set (evictIfNeeded n m) \<subseteq> set m"
proof -
  show "jm_wf (evictIfNeeded n m)"
    using assms(1) jm.wf_del [of m] by (auto simp: evictIfNeeded_def split: list.splits)
  show "set (evictIfNeeded n m) \<subseteq> set m"
    by (auto simp: evictIfNeeded_def jm_delete_def split: list.splits)
  show "length (evictIfNeeded n m) \<le> n"
  proof (cases m)
    case (Cons e m')
    have "length (jm_delete (fst e) m) \<le> length m'"
      by (simp add: Cons jm_delete_def)
    with assms(2) show ?thesis by (simp add: evictIfNeeded_def jm_keys_def Cons)
  qed (simp add: evictIfNeeded_def)
qed

lemma read_through_fresh:
  assumes fresh: "cache_fresh ttl stored now m" and "now \<le> now'" "0 < ttl"
    and r: "read_through ttl now' org (stored now' org) m = (v, m')"
  shows "cache_fresh ttl stored now' m'" "\<exists>t. now' - ttl < t \<and> t \<le> now' \<and> v = stored t org"
proof -
  define m1 where "m1 = evictIfNeeded 500 (jm_set org (stored now' org, now' + ttl) m)"
  have wf: "jm_wf (jm_set org (stored now' org, now' + ttl) m)"
    by (rule jm.wf_put) (use fresh in \<open>simp add: cache_fresh_def\<close>)
  have "length (jm_set org (stored now' org, now' + ttl) m) \<le> Suc 500"
    using fresh length_jm_set [of org "(stored now' org, now' + ttl)" m] by (simp add: cache_fresh_def)
  note ev = evict_bounded [OF wf this, folded m1_def]
  have "set m1 \<subseteq> insert (org, stored now' org, now' + ttl) (set m)"
    using ev(3) set_jm_set by fastforce
  with fresh assms(2) have m1: "cache_fresh ttl stored now' m1"
    using ev(1,2) by (fastforce simp: cache_fresh_def)
  have m: "cache_fresh ttl stored now' m" using fresh assms(2) by (fastforce simp: cache_fresh_def)
  have hit: "e - ttl \<le> now \<and> v = stored (e - ttl) org" if "jm_get m org = Some (v, e)" for v e
    using that fresh by (fastforce simp: cache_fresh_def jm_get_def dest: map_of_SomeD)
  have "cache_fresh ttl stored now' m' \<and> (\<exists>t. now' - ttl < t \<and> t \<le> now' \<and> v = stored t org)"
  proof (cases "\<exists>e. jm_get m org = Some (v, e) \<and> now' < e \<and> m' = m")
    case True
    then obtain e where e: "jm_get m org = Some (v, e)" "now' < e" "m' = m" by blast
    from hit [OF e(1)] e m \<open>now \<le> now'\<close> show ?thesis by (intro conjI exI [of _ "e - ttl"]) auto
  next
    case False
    with r have "v = stored now' org" "m' = m1"
      by (auto simp: read_through_def m1_def split: option.splits if_splits)
    with m1 \<open>0 < ttl\<close> show ?thesis by (intro conjI exI [of _ now']) auto
  qed
  then show "cache_fresh ttl stored now' m'" "\<exists>t. now' - ttl < t \<and> t \<le> now' \<and> v = stored t org" by auto
qed

section \<open>What the guard guarantees\<close>

definition session_ok ::
  "(string \<Rightarrow> string) \<Rightarrow> EnforceOptions \<Rightarrow> millis \<Rightarrow> ident \<Rightarrow> SecurityPolicyBoundary \<Rightarrow> HttpRequest \<Rightarrow> UserSession \<Rightarrow> bool" where
  "session_ok hash opts now org policy req s \<longleftrightarrow>
     us_organizationId s = org \<and> req_userId req = Some (us_userId s) \<and>
     (\<exists>raw. hq_sessionToken req = Some raw \<and> us_sessionToken s = hash (trim raw)) \<and>
     us_revokedAt s = None \<and> now < us_expiresAt s \<and>
     (\<forall>h. max_session_age_hours policy = Some h \<and> 0 < h \<longrightarrow> now < us_createdAt s + hours h) \<and>
     (\<forall>m. requireRecentAuthIfConfigured opts \<and> reauth_interval_minutes policy = Some m \<and> 0 < m \<longrightarrow>
        now - m * 60 * 1000 \<le> us_createdAt s)"

lemma session_gate_sound:
  assumes pass: "session_gate hash opts now org policy req db = ((Next, req'), db')"
    and on: "requireSessionIfConfigured opts" "session_controls_enabled policy"
  shows "\<exists>s \<in> set (adb_sessions db). session_ok hash opts now org policy req s"
proof -
  define found where "found = List.find (\<lambda>s. us_organizationId s = org \<and> us_userId s = the (req_userId req) \<and>
                us_sessionToken s = hash (trim (the (hq_sessionToken req))) \<and> us_revokedAt s = None)
                (adb_sessions db)"
  have uid: "truthy (req_userId req)"
    by (rule ccontr) (use pass on in \<open>simp add: session_gate_def\<close>)
  have tok: "truthy (hq_sessionToken req)"
    by (rule ccontr) (use pass on uid in \<open>simp add: session_gate_def\<close>)
  note gate = pass [unfolded session_gate_def found_def [symmetric]]
  obtain s where f: "found = Some s"
    using gate on uid tok by (cases found) simp_all
  have exp: "now < us_expiresAt s"
    by (rule ccontr) (use gate on uid tok f in \<open>simp add: Let_def\<close>)
  have age: "now < us_createdAt s + hours h" if "max_session_age_hours policy = Some h" "0 < h" for h
    by (rule ccontr) (use gate on uid tok f exp that in \<open>simp add: Let_def\<close>)
  have recent: "now - m * 60 * 1000 \<le> us_createdAt s"
    if "requireRecentAuthIfConfigured opts" "reauth_interval_minutes policy = Some m" "0 < m" for m
    by (rule ccontr) (use gate on uid tok f exp that in \<open>simp add: Let_def split: if_splits option.splits\<close>)
  from find_SomeD [OF f [unfolded found_def]] uid tok exp age recent show ?thesis
    by (intro bexI [of _ s]) (auto simp: session_ok_def elim!: truthyE)
qed

definition caches_fresh ::
  "int \<Rightarrow> (millis \<Rightarrow> ident \<Rightarrow> SecurityPolicyBoundary) \<Rightarrow> (millis \<Rightarrow> ident \<Rightarrow> string list) \<Rightarrow> millis \<Rightarrow> PolicyCaches \<Rightarrow> bool" where
  "caches_fresh ttl policies allows now cs \<longleftrightarrow>
     cache_fresh ttl policies now (pc_policy cs) \<and> cache_fresh ttl allows now (pc_allowlist cs)"

lemma cache_fresh_later: "cache_fresh ttl stored now m \<Longrightarrow> now \<le> now' \<Longrightarrow> cache_fresh ttl stored now' m"
  by (fastforce simp: cache_fresh_def)


section \<open>Controls that cannot be met\<close>

text \<open>What no middleware of the chain touches.\<close>

definition same_client :: "HttpRequest \<Rightarrow> HttpRequest \<Rightarrow> bool" where
  "same_client req req' \<longleftrightarrow> hasMfa req' = hasMfa req \<and> hq_sessionToken req' = hq_sessionToken req"

lemma act_as_same: "same_client req (act_as u req)" "same_client req ((act_as u req)\<lparr> hq_sessionId := i \<rparr>)"
  by (simp_all add: same_client_def act_as_def hasMfa_def)

lemma same_client_refl [simp]: "same_client req req"
  by (simp add: same_client_def)

lemma bypass_same: "same_client req (devAuthBypass env db req)"
  by (simp add: devAuthBypass_def act_as_same split: option.split)

lemma sessionAuth_same: "same_client req (fst (sessionAuth hash now req db))"
  by (simp add: sessionAuth_def Let_def act_as_same split: option.split)

lemma chain_keeps_mfa:
  assumes "auth_chain cfg now req db = ((g, req'), db')"
  shows "hasMfa req' = hasMfa req" "hq_sessionToken req' = hq_sessionToken req"
proof -
  have "req' = fst (sessionAuth (cfg_hash cfg) now (devAuthBypass (cfg_env cfg) db req) db)"
    using assms by (auto simp: auth_chain_def split: prod.splits guard.splits)
  with bypass_same [of req "cfg_env cfg" db] sessionAuth_same [of "devAuthBypass (cfg_env cfg) db req" "cfg_hash cfg" now db]
  show "hasMfa req' = hasMfa req" "hq_sessionToken req' = hq_sessionToken req"
    by (simp_all add: same_client_def)
qed

text \<open>
  No middleware ever marks a request as verified by a second factor: an organization that enforces it
  locks everybody out of every guarded route.
\<close>

theorem mfa_policy_locks_out:
  assumes "auth_chain cfg now req db = ((Next, req'), db')" and "\<not> hasMfa req"
    and "req_organizationId req' = Some org" "enforce_mfa_for_admin_actions (readOrgSecurityPolicy org db')"
    and "opts \<in> {standardPolicy, strictPolicy}" and "jm_get (pc_policy cs) org = None"
  shows "fst (fst (requireOrgSecurityPolicy hash ttl opts now' req' db' cs)) = Status 403 ''mfa_required''"
proof -
  have "truthy (req_organizationId req')"
    using assms(1) by (auto simp: auth_chain_def requireOrganization_def split: prod.splits guard.splits if_splits)
  with assms chain_keeps_mfa [OF assms(1)] show ?thesis
    by (auto simp: requireOrgSecurityPolicy_def getOrgSecurityPolicy_def read_through_def standardPolicy_def
        strictPolicy_def)
qed

text \<open>
  The session middleware accepts the token in the Authorization header as well, the session controls
  read only \<open>x-session-token\<close>: a client that authenticates with a bearer token is refused as if it had
  no session.
\<close>

theorem bearer_session_refused:
  assumes "auth_chain cfg now req db = ((Next, req'), db')" and "hq_sessionToken req = None"
    and "req_organizationId req' = Some org" "readOrgSecurityPolicy org db' = no_policy\<lparr> session_controls_enabled := True \<rparr>"
    and "opts \<in> {standardPolicy, strictPolicy}" and "jm_get (pc_policy cs) org = None"
  shows "fst (fst (requireOrgSecurityPolicy hash ttl opts now' req' db' cs)) = Status 401 ''session_required''"
proof -
  have "authenticated req'"
    using assms(1) by (auto simp: auth_chain_def requireAuth_def split: prod.splits guard.splits if_splits)
  with assms chain_keeps_mfa [OF assms(1)] show ?thesis
    by (auto simp: requireOrgSecurityPolicy_def getOrgSecurityPolicy_def read_through_def standardPolicy_def
        strictPolicy_def authenticated_def ip_gate_def session_gate_def no_policy_def)
qed

end
