(* ===== verification/Auth_Routes.thy ===== *)
theory Auth_Routes
  imports Security_Policy
begin

text \<open>
  Logging in, accepting an invitation and logging out (\<open>src/api/auth-routes.ts\<close> over \<open>src/services/auth.ts\<close>),
  and the steps of the whole authentication system: these routes, the middleware chain of \<open>Sessions\<close>, the
  guard of \<open>Security_Policy\<close> and SCIM.

  The identity provider (WorkOS) is a parameter: what it answers to a code and to an e-mail address with
  a password. So is the validation of e-mail addresses (zod). Generated ids and the drawn session token
  are part of the context \<open>AuthCtx\<close>. What was written before an error stays written, as no transaction
  encloses the handlers.
\<close>

section \<open>Users\<close>

record WorkOSUser =
  wu_id :: ident
  wu_email :: string
  wu_firstName :: "string option"
  wu_lastName :: "string option"

record WorkOS =
  wo_authenticateWithCode :: "string \<Rightarrow> WorkOSUser option"
  wo_authenticateWithPassword :: "string \<Rightarrow> string \<Rightarrow> WorkOSUser option"
  wo_createUser :: "string \<Rightarrow> string \<Rightarrow> WorkOSUser option"

datatype AuthError =
  WrongOrganization | EmailInOtherOrganization | InviteOrganizationGone | SsoEnforced | SsoDomainNotAllowed | WorkosRefused

record AuthCtx =
  ax_now :: millis
  ax_hash :: "string \<Rightarrow> string"
  ax_userId :: ident
  ax_orgId :: ident
  ax_sessionId :: ident
  ax_token :: string
  ax_emailOk :: "string \<Rightarrow> bool"

definition buildDisplayName :: "string option \<Rightarrow> string option \<Rightarrow> string option" where
  "buildDisplayName firstName lastName =
     (case map the (filter truthy [firstName, lastName]) of
        [] \<Rightarrow> None | [a] \<Rightarrow> Some a | a # b # _ \<Rightarrow> Some (a @ '' '' @ b))"

definition email_domain :: "string \<Rightarrow> string option" where
  "email_domain email = (case split_on CHR ''@'' email of _ # d # _ \<Rightarrow> Some d | _ \<Rightarrow> None)"

definition findUserByWorkosId :: "ident \<Rightarrow> AuthDb \<Rightarrow> AuthUser option" where
  "findUserByWorkosId wid db = List.find (\<lambda>u. au_workosUserId u = Some wid) (adb_users db)"

definition findUserByEmail :: "string \<Rightarrow> AuthDb \<Rightarrow> AuthUser option" where
  "findUserByEmail email db = List.find (\<lambda>u. au_email u = email) (adb_users db)"

definition enforcePasswordAuthAllowed :: "string \<Rightarrow> AuthDb \<Rightarrow> AuthError option" where
  "enforcePasswordAuthAllowed email db =
     (case findUserByEmail email db of
        None \<Rightarrow> None
      | Some user \<Rightarrow>
          if sso_enforced (readOrgSecurityPolicy (u_organizationId user) db) then Some SsoEnforced else None)"

definition enforceSsoDomainMapping :: "AuthUser \<Rightarrow> AuthDb \<Rightarrow> AuthError option" where
  "enforceSsoDomainMapping user db =
     (let policy = readOrgSecurityPolicy (u_organizationId user) db;
          allowed = filter (\<lambda>d. d \<noteq> [])
            (map (\<lambda>d. toLowerCase (trim d)) (case allowed_sso_domains policy of None \<Rightarrow> [] | Some ds \<Rightarrow> ds));
          domain = (case email_domain (au_email user) of None \<Rightarrow> [] | Some d \<Rightarrow> toLowerCase d) in
      if allowed = [] then None
      else if domain \<notin> set allowed then Some SsoDomainNotAllowed else None)"

definition linkWorkosUser :: "ident \<Rightarrow> ident \<Rightarrow> string option \<Rightarrow> UserRole \<Rightarrow> AuthUser \<Rightarrow> AuthUser" where
  "linkWorkosUser uid wid name role u =
     (if u_id u = uid
      then u\<lparr> u_role := role, au_name := (if truthy name then name else au_name u), au_workosUserId := Some wid \<rparr>
      else u)"

text \<open>Fourteen days of trial for a new organization.\<close>

definition createUserWithOrg ::
  "AuthCtx \<Rightarrow> WorkOSUser \<Rightarrow> string option \<Rightarrow> AuthDb \<Rightarrow> AuthUser \<times> AuthDb" where
  "createUserWithOrg cx wu organizationName db =
     (let org = \<lparr> org_id = ax_orgId cx,
            org_name = (case organizationName of Some n \<Rightarrow> n
                        | None \<Rightarrow> (case email_domain (wu_email wu) of None \<Rightarrow> [] | Some d \<Rightarrow> d)),
            org_trialEndsAt = Some (ax_now cx + 14 * 24 * 60 * 60 * 1000) \<rparr>;
          user = \<lparr> u_id = ax_userId cx, u_organizationId = ax_orgId cx, u_role = OWNER,
            au_email = wu_email wu, au_name = buildDisplayName (wu_firstName wu) (wu_lastName wu),
            au_workosUserId = Some (wu_id wu) \<rparr> in
      (user, db\<lparr> adb_organizations := adb_organizations db @ [org], adb_users := adb_users db @ [user] \<rparr>))"

definition createUserInOrg ::
  "AuthCtx \<Rightarrow> WorkOSUser \<Rightarrow> ident \<Rightarrow> UserRole \<Rightarrow> AuthDb \<Rightarrow> (AuthError, AuthUser) res \<times> AuthDb" where
  "createUserInOrg cx wu org role db =
     (if \<not> list_ex (\<lambda>x. org_id x = org) (adb_organizations db) then (Inl InviteOrganizationGone, db)
      else
        let user = \<lparr> u_id = ax_userId cx, u_organizationId = org, u_role = role,
              au_email = wu_email wu, au_name = buildDisplayName (wu_firstName wu) (wu_lastName wu),
              au_workosUserId = Some (wu_id wu) \<rparr> in
        (Inr user, db\<lparr> adb_users := adb_users db @ [user] \<rparr>))"

record UserProvisioningOptions =
  upo_organizationName :: "string option"
  upo_organizationId :: "ident option"
  upo_role :: "UserRole option"

definition findOrCreateUser ::
  "AuthCtx \<Rightarrow> WorkOSUser \<Rightarrow> UserProvisioningOptions \<Rightarrow> AuthDb \<Rightarrow> (AuthError, AuthUser) res \<times> AuthDb" where
  "findOrCreateUser cx wu opts db =
     (let target = upo_organizationId opts in
      case findUserByWorkosId (wu_id wu) db of
        Some u \<Rightarrow>
          if truthy target \<and> u_organizationId u \<noteq> the target then (Inl WrongOrganization, db)
          else (Inr u, db)
      | None \<Rightarrow>
          (case findUserByEmail (wu_email wu) db of
             Some u \<Rightarrow>
               if truthy target \<and> u_organizationId u \<noteq> the target then (Inl EmailInOtherOrganization, db)
               else
                 let display = buildDisplayName (wu_firstName wu) (wu_lastName wu);
                     name = (case display of None \<Rightarrow> au_name u | Some n \<Rightarrow> Some n);
                     link = linkWorkosUser (u_id u) (wu_id wu) name (keep (upo_role opts) (u_role u)) in
                 (Inr (link u), db\<lparr> adb_users := map link (adb_users db) \<rparr>)
           | None \<Rightarrow>
               if \<not> truthy target
               then (case createUserWithOrg cx wu (upo_organizationName opts) db of (u, db) \<Rightarrow> (Inr u, db))
               else createUserInOrg cx wu (the target)
                      (case upo_role opts of None \<Rightarrow> MEMBER | Some r \<Rightarrow> r) db))"

section \<open>Handlers\<close>

definition start_session :: "AuthCtx \<Rightarrow> AuthUser \<Rightarrow> AuthDb \<Rightarrow> AuthDb" where
  "start_session cx user db = createSessionForUser (ax_hash cx) (ax_now cx) (ax_sessionId cx) (ax_token cx) user db"

definition anyone :: UserProvisioningOptions where
  "anyone = \<lparr> upo_organizationName = None, upo_organizationId = None, upo_role = None \<rparr>"

definition callback_route :: "AuthCtx \<Rightarrow> WorkOS \<Rightarrow> string option \<Rightarrow> AuthDb \<Rightarrow> response \<times> AuthDb" where
  "callback_route cx wo code db =
     (if \<not> truthy code then (Response 400 ''Missing authorization code'', db)
      else (case wo_authenticateWithCode wo (the code) of
        None \<Rightarrow> (Response 401 ''unauthorized'', db)
      | Some wu \<Rightarrow>
          (case findOrCreateUser cx wu anyone db of
             (Inl e, db) \<Rightarrow> (Response 401 ''unauthorized'', db)
           | (Inr user, db) \<Rightarrow>
               (case enforceSsoDomainMapping user db of
                  Some e \<Rightarrow> (Response 401 ''unauthorized'', db)
                | None \<Rightarrow> (Response 200 ''session'', start_session cx user db)))))"

definition signup_route ::
  "AuthCtx \<Rightarrow> WorkOS \<Rightarrow> string \<Rightarrow> string \<Rightarrow> string option \<Rightarrow> string option \<Rightarrow> AuthDb \<Rightarrow> response \<times> AuthDb" where
  "signup_route cx wo email password name organizationName db =
     (if \<not> (ax_emailOk cx email \<and> 8 \<le> length password \<and> name \<noteq> Some [] \<and> organizationName \<noteq> Some [])
      then (Response 400 ''Validation failed'', db)
      else if enforcePasswordAuthAllowed email db \<noteq> None then (Response 400 ''bad_request'', db)
      else (case (wo_createUser wo email password, wo_authenticateWithPassword wo email password) of
        (Some wu, Some _) \<Rightarrow>
          (case findOrCreateUser cx wu (anyone\<lparr> upo_organizationName := organizationName \<rparr>) db of
             (Inl e, db) \<Rightarrow> (Response 400 ''bad_request'', db)
           | (Inr user, db) \<Rightarrow> (Response 201 ''session'', start_session cx user db))
      | _ \<Rightarrow> (Response 400 ''bad_request'', db)))"

definition password_route :: "AuthCtx \<Rightarrow> WorkOS \<Rightarrow> string \<Rightarrow> string \<Rightarrow> AuthDb \<Rightarrow> response \<times> AuthDb" where
  "password_route cx wo email password db =
     (if \<not> (ax_emailOk cx email \<and> password \<noteq> []) then (Response 400 ''Validation failed'', db)
      else if enforcePasswordAuthAllowed email db \<noteq> None then (Response 401 ''unauthorized'', db)
      else (case wo_authenticateWithPassword wo email password of
        None \<Rightarrow> (Response 401 ''unauthorized'', db)
      | Some wu \<Rightarrow>
          (case findOrCreateUser cx wu anyone db of
             (Inl e, db) \<Rightarrow> (Response 401 ''unauthorized'', db)
           | (Inr user, db) \<Rightarrow> (Response 200 ''session'', start_session cx user db))))"

definition me_route :: "AuthCtx \<Rightarrow> string option \<Rightarrow> AuthDb \<Rightarrow> (response \<times> AuthUser option) \<times> AuthDb" where
  "me_route cx header db =
     (case readHeader header of
        None \<Rightarrow> ((Response 401 ''authentication_required'', None), db)
      | Some raw \<Rightarrow>
          (case findActiveSession (ax_hash cx) (ax_now cx) raw db of
             (None, db) \<Rightarrow> ((Response 401 ''invalid_session'', None), db)
           | (Some (s, user), db) \<Rightarrow>
               (case user of
                  None \<Rightarrow> ((Response 500 ''internal_error'', None), db)
                | Some u \<Rightarrow> ((Response 200 ''user'', Some u), db))))"

definition patch_me_route :: "AuthCtx \<Rightarrow> string option \<Rightarrow> string \<Rightarrow> AuthDb \<Rightarrow> response \<times> AuthDb" where
  "patch_me_route cx header name db =
     (case me_route cx header db of
        ((r, None), db) \<Rightarrow> (r, db)
      | ((r, Some u), db) \<Rightarrow>
          let name = trim name in
          if name = [] \<or> 120 < length name then (Response 400 ''validation_error'', db)
          else (Response 200 ''user'',
                db\<lparr> adb_users := update_many (\<lambda>v. u_id v = u_id u) (\<lambda>v. v\<lparr> au_name := Some name \<rparr>) (adb_users db) \<rparr>))"

definition find_invite :: "string \<Rightarrow> AuthDb \<Rightarrow> OrgInvite option" where
  "find_invite token db = List.find (\<lambda>i. inv_token i = token) (adb_invites db)"

definition markInviteAccepted :: "millis \<Rightarrow> ident \<Rightarrow> AuthDb \<Rightarrow> AuthDb" where
  "markInviteAccepted now iid db =
     db\<lparr> adb_invites := update_many (\<lambda>i. inv_id i = iid) (\<lambda>i. i\<lparr> inv_acceptedAt := Some now \<rparr>) (adb_invites db) \<rparr>"

definition accept_invite_route ::
  "AuthCtx \<Rightarrow> WorkOS \<Rightarrow> string \<Rightarrow> string \<Rightarrow> string option \<Rightarrow> AuthDb \<Rightarrow> response \<times> AuthDb" where
  "accept_invite_route cx wo token password name db =
     (if \<not> (8 \<le> length password \<and> name \<noteq> Some []) then (Response 400 ''Validation failed'', db)
      else (case find_invite token db of
        None \<Rightarrow> (Response 404 ''invite_not_found'', db)
      | Some invite \<Rightarrow>
          if inv_acceptedAt invite \<noteq> None then (Response 409 ''invite_already_accepted'', db)
          else if inv_expiresAt invite \<le> ax_now cx then (Response 410 ''invite_expired'', db)
          else if enforcePasswordAuthAllowed (inv_email invite) db \<noteq> None then (Response 400 ''bad_request'', db)
          else (case wo_authenticateWithPassword wo (inv_email invite) password of
            None \<Rightarrow> (Response 400 ''bad_request'', db)
          | Some wu \<Rightarrow>
              (case findOrCreateUser cx wu \<lparr> upo_organizationName = None,
                      upo_organizationId = Some (inv_organizationId invite), upo_role = Some (inv_role invite) \<rparr> db of
                 (Inl e, db) \<Rightarrow> (Response 400 ''bad_request'', db)
               | (Inr user, db) \<Rightarrow>
                   (Response 201 ''session'',
                    start_session cx user (markInviteAccepted (ax_now cx) (inv_id invite) db))))))"

definition logout_route :: "AuthCtx \<Rightarrow> string option \<Rightarrow> AuthDb \<Rightarrow> response \<times> AuthDb" where
  "logout_route cx header db =
     (Response 200 ''success'',
      (case readHeader header of None \<Rightarrow> db | Some raw \<Rightarrow> revokeSession (ax_hash cx) (ax_now cx) raw db))"

datatype auth_call =
  Callback "string option"
| Signup string string "string option" "string option"
| PasswordLogin string string
| Me "string option"
| PatchMe "string option" string
| AcceptInvite string string "string option"
| Logout "string option"

definition auth_handle :: "AuthCtx \<Rightarrow> WorkOS \<Rightarrow> auth_call \<Rightarrow> AuthDb \<Rightarrow> response \<times> AuthDb" where
  "auth_handle cx wo c db =
     (case c of
        Callback code \<Rightarrow> callback_route cx wo code db
      | Signup email password name organizationName \<Rightarrow> signup_route cx wo email password name organizationName db
      | PasswordLogin email password \<Rightarrow> password_route cx wo email password db
      | Me header \<Rightarrow> (case me_route cx header db of ((r, u), db) \<Rightarrow> (r, db))
      | PatchMe header name \<Rightarrow> patch_me_route cx header name db
      | AcceptInvite token password name \<Rightarrow> accept_invite_route cx wo token password name db
      | Logout header \<Rightarrow> logout_route cx header db)"

section \<open>Steps of the authentication system\<close>

text \<open>A drawn token is new: its hash is not stored yet. \<open>admin\<close> stands for the administrative routes that
  change policies, invitations, allowlists and SCIM settings, but neither users nor sessions.\<close>

inductive session_step :: "AppConfig \<Rightarrow> WorkOS \<Rightarrow> millis \<times> AuthDb \<Rightarrow> millis \<times> AuthDb \<Rightarrow> bool"
  for cfg :: AppConfig and wo :: WorkOS where
  route: "now \<le> ax_now cx \<Longrightarrow> ax_hash cx = cfg_hash cfg \<Longrightarrow>
     cfg_hash cfg (ax_token cx) \<notin> us_sessionToken ` set (adb_sessions db) \<Longrightarrow>
     ax_userId cx \<notin> u_id ` set (adb_users db) \<Longrightarrow>
     session_step cfg wo (now, db) (ax_now cx, snd (auth_handle cx wo c db))"
| request: "now \<le> now' \<Longrightarrow> session_step cfg wo (now, db) (now', snd (auth_chain cfg now' req db))"
| guarded: "now \<le> now' \<Longrightarrow>
     session_step cfg wo (now, db)
       (now', fst (snd (requireOrgSecurityPolicy (cfg_hash cfg) ttl opts now' req db cs)))"
| admin: "now \<le> now' \<Longrightarrow>
     session_step cfg wo (now, db)
       (now', db\<lparr> adb_policies := ps, adb_invites := is, adb_allowlist := al, adb_provisioning := pr \<rparr>)"

inductive auth_step :: "AppConfig \<Rightarrow> WorkOS \<Rightarrow> millis \<times> AuthDb \<Rightarrow> millis \<times> AuthDb \<Rightarrow> bool"
  for cfg :: AppConfig and wo :: WorkOS where
  session: "session_step cfg wo s s' \<Longrightarrow> auth_step cfg wo s s'"
| scim_create: "now \<le> now' \<Longrightarrow> i \<notin> u_id ` set (adb_users db) \<Longrightarrow>
     auth_step cfg wo (now, db) (now', snd (createOrUpdateUser now' i j auth inp db))"
| scim_patch: "now \<le> now' \<Longrightarrow> auth_step cfg wo (now, db) (now', snd (patchUser now' auth uid active name db))"
| scim_delete: "now \<le> now' \<Longrightarrow> auth_step cfg wo (now, db) (now', snd (deactivateUser now' auth uid db))"

inductive_cases session_stepE: "session_step cfg wo s s'"

section \<open>What the steps keep\<close>

text \<open>Everything but the session table.\<close>

lemma session_ops_frame [simp]:
  "adb_users (revoke_where now p db) = adb_users db" "adb_scim (revoke_where now p db) = adb_scim db"
  "adb_users (touch_session now i db) = adb_users db" "adb_scim (touch_session now i db) = adb_scim db"
  "adb_users (createSessionForUser hash now sid raw u db) = adb_users db"
  "adb_scim (createSessionForUser hash now sid raw u db) = adb_scim db"
  "adb_users (start_session cx u db) = adb_users db" "adb_scim (start_session cx u db) = adb_scim db"
  "adb_users (revokeSession hash now raw db) = adb_users db"
  "adb_scim (revokeSession hash now raw db) = adb_scim db"
  by (simp_all add: revoke_where_def touch_session_def createSessionForUser_def Let_def start_session_def
      revokeSession_def)

lemma middleware_frame:
  "adb_users (snd (sessionAuth hash now req db)) = adb_users db"
  "adb_scim (snd (sessionAuth hash now req db)) = adb_scim db"
  "adb_users (snd (findActiveSession hash now raw db)) = adb_users db"
  "adb_scim (snd (findActiveSession hash now raw db)) = adb_scim db"
  by (simp_all add: sessionAuth_def findActiveSession_def Let_def split: option.split)

lemma chain_db: "snd (auth_chain cfg now req db) = snd (sessionAuth (cfg_hash cfg) now (devAuthBypass (cfg_env cfg) db req) db)"
  by (simp add: auth_chain_def split: prod.split guard.split)

lemma guard_db:
  "fst (snd (requireOrgSecurityPolicy hash ttl opts now req db cs)) \<in>
     insert db (range (\<lambda>policy. snd (session_gate hash opts now (the (req_organizationId req)) policy req db)))"
  by (auto simp: requireOrgSecurityPolicy_def Let_def split: prod.split guard.split) (metis rangeI snd_conv)+

lemma gate_db:
  "snd (session_gate hash opts now org policy req db) = db \<or>
   (\<exists>p. snd (session_gate hash opts now org policy req db) = revoke_where now p db) \<or>
   (\<exists>i. snd (session_gate hash opts now org policy req db) = touch_session now i db)"
  by (simp add: session_gate_def Let_def split: option.split) blast

lemma guard_cases:
  obtains "fst (snd (requireOrgSecurityPolicy hash ttl opts now req db cs)) = db"
  | p where "fst (snd (requireOrgSecurityPolicy hash ttl opts now req db cs)) = revoke_where now p db"
  | i where "fst (snd (requireOrgSecurityPolicy hash ttl opts now req db cs)) = touch_session now i db"
proof -
  obtain policy where "fst (snd (requireOrgSecurityPolicy hash ttl opts now req db cs)) \<in>
      {db, snd (session_gate hash opts now (the (req_organizationId req)) policy req db)}"
    using guard_db [of hash ttl opts now req db cs] by blast
  with gate_db [of hash opts now "the (req_organizationId req)" policy req db] that show thesis by auto
qed

text \<open>The handlers write sessions only by starting, touching or revoking one.\<close>

lemma provision_sessions:
  "findOrCreateUser cx wu opts db = (r, db') \<Longrightarrow> adb_sessions db' = adb_sessions db \<and> adb_scim db' = adb_scim db"
  by (auto simp: findOrCreateUser_def createUserWithOrg_def createUserInOrg_def Let_def
      split: option.splits if_splits)

lemma evolves_start:
  "adb_sessions db1 = adb_sessions db \<Longrightarrow> ax_hash cx (ax_token cx) \<notin> us_sessionToken ` set (adb_sessions db) \<Longrightarrow>
     evolves db (start_session cx u db1)"
  unfolding start_session_def by (rule evolves_trans [OF evolves_same evolves_create]) simp_all

lemma me_db: "snd (me_route cx h db) = db \<or> (\<exists>raw. snd (me_route cx h db) = snd (findActiveSession (ax_hash cx) (ax_now cx) raw db))"
  by (auto simp: me_route_def split: option.split prod.split) (metis snd_conv)+

lemma evolves_me: "evolves db (snd (me_route cx h db))"
  using me_db [of cx h db] evolves_findActive by (metis evolves_same prod.collapse)

lemma evolves_route:
  assumes fresh: "ax_hash cx (ax_token cx) \<notin> us_sessionToken ` set (adb_sessions db)"
  shows "evolves db (snd (auth_handle cx wo c db))"
proof -
  have prov: "adb_sessions d = adb_sessions db" if "findOrCreateUser cx wu opts db = (r, d)" for wu opts r d
    using provision_sessions [OF that] by simp
  note start = evolves_start [OF _ fresh]
  show ?thesis
  proof (cases c)
    case (Callback code)
    then show ?thesis
      by (auto simp: auth_handle_def callback_route_def evolves_same prov start split: option.split prod.split sum.split)
  next
    case (Signup email password name organizationName)
    then show ?thesis
      by (auto simp: auth_handle_def signup_route_def evolves_same prov start split: option.split prod.split sum.split)
  next
    case (PasswordLogin email password)
    then show ?thesis
      by (auto simp: auth_handle_def password_route_def evolves_same prov start split: option.split prod.split sum.split)
  next
    case (Me header)
    with evolves_me [of db cx header] show ?thesis
      by (auto simp: auth_handle_def split: prod.split)
  next
    case (PatchMe header name)
    have "evolves db (d\<lparr> adb_users := us \<rparr>)" if "evolves db d" for d us
      by (rule evolves_trans [OF that evolves_same]) simp
    with PatchMe evolves_me [of db cx header] show ?thesis
      by (auto simp: auth_handle_def patch_me_route_def Let_def split: prod.split option.split)
  next
    case (AcceptInvite token password name)
    then show ?thesis
      by (auto simp: auth_handle_def accept_invite_route_def markInviteAccepted_def evolves_same prov
          intro!: start split: option.split prod.split sum.split)
  next
    case (Logout header)
    then show ?thesis
      by (auto simp: auth_handle_def logout_route_def revokeSession_def evolves_same evolves_revoke split: option.split)
  qed
qed

lemma session_step_evolves: "session_step cfg wo s s' \<Longrightarrow> evolves (snd s) (snd s') \<and> fst s \<le> fst s'"
proof (induction rule: session_step.induct)
  case (route now cx db c)
  then show ?case using evolves_route [of cx db wo c] by simp
next
  case (request now now' db req)
  then show ?case using evolves_chain by (metis fst_conv prod.collapse snd_conv)
next
  case (guarded now now' db ttl opts req cs)
  have "evolves db (fst (snd (requireOrgSecurityPolicy (cfg_hash cfg) ttl opts now' req db cs)))"
    by (rule guard_cases [of "cfg_hash cfg" ttl opts now' req db cs])
      (simp_all add: evolves_same evolves_revoke evolves_touch)
  with guarded show ?case by simp
qed (simp add: evolves_same)

lemma auth_step_evolves: "auth_step cfg wo s s' \<Longrightarrow> evolves (snd s) (snd s') \<and> fst s \<le> fst s'"
  by (induction rule: auth_step.induct) (simp_all add: session_step_evolves evolves_scim)

lemma auth_steps_evolve: "(auth_step cfg wo)\<^sup>*\<^sup>* s s' \<Longrightarrow> evolves (snd s) (snd s') \<and> fst s \<le> fst s'"
  by (induction rule: rtranclp_induct) (use auth_step_evolves in \<open>fastforce simp: evolves_same intro: evolves_trans\<close>)+

text \<open>
  C9. A token whose session has been revoked (by a logout, by SCIM, by the security policy) or has expired is
  refused for ever: whatever happens afterwards, no request that carries it reaches an authenticated
  route.
\<close>

theorem dead_token_stays_out:
  assumes steps: "(auth_step cfg wo)\<^sup>*\<^sup>* (now, db) (now', db')"
    and dead: "dead now (cfg_hash cfg raw) db"
    and req: "readSessionToken req = Some raw" "\<not> authenticated req" "now' \<le> t"
    and prod: "env_node (cfg_env cfg) \<noteq> ''development''"
  shows "fst (fst (auth_chain cfg t req db')) \<noteq> Next"
proof
  assume "fst (fst (auth_chain cfg t req db')) = Next"
  then obtain req' db2 where "auth_chain cfg t req db' = ((Next, req'), db2)"
    by (metis prod.collapse)
  from admitted_requests_have_a_session [OF this prod req(2)]
  obtain s u where ad: "admits (cfg_hash cfg) t req db' s u" by blast
  have "dead now' (cfg_hash cfg raw) db'"
    using dead_evolves [OF dead] auth_steps_evolve [OF steps] by simp
  from dead_not_admitted [where hash = "cfg_hash cfg", OF this req(1,3)] ad show False by blast
qed

lemma route_scim: "adb_scim (snd (auth_handle cx wo c db)) = adb_scim db"
proof -
  have prov: "adb_scim d = adb_scim db" if "findOrCreateUser cx wu opts db = (r, d)" for wu opts r d
    using provision_sessions [OF that] by simp
  have me: "adb_scim (snd (me_route cx h db)) = adb_scim db" for h
    using me_db [of cx h db] middleware_frame by metis
  then have me': "adb_scim d = adb_scim db" if "me_route cx h db = (r, d)" for h r d
    using that by (metis snd_conv)
  show ?thesis
    by (cases c)
      (auto simp: auth_handle_def callback_route_def signup_route_def password_route_def patch_me_route_def
        accept_invite_route_def logout_route_def markInviteAccepted_def Let_def prov me'
        split: option.split prod.split sum.split)
qed

lemma session_step_scim: "session_step cfg wo s s' \<Longrightarrow> adb_scim (snd s') = adb_scim (snd s)"
proof (induction rule: session_step.induct)
  case (guarded now now' db ttl opts req cs)
  show ?case by (rule guard_cases [of "cfg_hash cfg" ttl opts now' req db cs]) simp_all
qed (simp_all add: route_scim chain_db middleware_frame)

lemma session_steps_scim: "(session_step cfg wo)\<^sup>*\<^sup>* s s' \<Longrightarrow> adb_scim (snd s') = adb_scim (snd s)"
  by (induction rule: rtranclp_induct) (simp_all add: session_step_scim)

lemma deactivated_blocked:
  assumes "deactivateUser now auth sc db = (True, db1)" and uniq: "unique_key si_userId (adb_scim db)"
    and i: "find_identity (fst auth) sc db = Some i"
  shows "scim_blocked (si_userId i) db1"
proof -
  from i have mem: "i \<in> set (adb_scim db)" by (auto simp: find_identity_def dest: find_SomeD)
  have "List.find (\<lambda>j. si_userId j = si_userId i) (adb_scim db) = Some i"
    by (rule unique_key_find [OF uniq mem])
  then have "List.find (\<lambda>j. si_userId j = si_userId i) (adb_scim db1) =
      Some (i\<lparr> si_active := False, si_lastSyncedAt := Some now \<rparr>)"
    using assms(1) i by (auto simp: deactivateUser_def set_active_def synced_def find_update_many)
  then show ?thesis by (simp add: scim_blocked_def)
qed


text \<open>The user table: rows keep their id and their organization.\<close>

definition user_keys :: "AuthDb \<Rightarrow> (ident \<times> ident) list" where
  "user_keys db = map (\<lambda>u. (u_id u, u_organizationId u)) (adb_users db)"

definition users_kept :: "AuthDb \<Rightarrow> AuthDb \<Rightarrow> bool" where
  "users_kept db db' \<longleftrightarrow>
     (\<exists>new. user_keys db' = user_keys db @ new \<and> fst ` set new \<inter> fst ` set (user_keys db) = {})"

lemma users_kept_same: "user_keys db' = user_keys db \<Longrightarrow> users_kept db db'"
  by (simp add: users_kept_def)

lemma users_kept_new:
  "user_keys db' = user_keys db @ [(i, org)] \<Longrightarrow> i \<notin> u_id ` set (adb_users db) \<Longrightarrow> users_kept db db'"
  by (force simp: users_kept_def user_keys_def)

lemma users_kept_trans: "users_kept a b \<Longrightarrow> users_kept b c \<Longrightarrow> users_kept a c"
proof -
  assume "users_kept a b" "users_kept b c"
  then obtain n1 n2 where "user_keys b = user_keys a @ n1" "fst ` set n1 \<inter> fst ` set (user_keys a) = {}"
    "user_keys c = user_keys b @ n2" "fst ` set n2 \<inter> fst ` set (user_keys b) = {}"
    unfolding users_kept_def by blast
  then have "user_keys c = user_keys a @ n1 @ n2 \<and> fst ` set (n1 @ n2) \<inter> fst ` set (user_keys a) = {}"
    by (auto simp: image_Un)
  then show ?thesis unfolding users_kept_def by blast
qed

lemma user_keys_update:
  "(\<And>u. u_id (f u) = u_id u \<and> u_organizationId (f u) = u_organizationId u) \<Longrightarrow>
     map (\<lambda>u. (u_id u, u_organizationId u)) (map f us) = map (\<lambda>u. (u_id u, u_organizationId u)) us"
  by simp

lemma users_kept_provision:
  assumes "findOrCreateUser cx wu opts db = (r, db')" "ax_userId cx \<notin> u_id ` set (adb_users db)"
  shows "users_kept db db'"
proof -
  have link: "user_keys (db\<lparr> adb_users := map (linkWorkosUser a b c d) (adb_users db) \<rparr>) = user_keys db" for a b c d
    by (simp add: user_keys_def linkWorkosUser_def)
  have new: "users_kept db (db\<lparr> adb_organizations := os, adb_users := adb_users db @ [u] \<rparr>)"
    "users_kept db (db\<lparr> adb_users := adb_users db @ [u] \<rparr>)" if "u_id u = ax_userId cx" for os u
    by (rule users_kept_new; use that assms(2) in \<open>simp add: user_keys_def\<close>)+
  show ?thesis
    using assms(1)
    by (auto simp: findOrCreateUser_def createUserWithOrg_def createUserInOrg_def Let_def users_kept_same link
        intro!: new split: option.splits if_splits)
qed

lemma users_kept_cong: "adb_users d' = adb_users d \<Longrightarrow> users_kept db d' = users_kept db d"
  by (simp add: users_kept_def user_keys_def)

lemma users_kept_simps [simp]:
  "users_kept db db"
  "users_kept db (start_session cx u d) = users_kept db d"
  "users_kept db (markInviteAccepted now i d) = users_kept db d"
  "users_kept db (revokeSession hash now raw d) = users_kept db d"
  "users_kept db (revoke_where now p d) = users_kept db d"
  "users_kept db (touch_session now i d) = users_kept db d"
  "users_kept db (synced now i d) = users_kept db d"
  "users_kept db (set_active now i b d) = users_kept db d"
  by (simp add: users_kept_same)
    (rule users_kept_cong, simp add: markInviteAccepted_def synced_def set_active_def)+

lemma users_kept_rename:
  "users_kept db (d\<lparr> adb_users := update_many p (\<lambda>v. v\<lparr> au_name := n v \<rparr>) (adb_users d) \<rparr>) = users_kept db d"
  by (simp add: users_kept_def user_keys_def update_many_def if_distrib [of u_id] if_distrib [of u_organizationId]
      o_def cong: if_cong)

lemma users_kept_route:
  assumes fresh: "ax_userId cx \<notin> u_id ` set (adb_users db)"
  shows "users_kept db (snd (auth_handle cx wo c db))"
proof -
  have prov: "users_kept db d" if "findOrCreateUser cx wu opts db = (r, d)" for wu opts r d
    by (rule users_kept_provision [OF that fresh])
  have me: "users_kept db d" if "me_route cx h db = (r, d)" for h r d
    using that me_db [of cx h db] middleware_frame(3) users_kept_cong [of d db db] by (metis snd_conv users_kept_simps(1))
  show ?thesis
    by (cases c)
      (auto simp: auth_handle_def callback_route_def signup_route_def password_route_def patch_me_route_def
        accept_invite_route_def logout_route_def Let_def users_kept_rename intro: prov me
        split: option.split prod.split sum.split)
qed

lemma users_kept_session: "session_step cfg wo s s' \<Longrightarrow> users_kept (snd s) (snd s')"
proof (induction rule: session_step.induct)
  case (request now now' db req)
  show ?case using middleware_frame(1) by (simp add: users_kept_same user_keys_def chain_db)
next
  case (guarded now now' db ttl opts req cs)
  show ?case by (rule guard_cases [of "cfg_hash cfg" ttl opts now' req db cs]) simp_all
qed (simp_all add: users_kept_route users_kept_same user_keys_def)

lemma users_kept_scim:
  "i \<notin> u_id ` set (adb_users db) \<Longrightarrow> users_kept db (snd (createOrUpdateUser now i j auth inp db))"
  "users_kept db (snd (patchUser now auth uid active name db))"
  "users_kept db (snd (deactivateUser now auth uid db))"
proof -
  assume fresh: "i \<notin> u_id ` set (adb_users db)"
  have new: "users_kept db (db\<lparr> adb_users := adb_users db @ [u] \<rparr>)"
    "users_kept db (db\<lparr> adb_users := adb_users db @ [u], adb_scim := sc \<rparr>)" if "u_id u = i" for u sc
    by (rule users_kept_new; use that fresh in \<open>simp add: user_keys_def\<close>)+
  have ren: "users_kept db (db\<lparr> adb_users := update_many p (\<lambda>v. v\<lparr> au_name := n v \<rparr>) (adb_users db), adb_scim := sc \<rparr>)" for p n sc
    using users_kept_rename [where db = db and d = db and p = p and n = n] by (simp add: users_kept_def user_keys_def)
  show "users_kept db (snd (createOrUpdateUser now i j auth inp db))"
    by (auto simp: createOrUpdateUser_def Let_def users_kept_rename ren intro!: new split: option.split)
next
  have ren: "users_kept db (d\<lparr> adb_users := update_many p (\<lambda>u. u\<lparr> au_name := n \<rparr>) (adb_users d) \<rparr>) = users_kept db d" for d p n
    using users_kept_rename [where n = "\<lambda>_. n"] .
  show "users_kept db (snd (patchUser now auth uid active name db))"
    by (auto simp: patchUser_def Let_def ren split: option.split)
  show "users_kept db (snd (deactivateUser now auth uid db))"
    by (auto simp: deactivateUser_def split: option.split)
qed

text \<open>
  C10. No step of the authentication system, whatever the identity provider answers, moves a user to another
  organization, removes one, or gives a new one the id of another.
\<close>

theorem users_never_change_organization:
  assumes "(auth_step cfg wo)\<^sup>*\<^sup>* s s'" and "(i, org) \<in> set (user_keys (snd s))" and "unique_key u_id (adb_users (snd s))"
  shows "(i, org) \<in> set (user_keys (snd s')) \<and> (\<forall>org'. (i, org') \<in> set (user_keys (snd s')) \<longrightarrow> org' = org)"
proof -
  have step: "users_kept (snd a) (snd b)" if "auth_step cfg wo a b" for a b
    using that by (cases rule: auth_step.cases) (simp_all add: users_kept_session users_kept_scim)
  have kept: "users_kept (snd s) (snd s')"
    using assms(1) by (induction rule: rtranclp_induct) (auto intro: users_kept_trans step)
  then obtain new where new: "user_keys (snd s') = user_keys (snd s) @ new"
    "fst ` set new \<inter> fst ` set (user_keys (snd s)) = {}" by (auto simp: users_kept_def)
  have "org' = org" if "(i, org') \<in> set (user_keys (snd s'))" for org'
  proof -
    have "(i, org') \<in> set (user_keys (snd s))"
      using that new assms(2) by force
    moreover have "distinct (map fst (user_keys (snd s)))"
      using assms(3) by (simp add: unique_key_def user_keys_def o_def)
    ultimately show ?thesis using assms(2) by (metis eq_key_imp_eq_value)
  qed
  with assms(2) new show ?thesis by auto
qed

section \<open>Invitations, single sign-on and deactivation at the boundary\<close>

lemma provision_org:
  assumes "findOrCreateUser cx wu opts db = (Inr u, db')" "upo_organizationId opts = Some org" "org \<noteq> []"
  shows "u_organizationId u = org" "adb_invites db' = adb_invites db"
  using assms by (auto simp: findOrCreateUser_def createUserInOrg_def linkWorkosUser_def Let_def split: option.splits if_splits)

text \<open>
  An accepted invitation makes a session for a user of the inviting organization and is spent: every
  later attempt answers with a conflict and changes nothing.
\<close>

theorem invitation_used_once:
  assumes acc: "accept_invite_route cx wo token password name db = (Response 201 ''session'', db')"
    and inv: "find_invite token db = Some invite" "inv_organizationId invite \<noteq> []"
  shows "(\<exists>s \<in> set (adb_sessions db'). us_organizationId s = inv_organizationId invite \<and>
           us_sessionToken s = ax_hash cx (ax_token cx)) \<and>
         (8 \<le> length password' \<and> name' \<noteq> Some [] \<longrightarrow>
          accept_invite_route cx' wo' token password' name' db' = (Response 409 ''invite_already_accepted'', db'))"
proof -
  obtain wu user db1 where p: "findOrCreateUser cx wu \<lparr> upo_organizationName = None,
        upo_organizationId = Some (inv_organizationId invite), upo_role = Some (inv_role invite) \<rparr> db = (Inr user, db1)"
    and db': "db' = start_session cx user (markInviteAccepted (ax_now cx) (inv_id invite) db1)"
    using acc inv(1) by (auto simp: accept_invite_route_def split: option.splits if_splits prod.splits sum.splits)
  note org = provision_org [OF p _ inv(2), simplified]
  have session: "\<exists>s \<in> set (adb_sessions db'). us_organizationId s = inv_organizationId invite \<and>
           us_sessionToken s = ax_hash cx (ax_token cx)"
    by (simp add: db' start_session_def createSessionForUser_def Let_def org(1))
  have "List.find (\<lambda>i. inv_token i = token) (adb_invites db) = Some invite" using inv(1) by (simp add: find_invite_def)
  then have "find_invite token db' = Some (invite\<lparr> inv_acceptedAt := Some (ax_now cx) \<rparr>)"
    by (simp add: db' start_session_def createSessionForUser_def Let_def find_invite_def markInviteAccepted_def org(2)
        find_update_many)
  then have "accept_invite_route cx' wo' token password' name' db' = (Response 409 ''invite_already_accepted'', db')"
    if "8 \<le> length password' \<and> name' \<noteq> Some []"
    using that by (simp add: accept_invite_route_def)
  with session show ?thesis by blast
qed

text \<open>
  C40. Single sign-on is enforced by looking the typed address up, while the user is found by the identity
  provider's id: under an address that is not stored (another spelling the provider accepts) the user of
  an organization that enforces single sign-on logs in with a password.
\<close>

theorem sso_enforcement_bypassed:
  assumes user: "findUserByWorkosId (wu_id wu) db = Some u" "findUserByEmail (au_email u) db = Some u"
    and policy: "sso_enforced (readOrgSecurityPolicy (u_organizationId u) db)"
    and other: "findUserByEmail e db = None" "ax_emailOk cx e" "password \<noteq> []"
    and provider: "wo_authenticateWithPassword wo e password = Some wu"
  shows "fst (password_route cx wo (au_email u) password db) \<noteq> Response 200 ''session'' \<and>
         password_route cx wo e password db = (Response 200 ''session'', start_session cx u db)"
  using assms
  by (simp add: password_route_def enforcePasswordAuthAllowed_def findOrCreateUser_def anyone_def)

lemma session_lifetime_pos: "0 < hours (session_lifetime policy)"
  by (auto simp: hours_def session_lifetime_def max_def)

text \<open>
  Login and the profile routes do not ask SCIM: a deactivated user starts a new session and reads the
  profile with it.
\<close>

theorem deactivated_user_served_by_me:
  assumes user: "findUserByWorkosId (wu_id wu) db = Some u" "find_user (u_id u) db = Some u"
    and blocked: "scim_blocked (u_id u) db"
    and provider: "wo_authenticateWithCode wo code = Some wu" "code \<noteq> []" "enforceSsoDomainMapping u db = None"
    and token: "ax_hash cx (ax_token cx) \<notin> us_sessionToken ` set (adb_sessions db)"
      "trim (ax_token cx) = ax_token cx" "ax_token cx \<noteq> []"
  shows "\<exists>db'. callback_route cx wo (Some code) db = (Response 200 ''session'', db') \<and>
           fst (me_route cx (Some (ax_token cx)) db') = (Response 200 ''user'', Some u)"
proof -
  let ?db = "start_session cx u db"
  obtain s where s: "adb_sessions ?db = adb_sessions db @ [s]" "us_userId s = u_id u" "us_revokedAt s = None"
    "us_sessionToken s = ax_hash cx (ax_token cx)" "ax_now cx < us_expiresAt s"
    using session_lifetime_pos by (simp add: start_session_def createSessionForUser_def Let_def)
  have "find_session (ax_hash cx (ax_token cx)) db = None"
    using token(1) by (force simp: find_session_def find_None_iff image_iff)
  with s have "find_session (ax_hash cx (ax_token cx)) ?db = Some s"
    by (simp add: find_session_def find_append)
  with s user(2) token(2,3) have "fst (me_route cx (Some (ax_token cx)) ?db) = (Response 200 ''user'', Some u)"
    by (simp add: me_route_def readHeader_def findActiveSession_def find_user_def)
  moreover have "callback_route cx wo (Some code) db = (Response 200 ''session'', ?db)"
    using user(1) provider by (simp add: callback_route_def findOrCreateUser_def anyone_def)
  ultimately show ?thesis by blast
qed

end
