(* ===== verification/Auth_Witness.thy ===== *)
theory Auth_Witness
  imports Auth_Routes
begin

text \<open>Concrete runs of the authentication system: one organization, one user, one session.\<close>

definition wit_hash :: "string \<Rightarrow> string" where
  "wit_hash s = ''h'' @ s"

definition wit_user :: AuthUser where
  "wit_user = \<lparr> u_id = ''u1'', u_organizationId = ''org'', u_role = MEMBER, au_email = ''ann@x.io'',
     au_name = None, au_workosUserId = Some ''w1'' \<rparr>"

definition wit_session :: UserSession where
  "wit_session = \<lparr> us_id = ''s1'', us_organizationId = ''org'', us_userId = ''u1'', us_sessionToken = ''ht1'',
     us_lastSeenAt = 0, us_revokedAt = None, us_expiresAt = 3600000, us_createdAt = 0 \<rparr>"

definition wit_identity :: ScimIdentity where
  "wit_identity = \<lparr> si_id = ''i1'', si_organizationId = ''org'', si_userId = ''u1'', si_externalId = ''e1'',
     si_active = True, si_lastSyncedAt = None \<rparr>"

definition wit_db :: "SecurityPolicyBoundary \<Rightarrow> AuthDb" where
  "wit_db policy = \<lparr> adb_organizations = [], adb_users = [wit_user], adb_sessions = [wit_session],
     adb_scim = [wit_identity], adb_provisioning = [], adb_policies = [(''org'', policy)],
     adb_allowlist = [], adb_invites = [] \<rparr>"

definition wit_cfg :: AppConfig where
  "wit_cfg = \<lparr> cfg_env = \<lparr> env_node = ''production'', env_devAuthBypass = None, env_devUserId = None \<rparr>,
     cfg_hash = wit_hash, cfg_hmac = wit_hash, cfg_url_origin = (\<lambda>_. None), cfg_allowedOrigins = [] \<rparr>"

definition wit_request :: "string option \<Rightarrow> string option \<Rightarrow> HttpRequest" where
  "wit_request header authorization = \<lparr> req_organizationId = None, req_userId = None, req_userRole = None,
     hq_method = ''GET'', hq_sessionToken = header, hq_authorization = authorization, hq_csrfToken = None,
     hq_origin = None, hq_referer = None, hq_ip = ''10.1.2.3'', hq_mfaVerified = False, hq_amr = [],
     hq_sessionId = None \<rparr>"

definition wit_wo :: WorkOS where
  "wit_wo = \<lparr> wo_authenticateWithCode = (\<lambda>_. None), wo_authenticateWithPassword = (\<lambda>_ _. None),
     wo_createUser = (\<lambda>_ _. None) \<rparr>"

lemmas wit_defs = wit_hash_def wit_user_def wit_session_def wit_identity_def wit_db_def wit_cfg_def
  wit_request_def wit_wo_def

lemma wit_chain:
  "auth_chain wit_cfg 5 (wit_request (Some ''t1'') None) (wit_db p) =
     ((Next, (act_as wit_user (wit_request (Some ''t1'') None))\<lparr> hq_sessionId := Some ''s1'' \<rparr>),
      touch_session 5 ''s1'' (wit_db p))"
  "auth_chain wit_cfg 5 (wit_request None (Some ''Bearer t1'')) (wit_db p) =
     ((Next, (act_as wit_user (wit_request None (Some ''Bearer t1'')))\<lparr> hq_sessionId := Some ''s1'' \<rparr>),
      touch_session 5 ''s1'' (wit_db p))"
  by (simp_all add: auth_chain_def devAuthBypass_def sessionAuth_def wit_defs authenticated_def readSessionToken_def
      readHeader_def bearer_def trim_def js_ws_def find_session_def find_user_def scim_blocked_def Let_def
      csrfProtection_def SAFE_METHODS_def upper_ascii_def requireAuth_def requireOrganization_def act_as_def)

theorem admitted_requests_have_a_session_witness:
  "\<exists>s u. admits wit_hash 5 (wit_request (Some ''t1'') None) (wit_db no_policy) s u"
  using admitted_requests_have_a_session [OF wit_chain(1) [of no_policy]]
  by (simp add: wit_cfg_def wit_request_def authenticated_def) blast

theorem cidr_allowlist_correct_witness:
  "ipMatchesAllowlist (dotted 10 1 2 3) (dotted 10 1 0 0 @ ''/'' @ digits 16) \<and>
   \<not> ipMatchesAllowlist (dotted 10 2 2 3) (dotted 10 1 0 0 @ ''/'' @ digits 16)"
  using cidr_allowlist_correct [of 10 1 2 3 10 1 0 0 16] cidr_allowlist_correct [of 10 2 2 3 10 1 0 0 16]
  by (simp add: address_def)

theorem mfa_policy_locks_out_witness:
  "fst (fst (requireOrgSecurityPolicy wit_hash 60000 standardPolicy 6
      ((act_as wit_user (wit_request (Some ''t1'') None))\<lparr> hq_sessionId := Some ''s1'' \<rparr>)
      (touch_session 5 ''s1'' (wit_db (no_policy\<lparr> enforce_mfa_for_admin_actions := True \<rparr>)))
      \<lparr> pc_policy = [], pc_allowlist = [] \<rparr>)) = Status 403 ''mfa_required''"
  by (rule mfa_policy_locks_out [OF wit_chain(1) [of "no_policy\<lparr> enforce_mfa_for_admin_actions := True \<rparr>"], of "''org''"])
    (simp_all add: wit_defs hasMfa_def act_as_def readOrgSecurityPolicy_def touch_session_def jm_get_def)

theorem bearer_session_refused_witness:
  "fst (fst (requireOrgSecurityPolicy wit_hash 60000 strictPolicy 6
      ((act_as wit_user (wit_request None (Some ''Bearer t1'')))\<lparr> hq_sessionId := Some ''s1'' \<rparr>)
      (touch_session 5 ''s1'' (wit_db (no_policy\<lparr> session_controls_enabled := True \<rparr>)))
      \<lparr> pc_policy = [], pc_allowlist = [] \<rparr>)) = Status 401 ''session_required''"
  by (rule bearer_session_refused [OF wit_chain(2) [of "no_policy\<lparr> session_controls_enabled := True \<rparr>"], of "''org''"])
    (simp_all add: wit_defs act_as_def readOrgSecurityPolicy_def touch_session_def jm_get_def)

definition strict_policy :: SecurityPolicyBoundary where
  "strict_policy = no_policy\<lparr> session_controls_enabled := True, max_session_age_hours := Some 1 \<rparr>"

lemma wit_policy:
  "readOrgSecurityPolicy ''org'' (wit_db p) = p" "session_controls_enabled strict_policy"
  by (simp_all add: readOrgSecurityPolicy_def wit_db_def strict_policy_def)


theorem dead_token_stays_out_witness:
  "fst (fst (auth_chain wit_cfg 9 (wit_request (Some ''t1'') None) (revokeSession wit_hash 5 ''t1'' (wit_db no_policy)))) \<noteq> Next"
proof -
  have dead: "dead 5 (cfg_hash wit_cfg ''t1'') (revokeSession wit_hash 5 ''t1'' (wit_db no_policy))"
    using revoked_dead [of wit_hash "''t1''" "wit_db no_policy" 5] by (simp add: wit_defs)
  have "readSessionToken (wit_request (Some ''t1'') None) = Some ''t1''"
    by (simp add: wit_request_def readSessionToken_def readHeader_def trim_def js_ws_def)
  from dead_token_stays_out [where wo = wit_wo, OF rtranclp.rtrancl_refl dead this] show ?thesis
    by (simp add: wit_cfg_def wit_request_def authenticated_def)
qed

definition wit_ctx :: AuthCtx where
  "wit_ctx = \<lparr> ax_now = 7, ax_hash = wit_hash, ax_userId = ''u2'', ax_orgId = ''org2'', ax_sessionId = ''s2'',
     ax_token = ''t2'', ax_emailOk = (\<lambda>_. True) \<rparr>"

text \<open>After the deactivation somebody else signs in; the deactivated user's token does not help.\<close>

definition bob :: WorkOSUser where
  "bob = \<lparr> wu_id = ''w2'', wu_email = ''bob@y.io'', wu_firstName = Some ''Bob'', wu_lastName = None \<rparr>"

definition bob_wo :: WorkOS where
  "bob_wo = \<lparr> wo_authenticateWithCode = (\<lambda>_. Some bob), wo_authenticateWithPassword = (\<lambda>_ _. Some bob),
     wo_createUser = (\<lambda>_ _. None) \<rparr>"

lemma bob_signs_in:
  assumes "adb_users db = [wit_user]" "us_sessionToken ` set (adb_sessions db) = {''ht1''}"
  shows "session_step wit_cfg bob_wo (3, db) (7, snd (auth_handle wit_ctx bob_wo (Callback (Some ''c'')) db))"
  using session_step.route [of 3 wit_ctx wit_cfg db bob_wo "Callback (Some ''c'')"] assms
  by (simp add: wit_ctx_def wit_defs)

theorem users_never_change_organization_witness:
  "(''u1'', ''org'') \<in> set (user_keys (snd (auth_handle wit_ctx bob_wo (Callback (Some ''c'')) (wit_db no_policy))))"
proof -
  have "auth_step wit_cfg bob_wo (3, wit_db no_policy)
      (7, snd (auth_handle wit_ctx bob_wo (Callback (Some ''c'')) (wit_db no_policy)))"
    by (intro auth_step.session bob_signs_in) (simp_all add: wit_defs)
  from users_never_change_organization [OF r_into_rtranclp [of "auth_step wit_cfg bob_wo", OF this], of "''u1''" "''org''"]
  show ?thesis by (simp add: user_keys_def wit_defs unique_key_def)
qed

definition wit_deactivated :: AuthDb where
  "wit_deactivated = snd (deactivateUser 3 (''org'', ''p'') ''u1'' (wit_db no_policy))"

definition wit_after :: AuthDb where
  "wit_after = snd (auth_handle wit_ctx bob_wo (Callback (Some ''c'')) wit_deactivated)"

lemmas wit_after_defs = wit_after_def wit_deactivated_def deactivateUser_def find_identity_def synced_def
  revoke_where_def set_active_def auth_handle_def callback_route_def findOrCreateUser_def findUserByWorkosId_def
  findUserByEmail_def createUserWithOrg_def start_session_def createSessionForUser_def enforceSsoDomainMapping_def
  readOrgSecurityPolicy_def anyone_def bob_wo_def bob_def wit_ctx_def no_policy_def

lemma bob_admitted:
  "\<exists>req' db2. auth_chain wit_cfg 9 (wit_request (Some ''t2'') None) wit_after = ((Next, req'), db2)"
  by (simp add: wit_after_defs wit_defs auth_chain_def devAuthBypass_def sessionAuth_def authenticated_def
      readSessionToken_def readHeader_def trim_def js_ws_def find_session_def find_user_def scim_blocked_def Let_def
      csrfProtection_def SAFE_METHODS_def upper_ascii_def requireAuth_def requireOrganization_def act_as_def
      session_lifetime_def hours_def)


theorem sso_enforcement_bypassed_witness:
  "password_route wit_ctx (wit_wo\<lparr> wo_authenticateWithPassword := (\<lambda>_ _. Some (bob\<lparr> wu_id := ''w1'' \<rparr>)) \<rparr>)
     ''Ann@x.io'' ''secret'' (wit_db (no_policy\<lparr> sso_enforced := True \<rparr>)) =
   (Response 200 ''session'', start_session wit_ctx wit_user (wit_db (no_policy\<lparr> sso_enforced := True \<rparr>)))"
  by (rule conjunct2 [OF sso_enforcement_bypassed [of "bob\<lparr> wu_id := ''w1'' \<rparr>"]])
    (simp_all add: findUserByWorkosId_def findUserByEmail_def wit_defs bob_def wit_ctx_def readOrgSecurityPolicy_def)

theorem deactivated_user_served_by_me_witness:
  "\<exists>db'. callback_route wit_ctx (bob_wo\<lparr> wo_authenticateWithCode := (\<lambda>_. Some (bob\<lparr> wu_id := ''w1'' \<rparr>)) \<rparr>)
       (Some ''c'') wit_deactivated = (Response 200 ''session'', db') \<and>
     fst (me_route wit_ctx (Some ''t2'') db') = (Response 200 ''user'', Some wit_user)"
  using deactivated_user_served_by_me [of "bob\<lparr> wu_id := ''w1'' \<rparr>" wit_deactivated wit_user
      "bob_wo\<lparr> wo_authenticateWithCode := (\<lambda>_. Some (bob\<lparr> wu_id := ''w1'' \<rparr>)) \<rparr>" "''c''" wit_ctx]
  by (simp add: wit_after_defs wit_defs scim_blocked_def find_user_def trim_def js_ws_def)

definition wit_invite :: OrgInvite where
  "wit_invite = \<lparr> inv_id = ''v1'', inv_organizationId = ''org'', inv_email = ''bob@y.io'', inv_role = MEMBER,
     inv_token = ''tok'', inv_expiresAt = 100, inv_acceptedAt = None \<rparr>"

definition wit_invited :: AuthDb where
  "wit_invited = (wit_db no_policy)\<lparr> adb_invites := [wit_invite],
     adb_organizations := [\<lparr> org_id = ''org'', org_name = ''X'', org_trialEndsAt = None \<rparr>] \<rparr>"

theorem invitation_used_once_witness:
  "\<exists>db'. accept_invite_route wit_ctx bob_wo ''tok'' ''password'' None wit_invited = (Response 201 ''session'', db') \<and>
     accept_invite_route wit_ctx bob_wo ''tok'' ''password'' None db' = (Response 409 ''invite_already_accepted'', db')"
proof -
  obtain db' where acc: "accept_invite_route wit_ctx bob_wo ''tok'' ''password'' None wit_invited = (Response 201 ''session'', db')"
    by (simp add: accept_invite_route_def find_invite_def wit_invited_def wit_invite_def wit_defs wit_after_defs
        enforcePasswordAuthAllowed_def createUserInOrg_def Let_def)
  from invitation_used_once [OF acc, of wit_invite "''password''" None wit_ctx bob_wo] acc show ?thesis
    by (simp add: find_invite_def wit_invited_def wit_invite_def)
qed

end
