(* ===== verification/Js_Regex.thy ===== *)
theory Js_Regex
  imports Company_Text "HOL-Library.Monad_Syntax"
begin

text \<open>
  JavaScript's regular expressions, as far as the program uses them: the backtracking matcher of
  ECMAScript (\<open>RegExp\<close> without the flags \<open>u\<close>, \<open>m\<close>, \<open>s\<close>, \<open>y\<close>), \<open>exec\<close>, the loop over \<open>exec\<close> with the flag
  \<open>g\<close>, \<open>String.match\<close> and \<open>String.replace\<close> with their \<open>$\<close> templates. The detectors of personal data,
  the chunker and the company scrubber are built from these.

  A state of the matcher is the text read so far (reversed), the text ahead and the captures. The
  matcher returns all ways to match, in the order backtracking tries them; a match is the first one.
  \<open>reps\<close> takes fuel: one more than the iterations that are required and the characters ahead is always
  enough (\<open>reps_fuel\<close>), because an optional iteration that consumes nothing is abandoned.
\<close>

section \<open>Patterns\<close>

text \<open>A class of characters covers literals, \<open>[...]\<close> and escapes; quantifiers are greedy.\<close>

datatype rx =
    Eps
  | CharSet "char \<Rightarrow> bool"
  | Seq rx rx
  | Alt rx rx
  | Rep nat "nat option" rx
  | Group nat rx
  | Backref nat
  | WordB
  | NotAhead rx

type_synonym captures = "(nat \<times> string) list"
type_synonym rx_state = "string \<times> string \<times> captures"

text \<open>
  \<open>Canonicalize\<close> under the flag \<open>i\<close> is \<open>toUpperCase\<close>; two code units agree when their lower-case
  forms do. A class under \<open>i\<close> holds of a character if it holds of one that agrees with it.
\<close>

definition upper_char :: "char \<Rightarrow> char" where
  "upper_char c =
     (let n = (of_char c :: nat) in
      if 97 \<le> n \<and> n \<le> 122 \<or> 224 \<le> n \<and> n \<le> 254 \<and> n \<noteq> 247 then char_of (n - 32) else c)"

definition class_ok :: "bool \<Rightarrow> (char \<Rightarrow> bool) \<Rightarrow> char \<Rightarrow> bool" where
  "class_ok ci P c = (if ci then P c \<or> P (upper_char c) \<or> P (lower_char c) else P c)"

definition same_text :: "bool \<Rightarrow> string \<Rightarrow> string \<Rightarrow> bool" where
  "same_text ci a b = (if ci then map lower_char a = map lower_char b else a = b)"

primrec groups :: "rx \<Rightarrow> nat list" where
  "groups Eps = []"
| "groups (CharSet P) = []"
| "groups (Seq a b) = groups a @ groups b"
| "groups (Alt a b) = groups a @ groups b"
| "groups (Rep mn mx a) = groups a"
| "groups (Group n a) = n # groups a"
| "groups (Backref n) = []"
| "groups WordB = []"
| "groups (NotAhead a) = groups a"

section \<open>The matcher\<close>

text \<open>\<open>RepeatMatcher\<close>: at the bound stop; before the minimum go on; after it prefer another iteration,
  unless it consumes nothing, to stopping.\<close>

fun reps :: "nat \<Rightarrow> (rx_state \<Rightarrow> rx_state list) \<Rightarrow> nat \<Rightarrow> nat option \<Rightarrow> rx_state \<Rightarrow> rx_state list" where
  "reps 0 f mn mx st = []"
| "reps (Suc n) f mn mx st =
     (if mx = Some 0 then [st]
      else concat (map (\<lambda>st'. if mn = 0 \<and> length (fst (snd st')) = length (fst (snd st)) then []
                              else reps n f (mn - 1) (map_option (\<lambda>x. x - 1) mx) st') (f st)) @
           (if mn = 0 then [st] else []))"

definition clear_caps :: "nat list \<Rightarrow> rx_state \<Rightarrow> rx_state" where
  "clear_caps gs st = (case st of (l, r, k) \<Rightarrow> (l, r, filter (\<lambda>e. fst e \<notin> set gs) k))"

fun rx_match :: "bool \<Rightarrow> rx \<Rightarrow> rx_state \<Rightarrow> rx_state list" where
  "rx_match ci Eps st = [st]"
| "rx_match ci (CharSet P) (l, r, k) =
     (case r of [] \<Rightarrow> [] | c # r' \<Rightarrow> if class_ok ci P c then [(c # l, r', k)] else [])"
| "rx_match ci (Seq a b) st = concat (map (rx_match ci b) (rx_match ci a st))"
| "rx_match ci (Alt a b) st = rx_match ci a st @ rx_match ci b st"
| "rx_match ci (Rep mn mx a) st =
     reps (Suc (mn + length (fst (snd st)))) (\<lambda>st'. rx_match ci a (clear_caps (groups a) st')) mn mx st"
| "rx_match ci (Group n a) st =
     map (\<lambda>(l', r', k'). (l', r', (n, take (length (fst (snd st)) - length r') (fst (snd st))) # k'))
       (rx_match ci a st)"
| "rx_match ci (Backref n) (l, r, k) =
     (case map_of k n of
        None \<Rightarrow> [(l, r, k)]
      | Some w \<Rightarrow>
          if length w \<le> length r \<and> same_text ci w (take (length w) r)
          then [(rev (take (length w) r) @ l, drop (length w) r, k)] else [])"
| "rx_match ci WordB (l, r, k) = (if boundary (first_char l) (first_char r) then [(l, r, k)] else [])"
| "rx_match ci (NotAhead a) st = (if rx_match ci a st = [] then [st] else [])"

text \<open>What a match consumes stands at the head of the text ahead.\<close>

definition advances :: "rx_state \<Rightarrow> rx_state \<Rightarrow> bool" where
  "advances st st' \<longleftrightarrow>
     (\<exists>w. fst (snd st) = w @ fst (snd st') \<and> fst st' = rev w @ fst st)"

lemma advances_refl [simp]: "advances st st"
  by (simp add: advances_def)

lemma advances_trans: "advances a b \<Longrightarrow> advances b c \<Longrightarrow> advances a c"
  unfolding advances_def by auto

lemma advances_clear [simp]: "advances (clear_caps gs st) st' = advances st st'"
  by (cases st) (simp add: clear_caps_def advances_def)

lemma advances_length: "advances st st' \<Longrightarrow> length (fst (snd st')) \<le> length (fst (snd st))"
  by (auto simp: advances_def)

lemma reps_advances:
  assumes "\<And>a b. b \<in> set (f a) \<Longrightarrow> advances a b"
  shows "st' \<in> set (reps n f mn mx st) \<Longrightarrow> advances st st'"
proof (induction n arbitrary: mn mx st)
  case (Suc n)
  then show ?case
    by (auto split: if_splits dest!: assms Suc.IH intro: advances_trans)
qed simp

lemma rx_match_advances: "st' \<in> set (rx_match ci r st) \<Longrightarrow> advances st st'"
proof (induction ci r st arbitrary: st' rule: rx_match.induct)
  case (3 ci a b st)
  then obtain st1 where "st1 \<in> set (rx_match ci a st)" "st' \<in> set (rx_match ci b st1)" by auto
  with 3(1,2) show ?case by (meson advances_trans)
next
  case (5 ci mn mx a st)
  have "\<And>a' b. b \<in> set (rx_match ci a (clear_caps (groups a) a')) \<Longrightarrow> advances a' b"
    using 5(1) advances_clear by blast
  with 5(2) show ?case using reps_advances by (metis (no_types, lifting) rx_match.simps(5))
next
  case (6 ci n a st)
  then show ?case by (fastforce simp: advances_def)
next
  case (7 ci n l r k)
  then show ?case
    by (auto simp: advances_def split: option.splits if_splits intro!: exI [of _ "take (length _) r"])
next
  case (9 ci a st)
  then show ?case by (auto split: if_splits)
qed (auto simp: advances_def split: list.splits if_splits)

lemma rx_match_Seq:
  "st' \<in> set (rx_match ci (Seq a b) st) \<longleftrightarrow> (\<exists>st1 \<in> set (rx_match ci a st). st' \<in> set (rx_match ci b st1))"
  by simp

text \<open>More fuel changes nothing.\<close>

lemma reps_fuel:
  assumes adv: "\<And>a b. b \<in> set (f a) \<Longrightarrow> advances a b"
  shows "mn + length (fst (snd st)) < n \<Longrightarrow> mn + length (fst (snd st)) < n' \<Longrightarrow> reps n f mn mx st = reps n' f mn mx st"
proof (induction n arbitrary: n' mn mx st)
  case (Suc n)
  then obtain m where n': "n' = Suc m" by (cases n') auto
  have "reps n f (mn - 1) mx' st' = reps m f (mn - 1) mx' st'"
    if "st' \<in> set (f st)" "\<not> (mn = 0 \<and> length (fst (snd st')) = length (fst (snd st)))" for st' mx'
  proof -
    have "length (fst (snd st')) \<le> length (fst (snd st))" using adv [OF that(1)] by (rule advances_length)
    with that(2) Suc.prems n' show ?thesis by (intro Suc.IH) auto
  qed
  then show ?case unfolding n' reps.simps by (simp cong: map_cong) (auto intro!: arg_cong [where f = concat] map_cong)
qed simp

text \<open>The least number of characters a match consumes.\<close>

primrec min_len :: "rx \<Rightarrow> nat" where
  "min_len Eps = 0"
| "min_len (CharSet P) = 1"
| "min_len (Seq a b) = min_len a + min_len b"
| "min_len (Alt a b) = min (min_len a) (min_len b)"
| "min_len (Rep mn mx a) = (case mx of None \<Rightarrow> mn | Some x \<Rightarrow> min mn x) * min_len a"
| "min_len (Group n a) = min_len a"
| "min_len (Backref n) = 0"
| "min_len WordB = 0"
| "min_len (NotAhead a) = 0"

lemma reps_min_len:
  assumes f: "\<And>a b. b \<in> set (f a) \<Longrightarrow> length (fst (snd b)) + c \<le> length (fst (snd a))"
  shows "st' \<in> set (reps n f mn mx st) \<Longrightarrow>
    length (fst (snd st')) + (case mx of None \<Rightarrow> mn | Some x \<Rightarrow> min mn x) * c \<le> length (fst (snd st))"
proof (induction n arbitrary: mn mx st)
  case (Suc n)
  show ?case
  proof (cases "mx = Some 0 \<or> (mn = 0 \<and> st' = st)")
    case True
    with Suc.prems show ?thesis by (cases mx) (auto split: if_splits)
  next
    case False
    with Suc.prems obtain st1 where s: "st1 \<in> set (f st)"
      "st' \<in> set (reps n f (mn - 1) (map_option (\<lambda>x. x - 1) mx) st1)"
      by (auto split: if_splits)
    have "(case mx of None \<Rightarrow> mn | Some x \<Rightarrow> min mn x) \<le>
        Suc (case map_option (\<lambda>x. x - 1) mx of None \<Rightarrow> mn - 1 | Some x \<Rightarrow> min (mn - 1) x)"
      using False by (cases mx) auto
    then have "(case mx of None \<Rightarrow> mn | Some x \<Rightarrow> min mn x) * c \<le>
        c + (case map_option (\<lambda>x. x - 1) mx of None \<Rightarrow> mn - 1 | Some x \<Rightarrow> min (mn - 1) x) * c"
      by (metis mult_Suc mult_le_mono1)
    with f [OF s(1)] Suc.IH [OF s(2)] show ?thesis by linarith
  qed
qed simp

lemma rx_match_min_len:
  "st' \<in> set (rx_match ci r st) \<Longrightarrow> length (fst (snd st')) + min_len r \<le> length (fst (snd st))"
proof (induction ci r st arbitrary: st' rule: rx_match.induct)
  case (3 ci a b st)
  then obtain st1 where st1: "st1 \<in> set (rx_match ci a st)" "st' \<in> set (rx_match ci b st1)" by auto
  from 3(1) [OF st1(1)] 3(2) [OF st1] show ?case by simp
next
  case (4 ci a b st)
  then show ?case by fastforce
next
  case (5 ci mn mx a st)
  have "length (fst (snd b)) + min_len a \<le> length (fst (snd a'))"
    if "b \<in> set (rx_match ci a (clear_caps (groups a) a'))" for a' b
    using 5(1) [OF that] by (cases a') (simp add: clear_caps_def)
  from reps_min_len [where f = "\<lambda>st'. rx_match ci a (clear_caps (groups a) st')", OF this] 5(2)
  show ?case by (simp only: rx_match.simps min_len.simps)
qed (auto split: list.splits if_splits option.splits)

text \<open>What a quantified class consumes.\<close>

lemma reps_chars:
  assumes f: "\<And>a b. b \<in> set (f a) \<Longrightarrow> \<exists>c. fst (snd a) = c # fst (snd b) \<and> Q c"
  shows "st' \<in> set (reps n f mn mx st) \<Longrightarrow>
    \<exists>w. fst (snd st) = w @ fst (snd st') \<and> (\<forall>c \<in> set w. Q c) \<and> (case mx of None \<Rightarrow> mn | Some x \<Rightarrow> min mn x) \<le> length w"
proof (induction n arbitrary: mn mx st)
  case (Suc n)
  show ?case
  proof (cases "mx = Some 0 \<or> (mn = 0 \<and> st' = st)")
    case True
    with Suc.prems show ?thesis by (cases mx) (auto split: if_splits)
  next
    case False
    with Suc.prems obtain st1 where s: "st1 \<in> set (f st)"
      "st' \<in> set (reps n f (mn - 1) (map_option (\<lambda>x. x - 1) mx) st1)"
      by (auto split: if_splits)
    from f [OF s(1)] obtain c where c: "fst (snd st) = c # fst (snd st1)" "Q c" by blast
    from Suc.IH [OF s(2)] obtain w where w: "fst (snd st1) = w @ fst (snd st')" "\<forall>c \<in> set w. Q c"
      "(case map_option (\<lambda>x. x - 1) mx of None \<Rightarrow> mn - 1 | Some x \<Rightarrow> min (mn - 1) x) \<le> length w" by blast
    have "(case mx of None \<Rightarrow> mn | Some x \<Rightarrow> min mn x) \<le> length (c # w)"
      using w(3) False by (cases mx) auto
    with c w(1,2) show ?thesis by (intro exI [of _ "c # w"]) simp
  qed
qed simp

lemma rx_match_chars:
  assumes "st' \<in> set (rx_match ci (Rep mn mx (CharSet P)) st)"
  shows "\<exists>w. fst (snd st) = w @ fst (snd st') \<and> (\<forall>c \<in> set w. class_ok ci P c) \<and>
    (case mx of None \<Rightarrow> mn | Some x \<Rightarrow> min mn x) \<le> length w"
proof -
  have "\<exists>c. fst (snd a) = c # fst (snd b) \<and> class_ok ci P c"
    if "b \<in> set (rx_match ci (CharSet P) (clear_caps (groups (CharSet P)) a))" for a b
    using that by (cases a) (auto simp: clear_caps_def split: list.splits if_splits)
  from reps_chars [where f = "\<lambda>st'. rx_match ci (CharSet P) (clear_caps (groups (CharSet P)) st')", OF this] assms
  show ?thesis by (simp only: rx_match.simps)
qed

section \<open>Searching\<close>

text \<open>A match: where it starts, its text, its captures, and the text behind and ahead of its end.\<close>

record found =
  mt_index :: nat
  mt_text :: string
  mt_caps :: captures
  mt_left :: string
  mt_rest :: string

definition match_here :: "bool \<Rightarrow> rx \<Rightarrow> string \<Rightarrow> string \<Rightarrow> found option" where
  "match_here ci r l s =
     (case rx_match ci r (l, s, []) of
        [] \<Rightarrow> None
      | (l', s', k) # _ \<Rightarrow>
          Some \<lparr> mt_index = length l, mt_text = take (length s - length s') s, mt_caps = k, mt_left = l', mt_rest = s' \<rparr>)"

text \<open>\<open>RegExpBuiltinExec\<close>: the first position from the present one at which the pattern matches.\<close>

fun exec :: "bool \<Rightarrow> rx \<Rightarrow> string \<Rightarrow> string \<Rightarrow> found option" where
  "exec ci r l [] = match_here ci r l []"
| "exec ci r l (c # s) =
     (case match_here ci r l (c # s) of Some m \<Rightarrow> Some m | None \<Rightarrow> exec ci r (c # l) s)"

definition rx_test :: "bool \<Rightarrow> rx \<Rightarrow> string \<Rightarrow> bool" where
  "rx_test ci r text = (exec ci r [] text \<noteq> None)"

text \<open>
  \<open>while ((m = regex.exec(text)) !== null)\<close> with the flag \<open>g\<close>: the search goes on at the end of the
  last match, hence never ends if that is empty.
\<close>

partial_function (option) exec_loop :: "bool \<Rightarrow> rx \<Rightarrow> string \<Rightarrow> string \<Rightarrow> found list option" where
  "exec_loop ci r l s =
     (case exec ci r l s of
        None \<Rightarrow> Some []
      | Some m \<Rightarrow> Option.bind (exec_loop ci r (mt_left m) (mt_rest m)) (\<lambda>ms. Some (m # ms)))"

declare exec_loop.simps [code]

lemma match_here_in:
  "match_here ci r l s = Some m \<Longrightarrow> (mt_left m, mt_rest m, mt_caps m) \<in> set (rx_match ci r (l, s, []))"
  by (auto simp: match_here_def split: list.splits)

lemma match_here_none: "match_here ci r l s = None \<longleftrightarrow> rx_match ci r (l, s, []) = []"
  by (auto simp: match_here_def split: list.splits)

lemma match_here_Some:
  assumes "match_here ci r l s = Some m"
  shows "s = mt_text m @ mt_rest m" "mt_index m = length l" "mt_left m = rev (mt_text m) @ l"
    "min_len r \<le> length (mt_text m)"
proof -
  from assms obtain l' s' k where h: "(l', s', k) \<in> set (rx_match ci r (l, s, []))"
    and m: "m = \<lparr> mt_index = length l, mt_text = take (length s - length s') s, mt_caps = k, mt_left = l', mt_rest = s' \<rparr>"
    by (fastforce simp: match_here_def split: list.splits)
  from rx_match_advances [OF h] obtain w where "s = w @ s'" "l' = rev w @ l" by (auto simp: advances_def)
  moreover have "length s' + min_len r \<le> length s" using rx_match_min_len [OF h] by simp
  ultimately show "s = mt_text m @ mt_rest m" "mt_index m = length l" "mt_left m = rev (mt_text m) @ l"
    "min_len r \<le> length (mt_text m)"
    by (simp_all add: m)
qed

lemma exec_at:
  assumes "exec ci r l s = Some m"
  obtains u where "s = u @ mt_text m @ mt_rest m" "mt_index m = length l + length u"
    "mt_left m = rev (mt_text m) @ rev u @ l" "match_here ci r (rev u @ l) (mt_text m @ mt_rest m) = Some m"
    "\<And>a b. u = a @ b \<Longrightarrow> b \<noteq> [] \<Longrightarrow> match_here ci r (rev a @ l) (b @ mt_text m @ mt_rest m) = None"
  using assms
proof (induction s arbitrary: l thesis)
  case Nil
  then have h: "match_here ci r l [] = Some m" by simp
  from match_here_Some [OF this] show ?case by (intro Nil(1) [of "[]"]) (use h in simp_all)
next
  case (Cons c s)
  show ?case
  proof (cases "match_here ci r l (c # s)")
    case (Some m')
    with Cons(3) have h: "match_here ci r l (c # s) = Some m" by simp
    note * = match_here_Some [OF this]
    show ?thesis by (rule Cons(2) [of "[]"]) (use * h in \<open>simp_all flip: *(1)\<close>)
  next
    case None
    with Cons(3) have "exec ci r (c # l) s = Some m" by simp
    then obtain u where u: "s = u @ mt_text m @ mt_rest m" "mt_index m = length (c # l) + length u"
      "mt_left m = rev (mt_text m) @ rev u @ c # l" "match_here ci r (rev u @ c # l) (mt_text m @ mt_rest m) = Some m"
      "\<And>a b. u = a @ b \<Longrightarrow> b \<noteq> [] \<Longrightarrow> match_here ci r (rev a @ c # l) (b @ mt_text m @ mt_rest m) = None"
      using Cons(1) by (metis (no_types, lifting))
    show ?thesis
    proof (rule Cons(2) [of "c # u"])
      fix a b assume ab: "c # u = a @ b" "b \<noteq> []"
      show "match_here ci r (rev a @ l) (b @ mt_text m @ mt_rest m) = None"
      proof (cases a)
        case Nil
        with ab(1) None u(1) show ?thesis by (metis append.left_neutral append_Cons rev.simps(1))
      next
        case (Cons d a')
        with ab u(5) [of a' b] show ?thesis by simp
      qed
    qed (use u in simp_all)
  qed
qed

lemma exec_None: "exec ci r l s = None \<longleftrightarrow> (\<forall>a b. s = a @ b \<longrightarrow> match_here ci r (rev a @ l) b = None)"
proof (induction s arbitrary: l)
  case (Cons c s)
  have "(\<forall>a b. c # s = a @ b \<longrightarrow> P a b) \<longleftrightarrow> P [] (c # s) \<and> (\<forall>a b. s = a @ b \<longrightarrow> P (c # a) b)" for P
    by (auto simp: Cons_eq_append_conv)
  from this [of "\<lambda>a b. match_here ci r (rev a @ l) b = None"] Cons show ?case
    by (simp split: option.split)
qed simp

lemma exec_length:
  assumes "exec ci r l s = Some m"
  shows "length (mt_rest m) + length (mt_text m) \<le> length s" "min_len r \<le> length (mt_text m)"
  using assms by (auto elim!: exec_at dest: match_here_Some(4))

text \<open>A loop over a pattern that cannot match the empty text ends.\<close>

lemma exec_loop_returns:
  assumes "0 < min_len r"
  shows "\<exists>ms. exec_loop ci r l s = Some ms"
proof (induction "length s" arbitrary: l s rule: less_induct)
  case less
  show ?case
  proof (cases "exec ci r l s")
    case None
    then show ?thesis by (simp add: exec_loop.simps)
  next
    case (Some m)
    with assms exec_length [OF Some] have "length (mt_rest m) < length s" by linarith
    from less [OF this] obtain ms where "exec_loop ci r (mt_left m) (mt_rest m) = Some ms" by blast
    with Some show ?thesis by (simp add: exec_loop.simps [of ci r l s])
  qed
qed

text \<open>The matches of a loop lie in the text, each with its own text, and do not overlap.\<close>

definition slice :: "nat \<Rightarrow> nat \<Rightarrow> string \<Rightarrow> string" where
  "slice i j s = drop i (take j s)"

lemma slice_append: "slice (length u) (length u + length w) (u @ w @ v) = w"
  by (simp add: slice_def)

lemma exec_loop_found:
  assumes "exec_loop ci r l s = Some ms" "m \<in> set ms"
  shows "length l \<le> mt_index m \<and> mt_index m + length (mt_text m) \<le> length l + length s \<and>
    slice (mt_index m) (mt_index m + length (mt_text m)) (rev l @ s) = mt_text m \<and> min_len r \<le> length (mt_text m)"
  using assms
proof (induction ms arbitrary: l s)
  case (Cons m' ms)
  from Cons.prems(1) have e: "exec ci r l s = Some m'" and rest: "exec_loop ci r (mt_left m') (mt_rest m') = Some ms"
    by (auto simp: exec_loop.simps [of ci r l s] bind_eq_Some_conv split: option.splits)
  from e obtain u where u: "s = u @ mt_text m' @ mt_rest m'" "mt_index m' = length l + length u"
    "mt_left m' = rev (mt_text m') @ rev u @ l"
    by (rule exec_at)
  show ?case
  proof (cases "m \<in> set ms")
    case True
    with Cons.IH [OF rest] u show ?thesis by (simp add: ac_simps)
  next
    case False
    with Cons.prems(2) have "m = m'" by simp
    with u exec_length(2) [OF e] slice_append [of "rev l @ u" "mt_text m'" "mt_rest m'"] show ?thesis by simp
  qed
qed simp

lemma exec_loop_match:
  assumes "exec_loop ci r l s = Some ms" "m \<in> set ms"
  shows "\<exists>l' s'. match_here ci r l' s' = Some m"
  using assms
proof (induction ms arbitrary: l s)
  case (Cons m' ms)
  from Cons.prems(1) have e: "exec ci r l s = Some m'" and rest: "exec_loop ci r (mt_left m') (mt_rest m') = Some ms"
    by (auto simp: exec_loop.simps [of ci r l s] bind_eq_Some_conv split: option.splits)
  from e obtain u where "match_here ci r (rev u @ l) (mt_text m' @ mt_rest m') = Some m'" by (metis exec_at)
  with Cons.IH [OF rest] Cons.prems(2) show ?case by auto
qed simp

end
