(* ===== verification/Regex_Replace.thy ===== *)
theory Regex_Replace
  imports Js_Regex
begin

text \<open>
  \<open>String.match\<close> and \<open>String.replace\<close> with a global regular expression, replacement templates, literal
  patterns (\<open>new RegExp(escapeRegex(s))\<close>), and the words of a text: its maximal runs of word characters. The main lemmas say which
  words a replacement can leave or make when the pattern matches from one word boundary to another.
\<close>

section \<open>Global matching and replacement\<close>

text \<open>The global methods step over a character after an empty match.\<close>

function match_all :: "bool \<Rightarrow> rx \<Rightarrow> string \<Rightarrow> string \<Rightarrow> string list" where
  "match_all ci r l s =
     (case exec ci r l s of
        None \<Rightarrow> []
      | Some m \<Rightarrow>
          if mt_text m = []
          then (case mt_rest m of [] \<Rightarrow> [[]] | c # s' \<Rightarrow> [] # match_all ci r (c # mt_left m) s')
          else mt_text m # match_all ci r (mt_left m) (mt_rest m))"
  by pat_completeness auto

termination
proof (relation "measure (\<lambda>(ci, r, l, s). length s)")
  show "((ci, r, c # mt_left m, s'), ci, r, l, s) \<in> measure (\<lambda>(ci, r, l, s). length s)"
    if "exec ci r l s = Some m" "mt_rest m = c # s'" for ci r l s m c s'
    using exec_length(1) [OF that(1)] that(2) by simp
  show "((ci, r, mt_left m, mt_rest m), ci, r, l, s) \<in> measure (\<lambda>(ci, r, l, s). length s)"
    if "exec ci r l s = Some m" "mt_text m \<noteq> []" for ci r l s m
  proof -
    from that(2) have "0 < length (mt_text m)" by simp
    with exec_length(1) [OF that(1)] have "length (mt_rest m) < length s" by linarith
    then show ?thesis by simp
  qed
qed simp

text \<open>
  \<open>GetSubstitution\<close> for a pattern without captures: \<open>$$\<close> is a dollar, \<open>$&\<close> the match, the dollar with a
  backquote or an apostrophe what precedes or follows it.
\<close>

fun expand :: "string \<Rightarrow> string \<Rightarrow> string \<Rightarrow> string \<Rightarrow> string" where
  "expand pre w post (c # d # t) =
     (if c \<noteq> CHR ''$'' then c # expand pre w post (d # t)
      else if d = CHR ''$'' then CHR ''$'' # expand pre w post t
      else if d = CHR ''&'' then w @ expand pre w post t
      else if d = CHR 0x60 then pre @ expand pre w post t
      else if d = CHR 0x27 then post @ expand pre w post t
      else CHR ''$'' # expand pre w post (d # t))"
| "expand pre w post t = t"

function replace_all :: "bool \<Rightarrow> rx \<Rightarrow> string \<Rightarrow> string \<Rightarrow> string \<Rightarrow> string" where
  "replace_all ci r tmpl l s =
     (case exec ci r l s of
        None \<Rightarrow> s
      | Some m \<Rightarrow>
          let gap = take (mt_index m - length l) s;
              new = expand (rev l @ gap) (mt_text m) (mt_rest m) tmpl in
          if mt_text m = []
          then (case mt_rest m of
                  [] \<Rightarrow> gap @ new
                | c # s' \<Rightarrow> gap @ new @ [c] @ replace_all ci r tmpl (c # mt_left m) s')
          else gap @ new @ replace_all ci r tmpl (mt_left m) (mt_rest m))"
  by pat_completeness auto

termination
proof (relation "measure (\<lambda>(ci, r, tmpl, l, s). length s)")
  show "((ci, r, tmpl, c # mt_left m, s'), ci, r, tmpl, l, s) \<in> measure (\<lambda>(ci, r, tmpl, l, s). length s)"
    if "exec ci r l s = Some m" "mt_rest m = c # s'" for ci r tmpl l s m c s'
    using exec_length(1) [OF that(1)] that(2) by simp
  show "((ci, r, tmpl, mt_left m, mt_rest m), ci, r, tmpl, l, s) \<in> measure (\<lambda>(ci, r, tmpl, l, s). length s)"
    if "exec ci r l s = Some m" "mt_text m \<noteq> []" for ci r tmpl l s m
  proof -
    from that(2) have "0 < length (mt_text m)" by simp
    with exec_length(1) [OF that(1)] have "length (mt_rest m) < length s" by linarith
    then show ?thesis by simp
  qed
qed simp

declare match_all.simps [simp del]
declare replace_all.simps [simp del]

text \<open>\<open>text.match(r)\<close> is \<open>null\<close> when there is no match, which is no match here.\<close>

definition rx_matches :: "bool \<Rightarrow> rx \<Rightarrow> string \<Rightarrow> string list" where
  "rx_matches ci r text = match_all ci r [] text"

definition rx_replace :: "bool \<Rightarrow> rx \<Rightarrow> string \<Rightarrow> string \<Rightarrow> string" where
  "rx_replace ci r tmpl text = replace_all ci r tmpl [] text"

lemma rx_matches_Nil: "rx_matches ci r text = [] \<longleftrightarrow> \<not> rx_test ci r text"
  by (simp add: rx_matches_def rx_test_def match_all.simps [of ci r "[]" "text"] Let_def split: option.split list.split)

lemma rx_replace_none: "\<not> rx_test ci r text \<Longrightarrow> rx_replace ci r tmpl text = text"
  by (simp add: rx_replace_def rx_test_def replace_all.simps [of ci r tmpl "[]" "text"])

lemma expand_plain: "CHR ''$'' \<notin> set t \<Longrightarrow> expand pre w post t = t"
  by (induction pre w post t rule: expand.induct) auto

text \<open>A nonempty match at the first position found: what stands before it is kept, it is replaced, and
  the rest is treated alike.\<close>

lemma replace_all_step:
  assumes "exec ci r l s = Some m" "mt_text m \<noteq> []"
  obtains u where "s = u @ mt_text m @ mt_rest m" "mt_left m = rev (mt_text m) @ rev u @ l"
    "match_here ci r (rev u @ l) (mt_text m @ mt_rest m) = Some m"
    "\<And>a b. u = a @ b \<Longrightarrow> b \<noteq> [] \<Longrightarrow> match_here ci r (rev a @ l) (b @ mt_text m @ mt_rest m) = None"
    "replace_all ci r tmpl l s = u @ expand (rev l @ u) (mt_text m) (mt_rest m) tmpl @ replace_all ci r tmpl (mt_left m) (mt_rest m)"
proof (rule exec_at [OF assms(1)])
  fix u assume u: "s = u @ mt_text m @ mt_rest m" "mt_index m = length l + length u"
    "mt_left m = rev (mt_text m) @ rev u @ l" "match_here ci r (rev u @ l) (mt_text m @ mt_rest m) = Some m"
    "\<And>a b. u = a @ b \<Longrightarrow> b \<noteq> [] \<Longrightarrow> match_here ci r (rev a @ l) (b @ mt_text m @ mt_rest m) = None"
  from u(1,2) have "take (mt_index m - length l) s = u" by simp
  then show thesis
    by (intro that [OF u(1,3,4,5)]) (simp_all add: replace_all.simps [of ci r tmpl l s] assms Let_def)
qed

section \<open>Splitting and joining\<close>

text \<open>\<open>split(/\s+/)\<close>: white space at either end leaves an empty part; \<open>split(" ")\<close>.\<close>

fun split_ws :: "bool \<Rightarrow> string \<Rightarrow> string \<Rightarrow> string list" where
  "split_ws inws cur [] = [cur]"
| "split_ws inws cur (c # s) =
     (if js_ws c then (if inws then split_ws True cur s else cur # split_ws True [] s)
      else split_ws False (cur @ [c]) s)"

fun split_char :: "char \<Rightarrow> string \<Rightarrow> string \<Rightarrow> string list" where
  "split_char d cur [] = [cur]"
| "split_char d cur (c # s) = (if c = d then cur # split_char d [] s else split_char d (cur @ [c]) s)"

fun join :: "string \<Rightarrow> string list \<Rightarrow> string" where
  "join sep [] = []"
| "join sep [s] = s"
| "join sep (s # ss) = s @ sep @ join sep ss"

section \<open>Common patterns\<close>

definition lit :: "string \<Rightarrow> rx" where
  "lit s = foldr (\<lambda>c r. Seq (CharSet (\<lambda>d. d = c)) r) s Eps"

definition rx_opt :: "rx \<Rightarrow> rx" where
  "rx_opt r = Rep 0 (Some 1) r"

definition rx_star :: "rx \<Rightarrow> rx" where
  "rx_star r = Rep 0 None r"

definition rx_plus :: "rx \<Rightarrow> rx" where
  "rx_plus r = Rep 1 None r"

definition rx_seq :: "rx list \<Rightarrow> rx" where
  "rx_seq rs = foldr Seq rs Eps"

fun rx_alts :: "rx list \<Rightarrow> rx" where
  "rx_alts [] = NotAhead Eps"
| "rx_alts [r] = r"
| "rx_alts (r # rs) = Alt r (rx_alts rs)"

lemma of_char_lower:
  "(of_char (lower_char c) :: nat) =
     (let n = of_char c in if 65 \<le> n \<and> n \<le> 90 \<or> 192 \<le> n \<and> n \<le> 222 \<and> n \<noteq> 215 then n + 32 else n)"
  by (auto simp: lower_char_def Let_def)

lemma of_char_upper:
  "(of_char (upper_char c) :: nat) =
     (let n = of_char c in if 97 \<le> n \<and> n \<le> 122 \<or> 224 \<le> n \<and> n \<le> 254 \<and> n \<noteq> 247 then n - 32 else n)"
  by (auto simp: upper_char_def Let_def)

lemma char_eq_nat: "c = d \<longleftrightarrow> (of_char c :: nat) = of_char d"
  by simp

lemma char_cases_lower:
  "lower_char c = lower_char d \<longleftrightarrow> c = d \<or> upper_char c = d \<or> lower_char c = d"
  unfolding char_eq_nat of_char_lower of_char_upper Let_def by auto

lemma class_ok_char [simp]: "class_ok True (\<lambda>d. d = c) x \<longleftrightarrow> lower_char x = lower_char c"
  by (auto simp: class_ok_def char_cases_lower)

lemma class_ok_plain [simp]: "class_ok False P c = P c"
  by (simp add: class_ok_def)

text \<open>A literal matches exactly its text, up to case under the flag \<open>i\<close>.\<close>

lemma rx_match_lit:
  "rx_match ci (lit w) (l, s, k) =
     (if length w \<le> length s \<and> same_text ci w (take (length w) s)
      then [(rev (take (length w) s) @ l, drop (length w) s, k)] else [])"
proof (induction w arbitrary: ci l s)
  case Nil
  then show ?case by (simp add: lit_def same_text_def)
next
  case (Cons c w)
  have l: "lit (c # w) = Seq (CharSet (\<lambda>d. d = c)) (lit w)" by (simp add: lit_def)
  show ?case
    by (cases s; cases ci) (auto simp: l Cons same_text_def)
qed

section \<open>Words\<close>

fun word_run :: "string \<Rightarrow> string \<Rightarrow> string list" where
  "word_run w [] = (if w = [] then [] else [w])"
| "word_run w (c # s) =
     (if word_char c then word_run (w @ [c]) s else (if w = [] then [] else [w]) @ word_run [] s)"

definition words :: "string \<Rightarrow> string list" where
  "words s = word_run [] s"

lemma word_run_append:
  "\<not> (is_word (if s = [] then (if w = [] then None else Some (last w)) else Some (last s)) \<and> is_word (first_char t)) \<Longrightarrow>
     \<forall>c \<in> set w. word_char c \<Longrightarrow> word_run w (s @ t) = word_run w s @ words t"
proof (induction w s rule: word_run.induct)
  case (1 w)
  then show ?case by (cases t) (auto simp: words_def split: if_splits)
next
  case (2 w c s)
  show ?case
  proof (cases "word_char c")
    case True
    have "word_run (w @ [c]) (s @ t) = word_run (w @ [c]) s @ words t"
      using 2(3,4) True by (intro 2(1)) (auto split: if_splits)
    with True show ?thesis by simp
  next
    case False
    have "word_run [] (s @ t) = word_run [] s @ words t"
      using 2(3) False by (intro 2(2)) (auto split: if_splits)
    with False show ?thesis by simp
  qed
qed

lemma words_append:
  "\<not> (is_word (first_char (rev s)) \<and> is_word (first_char t)) \<Longrightarrow> words (s @ t) = words s @ words t"
proof -
  assume a: "\<not> (is_word (first_char (rev s)) \<and> is_word (first_char t))"
  have "first_char (rev s) = (if s = [] then None else Some (last s))" by (cases s rule: rev_cases) simp_all
  with a show ?thesis unfolding words_def by (subst word_run_append) (auto simp: words_def)
qed

lemma word_run_all:
  "\<forall>c \<in> set s. word_char c \<Longrightarrow> word_run w s = (if w @ s = [] then [] else [w @ s])"
  by (induction s arbitrary: w) auto

lemma words_one: "\<forall>c \<in> set s. word_char c \<Longrightarrow> words s = (if s = [] then [] else [s])"
  by (simp add: words_def word_run_all)

lemma word_run_chars: "x \<in> set (word_run w s) \<Longrightarrow> \<forall>c \<in> set w. word_char c \<Longrightarrow> x \<noteq> [] \<and> (\<forall>c \<in> set x. word_char c)"
proof (induction w s rule: word_run.induct)
  case (2 w c s)
  show ?case
  proof (cases "word_char c")
    case True
    with 2 show ?thesis by simp
  next
    case False
    with 2(3) consider "x = w" "w \<noteq> []" | "x \<in> set (word_run [] s)" by (auto split: if_splits)
    then show ?thesis using 2(2) [OF False] 2(4) by cases simp_all
  qed
qed (simp split: if_splits)

lemma word_chars: "x \<in> set (words s) \<Longrightarrow> x \<noteq> [] \<and> (\<forall>c \<in> set x. word_char c)"
  unfolding words_def by (erule word_run_chars) simp

text \<open>A word stands between characters that are not word characters.\<close>

definition stands_in :: "string \<Rightarrow> string \<Rightarrow> string \<Rightarrow> string \<Rightarrow> bool" where
  "stands_in w s a b \<longleftrightarrow> s = a @ w @ b \<and> \<not> is_word (first_char (rev a)) \<and> \<not> is_word (first_char b)"

lemma stands_in_words:
  assumes "stands_in w s a b" "w \<noteq> []" "\<forall>c \<in> set w. word_char c"
  shows "words s = words a @ [w] @ words b"
proof -
  from assms(1) have s: "s = a @ w @ b" and n: "\<not> is_word (first_char (rev a))" "\<not> is_word (first_char b)"
    by (auto simp: stands_in_def)
  show ?thesis using words_append [of a "w @ b"] words_append [of w b] n words_one [OF assms(3)] assms(2) by (simp add: s)
qed

lemma word_run_stands:
  "x \<in> set (word_run w s) \<Longrightarrow> \<forall>c \<in> set w. word_char c \<Longrightarrow> \<exists>a b. stands_in x (w @ s) a b"
proof (induction w s rule: word_run.induct)
  case (1 w)
  then show ?case by (auto simp: stands_in_def split: if_splits intro: exI [of _ "[]"])
next
  case (2 w c s)
  show ?case
  proof (cases "word_char c")
    case True
    with 2(1,3,4) show ?thesis by auto
  next
    case False
    with 2(3) consider "x = w" | "x \<in> set (word_run [] s)" by (auto split: if_splits)
    then show ?thesis
    proof cases
      case 1
      with False show ?thesis by (intro exI [of _ "[]"] exI [of _ "c # s"]) (simp add: stands_in_def)
    next
      case 2
      with "2.IH"(2) False obtain a b where ab: "stands_in x s a b" by auto
      from False ab have "stands_in x (w @ c # s) (w @ c # a) b"
        by (auto simp: stands_in_def first_char_append)
      then show ?thesis by blast
    qed
  qed
qed

lemma words_stand: "x \<in> set (words s) \<Longrightarrow> \<exists>a b. stands_in x s a b"
  using word_run_stands [of x "[]" s] by (simp add: words_def)

lemma words_iff:
  "w \<in> set (words s) \<longleftrightarrow> w \<noteq> [] \<and> (\<forall>c \<in> set w. word_char c) \<and> (\<exists>a b. stands_in w s a b)"
  using words_stand word_chars stands_in_words by (fastforce simp del: ex_simps)

section \<open>What a replacement does to the words\<close>

text \<open>Matches run from one boundary to another and begin with a word character.\<close>

definition anchored :: "bool \<Rightarrow> rx \<Rightarrow> bool" where
  "anchored ci r \<longleftrightarrow>
     (\<forall>l s m. match_here ci r l s = Some m \<longrightarrow>
        mt_text m \<noteq> [] \<and> word_char (hd (mt_text m)) \<and> \<not> is_word (first_char l) \<and>
        boundary (first_char (mt_left m)) (first_char (mt_rest m)))"

text \<open>A replacement text that begins and ends with a word character and has no \<open>$\<close>; its last word.\<close>

definition solid :: "string \<Rightarrow> bool" where
  "solid t \<longleftrightarrow> t \<noteq> [] \<and> word_char (hd t) \<and> word_char (last t) \<and> CHR ''$'' \<notin> set t"

definition last_word :: "string \<Rightarrow> string" where
  "last_word t = rev (takeWhile word_char (rev t))"

lemma first_char_rev: "first_char (rev s) = (if s = [] then None else Some (last s))"
  by (cases s rule: rev_cases) simp_all

lemma first_char_hd: "s \<noteq> [] \<Longrightarrow> first_char s = Some (hd s)"
  by (cases s) simp_all

lemma dropWhile_not_word [simp]: "\<not> is_word (first_char (dropWhile word_char s))"
  by (induction s) auto

lemma words_glue:
  assumes "t \<noteq> []" and "word_char (last t)" and "x \<in> set (words (t @ s))"
  shows "x \<in> set (words t) \<union> set (words s) \<union> {last_word t @ y | y. True}"
proof -
  let ?w = "last_word t" and ?y = "takeWhile word_char s" and ?z = "dropWhile word_char s"
  define a where "a = rev (dropWhile word_char (rev t))"
  have t: "t = a @ ?w" unfolding a_def last_word_def by (metis rev_append rev_rev_ident takeWhile_dropWhile_id)
  have w: "\<forall>c \<in> set (?w @ ?y). word_char c" by (auto simp: last_word_def dest: set_takeWhileD)
  have a: "\<not> is_word (first_char (rev a))"
    unfolding a_def by simp
  have z: "\<not> is_word (first_char ?z)" by simp
  have "stands_in (?w @ ?y) (t @ s) a ?z"
    using a z t by (simp add: stands_in_def)
  moreover have "?w @ ?y \<noteq> []" using assms(1,2) by (cases t rule: rev_cases) (auto simp: last_word_def)
  ultimately have 1: "words (t @ s) = words a @ [?w @ ?y] @ words ?z" using w by (intro stands_in_words)
  have 2: "set (words a) \<subseteq> set (words t)" using words_append [of a ?w] a t by (metis Un_upper1 set_append)
  have 3: "set (words ?z) \<subseteq> set (words s)"
    using words_append [of ?y ?z] z by (metis Un_upper2 set_append takeWhile_dropWhile_id)
  from assms(3) 1 2 3 show ?thesis by auto
qed

lemma words_suffix_run:
  assumes "\<not> is_word (first_char s)"
  shows "set (words s) \<subseteq> set (words (t @ s))"
  using words_append [of t s] assms by auto

lemma words_suffix_sub:
  assumes "boundary (first_char (rev t)) (first_char s)"
  shows "set (words s) \<subseteq> set (words (t @ s))"
  using words_append [of t s] assms by (auto simp: boundary_def)

text \<open>One step of a replacement by a solid text, with what is known of the boundaries.\<close>

lemma anchored_step:
  assumes anch: "anchored ci r" and sol: "solid t" and e: "exec ci r l s = Some m"
  obtains u where "s = u @ mt_text m @ mt_rest m" "replace_all ci r t l s = u @ t @ replace_all ci r t (mt_left m) (mt_rest m)"
    "\<And>v. words (u @ v) = words u @ words v" "\<not> is_word (first_char (rev u))" "length (mt_rest m) < length s"
    "set (words (mt_rest m)) \<subseteq> set (words s)" "boundary (first_char (mt_left m)) (first_char (mt_rest m))"
    "\<And>a b. u = a @ b \<Longrightarrow> b \<noteq> [] \<Longrightarrow> match_here ci r (rev a @ l) (b @ mt_text m @ mt_rest m) = None"
proof -
  from e obtain l' where "match_here ci r l' (mt_text m @ mt_rest m) = Some m" by (metis exec_at)
  with anch have ne: "mt_text m \<noteq> []" unfolding anchored_def by blast
  show thesis
  proof (rule replace_all_step [OF e ne, where tmpl = t])
    fix u
    assume u: "s = u @ mt_text m @ mt_rest m" "mt_left m = rev (mt_text m) @ rev u @ l"
      "match_here ci r (rev u @ l) (mt_text m @ mt_rest m) = Some m"
      "\<And>a b. u = a @ b \<Longrightarrow> b \<noteq> [] \<Longrightarrow> match_here ci r (rev a @ l) (b @ mt_text m @ mt_rest m) = None"
      "replace_all ci r t l s = u @ expand (rev l @ u) (mt_text m) (mt_rest m) t @ replace_all ci r t (mt_left m) (mt_rest m)"
    from anch u(3) have b: "\<not> is_word (first_char (rev u @ l))" "boundary (first_char (mt_left m)) (first_char (mt_rest m))"
      unfolding anchored_def by blast+
    from b(1) have nu: "\<not> is_word (first_char (rev u))" by (cases "u = []") (auto simp: first_char_append)
    then have wu: "words (u @ v) = words u @ words v" for v by (simp add: words_append)
    have "first_char (mt_left m) = first_char (rev (mt_text m))" using ne u(2) by (simp add: first_char_append)
    with b(2) have "set (words (mt_rest m)) \<subseteq> set (words (mt_text m @ mt_rest m))" by (intro words_suffix_sub) simp
    with wu [of "mt_text m @ mt_rest m"] u(1) have "set (words (mt_rest m)) \<subseteq> set (words s)" by auto
    moreover have "length (mt_rest m) < length s" using u(1) ne by (metis append_assoc length_append less_add_same_cancel2 length_greater_0_conv append_is_Nil_conv)
    moreover have "replace_all ci r t l s = u @ t @ replace_all ci r t (mt_left m) (mt_rest m)"
      using u(5) sol by (simp add: expand_plain solid_def)
    ultimately show thesis using that u(1,4) wu nu b(2) by blast
  qed
qed

text \<open>The words after a replacement: those there were, the words of the replacement, and words that
  begin with its last one.\<close>

lemma replace_all_words:
  assumes anch: "anchored ci r" and sol: "solid t"
  shows "x \<in> set (words (replace_all ci r t l s)) \<Longrightarrow>
    x \<in> set (words s) \<union> set (words t) \<union> {last_word t @ y | y. True}"
proof (induction "length s" arbitrary: l s rule: less_induct)
  case less
  show ?case
  proof (cases "exec ci r l s")
    case None
    with less(2) show ?thesis by (simp add: replace_all.simps [of ci r t l s])
  next
    case (Some m)
    show ?thesis
    proof (rule anchored_step [OF anch sol Some])
      fix u
      assume u: "s = u @ mt_text m @ mt_rest m" "replace_all ci r t l s = u @ t @ replace_all ci r t (mt_left m) (mt_rest m)"
        "\<And>v. words (u @ v) = words u @ words v" "length (mt_rest m) < length s" "set (words (mt_rest m)) \<subseteq> set (words s)"
      from less(2) u(2,3) consider "x \<in> set (words u)" | "x \<in> set (words (t @ replace_all ci r t (mt_left m) (mt_rest m)))"
        by auto
      then show ?thesis
      proof cases
        case 1
        with u(1,3) show ?thesis by simp
      next
        case 2
        from words_glue [OF _ _ 2] sol less(1) [OF u(4)] u(5) show ?thesis by (fastforce simp: solid_def)
      qed
    qed
  qed
qed

text \<open>\<open>r\<close> matches wherever the word \<open>w\<close> stands.\<close>

definition finds_word :: "bool \<Rightarrow> rx \<Rightarrow> string \<Rightarrow> bool" where
  "finds_word ci r w \<longleftrightarrow>
     (\<forall>l x b. same_text ci w x \<and> \<not> is_word (first_char l) \<and> \<not> is_word (first_char b) \<longrightarrow> match_here ci r l (x @ b) \<noteq> None)"

lemma replace_all_removes:
  assumes anch: "anchored ci r" and sol: "solid t" and fw: "finds_word ci r w" and x: "same_text ci w x"
  shows "\<not> is_word (first_char l) \<or> \<not> is_word (first_char s) \<Longrightarrow> x \<in> set (words (replace_all ci r t l s)) \<Longrightarrow>
    x \<in> set (words t) \<union> {last_word t @ y | y. True}"
proof (induction "length s" arbitrary: l s rule: less_induct)
  case less
  have gone: False if "stands_in x v a b" "b \<noteq> [] \<or> z = []" "\<not> is_word (first_char l) \<or> \<not> is_word (first_char (v @ z))"
    "match_here ci r (rev a @ l) (x @ b @ z) = None" "x \<in> set (words v)" for v a b z
  proof -
    from that(1) have st: "v = a @ x @ b" "\<not> is_word (first_char (rev a))" "\<not> is_word (first_char b)"
      by (auto simp: stands_in_def)
    from word_chars [OF that(5)] have "is_word (first_char x)" by (cases x) auto
    with st(1,2) that(3) have "\<not> is_word (first_char (rev a @ l))"
      by (cases "a = []") (auto simp: first_char_append split: if_splits)
    moreover have "\<not> is_word (first_char (b @ z))" using that(2) st(3) by (auto simp: first_char_append)
    ultimately show False using fw x that(4) unfolding finds_word_def by blast
  qed
  show ?case
  proof (cases "exec ci r l s")
    case None
    with less(3) have xs: "x \<in> set (words s)" by (simp add: replace_all.simps [of ci r t l s])
    then obtain a b where ab: "stands_in x s a b" using words_stand by blast
    then have "s = a @ (x @ b)" by (simp add: stands_in_def)
    with None have "match_here ci r (rev a @ l) (x @ b) = None" by (simp add: exec_None)
    with gone [OF ab, of "[]"] less(2) xs show ?thesis by simp
  next
    case (Some m)
    show ?thesis
    proof (rule anchored_step [OF anch sol Some])
      fix u
      assume u: "s = u @ mt_text m @ mt_rest m" "replace_all ci r t l s = u @ t @ replace_all ci r t (mt_left m) (mt_rest m)"
        "\<And>v. words (u @ v) = words u @ words v" "\<not> is_word (first_char (rev u))" "length (mt_rest m) < length s"
        "boundary (first_char (mt_left m)) (first_char (mt_rest m))"
        "\<And>a b. u = a @ b \<Longrightarrow> b \<noteq> [] \<Longrightarrow> match_here ci r (rev a @ l) (b @ mt_text m @ mt_rest m) = None"
      from less(3) u(2,3) consider "x \<in> set (words u)" | "x \<in> set (words (t @ replace_all ci r t (mt_left m) (mt_rest m)))"
        by auto
      then show ?thesis
      proof cases
        case 1
        then obtain a b where ab: "stands_in x u a b" using words_stand by blast
        then have eq: "u = a @ (x @ b)" by (simp add: stands_in_def)
        from word_chars [OF 1] have xne: "x \<noteq> []" "word_char (last x)" by auto
        with eq u(4) have "b \<noteq> []" by (cases x rule: rev_cases) auto
        with gone [OF ab, of "mt_text m @ mt_rest m"] u(7) [OF eq] xne less(2) u(1) 1 show ?thesis by simp
      next
        case 2
        have "\<not> is_word (first_char (mt_left m)) \<or> \<not> is_word (first_char (mt_rest m))"
          using u(6) by (auto simp: boundary_def)
        from words_glue [OF _ _ 2] sol less(1) [OF u(5) this] show ?thesis by (fastforce simp: solid_def)
      qed
    qed
  qed
qed

section \<open>Words in lower case, and the leak check's notion of a mention\<close>

lemma word_char_lower [simp]: "word_char (lower_char c) = word_char c"
  unfolding word_char_def is_lower_az_def is_digit_def char_eq_nat of_char_lower Let_def by auto

lemma word_run_lower: "word_run (map lower_char w) (map lower_char s) = map (map lower_char) (word_run w s)"
proof (induction w s rule: word_run.induct)
  case (2 w c s)
  show ?case using "2.IH" by (cases "word_char c") auto
qed simp

lemma words_lower: "words (toLowerCase s) = map toLowerCase (words s)"
  using word_run_lower [of "[]" s] by (simp add: words_def toLowerCase_def [abs_def])

lemma test_word_stands:
  assumes "test_word w p s" "w \<noteq> []" "\<forall>c \<in> set w. word_char c"
  shows "\<exists>a b. s = a @ w @ b \<and> \<not> is_word (if a = [] then p else Some (last a)) \<and> \<not> is_word (first_char b)"
proof -
  have at: "\<exists>b. s = w @ b \<and> \<not> is_word p \<and> \<not> is_word (first_char b)" if "word_at w p s" for p s
  proof -
    from that obtain b where s: "s = w @ b" by (auto simp: word_at_def prefix_def)
    from assms(2,3) have "is_word (first_char s)" "is_word (Some (last w))" by (cases w; auto simp: s)+
    with that assms(2) show ?thesis by (auto simp: word_at_def boundary_def s)
  qed
  from assms(1) show ?thesis
  proof (induction s arbitrary: p)
    case Nil
    with at [of p "[]"] show ?case by auto
  next
    case (Cons c s)
    from Cons.prems consider "word_at w p (c # s)" | "test_word w (Some c) s" by auto
    then show ?case
    proof cases
      case 1
      from at [OF this] obtain b where "c # s = w @ b" "\<not> is_word p" "\<not> is_word (first_char b)" by blast
      then show ?thesis by (intro exI [of _ "[]"] exI [of _ b]) simp
    next
      case 2
      from Cons.IH [OF this] obtain a b where
        "s = a @ w @ b" "\<not> is_word (if a = [] then Some c else Some (last a))" "\<not> is_word (first_char b)" by blast
      then show ?thesis by (intro exI [of _ "c # a"] exI [of _ b]) (simp split: if_splits)
    qed
  qed
qed

lemma mentions_words:
  assumes "mentions w s" "w \<noteq> []" "\<forall>c \<in> set w. word_char c"
  shows "w \<in> set (words s)"
proof -
  have "CHR ''.'' \<notin> set w" using assms(3) by (auto simp: word_char_def is_lower_az_def is_digit_def)
  with assms(1) have "test_word w None s" by (simp add: mentions_def)
  from test_word_stands [OF this assms(2,3)] obtain a b where
    "s = a @ w @ b" "\<not> is_word (if a = [] then None else Some (last a))" "\<not> is_word (first_char b)" by blast
  then have "stands_in w s a b" by (simp add: stands_in_def first_char_rev split: if_splits)
  with assms(2,3) show ?thesis unfolding words_iff by blast
qed

end
