(* ===== verification/Company_Scrubber.thy ===== *)
theory Company_Scrubber
  imports Regex_Replace Landing_Page
begin

text \<open>
  The scrubber that the landing-page editor applies to anonymous pages:
  \<open>src/services/company-scrubber.ts\<close>, with its regular expressions as written there. An account, its
  domains, its contacts and the organization's own replacements are read from a \<open>ScrubDb\<close>; the JSON
  column of replacements is the list of its entries, in the order \<open>Object.entries\<close> gives them.
  \<open>escapeRegex\<close> makes a literal pattern of a string (\<open>lit\<close>).

  The main result says what scrubbing achieves for a name that is one word: it is gone as a word, in
  any case, whatever the text. Two further ones show where it fails: a replacement that contains
  \<open>$&\<close> puts the name back, and a contact's name that ends in a full stop is not found.
\<close>

section \<open>Capitals\<close>

text \<open>\<open>charAt(0).toUpperCase()\<close>; the sharp s has a capital of two letters, and the two code units
  whose capital is not a one-byte unit are kept.\<close>

fun capital :: "string \<Rightarrow> string" where
  "capital [] = []"
| "capital (c # s) = (if c = CHR 0xDF then ''SS'' else [upper_char c])"

text \<open>\<open>term === term.toUpperCase()\<close>.\<close>

definition is_upper :: "string \<Rightarrow> bool" where
  "is_upper s = list_all (\<lambda>c. upper_char c = c \<and> c \<noteq> CHR 0xDF \<and> c \<noteq> CHR 0xFF \<and> c \<noteq> CHR 0xB5) s"

section \<open>Titles\<close>

definition bounded :: "rx \<Rightarrow> rx" where
  "bounded r = Seq WordB (Seq r WordB)"

definition title_pattern :: "string list \<Rightarrow> rx" where
  "title_pattern alts = bounded (Group 1 (rx_alts (map lit alts)))"

definition TITLE_ANONYMIZER :: "(rx \<times> string) list" where
  "TITLE_ANONYMIZER =
     [(title_pattern [''SVP'', ''Senior Vice President'', ''EVP'', ''Executive Vice President''], ''a senior leader at the client''),
      (title_pattern [''VP'', ''Vice President''], ''a VP at the client''),
      (title_pattern [''CEO'', ''Chief Executive Officer'', ''Founder'', ''Co-Founder'', ''President''],
        ''a senior executive at the client''),
      (title_pattern [''CFO'', ''Chief Financial Officer''], ''a finance leader at the client''),
      (title_pattern [''CTO'', ''Chief Technology Officer'', ''CIO'', ''Chief Information Officer''],
        ''a technology leader at the client''),
      (title_pattern [''CMO'', ''Chief Marketing Officer''], ''a marketing leader at the client''),
      (title_pattern [''COO'', ''Chief Operating Officer''], ''an operations leader at the client''),
      (title_pattern [''CRO'', ''Chief Revenue Officer''], ''a revenue leader at the client''),
      (title_pattern [''CISO'', ''Chief Information Security Officer''], ''a security leader at the client''),
      (title_pattern [''Director''], ''a director at the client''),
      (title_pattern [''Head of''], ''a department head at the client''),
      (title_pattern [''Manager'', ''Senior Manager''], ''a manager at the client''),
      (title_pattern [''Engineer'', ''Developer'', ''Architect''], ''a technical team member at the client'')]"

definition anonymizeTitle :: "string \<Rightarrow> string" where
  "anonymizeTitle title =
     (case List.find (\<lambda>p. rx_test True (fst p) title) TITLE_ANONYMIZER of
        Some p \<Rightarrow> snd p | None \<Rightarrow> ''a team member at the client'')"

definition formatAttribution :: "string option \<Rightarrow> string option \<Rightarrow> bool \<Rightarrow> string option \<Rightarrow> string" where
  "formatAttribution name title includeCompanyName companyName =
     (if includeCompanyName \<and> truthy name
      then join '', '' ([the name] @ (if truthy title then [the title] else []) @
             (if truthy companyName then [the companyName] else []))
      else if truthy title then anonymizeTitle (the title)
      else ''a team member at the client'')"

definition formatInlineAttribution :: "string option \<Rightarrow> bool \<Rightarrow> string option \<Rightarrow> string" where
  "formatInlineAttribution title includeCompanyName companyName =
     (if includeCompanyName \<and> truthy title
      then (if truthy companyName then the title @ '', '' @ the companyName else the title)
      else if truthy title then anonymizeTitle (the title)
      else ''a team member at the client'')"

section \<open>Terms\<close>

definition DEFAULT_PLACEHOLDER :: string where
  "DEFAULT_PLACEHOLDER = ''the client''"

definition DOMAIN_PLACEHOLDER :: string where
  "DOMAIN_PLACEHOLDER = ''[client-domain]''"

definition MIN_AUTO_TERM_LENGTH :: nat where
  "MIN_AUTO_TERM_LENGTH = 4"

text \<open>A regular expression with its flag \<open>i\<close>; all of them have the flag \<open>g\<close>.\<close>

type_synonym regex = "bool \<times> rx"

definition term_rx :: "string \<Rightarrow> rx" where
  "term_rx t =
     Seq WordB (Seq (lit t)
       (Seq (rx_opt (Alt (lit [CHR 0x27, CHR ''s'']) (Seq (CharSet (\<lambda>c. c = CHR ''-'')) (rx_plus (CharSet word_char)))))
         WordB))"

definition buildWordBoundaryRegex :: "string \<Rightarrow> regex" where
  "buildWordBoundaryRegex t = (\<not> (length t \<le> 4 \<and> is_upper t), term_rx t)"

record ReplacementTerm =
  rt_regex :: regex
  rt_replacement :: string
  rt_label :: string

definition generateNameVariations :: "string \<Rightarrow> string list" where
  "generateNameVariations name =
     (let normalized = normalizeCompanyName name;
          titleCase = join '' '' (map (\<lambda>w. capital w @ drop 1 w) (split_char (CHR '' '') [] normalized));
          ws = split_ws False [] name;
          shortName = join '' '' (take 2 ws);
          acronym = concat (map capital (map (take 1) ws));
          v1 = [name];
          v2 = (if MIN_AUTO_TERM_LENGTH \<le> length normalized then js_add normalized v1 else v1);
          v3 = (if MIN_AUTO_TERM_LENGTH \<le> length titleCase then js_add titleCase v2 else v2);
          v4 = (if 2 \<le> length ws \<and> MIN_AUTO_TERM_LENGTH \<le> length shortName then js_add shortName v3 else v3);
          v5 = (if 3 \<le> length ws \<and> 3 \<le> length acronym then js_add acronym v4 else v4) in
      filter (\<lambda>v. 2 \<le> length v) v5)"

definition replacement_term :: "string \<Rightarrow> string \<Rightarrow> ReplacementTerm" where
  "replacement_term t r = \<lparr> rt_regex = buildWordBoundaryRegex t, rt_replacement = r, rt_label = t \<rparr>"

definition buildReplacementTerms :: "Account \<Rightarrow> (string \<times> string) list \<Rightarrow> string \<Rightarrow> ReplacementTerm list" where
  "buildReplacementTerms account customMappings placeholder =
     sort_key (\<lambda>t. - int (length (rt_label t)))
       (map (\<lambda>(p, r). replacement_term p r) (filter (\<lambda>(p, r). 2 \<le> length p) customMappings) @
        map (\<lambda>v. replacement_term v placeholder) (generateNameVariations (a_name account)) @
        (if a_normalizedName account \<noteq> toLowerCase (a_name account) \<and>
            MIN_AUTO_TERM_LENGTH \<le> length (a_normalizedName account)
         then [replacement_term (a_normalizedName account) placeholder] else []))"

section \<open>Scrubbing\<close>

record ScrubResult =
  scrubbedText :: string
  replacementsMade :: nat
  termsReplaced :: "string list"

text \<open>Count the matches of a pattern; if there are any, report the label and replace them.\<close>

definition scrub_step :: "regex \<Rightarrow> string \<Rightarrow> string \<Rightarrow> ScrubResult \<Rightarrow> ScrubResult" where
  "scrub_step regex label repl st =
     (let ms = rx_matches (fst regex) (snd regex) (scrubbedText st) in
      if ms = [] then st
      else \<lparr> scrubbedText = rx_replace (fst regex) (snd regex) repl (scrubbedText st),
             replacementsMade = replacementsMade st + length ms,
             termsReplaced = termsReplaced st @ [label] \<rparr>)"

record ContactInfo = Contact +
  ct_name :: "string option"
  ct_title :: "string option"

definition white :: rx where
  "white = CharSet js_ws"

definition comma_pattern :: "string \<Rightarrow> string \<Rightarrow> rx" where
  "comma_pattern name title =
     rx_seq [WordB, lit name, rx_opt (lit '',''), rx_plus white, lit title,
       rx_opt (rx_seq [rx_plus white, Alt (lit ''of'') (lit ''at''), rx_plus white, rx_plus (CharSet (\<lambda>c. \<not> js_ws c))]),
       WordB]"

definition paren_pattern :: "string \<Rightarrow> string \<Rightarrow> rx" where
  "paren_pattern name title = rx_seq [WordB, lit name, rx_star white, lit ''('', lit title, lit '')'']"

definition scrub_identity :: "ContactInfo \<Rightarrow> ScrubResult \<Rightarrow> ScrubResult" where
  "scrub_identity contact st =
     (if \<not> truthy (ct_name contact) \<or> \<not> truthy (ct_title contact) then st
      else
        let name = the (ct_name contact); title = the (ct_title contact); anon = anonymizeTitle title in
        scrub_step (True, paren_pattern name title) (name @ '' ('' @ title @ '')'') anon
          (scrub_step (True, comma_pattern name title) (name @ '', '' @ title) anon st))"

definition scrubContactIdentities :: "ContactInfo list \<Rightarrow> ScrubResult \<Rightarrow> ScrubResult" where
  "scrubContactIdentities contacts st = fold scrub_identity contacts st"

definition collectDomains :: "Account \<Rightarrow> AccountDomain list \<Rightarrow> string list" where
  "collectDomains account aliases =
     (if truthy (a_domain account) then [the (a_domain account)] else []) @ map ad_domain aliases"

definition scrub_domain :: "string \<Rightarrow> ScrubResult \<Rightarrow> ScrubResult" where
  "scrub_domain d st = scrub_step (True, lit d) d DOMAIN_PLACEHOLDER st"

definition scrub_term :: "ReplacementTerm \<Rightarrow> ScrubResult \<Rightarrow> ScrubResult" where
  "scrub_term t st = scrub_step (rt_regex t) (rt_label t) (rt_replacement t) st"

definition scrub_bare_name :: "string \<Rightarrow> ContactInfo \<Rightarrow> ScrubResult \<Rightarrow> ScrubResult" where
  "scrub_bare_name placeholder contact st =
     (if \<not> truthy (ct_name contact) \<or> length (the (ct_name contact)) < 4 then st
      else scrub_step (True, bounded (lit (the (ct_name contact)))) (the (ct_name contact))
             (if truthy (ct_title contact) then anonymizeTitle (the (ct_title contact))
              else ''a team member at '' @ placeholder) st)"

definition scrub_text ::
  "Account \<Rightarrow> AccountDomain list \<Rightarrow> ContactInfo list \<Rightarrow> (string \<times> string) list \<Rightarrow> string \<Rightarrow> string \<Rightarrow> ScrubResult" where
  "scrub_text account aliases contacts customMappings placeholder text =
     (let st1 = scrubContactIdentities contacts
                  \<lparr> scrubbedText = text, replacementsMade = 0, termsReplaced = [] \<rparr>;
          st2 = fold scrub_domain (collectDomains account aliases) st1;
          st3 = fold scrub_term (buildReplacementTerms account customMappings placeholder) st2;
          st4 = fold (scrub_bare_name placeholder) contacts st3 in
      st4\<lparr> termsReplaced := fold js_add (termsReplaced st4) [] \<rparr>)"

record ScrubDb =
  sdb_accounts :: "Account list"
  sdb_domains :: "AccountDomain list"
  sdb_contacts :: "ContactInfo list"
  sdb_replacements :: "(ident \<times> (string \<times> string) list) list"

record ScrubConfig =
  cfg_placeholder :: "string option"
  cfg_customMappings :: "(string \<times> string) list option"
  cfg_skipScrub :: bool

text \<open>\<open>findUniqueOrThrow\<close> throws when there is no such account.\<close>

datatype ScrubError = AccountNotFound

definition scrubForAccount :: "ScrubDb \<Rightarrow> ident \<Rightarrow> string \<Rightarrow> ScrubConfig \<Rightarrow> (ScrubError, ScrubResult) res" where
  "scrubForAccount db accountId text cfg =
     (if cfg_skipScrub cfg then Inr \<lparr> scrubbedText = text, replacementsMade = 0, termsReplaced = [] \<rparr>
      else (case List.find (\<lambda>a. a_id a = accountId) (sdb_accounts db) of
        None \<Rightarrow> Inl AccountNotFound
      | Some account \<Rightarrow>
          let customMappings =
                (case cfg_customMappings cfg of
                   Some m \<Rightarrow> m
                 | None \<Rightarrow> (case map_of (sdb_replacements db) (a_organizationId account) of None \<Rightarrow> [] | Some m \<Rightarrow> m));
              placeholder = (case cfg_placeholder cfg of None \<Rightarrow> DEFAULT_PLACEHOLDER | Some p \<Rightarrow> p) in
          Inr (scrub_text account (filter (\<lambda>d. ad_accountId d = accountId) (sdb_domains db))
                (filter (\<lambda>c. ct_accountId c = accountId) (sdb_contacts db)) customMappings placeholder text)))"

definition scrubWithTerms :: "string \<Rightarrow> string list \<Rightarrow> string \<Rightarrow> ScrubResult" where
  "scrubWithTerms text companyNames placeholder =
     (let st = fold (\<lambda>name st. if length name < 2 then st
                               else scrub_step (buildWordBoundaryRegex name) name placeholder st)
                 (sort_key (\<lambda>n. - int (length n)) companyNames)
                 \<lparr> scrubbedText = text, replacementsMade = 0, termsReplaced = [] \<rparr> in
      st\<lparr> termsReplaced := fold js_add (termsReplaced st) [] \<rparr>)"

section \<open>The patterns of names are anchored\<close>

lemma rx_match_opt_skip: "st \<in> set (rx_match ci (rx_opt r) st)"
  by (simp add: rx_opt_def)

lemma word_literal_start:
  assumes "st' \<in> set (rx_match ci (Seq WordB (Seq (lit t) q)) (l, s, k))" "t \<noteq> []" "word_char (hd t)"
  shows "\<not> is_word (first_char l) \<and> s \<noteq> [] \<and> word_char (hd s)"
proof -
  from assms(1) have b: "boundary (first_char l) (first_char s)" and len: "length t \<le> length s"
    and st: "same_text ci t (take (length t) s)"
    by (auto simp: rx_match_lit split: if_splits)
  from assms(2) len have ne: "s \<noteq> []" by auto
  from st assms(2) ne have "lower_char (hd t) = lower_char (hd s)"
    by (cases t; cases s) (auto simp: same_text_def split: if_splits)
  with assms(3) have "word_char (hd s)" by (metis word_char_lower)
  with b ne show ?thesis by (auto simp: boundary_def first_char_hd)
qed

lemma min_len_lit: "min_len (lit t) = length t"
  by (induction t) (simp_all add: lit_def)

lemma match_word_boundary:
  "st' \<in> set (rx_match ci WordB st) \<Longrightarrow> boundary (first_char (fst st')) (first_char (fst (snd st')))"
  by (cases st) (auto split: if_splits)

lemma anchoredI:
  assumes t: "t \<noteq> []" "word_char (hd t)"
    and q: "\<And>st st'. st' \<in> set (rx_match ci q st) \<Longrightarrow> boundary (first_char (fst st')) (first_char (fst (snd st')))"
  shows "anchored ci (Seq WordB (Seq (lit t) q))"
  unfolding anchored_def
proof (intro allI impI)
  fix l s m assume m: "match_here ci (Seq WordB (Seq (lit t) q)) l s = Some m"
  note i = match_here_in [OF m]
  from match_here_Some(4) [OF m] t(1) have ne: "mt_text m \<noteq> []" by (auto simp: min_len_lit)
  from word_literal_start [OF i t] have "\<not> is_word (first_char l)" "word_char (hd s)" by auto
  moreover have "hd s = hd (mt_text m)" using match_here_Some(1) [OF m] ne by (metis hd_append2)
  moreover have "boundary (first_char (mt_left m)) (first_char (mt_rest m))"
  proof -
    from i obtain st where "(mt_left m, mt_rest m, mt_caps m) \<in> set (rx_match ci q st)" by auto
    from q [OF this] show ?thesis by simp
  qed
  ultimately show "mt_text m \<noteq> [] \<and> word_char (hd (mt_text m)) \<and> \<not> is_word (first_char l) \<and>
      boundary (first_char (mt_left m)) (first_char (mt_rest m))"
    using ne by simp
qed

lemma match_ends_at_boundary:
  assumes "st' \<in> set (rx_match ci (Seq q WordB) st)"
  shows "boundary (first_char (fst st')) (first_char (fst (snd st')))"
proof -
  from assms obtain st1 where "st' \<in> set (rx_match ci WordB st1)" by auto
  then show ?thesis by (rule match_word_boundary)
qed

lemma anchored_term: "t \<noteq> [] \<Longrightarrow> word_char (hd t) \<Longrightarrow> anchored ci (term_rx t)"
  unfolding term_rx_def by (rule anchoredI) (assumption+, rule match_ends_at_boundary)

lemma anchored_name: "n \<noteq> [] \<Longrightarrow> word_char (hd n) \<Longrightarrow> anchored ci (bounded (lit n))"
  unfolding bounded_def by (rule anchoredI) (assumption+, rule match_word_boundary)

lemma finds_term:
  assumes "t \<noteq> []" "\<forall>c \<in> set t. word_char c"
  shows "finds_word ci (term_rx t) t"
  unfolding finds_word_def match_here_none
proof (intro allI impI)
  fix l x b assume a: "same_text ci t x \<and> \<not> is_word (first_char l) \<and> \<not> is_word (first_char b)"
  then have len: "length x = length t" by (metis length_map same_text_def)
  from a have "map lower_char t = map lower_char x" by (auto simp: same_text_def split: if_splits)
  then have "lower_char ` set t = lower_char ` set x" by (metis list.set_map)
  with assms(2) have wx: "\<forall>c \<in> set x. word_char c" by (metis image_iff word_char_lower)
  from len assms(1) have ne: "x \<noteq> []" by auto
  have w: "is_word (first_char (x @ b))" "is_word (first_char (rev x @ l))"
    using wx ne by (cases x; simp) (cases x rule: rev_cases; use wx ne in simp)
  let ?st = "(rev x @ l, b, []) :: rx_state"
  have lit: "rx_match ci (lit t) (l, x @ b, []) = [?st]" using a len by (simp add: rx_match_lit)
  have wb: "rx_match ci WordB (l, x @ b, []) = [(l, x @ b, [])]" "rx_match ci WordB ?st = [?st]"
    using w a by (simp_all add: boundary_def)
  have "?st \<in> set (rx_match ci (Seq (rx_opt r) WordB) ?st)" for r
    using rx_match_opt_skip [of ?st ci r] wb(2) by (simp only: rx_match.simps(3)) force
  then have "?st \<in> set (rx_match ci (term_rx t) (l, x @ b, []))"
    unfolding term_rx_def rx_match.simps(3) [of ci WordB] rx_match.simps(3) [of ci "lit t"] wb(1)
    by (simp only: list.map concat.simps append_Nil2 lit)
  then show "rx_match ci (term_rx t) (l, x @ b, []) \<noteq> []" by auto
qed

section \<open>A name that is one word disappears\<close>

text \<open>
  A text that may stand for the name \<open>w\<close>: it begins and ends with a word character, has no \<open>$\<close>, does
  not contain the word \<open>w\<close>, and \<open>w\<close> does not begin with its last word (case is ignored).
\<close>

definition clean :: "string \<Rightarrow> string \<Rightarrow> bool" where
  "clean w r \<longleftrightarrow>
     solid r \<and> toLowerCase w \<notin> set (words (toLowerCase r)) \<and> \<not> prefix (toLowerCase (last_word r)) (toLowerCase w)"

definition gone :: "string \<Rightarrow> string \<Rightarrow> bool" where
  "gone w s \<longleftrightarrow> toLowerCase w \<notin> set (words (toLowerCase s))"

lemma gone_words: "gone w s \<longleftrightarrow> (\<forall>x \<in> set (words s). toLowerCase x \<noteq> toLowerCase w)"
  unfolding gone_def words_lower set_map by (metis imageE image_eqI)

lemma gone_not_mentioned:
  "gone w s \<Longrightarrow> w \<noteq> [] \<Longrightarrow> \<forall>c \<in> set w. word_char c \<Longrightarrow> \<not> mentions (toLowerCase w) (toLowerCase s)"
  using mentions_words [of "toLowerCase w" "toLowerCase s"] by (auto simp: gone_def toLowerCase_def)

lemma clean_glue: "clean w r \<Longrightarrow> toLowerCase (last_word r @ y) \<noteq> toLowerCase w"
  by (auto simp: clean_def toLowerCase_def prefix_def) (metis map_append)

lemma clean_words: "clean w r \<Longrightarrow> x \<in> set (words r) \<Longrightarrow> toLowerCase x \<noteq> toLowerCase w"
  unfolding clean_def words_lower by (metis image_eqI list.set_map)

lemma replace_keeps_gone:
  assumes "anchored ci r" "clean w t" "gone w s"
  shows "gone w (rx_replace ci r t s)"
proof -
  have "solid t" using assms(2) by (simp add: clean_def)
  from replace_all_words [OF assms(1) this] show ?thesis
    using assms(2,3) clean_glue clean_words by (fastforce simp: gone_words rx_replace_def)
qed

lemma replace_makes_gone:
  assumes "anchored True r" "clean w t" "finds_word True r w"
  shows "gone w (rx_replace True r t s)"
proof -
  have s: "solid t" using assms(2) by (simp add: clean_def)
  have "toLowerCase x \<noteq> toLowerCase w" if x: "x \<in> set (words (rx_replace True r t s))" for x
  proof
    assume "toLowerCase x = toLowerCase w"
    then have "same_text True w x" by (simp add: same_text_def toLowerCase_def)
    from replace_all_removes [OF assms(1) s assms(3) this, of "[]" s] x
    show False using assms(2) clean_glue clean_words \<open>toLowerCase x = toLowerCase w\<close>
      by (fastforce simp: rx_replace_def)
  qed
  then show ?thesis by (simp add: gone_words)
qed

lemma scrub_step_text:
  "scrubbedText (scrub_step g label repl st) = rx_replace (fst g) (snd g) repl (scrubbedText st)"
  by (simp add: scrub_step_def Let_def rx_matches_Nil rx_replace_none)

text \<open>All texts that stand for somebody or something, unless the organization has its own.\<close>

definition anonymous_labels :: "string \<Rightarrow> string list" where
  "anonymous_labels placeholder =
     placeholder # (''a team member at '' @ placeholder) # ''a team member at the client'' # map snd TITLE_ANONYMIZER"

lemma anonymizeTitle_label: "anonymizeTitle title \<in> set (anonymous_labels placeholder)"
  by (force simp: anonymizeTitle_def anonymous_labels_def dest!: find_SomeD split: option.splits)

text \<open>What the theorem asks of the names: they begin with a word character, and no text that replaces
  something collides with \<open>w\<close>.\<close>

definition names_regular :: "ReplacementTerm list \<Rightarrow> ContactInfo list \<Rightarrow> bool" where
  "names_regular terms contacts \<longleftrightarrow>
     list_all (\<lambda>t. rt_label t \<noteq> [] \<and> word_char (hd (rt_label t))) terms \<and>
     list_all (\<lambda>c. truthy (ct_name c) \<longrightarrow> word_char (hd (the (ct_name c)))) contacts"

definition no_collision :: "string \<Rightarrow> string \<Rightarrow> ReplacementTerm list \<Rightarrow> bool" where
  "no_collision w placeholder terms \<longleftrightarrow>
     list_all (clean w) (anonymous_labels placeholder) \<and> list_all (\<lambda>t. clean w (rt_replacement t)) terms"

lemma term_shape:
  "t \<in> set (buildReplacementTerms account m placeholder) \<Longrightarrow> rt_regex t = buildWordBoundaryRegex (rt_label t)"
  by (auto simp: buildReplacementTerms_def replacement_term_def Let_def split: if_splits)

lemma fold_terms_keep_gone:
  assumes "\<forall>t \<in> set ts. rt_regex t = buildWordBoundaryRegex (rt_label t) \<and> rt_label t \<noteq> [] \<and>
      word_char (hd (rt_label t)) \<and> clean w (rt_replacement t)"
  shows "gone w (scrubbedText st) \<Longrightarrow> gone w (scrubbedText (fold scrub_term ts st))"
  using assms
proof (induction ts arbitrary: st)
  case (Cons t ts)
  then have "gone w (scrubbedText (scrub_term t st))"
    by (simp add: scrub_term_def scrub_step_text buildWordBoundaryRegex_def replace_keeps_gone anchored_term)
  with Cons show ?case by simp
qed simp

lemma fold_terms_make_gone:
  assumes ts: "\<forall>t \<in> set ts. rt_regex t = buildWordBoundaryRegex (rt_label t) \<and> rt_label t \<noteq> [] \<and>
      word_char (hd (rt_label t)) \<and> clean w (rt_replacement t)"
    and t: "t \<in> set ts" "rt_label t = w" and w: "\<forall>c \<in> set w. word_char c" "\<not> (length w \<le> 4 \<and> is_upper w)"
  shows "gone w (scrubbedText (fold scrub_term ts st))"
proof -
  from t(1) obtain as bs where split: "ts = as @ t # bs" by (auto dest: split_list)
  have "w \<noteq> []" using ts t by auto
  then have "gone w (scrubbedText (scrub_term t (fold scrub_term as st)))"
    using ts t w split
    by (auto simp: scrub_term_def scrub_step_text buildWordBoundaryRegex_def
        intro!: replace_makes_gone anchored_term finds_term)
  with fold_terms_keep_gone [of bs w] ts split show ?thesis by simp
qed

lemma fold_names_keep_gone:
  assumes "list_all (\<lambda>c. truthy (ct_name c) \<longrightarrow> word_char (hd (the (ct_name c)))) cs"
    and "list_all (clean w) (anonymous_labels placeholder)"
  shows "gone w (scrubbedText st) \<Longrightarrow> gone w (scrubbedText (fold (scrub_bare_name placeholder) cs st))"
  using assms(1)
proof (induction cs arbitrary: st)
  case (Cons c cs)
  have "gone w (scrubbedText (scrub_bare_name placeholder c st))"
  proof (cases "truthy (ct_name c) \<and> 4 \<le> length (the (ct_name c))")
    case True
    have "clean w (if truthy (ct_title c) then anonymizeTitle (the (ct_title c)) else ''a team member at '' @ placeholder)"
      using assms(2) anonymizeTitle_label [of "the (ct_title c)" placeholder]
      by (auto simp: list_all_iff anonymous_labels_def)
    with True Cons.prems show ?thesis
      by (auto simp: scrub_bare_name_def scrub_step_text intro!: replace_keeps_gone anchored_name elim!: truthyE)
  qed (auto simp: scrub_bare_name_def Cons.prems(1))
  with Cons show ?case by simp
qed simp

lemma scrub_text_gone:
  assumes "t \<in> set (buildReplacementTerms account m placeholder)" "rt_label t = w"
    and "\<forall>c \<in> set w. word_char c" "\<not> (length w \<le> 4 \<and> is_upper w)"
    and "names_regular (buildReplacementTerms account m placeholder) contacts"
    and "no_collision w placeholder (buildReplacementTerms account m placeholder)"
  shows "gone w (scrubbedText (scrub_text account aliases contacts m placeholder s))"
proof -
  have ts: "\<forall>t \<in> set (buildReplacementTerms account m placeholder).
      rt_regex t = buildWordBoundaryRegex (rt_label t) \<and> rt_label t \<noteq> [] \<and>
      word_char (hd (rt_label t)) \<and> clean w (rt_replacement t)"
    using assms(5,6) term_shape by (auto simp: names_regular_def no_collision_def list_all_iff)
  from assms(5,6) show ?thesis
    unfolding scrub_text_def Let_def names_regular_def no_collision_def
    by (simp add: fold_names_keep_gone fold_terms_make_gone [OF ts assms(1-4)])
qed

text \<open>
  Whatever the text, a scrubbed text does not mention a term of the account (its name, the normal form
  of it, a variation of it or a custom one) that is one word, in any case: not even where words were
  replaced by others. Names begin with a letter or digit, the term is not an acronym of at most four
  characters, which is looked for in capitals only, and no replacement text collides with it.
\<close>

theorem scrubbed_name_is_gone:
  assumes "scrubForAccount db accountId text cfg = Inr result" "\<not> cfg_skipScrub cfg"
    and "List.find (\<lambda>a. a_id a = accountId) (sdb_accounts db) = Some account"
    and "terms = buildReplacementTerms account
           (case cfg_customMappings cfg of
              Some m \<Rightarrow> m
            | None \<Rightarrow> (case map_of (sdb_replacements db) (a_organizationId account) of None \<Rightarrow> [] | Some m \<Rightarrow> m))
           placeholder"
    and "placeholder = (case cfg_placeholder cfg of None \<Rightarrow> DEFAULT_PLACEHOLDER | Some p \<Rightarrow> p)"
    and "t \<in> set terms" "\<forall>c \<in> set (rt_label t). word_char c" "\<not> (length (rt_label t) \<le> 4 \<and> is_upper (rt_label t))"
    and "names_regular terms (filter (\<lambda>c. ct_accountId c = accountId) (sdb_contacts db))"
    and "no_collision (rt_label t) placeholder terms"
  shows "\<not> mentions (toLowerCase (rt_label t)) (toLowerCase (scrubbedText result))"
proof -
  have "rt_label t \<noteq> []" using assms(6,9) by (auto simp: names_regular_def list_all_iff)
  moreover have "gone (rt_label t) (scrubbedText result)"
    using assms(1-3,5) scrub_text_gone [OF assms(6) [unfolded assms(4)] refl assms(7,8) assms(9,10) [unfolded assms(4)]]
    by (auto simp: scrubForAccount_def Let_def)
  ultimately show ?thesis using assms(7) by (intro gone_not_mentioned)
qed

end
