(* ===== verification/Scrub_Publishing.thy ===== *)
theory Scrub_Publishing
  imports Company_Scrubber
begin

text \<open>
  The scrubber of \<open>Company_Scrubber\<close> in its place: what it guarantees to the leak check of a
  publication (\<open>detectScrubLeakage\<close> of \<open>src/services/landing-page-editor.ts\<close>), what an anonymous
  attribution can say, and where the scrubber misses. Concrete runs at the end.
\<close>

section \<open>The leak check finds nothing\<close>

lemma words_join_nl: "words (join_nl frags) = concat (map words frags)"
proof (induction frags rule: rev_induct)
  case Nil
  then show ?case by (simp add: join_nl_def words_def)
next
  case (snoc f fs)
  have nl: "words (a @ CHR 0x0A # b) = words a @ words b" for a b
    using words_append [of a "CHR 0x0A # b"] words_append [of "[CHR 0x0A]" b] by (simp add: words_def)
  show ?case
  proof (cases fs)
    case Nil
    then show ?thesis by (simp add: join_nl_def)
  next
    case (Cons g gs)
    then have "join_nl (fs @ [f]) = join_nl fs @ CHR 0x0A # f" by (simp add: join_nl_def)
    with snoc nl show ?thesis by simp
  qed
qed

lemma gone_join: "(\<And>f. f \<in> set frags \<Longrightarrow> gone w f) \<Longrightarrow> gone w (join_nl frags)"
  by (auto simp: gone_words words_join_nl)

text \<open>The scrubber as the editor calls it, with the default configuration.\<close>

definition default_config :: ScrubConfig where
  "default_config = \<lparr> cfg_placeholder = None, cfg_customMappings = None, cfg_skipScrub = False \<rparr>"

definition page_scrubber :: "ScrubDb \<Rightarrow> ident \<Rightarrow> string \<Rightarrow> string" where
  "page_scrubber db accountId text =
     (case scrubForAccount db accountId text default_config of Inl _ \<Rightarrow> text | Inr r \<Rightarrow> scrubbedText r)"

definition org_terms :: "ScrubDb \<Rightarrow> Account \<Rightarrow> ReplacementTerm list" where
  "org_terms db account =
     buildReplacementTerms account
       (case map_of (sdb_replacements db) (a_organizationId account) of None \<Rightarrow> [] | Some m \<Rightarrow> m) DEFAULT_PLACEHOLDER"

lemma page_scrubber_gone:
  assumes "List.find (\<lambda>a. a_id a = accountId) (sdb_accounts db) = Some account"
    and "t \<in> set (org_terms db account)" "rt_label t = w" "\<forall>c \<in> set w. word_char c" "\<not> (length w \<le> 4 \<and> is_upper w)"
    and "names_regular (org_terms db account) (filter (\<lambda>c. ct_accountId c = accountId) (sdb_contacts db))"
    and "no_collision w DEFAULT_PLACEHOLDER (org_terms db account)"
  shows "gone w (page_scrubber db accountId s)"
  using assms(1) scrub_text_gone [OF assms(2-7) [unfolded org_terms_def]]
  by (simp add: page_scrubber_def scrubForAccount_def default_config_def)

lemma gone_Nil: "gone w []"
  by (simp add: gone_def toLowerCase_def words_def)


section \<open>Attributions\<close>

lemma anonymizeTitle_range: "anonymizeTitle title \<in> insert ''a team member at the client'' (snd ` set TITLE_ANONYMIZER)"
  by (force simp: anonymizeTitle_def dest!: find_SomeD split: option.splits)

text \<open>
  An anonymous attribution depends on the title only, and only through the fixed descriptions: it
  never shows a name, a title or the company.
\<close>

theorem anonymous_attribution:
  "formatAttribution name title False company = formatAttribution name' title False company' \<and>
   formatInlineAttribution title False company = formatAttribution name title False company \<and>
   formatAttribution name title False company \<in> insert ''a team member at the client'' (snd ` set TITLE_ANONYMIZER)"
  using anonymizeTitle_range [of "the title"] by (simp add: formatAttribution_def formatInlineAttribution_def)

section \<open>Where the scrubber misses\<close>

lemma replace_by_itself: "replace_all ci r ''$&'' l s = s"
proof (induction "length s" arbitrary: l s rule: less_induct)
  case less
  show ?case
  proof (cases "exec ci r l s")
    case (Some m)
    then obtain u where u: "s = u @ mt_text m @ mt_rest m" "mt_index m = length l + length u" by (rule exec_at)
    from u(2) have gap: "take (mt_index m - length l) s = u" by (simp add: u(1))
    show ?thesis
    proof (cases "mt_text m = []")
      case True
      then have "replace_all ci r ''$&'' l s =
          (case mt_rest m of [] \<Rightarrow> u | c # s' \<Rightarrow> u @ [c] @ replace_all ci r ''$&'' (c # mt_left m) s')"
        by (simp add: replace_all.simps [of ci r "''$&''" l s] Some Let_def gap split: list.split)
      with True less [of "tl (mt_rest m)"] show ?thesis by (cases "mt_rest m") (simp_all add: u(1))
    next
      case False
      then have "length (mt_rest m) < length s" by (cases "mt_text m") (simp_all add: u(1))
      with False show ?thesis
        by (simp add: replace_all.simps [of ci r "''$&''" l s] Some Let_def gap less) (simp add: u(1))
    qed
  qed (simp add: replace_all.simps [of ci r "''$&''" l s])
qed

text \<open>
  A custom replacement is a template of \<open>String.replace\<close>: the replacement \<open>$&\<close> of an organization
  leaves the term where it is, although it is counted and reported as replaced.
\<close>

theorem dollar_replacement_keeps_name:
  assumes "rx_test (fst (buildWordBoundaryRegex name)) (snd (buildWordBoundaryRegex name)) (scrubbedText st)"
  shows "scrubbedText (scrub_term (replacement_term name ''$&'') st) = scrubbedText st \<and>
    name \<in> set (termsReplaced (scrub_term (replacement_term name ''$&'') st)) \<and>
    replacementsMade st < replacementsMade (scrub_term (replacement_term name ''$&'') st)"
proof -
  have "rx_matches (fst (buildWordBoundaryRegex name)) (snd (buildWordBoundaryRegex name)) (scrubbedText st) \<noteq> []"
    using assms by (simp add: rx_matches_Nil)
  then show ?thesis
    by (simp add: scrub_term_def replacement_term_def scrub_step_def Let_def rx_replace_def replace_by_itself)
qed

text \<open>Wherever the name stands (up to case), no word character follows it.\<close>

definition nothing_follows :: "string \<Rightarrow> string \<Rightarrow> bool" where
  "nothing_follows n s =
     list_all (\<lambda>i. length n \<le> length (drop i s) \<and> same_text True n (take (length n) (drop i s)) \<longrightarrow>
                   \<not> is_word (first_char (drop (i + length n) s))) [0..<Suc (length s)]"

text \<open>
  A contact whose name ends in a full stop (or any other character that is not a word character) is
  not anonymized: the pattern asks for a word boundary behind the full stop, which is there only if a
  word character follows at once. Bare mentions of the name stay in the text.
\<close>

theorem dotted_contact_name_remains:
  assumes "ct_name contact = Some name" "name \<noteq> []" "\<not> word_char (last name)"
    and "nothing_follows name (scrubbedText st)"
  shows "scrub_bare_name placeholder contact st = st"
proof -
  have "match_here True (bounded (lit name)) (rev a @ []) b = None" if s: "scrubbedText st = a @ b" for a b
  proof (rule ccontr)
    assume "match_here True (bounded (lit name)) (rev a @ []) b \<noteq> None"
    then have n: "length name \<le> length b" and same: "same_text True name (take (length name) b)"
      and e: "boundary (first_char (rev (take (length name) b) @ rev a)) (first_char (drop (length name) b))"
      by (auto simp: match_here_none bounded_def rx_match_lit split: if_splits)
    let ?x = "take (length name) b"
    have x: "?x \<noteq> []" using assms(2) n by auto
    from same have "lower_char (last name) = lower_char (last ?x)"
      using x assms(2) by (metis (full_types) last_map same_text_def)
    with assms(3) have "\<not> word_char (last ?x)" by (metis word_char_lower)
    with x have "\<not> is_word (first_char (rev ?x @ rev a))" by (simp add: first_char_append first_char_rev)
    with e have "is_word (first_char (drop (length name) b))" by (simp add: boundary_def)
    moreover have "\<not> is_word (first_char (drop (length a + length name) (scrubbedText st)))"
      using assms(4) n same s unfolding nothing_follows_def list_all_iff by (auto simp del: drop_append dest!: bspec [of _ _ "length a"]) simp_all
    ultimately show False by (simp add: s)
  qed
  then have "exec True (bounded (lit name)) [] (scrubbedText st) = None" by (simp add: exec_None)
  then have "rx_matches True (bounded (lit name)) (scrubbedText st) = []"
    by (simp add: rx_matches_Nil rx_test_def)
  then show ?thesis by (simp add: scrub_bare_name_def scrub_step_def assms(1))
qed

section \<open>Concrete runs\<close>

definition acme :: Account where
  "acme =
     \<lparr> a_id = ''a1'', a_organizationId = ''org'', a_name = ''Acme'', a_normalizedName = ''acme'', a_domain = None,
       a_salesforceId = None, a_hubspotId = None, a_mergeAccountId = None, a_industry = None,
       a_employeeCount = None, a_annualRevenue = None \<rparr>"

definition jr :: ContactInfo where
  "jr = \<lparr> ct_id = ''c1'', ct_accountId = ''a1'', ct_email = [], ct_name = Some ''Sam Fox Jr.'', ct_title = None \<rparr>"

definition acme_db :: ScrubDb where
  "acme_db = \<lparr> sdb_accounts = [acme], sdb_domains = [], sdb_contacts = [], sdb_replacements = [] \<rparr>"

lemma acme_find: "List.find (\<lambda>a. a_id a = ''a1'') (sdb_accounts acme_db) = Some acme"
  by (simp add: acme_db_def acme_def)

lemma acme_terms: "org_terms acme_db acme = [replacement_term ''Acme'' ''the client'', replacement_term ''acme'' ''the client'']"
  by code_simp

lemma acme_names:
  "names_regular (org_terms acme_db acme) (filter (\<lambda>c. ct_accountId c = ''a1'') (sdb_contacts acme_db))"
  unfolding acme_terms by code_simp

lemma acme_clean: "no_collision ''acme'' DEFAULT_PLACEHOLDER (org_terms acme_db acme)"
  unfolding acme_terms by code_simp

lemma acme_run:
  "scrubForAccount acme_db ''a1'' ''ACME and acme-led'' default_config =
     Inr \<lparr> scrubbedText = ''the client and the client'', replacementsMade = 2, termsReplaced = [''Acme''] \<rparr>"
  by code_simp

abbreviation acme_term :: ReplacementTerm where
  "acme_term \<equiv> replacement_term ''acme'' ''the client''"

lemma acme_word:
  "\<forall>c \<in> set (rt_label acme_term). word_char c"
  "\<not> (length (rt_label acme_term) \<le> 4 \<and> is_upper (rt_label acme_term))"
  "rt_label acme_term = ''acme''" "toLowerCase ''acme'' = ''acme''"
  by code_simp+

lemma acme_in: "acme_term \<in> set (org_terms acme_db acme)"
  by (simp add: acme_terms)

theorem scrubbed_name_is_gone_witness:
  "\<not> mentions ''acme'' (toLowerCase ''the client and the client'')"
proof -
  have "\<not> mentions (toLowerCase (rt_label acme_term)) (toLowerCase (scrubbedText
      \<lparr> scrubbedText = ''the client and the client'', replacementsMade = 2, termsReplaced = [''Acme''] \<rparr>))"
  proof (rule scrubbed_name_is_gone [OF acme_run _ acme_find _ _ acme_in acme_word(1,2) acme_names])
    show "no_collision (rt_label acme_term) DEFAULT_PLACEHOLDER (org_terms acme_db acme)"
      using acme_clean by (simp only: acme_word(3))
  qed (simp_all add: default_config_def org_terms_def)
  then show ?thesis unfolding acme_word(3,4) ScrubResult.simps .
qed

definition acme_page :: LandingPage where
  "acme_page =
     \<lparr> lp_id = ''p1'', lp_organizationId = ''org'', lp_storyId = ''s1'', lp_createdById = ''u1'',
       lp_slug = ''story-1'', lp_title = ''Acme wins'', lp_subtitle = None, lp_editableBody = ''ACME and acme-led'',
       lp_scrubbedBody = [], lp_scrubbedTitle = None, lp_scrubbedSubtitle = None, lp_heroImageUrl = None,
       lp_calloutBoxes = None, lp_scrubbedCalloutBoxes = None, lp_totalCallHours = 0, lp_visibility = PRIVATE,
       lp_status = PAGE_DRAFT, lp_password = None, lp_includeCompanyName = False, lp_noIndex = True,
       lp_customCss = None, lp_viewCount = 0, lp_publishedAt = None, lp_expiresAt = None, lp_updatedAt = 100 \<rparr>"

definition acme_pages :: PageDb where
  "acme_pages =
     \<lparr> pdb_pages = [acme_page], pdb_edits = [], pdb_versions = [], pdb_stories = [], pdb_accounts = [acme],
       pdb_domains = [], pdb_calls = [], pdb_quotes = [], pdb_settings = [] \<rparr>"


definition start_text :: "string \<Rightarrow> ScrubResult" where
  "start_text s = \<lparr> scrubbedText = s, replacementsMade = 0, termsReplaced = [] \<rparr>"

theorem dollar_replacement_keeps_name_witness:
  "scrubbedText (scrub_term (replacement_term ''Acme'' ''$&'') (start_text ''By Acme'')) = ''By Acme''"
proof -
  have "rx_test (fst (buildWordBoundaryRegex ''Acme'')) (snd (buildWordBoundaryRegex ''Acme'')) (scrubbedText (start_text ''By Acme''))"
    by code_simp
  from dollar_replacement_keeps_name [OF this] show ?thesis by (simp add: start_text_def)
qed

theorem dotted_contact_name_remains_witness:
  "scrubbedText (scrub_text acme [] [jr] [] ''the client'' ''Sam Fox Jr. of Acme'') = ''Sam Fox Jr. of the client'' \<and>
   scrub_bare_name ''the client'' jr (start_text ''Sam Fox Jr. of Acme'') = start_text ''Sam Fox Jr. of Acme''"
proof
  show "scrubbedText (scrub_text acme [] [jr] [] ''the client'' ''Sam Fox Jr. of Acme'') = ''Sam Fox Jr. of the client''"
    by code_simp
  have "nothing_follows ''Sam Fox Jr.'' (scrubbedText (start_text ''Sam Fox Jr. of Acme''))" by code_simp
  moreover have "\<not> word_char (last ''Sam Fox Jr.'')" by (simp add: word_char_def is_lower_az_def is_digit_def)
  ultimately show "scrub_bare_name ''the client'' jr (start_text ''Sam Fox Jr. of Acme'') = start_text ''Sam Fox Jr. of Acme''"
    by (intro dotted_contact_name_remains) (simp_all add: jr_def)
qed

end
