(* ===== verification/Pii_Masker.thy ===== *)
theory Pii_Masker
  imports Regex_Replace "HOL-Library.Product_Lexorder" "HOL-Library.Multiset"
begin

text \<open>
  The masking of personal data in transcripts, \<open>src/middleware/pii-masker.ts\<close>: nine detectors made of
  regular expressions, the choice of detections that do not overlap, and the replacement of the chosen
  ones from the end of the text to its start.

  The loops over \<open>regex.exec\<close> would not end on a pattern that matches the empty text; masking is
  therefore a partial function here, and that it always returns is a theorem. The reference for what
  masking does is \<open>redact\<close>, one pass from left to right.
\<close>

section \<open>Detections\<close>

datatype PIIType =
  email | phone | ssn | credit_card | ip_address | street_address | date_of_birth | person_name | account_identifier

record PIIDetection =
  pii_type :: PIIType
  original :: string
  replacement :: string
  startIndex :: nat
  endIndex :: nat

record DetectionCandidate = PIIDetection +
  priority :: nat

section \<open>Patterns\<close>

definition upper_az :: "char \<Rightarrow> bool" where
  "upper_az c \<longleftrightarrow> 65 \<le> (of_char c :: nat) \<and> (of_char c :: nat) \<le> 90"

definition az :: "char \<Rightarrow> bool" where
  "az c \<longleftrightarrow> upper_az c \<or> is_lower_az c"

definition az_digit :: "char \<Rightarrow> bool" where
  "az_digit c \<longleftrightarrow> az c \<or> is_digit c"

definition chr :: "char \<Rightarrow> rx" where
  "chr c = CharSet (\<lambda>d. d = c)"

definition one_of :: "string \<Rightarrow> rx" where
  "one_of cs = CharSet (\<lambda>d. d \<in> set cs)"

definition digit :: rx where
  "digit = CharSet is_digit"

definition ws :: rx where
  "ws = CharSet js_ws"

definition times :: "rx \<Rightarrow> nat \<Rightarrow> nat \<Rightarrow> rx" where
  "times r mn mx = Rep mn (Some mx) r"

definition dash_or_ws :: rx where
  "dash_or_ws = CharSet (\<lambda>d. d = CHR ''-'' \<or> js_ws d)"

definition phone_sep :: rx where
  "phone_sep = CharSet (\<lambda>d. d \<in> set ''-.'' \<or> js_ws d)"

definition email_rx :: rx where
  "email_rx = rx_seq
     [rx_plus (CharSet (\<lambda>d. az_digit d \<or> d \<in> set ''._%+-'')), chr CHR ''@'',
      rx_plus (CharSet (\<lambda>d. az_digit d \<or> d \<in> set ''.-'')), chr CHR ''.'', Rep 2 None (CharSet az)]"

definition ssn_rx :: rx where
  "ssn_rx = rx_seq
     [WordB, NotAhead (rx_alts [lit ''000'', lit ''666'', Seq (lit ''9'') (times digit 2 2)]), times digit 3 3,
      Group 1 dash_or_ws, NotAhead (lit ''00''), times digit 2 2, Backref 1, NotAhead (lit ''0000''), times digit 4 4,
      WordB]"

definition card_rx :: rx where
  "card_rx = rx_seq
     [WordB, times digit 4 4, rx_opt dash_or_ws, times digit 4 4, rx_opt dash_or_ws, times digit 4 4,
      rx_opt dash_or_ws, times digit 4 4, WordB]"

definition phone_rx :: rx where
  "phone_rx = rx_seq
     [rx_opt (rx_seq [rx_opt (lit ''+''), lit ''1'', rx_opt phone_sep]), rx_opt (lit ''(''), times digit 3 3,
      rx_opt (lit '')''), rx_opt phone_sep, times digit 3 3, rx_opt phone_sep, times digit 4 4, WordB]"

definition ip_rx :: rx where
  "ip_rx = rx_seq [WordB, times (Seq (times digit 1 3) (lit ''.'')) 3 3, times digit 1 3, WordB]"

definition street_rx :: rx where
  "street_rx = rx_seq
     [WordB, times digit 1 6, rx_plus ws,
      times (CharSet (\<lambda>d. az_digit d \<or> d \<in> set (CHR 0x27 # ''.-'') \<or> js_ws d)) 2 40, ws,
      rx_alts (map lit [''Street'', ''St'', ''Avenue'', ''Ave'', ''Road'', ''Rd'', ''Boulevard'', ''Blvd'', ''Lane'', ''Ln'',
        ''Drive'', ''Dr'', ''Court'', ''Ct'', ''Way'', ''Place'', ''Pl'', ''Terrace'', ''Ter'']),
      WordB,
      rx_opt (rx_seq [lit '','', rx_star ws, times (CharSet (\<lambda>d. az d \<or> d \<in> set (CHR 0x27 # '' .-''))) 2 30]),
      rx_opt (rx_seq [lit '','', rx_star ws, times (CharSet upper_az) 2 2]),
      rx_opt (rx_seq [rx_plus ws, times digit 5 5, rx_opt (Seq (lit ''-'') (times digit 4 4))])]"

definition dob_rx :: rx where
  "dob_rx = rx_seq
     [rx_alts (map lit [''date of birth'', ''DOB'', ''born on'']), rx_plus (CharSet (\<lambda>d. d = CHR '':'' \<or> js_ws d)),
      times digit 1 2, one_of ''/-'', times digit 1 2, one_of ''/-'', times digit 2 4]"

record PiiPattern =
  pp_type :: PIIType
  pp_ci :: bool
  pp_rx :: rx
  pp_replacement :: string
  pp_priority :: nat

definition PII_PATTERNS :: "PiiPattern list" where
  "PII_PATTERNS =
     [\<lparr> pp_type = email, pp_ci = False, pp_rx = email_rx, pp_replacement = ''[EMAIL_REDACTED]'', pp_priority = 120 \<rparr>,
      \<lparr> pp_type = ssn, pp_ci = False, pp_rx = ssn_rx, pp_replacement = ''[SSN_REDACTED]'', pp_priority = 115 \<rparr>,
      \<lparr> pp_type = credit_card, pp_ci = False, pp_rx = card_rx, pp_replacement = ''[CC_REDACTED]'', pp_priority = 110 \<rparr>,
      \<lparr> pp_type = phone, pp_ci = False, pp_rx = phone_rx, pp_replacement = ''[PHONE_REDACTED]'', pp_priority = 100 \<rparr>,
      \<lparr> pp_type = ip_address, pp_ci = False, pp_rx = ip_rx, pp_replacement = ''[IP_REDACTED]'', pp_priority = 95 \<rparr>,
      \<lparr> pp_type = street_address, pp_ci = True, pp_rx = street_rx, pp_replacement = ''[ADDRESS_REDACTED]'',
         pp_priority = 92 \<rparr>,
      \<lparr> pp_type = date_of_birth, pp_ci = True, pp_rx = dob_rx, pp_replacement = ''[DOB_REDACTED]'', pp_priority = 90 \<rparr>]"

text \<open>The two detectors that mask a part of what they match: the capture.\<close>

definition name_rx :: rx where
  "name_rx =
     Seq (rx_seq
       [WordB, rx_alts (map lit [''my name is'', ''name is'', ''this is'', ''i am'', ''i'' @ [CHR 0x27] @ ''m'', ''spoke with'',
          ''met with'', ''contact is'']), rx_plus ws])
     (Seq (Group 1 (Seq (Seq (CharSet upper_az) (rx_plus (CharSet is_lower_az)))
        (times (rx_seq [rx_plus ws, CharSet upper_az, rx_plus (CharSet is_lower_az)]) 1 2))) WordB)"

definition id_rx :: rx where
  "id_rx =
     Seq (rx_seq
       [WordB, rx_alts (map lit [''customer'', ''employee'', ''member'', ''account'', ''case'', ''ticket'']), rx_star ws,
        Alt (lit ''identifier'') (lit ''id''), rx_star (CharSet (\<lambda>d. d \<in> set '':#-'' \<or> js_ws d))])
     (Seq (Group 1 (Seq (CharSet (\<lambda>d. upper_az d \<or> is_digit d))
        (Rep 5 None (CharSet (\<lambda>d. upper_az d \<or> is_digit d \<or> d = CHR ''-''))))) WordB)"

section \<open>Candidates\<close>

text \<open>\<open>indexOf\<close> and \<open>lastIndexOf\<close>; \<open>None\<close> is the answer -1.\<close>

definition occurs_at :: "string \<Rightarrow> string \<Rightarrow> nat \<Rightarrow> bool" where
  "occurs_at w s i \<longleftrightarrow> take (length w) (drop i s) = w"

definition index_of :: "string \<Rightarrow> string \<Rightarrow> nat option" where
  "index_of w s = List.find (occurs_at w s) [0..<Suc (length s)]"

definition last_index_of :: "string \<Rightarrow> string \<Rightarrow> nat option" where
  "last_index_of w s = List.find (occurs_at w s) (rev [0..<Suc (length s)])"

definition js_index :: "nat option \<Rightarrow> int" where
  "js_index i = (case i of None \<Rightarrow> -1 | Some n \<Rightarrow> int n)"

definition regex_candidate :: "PiiPattern \<Rightarrow> found \<Rightarrow> DetectionCandidate" where
  "regex_candidate p m =
     \<lparr> pii_type = pp_type p, original = mt_text m, replacement = pp_replacement p, startIndex = mt_index m,
       endIndex = mt_index m + length (mt_text m), priority = pp_priority p \<rparr>"

fun collectRegexCandidates :: "PiiPattern list \<Rightarrow> string \<Rightarrow> DetectionCandidate list option" where
  "collectRegexCandidates [] text = Some []"
| "collectRegexCandidates (p # ps) text =
     do { ms \<leftarrow> exec_loop (pp_ci p) (pp_rx p) [] text;
          cs \<leftarrow> collectRegexCandidates ps text;
          Some (map (regex_candidate p) ms @ cs) }"

text \<open>\<open>start\<close> is the offset of the capture in the match, as the code computes it.\<close>

definition capture_candidate ::
  "PIIType \<Rightarrow> string \<Rightarrow> nat \<Rightarrow> (string \<Rightarrow> string \<Rightarrow> nat option) \<Rightarrow> found \<Rightarrow> DetectionCandidate option" where
  "capture_candidate ty repl prio offset m =
     (case map_of (mt_caps m) 1 of
        None \<Rightarrow> None
      | Some captured \<Rightarrow>
          if captured = [] then None
          else
            let start = nat (int (mt_index m) + js_index (offset captured (mt_text m))) in
            Some \<lparr> pii_type = ty, original = captured, replacement = repl, startIndex = start,
                   endIndex = start + length captured, priority = prio \<rparr>)"

definition name_candidate :: "found \<Rightarrow> DetectionCandidate option" where
  "name_candidate = capture_candidate person_name ''[NAME_REDACTED]'' 86 index_of"

definition id_candidate :: "found \<Rightarrow> DetectionCandidate option" where
  "id_candidate = capture_candidate account_identifier ''[ID_REDACTED]'' 84
     (\<lambda>captured full. last_index_of (toLowerCase captured) (toLowerCase full))"

definition collectHeuristicCandidates :: "string \<Rightarrow> DetectionCandidate list option" where
  "collectHeuristicCandidates text =
     do { names \<leftarrow> exec_loop True name_rx [] text;
          ids \<leftarrow> exec_loop True id_rx [] text;
          Some (List.map_filter name_candidate names @ List.map_filter id_candidate ids) }"

section \<open>Selection and masking\<close>

definition rangesOverlap :: "nat \<Rightarrow> nat \<Rightarrow> nat \<Rightarrow> nat \<Rightarrow> bool" where
  "rangesOverlap startA endA startB endB \<longleftrightarrow> startA < endB \<and> startB < endA"

definition overlaps :: "('a) PIIDetection_scheme \<Rightarrow> ('b) PIIDetection_scheme \<Rightarrow> bool" where
  "overlaps a b = rangesOverlap (startIndex a) (endIndex a) (startIndex b) (endIndex b)"

text \<open>The comparison: higher priority, then longer, then earlier. JavaScript's sort is stable, as is
  \<open>sort_key\<close>.\<close>

definition rank :: "DetectionCandidate \<Rightarrow> int \<times> int \<times> int" where
  "rank c = (- int (priority c), - (int (endIndex c) - int (startIndex c)), int (startIndex c))"

fun select :: "DetectionCandidate list \<Rightarrow> DetectionCandidate list \<Rightarrow> DetectionCandidate list" where
  "select [] selected = selected"
| "select (c # cs) selected =
     select cs (if list_ex (overlaps c) selected then selected else selected @ [c])"

definition chosen :: "DetectionCandidate list \<Rightarrow> PIIDetection list" where
  "chosen candidates =
     map PIIDetection.truncate (sort_key startIndex (select (sort_key rank candidates) []))"

definition collectPIIDetections :: "string \<Rightarrow> PIIDetection list option" where
  "collectPIIDetections text =
     do { rs \<leftarrow> collectRegexCandidates PII_PATTERNS text;
          hs \<leftarrow> collectHeuristicCandidates text;
          Some (chosen (rs @ hs)) }"

definition mask_one :: "PIIDetection \<Rightarrow> string \<Rightarrow> string" where
  "mask_one d text = take (startIndex d) text @ replacement d @ drop (endIndex d) text"

definition maskPII :: "string \<Rightarrow> (string \<times> PIIDetection list) option" where
  "maskPII text =
     do { detections \<leftarrow> collectPIIDetections text;
          Some (if detections = [] then (text, [])
                else (fold mask_one (sort_key (\<lambda>d. - int (startIndex d)) detections) text, detections)) }"

definition containsPII :: "string \<Rightarrow> bool option" where
  "containsPII text = do { ds \<leftarrow> collectPIIDetections text; Some (ds \<noteq> []) }"

fun maskTranscriptChunks :: "string list \<Rightarrow> (string list \<times> PIIDetection list) option" where
  "maskTranscriptChunks [] = Some ([], [])"
| "maskTranscriptChunks (c # cs) =
     do { (masked, ds) \<leftarrow> maskPII c;
          (rest, ds') \<leftarrow> maskTranscriptChunks cs;
          Some (masked # rest, ds @ ds') }"

section \<open>Masking returns\<close>

lemmas pattern_defs = email_rx_def ssn_rx_def card_rx_def phone_rx_def ip_rx_def street_rx_def dob_rx_def
  name_rx_def id_rx_def

lemmas rx_shape_defs = rx_seq_def rx_plus_def rx_star_def rx_opt_def times_def chr_def one_of_def digit_def ws_def
  dash_or_ws_def phone_sep_def lit_def

lemma patterns_nonempty: "p \<in> set PII_PATTERNS \<Longrightarrow> 0 < min_len (pp_rx p)"
  by (auto simp: PII_PATTERNS_def pattern_defs rx_shape_defs)

lemma heuristics_nonempty: "0 < min_len name_rx" "0 < min_len id_rx"
  by (simp_all add: pattern_defs rx_shape_defs)

lemma collectRegexCandidates_returns:
  "(\<And>p. p \<in> set ps \<Longrightarrow> 0 < min_len (pp_rx p)) \<Longrightarrow> \<exists>cs. collectRegexCandidates ps text = Some cs"
proof (induction ps)
  case (Cons p ps)
  then obtain cs where "collectRegexCandidates ps text = Some cs" by auto
  moreover obtain ms where "exec_loop (pp_ci p) (pp_rx p) [] text = Some ms"
    using exec_loop_returns Cons.prems by (metis list.set_intros(1))
  ultimately show ?case by simp
qed simp

lemma collectHeuristicCandidates_returns: "\<exists>cs. collectHeuristicCandidates text = Some cs"
proof -
  obtain ns js where "exec_loop True name_rx [] text = Some ns" "exec_loop True id_rx [] text = Some js"
    using exec_loop_returns heuristics_nonempty by metis
  then show ?thesis by (simp add: collectHeuristicCandidates_def)
qed

text \<open>
  C27. Masking returns for every text: none of the loops over the nine detectors runs forever, because no
  detector matches the empty text.
\<close>

theorem maskPII_returns: "\<exists>masked detections. maskPII text = Some (masked, detections)"
proof -
  obtain rs hs where "collectRegexCandidates PII_PATTERNS text = Some rs" "collectHeuristicCandidates text = Some hs"
    using collectRegexCandidates_returns [of PII_PATTERNS] patterns_nonempty collectHeuristicCandidates_returns by metis
  then show ?thesis by (auto simp: maskPII_def collectPIIDetections_def)
qed

section \<open>Candidates are parts of the text\<close>

lemma length_toLowerCase': "length (toLowerCase s) = length s"
  by (simp add: toLowerCase_def)


definition valid_in :: "string \<Rightarrow> ('a) PIIDetection_scheme \<Rightarrow> bool" where
  "valid_in text d \<longleftrightarrow>
     startIndex d < endIndex d \<and> endIndex d \<le> length text \<and> original d = slice (startIndex d) (endIndex d) text"

lemma regex_candidates_valid:
  assumes "\<And>p. p \<in> set ps \<Longrightarrow> 0 < min_len (pp_rx p)"
  shows "collectRegexCandidates ps text = Some cs \<Longrightarrow> c \<in> set cs \<Longrightarrow> valid_in text c"
  using assms
proof (induction ps arbitrary: cs)
  case (Cons p ps)
  from Cons.prems(1) obtain ms cs' where e: "exec_loop (pp_ci p) (pp_rx p) [] text = Some ms"
    "collectRegexCandidates ps text = Some cs'" "cs = map (regex_candidate p) ms @ cs'"
    by (auto simp: bind_eq_Some_conv)
  show ?case
  proof (cases "c \<in> set cs'")
    case True
    with Cons e show ?thesis by auto
  next
    case False
    with e Cons.prems(2) obtain m where m: "m \<in> set ms" "c = regex_candidate p m" by auto
    from exec_loop_found [OF e(1) m(1)] Cons.prems(3) [of p] show ?thesis
      by (auto simp: valid_in_def m(2) regex_candidate_def)
  qed
qed simp

lemma captured_suffix:
  assumes "match_here ci (Seq a (Seq (Group n b) WordB)) l s = Some m"
  shows "\<exists>w. map_of (mt_caps m) n = Some w \<and> suffix w (mt_text m) \<and> min_len b \<le> length w"
proof -
  from match_here_in [OF assms] obtain st1 st2 where st: "st1 \<in> set (rx_match ci a (l, s, []))" "st2 \<in> set (rx_match ci (Group n b) st1)"
    "(mt_left m, mt_rest m, mt_caps m) \<in> set (rx_match ci WordB st2)" unfolding rx_match_Seq by blast
  obtain l1 s1 k1 where st1: "st1 = (l1, s1, k1)" by (cases st1)
  from st(3) have st2: "st2 = (mt_left m, mt_rest m, mt_caps m)" by (cases st2) (auto split: if_splits)
  from st(2) obtain k' where i: "(mt_left m, mt_rest m, k') \<in> set (rx_match ci b st1)"
    and k: "mt_caps m = (n, take (length s1 - length (mt_rest m)) s1) # k'"
    by (auto simp: st1 st2)
  from rx_match_advances [OF i] obtain w where w: "s1 = w @ mt_rest m" by (auto simp: advances_def st1)
  from rx_match_advances [OF st(1)] obtain v where "s = v @ s1" by (auto simp: advances_def st1)
  with w match_here_Some(1) [OF assms] have "mt_text m = v @ w" by simp
  moreover have "min_len b \<le> length w" using rx_match_min_len [OF i] w by (simp add: st1)
  ultimately show ?thesis using k w by (auto simp: suffix_def)
qed

lemma slice_part:
  assumes "slice i (i + length f) text = f" "i + length f \<le> length text" "occurs_at w f p" "w \<noteq> []"
  shows "slice (i + p) (i + p + length w) text = w \<and> i + p + length w \<le> length text"
proof -
  have f: "f = take (length f) (drop i text)" using assms(1) by (simp add: slice_def drop_take)
  have w: "w = take (length w) (drop p f)" using assms(3) by (simp add: occurs_at_def)
  then have len: "p + length w \<le> length f"
    by (metis assms(4) length_drop length_take min.absorb_iff2 min.cobounded1 le_diff_conv2 length_0_conv nat_le_linear
        add.commute diff_is_0_eq' le_zero_eq)
  have "w = take (length w) (drop p (take (length f) (drop i text)))" using w f by simp
  also have "\<dots> = take (length w) (drop (i + p) text)"
    using len by (simp add: drop_take add.commute)
  finally show ?thesis using len assms(2) by (simp add: slice_def drop_take)
qed

lemma index_of_suffix:
  assumes "suffix w f"
  shows "\<exists>p. index_of w f = Some p \<and> occurs_at w f p"
proof -
  have "occurs_at w f (length f - length w)" using assms by (auto simp: suffix_def occurs_at_def)
  moreover have "length f - length w \<in> set [0..<Suc (length f)]" by (auto simp del: upt_Suc)
  ultimately obtain p where p: "index_of w f = Some p"
    unfolding index_of_def using find_ex [of "occurs_at w f" "[0..<Suc (length f)]"] by blast
  then have "occurs_at w f p" unfolding index_of_def by (rule find_SomeD [THEN conjunct2])
  with p show ?thesis by blast
qed

lemma last_index_of_suffix:
  assumes "suffix w f" "w \<noteq> []"
  shows "last_index_of (toLowerCase w) (toLowerCase f) = Some (length f - length w)"
proof -
  let ?P = "occurs_at (toLowerCase w) (toLowerCase f)" and ?q = "length f - length w"
  have q: "?P ?q" using assms by (auto simp: suffix_def occurs_at_def toLowerCase_def)
  have no: "\<not> ?P i" if "?q < i" for i
  proof
    assume "?P i"
    then have "length (take (length (toLowerCase w)) (drop i (toLowerCase f))) = length (toLowerCase w)"
      unfolding occurs_at_def by (rule arg_cong)
    with that assms(2) show False by (cases w) (auto simp: length_toLowerCase')
  qed
  have split: "[0..<Suc (length f)] = [0..<?q] @ ?q # [Suc ?q..<Suc (length f)]"
    by (metis add_diff_inverse_nat diff_le_self le_imp_less_Suc less_imp_le_nat not_less_eq upt_conv_Cons upt_add_eq_append le0 plus_nat.add_0)
  have "List.find ?P (rev [Suc ?q..<Suc (length f)]) = None" using no by (auto simp: find_None_iff)
  then show ?thesis unfolding last_index_of_def by (simp add: length_toLowerCase' split find_append q del: upt_Suc)
qed

lemma capture_candidate_valid:
  assumes m: "exec_loop ci (Seq a (Seq (Group 1 b) WordB)) [] text = Some ms" "m \<in> set ms" "0 < min_len b"
    and c: "capture_candidate ty repl prio offset m = Some c"
    and off: "\<And>w f. suffix w f \<Longrightarrow> w \<noteq> [] \<Longrightarrow> \<exists>p. offset w f = Some p \<and> occurs_at w f p"
  shows "valid_in text c"
proof -
  from exec_loop_match [OF m(1,2)] captured_suffix obtain w
    where w: "map_of (mt_caps m) 1 = Some w" "suffix w (mt_text m)" "min_len b \<le> length w" by blast
  with m(3) have ne: "w \<noteq> []" by auto
  from off [OF w(2) ne] obtain p where p: "offset w (mt_text m) = Some p" "occurs_at w (mt_text m) p" by blast
  from exec_loop_found [OF m(1,2)] have "slice (mt_index m) (mt_index m + length (mt_text m)) text = mt_text m"
    "mt_index m + length (mt_text m) \<le> length text" by auto
  from slice_part [OF this p(2) ne] c w(1) p(1) ne show ?thesis
    by (auto simp: capture_candidate_def js_index_def valid_in_def Let_def nat_int_add)
qed

lemma heuristic_candidates_valid:
  assumes "collectHeuristicCandidates text = Some cs" "c \<in> set cs"
  shows "valid_in text c"
proof -
  from assms(1) obtain ns js where e: "exec_loop True name_rx [] text = Some ns" "exec_loop True id_rx [] text = Some js"
    and cs: "cs = List.map_filter name_candidate ns @ List.map_filter id_candidate js"
    by (auto simp: collectHeuristicCandidates_def bind_eq_Some_conv)
  from assms(2) cs consider m where "m \<in> set ns" "name_candidate m = Some c" | m where "m \<in> set js" "id_candidate m = Some c"
    by (auto simp: List.map_filter_def)
  then show ?thesis
  proof cases
    case 1
    from capture_candidate_valid [OF e(1) [unfolded name_rx_def] 1(1) _ 1(2) [unfolded name_candidate_def]]
    show ?thesis using index_of_suffix by (simp add: rx_shape_defs)
  next
    case 2
    have "\<exists>p. last_index_of (toLowerCase w) (toLowerCase f) = Some p \<and> occurs_at w f p" if "suffix w f" "w \<noteq> []" for w f
      using last_index_of_suffix [OF that] that(1) by (auto simp: suffix_def occurs_at_def)
    with capture_candidate_valid [OF e(2) [unfolded id_rx_def] 2(1) _ 2(2) [unfolded id_candidate_def]]
    show ?thesis by (simp add: rx_shape_defs)
  qed
qed

section \<open>Selection\<close>

lemma overlaps_sym: "overlaps a b = overlaps b a"
  by (auto simp: overlaps_def rangesOverlap_def)

definition apart :: "('a) PIIDetection_scheme list \<Rightarrow> bool" where
  "apart ds \<longleftrightarrow> distinct ds \<and> (\<forall>a \<in> set ds. \<forall>b \<in> set ds. a \<noteq> b \<longrightarrow> \<not> overlaps a b)"

lemma select_apart:
  assumes "\<forall>c \<in> set cs. startIndex c < endIndex c"
  shows "apart sel \<Longrightarrow> apart (select cs sel)"
  using assms
proof (induction cs sel rule: select.induct)
  case (2 c cs sel)
  have "apart (sel @ [c])" if "\<not> list_ex (overlaps c) sel"
  proof -
    from 2(3) have "overlaps c c" by (simp add: overlaps_def rangesOverlap_def)
    with that have new: "c \<notin> set sel" "\<forall>b \<in> set sel. \<not> overlaps c b" by (auto simp: list_ex_iff)
    then have "\<forall>b \<in> set sel. \<not> overlaps b c" by (metis overlaps_sym)
    with new 2(2) show ?thesis by (auto simp: apart_def)
  qed
  with 2 show ?case by auto
qed simp

lemma select_subset: "set (select cs sel) \<subseteq> set cs \<union> set sel"
  by (induction cs sel rule: select.induct) auto

lemma select_keeps: "set sel \<subseteq> set (select cs sel)"
  by (induction cs sel rule: select.induct) auto

lemma select_covers:
  "c \<in> set cs \<Longrightarrow> startIndex c < endIndex c \<Longrightarrow> \<exists>d \<in> set (select cs sel). overlaps c d"
proof (induction cs sel rule: select.induct)
  case (2 c' cs sel)
  show ?case
  proof (cases "c = c'")
    case True
    have "overlaps c c" using 2(3) by (simp add: overlaps_def rangesOverlap_def)
    with True have "\<exists>d \<in> set (if list_ex (overlaps c') sel then sel else sel @ [c']). overlaps c d"
      by (auto simp: list_ex_iff)
    then show ?thesis using select_keeps by fastforce
  next
    case False
    with 2 show ?thesis by simp
  qed
qed simp

lemma truncate_simps [simp]:
  "startIndex (PIIDetection.truncate c) = startIndex c" "endIndex (PIIDetection.truncate c) = endIndex c"
  "original (PIIDetection.truncate c) = original c" "replacement (PIIDetection.truncate c) = replacement c"
  "pii_type (PIIDetection.truncate c) = pii_type c"
  by (simp_all add: PIIDetection.truncate_def)

lemma sorted_wrt_apart:
  assumes "sorted_wrt (\<lambda>a b. startIndex a \<le> startIndex b) ds" "apart ds" "\<forall>d \<in> set ds. startIndex d < endIndex d"
  shows "sorted_wrt (\<lambda>a b. endIndex a \<le> startIndex b) ds"
  using assms
proof (induction ds)
  case (Cons d ds)
  have "endIndex d \<le> startIndex e" if "e \<in> set ds" for e
  proof -
    have "d \<noteq> e" "\<not> overlaps d e" using Cons.prems(2) that by (auto simp: apart_def)
    moreover have "startIndex d < endIndex e" using Cons.prems(1,3) that by (auto intro: le_less_trans)
    ultimately show ?thesis by (auto simp: overlaps_def rangesOverlap_def)
  qed
  moreover have "apart ds" using Cons.prems(2) by (auto simp: apart_def)
  ultimately show ?case using Cons by simp
qed simp

text \<open>The chosen detections: in order, apart, parts of the text, and covering every candidate.\<close>

lemma chosen_spec:
  assumes "\<forall>c \<in> set cs. valid_in text c"
  shows "sorted_wrt (\<lambda>a b. endIndex a \<le> startIndex b) (chosen cs)" "\<forall>d \<in> set (chosen cs). valid_in text d"
    "\<And>c. c \<in> set cs \<Longrightarrow> \<exists>d \<in> set (chosen cs). overlaps c d"
proof -
  let ?sel = "select (sort_key rank cs) []" and ?ds = "sort_key startIndex (select (sort_key rank cs) [])"
  have sub: "set ?ds \<subseteq> set cs" using select_subset [of "sort_key rank cs" "[]"] by simp
  have pos: "\<forall>c \<in> set cs. startIndex c < endIndex c" using assms by (simp add: valid_in_def)
  have "apart ?sel" using pos by (intro select_apart) (simp_all add: apart_def)
  then have "apart ?ds" by (simp add: apart_def)
  moreover have "sorted_wrt (\<lambda>a b. startIndex a \<le> startIndex b) ?ds"
    using sorted_sort_key [of startIndex ?sel] by (simp add: sorted_map)
  ultimately have "sorted_wrt (\<lambda>a b. endIndex a \<le> startIndex b) ?ds"
    using sub pos by (intro sorted_wrt_apart) auto
  then show "sorted_wrt (\<lambda>a b. endIndex a \<le> startIndex b) (chosen cs)" by (simp add: chosen_def sorted_wrt_map)
  show "\<forall>d \<in> set (chosen cs). valid_in text d" using sub assms by (auto simp: chosen_def valid_in_def)
  show "\<exists>d \<in> set (chosen cs). overlaps c d" if "c \<in> set cs" for c
    using select_covers [of c "sort_key rank cs" "[]"] that pos by (auto simp: chosen_def overlaps_def)
qed

section \<open>Masking is one pass of redaction\<close>

fun redact :: "nat \<Rightarrow> PIIDetection list \<Rightarrow> string \<Rightarrow> string" where
  "redact pos [] text = drop pos text"
| "redact pos (d # ds) text = slice pos (startIndex d) text @ replacement d @ redact (endIndex d) ds text"

lemma mask_backwards:
  assumes "sorted_wrt (\<lambda>a b. endIndex a \<le> startIndex b) ds" "\<forall>d \<in> set ds. valid_in text d"
  shows "list_all (\<lambda>d. pos \<le> startIndex d) ds \<Longrightarrow> fold mask_one (rev ds) text = take pos text @ redact pos ds text"
  using assms
proof (induction ds arbitrary: pos)
  case (Cons d ds)
  have d: "startIndex d < endIndex d" "endIndex d \<le> length text" "pos \<le> startIndex d"
    using Cons.prems by (auto simp: valid_in_def)
  have "fold mask_one (rev ds) text = take (endIndex d) text @ redact (endIndex d) ds text"
    using Cons.prems by (intro Cons.IH) (auto simp: list_all_iff)
  moreover define X where "X = take (endIndex d) text"
  ultimately have f: "fold mask_one (rev ds) text = X @ redact (endIndex d) ds text" by simp
  have X: "length X = endIndex d" "take (startIndex d) X = take (startIndex d) text"
    using d by (simp_all add: X_def min_absorb1)
  have "take (startIndex d) text = take pos text @ slice pos (startIndex d) text"
    using append_take_drop_id [of pos "take (startIndex d) text"] d(3) by (simp add: slice_def min_absorb1)
  with X d(1) have "mask_one d (X @ redact (endIndex d) ds text) = take pos text @ redact pos (d # ds) text"
    by (simp add: mask_one_def)
  then show ?case by (simp add: f)
qed simp

lemma sort_descending:
  assumes "sorted_wrt (\<lambda>a b. endIndex a \<le> startIndex b) ds" "\<forall>d \<in> set ds. startIndex d < (endIndex d :: nat)"
  shows "sort_key (\<lambda>d. - int (startIndex d)) ds = rev ds"
proof -
  have lt: "sorted_wrt (\<lambda>a b. startIndex a < startIndex b) ds"
    by (rule sorted_wrt_mono_rel [OF _ assms(1)]) (use assms(2) in force)
  then have "sorted_wrt (<) (map startIndex ds)" by (simp add: sorted_wrt_map)
  then have "inj_on startIndex (set ds)" by (simp add: strict_sorted_iff distinct_map)
  then have inj: "inj_on (\<lambda>d. - int (startIndex d)) (set ds)" by (simp add: inj_on_def)
  have "sorted_wrt (\<lambda>a b. startIndex b \<le> startIndex a) (rev ds)"
    unfolding sorted_wrt_rev by (rule sorted_wrt_mono_rel [OF _ lt]) simp
  then have "sorted (map (\<lambda>d. - int (startIndex d)) (rev ds))" by (simp add: sorted_map)
  with inj show ?thesis by (intro sort_key_inj_key_eq) simp_all
qed

lemma detections_spec:
  assumes "collectPIIDetections text = Some ds"
  shows "sorted_wrt (\<lambda>a b. endIndex a \<le> startIndex b) ds" "\<forall>d \<in> set ds. valid_in text d"
    "\<And>rs c. collectRegexCandidates PII_PATTERNS text = Some rs \<Longrightarrow> c \<in> set rs \<Longrightarrow> \<exists>d \<in> set ds. overlaps c d"
    "\<And>hs c. collectHeuristicCandidates text = Some hs \<Longrightarrow> c \<in> set hs \<Longrightarrow> \<exists>d \<in> set ds. overlaps c d"
proof -
  from assms obtain rs hs where c: "collectRegexCandidates PII_PATTERNS text = Some rs"
    "collectHeuristicCandidates text = Some hs" "ds = chosen (rs @ hs)"
    by (auto simp: collectPIIDetections_def bind_eq_Some_conv)
  have v: "\<forall>c \<in> set (rs @ hs). valid_in text c"
    using regex_candidates_valid [OF patterns_nonempty c(1)] heuristic_candidates_valid [OF c(2)] by auto
  note * = chosen_spec [OF v, folded c(3)]
  show "sorted_wrt (\<lambda>a b. endIndex a \<le> startIndex b) ds" "\<forall>d \<in> set ds. valid_in text d" using *(1,2) .
  show "\<exists>d \<in> set ds. overlaps c d" if "collectRegexCandidates PII_PATTERNS text = Some rs'" "c \<in> set rs'" for rs' c
    using *(3) [of c] that c(1) by simp
  show "\<exists>d \<in> set ds. overlaps c d" if "collectHeuristicCandidates text = Some hs'" "c \<in> set hs'" for hs' c
    using *(3) [of c] that c(2) by simp
qed

text \<open>
  C28. Masking refines one pass of redaction: the detections it reports are in order, do not overlap, lie in
  the text and carry the text they stand for, and the masked text is the original with exactly these
  ranges replaced, everything between them unchanged.
\<close>

theorem maskPII_redacts:
  assumes "maskPII text = Some (masked, ds)"
  shows "masked = redact 0 ds text \<and> sorted_wrt (\<lambda>a b. endIndex a \<le> startIndex b) ds \<and>
    (\<forall>d \<in> set ds. startIndex d < endIndex d \<and> endIndex d \<le> length text \<and>
       original d = slice (startIndex d) (endIndex d) text)"
proof -
  from assms have c: "collectPIIDetections text = Some ds"
    and m: "masked = (if ds = [] then text else fold mask_one (sort_key (\<lambda>d. - int (startIndex d)) ds) text)"
    by (auto simp: maskPII_def bind_eq_Some_conv split: if_splits)
  note s = detections_spec(1,2) [OF c]
  have "sort_key (\<lambda>d. - int (startIndex d)) ds = rev ds"
    using s by (intro sort_descending) (auto simp: valid_in_def)
  with m mask_backwards [OF s, of 0] s show ?thesis by (auto simp: valid_in_def list_all_iff)
qed

text \<open>
  Nothing a detector finds is left whole: every match of a pattern of \<open>PII_PATTERNS\<close> overlaps a
  detection that masking reports and replaces.
\<close>

theorem no_match_left_whole:
  assumes "maskPII text = Some (masked, ds)" "p \<in> set PII_PATTERNS"
    and "exec_loop (pp_ci p) (pp_rx p) [] text = Some ms" "m \<in> set ms"
  shows "\<exists>d \<in> set ds. startIndex d < mt_index m + length (mt_text m) \<and> mt_index m < endIndex d"
proof -
  have in_cands: "regex_candidate p m \<in> set cs" if "collectRegexCandidates ps text = Some cs" "p \<in> set ps" for ps cs
    using that assms(3,4) by (induction ps arbitrary: cs) (auto simp: bind_eq_Some_conv)
  from assms(1) have c: "collectPIIDetections text = Some ds"
    by (auto simp: maskPII_def bind_eq_Some_conv split: if_splits)
  obtain rs where rs: "collectRegexCandidates PII_PATTERNS text = Some rs"
    using collectRegexCandidates_returns [of PII_PATTERNS] patterns_nonempty by metis
  from detections_spec(3) [OF c rs in_cands [OF rs assms(2)]] show ?thesis
    by (auto simp: overlaps_def rangesOverlap_def regex_candidate_def)
qed

section \<open>What masking misses, and what it takes for a name\<close>

lemma ip_before_phone: "maskPII ''1.2.3.4555-123-4567'' =
    Some (''1.2.3.4[PHONE_REDACTED]'',
      [\<lparr> pii_type = phone, original = ''555-123-4567'', replacement = ''[PHONE_REDACTED]'', startIndex = 7, endIndex = 19 \<rparr>])"
  by code_simp

lemma ip_left: "containsPII ''1.2.3.4[PHONE_REDACTED]'' = Some True"
  by code_simp

text \<open>
  A masked text can still contain personal data by the module's own test: taking one detection out makes
  a word boundary at which another pattern matches.
\<close>

theorem masked_text_contains_pii:
  "\<exists>text masked ds. maskPII text = Some (masked, ds) \<and> containsPII masked = Some True"
  using ip_before_phone ip_left by blast

text \<open>
  The detector of names asks for capitals, but its flag \<open>i\<close> makes them optional: ordinary words behind
  ``this is'' or ``i am'' are taken for a person's name and lost to the transcript.
\<close>

theorem ordinary_words_masked_as_names:
  "maskPII ''i am so sad'' =
     Some (''i am [NAME_REDACTED]'',
       [\<lparr> pii_type = person_name, original = ''so sad'', replacement = ''[NAME_REDACTED]'',
          startIndex = 5, endIndex = 11 \<rparr>])"
  by code_simp

theorem maskPII_redacts_witness:
  "''1.2.3.4[PHONE_REDACTED]'' = redact 0
     [\<lparr> pii_type = phone, original = ''555-123-4567'', replacement = ''[PHONE_REDACTED]'', startIndex = 7, endIndex = 19 \<rparr>]
     ''1.2.3.4555-123-4567''"
  using maskPII_redacts [OF ip_before_phone] by (rule conjunct1)

end
