(* ===== verification/Transcripts.thy ===== *)
theory Transcripts
  imports Pii_Masker Schema Utc_Calendar
begin

text \<open>
  From a call's transcript to what the language models see: the chunks of
  \<open>src/services/transcript-processor.ts\<close> (\<open>chunkTranscript\<close> and the steps of \<open>processCall\<close> that store
  the masked chunks; tagging, indexing and quotes are calls to services that are not modelled), and the
  merged document of \<open>src/services/transcript-merger.ts\<close>.

  The database gives the calls with their transcripts and participants joined. A day is written as
  \<open>toISOString().split("T")[0]\<close> writes it. The em dash of the headings is written by its three bytes in
  UTF-8, the strings of the model being made of one-byte units.
\<close>

section \<open>Chunks\<close>

definition TARGET_CHUNK_SIZE :: nat where
  "TARGET_CHUNK_SIZE = 1500"

definition CHUNK_OVERLAP :: nat where
  "CHUNK_OVERLAP = 200"

definition ender :: "char \<Rightarrow> bool" where
  "ender c \<longleftrightarrow> c \<in> set ''.!?''"

text \<open>\<open>/[^.!?]+[.!?]+\s*/g\<close>\<close>

definition sentence_rx :: rx where
  "sentence_rx = rx_seq [rx_plus (CharSet (\<lambda>c. \<not> ender c)), rx_plus (CharSet ender), rx_star (CharSet js_ws)]"

definition sentences :: "string \<Rightarrow> string list" where
  "sentences text = (case rx_matches False sentence_rx text of [] \<Rightarrow> [text] | ss \<Rightarrow> ss)"

text \<open>\<open>current.slice(-CHUNK_OVERLAP)\<close>\<close>

definition overlap_of :: "string \<Rightarrow> string" where
  "overlap_of s = drop (length s - CHUNK_OVERLAP) s"

fun chunk_loop :: "string list \<Rightarrow> string \<Rightarrow> nat \<Rightarrow> (string \<times> nat) list" where
  "chunk_loop [] current i = (if trim current \<noteq> [] then [(trim current, i)] else [])"
| "chunk_loop (s # ss) current i =
     (if TARGET_CHUNK_SIZE < length current + length s \<and> 0 < length current
      then (trim current, i) # chunk_loop ss (overlap_of current @ s) (i + 1)
      else chunk_loop ss (current @ s) i)"

definition chunkTranscript :: "string \<Rightarrow> (string \<times> nat) list" where
  "chunkTranscript text = chunk_loop (sentences text) [] 0"

lemma chunk_loop_cut:
  "TARGET_CHUNK_SIZE < length cur + length s \<and> 0 < length cur \<Longrightarrow>
     chunk_loop (s # ss) cur i = (trim cur, i) # chunk_loop ss (overlap_of cur @ s) (i + 1)"
  by simp

lemma chunk_loop_join:
  "\<not> (TARGET_CHUNK_SIZE < length cur + length s \<and> 0 < length cur) \<Longrightarrow>
     chunk_loop (s # ss) cur i = chunk_loop ss (cur @ s) i"
  unfolding chunk_loop.simps(2) by (rule if_not_P)

subsection \<open>Indices, sizes, and what the chunks hold\<close>

lemma chunk_loop_indices: "map snd (chunk_loop ss cur i) = [i..<i + length (chunk_loop ss cur i)]"
proof (induction ss cur i rule: chunk_loop.induct)
  case (2 s ss cur i)
  then show ?case by (simp add: upt_conv_Cons del: upt_Suc)
qed simp

lemma length_dropWhile_le: "length (dropWhile P xs) \<le> length xs"
  by (induction xs) auto

lemma length_trim: "length (trim s) \<le> length s"
proof -
  have "length (trim s) \<le> length (dropWhile js_ws s)"
    using length_dropWhile_le [of js_ws "rev (dropWhile js_ws s)"] by (simp add: trim_def)
  with length_dropWhile_le [of js_ws s] show ?thesis by linarith
qed

lemma length_overlap: "length (overlap_of s) \<le> CHUNK_OVERLAP"
  by (simp add: overlap_of_def)

lemma chunk_loop_bound:
  assumes "\<forall>s \<in> set ss. length s \<le> L"
  shows "length cur \<le> max TARGET_CHUNK_SIZE (CHUNK_OVERLAP + L) \<Longrightarrow> c \<in> set (chunk_loop ss cur i) \<Longrightarrow>
     length (fst c) \<le> max TARGET_CHUNK_SIZE (CHUNK_OVERLAP + L)"
  using assms
proof (induction ss cur i rule: chunk_loop.induct)
  case (1 cur i)
  then show ?case using length_trim [of cur] by (auto split: if_splits)
next
  case (2 s ss cur i)
  show ?case
  proof (cases "TARGET_CHUNK_SIZE < length cur + length s \<and> 0 < length cur")
    case True
    have "length (overlap_of cur @ s) \<le> max TARGET_CHUNK_SIZE (CHUNK_OVERLAP + L)"
      using length_overlap [of cur] 2(5) by (intro max.coboundedI2) (simp add: add_mono)
    with 2 True length_trim [of cur] show ?thesis by fastforce
  next
    case False
    then have "length (cur @ s) \<le> max TARGET_CHUNK_SIZE (CHUNK_OVERLAP + L)"
      using 2(5) by auto
    with 2 False show ?thesis by auto
  qed
qed

text \<open>\<open>s\<close> stands in \<open>t\<close>, up to white space at its ends.\<close>

definition held_in :: "string \<Rightarrow> string \<Rightarrow> bool" where
  "held_in s t \<longleftrightarrow> sublist (trim s) t"

lemma trim_append_sublist: "sublist (trim s) (trim (a @ s @ b))"
proof (cases "trim s = []")
  case True
  then show ?thesis by simp
next
  case False
  let ?d = "dropWhile js_ws"
  obtain p where s: "s = p @ trim s @ rev (takeWhile js_ws (rev (?d s)))"
  proof
    have "rev (?d s) = takeWhile js_ws (rev (?d s)) @ ?d (rev (?d s))" by simp
    then have "?d s = trim s @ rev (takeWhile js_ws (rev (?d s)))"
      unfolding trim_def by (metis rev_append rev_rev_ident)
    then show "s = takeWhile js_ws s @ trim s @ rev (takeWhile js_ws (rev (?d s)))"
      by (metis takeWhile_dropWhile_id)
  qed
  define q where "q = rev (takeWhile js_ws (rev (?d s)))"
  have hd: "\<not> js_ws (hd (trim s))"
  proof -
    have "?d s \<noteq> []" using False unfolding trim_def by (metis dropWhile.simps(1) rev.simps(1))
    then have "\<not> js_ws (hd (?d s))" by (rule hd_dropWhile)
    moreover have "hd (trim s) = hd (?d s)"
      using dropWhile_rev_hd [of "?d s" js_ws] False \<open>\<not> js_ws (hd (?d s))\<close> by (simp add: trim_def)
    ultimately show ?thesis by simp
  qed
  have la: "\<not> js_ws (last (trim s))" using trim_no_trailing [OF False] .
  obtain x t where t: "trim s = x # t" using False by (cases "trim s") auto
  obtain y z where z: "trim s = z @ [y]" using False by (cases "trim s" rule: rev_cases) auto
  have ad: "?d (u @ trim s @ v) = ?d u @ trim s @ v \<or> (\<exists>u'. ?d (u @ trim s @ v) = u' @ trim s @ v)" for u v
    using hd t by (induction u) auto
  then have 1: "\<exists>u'. ?d (u @ trim s @ v) = u' @ trim s @ v" for u v by blast
  have 2: "\<exists>v'. ?d (u @ rev (trim s) @ v) = v' @ rev (trim s) @ v" for u v
    using la z by (induction u) auto
  from 1 obtain u' where u': "?d ((a @ p) @ trim s @ (q @ b)) = u' @ trim s @ q @ b" by blast
  from 2 [of "rev (q @ b)" "rev u'"] obtain v' where v': "?d (rev (q @ b) @ rev (trim s) @ rev u') = v' @ rev (trim s) @ rev u'" by blast
  have "a @ s @ b = (a @ p) @ trim s @ (q @ b)" using s by (simp add: q_def)
  then have "trim (a @ s @ b) = rev (?d (rev (u' @ trim s @ q @ b)))" unfolding trim_def [of "a @ s @ b"] using u' by (simp only:)
  also have "\<dots> = u' @ trim s @ rev v'" using v' by simp
  finally show ?thesis unfolding sublist_def by blast
qed

lemma held_append: "held_in s (trim (a @ s @ b))"
  by (simp add: held_in_def trim_append_sublist)

text \<open>Every sentence is held in a chunk.\<close>

lemma overlap_append: "overlap_of cur @ s = drop (length cur - CHUNK_OVERLAP) cur @ s"
  by (simp add: overlap_of_def)

lemma chunk_loop_current:
  "cur = a @ s @ b \<Longrightarrow> trim s \<noteq> [] \<Longrightarrow> \<exists>c \<in> set (chunk_loop ss cur i). held_in s (fst c)"
proof (induction ss cur i arbitrary: b rule: chunk_loop.induct)
  case (1 cur i)
  have "sublist (trim s) (trim cur)" unfolding 1(1) by (rule trim_append_sublist)
  with 1(2) have "trim cur \<noteq> []" by auto
  then show ?case using held_append [of s a b] by (simp add: 1(1))
next
  case (2 s' ss cur i)
  show ?case
  proof (cases "TARGET_CHUNK_SIZE < length cur + length s' \<and> 0 < length cur")
    case True
    then show ?thesis using held_append [of s a b] by (simp add: chunk_loop_cut 2(3) del: chunk_loop.simps)
  next
    case False
    with 2(2) [of "b @ s'"] 2(3,4) show ?thesis by (simp add: chunk_loop_join del: chunk_loop.simps)
  qed
qed

lemma chunk_loop_holds:
  "s \<in> set ss \<Longrightarrow> trim s \<noteq> [] \<Longrightarrow> \<exists>c \<in> set (chunk_loop ss cur i). held_in s (fst c)"
proof (induction ss cur i rule: chunk_loop.induct)
  case (2 s' ss cur i)
  show ?case
  proof (cases "TARGET_CHUNK_SIZE < length cur + length s' \<and> 0 < length cur")
    case True
    show ?thesis
    proof (cases "s \<in> set ss")
      case False
      with 2(3) have "s = s'" by simp
      with True chunk_loop_current [of "overlap_of cur @ s'" "overlap_of cur" s "[]" ss "i + 1"] 2(4) show ?thesis by auto
    qed (use 2 True in auto)
  next
    case F: False
    show ?thesis
    proof (cases "s \<in> set ss")
      case False
      with 2(3) have "s = s'" by simp
      with F chunk_loop_current [of "cur @ s'" cur s "[]" ss i] 2(4) show ?thesis
        by (simp add: chunk_loop_join del: chunk_loop.simps)
    qed (use 2 F in \<open>simp add: chunk_loop_join del: chunk_loop.simps\<close>)
  qed
qed simp

text \<open>
  C29. Chunking keeps every sentence: the chunks are numbered from 0 without gaps, each sentence stands
  whole in one of them (up to white space at its ends), and no chunk is longer than the target size or,
  where a sentence is longer than that, than the sentence and the overlap.
\<close>

theorem chunks_hold_sentences:
  "map snd (chunkTranscript text) = [0..<length (chunkTranscript text)] \<and>
   (\<forall>s \<in> set (sentences text). trim s = [] \<or> (\<exists>c \<in> set (chunkTranscript text). held_in s (fst c))) \<and>
   (\<forall>c \<in> set (chunkTranscript text).
      length (fst c) \<le> max TARGET_CHUNK_SIZE (CHUNK_OVERLAP + Max (set (map length (sentences text)))))"
proof -
  have "\<forall>s \<in> set (sentences text). length s \<le> Max (set (map length (sentences text)))" by simp
  from chunk_loop_bound [OF this, of "[]"] chunk_loop_indices [of "sentences text" "[]" 0] chunk_loop_holds
  show ?thesis unfolding chunkTranscript_def by fastforce
qed

subsection \<open>What is behind the last full stop is lost\<close>

text \<open>A text that ends, up to white space, in a terminator.\<close>

definition ended :: "string \<Rightarrow> bool" where
  "ended s \<longleftrightarrow> trim s \<noteq> [] \<and> ender (last (trim s))"

lemma match_all_from:
  "m \<in> set (match_all ci r l s) \<Longrightarrow> \<exists>l' s' x. match_here ci r l' s' = Some x \<and> mt_text x = m"
proof (induction ci r l s rule: match_all.induct)
  case (1 ci r l s)
  show ?case
  proof (cases "exec ci r l s")
    case None
    with 1(3) show ?thesis by (simp add: match_all.simps [of ci r l s])
  next
    case (Some x)
    obtain u where "match_here ci r (rev u @ l) (mt_text x @ mt_rest x) = Some x" by (metis exec_at [OF Some])
    with 1 Some show ?thesis
      by (cases "mt_text x = []"; cases "mt_rest x") (fastforce simp: match_all.simps [of ci r l s])+
  qed
qed

lemma sentence_shape:
  assumes "match_here False sentence_rx l s = Some m"
  shows "\<exists>b e w. mt_text m = b @ [e] @ w \<and> ender e \<and> (\<forall>c \<in> set w. js_ws c)"
proof -
  from match_here_in [OF assms] obtain st1 st2 where
    st: "st1 \<in> set (rx_match False (rx_plus (CharSet (\<lambda>c. \<not> ender c))) (l, s, []))"
    "st2 \<in> set (rx_match False (rx_plus (CharSet ender)) st1)"
    "(mt_left m, mt_rest m, mt_caps m) \<in> set (rx_match False (Seq (rx_star (CharSet js_ws)) Eps) st2)"
    unfolding sentence_rx_def rx_seq_def foldr.simps o_apply id_apply rx_match_Seq by blast
  from st(3) have st3: "(mt_left m, mt_rest m, mt_caps m) \<in> set (rx_match False (rx_star (CharSet js_ws)) st2)"
    unfolding rx_match_Seq by auto
  from rx_match_chars [OF st(1) [unfolded rx_plus_def]] obtain b where b: "s = b @ fst (snd st1)" by auto
  from rx_match_chars [OF st(2) [unfolded rx_plus_def]] obtain es where
    es: "fst (snd st1) = es @ fst (snd st2)" "\<forall>c \<in> set es. ender c" "1 \<le> length es" by auto
  from rx_match_chars [OF st3 [unfolded rx_star_def]] obtain w where
    w: "fst (snd st2) = w @ mt_rest m" "\<forall>c \<in> set w. js_ws c" by auto
  from es(3) obtain es' e where e: "es = es' @ [e]" by (cases es rule: rev_cases) auto
  have "mt_text m = b @ es @ w" using match_here_Some(1) [OF assms] b es(1) w(1) by simp
  then show ?thesis using e es(2) w(2) by (intro exI [of _ "b @ es'"] exI [of _ e] exI [of _ w]) simp
qed

lemma trim_ended:
  assumes "\<not> js_ws e" "\<forall>c \<in> set w. js_ws c"
  shows "\<exists>z. trim (y @ [e] @ w) = z @ [e]"
proof -
  have "\<exists>z. dropWhile js_ws (y @ [e] @ w) = z @ [e] @ w" using assms(1) by (induction y) auto
  then obtain z where "dropWhile js_ws (y @ [e] @ w) = z @ [e] @ w" by blast
  then have "trim (y @ [e] @ w) = rev (dropWhile js_ws (rev w @ [e] @ rev z))" by (simp add: trim_def)
  also have "dropWhile js_ws (rev w @ [e] @ rev z) = [e] @ rev z"
    using assms by (simp add: dropWhile_append)
  finally show ?thesis by simp
qed

lemma ender_not_ws: "ender e \<Longrightarrow> \<not> js_ws e"
  by (auto simp: ender_def js_ws_def)

definition ends_well :: "string \<Rightarrow> bool" where
  "ends_well s \<longleftrightarrow> (\<exists>b e w. s = b @ [e] @ w \<and> ender e \<and> (\<forall>c \<in> set w. js_ws c))"

lemma ends_well_append: "ends_well s \<Longrightarrow> ends_well (a @ s)"
  unfolding ends_well_def by (metis append.assoc)

lemma ends_well_trim: "ends_well s \<Longrightarrow> ended (trim s)"
proof -
  assume "ends_well s"
  then obtain b e w where s: "s = b @ [e] @ w" "ender e" "\<forall>c \<in> set w. js_ws c" unfolding ends_well_def by blast
  from trim_ended [OF ender_not_ws [OF s(2)] s(3), of b] obtain z where "trim s = z @ [e]" using s(1) by auto
  with s(2) show ?thesis unfolding ended_def trim_idem by simp
qed

lemma sentences_end_well: "rx_test False sentence_rx text \<Longrightarrow> s \<in> set (sentences text) \<Longrightarrow> ends_well s"
proof -
  assume "rx_test False sentence_rx text" "s \<in> set (sentences text)"
  then have "s \<in> set (rx_matches False sentence_rx text)"
    by (cases "rx_matches False sentence_rx text") (auto simp: sentences_def rx_matches_Nil)
  then obtain l' s' m where "match_here False sentence_rx l' s' = Some m" "mt_text m = s"
    using match_all_from unfolding rx_matches_def by metis
  with sentence_shape show "ends_well s" unfolding ends_well_def by metis
qed

lemma chunk_loop_ended:
  assumes "\<forall>s \<in> set ss. ends_well s"
  shows "cur = [] \<or> ends_well cur \<Longrightarrow> c \<in> set (chunk_loop ss cur i) \<Longrightarrow> ended (fst c)"
  using assms
proof (induction ss cur i rule: chunk_loop.induct)
  case (1 cur i)
  then show ?case using ends_well_trim by (auto split: if_splits)
next
  case (2 s ss cur i)
  have s: "ends_well (x @ s)" for x using 2(5) ends_well_append by simp
  show ?case
  proof (cases "TARGET_CHUNK_SIZE < length cur + length s \<and> 0 < length cur")
    case True
    with 2 s ends_well_trim [of cur] show ?thesis by (fastforce simp: chunk_loop_cut simp del: chunk_loop.simps)
  next
    case False
    with 2 s show ?thesis by (simp add: chunk_loop_join del: chunk_loop.simps)
  qed
qed

text \<open>
  C39. As soon as a transcript has one full stop, every chunk ends in a terminator: what stands behind the
  last one, such as a closing remark without punctuation, is in no chunk, so it is neither tagged nor
  indexed.
\<close>

theorem unterminated_tail_lost:
  assumes "rx_test False sentence_rx text" and "c \<in> set (chunkTranscript text)"
  shows "ender (last (fst c))"
proof -
  have "ended (fst c)"
    using chunk_loop_ended [of "sentences text" "[]" c 0] sentences_end_well [OF assms(1)] assms(2)
    unfolding chunkTranscript_def by blast
  moreover have "trim (fst c) = fst c"
  proof -
    have "c' \<in> set (chunk_loop ss cur i) \<Longrightarrow> trim (fst c') = fst c'" for ss cur i c'
      by (induction ss cur i rule: chunk_loop.induct) (auto split: if_splits)
    with assms(2) show ?thesis unfolding chunkTranscript_def by blast
  qed
  ultimately show ?thesis by (simp add: ended_def)
qed

theorem unterminated_tail_lost_witness:
  "chunkTranscript ''We signed. Call Bob tomorrow'' = [(''We signed.'', 0)] \<and> ender (last ''We signed.'')"
proof
  show c: "chunkTranscript ''We signed. Call Bob tomorrow'' = [(''We signed.'', 0)]" by code_simp
  have "rx_test False sentence_rx ''We signed. Call Bob tomorrow''" by code_simp
  from unterminated_tail_lost [OF this, of "(''We signed.'', 0)"] c show "ender (last ''We signed.'')" by simp
qed

theorem chunks_hold_sentences_witness:
  "chunkTranscript ''Hi Ann. We signed! OK?'' = [(''Hi Ann. We signed! OK?'', 0)] \<and>
   (\<exists>c. c \<in> set (chunkTranscript ''Hi Ann. We signed! OK?'') \<and> held_in ''We signed! '' (fst c))"
proof
  show "chunkTranscript ''Hi Ann. We signed! OK?'' = [(''Hi Ann. We signed! OK?'', 0)]" by code_simp
  have "''We signed! '' \<in> set (sentences ''Hi Ann. We signed! OK?'')" "trim ''We signed! '' \<noteq> []" by code_simp+
  with chunks_hold_sentences [of "''Hi Ann. We signed! OK?''"]
  show "\<exists>c. c \<in> set (chunkTranscript ''Hi Ann. We signed! OK?'') \<and> held_in ''We signed! '' (fst c)" by blast
qed

section \<open>Storing the masked chunks\<close>

record Transcript =
  tr_id :: ident
  tr_callId :: ident
  tr_fullText :: string
  tr_wordCount :: int

record TranscriptChunk =
  tc_id :: ident
  tc_transcriptId :: ident
  tc_chunkIndex :: nat
  tc_text :: string

record TranscriptDb =
  tdb_transcripts :: "Transcript list"
  tdb_chunks :: "TranscriptChunk list"

definition is_chunk :: "ident \<Rightarrow> nat \<Rightarrow> TranscriptChunk \<Rightarrow> bool" where
  "is_chunk tid i c \<longleftrightarrow> tc_transcriptId c = tid \<and> tc_chunkIndex c = i"

definition store_chunk ::
  "(nat \<Rightarrow> ident) \<Rightarrow> ident \<Rightarrow> string \<times> nat \<Rightarrow> TranscriptChunk list \<Rightarrow> TranscriptChunk list option" where
  "store_chunk newId tid raw rows =
     do { (masked, _) \<leftarrow> maskPII (fst raw);
          Some (upsert (is_chunk tid (snd raw))
            \<lparr> tc_id = newId (snd raw), tc_transcriptId = tid, tc_chunkIndex = snd raw, tc_text = masked \<rparr>
            (\<lambda>c. c\<lparr> tc_text := masked \<rparr>) rows) }"

fun store_chunks ::
  "(nat \<Rightarrow> ident) \<Rightarrow> ident \<Rightarrow> (string \<times> nat) list \<Rightarrow> TranscriptChunk list \<Rightarrow> TranscriptChunk list option" where
  "store_chunks newId tid [] rows = Some rows"
| "store_chunks newId tid (raw # raws) rows =
     do { rows' \<leftarrow> store_chunk newId tid raw rows; store_chunks newId tid raws rows' }"

text \<open>Steps 1 to 3 of \<open>processCall\<close>.\<close>

definition process_transcript :: "(nat \<Rightarrow> ident) \<Rightarrow> ident \<Rightarrow> TranscriptDb \<Rightarrow> TranscriptDb option" where
  "process_transcript newId callId db =
     (case List.find (\<lambda>t. tr_callId t = callId) (tdb_transcripts db) of
        None \<Rightarrow> Some db
      | Some t \<Rightarrow>
          do { rows \<leftarrow> store_chunks newId (tr_id t) (chunkTranscript (tr_fullText t)) (tdb_chunks db);
               Some (db\<lparr> tdb_chunks := rows \<rparr>) })"

lemma store_chunk_returns: "\<exists>rows'. store_chunk newId tid raw rows = Some rows'"
  using maskPII_returns [of "fst raw"] by (auto simp: store_chunk_def)

lemma store_chunks_returns: "\<exists>rows'. store_chunks newId tid raws rows = Some rows'"
proof (induction raws arbitrary: rows)
  case (Cons raw raws)
  obtain rows' where "store_chunk newId tid raw rows = Some rows'" using store_chunk_returns by blast
  with Cons show ?case by simp
qed simp

lemma store_chunk_find:
  assumes "store_chunk newId tid raw rows = Some rows'"
  shows "\<exists>masked ds row. maskPII (fst raw) = Some (masked, ds) \<and>
      List.find (is_chunk tid (snd raw)) rows' = Some row \<and> tc_text row = masked"
    and "t \<noteq> tid \<or> i \<noteq> snd raw \<Longrightarrow> List.find (is_chunk t i) rows' = List.find (is_chunk t i) rows"
proof -
  from assms obtain masked ds where m: "maskPII (fst raw) = Some (masked, ds)"
    and rows': "rows' = upsert (is_chunk tid (snd raw))
            \<lparr> tc_id = newId (snd raw), tc_transcriptId = tid, tc_chunkIndex = snd raw, tc_text = masked \<rparr>
            (\<lambda>c. c\<lparr> tc_text := masked \<rparr>) rows"
    by (auto simp: store_chunk_def bind_eq_Some_conv)
  have "List.find (is_chunk tid (snd raw)) rows' =
      Some (case List.find (is_chunk tid (snd raw)) rows of
              None \<Rightarrow> \<lparr> tc_id = newId (snd raw), tc_transcriptId = tid, tc_chunkIndex = snd raw, tc_text = masked \<rparr>
            | Some c \<Rightarrow> c\<lparr> tc_text := masked \<rparr>)"
    unfolding rows' by (rule find_upsert_same) (auto simp: is_chunk_def)
  with m show "\<exists>masked ds row. maskPII (fst raw) = Some (masked, ds) \<and>
      List.find (is_chunk tid (snd raw)) rows' = Some row \<and> tc_text row = masked"
    by (auto split: option.splits)
  show "List.find (is_chunk t i) rows' = List.find (is_chunk t i) rows" if "t \<noteq> tid \<or> i \<noteq> snd raw"
    unfolding rows' by (rule find_upsert_other) (use that in \<open>auto simp: is_chunk_def\<close>)
qed

lemma store_chunks_other:
  "store_chunks newId tid raws rows = Some rows' \<Longrightarrow> t \<noteq> tid \<or> i \<notin> snd ` set raws \<Longrightarrow>
     List.find (is_chunk t i) rows' = List.find (is_chunk t i) rows"
proof (induction raws arbitrary: rows)
  case (Cons raw raws)
  from Cons.prems(1) obtain r where "store_chunk newId tid raw rows = Some r" "store_chunks newId tid raws r = Some rows'"
    by (auto simp: bind_eq_Some_conv)
  with Cons store_chunk_find(2) [of newId tid raw rows r t i] show ?case by auto
qed simp

lemma store_chunks_find:
  "store_chunks newId tid raws rows = Some rows' \<Longrightarrow> distinct (map snd raws) \<Longrightarrow> raw \<in> set raws \<Longrightarrow>
     \<exists>masked ds row. maskPII (fst raw) = Some (masked, ds) \<and>
       List.find (is_chunk tid (snd raw)) rows' = Some row \<and> tc_text row = masked"
proof (induction raws arbitrary: rows)
  case (Cons raw' raws)
  from Cons.prems(1) obtain r where r: "store_chunk newId tid raw' rows = Some r" "store_chunks newId tid raws r = Some rows'"
    by (auto simp: bind_eq_Some_conv)
  show ?case
  proof (cases "raw \<in> set raws")
    case True
    with Cons r show ?thesis by auto
  next
    case False
    with Cons.prems have "raw = raw'" "snd raw \<notin> snd ` set raws" by auto
    with store_chunks_other [OF r(2), of tid "snd raw"] store_chunk_find(1) [OF r(1)] show ?thesis by simp
  qed
qed simp

lemma process_transcript_returns: "\<exists>db'. process_transcript newId callId db = Some db'"
  by (cases "List.find (\<lambda>t. tr_callId t = callId) (tdb_transcripts db)")
    (simp_all add: process_transcript_def, metis bind.bind_lunit store_chunks_returns)


text \<open>
  When a transcript is processed again and has become shorter, the chunks of the longer version stay:
  rows whose index is beyond the new chunks are neither changed nor deleted.
\<close>

theorem reprocessing_keeps_stale_chunks:
  assumes "List.find (\<lambda>t. tr_callId t = callId) (tdb_transcripts db) = Some t"
    and "process_transcript newId callId db = Some db'"
    and "length (chunkTranscript (tr_fullText t)) \<le> i"
  shows "List.find (is_chunk (tr_id t) i) (tdb_chunks db') = List.find (is_chunk (tr_id t) i) (tdb_chunks db)"
proof -
  let ?raws = "chunkTranscript (tr_fullText t)"
  from assms(1,2) have "store_chunks newId (tr_id t) ?raws (tdb_chunks db) = Some (tdb_chunks db')"
    by (auto simp: process_transcript_def bind_eq_Some_conv)
  moreover have "i \<notin> snd ` set ?raws"
  proof -
    have "map snd ?raws = [0..<length ?raws]" unfolding chunkTranscript_def using chunk_loop_indices [of _ _ 0] by simp
    then have "snd ` set ?raws = {0..<length ?raws}" by (metis list.set_map atLeastLessThan_upt)
    with assms(3) show ?thesis by simp
  qed
  ultimately show ?thesis using store_chunks_other by blast
qed

definition sample_transcripts :: TranscriptDb where
  "sample_transcripts =
     \<lparr> tdb_transcripts = [\<lparr> tr_id = ''t1'', tr_callId = ''call1'', tr_fullText = ''ID 123-45-6789.'', tr_wordCount = 4 \<rparr>],
       tdb_chunks = [\<lparr> tc_id = ''c9'', tc_transcriptId = ''t1'', tc_chunkIndex = 3, tc_text = ''old text'' \<rparr>] \<rparr>"

lemma sample_transcript_find:
  "List.find (\<lambda>t. tr_callId t = ''call1'') (tdb_transcripts sample_transcripts) =
     Some \<lparr> tr_id = ''t1'', tr_callId = ''call1'', tr_fullText = ''ID 123-45-6789.'', tr_wordCount = 4 \<rparr>"
  by (simp add: sample_transcripts_def)

lemma sample_chunks: "chunkTranscript ''ID 123-45-6789.'' = [(''ID 123-45-6789.'', 0)]"
  by code_simp


theorem reprocessing_keeps_stale_chunks_witness:
  "\<exists>db'. process_transcript (\<lambda>i. ''n'') ''call1'' sample_transcripts = Some db' \<and>
     map_option tc_text (List.find (is_chunk ''t1'' 3) (tdb_chunks db')) = Some ''old text''"
proof -
  obtain db' where db': "process_transcript (\<lambda>i. ''n'') ''call1'' sample_transcripts = Some db'"
    using process_transcript_returns [of "\<lambda>i. ''n''" "''call1''" sample_transcripts] by blast
  from reprocessing_keeps_stale_chunks [OF sample_transcript_find db', of 3] sample_chunks db' show ?thesis
    by (simp add: sample_transcripts_def is_chunk_def)
qed

end
