(* ===== verification/Transcript_Merge.thy ===== *)
theory Transcript_Merge
  imports Transcripts
begin

text \<open>
  The merged transcript of an account, \<open>src/services/transcript-merger.ts\<close>: the calls of the account in
  order of time, cut to a number of words by leaving out whole calls from one end, and written as a
  Markdown document. Word counts are the stored ones of the transcripts; every call is charged thirty
  words more for its heading.
\<close>

section \<open>Calls\<close>

record Participant =
  pt_name :: "string option"
  pt_email :: "string option"
  pt_isHost :: bool

text \<open>A call with its transcript (if it has one) and participants, as the query returns it.\<close>

record CallRow =
  cr_id :: ident
  cr_organizationId :: ident
  cr_accountId :: "ident option"
  cr_title :: "string option"
  cr_occurredAt :: millis
  cr_duration :: "int option"
  cr_transcript :: "Transcript option"
  cr_participants :: "Participant list"

record CallTranscriptEntry =
  ce_callId :: ident
  ce_title :: "string option"
  ce_occurredAt :: millis
  ce_duration :: "int option"
  ce_participants :: "Participant list"
  ce_fullText :: string
  ce_wordCount :: int

record MergedTranscriptOptions =
  mo_accountId :: ident
  mo_organizationId :: ident
  mo_maxWords :: "int option"
  mo_truncationMode :: "TranscriptTruncationMode option"
  mo_afterDate :: "millis option"
  mo_beforeDate :: "millis option"

record MergedTranscriptResult =
  mr_markdown :: string
  mr_wordCount :: nat
  mr_totalCalls :: nat
  mr_includedCalls :: nat
  mr_truncated :: bool
  mr_truncationBoundary :: "millis option"
  mr_truncationMode :: TranscriptTruncationMode

definition HEADER_OVERHEAD :: int where
  "HEADER_OVERHEAD = 30"

section \<open>Truncation\<close>

definition entry_words :: "CallTranscriptEntry \<Rightarrow> int" where
  "entry_words e = ce_wordCount e + HEADER_OVERHEAD"

definition total_words :: "CallTranscriptEntry list \<Rightarrow> int" where
  "total_words es = foldl (\<lambda>s e. s + ce_wordCount e + HEADER_OVERHEAD) 0 es"

fun drop_oldest ::
  "int \<Rightarrow> int \<Rightarrow> millis option \<Rightarrow> CallTranscriptEntry list \<Rightarrow> CallTranscriptEntry list \<times> millis option" where
  "drop_oldest maxWords tot bound (e # e' # es) =
     (if maxWords < tot
      then drop_oldest maxWords (tot - entry_words e) (Some (ce_occurredAt e)) (e' # es)
      else (e # e' # es, bound))"
| "drop_oldest maxWords tot bound es = (es, bound)"

function drop_newest ::
  "int \<Rightarrow> int \<Rightarrow> millis option \<Rightarrow> CallTranscriptEntry list \<Rightarrow> CallTranscriptEntry list \<times> millis option" where
  "drop_newest maxWords tot bound es =
     (if 1 < length es \<and> maxWords < tot
      then drop_newest maxWords (tot - entry_words (last es)) (Some (ce_occurredAt (last es))) (butlast es)
      else (es, bound))"
  by pat_completeness auto

termination
  by (relation "measure (\<lambda>(m, t, b, es). length es)") auto

declare drop_newest.simps [simp del]

record Truncation =
  tn_included :: "CallTranscriptEntry list"
  tn_truncated :: bool
  tn_boundary :: "millis option"

definition applyTruncation :: "CallTranscriptEntry list \<Rightarrow> int \<Rightarrow> TranscriptTruncationMode \<Rightarrow> Truncation" where
  "applyTruncation entries maxWords mode =
     (let tot = total_words entries in
      if tot \<le> maxWords
      then \<lparr> tn_included = entries, tn_truncated = False, tn_boundary = None \<rparr>
      else
        let r = (case mode of
                   OLDEST_FIRST \<Rightarrow> drop_oldest maxWords tot None entries
                 | NEWEST_FIRST \<Rightarrow> drop_newest maxWords tot None entries) in
        \<lparr> tn_included = fst r, tn_truncated = True, tn_boundary = snd r \<rparr>)"

section \<open>The document\<close>

text \<open>\<open>toISOString().split("T")[0]\<close>; years outside 0 to 9999 have a sign and six digits.\<close>

definition pad :: "nat \<Rightarrow> int \<Rightarrow> string" where
  "pad n i = (let d = digits (nat i) in replicate (n - length d) (CHR ''0'') @ d)"

definition iso_day :: "millis \<Rightarrow> string" where
  "iso_day t =
     (let y = getUTCFullYear t in
      (if 0 \<le> y \<and> y \<le> 9999 then pad 4 y else (if y < 0 then ''-'' else ''+'') @ pad 6 \<bar>y\<bar>) @ ''-'' @
      pad 2 (int (getUTCMonth t) + 1) @ ''-'' @ pad 2 (getUTCDate t))"

definition em_dash :: string where
  "em_dash = [CHR 0xE2, CHR 0x80, CHR 0x94]"

definition newline :: string where
  "newline = [CHR 0x0A]"

text \<open>\<open>Math.round(duration / 60)\<close> rounds halves up.\<close>

definition show_duration :: "int option \<Rightarrow> string" where
  "show_duration d =
     (case d of
        None \<Rightarrow> []
      | Some s \<Rightarrow> if s = 0 then [] else '' ('' @ show_int ((s + 30) div 60) @ '' min)'')"

definition show_participant :: "Participant \<Rightarrow> string" where
  "show_participant p =
     (let name = (case pt_name p of Some n \<Rightarrow> n | None \<Rightarrow> (case pt_email p of Some m \<Rightarrow> m | None \<Rightarrow> ''Unknown'')) in
      if pt_isHost p then ''**'' @ name @ ''** (host)'' else name)"

definition entry_sections :: "CallTranscriptEntry \<Rightarrow> string list" where
  "entry_sections e =
     [''---'' @ newline,
      ''## '' @ (case ce_title e of None \<Rightarrow> ''Untitled Call'' | Some t \<Rightarrow> t) @ '' '' @ em_dash @ '' '' @
        iso_day (ce_occurredAt e) @ show_duration (ce_duration e) @ newline] @
     (if ce_participants e = [] then []
      else [''**Participants:** '' @ join '', '' (map show_participant (ce_participants e)) @ newline]) @
     [ce_fullText e, []]"

definition buildMarkdown :: "CallTranscriptEntry list \<Rightarrow> string" where
  "buildMarkdown entries =
     join newline
       ((''# Merged Transcripts ('' @ show_int (int (length entries)) @ '' calls, '' @ iso_day (ce_occurredAt (hd entries)) @
          '' to '' @ iso_day (ce_occurredAt (last entries)) @ '')'' @ newline) #
        concat (map entry_sections entries))"

definition countWords :: "string \<Rightarrow> nat" where
  "countWords text = length (filter (\<lambda>w. w \<noteq> []) (split_ws False [] text))"

section \<open>Merging\<close>

definition DEFAULT_TRANSCRIPT_MERGE_MAX_WORDS :: int where
  "DEFAULT_TRANSCRIPT_MERGE_MAX_WORDS = 600000"

definition entry_of :: "CallRow \<Rightarrow> Transcript \<Rightarrow> CallTranscriptEntry" where
  "entry_of c t =
     \<lparr> ce_callId = cr_id c, ce_title = cr_title c, ce_occurredAt = cr_occurredAt c, ce_duration = cr_duration c,
       ce_participants = cr_participants c, ce_fullText = tr_fullText t, ce_wordCount = tr_wordCount t \<rparr>"

definition wanted_call :: "MergedTranscriptOptions \<Rightarrow> CallRow \<Rightarrow> bool" where
  "wanted_call opts c \<longleftrightarrow>
     cr_accountId c = Some (mo_accountId opts) \<and> cr_organizationId c = mo_organizationId opts \<and>
     cr_transcript c \<noteq> None \<and>
     (case mo_afterDate opts of None \<Rightarrow> True | Some d \<Rightarrow> d \<le> cr_occurredAt c) \<and>
     (case mo_beforeDate opts of None \<Rightarrow> True | Some d \<Rightarrow> cr_occurredAt c \<le> d)"

definition call_entries :: "MergedTranscriptOptions \<Rightarrow> CallRow list \<Rightarrow> CallTranscriptEntry list" where
  "call_entries opts calls =
     List.map_filter (\<lambda>c. map_option (entry_of c) (cr_transcript c))
       (sort_key cr_occurredAt (filter (wanted_call opts) calls))"

definition merge_limits :: "MergedTranscriptOptions \<Rightarrow> OrgSettings list \<Rightarrow> int \<times> TranscriptTruncationMode" where
  "merge_limits opts settings =
     (let org = List.find (\<lambda>s. os_organizationId s = mo_organizationId opts) settings in
      ((case mo_maxWords opts of
          Some n \<Rightarrow> n
        | None \<Rightarrow> (case org of Some s \<Rightarrow> os_transcriptMergeMaxWords s | None \<Rightarrow> DEFAULT_TRANSCRIPT_MERGE_MAX_WORDS)),
       (case mo_truncationMode opts of
          Some m \<Rightarrow> m
        | None \<Rightarrow> (case org of Some s \<Rightarrow> os_transcriptTruncationMode s | None \<Rightarrow> OLDEST_FIRST))))"

definition mergeTranscripts ::
  "MergedTranscriptOptions \<Rightarrow> OrgSettings list \<Rightarrow> CallRow list \<Rightarrow> MergedTranscriptResult" where
  "mergeTranscripts opts settings calls =
     (let (maxWords, mode) = merge_limits opts settings; entries = call_entries opts calls in
      if entries = []
      then \<lparr> mr_markdown = [], mr_wordCount = 0, mr_totalCalls = 0, mr_includedCalls = 0, mr_truncated = False,
             mr_truncationBoundary = None, mr_truncationMode = mode \<rparr>
      else
        let t = applyTruncation entries maxWords mode; markdown = buildMarkdown (tn_included t) in
        \<lparr> mr_markdown = markdown, mr_wordCount = countWords markdown, mr_totalCalls = length entries,
          mr_includedCalls = length (tn_included t), mr_truncated = tn_truncated t,
          mr_truncationBoundary = tn_boundary t, mr_truncationMode = mode \<rparr>)"

section \<open>Truncation keeps as much as fits\<close>

lemma total_words_sum: "total_words es = sum_list (map entry_words es)"
proof -
  have "foldl (\<lambda>s e. s + ce_wordCount e + HEADER_OVERHEAD) a es = a + sum_list (map entry_words es)" for a
    by (induction es arbitrary: a) (simp_all add: entry_words_def)
  then show ?thesis by (simp add: total_words_def)
qed

lemma total_words_simps [simp]:
  "total_words [] = 0" "total_words (e # es) = entry_words e + total_words es"
  "total_words (as @ bs) = total_words as + total_words bs"
  by (simp_all add: total_words_sum)

text \<open>What remains at the end chosen: all of it if it fits, else the longest part that does, else one call.\<close>

definition kept_end :: "TranscriptTruncationMode \<Rightarrow> CallTranscriptEntry list \<Rightarrow> CallTranscriptEntry list \<Rightarrow> bool" where
  "kept_end mode part es = (case mode of OLDEST_FIRST \<Rightarrow> suffix part es | NEWEST_FIRST \<Rightarrow> prefix part es)"

lemma drop_oldest_spec:
  "tot = total_words es \<Longrightarrow> drop_oldest maxWords tot bound es = (inc, b) \<Longrightarrow> es \<noteq> [] \<Longrightarrow>
     \<exists>d. es = d @ inc \<and> inc \<noteq> [] \<and> (total_words inc \<le> maxWords \<or> length inc = 1) \<and>
       (d = [] \<longrightarrow> b = bound) \<and>
       (d \<noteq> [] \<longrightarrow> b = Some (ce_occurredAt (last d)) \<and> maxWords < entry_words (last d) + total_words inc)"
proof (induction maxWords tot bound es rule: drop_oldest.induct)
  case (1 maxWords tot bound e e' es)
  show ?case
  proof (cases "maxWords < tot")
    case True
    with 1 obtain d where d: "e' # es = d @ inc" "inc \<noteq> []" "total_words inc \<le> maxWords \<or> length inc = 1"
      "d = [] \<longrightarrow> b = Some (ce_occurredAt e)"
      "d \<noteq> [] \<longrightarrow> b = Some (ce_occurredAt (last d)) \<and> maxWords < entry_words (last d) + total_words inc"
      by auto
    have "maxWords < entry_words e + total_words inc" if "d = []"
      using True 1(2) d(1) that by simp
    with d show ?thesis by (intro exI [of _ "e # d"]) auto
  next
    case False
    with 1 show ?thesis by (intro exI [of _ "[]"]) auto
  qed
qed (auto intro: exI [of _ "[]"])

lemma drop_newest_spec:
  "tot = total_words es \<Longrightarrow> drop_newest maxWords tot bound es = (inc, b) \<Longrightarrow> es \<noteq> [] \<Longrightarrow>
     \<exists>d. es = inc @ d \<and> inc \<noteq> [] \<and> (total_words inc \<le> maxWords \<or> length inc = 1) \<and>
       (d = [] \<longrightarrow> b = bound) \<and>
       (d \<noteq> [] \<longrightarrow> b = Some (ce_occurredAt (hd d)) \<and> maxWords < entry_words (hd d) + total_words inc)"
proof (induction maxWords tot bound es rule: drop_newest.induct)
  case (1 maxWords tot bound es)
  show ?case
  proof (cases "1 < length es \<and> maxWords < tot")
    case True
    have es: "es = butlast es @ [last es]" using 1(4) by simp
    then have tw: "tot = total_words (butlast es) + entry_words (last es)"
      using 1(2) by (metis total_words_simps(1,2,3) add.right_neutral)
    from True have "butlast es \<noteq> []" by (cases es) auto
    moreover have "drop_newest maxWords (tot - entry_words (last es)) (Some (ce_occurredAt (last es))) (butlast es) = (inc, b)"
      using 1(3) True by (simp add: drop_newest.simps [of maxWords tot bound es])
    moreover have "tot - entry_words (last es) = total_words (butlast es)" using tw by simp
    ultimately obtain d where d: "butlast es = inc @ d" "inc \<noteq> []"
      "total_words inc \<le> maxWords \<or> length inc = 1" "d = [] \<longrightarrow> b = Some (ce_occurredAt (last es))"
      "d \<noteq> [] \<longrightarrow> b = Some (ce_occurredAt (hd d)) \<and> maxWords < entry_words (hd d) + total_words inc"
      using 1(1) [OF True] by blast
    have "maxWords < entry_words (last es) + total_words inc" if "d = []"
      using True tw d(1) that by simp
    with d es show ?thesis
      by (intro exI [of _ "d @ [last es]"]) (cases d; auto)
  next
    case False
    then have "inc = es" "b = bound" using 1(3) by (auto simp: drop_newest.simps [of maxWords tot bound es])
    moreover have "total_words es \<le> maxWords \<or> length es = 1"
      using False 1(2,4) by (cases es) auto
    ultimately show ?thesis using 1(4) by (intro exI [of _ "[]"]) simp
  qed
qed

lemma total_words_nonneg: "\<forall>e \<in> set es. 0 \<le> ce_wordCount e \<Longrightarrow> 0 \<le> total_words es"
  by (induction es) (simp_all add: entry_words_def HEADER_OVERHEAD_def)


section \<open>The merged document\<close>

lemma set_call_entries:
  "e \<in> set (call_entries opts calls) \<Longrightarrow>
     \<exists>c t. c \<in> set calls \<and> wanted_call opts c \<and> cr_transcript c = Some t \<and> e = entry_of c t"
  by (auto simp: call_entries_def List.map_filter_def)

lemma entry_time: "ce_occurredAt (entry_of c t) = cr_occurredAt c"
  by (simp add: entry_of_def)

lemma map_filter_entries_sorted:
  "sorted (map cr_occurredAt cs) \<Longrightarrow>
     sorted (map ce_occurredAt (List.map_filter (\<lambda>c. map_option (entry_of c) (cr_transcript c)) cs))"
proof (induction cs)
  case (Cons c cs)
  have "\<forall>e \<in> set (List.map_filter (\<lambda>c. map_option (entry_of c) (cr_transcript c)) cs).
      \<exists>c' \<in> set cs. ce_occurredAt e = cr_occurredAt c'"
    by (auto simp: List.map_filter_def entry_of_def)
  with Cons.prems have le: "\<forall>e \<in> set (List.map_filter (\<lambda>c. map_option (entry_of c) (cr_transcript c)) cs).
      cr_occurredAt c \<le> ce_occurredAt e"
    by fastforce
  show ?case
    by (cases "cr_transcript c") (use Cons le in \<open>simp_all add: List.map_filter_simps entry_time\<close>)
qed (simp add: List.map_filter_simps)

text \<open>
  C32. The merged document is made of calls of the given account and organization only, in the order of
  time, and nothing else in the database has any influence on it; the counts it reports are the number of
  those calls and of the calls kept.
\<close>

theorem merge_is_scoped:
  "sorted (map ce_occurredAt (call_entries opts calls)) \<and>
   (\<forall>e \<in> set (call_entries opts calls). \<exists>c \<in> set calls. ce_callId e = cr_id c \<and>
      cr_accountId c = Some (mo_accountId opts) \<and> cr_organizationId c = mo_organizationId opts) \<and>
   mergeTranscripts opts settings calls =
     mergeTranscripts opts settings
       (filter (\<lambda>c. cr_accountId c = Some (mo_accountId opts) \<and> cr_organizationId c = mo_organizationId opts) calls) \<and>
   mr_totalCalls (mergeTranscripts opts settings calls) = length (call_entries opts calls) \<and>
   mr_includedCalls (mergeTranscripts opts settings calls) \<le> mr_totalCalls (mergeTranscripts opts settings calls)"
proof -
  let ?P = "\<lambda>c. cr_accountId c = Some (mo_accountId opts) \<and> cr_organizationId c = mo_organizationId opts"
  have "filter (wanted_call opts) (filter ?P calls) = filter (wanted_call opts) calls"
    by (auto simp: wanted_call_def intro!: filter_cong)
  then have same: "call_entries opts (filter ?P calls) = call_entries opts calls" by (simp add: call_entries_def)
  have "length (tn_included (applyTruncation es n m)) \<le> length es" for es n m
  proof (cases "es = []")
    case False
    show ?thesis
    proof (cases m)
      case OLDEST_FIRST
      obtain inc b where r: "drop_oldest n (total_words es) None es = (inc, b)" by fastforce
      from drop_oldest_spec [OF refl r False] r show ?thesis
        by (auto simp: applyTruncation_def Let_def OLDEST_FIRST)
    next
      case NEWEST_FIRST
      obtain inc b where r: "drop_newest n (total_words es) None es = (inc, b)" by fastforce
      from drop_newest_spec [OF refl r False] r show ?thesis
        by (auto simp: applyTruncation_def Let_def NEWEST_FIRST)
    qed
  qed (cases m; simp add: applyTruncation_def Let_def drop_newest.simps)
  then have "mr_totalCalls (mergeTranscripts opts settings calls) = length (call_entries opts calls)"
    "mr_includedCalls (mergeTranscripts opts settings calls) \<le> length (call_entries opts calls)"
    by (auto simp: mergeTranscripts_def Let_def split: prod.split)
  moreover have "sorted (map ce_occurredAt (call_entries opts calls))"
    unfolding call_entries_def by (intro map_filter_entries_sorted sorted_sort_key)
  moreover have "mergeTranscripts opts settings (filter ?P calls) = mergeTranscripts opts settings calls"
    by (simp add: mergeTranscripts_def same)
  ultimately show ?thesis using set_call_entries by (fastforce simp: wanted_call_def entry_of_def)
qed

text \<open>
  A single call that is longer than the limit is kept whole and reported as truncated, although nothing
  was left out and there is no boundary.
\<close>

theorem long_call_reported_truncated:
  assumes "maxWords < total_words [e]"
  shows "applyTruncation [e] maxWords mode = \<lparr> tn_included = [e], tn_truncated = True, tn_boundary = None \<rparr>"
  using assms by (cases mode) (simp_all add: applyTruncation_def Let_def drop_newest.simps)

section \<open>Concrete runs\<close>

definition sample_entry :: "millis \<Rightarrow> int \<Rightarrow> CallTranscriptEntry" where
  "sample_entry t n =
     \<lparr> ce_callId = ''c'', ce_title = Some ''Kickoff'', ce_occurredAt = t, ce_duration = Some 90,
       ce_participants = [], ce_fullText = ''Hello.'', ce_wordCount = n \<rparr>"


theorem long_call_reported_truncated_witness:
  "applyTruncation [sample_entry 1 100] 50 NEWEST_FIRST =
     \<lparr> tn_included = [sample_entry 1 100], tn_truncated = True, tn_boundary = None \<rparr>"
  by (rule long_call_reported_truncated) (simp add: entry_words_def sample_entry_def HEADER_OVERHEAD_def)

text \<open>
  The limit is not a bound on the document: with a stored word count of two and the allowance of thirty
  words for the heading, a call with twenty participants fits a limit of forty words and is written
  with more.
\<close>

definition crowded_call :: CallRow where
  "crowded_call =
     \<lparr> cr_id = ''c1'', cr_organizationId = ''org'', cr_accountId = Some ''a1'', cr_title = None, cr_occurredAt = 0,
       cr_duration = None,
       cr_transcript = Some \<lparr> tr_id = ''t1'', tr_callId = ''c1'', tr_fullText = ''All here.'', tr_wordCount = 2 \<rparr>,
       cr_participants = replicate 20 \<lparr> pt_name = Some ''A L'', pt_email = None, pt_isHost = False \<rparr> \<rparr>"

definition forty_words :: MergedTranscriptOptions where
  "forty_words =
     \<lparr> mo_accountId = ''a1'', mo_organizationId = ''org'', mo_maxWords = Some 40, mo_truncationMode = None,
       mo_afterDate = None, mo_beforeDate = None \<rparr>"

theorem merged_document_exceeds_limit:
  "mr_truncated (mergeTranscripts forty_words [] [crowded_call]) = False \<and>
   40 < mr_wordCount (mergeTranscripts forty_words [] [crowded_call])"
  by code_simp

lemma crowded_scoped:
  "call_entries forty_words [crowded_call] = [entry_of crowded_call
     \<lparr> tr_id = ''t1'', tr_callId = ''c1'', tr_fullText = ''All here.'', tr_wordCount = 2 \<rparr>]"
  by code_simp

theorem merge_is_scoped_witness:
  "\<exists>c. c \<in> {crowded_call} \<and> cr_accountId c = Some ''a1'' \<and> cr_organizationId c = ''org'' \<and>
     mr_totalCalls (mergeTranscripts forty_words [] [crowded_call]) = 1"
proof (intro exI conjI)
  note m = merge_is_scoped [of forty_words "[crowded_call]" "[]"]
  from m have "mr_totalCalls (mergeTranscripts forty_words [] [crowded_call]) = length (call_entries forty_words [crowded_call])"
    by (elim conjE)
  then show "mr_totalCalls (mergeTranscripts forty_words [] [crowded_call]) = 1" by (simp add: crowded_scoped)
  show "crowded_call \<in> {crowded_call}" by simp
  show "cr_accountId crowded_call = Some ''a1''" "cr_organizationId crowded_call = ''org''" by code_simp+
qed

end
