(* ===== verification/Api_Keys.thy ===== *)
theory Api_Keys
  imports Policy_Engine "HOL-Library.Sublist"
begin

text \<open>
  \<open>src/middleware/api-key-auth.ts\<close> and \<open>src/api/api-key-routes.ts\<close>: the keys of third-party clients, how a
  request is authenticated by one, and the handlers that create, list, rotate and revoke them. A handler
  that reads and then writes is split at its \<open>await\<close>s, and \<open>key_step\<close> interleaves the stages of any number of
  requests; the theorems speak of every interleaving. The digest is the parameter \<open>sha\<close>.
\<close>

section \<open>Tables\<close>

record ApiKey =
  ak_id :: ident
  ak_organizationId :: ident
  ak_keyHash :: string
  ak_keyPrefix :: string
  ak_label :: string
  ak_scopes :: "string list"
  ak_expiresAt :: "millis option"
  ak_revokedAt :: "millis option"
  ak_lastUsedAt :: "millis option"
  ak_replacedByKeyId :: "ident option"
  ak_gracePeriodEndsAt :: "millis option"
  ak_createdAt :: millis

record ApiUsageLog =
  aul_apiKeyId :: ident
  aul_organizationId :: ident
  aul_endpoint :: string
  aul_method :: string
  aul_statusCode :: int
  aul_tokensUsed :: "int option"
  aul_responseTimeMs :: "int option"
  aul_createdAt :: millis

section \<open>Authentication\<close>

text \<open>A new key: its text, the digest that is stored and the prefix that is shown.\<close>

definition hashApiKey :: "(string \<Rightarrow> string) \<Rightarrow> string \<Rightarrow> string" where
  "hashApiKey sha rawKey = sha rawKey"

definition generateApiKey :: "(string \<Rightarrow> string) \<Rightarrow> string \<Rightarrow> string \<times> string \<times> string" where
  "generateApiKey sha random =
     (let raw = ''se_live_'' @ random in (raw, hashApiKey sha raw, take 12 raw))"

definition extractKey :: "string option \<Rightarrow> string option \<Rightarrow> string option" where
  "extractKey authorization xApiKey =
     (case authorization of
        Some h \<Rightarrow> if prefix ''Bearer '' h then Some (drop 7 h)
                 else if truthy xApiKey then xApiKey else None
      | None \<Rightarrow> if truthy xApiKey then xApiKey else None)"

definition in_grace :: "millis \<Rightarrow> ApiKey \<Rightarrow> bool" where
  "in_grace now k \<longleftrightarrow> (case ak_gracePeriodEndsAt k of None \<Rightarrow> False | Some g \<Rightarrow> now < g)"

definition key_expired :: "millis \<Rightarrow> ApiKey \<Rightarrow> bool" where
  "key_expired now k \<longleftrightarrow> (case ak_expiresAt k of None \<Rightarrow> False | Some e \<Rightarrow> e < now)"

definition keyAuth :: "(string \<Rightarrow> string) \<Rightarrow> millis \<Rightarrow> string option \<Rightarrow> string option \<Rightarrow> ApiKey list
    \<Rightarrow> (response, ApiKey) res" where
  "keyAuth sha now authorization xApiKey keys =
     (case extractKey authorization xApiKey of
        None \<Rightarrow> Inl (Response 401 ''api_key_required'')
      | Some rawKey \<Rightarrow>
          if rawKey = [] then Inl (Response 401 ''api_key_required'')
          else
            case List.find (\<lambda>k. ak_keyHash k = hashApiKey sha rawKey) keys of
              None \<Rightarrow> Inl (Response 401 ''invalid_api_key'')
            | Some apiKey \<Rightarrow>
                if ak_revokedAt apiKey \<noteq> None \<and> \<not> in_grace now apiKey then Inl (Response 401 ''api_key_revoked'')
                else if key_expired now apiKey then Inl (Response 401 ''api_key_expired'')
                else Inr apiKey)"

text \<open>The write of \<open>lastUsedAt\<close>, which nobody waits for.\<close>

definition touch_key :: "millis \<Rightarrow> ident \<Rightarrow> ApiKey list \<Rightarrow> ApiKey list" where
  "touch_key now keyId = update_many (\<lambda>k. ak_id k = keyId) (\<lambda>k. k\<lparr> ak_lastUsedAt := Some now \<rparr>)"

definition requireScope :: "string \<Rightarrow> ApiKey option \<Rightarrow> guard" where
  "requireScope scope apiKey =
     (case apiKey of
        None \<Rightarrow> Status 403 ''insufficient_scope''
      | Some k \<Rightarrow> if scope \<in> set (ak_scopes k) then Next else Status 403 ''insufficient_scope'')"

section \<open>Handlers\<close>

definition resolveOrgId :: "ident option \<Rightarrow> (response, ident) res" where
  "resolveOrgId orgId =
     (case orgId of
        Some o' \<Rightarrow> if o' = [] then Inl (Response 401 ''Authentication required'') else Inr o'
      | None \<Rightarrow> Inl (Response 401 ''Authentication required''))"

record CreateKeyBody =
  ckb_label :: "string option"
  ckb_scopes :: "string list option"
  ckb_expires_in_days :: "int option"

definition CreateKeySchema :: "CreateKeyBody \<Rightarrow> bool" where
  "CreateKeySchema body \<longleftrightarrow>
     (case ckb_label body of None \<Rightarrow> False | Some l \<Rightarrow> 1 \<le> length l \<and> length l \<le> 100) \<and>
     (case ckb_scopes body of None \<Rightarrow> True | Some ss \<Rightarrow> 1 \<le> length ss) \<and>
     (case ckb_expires_in_days body of None \<Rightarrow> True | Some d \<Rightarrow> 1 \<le> d \<and> d \<le> 365)"

definition RotateKeySchema :: "int option \<Rightarrow> int option" where
  "RotateKeySchema hours =
     (case hours of None \<Rightarrow> Some 24 | Some h \<Rightarrow> if 0 \<le> h \<and> h \<le> 168 then Some h else None)"

definition hours_ms :: "int \<Rightarrow> millis" where
  "hours_ms h = h * 60 * 60 * 1000"

text \<open>\<open>prisma.apiKey.create\<close>: \<open>id\<close> and \<open>keyHash\<close> are unique keys of the table.\<close>

definition insert_key :: "ApiKey \<Rightarrow> ApiKey list \<Rightarrow> (response, ApiKey list) res" where
  "insert_key k keys =
     (if \<exists>k' \<in> set keys. ak_id k' = ak_id k \<or> ak_keyHash k' = ak_keyHash k then Inl (Response 500 ''internal_error'') else Inr (keys @ [k]))"

definition create_key_route :: "(string \<Rightarrow> string) \<Rightarrow> string \<Rightarrow> ident \<Rightarrow> millis \<Rightarrow> ident option \<Rightarrow> CreateKeyBody
    \<Rightarrow> ApiKey list \<Rightarrow> (response, string \<times> ApiKey \<times> ApiKey list) res" where
  "create_key_route sha random newId now orgId body keys =
     (case resolveOrgId orgId of
        Inl e \<Rightarrow> Inl e
      | Inr org \<Rightarrow>
          if \<not> CreateKeySchema body then Inl (Response 400 ''validation_error'')
          else
            case generateApiKey sha random of
              (raw, hash, pre) \<Rightarrow>
                let k = \<lparr> ak_id = newId, ak_organizationId = org, ak_keyHash = hash, ak_keyPrefix = pre,
                          ak_label = the (ckb_label body),
                          ak_scopes = (case ckb_scopes body of None \<Rightarrow> [''rag:query''] | Some ss \<Rightarrow> ss),
                          ak_expiresAt = map_option (\<lambda>d. now + d * 24 * 60 * 60 * 1000) (ckb_expires_in_days body),
                          ak_revokedAt = None, ak_lastUsedAt = None, ak_replacedByKeyId = None,
                          ak_gracePeriodEndsAt = None, ak_createdAt = now \<rparr>
                in case insert_key k keys of Inl e \<Rightarrow> Inl e | Inr keys' \<Rightarrow> Inr (raw, k, keys'))"

text \<open>The status a listing shows, and the listing: newest first.\<close>

definition key_status :: "millis \<Rightarrow> ApiKey \<Rightarrow> string" where
  "key_status now k =
     (if ak_revokedAt k \<noteq> None then if in_grace now k then ''rotating'' else ''revoked''
      else if key_expired now k then ''expired'' else ''active'')"

definition list_keys_route :: "millis \<Rightarrow> ident option \<Rightarrow> ApiKey list \<Rightarrow> (response, (ApiKey \<times> string) list) res" where
  "list_keys_route now orgId keys =
     (case resolveOrgId orgId of
        Inl e \<Rightarrow> Inl e
      | Inr org \<Rightarrow> Inr (map (\<lambda>k. (k, key_status now k))
          (sort_key (\<lambda>k. - ak_createdAt k) (filter (\<lambda>k. ak_organizationId k = org) keys))))"

text \<open>
  Rotation in its three stages: the check of the key, the transaction that makes the new key and revokes
  the old one, and the link from the old key to the new one.
\<close>

definition find_key :: "ident \<Rightarrow> ident \<Rightarrow> ApiKey list \<Rightarrow> ApiKey option" where
  "find_key keyId org = List.find (\<lambda>k. ak_id k = keyId \<and> ak_organizationId k = org)"

definition rotate_read :: "ident option \<Rightarrow> ident \<Rightarrow> int option \<Rightarrow> ApiKey list \<Rightarrow> (response, ident \<times> int \<times> ApiKey) res" where
  "rotate_read orgId keyId hours keys =
     (case resolveOrgId orgId of
        Inl e \<Rightarrow> Inl e
      | Inr org \<Rightarrow>
          (case RotateKeySchema hours of
             None \<Rightarrow> Inl (Response 400 ''validation_error'')
           | Some h \<Rightarrow>
               (case find_key keyId org keys of
                  None \<Rightarrow> Inl (Response 404 ''API key not found'')
                | Some existingKey \<Rightarrow>
                    if ak_revokedAt existingKey \<noteq> None then Inl (Response 409 ''key_already_revoked'')
                    else Inr (org, h, existingKey))))"

definition rotate_commit :: "(string \<Rightarrow> string) \<Rightarrow> string \<Rightarrow> ident \<Rightarrow> millis \<Rightarrow> ident \<Rightarrow> int \<Rightarrow> ApiKey
    \<Rightarrow> ApiKey list \<Rightarrow> (response, string \<times> ApiKey list) res" where
  "rotate_commit sha random newId now org h existingKey keys =
     (case generateApiKey sha random of
        (raw, hash, pre) \<Rightarrow>
          case insert_key
              \<lparr> ak_id = newId, ak_organizationId = org, ak_keyHash = hash, ak_keyPrefix = pre,
                ak_label = ak_label existingKey, ak_scopes = ak_scopes existingKey,
                ak_expiresAt = ak_expiresAt existingKey, ak_revokedAt = None, ak_lastUsedAt = None,
                ak_replacedByKeyId = None, ak_gracePeriodEndsAt = None, ak_createdAt = now \<rparr> keys of
            Inl e \<Rightarrow> Inl e
          | Inr keys' \<Rightarrow>
              Inr (raw, update_many (\<lambda>k. ak_id k = ak_id existingKey \<and> ak_organizationId k = org)
                (\<lambda>k. k\<lparr> ak_revokedAt := Some now, ak_gracePeriodEndsAt := Some (now + hours_ms h) \<rparr>) keys'))"

definition rotate_link :: "ident \<Rightarrow> ident \<Rightarrow> ident \<Rightarrow> ApiKey list \<Rightarrow> ApiKey list" where
  "rotate_link org keyId newId =
     update_many (\<lambda>k. ak_id k = keyId \<and> ak_organizationId k = org) (\<lambda>k. k\<lparr> ak_replacedByKeyId := Some newId \<rparr>)"

text \<open>Revocation in its two stages.\<close>

definition delete_read :: "ident option \<Rightarrow> ident \<Rightarrow> ApiKey list \<Rightarrow> (response, ident) res" where
  "delete_read orgId keyId keys =
     (case resolveOrgId orgId of
        Inl e \<Rightarrow> Inl e
      | Inr org \<Rightarrow>
          (case find_key keyId org keys of
             None \<Rightarrow> Inl (Response 404 ''API key not found'')
           | Some existingKey \<Rightarrow>
               if ak_revokedAt existingKey \<noteq> None then Inl (Response 409 ''API key already revoked'')
               else Inr org))"

definition delete_commit :: "millis \<Rightarrow> ident \<Rightarrow> ident \<Rightarrow> ApiKey list \<Rightarrow> ApiKey list" where
  "delete_commit now org keyId =
     update_many (\<lambda>k. ak_id k = keyId \<and> ak_organizationId k = org)
       (\<lambda>k. k\<lparr> ak_revokedAt := Some now, ak_gracePeriodEndsAt := None \<rparr>)"

text \<open>A request that runs without interruption.\<close>

definition rotate_route :: "(string \<Rightarrow> string) \<Rightarrow> string \<Rightarrow> ident \<Rightarrow> millis \<Rightarrow> ident option \<Rightarrow> ident \<Rightarrow> int option
    \<Rightarrow> ApiKey list \<Rightarrow> (response, string \<times> ApiKey list) res" where
  "rotate_route sha random newId now orgId keyId hours keys =
     (case rotate_read orgId keyId hours keys of
        Inl e \<Rightarrow> Inl e
      | Inr (org, h, existingKey) \<Rightarrow>
          (case rotate_commit sha random newId now org h existingKey keys of
             Inl e \<Rightarrow> Inl e
           | Inr (raw, keys') \<Rightarrow> Inr (raw, rotate_link org keyId newId keys')))"

definition delete_route :: "millis \<Rightarrow> ident option \<Rightarrow> ident \<Rightarrow> ApiKey list \<Rightarrow> (response, ApiKey list) res" where
  "delete_route now orgId keyId keys =
     (case delete_read orgId keyId keys of Inl e \<Rightarrow> Inl e | Inr org \<Rightarrow> Inr (delete_commit now org keyId keys))"

text \<open>The usage of a key: requests, tokens and the last hundred calls since a time.\<close>

record KeyUsage =
  ku_key :: ApiKey
  ku_since :: millis
  ku_total_requests :: nat
  ku_total_tokens_used :: int
  ku_recent_logs :: "ApiUsageLog list"

definition usage_window :: "ident \<Rightarrow> ident \<Rightarrow> millis \<Rightarrow> ApiUsageLog \<Rightarrow> bool" where
  "usage_window keyId org since l \<longleftrightarrow>
     aul_apiKeyId l = keyId \<and> aul_organizationId l = org \<and> since \<le> aul_createdAt l"

definition key_usage_route :: "millis \<Rightarrow> ident option \<Rightarrow> ident \<Rightarrow> millis option \<Rightarrow> ApiKey list \<Rightarrow> ApiUsageLog list
    \<Rightarrow> (response, KeyUsage) res" where
  "key_usage_route now orgId keyId since_param keys logs =
     (case resolveOrgId orgId of
        Inl e \<Rightarrow> Inl e
      | Inr org \<Rightarrow>
          (case find_key keyId org keys of
             None \<Rightarrow> Inl (Response 404 ''API key not found'')
           | Some key \<Rightarrow>
               let since = (case since_param of Some s \<Rightarrow> s | None \<Rightarrow> now - 30 * 24 * 60 * 60 * 1000);
                   used = filter (usage_window keyId org since) logs in
               Inr \<lparr> ku_key = key, ku_since = since, ku_total_requests = length used,
                     ku_total_tokens_used = sum_list (List.map_filter aul_tokensUsed used),
                     ku_recent_logs = take 100 (sort_key (\<lambda>l. - aul_createdAt l) used) \<rparr>))"

section \<open>Requests that interleave\<close>

text \<open>
  The state holds the table and the requests that have passed their check: rotations, rotations that
  still have to link the keys, and revocations.
\<close>

record KeyState =
  ks_keys :: "ApiKey list"
  ks_rotating :: "(ident \<times> int \<times> ApiKey) list"
  ks_linking :: "(ident \<times> ident \<times> ident) list"
  ks_deleting :: "(ident \<times> ident) list"

inductive key_step :: "(string \<Rightarrow> string) \<Rightarrow> KeyState \<Rightarrow> KeyState \<Rightarrow> bool" for sha where
  created: "create_key_route sha random newId now orgId body (ks_keys s) = Inr (raw, k, keys')
    \<Longrightarrow> key_step sha s (s\<lparr> ks_keys := keys' \<rparr>)"
| rotate_checked: "rotate_read orgId keyId hours (ks_keys s) = Inr p
    \<Longrightarrow> key_step sha s (s\<lparr> ks_rotating := p # ks_rotating s \<rparr>)"
| rotated: "(org, h, ex) \<in> set (ks_rotating s)
    \<Longrightarrow> rotate_commit sha random newId now org h ex (ks_keys s) = Inr (raw, keys')
    \<Longrightarrow> key_step sha s (s\<lparr> ks_keys := keys', ks_rotating := remove1 (org, h, ex) (ks_rotating s),
          ks_linking := (org, ak_id ex, newId) # ks_linking s \<rparr>)"
| linked: "(org, keyId, newId) \<in> set (ks_linking s)
    \<Longrightarrow> key_step sha s (s\<lparr> ks_keys := rotate_link org keyId newId (ks_keys s),
          ks_linking := remove1 (org, keyId, newId) (ks_linking s) \<rparr>)"
| delete_checked: "delete_read orgId keyId (ks_keys s) = Inr org
    \<Longrightarrow> key_step sha s (s\<lparr> ks_deleting := (org, keyId) # ks_deleting s \<rparr>)"
| deleted: "(org, keyId) \<in> set (ks_deleting s)
    \<Longrightarrow> key_step sha s (s\<lparr> ks_keys := delete_commit now org keyId (ks_keys s),
          ks_deleting := remove1 (org, keyId) (ks_deleting s) \<rparr>)"
| used: "keyAuth sha now a x (ks_keys s) = Inr k
    \<Longrightarrow> key_step sha s (s\<lparr> ks_keys := touch_key now (ak_id k) (ks_keys s) \<rparr>)"

definition keys_ok :: "ApiKey list \<Rightarrow> bool" where
  "keys_ok keys \<longleftrightarrow> unique_key ak_id keys \<and> unique_key ak_keyHash keys"

text \<open>What a key keeps as long as it exists, and the relation of the rows before and after a step.\<close>

definition key_identity :: "ApiKey \<Rightarrow> ident \<times> string \<times> ident \<times> string list \<times> millis option" where
  "key_identity k = (ak_id k, ak_keyHash k, ak_organizationId k, ak_scopes k, ak_expiresAt k)"

lemma insert_key_ok: "insert_key k keys = Inr keys' \<longleftrightarrow>
    keys' = keys @ [k] \<and> (\<forall>k' \<in> set keys. ak_id k' \<noteq> ak_id k \<and> ak_keyHash k' \<noteq> ak_keyHash k)"
  by (auto simp: insert_key_def)

lemma keys_ok_insert: "keys_ok keys \<Longrightarrow> insert_key k keys = Inr keys' \<Longrightarrow> keys_ok keys'"
  by (auto simp: insert_key_ok keys_ok_def unique_key_def)

lemma keys_ok_update: "(\<And>k. key_identity (f k) = key_identity k) \<Longrightarrow> keys_ok (update_many p f keys) = keys_ok keys"
  by (simp add: keys_ok_def unique_key_update_many key_identity_def)

lemma key_step_table:
  assumes "key_step sha s s'"
  obtains (same) "ks_keys s' = ks_keys s"
  | (inserted) k where "insert_key k (ks_keys s) = Inr (ks_keys s')" "ak_revokedAt k = None"
  | (updated) p f where "ks_keys s' = update_many p f (ks_keys s)" "\<And>k. key_identity (f k) = key_identity k"
      "\<And>k. ak_revokedAt k \<noteq> None \<Longrightarrow> ak_revokedAt (f k) \<noteq> None"
      "\<And>k. ak_gracePeriodEndsAt (f k) = ak_gracePeriodEndsAt k \<or> ak_gracePeriodEndsAt (f k) = None"
  | (rotated) org h ex new keys1 f where "(org, h, ex) \<in> set (ks_rotating s)" "insert_key new (ks_keys s) = Inr keys1"
      "ak_revokedAt new = None"
      "ks_keys s' = update_many (\<lambda>k. ak_id k = ak_id ex \<and> ak_organizationId k = org) f keys1"
      "\<And>k. key_identity (f k) = key_identity k" "\<And>k. ak_revokedAt (f k) \<noteq> None"
  using assms
proof cases
  case (created random newId now orgId body raw k keys')
  then show ?thesis
    by (intro inserted [of k])
      (auto simp: create_key_route_def Let_def split: sum.splits if_splits prod.splits)
next
  case (rotated org h ex random newId now raw keys')
  then show ?thesis
    by (auto simp: rotate_commit_def key_identity_def split: prod.splits sum.splits intro!: that(4))
next
  case (linked org keyId newId)
  with updated [of "\<lambda>k. ak_id k = keyId \<and> ak_organizationId k = org" "\<lambda>k. k\<lparr> ak_replacedByKeyId := Some newId \<rparr>"]
  show ?thesis by (simp add: rotate_link_def key_identity_def)
next
  case (deleted org keyId now)
  with updated [of "\<lambda>k. ak_id k = keyId \<and> ak_organizationId k = org"
      "\<lambda>k. k\<lparr> ak_revokedAt := Some now, ak_gracePeriodEndsAt := None \<rparr>"]
  show ?thesis by (simp add: delete_commit_def key_identity_def)
next
  case (used now a x k)
  with updated [of "\<lambda>r. ak_id r = ak_id k" "\<lambda>r. r\<lparr> ak_lastUsedAt := Some now \<rparr>"]
  show ?thesis by (simp add: touch_key_def key_identity_def)
qed (auto intro: same)

lemma key_step_ok: "key_step sha s s' \<Longrightarrow> keys_ok (ks_keys s) \<Longrightarrow> keys_ok (ks_keys s')"
  by (erule key_step_table) (auto simp: keys_ok_update keys_ok_insert)

text \<open>Every row lives on under its identity.\<close>

lemma update_many_row:
  assumes "k \<in> set keys" "\<And>k. key_identity (f k) = key_identity k"
  shows "\<exists>k' \<in> set (update_many p f keys). key_identity k' = key_identity k"
proof (cases "p k")
  case True
  with assms have "f k \<in> set (update_many p f keys)" by (simp add: set_update_many)
  with assms(2) show ?thesis by blast
next
  case False
  with assms(1) have "k \<in> set (update_many p f keys)" by (simp add: set_update_many)
  then show ?thesis by blast
qed

lemma key_step_row:
  assumes "key_step sha s s'" "k \<in> set (ks_keys s)"
  shows "\<exists>k' \<in> set (ks_keys s'). key_identity k' = key_identity k"
  using assms
proof (cases rule: key_step_table)
  case (rotated org h ex new keys1 f)
  with assms(2) have "k \<in> set keys1" by (auto simp: insert_key_ok)
  with rotated(5) show ?thesis unfolding rotated(4) by (intro update_many_row) auto
next
  case (updated p f)
  with assms(2) show ?thesis unfolding updated(1) by (intro update_many_row) auto
qed (use assms(2) in \<open>auto simp: insert_key_ok\<close>)

lemma key_steps_ok: "(key_step sha)\<^sup>*\<^sup>* s s' \<Longrightarrow> keys_ok (ks_keys s) \<Longrightarrow> keys_ok (ks_keys s')"
  by (induction rule: rtranclp_induct) (auto intro: key_step_ok)

lemma key_steps_row:
  "(key_step sha)\<^sup>*\<^sup>* s s' \<Longrightarrow> k \<in> set (ks_keys s) \<Longrightarrow> \<exists>k' \<in> set (ks_keys s'). key_identity k' = key_identity k"
proof (induction rule: rtranclp_induct)
  case (step y z)
  then show ?case by (metis key_step_row)
qed auto

lemma keyAuth_ok: "keyAuth sha now a x keys = Inr k \<longleftrightarrow>
    (\<exists>raw. extractKey a x = Some raw \<and> raw \<noteq> [] \<and> List.find (\<lambda>k. ak_keyHash k = sha raw) keys = Some k \<and>
       (ak_revokedAt k = None \<or> in_grace now k) \<and> \<not> key_expired now k)"
  by (auto simp: keyAuth_def hashApiKey_def split: option.splits if_splits)

lemma keys_ok_same: "keys_ok keys \<Longrightarrow> k \<in> set keys \<Longrightarrow> k' \<in> set keys \<Longrightarrow> ak_keyHash k = ak_keyHash k' \<Longrightarrow> k = k'"
  by (auto simp: keys_ok_def dest: unique_key_eq)

section \<open>Revocation\<close>

text \<open>A key is revoked for good: it may work until the end of its grace period, and nobody is about to rotate it.\<close>

definition settled :: "ident \<Rightarrow> millis option \<Rightarrow> KeyState \<Rightarrow> bool" where
  "settled i deadline s \<longleftrightarrow>
     (\<forall>k \<in> set (ks_keys s). ak_id k = i \<longrightarrow> ak_revokedAt k \<noteq> None \<and> ak_gracePeriodEndsAt k \<in> {None, deadline}) \<and>
     (\<exists>k \<in> set (ks_keys s). ak_id k = i) \<and> (\<forall>(org, h, ex) \<in> set (ks_rotating s). ak_id ex \<noteq> i)"

lemma key_step_rotating:
  assumes "key_step sha s s'"
  shows "ks_rotating s' = ks_rotating s \<or> set (ks_rotating s') \<subseteq> set (ks_rotating s) \<or>
    (\<exists>org h ex. ks_rotating s' = (org, h, ex) # ks_rotating s \<and> ex \<in> set (ks_keys s) \<and> ak_revokedAt ex = None)"
  using assms
proof cases
  case (rotate_checked orgId keyId hours p)
  then show ?thesis
    by (auto simp: rotate_read_def find_key_def dest!: find_SomeD split: sum.splits option.splits if_splits)
next
  case (rotated org h ex random newId now raw keys')
  then show ?thesis using set_remove1_subset [of "(org, h, ex)" "ks_rotating s"] by simp
qed auto

lemma settled_step: "key_step sha s s' \<Longrightarrow> settled i d s \<Longrightarrow> settled i d s'"
proof -
  assume st: "key_step sha s s'" and set: "settled i d s"
  from key_step_rotating [OF st] set have "\<forall>(org, h, ex) \<in> set (ks_rotating s'). ak_id ex \<noteq> i"
    unfolding settled_def by fastforce
  moreover from st set have "\<forall>k \<in> set (ks_keys s'). ak_id k = i \<longrightarrow> ak_revokedAt k \<noteq> None \<and> ak_gracePeriodEndsAt k \<in> {None, d}"
  proof (cases rule: key_step_table)
    case (inserted k)
    with set show ?thesis by (fastforce simp: settled_def insert_key_ok)
  next
    case (updated p f)
    from set have rows: "ak_revokedAt k \<noteq> None \<and> ak_gracePeriodEndsAt k \<in> {None, d}"
      if "k \<in> set (ks_keys s)" "ak_id k = i" for k using that by (auto simp: settled_def)
    from updated(2) have "ak_id (f k) = ak_id k" for k by (simp add: key_identity_def)
    then have moved: "ak_revokedAt (f k) \<noteq> None \<and> ak_gracePeriodEndsAt (f k) \<in> {None, d}"
      if "k \<in> set (ks_keys s)" "ak_id (f k) = i" for k
      using rows [OF that(1)] that(2) updated(3) [of k] updated(4) [of k] by auto
    show ?thesis
    proof (intro ballI impI)
      fix k' assume "k' \<in> set (ks_keys s')" "ak_id k' = i"
      then show "ak_revokedAt k' \<noteq> None \<and> ak_gracePeriodEndsAt k' \<in> {None, d}"
        unfolding updated(1) by (cases rule: in_update_manyE) (use rows moved in auto)
    qed
  next
    case (rotated org h ex new keys1 f)
    from rotated(5) have id: "ak_id (f k) = ak_id k" for k by (simp add: key_identity_def)
    from rotated(1) set have ne: "ak_id ex \<noteq> i" by (auto simp: settled_def)
    have new: "ak_id new \<noteq> i" using rotated(2) set by (auto simp: settled_def insert_key_ok)
    show ?thesis
    proof (intro ballI impI)
      fix k assume k: "k \<in> set (ks_keys s')" "ak_id k = i"
      then have "k \<in> set keys1" using ne id unfolding rotated(4) set_update_many by auto
      with k new have "k \<in> set (ks_keys s)" using rotated(2) by (auto simp: insert_key_ok)
      with k set show "ak_revokedAt k \<noteq> None \<and> ak_gracePeriodEndsAt k \<in> {None, d}" by (auto simp: settled_def)
    qed
  qed (auto simp: settled_def)
  moreover have "\<exists>k \<in> set (ks_keys s'). ak_id k = i"
  proof -
    from set obtain k where "k \<in> set (ks_keys s)" "ak_id k = i" by (auto simp: settled_def)
    with key_step_row [OF st] obtain k' where "k' \<in> set (ks_keys s')" "key_identity k' = key_identity k" by blast
    with \<open>ak_id k = i\<close> show ?thesis by (auto simp: key_identity_def)
  qed
  ultimately show ?thesis unfolding settled_def by blast
qed

lemma settled_steps: "(key_step sha)\<^sup>*\<^sup>* s s' \<Longrightarrow> settled i d s \<Longrightarrow> settled i d s'"
  by (induction rule: rtranclp_induct) (auto intro: settled_step)

text \<open>
  A revoked key stays revoked, whatever requests interleave afterwards: once no rotation of the key
  is under way, it authenticates at most until the end of the grace period it had at that time, and never
  if it had none.
\<close>

theorem revoked_key_stays_revoked:
  assumes "keys_ok (ks_keys s)" "k \<in> set (ks_keys s)" "ak_revokedAt k \<noteq> None"
    and "ak_id k \<notin> (ak_id \<circ> snd \<circ> snd) ` set (ks_rotating s)"
    and "(key_step sha)\<^sup>*\<^sup>* s s'" "extractKey a x = Some raw" "sha raw = ak_keyHash k"
    and "keyAuth sha now a x (ks_keys s') = Inr k'"
  shows "ak_id k' = ak_id k \<and> in_grace now k"
proof -
  have "settled (ak_id k) (ak_gracePeriodEndsAt k) s"
    unfolding settled_def
  proof (intro conjI ballI impI)
    fix k2 assume "k2 \<in> set (ks_keys s)" "ak_id k2 = ak_id k"
    then have "k2 = k" using assms(1,2) by (auto simp: keys_ok_def dest: unique_key_eq)
    with assms(3) show "ak_revokedAt k2 \<noteq> None" "ak_gracePeriodEndsAt k2 \<in> {None, ak_gracePeriodEndsAt k}" by simp_all
  qed (use assms(2,4) in force)+
  with assms(5) have settled: "settled (ak_id k) (ak_gracePeriodEndsAt k) s'" by (rule settled_steps)
  from assms(6-8) have k': "k' \<in> set (ks_keys s')" "ak_keyHash k' = ak_keyHash k"
    "ak_revokedAt k' = None \<or> in_grace now k'"
    by (auto simp: keyAuth_ok dest!: find_SomeD)
  from key_steps_row [OF assms(5,2)] obtain k2 where "k2 \<in> set (ks_keys s')" "key_identity k2 = key_identity k" by blast
  with keys_ok_same [OF key_steps_ok [OF assms(5,1)], of k' k2] k' have id: "ak_id k' = ak_id k"
    by (simp add: key_identity_def)
  with settled k' have "ak_revokedAt k' \<noteq> None" "ak_gracePeriodEndsAt k' \<in> {None, ak_gracePeriodEndsAt k}"
    by (auto simp: settled_def)
  with k'(3) have "in_grace now k" unfolding in_grace_def by (cases "ak_gracePeriodEndsAt k") auto
  with id show ?thesis ..
qed

text \<open>
  A key acts for the same organization with the same scopes for ever, whatever requests interleave:
  no step moves it to another organization, widens it or makes it live longer.
\<close>

theorem key_keeps_identity:
  assumes "keys_ok (ks_keys s)" "keyAuth sha now a x (ks_keys s) = Inr k" "(key_step sha)\<^sup>*\<^sup>* s s'"
    and "keyAuth sha later a x (ks_keys s') = Inr k'"
  shows "ak_id k' = ak_id k \<and> ak_organizationId k' = ak_organizationId k \<and> ak_scopes k' = ak_scopes k \<and>
    (\<forall>t. key_expired t k' = key_expired t k)"
proof -
  from assms(2) have k: "k \<in> set (ks_keys s)" by (auto simp: keyAuth_ok dest!: find_SomeD)
  from key_steps_row [OF assms(3) k] obtain k2 where k2: "k2 \<in> set (ks_keys s')" "key_identity k2 = key_identity k" by blast
  from assms(2,4) have "k' \<in> set (ks_keys s')" "ak_keyHash k' = ak_keyHash k"
    by (auto simp: keyAuth_ok dest!: find_SomeD)
  with keys_ok_same [OF key_steps_ok [OF assms(3,1)], of k' k2] k2 have "key_identity k' = key_identity k"
    by (simp add: key_identity_def)
  then show ?thesis by (simp add: key_identity_def key_expired_def)
qed

section \<open>Rotation\<close>

lemma find_update_hash:
  assumes "\<And>k. key_identity (f k) = key_identity k"
  shows "List.find (\<lambda>k. ak_keyHash k = h) (update_many p f keys) =
    map_option (\<lambda>k. if p k then f k else k) (List.find (\<lambda>k. ak_keyHash k = h) keys)"
  using assms by (intro find_update_many) (simp add: key_identity_def)

text \<open>The table behind a rotation that runs without interruption.\<close>

lemma rotate_route_ok:
  assumes "rotate_route sha random newId now orgId keyId hours keys = Inr (raw, keys')"
  obtains org h k new keys1 where "resolveOrgId orgId = Inr org" "find_key keyId org keys = Some k" "ak_revokedAt k = None" "RotateKeySchema hours = Some h"
    "raw = ''se_live_'' @ random" "insert_key new keys = Inr keys1" "new = \<lparr> ak_id = newId, ak_organizationId = org,
       ak_keyHash = sha raw, ak_keyPrefix = take 12 raw, ak_label = ak_label k, ak_scopes = ak_scopes k,
       ak_expiresAt = ak_expiresAt k, ak_revokedAt = None, ak_lastUsedAt = None, ak_replacedByKeyId = None,
       ak_gracePeriodEndsAt = None, ak_createdAt = now \<rparr>"
    "keys' = update_many (\<lambda>k. ak_id k = keyId \<and> ak_organizationId k = org)
       (\<lambda>k. k\<lparr> ak_revokedAt := Some now, ak_gracePeriodEndsAt := Some (now + hours_ms h), ak_replacedByKeyId := Some newId \<rparr>) keys1"
proof -
  from assms obtain org h k where r: "rotate_read orgId keyId hours keys = Inr (org, h, k)"
    by (auto simp: rotate_route_def split: sum.splits)
  then have k: "resolveOrgId orgId = Inr org" "find_key keyId org keys = Some k" "ak_revokedAt k = None" "RotateKeySchema hours = Some h"
    by (auto simp: rotate_read_def split: sum.splits option.splits if_splits)
  then have id: "ak_id k = keyId" by (auto simp: find_key_def dest!: find_SomeD)
  have comp: "rotate_link org keyId newId (update_many p f keys1) = update_many p (\<lambda>k. (f k)\<lparr> ak_replacedByKeyId := Some newId \<rparr>) keys1"
    if "p = (\<lambda>k. ak_id k = keyId \<and> ak_organizationId k = org)" "\<And>k. key_identity (f k) = key_identity k" for p f keys1
    using that by (induction keys1) (auto simp: rotate_link_def key_identity_def)
  from assms r show thesis
    by (auto simp: rotate_route_def rotate_commit_def generateApiKey_def hashApiKey_def Let_def comp id key_identity_def
        split: sum.splits intro!: that [OF k])
qed

text \<open>
  Rotation: the new key works at once with the organization, scopes and expiry of the old one, the old
  one keeps working exactly for the grace period asked for (24 hours by default, at most a week), and every
  other key is answered as before.
\<close>

definition accepted :: "(string \<Rightarrow> string) \<Rightarrow> string \<Rightarrow> millis \<Rightarrow> ApiKey list \<Rightarrow> (ident \<times> string list) option" where
  "accepted sha raw t keys =
     (case keyAuth sha t None (Some raw) keys of Inl _ \<Rightarrow> None | Inr k \<Rightarrow> Some (ak_organizationId k, ak_scopes k))"

lemma accepted_find: "raw \<noteq> [] \<Longrightarrow> accepted sha raw t keys =
    (case List.find (\<lambda>k. ak_keyHash k = sha raw) keys of
       None \<Rightarrow> None
     | Some k \<Rightarrow> if (ak_revokedAt k = None \<or> in_grace t k) \<and> \<not> key_expired t k
                then Some (ak_organizationId k, ak_scopes k) else None)"
  by (auto simp: accepted_def keyAuth_def extractKey_def hashApiKey_def split: option.splits)

theorem rotation_overlaps_keys:
  assumes "keys_ok keys" "find_key keyId org keys = Some k" "sha old = ak_keyHash k" "old \<noteq> []"
    and "rotate_route sha random newId now (Some org) keyId hours keys = Inr (new, keys')"
  shows "\<exists>h. RotateKeySchema hours = Some h \<and> 0 \<le> h \<and> h \<le> 168 \<and>
    accepted sha new t keys' = accepted sha old t keys \<and>
    accepted sha old t keys' = (if t < now + hours_ms h then accepted sha old t keys else None) \<and>
    (sha other \<noteq> sha old \<and> sha other \<noteq> sha new \<and> other \<noteq> [] \<longrightarrow> accepted sha other t keys' = accepted sha other t keys)"
proof -
  from assms(5) obtain h nk keys1 where r: "RotateKeySchema hours = Some h" "ak_revokedAt k = None"
    "insert_key nk keys = Inr keys1" "nk = \<lparr> ak_id = newId, ak_organizationId = org,
       ak_keyHash = sha new, ak_keyPrefix = take 12 new, ak_label = ak_label k, ak_scopes = ak_scopes k,
       ak_expiresAt = ak_expiresAt k, ak_revokedAt = None, ak_lastUsedAt = None, ak_replacedByKeyId = None,
       ak_gracePeriodEndsAt = None, ak_createdAt = now \<rparr>" "new \<noteq> []"
    "keys' = update_many (\<lambda>k. ak_id k = keyId \<and> ak_organizationId k = org)
       (\<lambda>k. k\<lparr> ak_revokedAt := Some now, ak_gracePeriodEndsAt := Some (now + hours_ms h), ak_replacedByKeyId := Some newId \<rparr>) keys1"
  proof (rule rotate_route_ok)
    fix org' h k' nk keys1
    assume a: "resolveOrgId (Some org) = Inr org'" "find_key keyId org' keys = Some k'"
    then have "org' = org" "k' = k" using assms(2) by (auto simp: resolveOrgId_def split: if_splits)
    moreover assume "ak_revokedAt k' = None" "RotateKeySchema hours = Some h" "new = ''se_live_'' @ random"
      "insert_key nk keys = Inr keys1" "nk = \<lparr> ak_id = newId, ak_organizationId = org',
       ak_keyHash = sha new, ak_keyPrefix = take 12 new, ak_label = ak_label k', ak_scopes = ak_scopes k',
       ak_expiresAt = ak_expiresAt k', ak_revokedAt = None, ak_lastUsedAt = None, ak_replacedByKeyId = None,
       ak_gracePeriodEndsAt = None, ak_createdAt = now \<rparr>"
      "keys' = update_many (\<lambda>k. ak_id k = keyId \<and> ak_organizationId k = org')
       (\<lambda>k. k\<lparr> ak_revokedAt := Some now, ak_gracePeriodEndsAt := Some (now + hours_ms h), ak_replacedByKeyId := Some newId \<rparr>) keys1"
    ultimately show thesis using that [of h nk keys1] by simp
  qed
  from assms(2) have k: "k \<in> set keys" "ak_id k = keyId" "ak_organizationId k = org"
    by (auto simp: find_key_def dest!: find_SomeD)
  from r(3) have fresh: "keys1 = keys @ [nk]" "\<And>k'. k' \<in> set keys \<Longrightarrow> ak_id k' \<noteq> newId \<and> ak_keyHash k' \<noteq> sha new"
    by (auto simp: insert_key_ok r(4))
  from assms(1) k(1) have fold: "List.find (\<lambda>r. ak_keyHash r = sha old) keys = Some k"
    unfolding assms(3) keys_ok_def by (simp add: unique_key_find)
  have fnew: "List.find (\<lambda>r. ak_keyHash r = sha new) keys = None" using fresh(2) by (auto simp: find_None_iff)
  have find': "List.find (\<lambda>r. ak_keyHash r = hsh) keys' = map_option (\<lambda>r. if ak_id r = keyId \<and> ak_organizationId r = org then
      r\<lparr> ak_revokedAt := Some now, ak_gracePeriodEndsAt := Some (now + hours_ms h), ak_replacedByKeyId := Some newId \<rparr> else r)
      (case List.find (\<lambda>r. ak_keyHash r = hsh) keys of None \<Rightarrow> if sha new = hsh then Some nk else None | Some r \<Rightarrow> Some r)" for hsh
    unfolding r(6) fresh(1) using r(4)
    by (subst find_update_hash) (auto simp: key_identity_def find_append split: option.split)
  have nid: "newId \<noteq> keyId" using fresh(2) [OF k(1)] k(2) by auto
  have bounds: "0 \<le> h" "h \<le> 168" using r(1) by (auto simp: RotateKeySchema_def split: option.splits if_splits)
  have a: "accepted sha new t keys' = accepted sha old t keys"
    using r(2,5) assms(4) nid by (auto simp: accepted_find find' fold fnew r(4) k key_expired_def)
  have b: "accepted sha old t keys' = (if t < now + hours_ms h then accepted sha old t keys else None)"
    using r(2) assms(4) by (auto simp: accepted_find find' fold k key_expired_def in_grace_def)
  have c: "accepted sha other t keys' = accepted sha other t keys"
    if "sha other \<noteq> sha old" "sha other \<noteq> sha new" "other \<noteq> []"
  proof (cases "List.find (\<lambda>r. ak_keyHash r = sha other) keys")
    case None
    with that show ?thesis by (simp add: accepted_find find')
  next
    case (Some r')
    then have "r' \<in> set keys" "ak_keyHash r' = sha other" by (auto dest!: find_SomeD)
    with that(1) assms(3) have "r' \<noteq> k" by auto
    with \<open>r' \<in> set keys\<close> assms(1) k have "ak_id r' \<noteq> keyId" by (auto simp: keys_ok_def dest: unique_key_eq)
    with Some that show ?thesis by (simp add: accepted_find find')
  qed
  from r(1) bounds a b c show ?thesis by blast
qed

section \<open>Listing\<close>

text \<open>
  The listing tells the truth about every key: it is called active exactly if it is not revoked and
  authenticates now, revoked or expired only if it does not, and rotating exactly in its grace period,
  in which it authenticates unless it has expired.
\<close>

theorem listed_status_matches_auth:
  assumes "keys_ok keys" "list_keys_route now orgId keys = Inr listing" "(k, st) \<in> set listing"
    and "sha raw = ak_keyHash k" "raw \<noteq> []"
  shows "accepted sha raw now keys = (if st = ''active'' \<or> st = ''rotating'' \<and> \<not> key_expired now k
      then Some (ak_organizationId k, ak_scopes k) else None) \<and> orgId = Some (ak_organizationId k)"
proof -
  from assms(2,3) have k: "k \<in> set keys" "st = key_status now k" "orgId = Some (ak_organizationId k)"
    by (auto simp: list_keys_route_def resolveOrgId_def split: sum.splits option.splits if_splits)
  from assms(1,4) k(1) have "List.find (\<lambda>r. ak_keyHash r = sha raw) keys = Some k"
    by (auto simp: keys_ok_def intro: unique_key_find)
  with assms(5) k(2,3) show ?thesis by (auto simp: accepted_find key_status_def)
qed

section \<open>What revocation does not do\<close>

text \<open>
  A key that is being rotated cannot be revoked: the revocation answers 409 and changes nothing, and the
  key works until the end of the grace period.
\<close>

theorem rotating_key_cannot_be_revoked:
  assumes "find_key keyId org keys = Some k" "ak_revokedAt k \<noteq> None" "org \<noteq> []"
  shows "delete_route now (Some org) keyId keys = Inl (Response 409 ''API key already revoked'')"
  using assms by (simp add: delete_route_def delete_read_def resolveOrgId_def)

text \<open>
  A revocation that overtakes a rotation of the same key is undone by it: the key that was refused after the
  revocation works again for the grace period of the rotation.
\<close>

theorem racing_rotation_revives_key:
  assumes "keys_ok keys" "find_key keyId org keys = Some k" "sha raw = ak_keyHash k" "raw \<noteq> []"
    and "rotate_read (Some org) keyId hours keys = Inr (org', h, ex)"
    and "delete_route t1 (Some org) keyId keys = Inr keys1"
    and "rotate_commit sha random newId t2 org' h ex keys1 = Inr (new, keys2)"
    and "now < t2 + hours_ms h" "\<not> key_expired now k"
  shows "accepted sha raw now keys1 = None \<and> accepted sha raw now keys2 = Some (org, ak_scopes k)"
proof -
  from assms(2) have k: "k \<in> set keys" "ak_id k = keyId" "ak_organizationId k = org"
    by (auto simp: find_key_def dest!: find_SomeD)
  from assms(5,2) have ex: "org' = org" "ex = k"
    by (auto simp: rotate_read_def resolveOrgId_def split: if_splits option.splits)
  from assms(6) have keys1: "keys1 = delete_commit t1 org keyId keys"
    by (auto simp: delete_route_def delete_read_def resolveOrgId_def split: if_splits option.splits)
  from assms(1,3) k(1) have "List.find (\<lambda>r. ak_keyHash r = sha raw) keys = Some k"
    by (auto simp: keys_ok_def intro: unique_key_find)
  then have f1: "List.find (\<lambda>r. ak_keyHash r = sha raw) keys1 = Some (k\<lparr> ak_revokedAt := Some t1, ak_gracePeriodEndsAt := None \<rparr>)"
    unfolding keys1 delete_commit_def by (subst find_update_hash) (simp_all add: key_identity_def k)
  from assms(7) obtain nk where "keys2 = update_many (\<lambda>r. ak_id r = keyId \<and> ak_organizationId r = org)
      (\<lambda>r. r\<lparr> ak_revokedAt := Some t2, ak_gracePeriodEndsAt := Some (t2 + hours_ms h) \<rparr>) (keys1 @ [nk])"
    by (auto simp: rotate_commit_def insert_key_ok ex k simp del: update_many_simps split: prod.splits sum.splits)
  then have "List.find (\<lambda>r. ak_keyHash r = sha raw) keys2 =
      Some (k\<lparr> ak_revokedAt := Some t2, ak_gracePeriodEndsAt := Some (t2 + hours_ms h) \<rparr>)"
    by (simp only:) (subst find_update_hash, simp_all add: key_identity_def find_append f1 k)
  with f1 assms(4,8,9) k show ?thesis by (simp add: accepted_find in_grace_def key_expired_def)
qed

section \<open>Concrete runs\<close>

text \<open>A key that has been rotated and is in its grace period, one that is in use, and a request that creates a third.\<close>

definition sample_key :: "ident \<Rightarrow> string \<Rightarrow> millis option \<Rightarrow> millis option \<Rightarrow> ApiKey" where
  "sample_key i hash revoked grace =
     \<lparr> ak_id = i, ak_organizationId = ''org'', ak_keyHash = hash, ak_keyPrefix = ''se_live_'', ak_label = ''CI'',
       ak_scopes = [''rag:query''], ak_expiresAt = None, ak_revokedAt = revoked, ak_lastUsedAt = None,
       ak_replacedByKeyId = None, ak_gracePeriodEndsAt = grace, ak_createdAt = 0 \<rparr>"

definition sample_keys :: "ApiKey list" where
  "sample_keys = [sample_key ''k1'' ''old'' (Some 10) (Some 100), sample_key ''k2'' ''new'' None None]"

definition sample_state :: KeyState where
  "sample_state = \<lparr> ks_keys = sample_keys, ks_rotating = [], ks_linking = [], ks_deleting = [] \<rparr>"

definition sample_body :: CreateKeyBody where
  "sample_body = \<lparr> ckb_label = Some ''CD'', ckb_scopes = None, ckb_expires_in_days = Some 30 \<rparr>"

definition created_keys :: "ApiKey list" where
  "created_keys = sample_keys @ [(sample_key ''k3'' ''se_live_abcdef'' None None)
     \<lparr> ak_keyPrefix := ''se_live_abcd'', ak_label := ''CD'', ak_expiresAt := Some 2592000020, ak_createdAt := 20 \<rparr>]"

lemma sample_created:
  "create_key_route (\<lambda>x. x) ''abcdef'' ''k3'' 20 (Some ''org'') sample_body sample_keys =
     Inr (''se_live_abcdef'', last created_keys, created_keys)"
  by code_simp

lemma sample_step: "(key_step (\<lambda>x. x))\<^sup>*\<^sup>* sample_state (sample_state\<lparr> ks_keys := created_keys \<rparr>)"
  by (rule r_into_rtranclp, rule key_step.created [of "\<lambda>x. x" "''abcdef''" "''k3''" 20 "Some ''org''" sample_body])
    (simp add: sample_state_def sample_created)

lemma sample_ok: "keys_ok sample_keys" by (simp add: keys_ok_def unique_key_def sample_keys_def sample_key_def)

theorem revoked_key_stays_revoked_witness:
  "keyAuth (\<lambda>x. x) 50 (Some ''Bearer old'') None created_keys = Inr (sample_key ''k1'' ''old'' (Some 10) (Some 100)) \<and>
   in_grace 50 (sample_key ''k1'' ''old'' (Some 10) (Some 100))"
proof
  show auth: "keyAuth (\<lambda>x. x) 50 (Some ''Bearer old'') None created_keys = Inr (sample_key ''k1'' ''old'' (Some 10) (Some 100))"
    by code_simp
  have "ak_id (sample_key ''k1'' ''old'' (Some 10) (Some 100)) = ak_id (sample_key ''k1'' ''old'' (Some 10) (Some 100)) \<and>
      in_grace 50 (sample_key ''k1'' ''old'' (Some 10) (Some 100))"
    by (rule revoked_key_stays_revoked [OF _ _ _ _ sample_step, where raw = "''old''" and a = "Some ''Bearer old''" and x = None])
      (simp_all add: sample_state_def sample_ok auth, simp_all add: sample_keys_def sample_key_def extractKey_def)
  then show "in_grace 50 (sample_key ''k1'' ''old'' (Some 10) (Some 100))" ..
qed

theorem key_keeps_identity_witness:
  "keyAuth (\<lambda>x. x) 20 (Some ''Bearer new'') None created_keys = Inr (sample_key ''k2'' ''new'' None None) \<and>
   ak_organizationId (sample_key ''k2'' ''new'' None None) = ''org''"
proof
  show auth: "keyAuth (\<lambda>x. x) 20 (Some ''Bearer new'') None created_keys = Inr (sample_key ''k2'' ''new'' None None)"
    by code_simp
  have "keyAuth (\<lambda>x. x) 20 (Some ''Bearer new'') None (ks_keys sample_state) = Inr (sample_key ''k2'' ''new'' None None)"
    by code_simp
  from key_keeps_identity [OF _ this sample_step, of 20 "sample_key ''k2'' ''new'' None None"] auth
  have "ak_organizationId (sample_key ''k2'' ''new'' None None) = ak_organizationId (sample_key ''k2'' ''new'' None None)"
    by (simp add: sample_state_def sample_ok)
  then show "ak_organizationId (sample_key ''k2'' ''new'' None None) = ''org''" by (simp add: sample_key_def)
qed

theorem rotation_overlaps_keys_witness:
  "\<exists>new keys'. rotate_route (\<lambda>x. x) ''xyz'' ''k9'' 20 (Some ''org'') ''k2'' (Some 1) sample_keys = Inr (new, keys') \<and>
     accepted (\<lambda>x. x) new 30 keys' = Some (''org'', [''rag:query'']) \<and>
     accepted (\<lambda>x. x) ''new'' 3600020 keys' = None"
proof -
  obtain new keys' where r: "rotate_route (\<lambda>x. x) ''xyz'' ''k9'' 20 (Some ''org'') ''k2'' (Some 1) sample_keys = Inr (new, keys')"
    by (cases "rotate_route (\<lambda>x. x) ''xyz'' ''k9'' 20 (Some ''org'') ''k2'' (Some 1) sample_keys")
      (auto simp: rotate_route_def rotate_read_def rotate_commit_def resolveOrgId_def RotateKeySchema_def find_key_def
        sample_keys_def sample_key_def generateApiKey_def hashApiKey_def insert_key_def Let_def)
  have k: "find_key ''k2'' ''org'' sample_keys = Some (sample_key ''k2'' ''new'' None None)"
    by (simp add: find_key_def sample_keys_def sample_key_def)
  have a: "accepted (\<lambda>x. x) ''new'' 30 sample_keys = Some (''org'', [''rag:query''])" by code_simp
  have h: "RotateKeySchema (Some 1) = Some 1" by (simp add: RotateKeySchema_def)
  from rotation_overlaps_keys [OF sample_ok k _ _ r, of "''new''" 30] a
  have "accepted (\<lambda>x. x) new 30 keys' = Some (''org'', [''rag:query''])" by (auto simp: sample_key_def)
  moreover from rotation_overlaps_keys [OF sample_ok k _ _ r, of "''new''" 3600020]
  have "accepted (\<lambda>x. x) ''new'' 3600020 keys' = None" by (auto simp: sample_key_def h hours_ms_def)
  ultimately show ?thesis using r by blast
qed

theorem listed_status_matches_auth_witness:
  "accepted (\<lambda>x. x) ''old'' 50 sample_keys = Some (''org'', [''rag:query'']) \<and>
   key_status 50 (sample_key ''k1'' ''old'' (Some 10) (Some 100)) = ''rotating''"
proof
  have "list_keys_route 50 (Some ''org'') sample_keys = Inr
      [(sample_key ''k1'' ''old'' (Some 10) (Some 100), ''rotating''), (sample_key ''k2'' ''new'' None None, ''active'')]"
    by code_simp
  from listed_status_matches_auth [OF sample_ok this, of "sample_key ''k1'' ''old'' (Some 10) (Some 100)" "''rotating''" "\<lambda>x. x" "''old''"]
  show "accepted (\<lambda>x. x) ''old'' 50 sample_keys = Some (''org'', [''rag:query''])"
    by (simp add: sample_key_def key_expired_def)
qed (simp add: key_status_def sample_key_def in_grace_def)

theorem rotating_key_cannot_be_revoked_witness:
  "delete_route 20 (Some ''org'') ''k1'' sample_keys = Inl (Response 409 ''API key already revoked'')"
  by (rule rotating_key_cannot_be_revoked [where k = "sample_key ''k1'' ''old'' (Some 10) (Some 100)"]) (simp_all add: find_key_def sample_keys_def sample_key_def)

theorem racing_rotation_revives_key_witness:
  "\<exists>keys1 new keys2. delete_route 20 (Some ''org'') ''k2'' sample_keys = Inr keys1 \<and>
     rotate_commit (\<lambda>x. x) ''xyz'' ''k9'' 21 ''org'' 1 (sample_key ''k2'' ''new'' None None) keys1 = Inr (new, keys2) \<and>
     accepted (\<lambda>x. x) ''new'' 22 keys1 = None \<and> accepted (\<lambda>x. x) ''new'' 22 keys2 = Some (''org'', [''rag:query''])"
proof -
  have k: "find_key ''k2'' ''org'' sample_keys = Some (sample_key ''k2'' ''new'' None None)"
    by (simp add: find_key_def sample_keys_def sample_key_def)
  obtain keys1 where d: "delete_route 20 (Some ''org'') ''k2'' sample_keys = Inr keys1"
    and keys1: "keys1 = delete_commit 20 ''org'' ''k2'' sample_keys"
    using k by (auto simp: delete_route_def delete_read_def resolveOrgId_def sample_key_def)
  obtain new keys2 where c: "rotate_commit (\<lambda>x. x) ''xyz'' ''k9'' 21 ''org'' 1 (sample_key ''k2'' ''new'' None None) keys1 = Inr (new, keys2)"
    unfolding keys1
    by (auto simp: rotate_commit_def delete_commit_def sample_keys_def sample_key_def generateApiKey_def hashApiKey_def
        insert_key_def Let_def)
  have r: "rotate_read (Some ''org'') ''k2'' (Some 1) sample_keys = Inr (''org'', 1, sample_key ''k2'' ''new'' None None)"
    using k by (simp add: rotate_read_def resolveOrgId_def RotateKeySchema_def sample_key_def)
  from racing_rotation_revives_key [OF sample_ok k _ _ r d c, of "''new''" 22] d c show ?thesis
    by (auto simp: sample_key_def hours_ms_def key_expired_def)
qed

end
