(* ===== verification/Billing.thy ===== *)
theory Billing
  imports Dedup Schema Policy_Engine Complex_Main "HOL-Library.Product_Lexorder"
begin

text \<open>
  \<open>src/middleware/billing.ts\<close> and \<open>src/config/stripe-plans.ts\<close>: the gate in front of the paid routes, checkout
  and portal, usage reports, and the handler of Stripe's webhooks. Stripe itself is a parameter: what
  \<open>subscriptions.retrieve\<close> returns (\<open>None\<close> when it throws), whether a secret verifies a payload. A handler of a
  webhook runs its statements one after the other without a transaction: where one throws, the writes before
  it stay. The time of all statements of one request is one argument.
\<close>

section \<open>Plans\<close>

datatype Plan = FREE_TRIAL | STARTER | PROFESSIONAL | ENTERPRISE

datatype BillingChannel = SELF_SERVE | SALES_LED

datatype SubscriptionStatus = ACTIVE | PAST_DUE | CANCELED | TRIALING

record PlanConfig =
  pc_name :: string
  pc_stripePriceEnvVar :: string
  pc_pricePerMinute :: "real option"
  pc_metered :: bool
  pc_contactSales :: bool

definition PLAN_CONFIGS :: "(Plan \<times> PlanConfig) list" where
  "PLAN_CONFIGS =
     [(STARTER, \<lparr> pc_name = ''Starter'', pc_stripePriceEnvVar = ''STRIPE_STARTER_PRICE_ID'',
         pc_pricePerMinute = Some (5 / 100), pc_metered = True, pc_contactSales = False \<rparr>),
      (PROFESSIONAL, \<lparr> pc_name = ''Professional'', pc_stripePriceEnvVar = ''STRIPE_PROFESSIONAL_PRICE_ID'',
         pc_pricePerMinute = Some (3 / 100), pc_metered = True, pc_contactSales = False \<rparr>),
      (ENTERPRISE, \<lparr> pc_name = ''Enterprise'', pc_stripePriceEnvVar = ''STRIPE_ENTERPRISE_PRICE_ID'',
         pc_pricePerMinute = None, pc_metered = True, pc_contactSales = True \<rparr>)]"

type_synonym env = "string \<Rightarrow> string option"

definition getStripePriceId :: "env \<Rightarrow> Plan \<Rightarrow> string option" where
  "getStripePriceId env plan = Option.bind (map_of PLAN_CONFIGS plan) (\<lambda>c. env (pc_stripePriceEnvVar c))"

definition getPlanByPriceId :: "env \<Rightarrow> string \<Rightarrow> Plan option" where
  "getPlanByPriceId env priceId =
     map_option fst (List.find (\<lambda>(plan, c). truthy (env (pc_stripePriceEnvVar c)) \<and> env (pc_stripePriceEnvVar c) = Some priceId)
       PLAN_CONFIGS)"

definition isBillingEnabled :: "env \<Rightarrow> bool" where
  "isBillingEnabled env \<longleftrightarrow> env ''BILLING_ENABLED'' = Some ''true''"

section \<open>Tables\<close>

record BillingOrganization =
  bo_id :: ident
  bo_name :: string
  bo_stripeCustomerId :: "ident option"
  bo_plan :: Plan
  bo_billingChannel :: BillingChannel
  bo_trialEndsAt :: "millis option"

record Subscription =
  sub_id :: ident
  sub_organizationId :: ident
  sub_stripeSubscriptionId :: "ident option"
  sub_billingChannel :: BillingChannel
  sub_status :: SubscriptionStatus
  sub_currentPeriodStart :: "millis option"
  sub_currentPeriodEnd :: "millis option"
  sub_canceledAt :: "millis option"
  sub_createdAt :: millis
  sub_updatedAt :: millis

record BillingDb =
  bdb_orgs :: "BillingOrganization list"
  bdb_subs :: "Subscription list"

definition find_org :: "ident \<Rightarrow> BillingDb \<Rightarrow> BillingOrganization option" where
  "find_org orgId db = List.find (\<lambda>o'. bo_id o' = orgId) (bdb_orgs db)"

definition find_sub :: "ident \<Rightarrow> BillingDb \<Rightarrow> Subscription option" where
  "find_sub i db = List.find (\<lambda>s. sub_stripeSubscriptionId s = Some i) (bdb_subs db)"

section \<open>The trial gate\<close>

text \<open>\<open>orderBy: [currentPeriodEnd desc, createdAt desc]\<close>; PostgreSQL puts a missing value first when it sorts downwards.\<close>

definition latest_key :: "Subscription \<Rightarrow> nat \<times> int \<times> int" where
  "latest_key s = (case sub_currentPeriodEnd s of None \<Rightarrow> (0, 0, - sub_createdAt s) | Some e \<Rightarrow> (1, - e, - sub_createdAt s))"

definition latestSubscription :: "ident \<Rightarrow> BillingDb \<Rightarrow> Subscription option" where
  "latestSubscription orgId db =
     (case sort_key latest_key (filter (\<lambda>s. sub_organizationId s = orgId) (bdb_subs db)) of [] \<Rightarrow> None | s # _ \<Rightarrow> Some s)"

definition trialGate :: "env \<Rightarrow> millis \<Rightarrow> ident option \<Rightarrow> BillingDb \<Rightarrow> guard" where
  "trialGate env now orgId db =
     (if \<not> isBillingEnabled env then Next
      else if \<not> truthy orgId then Status 401 ''Authentication required''
      else case find_org (the orgId) db of
        None \<Rightarrow> Status 404 ''Organization not found''
      | Some org \<Rightarrow>
          if bo_plan org \<noteq> FREE_TRIAL then
            if bo_billingChannel org = SALES_LED then Next
            else (case latestSubscription (the orgId) db of
                    None \<Rightarrow> Status 402 ''subscription_required''
                  | Some s \<Rightarrow>
                      if sub_status s = ACTIVE \<or> sub_status s = TRIALING then Next
                      else if sub_status s = PAST_DUE then Status 402 ''payment_past_due''
                      else Status 402 ''subscription_inactive'')
          else if (case bo_trialEndsAt org of None \<Rightarrow> True | Some e \<Rightarrow> e < now) then Status 402 ''trial_expired''
          else Next)"

section \<open>Checkout and portal\<close>

definition BILLING_ADMIN_ROLES :: "UserRole list" where
  "BILLING_ADMIN_ROLES = [OWNER, ADMIN]"

text \<open>What the handlers ask of Stripe: the session of a checkout or of the portal.\<close>

record CheckoutSession =
  cs_customer :: ident
  cs_price :: string
  cs_organizationId :: ident
  cs_plan :: Plan

definition checkoutSchema :: "string option \<Rightarrow> Plan option" where
  "checkoutSchema plan =
     Option.bind plan (map_of [(''STARTER'', STARTER), (''PROFESSIONAL'', PROFESSIONAL), (''ENTERPRISE'', ENTERPRISE)])"

definition billing_guard :: "env \<Rightarrow> AuthRequest \<Rightarrow> response option" where
  "billing_guard env req =
     (if \<not> isBillingEnabled env then Some (Response 404 ''billing_not_enabled'')
      else if \<not> truthy (req_organizationId req) then Some (Response 401 ''Authentication required'')
      else case req_userRole req of
        None \<Rightarrow> Some (Response 403 ''permission_denied'')
      | Some role \<Rightarrow> if role \<in> set BILLING_ADMIN_ROLES then None else Some (Response 403 ''permission_denied''))"

definition set_org :: "ident \<Rightarrow> (BillingOrganization \<Rightarrow> BillingOrganization) \<Rightarrow> BillingDb \<Rightarrow> BillingDb" where
  "set_org orgId f db = db\<lparr> bdb_orgs := update_many (\<lambda>o'. bo_id o' = orgId) f (bdb_orgs db) \<rparr>"

definition checkout_route :: "env \<Rightarrow> ident \<Rightarrow> AuthRequest \<Rightarrow> string option \<Rightarrow> BillingDb
    \<Rightarrow> (response, CheckoutSession) res \<times> BillingDb" where
  "checkout_route env newCustomer req plan_param db =
     (case billing_guard env req of
        Some e \<Rightarrow> (Inl e, db)
      | None \<Rightarrow>
          (case checkoutSchema plan_param of
             None \<Rightarrow> (Inl (Response 400 ''Invalid request''), db)
           | Some plan \<Rightarrow>
               let orgId = the (req_organizationId req); cfg = the (map_of PLAN_CONFIGS plan); priceId = getStripePriceId env plan in
               if pc_contactSales cfg \<and> \<not> truthy priceId then (Inl (Response 400 ''plan_not_self_serve''), db)
               else if \<not> truthy priceId then (Inl (Response 500 (''Billing not configured for '' @ pc_name cfg @ '' plan'')), db)
               else case find_org orgId db of
                 None \<Rightarrow> (Inl (Response 404 ''Organization not found''), db)
               | Some org \<Rightarrow>
                   let known = truthy (bo_stripeCustomerId org);
                       customer = (if known then the (bo_stripeCustomerId org) else newCustomer);
                       db' = (if known then db else set_org orgId (\<lambda>o'. o'\<lparr> bo_stripeCustomerId := Some newCustomer \<rparr>) db) in
                   (Inr \<lparr> cs_customer = customer, cs_price = the priceId, cs_organizationId = orgId, cs_plan = plan \<rparr>, db')))"

definition portal_route :: "env \<Rightarrow> AuthRequest \<Rightarrow> BillingDb \<Rightarrow> (response, ident) res" where
  "portal_route env req db =
     (case billing_guard env req of
        Some e \<Rightarrow> Inl e
      | None \<Rightarrow>
          (case find_org (the (req_organizationId req)) db of
             None \<Rightarrow> Inl (Response 404 ''Organization not found'')
           | Some org \<Rightarrow>
               if truthy (bo_stripeCustomerId org) then Inr (the (bo_stripeCustomerId org))
               else Inl (Response 400 ''No billing account'')))"

section \<open>Stripe's objects\<close>

record StripeSubscription =
  ss_id :: ident
  ss_customer :: ident
  ss_status :: string
  ss_organizationId :: "ident option"
  ss_price :: "string option"
  ss_period_start :: int
  ss_period_end :: int
  ss_canceled_at :: "int option"

datatype StripeObject =
    CheckoutCompleted "ident option" "ident option"
  | InvoicePaid "ident option"
  | InvoicePaymentFailed "ident option"
  | SubscriptionUpdated StripeSubscription
  | SubscriptionDeleted StripeSubscription
  | OtherEvent

record StripeEvent =
  ev_id :: string
  ev_created :: int
  ev_object :: StripeObject

type_synonym stripe = "ident \<Rightarrow> StripeSubscription option"

definition mapStripeStatus :: "string \<Rightarrow> SubscriptionStatus" where
  "mapStripeStatus status =
     (case map_of [(''active'', ACTIVE), (''past_due'', PAST_DUE), (''canceled'', CANCELED), (''unpaid'', PAST_DUE),
          (''incomplete'', PAST_DUE), (''incomplete_expired'', CANCELED), (''trialing'', TRIALING), (''paused'', CANCELED)] status of
        Some s \<Rightarrow> s
      | None \<Rightarrow> ACTIVE)"

text \<open>\<open>priceId ? (getPlanByPriceId(priceId) ?? "STARTER") : "STARTER"\<close>\<close>

definition plan_of :: "env \<Rightarrow> StripeSubscription \<Rightarrow> Plan" where
  "plan_of env s =
     (if truthy (ss_price s) then (case getPlanByPriceId env (the (ss_price s)) of Some p \<Rightarrow> p | None \<Rightarrow> STARTER) else STARTER)"

definition isStaleStripeLifecycleEvent :: "millis \<Rightarrow> int \<Rightarrow> bool" where
  "isStaleStripeLifecycleEvent lastLocalUpdate eventCreatedEpochSeconds \<longleftrightarrow>
     lastLocalUpdate - 5000 > eventCreatedEpochSeconds * 1000"

definition stale :: "ident \<Rightarrow> int \<Rightarrow> BillingDb \<Rightarrow> bool" where
  "stale i created db =
     (case find_sub i db of None \<Rightarrow> False | Some s \<Rightarrow> isStaleStripeLifecycleEvent (sub_updatedAt s) created)"

definition resolveOrgFromCustomer :: "ident \<Rightarrow> BillingDb \<Rightarrow> ident option" where
  "resolveOrgFromCustomer customer db =
     map_option bo_id (List.find (\<lambda>o'. bo_stripeCustomerId o' = Some customer) (bdb_orgs db))"

text \<open>\<open>None\<close>: the call of Stripe throws.\<close>

definition resolveOrgFromSubscription :: "stripe \<Rightarrow> ident \<Rightarrow> BillingDb \<Rightarrow> ident option option" where
  "resolveOrgFromSubscription stripe i db =
     map_option (\<lambda>s. if truthy (ss_organizationId s) then ss_organizationId s else resolveOrgFromCustomer (ss_customer s) db)
       (stripe i)"

definition orgOfSubscription :: "StripeSubscription \<Rightarrow> BillingDb \<Rightarrow> ident option" where
  "orgOfSubscription s db =
     (case ss_organizationId s of Some o' \<Rightarrow> Some o' | None \<Rightarrow> resolveOrgFromCustomer (ss_customer s) db)"

section \<open>Statements\<close>

text \<open>
  A statement answers whether it succeeded, and the tables behind it: an update throws where there is no such
  row, a create where the organization does not exist.
\<close>

type_synonym stmt = "BillingDb \<Rightarrow> bool \<times> BillingDb"

definition then_run :: "stmt \<Rightarrow> stmt \<Rightarrow> stmt" where
  "then_run a b db = (case a db of (ok, db') \<Rightarrow> if ok then b db' else (False, db'))"

definition nothing :: stmt where
  "nothing db = (True, db)"

definition throw :: stmt where
  "throw db = (False, db)"

definition update_org :: "ident \<Rightarrow> (BillingOrganization \<Rightarrow> BillingOrganization) \<Rightarrow> stmt" where
  "update_org orgId f db = (if find_org orgId db = None then (False, db) else (True, set_org orgId f db))"

definition update_sub :: "millis \<Rightarrow> ident \<Rightarrow> (Subscription \<Rightarrow> Subscription) \<Rightarrow> stmt" where
  "update_sub now i f db =
     (if find_sub i db = None then (False, db)
      else (True, db\<lparr> bdb_subs := update_many (\<lambda>s. sub_stripeSubscriptionId s = Some i)
                        (\<lambda>s. (f s)\<lparr> sub_updatedAt := now \<rparr>) (bdb_subs db) \<rparr>))"

text \<open>The columns that follow Stripe.\<close>

definition sync_period :: "StripeSubscription \<Rightarrow> SubscriptionStatus \<Rightarrow> Subscription \<Rightarrow> Subscription" where
  "sync_period ss st s = s\<lparr> sub_status := st, sub_currentPeriodStart := Some (ss_period_start ss * 1000),
     sub_currentPeriodEnd := Some (ss_period_end ss * 1000) \<rparr>"

text \<open>\<open>stripeSubscription.canceled_at ? new Date(...) : null\<close>; a timestamp of 0 is falsy.\<close>

definition canceled_at :: "StripeSubscription \<Rightarrow> millis option" where
  "canceled_at ss = (case ss_canceled_at ss of None \<Rightarrow> None | Some t \<Rightarrow> if t = 0 then None else Some (t * 1000))"

definition upsert_sub :: "millis \<Rightarrow> ident \<Rightarrow> ident \<Rightarrow> StripeSubscription \<Rightarrow> (Subscription \<Rightarrow> Subscription) \<Rightarrow> stmt" where
  "upsert_sub now newId orgId ss f db =
     (if find_sub (ss_id ss) db \<noteq> None then update_sub now (ss_id ss) f db
      else if find_org orgId db = None then (False, db)
      else (True, db\<lparr> bdb_subs := bdb_subs db @
        [f \<lparr> sub_id = newId, sub_organizationId = orgId, sub_stripeSubscriptionId = Some (ss_id ss),
             sub_billingChannel = SELF_SERVE, sub_status = ACTIVE, sub_currentPeriodStart = None,
             sub_currentPeriodEnd = None, sub_canceledAt = None, sub_createdAt = now, sub_updatedAt = now \<rparr>] \<rparr>))"

section \<open>Webhooks\<close>

definition on_checkout_completed :: "env \<Rightarrow> stripe \<Rightarrow> millis \<Rightarrow> ident \<Rightarrow> ident option \<Rightarrow> ident option \<Rightarrow> stmt" where
  "on_checkout_completed env stripe now newId subscription metaOrg db =
     (if \<not> truthy subscription then nothing db
      else
        case (case metaOrg of
                Some o' \<Rightarrow> Some (Some o')
              | None \<Rightarrow> resolveOrgFromSubscription stripe (the subscription) db) of
          None \<Rightarrow> throw db
        | Some orgId \<Rightarrow>
            if \<not> truthy orgId then nothing db
            else case stripe (the subscription) of
              None \<Rightarrow> throw db
            | Some ss \<Rightarrow>
                then_run (upsert_sub now newId (the orgId) ss (sync_period ss (mapStripeStatus (ss_status ss))))
                  (update_org (the orgId) (\<lambda>o'. o'\<lparr> bo_plan := plan_of env ss, bo_trialEndsAt := None \<rparr>)) db)"

definition on_invoice_paid :: "env \<Rightarrow> stripe \<Rightarrow> millis \<Rightarrow> ident option \<Rightarrow> stmt" where
  "on_invoice_paid env stripe now subscription db =
     (if \<not> truthy subscription then nothing db
      else case find_sub (the subscription) db of
        None \<Rightarrow> nothing db
      | Some localSub \<Rightarrow>
          (case stripe (the subscription) of
             None \<Rightarrow> throw db
           | Some ss \<Rightarrow>
               then_run (update_sub now (the subscription) (sync_period ss ACTIVE))
                 (update_org (sub_organizationId localSub) (\<lambda>o'. o'\<lparr> bo_plan := plan_of env ss \<rparr>)) db))"

definition on_payment_failed :: "stripe \<Rightarrow> millis \<Rightarrow> int \<Rightarrow> ident option \<Rightarrow> stmt" where
  "on_payment_failed stripe now created subscription db =
     (if \<not> truthy subscription then nothing db
      else if stale (the subscription) created db then nothing db
      else case find_sub (the subscription) db of
        None \<Rightarrow> nothing db
      | Some _ \<Rightarrow>
          (case stripe (the subscription) of
             None \<Rightarrow> throw db
           | Some ss \<Rightarrow> update_sub now (the subscription) (sync_period ss (mapStripeStatus (ss_status ss))) db))"

definition on_subscription_updated :: "env \<Rightarrow> stripe \<Rightarrow> millis \<Rightarrow> ident \<Rightarrow> int \<Rightarrow> ident \<Rightarrow> stmt" where
  "on_subscription_updated env stripe now newId created incoming db =
     (if stale incoming created db then nothing db
      else case stripe incoming of
        None \<Rightarrow> throw db
      | Some ss \<Rightarrow>
          let orgId = orgOfSubscription ss db; status = mapStripeStatus (ss_status ss) in
          if \<not> truthy orgId then nothing db
          else then_run
            (upsert_sub now newId (the orgId) ss (\<lambda>s. (sync_period ss status s)\<lparr> sub_canceledAt := canceled_at ss \<rparr>))
            (if status = ACTIVE \<or> status = TRIALING
             then update_org (the orgId) (\<lambda>o'. o'\<lparr> bo_plan := plan_of env ss, bo_trialEndsAt := None \<rparr>)
             else nothing) db)"

definition other_active :: "ident \<Rightarrow> ident \<Rightarrow> BillingDb \<Rightarrow> bool" where
  "other_active orgId i db \<longleftrightarrow>
     list_ex (\<lambda>s. sub_organizationId s = orgId \<and> sub_status s = ACTIVE \<and>
       (case sub_stripeSubscriptionId s of None \<Rightarrow> False | Some j \<Rightarrow> j \<noteq> i)) (bdb_subs db)"

definition on_subscription_deleted :: "millis \<Rightarrow> int \<Rightarrow> StripeSubscription \<Rightarrow> stmt" where
  "on_subscription_deleted now created ss db =
     (if stale (ss_id ss) created db then nothing db
      else
        let orgId = orgOfSubscription ss db in
        if \<not> truthy orgId then nothing db
        else then_run (update_sub now (ss_id ss) (\<lambda>s. s\<lparr> sub_status := CANCELED, sub_canceledAt := Some now \<rparr>))
          (\<lambda>db. if other_active (the orgId) (ss_id ss) db then nothing db
                else update_org (the orgId) (\<lambda>o'. o'\<lparr> bo_plan := FREE_TRIAL, bo_trialEndsAt := Some now \<rparr>) db) db)"

definition process_event :: "env \<Rightarrow> stripe \<Rightarrow> millis \<Rightarrow> ident \<Rightarrow> StripeEvent \<Rightarrow> stmt" where
  "process_event env stripe now newId event =
     (case ev_object event of
        CheckoutCompleted subscription metaOrg \<Rightarrow> on_checkout_completed env stripe now newId subscription metaOrg
      | InvoicePaid subscription \<Rightarrow> on_invoice_paid env stripe now subscription
      | InvoicePaymentFailed subscription \<Rightarrow> on_payment_failed stripe now (ev_created event) subscription
      | SubscriptionUpdated incoming \<Rightarrow> on_subscription_updated env stripe now newId (ev_created event) (ss_id incoming)
      | SubscriptionDeleted ss \<Rightarrow> on_subscription_deleted now (ev_created event) ss
      | OtherEvent \<Rightarrow> nothing)"

text \<open>The secrets, current and previous, and the first one that verifies the payload.\<close>

fun split_commas :: "string \<Rightarrow> string list" where
  "split_commas [] = [[]]"
| "split_commas (c # s) =
     (if c = CHR '','' then [] # split_commas s
      else case split_commas s of p # ps \<Rightarrow> (c # p) # ps | [] \<Rightarrow> [[c]])"

definition resolveWebhookSecrets :: "string option list \<Rightarrow> string list" where
  "resolveWebhookSecrets rawValues =
     filter (\<lambda>s. s \<noteq> []) (map trim (concat (map (\<lambda>v. split_commas (case v of None \<Rightarrow> [] | Some s \<Rightarrow> s)) rawValues)))"

fun constructStripeEvent :: "(string \<Rightarrow> StripeEvent option) \<Rightarrow> string list \<Rightarrow> StripeEvent option" where
  "constructStripeEvent verify [] = None"
| "constructStripeEvent verify (secret # secrets) =
     (case verify secret of Some e \<Rightarrow> Some e | None \<Rightarrow> constructStripeEvent verify secrets)"

record BillingState =
  bs_db :: BillingDb
  bs_seen :: "(string, millis) jsmap"

definition webhook_secrets :: "env \<Rightarrow> string list" where
  "webhook_secrets env =
     resolveWebhookSecrets [env ''STRIPE_WEBHOOK_SECRETS'', env ''STRIPE_WEBHOOK_SECRET'', env ''STRIPE_WEBHOOK_SECRET_PREVIOUS'']"

definition stripe_webhook :: "env \<Rightarrow> (string \<Rightarrow> int \<Rightarrow> bool) option \<Rightarrow> (string \<Rightarrow> StripeEvent option) \<Rightarrow> stripe
    \<Rightarrow> millis \<Rightarrow> ident \<Rightarrow> BillingState \<Rightarrow> response \<times> BillingState" where
  "stripe_webhook env redis verify stripe now newId st =
     (if webhook_secrets env = [] then (Response 500 ''Webhook secret not configured'', st)
      else case constructStripeEvent verify (webhook_secrets env) of
        None \<Rightarrow> (Response 400 ''Invalid webhook signature'', st)
      | Some event \<Rightarrow>
          if ev_id event = [] then (Response 400 ''Missing event ID'', st)
          else
            (case markWebhookEventIfNew redis now (5 * 60 * 1000) (''stripe:'' @ ev_id event) (bs_seen st) of
               (isNew, seen) \<Rightarrow>
                 if \<not> isNew then (Response 200 ''deduplicated'', st\<lparr> bs_seen := seen \<rparr>)
                 else case process_event env stripe now newId event (bs_db st) of
                   (ok, db) \<Rightarrow>
                     (if ok then Response 200 ''received'' else Response 500 ''webhook_processing_failed'',
                      st\<lparr> bs_db := db, bs_seen := seen \<rparr>)))"

section \<open>Usage reports\<close>

text \<open>
  \<open>reportUsageToStripe\<close>: \<open>active\<close> is the first item of the customer's first active subscription, if any; the
  result is the item and the quantity that is added, \<open>None\<close> where nothing is reported.
\<close>

definition ceil_minutes :: "real \<Rightarrow> int" where
  "ceil_minutes m = \<lceil>m\<rceil>"

definition reportUsageToStripe :: "env \<Rightarrow> (ident \<Rightarrow> ident option) \<Rightarrow> BillingDb \<Rightarrow> ident \<Rightarrow> real \<Rightarrow> (ident \<times> int) option" where
  "reportUsageToStripe env active db organizationId transcriptMinutes =
     (if \<not> isBillingEnabled env then None
      else case find_org organizationId db of
        None \<Rightarrow> None
      | Some org \<Rightarrow>
          if \<not> truthy (bo_stripeCustomerId org) \<or> bo_plan org = FREE_TRIAL then None
          else map_option (\<lambda>item. (item, ceil_minutes transcriptMinutes)) (active (the (bo_stripeCustomerId org))))"

end
