(* ===== verification/Billing_Lifecycle.thy ===== *)
theory Billing_Lifecycle
  imports Billing
begin

text \<open>
  What the webhooks of Stripe do to the tables of \<open>Billing\<close>: which rows an event can touch, that the tables stay
  well formed, that a subscription follows Stripe and that a cancellation closes the gate; checkout and the
  price table; and the events that are lost or come too late.
\<close>

section \<open>Frames\<close>

text \<open>Only the subscription \<open>i\<close> of Stripe and the organization \<open>org\<close> may have changed, neither of them where it is \<open>None\<close>.\<close>

definition frame :: "ident option \<Rightarrow> ident option \<Rightarrow> BillingDb \<Rightarrow> BillingDb \<Rightarrow> bool" where
  "frame i org db db' \<longleftrightarrow>
     filter (\<lambda>s. i = None \<or> sub_stripeSubscriptionId s \<noteq> i) (bdb_subs db') =
       filter (\<lambda>s. i = None \<or> sub_stripeSubscriptionId s \<noteq> i) (bdb_subs db) \<and>
     filter (\<lambda>o'. Some (bo_id o') \<noteq> org) (bdb_orgs db') = filter (\<lambda>o'. Some (bo_id o') \<noteq> org) (bdb_orgs db) \<and>
     map bo_id (bdb_orgs db') = map bo_id (bdb_orgs db)"

text \<open>
  Subscriptions have different ids in Stripe and belong to organizations that exist.
\<close>

definition billing_ok :: "BillingDb \<Rightarrow> bool" where
  "billing_ok db \<longleftrightarrow>
     distinct (List.map_filter sub_stripeSubscriptionId (bdb_subs db)) \<and> unique_key bo_id (bdb_orgs db) \<and>
     (\<forall>s \<in> set (bdb_subs db). find_org (sub_organizationId s) db \<noteq> None)"

named_theorems billing_frame "statements that stay within a frame"

lemma frame_refl [billing_frame]: "frame i org db db" by (simp add: frame_def)

lemma frame_trans: "frame i org a b \<Longrightarrow> frame i org b c \<Longrightarrow> frame i org a c" by (simp add: frame_def)

lemma frame_set_org [billing_frame]: "(\<And>o'. bo_id (f o') = bo_id o') \<Longrightarrow> frame i (Some orgId) db (set_org orgId f db)"
  by (auto simp: frame_def set_org_def map_update_many_inv intro!: filter_update_many_other)

lemma frame_nothing [billing_frame]: "frame i org db (snd (nothing db))" by (simp add: nothing_def frame_refl)

lemma frame_throw [billing_frame]: "frame i org db (snd (throw db))" by (simp add: throw_def frame_refl)

lemma frame_update_org [billing_frame]:
  "(\<And>o'. bo_id (f o') = bo_id o') \<Longrightarrow> frame i (Some orgId) db (snd (update_org orgId f db))"
  by (simp add: update_org_def frame_refl frame_set_org)

lemma frame_update_sub [billing_frame]:
  "(\<And>s. sub_stripeSubscriptionId (f s) = sub_stripeSubscriptionId s) \<Longrightarrow> frame (Some i) org db (snd (update_sub now i f db))"
  by (auto simp: update_sub_def frame_def intro!: filter_update_many_other)

lemma frame_upsert_sub [billing_frame]:
  "(\<And>s. sub_stripeSubscriptionId (f s) = sub_stripeSubscriptionId s) \<Longrightarrow> frame (Some (ss_id ss)) org db (snd (upsert_sub now newId o' ss f db))"
  using frame_update_sub [of f "ss_id ss" org db now] by (auto simp: upsert_sub_def frame_def)

lemma frame_then_run [billing_frame]:
  assumes "frame i org db (snd (a db))" "\<And>db'. frame i org db' (snd (b db'))"
  shows "frame i org db (snd (then_run a b db))"
  using assms frame_trans by (auto simp: then_run_def split: prod.splits)

lemma sync_period_keeps [simp]:
  "sub_stripeSubscriptionId (sync_period ss st s) = sub_stripeSubscriptionId s"
  "sub_organizationId (sync_period ss st s) = sub_organizationId s"
  "sub_status (sync_period ss st s) = st"
  "sub_updatedAt (sync_period ss st s) = sub_updatedAt s"
  by (simp_all add: sync_period_def)

section \<open>Isolation\<close>

text \<open>
  The subscription an event is about, and the organization it acts for: the one named in the metadata, the
  owner of the customer, or for an invoice the owner of the subscription.
\<close>

definition event_subscription :: "stripe \<Rightarrow> StripeEvent \<Rightarrow> ident option" where
  "event_subscription stripe event =
     (case ev_object event of
        CheckoutCompleted i _ \<Rightarrow> Option.bind i (\<lambda>i. map_option ss_id (stripe i))
      | InvoicePaid i \<Rightarrow> i
      | InvoicePaymentFailed i \<Rightarrow> i
      | SubscriptionUpdated s \<Rightarrow> map_option ss_id (stripe (ss_id s))
      | SubscriptionDeleted s \<Rightarrow> Some (ss_id s)
      | OtherEvent \<Rightarrow> None)"

definition event_organization :: "stripe \<Rightarrow> StripeEvent \<Rightarrow> BillingDb \<Rightarrow> ident option" where
  "event_organization stripe event db =
     (case ev_object event of
        CheckoutCompleted i (Some o') \<Rightarrow> Some o'
      | CheckoutCompleted i None \<Rightarrow> Option.bind (Option.bind i (\<lambda>i. resolveOrgFromSubscription stripe i db)) id
      | InvoicePaid i \<Rightarrow> Option.bind i (\<lambda>i. map_option sub_organizationId (find_sub i db))
      | InvoicePaymentFailed i \<Rightarrow> None
      | SubscriptionUpdated s \<Rightarrow> Option.bind (stripe (ss_id s)) (\<lambda>s. orgOfSubscription s db)
      | SubscriptionDeleted s \<Rightarrow> orgOfSubscription s db
      | OtherEvent \<Rightarrow> None)"

lemma process_event_frame:
  "frame (event_subscription stripe event) (event_organization stripe event db) db
     (snd (process_event env stripe now newId event db))"
proof (cases "ev_object event")
  case (CheckoutCompleted j m)
  then show ?thesis
    by (cases m) (auto simp: process_event_def on_checkout_completed_def event_subscription_def event_organization_def
        truthy_def intro!: billing_frame split: option.splits if_splits)
next
  case (InvoicePaid j)
  then show ?thesis
    by (auto simp: process_event_def on_invoice_paid_def event_subscription_def event_organization_def
        truthy_def intro!: billing_frame split: option.splits if_splits)
next
  case (InvoicePaymentFailed j)
  then show ?thesis
    by (auto simp: process_event_def on_payment_failed_def event_subscription_def
        truthy_def intro!: billing_frame split: option.splits if_splits)
next
  case (SubscriptionUpdated s)
  then show ?thesis
    by (auto simp: process_event_def on_subscription_updated_def event_subscription_def event_organization_def Let_def
        truthy_def intro!: billing_frame split: option.splits if_splits)
next
  case (SubscriptionDeleted s)
  then show ?thesis
    by (auto simp: process_event_def on_subscription_deleted_def event_subscription_def event_organization_def Let_def
        truthy_def intro!: billing_frame split: option.splits if_splits)
qed (simp add: process_event_def billing_frame)

lemma stripe_webhook_cases:
  assumes "stripe_webhook env redis verify stripe now newId st = (r, st')"
  obtains "bs_db st' = bs_db st"
  | event where "constructStripeEvent verify (webhook_secrets env) = Some event" "bs_db st' = snd (process_event env stripe now newId event (bs_db st))"
  using assms by (auto simp: stripe_webhook_def split: if_splits option.splits prod.splits)

lemma constructStripeEvent_verified:
  "constructStripeEvent verify secrets = Some e \<Longrightarrow> \<exists>s \<in> set secrets. verify s = Some e"
  by (induction secrets) (auto split: option.splits)

text \<open>
  A webhook changes the tables only on behalf of an event that one of the configured secrets verifies, and
  then only the subscription the event is about and the organization it acts for; every other customer's
  subscriptions and plan stay as they are.
\<close>

theorem webhook_touches_its_customer_only:
  assumes "stripe_webhook env redis verify stripe now newId st = (r, st')" "bs_db st' \<noteq> bs_db st"
  shows "\<exists>secret event. secret \<in> set (webhook_secrets env) \<and> secret \<noteq> [] \<and> verify secret = Some event \<and>
    frame (event_subscription stripe event) (event_organization stripe event (bs_db st)) (bs_db st) (bs_db st')"
  using assms(1)
proof (cases rule: stripe_webhook_cases)
  case (2 event)
  then obtain secret where "secret \<in> set (webhook_secrets env)" "verify secret = Some event"
    using constructStripeEvent_verified by blast
  moreover from this have "secret \<noteq> []" by (auto simp: webhook_secrets_def resolveWebhookSecrets_def)
  ultimately show ?thesis using process_event_frame 2(2) by metis
qed (use assms(2) in simp)

section \<open>Well-formed tables\<close>

definition keeps :: "stmt \<Rightarrow> bool" where
  "keeps a \<longleftrightarrow> (\<forall>db. billing_ok db \<longrightarrow> billing_ok (snd (a db)))"

named_theorems billing_keeps "statements that keep the tables well formed"

lemma keeps_nothing [billing_keeps]: "keeps nothing" by (simp add: keeps_def nothing_def)

lemma keeps_throw [billing_keeps]: "keeps throw" by (simp add: keeps_def throw_def)

lemma find_org_set_org: "(\<And>o'. bo_id (f o') = bo_id o') \<Longrightarrow>
    find_org j (set_org orgId f db) = map_option (\<lambda>o'. if bo_id o' = orgId then f o' else o') (find_org j db)"
  by (simp add: find_org_def set_org_def find_update_many)

lemma keeps_set_org: "(\<And>o'. bo_id (f o') = bo_id o') \<Longrightarrow> billing_ok db \<Longrightarrow> billing_ok (set_org orgId f db)"
  by (simp add: billing_ok_def find_org_set_org) (simp add: set_org_def unique_key_update_many)

lemma keeps_update_org [billing_keeps]: "(\<And>o'. bo_id (f o') = bo_id o') \<Longrightarrow> keeps (update_org orgId f)"
  by (simp add: keeps_def update_org_def keeps_set_org)

lemma map_filter_update_many:
  "(\<And>r. g (f r) = g r) \<Longrightarrow> List.map_filter g (update_many p f rows) = List.map_filter g rows"
  by (induction rows) (auto simp: List.map_filter_simps split: option.splits)

lemma keeps_update_sub [billing_keeps]:
  assumes "\<And>s. sub_stripeSubscriptionId (f s) = sub_stripeSubscriptionId s" "\<And>s. sub_organizationId (f s) = sub_organizationId s"
  shows "keeps (update_sub now i f)"
  using assms by (auto simp: keeps_def update_sub_def billing_ok_def map_filter_update_many find_org_def elim!: in_update_manyE)

lemma find_sub_None: "find_sub i db = None \<longleftrightarrow> i \<notin> set (List.map_filter sub_stripeSubscriptionId (bdb_subs db))"
  by (force simp: find_sub_def find_None_iff List.map_filter_def)

lemma map_filter_append: "List.map_filter g (xs @ ys) = List.map_filter g xs @ List.map_filter g ys"
  by (simp add: List.map_filter_def)

lemma keeps_upsert_sub [billing_keeps]:
  assumes "\<And>s. sub_stripeSubscriptionId (f s) = sub_stripeSubscriptionId s" "\<And>s. sub_organizationId (f s) = sub_organizationId s"
  shows "keeps (upsert_sub now newId orgId ss f)"
  unfolding keeps_def
proof (intro allI impI)
  fix db assume ok: "billing_ok db"
  have upd: "billing_ok (snd (update_sub now (ss_id ss) f db))"
    using keeps_update_sub [of f now "ss_id ss"] assms ok by (simp add: keeps_def)
  show "billing_ok (snd (upsert_sub now newId orgId ss f db))"
    using upd ok assms by (auto simp: upsert_sub_def billing_ok_def find_org_def map_filter_append List.map_filter_simps find_sub_None)
qed

lemma keeps_then_run [billing_keeps]: "keeps a \<Longrightarrow> keeps b \<Longrightarrow> keeps (then_run a b)"
  by (auto simp: keeps_def then_run_def split: prod.splits)

lemma keeps_process_event: "keeps (process_event env stripe now newId event)"
proof (cases "ev_object event")
  case (CheckoutCompleted j m)
  have k: "keeps (then_run (upsert_sub now newId o' ss (sync_period ss st)) (update_org o' (\<lambda>o'. o'\<lparr> bo_plan := p, bo_trialEndsAt := None \<rparr>)))" for o' ss st p
    by (intro billing_keeps) simp_all
  with CheckoutCompleted show ?thesis
    by (auto simp: keeps_def process_event_def on_checkout_completed_def nothing_def throw_def split: option.splits)
next
  case (InvoicePaid j)
  have k: "keeps (then_run (update_sub now i (sync_period ss ACTIVE)) (update_org o' (\<lambda>o'. o'\<lparr> bo_plan := p \<rparr>)))" for o' i ss p
    by (intro billing_keeps) simp_all
  with InvoicePaid show ?thesis
    by (auto simp: keeps_def process_event_def on_invoice_paid_def nothing_def throw_def split: option.splits)
next
  case (InvoicePaymentFailed j)
  have k: "keeps (update_sub now i (sync_period ss st))" for i ss st by (intro billing_keeps) simp_all
  with InvoicePaymentFailed show ?thesis
    by (auto simp: keeps_def process_event_def on_payment_failed_def nothing_def throw_def split: option.splits)
next
  case (SubscriptionUpdated s)
  have k: "keeps (then_run (upsert_sub now newId o' ss (\<lambda>s. (sync_period ss st s)\<lparr> sub_canceledAt := c \<rparr>))
      (if b then update_org o' (\<lambda>o'. o'\<lparr> bo_plan := p, bo_trialEndsAt := None \<rparr>) else nothing))" for o' ss st c p b
    by (intro billing_keeps) (auto intro: billing_keeps)
  with SubscriptionUpdated show ?thesis
    by (auto simp: keeps_def process_event_def on_subscription_updated_def nothing_def throw_def Let_def split: option.splits)
next
  case (SubscriptionDeleted s)
  have d: "keeps (\<lambda>db. if other_active o' i db then nothing db else update_org o' (\<lambda>o'. o'\<lparr> bo_plan := FREE_TRIAL, bo_trialEndsAt := Some now \<rparr>) db)" for o' i
    using keeps_update_org [of "\<lambda>o'. o'\<lparr> bo_plan := FREE_TRIAL, bo_trialEndsAt := Some now \<rparr>" o'] by (simp add: keeps_def nothing_def)
  have "keeps (then_run (update_sub now i (\<lambda>s. s\<lparr> sub_status := CANCELED, sub_canceledAt := Some now \<rparr>))
      (\<lambda>db. if other_active o' i db then nothing db else update_org o' (\<lambda>o'. o'\<lparr> bo_plan := FREE_TRIAL, bo_trialEndsAt := Some now \<rparr>) db))" for o' i
    by (intro billing_keeps d) simp_all
  with SubscriptionDeleted show ?thesis
    by (auto simp: keeps_def process_event_def on_subscription_deleted_def nothing_def Let_def)
qed (simp add: process_event_def billing_keeps)

text \<open>
  Webhooks and checkouts one after the other; Stripe and the clock may be anything at each of them. The
  webhooks act for the organizations \<open>orgs\<close> only.
\<close>

inductive billing_step :: "env \<Rightarrow> ident set \<Rightarrow> BillingState \<Rightarrow> BillingState \<Rightarrow> bool" for env orgs where
  webhook: "stripe_webhook env redis verify stripe now newId st = (r, st') \<Longrightarrow>
    (\<And>event. constructStripeEvent verify (webhook_secrets env) = Some event \<Longrightarrow>
       event_organization stripe event (bs_db st) \<in> insert None (Some ` orgs)) \<Longrightarrow> billing_step env orgs st st'"
| checkout: "checkout_route env newCustomer req plan (bs_db st) = (r, db) \<Longrightarrow> billing_step env orgs st (st\<lparr> bs_db := db \<rparr>)"

lemma checkout_route_db:
  assumes "checkout_route env newCustomer req plan db = (r, db')"
  shows "db' = db \<or> (\<exists>orgId. db' = set_org orgId (\<lambda>o'. o'\<lparr> bo_stripeCustomerId := Some newCustomer \<rparr>) db)"
  using assms by (auto simp: checkout_route_def Let_def split: option.splits if_splits)

lemma billing_step_ok: "billing_step env orgs st st' \<Longrightarrow> billing_ok (bs_db st) \<Longrightarrow> billing_ok (bs_db st')"
proof (induction rule: billing_step.induct)
  case (webhook redis verify stripe now newId st r st')
  from webhook.hyps(1) show ?case
    by (cases rule: stripe_webhook_cases) (use webhook.prems keeps_process_event in \<open>auto simp: keeps_def\<close>)
next
  case (checkout newCustomer req plan st r db)
  from checkout_route_db [OF checkout.hyps] checkout.prems show ?case
    by (auto intro: keeps_set_org)
qed

text \<open>
  The tables stay well formed along every sequence of webhooks and checkouts, whatever Stripe answers and even
  where a webhook stops half way: a subscription of Stripe has at most one row, and its organization exists.
\<close>

theorem billing_tables_well_formed:
  assumes "(billing_step env UNIV)\<^sup>*\<^sup>* st st'" "billing_ok (bs_db st)"
  shows "billing_ok (bs_db st')"
  using assms by (induction rule: rtranclp_induct) (auto intro: billing_step_ok)

section \<open>Cancellation\<close>

lemma frame_find_org: "frame i org db db' \<Longrightarrow> Some orgId \<noteq> org \<Longrightarrow> find_org orgId db' = find_org orgId db"
proof -
  assume f: "frame i org db db'" and ne: "Some orgId \<noteq> org"
  have "find_org orgId d = List.find (\<lambda>o'. bo_id o' = orgId) (filter (\<lambda>o'. Some (bo_id o') \<noteq> org) (bdb_orgs d))" for d
    unfolding find_org_def find_filter filter_filter using ne by (metis (mono_tags, lifting))
  with f show ?thesis by (simp add: frame_def)
qed

lemma find_sub_update:
  "(\<And>s. sub_stripeSubscriptionId (f s) = sub_stripeSubscriptionId s) \<Longrightarrow> find_sub i db \<noteq> None \<Longrightarrow>
     update_sub now i f db = (True, db') \<Longrightarrow> find_sub i db' = map_option (\<lambda>s. (f s)\<lparr> sub_updatedAt := now \<rparr>) (find_sub i db)"
  by (cases "find_sub i db") (auto simp: update_sub_def, auto simp: find_sub_def find_update_many dest!: find_SomeD)

text \<open>An organization that is on a trial which is over.\<close>

definition locked_out :: "millis \<Rightarrow> ident \<Rightarrow> BillingDb \<Rightarrow> bool" where
  "locked_out now orgId db \<longleftrightarrow>
     (\<exists>org. find_org orgId db = Some org \<and> bo_plan org = FREE_TRIAL \<and> (\<exists>e \<le> now. bo_trialEndsAt org = Some e))"

lemma locked_out_gate:
  "locked_out now orgId db \<Longrightarrow> isBillingEnabled env \<Longrightarrow> orgId \<noteq> [] \<Longrightarrow> now < t \<Longrightarrow>
     trialGate env t (Some orgId) db = Status 402 ''trial_expired''"
  by (auto simp: locked_out_def trialGate_def)

lemma locked_out_step:
  assumes "billing_step env orgs st st'" "locked_out now orgId (bs_db st)" "orgId \<notin> orgs"
  shows "locked_out now orgId (bs_db st')"
  using assms
proof (induction rule: billing_step.induct)
  case (webhook redis verify stripe later newId st r st')
  from webhook.hyps(1) show ?case
  proof (cases rule: stripe_webhook_cases)
    case (2 event)
    have "Some orgId \<noteq> event_organization stripe event (bs_db st)"
      using webhook.hyps(2) [OF 2(1)] webhook.prems(2) by auto
    with frame_find_org [OF process_event_frame, of orgId stripe event "bs_db st" env later newId] 2(2) webhook.prems(1)
    show ?thesis by (simp add: locked_out_def)
  qed (use webhook.prems in simp)
next
  case (checkout newCustomer req plan st r db)
  from checkout_route_db [OF checkout.hyps] checkout.prems(1) show ?case
    by (auto simp: locked_out_def find_org_set_org)
qed

lemma locked_out_steps: "(billing_step env orgs)\<^sup>*\<^sup>* st st' \<Longrightarrow> orgId \<notin> orgs \<Longrightarrow> locked_out now orgId (bs_db st) \<Longrightarrow>
    locked_out now orgId (bs_db st')"
  by (induction rule: rtranclp_induct) (auto intro: locked_out_step)

lemma other_active_update:
  assumes "\<And>s. sub_stripeSubscriptionId (f s) = sub_stripeSubscriptionId s" "update_sub now i f db = (True, db')"
  shows "other_active orgId i db' = other_active orgId i db"
proof -
  have "list_ex P (update_many (\<lambda>s. sub_stripeSubscriptionId s = Some i) g rows) = list_ex P rows"
    if "\<And>s. sub_stripeSubscriptionId s = Some i \<Longrightarrow> \<not> P s \<and> \<not> P (g s)" for P g and rows :: "Subscription list"
    using that by (induction rows) auto
  with assms show ?thesis by (auto simp: update_sub_def other_active_def split: if_splits)
qed

lemma deletion_locks_out:
  assumes "\<not> stale (ss_id ss) created db" "orgOfSubscription ss db = Some orgId" "orgId \<noteq> []"
    and "find_sub (ss_id ss) db \<noteq> None" "find_org orgId db \<noteq> None" "\<not> other_active orgId (ss_id ss) db"
    and "on_subscription_deleted now created ss db = (ok, db')"
  shows "ok \<and> locked_out now orgId db' \<and> map_option sub_status (find_sub (ss_id ss) db') = Some CANCELED"
proof -
  let ?f = "\<lambda>s. s\<lparr> sub_status := CANCELED, sub_canceledAt := Some now \<rparr>"
  let ?g = "\<lambda>o'. o'\<lparr> bo_plan := FREE_TRIAL, bo_trialEndsAt := Some now \<rparr>"
  obtain db1 where db1: "update_sub now (ss_id ss) ?f db = (True, db1)"
    using assms(4) by (auto simp: update_sub_def)
  have "find_org orgId db1 = find_org orgId db"
    using frame_update_sub [of ?f "ss_id ss" None db now] db1 by (auto intro: frame_find_org)
  with assms(5) have org: "find_org orgId db1 \<noteq> None" by simp
  have "\<not> other_active orgId (ss_id ss) db1" using other_active_update [OF _ db1] assms(6) by simp
  with assms(1-3,7) db1 org have db': "ok" "db' = set_org orgId ?g db1"
    by (auto simp: on_subscription_deleted_def Let_def then_run_def update_org_def)
  have "locked_out now orgId db'"
    using org by (auto simp: locked_out_def db'(2) find_org_set_org) (auto simp: find_org_def dest!: find_SomeD)
  moreover have "find_sub (ss_id ss) db1 = map_option (\<lambda>s. (?f s)\<lparr> sub_updatedAt := now \<rparr>) (find_sub (ss_id ss) db)"
    using assms(4) db1 by (intro find_sub_update) simp_all
  ultimately show ?thesis using assms(4) db' by (auto simp: set_org_def find_sub_def)
qed

text \<open>
  A cancellation closes the gate: once the deletion of an organization's last active subscription has been
  processed, every request of the organization is refused, until a webhook acts for the organization
  again; webhooks for others and checkouts that are not completed do not open it.
\<close>

theorem cancellation_closes_gate:
  assumes "constructStripeEvent verify (webhook_secrets env) = Some event" "ev_id event \<noteq> []" "ev_object event = SubscriptionDeleted ss"
    and "fst (markWebhookEventIfNew redis now (5 * 60 * 1000) (''stripe:'' @ ev_id event) (bs_seen st))"
    and "\<not> stale (ss_id ss) (ev_created event) (bs_db st)" "orgOfSubscription ss (bs_db st) = Some orgId" "orgId \<noteq> []"
    and "find_sub (ss_id ss) (bs_db st) \<noteq> None" "find_org orgId (bs_db st) \<noteq> None" "\<not> other_active orgId (ss_id ss) (bs_db st)"
    and "isBillingEnabled env" "stripe_webhook env redis verify stripe now newId st = (r, st1)"
    and "(billing_step env orgs)\<^sup>*\<^sup>* st1 st2" "orgId \<notin> orgs" "now < t"
  shows "r = Response 200 ''received'' \<and> trialGate env t (Some orgId) (bs_db st2) = Status 402 ''trial_expired''"
proof -
  obtain ok db' where d: "on_subscription_deleted now (ev_created event) ss (bs_db st) = (ok, db')" by fastforce
  from deletion_locks_out [OF assms(5-10) d] have ok: ok "locked_out now orgId db'" by simp_all
  have "webhook_secrets env \<noteq> []" using assms(1) by auto
  with assms(1-4,12) d ok(1) have "r = Response 200 ''received''" "bs_db st1 = db'"
    by (auto simp: stripe_webhook_def process_event_def split: prod.splits)
  with locked_out_steps [OF assms(13,14), of now] ok(2) have "locked_out now orgId (bs_db st2)" by simp
  from locked_out_gate [OF this assms(11,7,15)] \<open>r = _\<close> show ?thesis by simp
qed

section \<open>A subscription follows Stripe\<close>

definition usable :: "SubscriptionStatus \<Rightarrow> bool" where
  "usable st \<longleftrightarrow> st = ACTIVE \<or> st = TRIALING"

definition mirrors :: "StripeSubscription \<Rightarrow> Subscription \<Rightarrow> bool" where
  "mirrors ss s \<longleftrightarrow> sub_status s = mapStripeStatus (ss_status ss) \<and>
     sub_currentPeriodStart s = Some (ss_period_start ss * 1000) \<and> sub_currentPeriodEnd s = Some (ss_period_end ss * 1000)"

lemma upsert_find:
  assumes "\<And>s. sub_stripeSubscriptionId (f s) = sub_stripeSubscriptionId s" "upsert_sub now newId orgId ss f db = (True, db')"
  shows "\<exists>s s0. find_sub (ss_id ss) db' = Some s \<and> s = (f s0)\<lparr> sub_updatedAt := sub_updatedAt s \<rparr>"
proof (cases "find_sub (ss_id ss) db")
  case None
  then have "find_sub (ss_id ss) db' = Some (f \<lparr> sub_id = newId, sub_organizationId = orgId, sub_stripeSubscriptionId = Some (ss_id ss),
             sub_billingChannel = SELF_SERVE, sub_status = ACTIVE, sub_currentPeriodStart = None,
             sub_currentPeriodEnd = None, sub_canceledAt = None, sub_createdAt = now, sub_updatedAt = now \<rparr>)"
    using assms by (auto simp: upsert_sub_def find_sub_def find_append split: if_splits)
  moreover have "g = g\<lparr> sub_updatedAt := sub_updatedAt g \<rparr>" for g :: Subscription by simp
  ultimately show ?thesis by blast
next
  case (Some s)
  with assms have "find_sub (ss_id ss) db' = map_option (\<lambda>s. (f s)\<lparr> sub_updatedAt := now \<rparr>) (find_sub (ss_id ss) db)"
    by (intro find_sub_update) (simp_all add: upsert_sub_def)
  with Some show ?thesis by fastforce
qed

lemma plan_of_paid: "plan_of env ss \<noteq> FREE_TRIAL"
  by (auto simp: plan_of_def getPlanByPriceId_def PLAN_CONFIGS_def split: option.splits)

lemma update_org_ok: "update_org orgId f db = (True, db') \<Longrightarrow> find_org orgId db \<noteq> None \<and> db' = set_org orgId f db"
  by (auto simp: update_org_def split: if_splits)

lemma find_sub_set_org [simp]: "find_sub i (set_org orgId f db) = find_sub i db"
  by (simp add: find_sub_def set_org_def)

lemma find_org_self: "find_org orgId db = Some org \<Longrightarrow> bo_id org = orgId"
  by (auto simp: find_org_def dest!: find_SomeD)

lemma find_org_set_same:
  "(\<And>o'. bo_id (f o') = bo_id o') \<Longrightarrow> find_org orgId db = Some org \<Longrightarrow> find_org orgId (set_org orgId f db) = Some (f org)"
  by (auto simp: find_org_set_org dest: find_org_self)

text \<open>
  The local row follows Stripe: when an update that is not stale has been processed, the subscription has the
  status, period and cancellation date that Stripe reports at that moment, whatever the event itself said and
  in whatever order events came before; where the status is usable the organization is on the plan that
  is paid for and no longer on a trial.
\<close>

theorem subscription_follows_stripe:
  assumes "on_subscription_updated env stripe now newId created incoming db = (True, db')"
    and "\<not> stale incoming created db" "stripe incoming = Some ss" "orgOfSubscription ss db = Some orgId" "orgId \<noteq> []"
  shows "\<exists>s. find_sub (ss_id ss) db' = Some s \<and> mirrors ss s \<and> sub_canceledAt s = canceled_at ss \<and>
    (usable (sub_status s) \<longrightarrow>
       map_option (\<lambda>o'. (bo_plan o', bo_trialEndsAt o')) (find_org orgId db') = Some (plan_of env ss, None))"
proof -
  let ?st = "mapStripeStatus (ss_status ss)"
  let ?f = "\<lambda>s. (sync_period ss ?st s)\<lparr> sub_canceledAt := canceled_at ss \<rparr>"
  let ?g = "\<lambda>o'. o'\<lparr> bo_plan := plan_of env ss, bo_trialEndsAt := None \<rparr>"
  obtain db1 where db1: "upsert_sub now newId orgId ss ?f db = (True, db1)"
    and db': "(if usable ?st then update_org orgId ?g else nothing) db1 = (True, db')"
    using assms by (auto simp: on_subscription_updated_def Let_def then_run_def usable_def split: prod.splits if_splits)
  from upsert_find [OF _ db1] obtain s s0 where s: "find_sub (ss_id ss) db1 = Some s" "s = (?f s0)\<lparr> sub_updatedAt := sub_updatedAt s \<rparr>"
    by auto
  have m: "sub_status s = ?st \<and> mirrors ss s \<and> sub_canceledAt s = canceled_at ss"
    by (subst (1 2 3) s(2)) (simp add: mirrors_def sync_period_def)
  show ?thesis
  proof (cases "usable ?st")
    case True
    with db' have "find_org orgId db1 \<noteq> None" "db' = set_org orgId ?g db1" by (auto dest: update_org_ok)
    with s(1) m show ?thesis using find_org_set_same [of ?g orgId db1] by auto
  next
    case False
    with db' s(1) m show ?thesis by (auto simp: nothing_def)
  qed
qed

section \<open>From checkout to plan\<close>

definition prices_differ :: "env \<Rightarrow> bool" where
  "prices_differ env \<longleftrightarrow> distinct (List.map_filter (\<lambda>(p, c). env (pc_stripePriceEnvVar c)) PLAN_CONFIGS)"

lemma plan_price_roundtrip:
  assumes "prices_differ env" "getStripePriceId env plan = Some price" "price \<noteq> []"
  shows "getPlanByPriceId env price = Some plan"
  using assms
  by (cases plan) (auto simp: prices_differ_def getStripePriceId_def getPlanByPriceId_def PLAN_CONFIGS_def
      List.map_filter_simps truthy_def split: option.splits)

text \<open>
  Round trip of a checkout: if Stripe's subscription carries the price and the metadata with which the handler
  started the checkout, then its completion puts the organization that asked, and no other, on exactly the
  plan it asked for, ends its trial and records the subscription with Stripe's status.
\<close>

theorem checkout_buys_requested_plan:
  assumes "prices_differ env" "checkout_route env newCustomer req (Some plan_name) db = (Inr session, db1)"
    and "stripe i = Some ss" "ss_price ss = Some (cs_price session)" "ss_organizationId ss = Some (cs_organizationId session)"
    and "i \<noteq> []" "on_checkout_completed env stripe now newId (Some i) None db1 = (True, db2)"
  shows "Some (cs_organizationId session) = req_organizationId req \<and> checkoutSchema (Some plan_name) = Some (cs_plan session) \<and>
    map_option (\<lambda>o'. (bo_plan o', bo_trialEndsAt o')) (find_org (cs_organizationId session) db2) = Some (cs_plan session, None) \<and>
    (\<exists>s. find_sub (ss_id ss) db2 = Some s \<and> mirrors ss s) \<and>
    frame (Some (ss_id ss)) (Some (cs_organizationId session)) db1 db2"
proof -
  let ?org = "cs_organizationId session"
  let ?g = "\<lambda>o'. o'\<lparr> bo_plan := plan_of env ss, bo_trialEndsAt := None \<rparr>"
  from assms(2) have s: "Some ?org = req_organizationId req" "?org \<noteq> []" "checkoutSchema (Some plan_name) = Some (cs_plan session)"
      "getStripePriceId env (cs_plan session) = Some (cs_price session)" "cs_price session \<noteq> []"
    by (auto simp: checkout_route_def billing_guard_def Let_def truthy_def split: option.splits if_splits)
  have plan: "plan_of env ss = cs_plan session"
    using plan_price_roundtrip [OF assms(1) s(4,5)] s(5) assms(4) by (simp add: plan_of_def)
  obtain dbx where dbx: "upsert_sub now newId ?org ss (sync_period ss (mapStripeStatus (ss_status ss))) db1 = (True, dbx)"
    and db2: "update_org ?org ?g dbx = (True, db2)"
    using assms(3,5-7) s(2)
    by (auto simp: on_checkout_completed_def resolveOrgFromSubscription_def then_run_def split: prod.splits if_splits)
  from update_org_ok [OF db2] have org: "find_org ?org dbx \<noteq> None" "db2 = set_org ?org ?g dbx" by simp_all
  from upsert_find [OF _ dbx] obtain r r0 where r: "find_sub (ss_id ss) dbx = Some r"
    "r = (sync_period ss (mapStripeStatus (ss_status ss)) r0)\<lparr> sub_updatedAt := sub_updatedAt r \<rparr>" by auto
  have "mirrors ss r" by (subst r(2)) (simp add: mirrors_def sync_period_def)
  moreover have "frame (Some (ss_id ss)) (Some ?org) db1 db2"
  proof (rule frame_trans)
    show "frame (Some (ss_id ss)) (Some ?org) db1 dbx"
      using frame_upsert_sub [of "sync_period ss (mapStripeStatus (ss_status ss))" ss "Some ?org" db1 now newId ?org] dbx by simp
    show "frame (Some (ss_id ss)) (Some ?org) dbx db2" unfolding org(2) by (rule frame_set_org) simp
  qed
  moreover have "map_option (\<lambda>o'. (bo_plan o', bo_trialEndsAt o')) (find_org ?org db2) = Some (cs_plan session, None)"
    using org plan find_org_set_same [of ?g ?org dbx] by auto
  ultimately show ?thesis using s r(1) by (simp add: org(2))
qed

section \<open>Events that are lost\<close>

lemma trim_ne: "c \<in> set s \<Longrightarrow> \<not> js_ws c \<Longrightarrow> trim s \<noteq> []"
proof
  assume c: "c \<in> set s" "\<not> js_ws c" and "trim s = []"
  then have "\<forall>x \<in> set (dropWhile js_ws s). js_ws x" by (simp add: trim_def dropWhile_eq_Nil_conv)
  moreover have "dropWhile js_ws s \<noteq> []" using c by (auto simp: dropWhile_eq_Nil_conv)
  ultimately show False using hd_dropWhile [of js_ws s] by (metis hd_in_set)
qed

text \<open>
  A webhook whose processing fails answers 500, so that Stripe sends it again; but its id is remembered before
  it is processed, and within five minutes the second delivery is answered with 200 and does nothing.
\<close>

theorem failed_event_is_lost:
  assumes "jm_wf (bs_seen st)" "0 \<le> now" "now \<le> t" "t < now + 5 * 60 * 1000"
    and "stripe_webhook env None verify stripe now newId st = (Response 500 ''webhook_processing_failed'', st1)"
  shows "\<exists>st2. stripe_webhook env None verify stripe2 t newId2 st1 = (Response 200 ''deduplicated'', st2) \<and> bs_db st2 = bs_db st1"
proof -
  from assms(5) obtain event seen ok db where e: "webhook_secrets env \<noteq> []" "constructStripeEvent verify (webhook_secrets env) = Some event"
      "ev_id event \<noteq> []" "markWebhookEventIfNew None now (5 * 60 * 1000) (''stripe:'' @ ev_id event) (bs_seen st) = (True, seen)"
      "st1 = st\<lparr> bs_db := db, bs_seen := seen \<rparr>"
    by (auto simp: stripe_webhook_def split: if_splits option.splits prod.splits)
  let ?k = "''stripe:'' @ ev_id event"
  have k: "trim ?k \<noteq> []"
    by (simp add: trim_ne [of "CHR ''s''"] js_ws_def)
  from e(4) have seen: "jm_wf seen" "em_seen seen t (trim ?k)"
    using mark_local [OF assms(1,2) k, of "5 * 60 * 1000"] em_prune_wf [OF assms(1)] assms(4)
    by (auto simp: Let_def jm.wf_put em_seen_set split: if_splits)
  have "0 \<le> t" using assms(2,3) by simp
  from mark_local [OF seen(1) this k, of "5 * 60 * 1000"] seen(2)
  have "\<not> fst (markWebhookEventIfNew None t (5 * 60 * 1000) ?k seen)" by (simp add: Let_def)
  with e show ?thesis by (auto simp: stripe_webhook_def split: prod.splits)
qed

text \<open>
  A deletion that arrives after a local change more than five seconds younger than the event is dropped and
  answered with success: the subscription stays as it is and the gate open.
\<close>

theorem late_cancellation_ignored:
  assumes "find_sub (ss_id ss) db = Some s" "ev_object event = SubscriptionDeleted ss"
    and "ev_created event * 1000 + 5000 < sub_updatedAt s"
  shows "process_event env stripe now newId event db = (True, db)"
  using assms by (simp add: process_event_def on_subscription_deleted_def stale_def isStaleStripeLifecycleEvent_def nothing_def)

text \<open>
  An invoice that is paid after the cancellation, such as the last one, makes the subscription active again
  and puts the organization on the paid plan.
\<close>

theorem paid_invoice_revives_subscription:
  assumes "find_sub i db = Some s" "i \<noteq> []" "stripe i = Some ss" "find_org (sub_organizationId s) db \<noteq> None"
    and "ev_object event = InvoicePaid (Some i)"
  shows "\<exists>db'. process_event env stripe now newId event db = (True, db') \<and>
    map_option sub_status (find_sub i db') = Some ACTIVE \<and>
    map_option bo_plan (find_org (sub_organizationId s) db') = Some (plan_of env ss) \<and> plan_of env ss \<noteq> FREE_TRIAL"
proof -
  let ?g = "\<lambda>o'. o'\<lparr> bo_plan := plan_of env ss \<rparr>"
  obtain db1 where db1: "update_sub now i (sync_period ss ACTIVE) db = (True, db1)"
    using assms(1) by (simp add: update_sub_def)
  have f: "find_sub i db1 = map_option (\<lambda>s. (sync_period ss ACTIVE s)\<lparr> sub_updatedAt := now \<rparr>) (find_sub i db)"
    using assms(1) db1 by (intro find_sub_update) simp_all
  have "find_org (sub_organizationId s) db1 = find_org (sub_organizationId s) db"
    using frame_update_sub [of "sync_period ss ACTIVE" i None db now] db1 by (auto intro: frame_find_org)
  with assms(4) obtain org where org: "find_org (sub_organizationId s) db1 = Some org" by auto
  have "process_event env stripe now newId event db = (True, set_org (sub_organizationId s) ?g db1)"
    using assms db1 org by (simp add: process_event_def on_invoice_paid_def then_run_def update_org_def)
  with f assms(1) org plan_of_paid find_org_self [OF org] show ?thesis by (auto simp: find_org_set_org)
qed

text \<open>
  The deletion of a subscription looks for another one that is ACTIVE only: an organization whose other subscription
  is in its trial period is shut out although the gate would accept that one.
\<close>

theorem trialing_subscription_not_counted:
  assumes "\<not> stale (ss_id ss) created db" "orgOfSubscription ss db = Some orgId" "orgId \<noteq> []"
    and "find_sub (ss_id ss) db \<noteq> None" "find_org orgId db \<noteq> None" "isBillingEnabled env" "now < t"
    and "other \<in> set (bdb_subs db)" "sub_organizationId other = orgId" "sub_status other = TRIALING"
    and "sub_stripeSubscriptionId other \<noteq> Some (ss_id ss)"
    and "filter (\<lambda>s. sub_organizationId s = orgId \<and> sub_stripeSubscriptionId s \<noteq> Some (ss_id ss)) (bdb_subs db) = [other]"
    and "on_subscription_deleted now created ss db = (ok, db')"
  shows "other \<in> set (bdb_subs db') \<and> trialGate env t (Some orgId) db' = Status 402 ''trial_expired''"
proof -
  have only: "\<not> other_active orgId (ss_id ss) db"
  proof
    assume "other_active orgId (ss_id ss) db"
    then obtain s where s: "s \<in> set (bdb_subs db)" "sub_organizationId s = orgId" "sub_status s = ACTIVE"
      "sub_stripeSubscriptionId s \<noteq> Some (ss_id ss)"
      by (auto simp: other_active_def list_ex_iff split: option.splits)
    then have "s \<in> set (filter (\<lambda>s. sub_organizationId s = orgId \<and> sub_stripeSubscriptionId s \<noteq> Some (ss_id ss)) (bdb_subs db))"
      by simp
    with assms(10,12) s(3) show False by simp
  qed
  from deletion_locks_out [OF assms(1-5) only assms(13)] have "locked_out now orgId db'" by simp
  from locked_out_gate [OF this assms(6,3,7)] have g: "trialGate env t (Some orgId) db' = Status 402 ''trial_expired''" .
  define event where "event = \<lparr> ev_id = [], ev_created = created, ev_object = SubscriptionDeleted ss \<rparr>"
  have "frame (Some (ss_id ss)) (Some orgId) db db'"
    using process_event_frame [of "\<lambda>_. None" event db env now "[]"] assms(2,13)
    by (simp add: event_def event_subscription_def event_organization_def process_event_def)
  then have "filter (\<lambda>s. sub_stripeSubscriptionId s \<noteq> Some (ss_id ss)) (bdb_subs db') =
      filter (\<lambda>s. sub_stripeSubscriptionId s \<noteq> Some (ss_id ss)) (bdb_subs db)" by (simp add: frame_def)
  moreover have "other \<in> set (filter (\<lambda>s. sub_stripeSubscriptionId s \<noteq> Some (ss_id ss)) (bdb_subs db))"
    using assms(8,11) by simp
  ultimately have "other \<in> set (filter (\<lambda>s. sub_stripeSubscriptionId s \<noteq> Some (ss_id ss)) (bdb_subs db'))" by simp
  then have "other \<in> set (bdb_subs db')" by simp
  with g show ?thesis by simp
qed

section \<open>Concrete runs\<close>

definition sample_env :: env where
  "sample_env = map_of [(''BILLING_ENABLED'', ''true''), (''STRIPE_WEBHOOK_SECRET'', ''whsec''),
     (''STRIPE_STARTER_PRICE_ID'', ''price_s''), (''STRIPE_PROFESSIONAL_PRICE_ID'', ''price_p'')]"

definition sample_org :: "ident \<Rightarrow> Plan \<Rightarrow> millis option \<Rightarrow> BillingOrganization" where
  "sample_org i plan ends = \<lparr> bo_id = i, bo_name = ''Acme'', bo_stripeCustomerId = Some (''cus_'' @ i), bo_plan = plan,
     bo_billingChannel = SELF_SERVE, bo_trialEndsAt = ends \<rparr>"

definition sample_sub :: "ident \<Rightarrow> ident \<Rightarrow> SubscriptionStatus \<Rightarrow> Subscription" where
  "sample_sub i org st = \<lparr> sub_id = i, sub_organizationId = org, sub_stripeSubscriptionId = Some (''sub_'' @ i),
     sub_billingChannel = SELF_SERVE, sub_status = st, sub_currentPeriodStart = Some 0, sub_currentPeriodEnd = Some 1000,
     sub_canceledAt = None, sub_createdAt = 0, sub_updatedAt = 0 \<rparr>"

definition sample_stripe_sub :: "ident \<Rightarrow> ident \<Rightarrow> string \<Rightarrow> StripeSubscription" where
  "sample_stripe_sub i org st = \<lparr> ss_id = ''sub_'' @ i, ss_customer = ''cus_'' @ org, ss_status = st, ss_organizationId = Some org,
     ss_price = Some ''price_p'', ss_period_start = 1, ss_period_end = 2, ss_canceled_at = None \<rparr>"

definition sample_billing :: "SubscriptionStatus \<Rightarrow> BillingDb" where
  "sample_billing st = \<lparr> bdb_orgs = [sample_org ''o1'' PROFESSIONAL None, sample_org ''o2'' FREE_TRIAL (Some 50)],
     bdb_subs = [sample_sub ''1'' ''o1'' ACTIVE, sample_sub ''2'' ''o1'' st] \<rparr>"

definition deletion :: StripeEvent where
  "deletion = \<lparr> ev_id = ''evt_1'', ev_created = 10, ev_object = SubscriptionDeleted (sample_stripe_sub ''1'' ''o1'' ''canceled'') \<rparr>"

definition sample_billing_state :: BillingState where
  "sample_billing_state = \<lparr> bs_db = sample_billing TRIALING, bs_seen = [] \<rparr>"

definition billing_after :: BillingState where
  "billing_after = snd (stripe_webhook sample_env None (\<lambda>s. if s = ''whsec'' then Some deletion else None)
     (\<lambda>_. None) 20 ''n'' sample_billing_state)"

lemmas billing_samples = sample_env_def sample_org_def sample_sub_def sample_stripe_sub_def sample_billing_def deletion_def
  sample_billing_state_def

lemma billing_after_run:
  "stripe_webhook sample_env None (\<lambda>s. if s = ''whsec'' then Some deletion else None)
     (\<lambda>_. None) 20 ''n'' sample_billing_state = (Response 200 ''received'', billing_after)"
  by (simp add: billing_after_def prod_eq_iff) code_simp

lemma deletion_constructed:
  "constructStripeEvent (\<lambda>s. if s = ''whsec'' then Some deletion else None) (webhook_secrets sample_env) = Some deletion"
  by code_simp

theorem webhook_touches_its_customer_only_witness:
  "\<exists>secret event. secret \<in> set (webhook_secrets sample_env) \<and>
     frame (event_subscription (\<lambda>_. None) event) (event_organization (\<lambda>_. None) event (bs_db sample_billing_state))
       (bs_db sample_billing_state) (bs_db billing_after)"
proof -
  have "bs_db billing_after \<noteq> bs_db sample_billing_state" by code_simp
  from webhook_touches_its_customer_only [OF billing_after_run this] show ?thesis by blast
qed

lemma any_organization: "x \<in> insert None (range Some)" by (cases x) auto

theorem billing_tables_well_formed_witness: "billing_ok (bs_db billing_after)"
proof (rule billing_tables_well_formed)
  show "(billing_step sample_env UNIV)\<^sup>*\<^sup>* sample_billing_state billing_after"
    by (rule r_into_rtranclp, rule billing_step.webhook [OF billing_after_run]) (rule any_organization)
  show "billing_ok (bs_db sample_billing_state)"
    by (simp add: billing_ok_def billing_samples unique_key_def find_org_def List.map_filter_simps)
qed

theorem cancellation_closes_gate_witness:
  "trialGate sample_env 30 (Some ''o1'') (bs_db billing_after) = Status 402 ''trial_expired''"
proof -
  have "Response 200 ''received'' = Response 200 ''received'' \<and>
      trialGate sample_env 30 (Some ''o1'') (bs_db billing_after) = Status 402 ''trial_expired''"
  proof (rule cancellation_closes_gate [OF deletion_constructed _ _ _ _ _ _ _ _ _ _ billing_after_run rtranclp.rtrancl_refl])
    show "ev_object deletion = SubscriptionDeleted (sample_stripe_sub ''1'' ''o1'' ''canceled'')" by (simp add: deletion_def)
    show "fst (markWebhookEventIfNew None 20 (5 * 60 * 1000) (''stripe:'' @ ev_id deletion) (bs_seen sample_billing_state))" by code_simp
    show "\<not> stale (ss_id (sample_stripe_sub ''1'' ''o1'' ''canceled'')) (ev_created deletion) (bs_db sample_billing_state)" by code_simp
    show "orgOfSubscription (sample_stripe_sub ''1'' ''o1'' ''canceled'') (bs_db sample_billing_state) = Some ''o1''" by code_simp
    show "find_sub (ss_id (sample_stripe_sub ''1'' ''o1'' ''canceled'')) (bs_db sample_billing_state) \<noteq> None" by code_simp
    show "find_org ''o1'' (bs_db sample_billing_state) \<noteq> None" by code_simp
    show "\<not> other_active ''o1'' (ss_id (sample_stripe_sub ''1'' ''o1'' ''canceled'')) (bs_db sample_billing_state)" by code_simp
    show "''o1'' \<notin> {}" by simp
  qed (simp_all add: deletion_def isBillingEnabled_def sample_env_def)
  then show ?thesis ..
qed

theorem trialing_subscription_not_counted_witness:
  "\<exists>ok db'. on_subscription_deleted 20 10 (sample_stripe_sub ''1'' ''o1'' ''canceled'') (sample_billing TRIALING) = (ok, db') \<and>
     sample_sub ''2'' ''o1'' TRIALING \<in> set (bdb_subs db') \<and>
     trialGate sample_env 30 (Some ''o1'') db' = Status 402 ''trial_expired''"
proof -
  let ?ss = "sample_stripe_sub ''1'' ''o1'' ''canceled''"
  obtain ok db' where d: "on_subscription_deleted 20 10 ?ss (sample_billing TRIALING) = (ok, db')" by fastforce
  have "sample_sub ''2'' ''o1'' TRIALING \<in> set (bdb_subs db') \<and> trialGate sample_env 30 (Some ''o1'') db' = Status 402 ''trial_expired''"
  proof (rule trialing_subscription_not_counted [OF _ _ _ _ _ _ _ _ _ _ _ _ d])
    show "\<not> stale (ss_id ?ss) 10 (sample_billing TRIALING)" by code_simp
    show "orgOfSubscription ?ss (sample_billing TRIALING) = Some ''o1''" by code_simp
    show "find_sub (ss_id ?ss) (sample_billing TRIALING) \<noteq> None" by code_simp
    show "find_org ''o1'' (sample_billing TRIALING) \<noteq> None" by code_simp
  qed (simp_all add: billing_samples isBillingEnabled_def)
  with d show ?thesis by blast
qed

theorem subscription_follows_stripe_witness:
  "\<exists>db'. on_subscription_updated sample_env (\<lambda>_. Some (sample_stripe_sub ''2'' ''o1'' ''past_due'')) 20 ''n'' 10 ''sub_2''
       (sample_billing ACTIVE) = (True, db') \<and>
     map_option sub_status (find_sub ''sub_2'' db') = Some PAST_DUE"
proof -
  let ?ss = "sample_stripe_sub ''2'' ''o1'' ''past_due''"
  let ?run = "on_subscription_updated sample_env (\<lambda>_. Some ?ss) 20 ''n'' 10 ''sub_2'' (sample_billing ACTIVE)"
  have "fst ?run" by code_simp
  then obtain db' where r: "?run = (True, db')" by (metis prod.collapse)
  have "\<exists>s. find_sub (ss_id ?ss) db' = Some s \<and> mirrors ?ss s \<and> sub_canceledAt s = canceled_at ?ss \<and>
    (usable (sub_status s) \<longrightarrow> map_option (\<lambda>o'. (bo_plan o', bo_trialEndsAt o')) (find_org ''o1'' db') = Some (plan_of sample_env ?ss, None))"
  proof (rule subscription_follows_stripe [OF r])
    show "\<not> stale ''sub_2'' 10 (sample_billing ACTIVE)" by code_simp
    show "orgOfSubscription ?ss (sample_billing ACTIVE) = Some ''o1''" by code_simp
  qed simp_all
  then show ?thesis using r by (auto simp: mirrors_def sample_stripe_sub_def mapStripeStatus_def)
qed

definition buyer :: AuthRequest where
  "buyer = \<lparr> req_organizationId = Some ''o2'', req_userId = Some ''u'', req_userRole = Some OWNER \<rparr>"

theorem checkout_buys_requested_plan_witness:
  "\<exists>db2. on_checkout_completed sample_env (\<lambda>_. Some (sample_stripe_sub ''3'' ''o2'' ''active'')) 20 ''n'' (Some ''sub_3'') None
       (sample_billing ACTIVE) = (True, db2) \<and>
     map_option (\<lambda>o'. (bo_plan o', bo_trialEndsAt o')) (find_org ''o2'' db2) = Some (PROFESSIONAL, None)"
proof -
  let ?ss = "sample_stripe_sub ''3'' ''o2'' ''active''"
  let ?session = "\<lparr> cs_customer = ''cus_o2'', cs_price = ''price_p'', cs_organizationId = ''o2'', cs_plan = PROFESSIONAL \<rparr>"
  let ?run = "on_checkout_completed sample_env (\<lambda>_. Some ?ss) 20 ''n'' (Some ''sub_3'') None (sample_billing ACTIVE)"
  have "fst ?run" by code_simp
  then obtain db2 where r: "?run = (True, db2)" by (metis prod.collapse)
  have c: "checkout_route sample_env ''cus_new'' buyer (Some ''PROFESSIONAL'') (sample_billing ACTIVE) = (Inr ?session, sample_billing ACTIVE)"
    by code_simp
  have "prices_differ sample_env" by code_simp
  from checkout_buys_requested_plan [OF this c _ _ _ _ r, of ?ss]
  have "map_option (\<lambda>o'. (bo_plan o', bo_trialEndsAt o')) (find_org ''o2'' db2) = Some (PROFESSIONAL, None)"
    by (simp add: sample_stripe_sub_def)
  with r show ?thesis by blast
qed

theorem failed_event_is_lost_witness:
  "\<exists>st1 st2. stripe_webhook sample_env None (\<lambda>_. Some (deletion\<lparr> ev_object := InvoicePaid (Some ''sub_1'') \<rparr>)) (\<lambda>_. None) 20 ''n''
       sample_billing_state = (Response 500 ''webhook_processing_failed'', st1) \<and>
     stripe_webhook sample_env None (\<lambda>_. Some (deletion\<lparr> ev_object := InvoicePaid (Some ''sub_1'') \<rparr>))
       (\<lambda>_. Some (sample_stripe_sub ''1'' ''o1'' ''active'')) 60000 ''n'' st1 = (Response 200 ''deduplicated'', st2)"
proof -
  let ?verify = "\<lambda>_. Some (deletion\<lparr> ev_object := InvoicePaid (Some ''sub_1'') \<rparr>)"
  let ?run = "stripe_webhook sample_env None ?verify (\<lambda>_. None) 20 ''n'' sample_billing_state"
  have "fst ?run = Response 500 ''webhook_processing_failed''" by code_simp
  then obtain st1 where r: "?run = (Response 500 ''webhook_processing_failed'', st1)" by (metis prod.collapse)
  have "jm_wf (bs_seen sample_billing_state)" by (simp add: sample_billing_state_def)
  from failed_event_is_lost [OF this _ _ _ r, of 60000 "\<lambda>_. Some (sample_stripe_sub ''1'' ''o1'' ''active'')" "''n''"] r
  show ?thesis by auto
qed

theorem late_cancellation_ignored_witness:
  "process_event sample_env (\<lambda>_. None) 20 ''n'' (deletion\<lparr> ev_created := - 10 \<rparr>) (sample_billing ACTIVE) = (True, sample_billing ACTIVE)"
proof (rule late_cancellation_ignored)
  show "find_sub (ss_id (sample_stripe_sub ''1'' ''o1'' ''canceled'')) (sample_billing ACTIVE) = Some (sample_sub ''1'' ''o1'' ACTIVE)"
    by code_simp
qed (simp_all add: deletion_def sample_sub_def)

theorem paid_invoice_revives_subscription_witness:
  "\<exists>db'. process_event sample_env (\<lambda>_. Some (sample_stripe_sub ''2'' ''o1'' ''canceled'')) 20 ''n''
       (deletion\<lparr> ev_object := InvoicePaid (Some ''sub_2'') \<rparr>) (sample_billing CANCELED) = (True, db') \<and>
     map_option sub_status (find_sub ''sub_2'' db') = Some ACTIVE"
proof -
  have s: "find_sub ''sub_2'' (sample_billing CANCELED) = Some (sample_sub ''2'' ''o1'' CANCELED)" by code_simp
  have "find_org (sub_organizationId (sample_sub ''2'' ''o1'' CANCELED)) (sample_billing CANCELED) \<noteq> None" by code_simp
  from paid_invoice_revives_subscription [OF s _ _ this, of "\<lambda>_. Some (sample_stripe_sub ''2'' ''o1'' ''canceled'')"
      "sample_stripe_sub ''2'' ''o1'' ''canceled''" "deletion\<lparr> ev_object := InvoicePaid (Some ''sub_2'') \<rparr>" sample_env 20 "''n''"]
  show ?thesis by (auto simp: deletion_def)
qed

end
