(* ===== verification/Usage_Reporter.thy ===== *)
theory Usage_Reporter
  imports Billing Utc_Calendar
begin

text \<open>
  \<open>src/services/usage-reporter.ts\<close>: the daily job that adds up transcript minutes, keeps a usage record for
  every organization and day, and reports it to Stripe. A call of Stripe may throw, and the write that notes
  a report may be lost; both are parameters.
\<close>

section \<open>Aggregation\<close>

record UsageCall =
  uc_organizationId :: ident
  uc_duration :: "int option"
  uc_wordCount :: "int option"
  uc_createdAt :: millis

definition dayStart :: "millis \<Rightarrow> millis" where
  "dayStart date = day_of date * ms_per_day"

definition dayEnd :: "millis \<Rightarrow> millis" where
  "dayEnd date = dayStart date + ms_per_day - 1"

text \<open>The length of a call in seconds; 150 words a minute where it is not known.\<close>

definition durationSeconds :: "UsageCall \<Rightarrow> int" where
  "durationSeconds c =
     (let estimate = (case uc_wordCount c of None \<Rightarrow> 0 | Some w \<Rightarrow> \<lceil>(real_of_int w / 150) * 60\<rceil>) in
      case uc_duration c of None \<Rightarrow> estimate | Some d \<Rightarrow> if d = 0 then estimate else d)"

definition add_call :: "UsageCall \<Rightarrow> (ident, int \<times> nat) jsmap \<Rightarrow> (ident, int \<times> nat) jsmap" where
  "add_call c orgMap =
     (case (case jm_get orgMap (uc_organizationId c) of None \<Rightarrow> (0, 0) | Some e \<Rightarrow> e) of
        (totalSeconds, callCount) \<Rightarrow> jm_set (uc_organizationId c) (totalSeconds + durationSeconds c, callCount + 1) orgMap)"

definition counted_call :: "millis \<Rightarrow> UsageCall \<Rightarrow> bool" where
  "counted_call date c \<longleftrightarrow> uc_wordCount c \<noteq> None \<and> dayStart date \<le> uc_createdAt c \<and> uc_createdAt c \<le> dayEnd date"

definition aggregateDailyUsage :: "millis \<Rightarrow> UsageCall list \<Rightarrow> (ident \<times> int \<times> nat) list" where
  "aggregateDailyUsage date calls =
     map (\<lambda>(organizationId, totalSeconds, callCount). (organizationId, \<lceil>real_of_int totalSeconds / 60\<rceil>, callCount))
       (fold add_call (filter (counted_call date) calls) [])"

lemma add_call_wf: "jm_wf m \<Longrightarrow> jm_wf (add_call c m)"
  by (auto simp: add_call_def jm.wf_put split: prod.splits)

definition entry_for :: "ident \<Rightarrow> UsageCall list \<Rightarrow> (int \<times> nat) option" where
  "entry_for org calls =
     (let own = filter (\<lambda>c. uc_organizationId c = org) calls in
      if own = [] then None else Some (sum_list (map durationSeconds own), length own))"

lemma fold_add_call:
  "jm_wf (fold add_call calls []) \<and> jm_get (fold add_call calls []) org = entry_for org calls"
proof (induction calls rule: rev_induct)
  case (snoc c calls)
  then show ?case
    by (auto simp: add_call_wf add_call_def jm_get_set entry_for_def Let_def jm.wf_put split: prod.splits option.splits if_splits)
qed (simp add: entry_for_def)

text \<open>
  The job counts every organization that has a call with a transcript on the day, once, with the number of
  its calls and the minutes of all of them together, rounded up.
\<close>

theorem daily_usage_correct:
  "distinct (map fst (aggregateDailyUsage date calls)) \<and>
   ((org, minutes, n) \<in> set (aggregateDailyUsage date calls) \<longleftrightarrow>
     n = length (filter (\<lambda>c. uc_organizationId c = org) (filter (counted_call date) calls)) \<and> 0 < n \<and>
     minutes = \<lceil>real_of_int (sum_list (map durationSeconds (filter (\<lambda>c. uc_organizationId c = org) (filter (counted_call date) calls)))) / 60\<rceil>)"
proof -
  let ?m = "fold add_call (filter (counted_call date) calls) []"
  have wf: "jm_wf ?m" and get: "jm_get ?m org = entry_for org (filter (counted_call date) calls)" for org
    using fold_add_call by blast+
  have "map fst (aggregateDailyUsage date calls) = map fst ?m"
    by (simp add: aggregateDailyUsage_def case_prod_unfold)
  with wf have d: "distinct (map fst (aggregateDailyUsage date calls))" by (simp add: jm_wf_def)
  have mem: "(org, e) \<in> set ?m \<longleftrightarrow> entry_for org (filter (counted_call date) calls) = Some e" for e
    using wf get [of org] map_of_eq_Some_iff [of ?m org e] by (simp add: jm_wf_def jm_get_def)
  have "(org, minutes, n) \<in> set (aggregateDailyUsage date calls) \<longleftrightarrow>
      (\<exists>s. (org, s, n) \<in> set ?m \<and> minutes = \<lceil>real_of_int s / 60\<rceil>)"
    by (force simp: aggregateDailyUsage_def)
  also have "\<dots> \<longleftrightarrow> n = length (filter (\<lambda>c. uc_organizationId c = org) (filter (counted_call date) calls)) \<and> 0 < n \<and>
     minutes = \<lceil>real_of_int (sum_list (map durationSeconds (filter (\<lambda>c. uc_organizationId c = org) (filter (counted_call date) calls)))) / 60\<rceil>"
    unfolding mem entry_for_def Let_def by auto
  finally show ?thesis using d by blast
qed

section \<open>Reporting\<close>

record UsageRecord =
  ur_id :: ident
  ur_organizationId :: ident
  ur_metric :: string
  ur_quantity :: int
  ur_periodStart :: millis
  ur_periodEnd :: millis
  ur_reportedToStripe :: bool
  ur_stripeRecordId :: "ident option"

text \<open>The table, and what Stripe has been told: organization, day and minutes.\<close>

record ReportState =
  rs_records :: "UsageRecord list"
  rs_told :: "(ident \<times> millis \<times> int) list"

record ReportWorld =
  rw_env :: env
  rw_db :: BillingDb
  rw_active :: "ident \<Rightarrow> ident option"
  rw_create :: "ident \<Rightarrow> int \<Rightarrow> ident option"
  rw_lost :: "ident \<Rightarrow> bool"
  rw_newId :: "ident \<Rightarrow> ident"

definition usage_key :: "ident \<Rightarrow> millis \<Rightarrow> UsageRecord \<Rightarrow> bool" where
  "usage_key org key r \<longleftrightarrow> ur_organizationId r = org \<and> ur_metric r = ''TRANSCRIPT_MINUTES'' \<and> ur_periodStart r = key"

text \<open>Find or create the record of the day; \<open>None\<close>: the create throws.\<close>

definition usage_record :: "ReportWorld \<Rightarrow> millis \<Rightarrow> ident \<Rightarrow> int \<Rightarrow> UsageRecord list \<Rightarrow> (UsageRecord \<times> UsageRecord list) option" where
  "usage_record w dateKey org minutes records =
     (case List.find (usage_key org dateKey) records of
        Some existing \<Rightarrow>
          Some (existing\<lparr> ur_quantity := minutes \<rparr>,
            update_many (\<lambda>r. ur_id r = ur_id existing) (\<lambda>r. r\<lparr> ur_quantity := minutes \<rparr>) records)
      | None \<Rightarrow>
          let r = \<lparr> ur_id = rw_newId w org, ur_organizationId = org, ur_metric = ''TRANSCRIPT_MINUTES'', ur_quantity = minutes,
                    ur_periodStart = dateKey, ur_periodEnd = dayEnd dateKey, ur_reportedToStripe = False, ur_stripeRecordId = None \<rparr>
          in if \<exists>r' \<in> set records. ur_id r' = ur_id r then None else Some (r, records @ [r]))"

datatype outcome = Skipped | Reported | NotReported | Failed

definition report_org :: "ReportWorld \<Rightarrow> millis \<Rightarrow> ident \<times> int \<times> nat \<Rightarrow> ReportState \<Rightarrow> outcome \<times> ReportState" where
  "report_org w dateKey usage st =
     (case usage of (org, minutes, _) \<Rightarrow>
      case usage_record w dateKey org minutes (rs_records st) of
        None \<Rightarrow> (Failed, st)
      | Some (r, records) \<Rightarrow>
          let st1 = st\<lparr> rs_records := records \<rparr> in
          if ur_reportedToStripe r then (Skipped, st1)
          else case reportUsageToStripe (rw_env w) (rw_active w) (rw_db w) org (real_of_int minutes) of
            None \<Rightarrow> (NotReported, st1)
          | Some (item, quantity) \<Rightarrow>
              (case rw_create w item quantity of
                 None \<Rightarrow> (Failed, st1)
               | Some stripeRecordId \<Rightarrow>
                   let st2 = st1\<lparr> rs_told := rs_told st1 @ [(org, dateKey, quantity)] \<rparr> in
                   if stripeRecordId = [] then (NotReported, st2)
                   else if rw_lost w org then (Failed, st2)
                   else (Reported, st2\<lparr> rs_records := update_many (\<lambda>r'. ur_id r' = ur_id r)
                          (\<lambda>r'. r'\<lparr> ur_reportedToStripe := True, ur_stripeRecordId := Some stripeRecordId \<rparr>) (rs_records st2) \<rparr>)))"

fun report_all :: "ReportWorld \<Rightarrow> millis \<Rightarrow> (ident \<times> int \<times> nat) list \<Rightarrow> ReportState \<Rightarrow> (nat \<times> nat) \<times> ReportState" where
  "report_all w dateKey [] st = ((0, 0), st)"
| "report_all w dateKey (u # us) st =
     (case report_org w dateKey u st of (out, st1) \<Rightarrow>
      case report_all w dateKey us st1 of ((reported, errors), st2) \<Rightarrow>
        ((reported + (if out = Reported then 1 else 0), errors + (if out = Failed then 1 else 0)), st2))"

definition runDailyUsageReport :: "ReportWorld \<Rightarrow> millis \<Rightarrow> millis option \<Rightarrow> UsageCall list \<Rightarrow> ReportState
    \<Rightarrow> (nat \<times> nat \<times> nat) \<times> ReportState" where
  "runDailyUsageReport w now targetDate calls st =
     (if \<not> isBillingEnabled (rw_env w) then ((0, 0, 0), st)
      else
        let date = (case targetDate of Some d \<Rightarrow> d | None \<Rightarrow> now - 24 * 60 * 60 * 1000);
            orgUsages = aggregateDailyUsage date calls in
        case report_all w (dayStart date) orgUsages st of
          ((reported, errors), st') \<Rightarrow> ((length orgUsages, reported, errors), st'))"

section \<open>At most one report\<close>

definition told :: "ident \<Rightarrow> millis \<Rightarrow> ReportState \<Rightarrow> nat" where
  "told org key st = length (filter (\<lambda>(o', k, q). o' = org \<and> k = key) (rs_told st))"

text \<open>
  Ids and days are unique, and Stripe has been told of a day of an organization exactly if its record is
  marked, and then once.
\<close>

definition reports_ok :: "ReportState \<Rightarrow> bool" where
  "reports_ok st \<longleftrightarrow> unique_key ur_id (rs_records st) \<and>
     unique_key (\<lambda>r. (ur_organizationId r, ur_metric r, ur_periodStart r)) (rs_records st) \<and>
     (\<forall>org key. told org key st =
       (case List.find (usage_key org key) (rs_records st) of None \<Rightarrow> 0 | Some r \<Rightarrow> if ur_reportedToStripe r then 1 else 0))"

lemma told_records [simp]: "told org key (st\<lparr> rs_records := records \<rparr>) = told org key st" by (simp add: told_def)

lemma told_add [simp]: "told o' k (st\<lparr> rs_told := rs_told st @ [(org, key, q)] \<rparr>) = told o' k st + (if o' = org \<and> k = key then 1 else 0)"
  by (auto simp: told_def)

lemma usage_record_ok:
  assumes "reports_ok st" "usage_record w key org minutes (rs_records st) = Some (r, records)"
  shows "reports_ok (st\<lparr> rs_records := records \<rparr>) \<and> r \<in> set records \<and> usage_key org key r"
proof (cases "List.find (usage_key org key) (rs_records st)")
  case None
  with assms(2) have r: "r = \<lparr> ur_id = rw_newId w org, ur_organizationId = org, ur_metric = ''TRANSCRIPT_MINUTES'', ur_quantity = minutes,
      ur_periodStart = key, ur_periodEnd = dayEnd key, ur_reportedToStripe = False, ur_stripeRecordId = None \<rparr>"
    "records = rs_records st @ [r]" "\<forall>r' \<in> set (rs_records st). ur_id r' \<noteq> ur_id r"
    by (auto simp: usage_record_def Let_def split: if_splits)
  have fresh: "\<forall>r' \<in> set (rs_records st). \<not> usage_key org key r'" using None by (simp add: find_None_iff)
  have uk: "usage_key o' k r \<longleftrightarrow> o' = org \<and> k = key" for o' k by (auto simp: usage_key_def r(1))
  have t: "told o' k st = (case List.find (usage_key o' k) (rs_records st) of None \<Rightarrow> 0 | Some r \<Rightarrow> if ur_reportedToStripe r then 1 else 0)" for o' k
    using assms(1) by (simp add: reports_ok_def)
  have nr: "\<not> ur_reportedToStripe r" by (simp add: r(1))
  have "(ur_organizationId r, ur_metric r, ur_periodStart r) \<notin> (\<lambda>r. (ur_organizationId r, ur_metric r, ur_periodStart r)) ` set (rs_records st)"
    using fresh by (auto simp: usage_key_def r(1))
  moreover have "ur_id r \<notin> ur_id ` set (rs_records st)" using r(3) by auto
  ultimately show ?thesis
    using assms(1) uk nr None by (auto simp: reports_ok_def r(2) unique_key_def find_append t split: option.split)
next
  case (Some e)
  then have e: "e \<in> set (rs_records st)" "usage_key org key e" by (auto dest: find_SomeD)
  let ?f = "\<lambda>r. r\<lparr> ur_quantity := minutes \<rparr>"
  from Some assms(2) have r: "r = ?f e" "records = update_many (\<lambda>r'. ur_id r' = ur_id e) ?f (rs_records st)"
    by (simp_all add: usage_record_def)
  have "List.find (usage_key o' k) records = map_option (\<lambda>r'. if ur_id r' = ur_id e then ?f r' else r') (List.find (usage_key o' k) (rs_records st))" for o' k
    unfolding r(2) by (intro find_update_many) (simp add: usage_key_def)
  then have "reports_ok (st\<lparr> rs_records := records \<rparr>)"
    using assms(1) by (auto simp: reports_ok_def r(2) unique_key_update_many split: option.split)
  moreover have "r \<in> set records" using e(1) by (auto simp: r set_update_many)
  ultimately show ?thesis using e(2) by (simp add: r(1) usage_key_def)
qed

lemma report_org_ok:
  assumes "reports_ok st" "report_org w key u st = (out, st')" "\<not> rw_lost w (fst u)" "\<And>item q. rw_create w item q \<noteq> Some []"
  shows "reports_ok st'"
proof -
  obtain org minutes n where u: "u = (org, minutes, n)" by (cases u)
  show ?thesis
  proof (cases "usage_record w key org minutes (rs_records st)")
    case None
    with assms(1,2) show ?thesis by (simp add: report_org_def u)
  next
    case (Some p)
    then obtain r records where p: "usage_record w key org minutes (rs_records st) = Some (r, records)" by (cases p) auto
    let ?st1 = "st\<lparr> rs_records := records \<rparr>"
    let ?f = "\<lambda>i r'. r'\<lparr> ur_reportedToStripe := True, ur_stripeRecordId := Some i \<rparr>"
    from usage_record_ok [OF assms(1) p] have ok: "reports_ok ?st1" and r: "r \<in> set records" "usage_key org key r" by simp_all
    have one: "List.find (usage_key org key) records = Some r"
    proof -
      have "unique_key (\<lambda>r. (ur_organizationId r, ur_metric r, ur_periodStart r)) records" using ok by (simp add: reports_ok_def)
      note found = unique_key_find [OF this r(1)]
      have eq: "usage_key org key = (\<lambda>s. (ur_organizationId s, ur_metric s, ur_periodStart s) =
          (ur_organizationId r, ur_metric r, ur_periodStart r))"
        using r(2) by (auto simp: usage_key_def)
      show ?thesis unfolding eq by (rule found)
    qed
    have fin: "reports_ok (?st1\<lparr> rs_told := rs_told ?st1 @ [(org, key, q)], rs_records := update_many (\<lambda>r'. ur_id r' = ur_id r) (?f i) records \<rparr>)"
      if "\<not> ur_reportedToStripe r" for q i
    proof -
      have f: "List.find (usage_key o' k) (update_many (\<lambda>r'. ur_id r' = ur_id r) (?f i) records) =
          map_option (\<lambda>r'. if ur_id r' = ur_id r then ?f i r' else r') (List.find (usage_key o' k) records)" for o' k
        by (intro find_update_many) (simp add: usage_key_def)
      have same: "r' = r" if "List.find (usage_key o' k) records = Some r'" "ur_id r' = ur_id r" for o' k r'
        using that ok r(1) by (auto simp: reports_ok_def dest!: find_SomeD dest: unique_key_eq)
      let ?st2 = "?st1\<lparr> rs_told := rs_told ?st1 @ [(org, key, q)], rs_records := update_many (\<lambda>r'. ur_id r' = ur_id r) (?f i) records \<rparr>"
      have t1: "told o' k st = (case List.find (usage_key o' k) records of None \<Rightarrow> 0 | Some r \<Rightarrow> if ur_reportedToStripe r then 1 else 0)" for o' k
        using ok by (simp add: reports_ok_def)
      have at: "o' = org \<and> k = key" if "List.find (usage_key o' k) records = Some r" for o' k
        using find_SomeD [OF that] r(2) by (simp add: usage_key_def)
      have "told o' k ?st2 = (case List.find (usage_key o' k) (rs_records ?st2) of None \<Rightarrow> 0 | Some r \<Rightarrow> if ur_reportedToStripe r then 1 else 0)" for o' k
      proof (cases "List.find (usage_key o' k) records")
        case None
        with one have "\<not> (o' = org \<and> k = key)" by auto
        with None show ?thesis by (simp add: t1 f)
      next
        case (Some r')
        show ?thesis
        proof (cases "ur_id r' = ur_id r")
          case True
          with same [OF Some] Some have "r' = r" by simp
          with Some at [of o' k] that show ?thesis by (simp add: t1 f)
        next
          case False
          with one Some have "\<not> (o' = org \<and> k = key)" by auto
          with Some False show ?thesis by (simp add: t1 f)
        qed
      qed
      moreover have "unique_key ur_id (rs_records ?st2)"
          "unique_key (\<lambda>r. (ur_organizationId r, ur_metric r, ur_periodStart r)) (rs_records ?st2)"
        using ok by (simp_all add: reports_ok_def unique_key_update_many)
      ultimately show ?thesis unfolding reports_ok_def by blast
    qed
    show ?thesis
      using assms(2-4) p ok fin by (auto simp: report_org_def u Let_def split: if_splits option.splits)
  qed
qed

lemma report_all_ok:
  assumes "reports_ok st" "\<And>org. \<not> rw_lost w org" "\<And>item q. rw_create w item q \<noteq> Some []"
  shows "reports_ok (snd (report_all w key us st))"
  using assms(1)
proof (induction us arbitrary: st)
  case (Cons u us)
  obtain out st1 where r: "report_org w key u st = (out, st1)" by fastforce
  from report_org_ok [OF Cons.prems r] assms(2,3) have "reports_ok st1" by simp
  from Cons.IH [OF this] show ?case by (cases "report_all w key us st1") (auto simp: r split: prod.splits)
qed simp

inductive report_runs :: "ReportState \<Rightarrow> ReportState \<Rightarrow> bool" where
  refl: "report_runs st st"
| run: "report_runs st st1 \<Longrightarrow> runDailyUsageReport w now date calls st1 = (counts, st2) \<Longrightarrow>
    (\<And>org. \<not> rw_lost w org) \<Longrightarrow> (\<And>item q. rw_create w item q \<noteq> Some []) \<Longrightarrow> report_runs st st2"

text \<open>
  Stripe is told of a day of an organization at most once, however often and for whatever days the job runs, and
  exactly if the record of that day is marked; the day has one record. Stripe may fail at any time; the
  write that notes a report must not.
\<close>

theorem usage_reported_once:
  assumes "report_runs st st'" "reports_ok st"
  shows "told org key st' \<le> 1 \<and> (told org key st' = 1 \<longleftrightarrow> (\<exists>r \<in> set (rs_records st'). usage_key org key r \<and> ur_reportedToStripe r)) \<and>
    length (filter (usage_key org key) (rs_records st')) \<le> 1"
proof -
  have ok: "reports_ok st'"
    using assms
  proof (induction rule: report_runs.induct)
    case (run st st1 w now date calls counts st2)
    then show ?case
      using report_all_ok [of st1 w] by (auto simp: runDailyUsageReport_def Let_def split: if_splits prod.splits) (metis snd_conv)
  qed
  let ?k = "\<lambda>r. (ur_organizationId r, ur_metric r, ur_periodStart r)"
  from ok have u: "unique_key ?k (rs_records st')" by (simp add: reports_ok_def)
  have t: "told org key st' = (case List.find (usage_key org key) (rs_records st') of None \<Rightarrow> 0 | Some r \<Rightarrow> if ur_reportedToStripe r then 1 else 0)"
    using ok by (simp add: reports_ok_def)
  have eq: "r = s" if "r \<in> set (rs_records st')" "s \<in> set (rs_records st')" "usage_key org key r" "usage_key org key s" for r s
    using unique_key_eq [OF u that(1,2)] that(3,4) by (simp add: usage_key_def)
  have "length (filter (usage_key org key) (rs_records st')) \<le> 1"
  proof (cases "filter (usage_key org key) (rs_records st')")
    case (Cons r rs)
    have "distinct (filter (usage_key org key) (rs_records st'))" using u by (simp add: unique_key_def distinct_map)
    moreover have "s = r" if "s \<in> set rs" for s
    proof (rule eq)
      have "s \<in> set (filter (usage_key org key) (rs_records st'))" "r \<in> set (filter (usage_key org key) (rs_records st'))"
        using Cons that by simp_all
      then show "s \<in> set (rs_records st')" "r \<in> set (rs_records st')" "usage_key org key s" "usage_key org key r" by simp_all
    qed
    ultimately have "rs = []" using Cons by (cases rs) auto
    with Cons show ?thesis by simp
  qed simp
  moreover have "told org key st' = 1 \<longleftrightarrow> (\<exists>r \<in> set (rs_records st'). usage_key org key r \<and> ur_reportedToStripe r)"
    using t eq by (auto simp: find_None_iff dest!: find_SomeD split: option.splits if_splits)
  moreover have "told org key st' \<le> 1" using t by (auto split: option.splits)
  ultimately show ?thesis by blast
qed

text \<open>
  Minutes that are found after a day has been reported, by a second run for the day, change its record but are
  never billed.
\<close>

theorem late_minutes_not_billed:
  assumes "List.find (usage_key org key) (rs_records st) = Some r" "ur_reportedToStripe r"
  shows "report_org w key (org, minutes, n) st =
    (Skipped, st\<lparr> rs_records := update_many (\<lambda>r'. ur_id r' = ur_id r) (\<lambda>r'. r'\<lparr> ur_quantity := minutes \<rparr>) (rs_records st) \<rparr>)"
  using assms by (simp add: report_org_def usage_record_def)

text \<open>If the write that notes a report is lost, the next run bills the day again.\<close>

theorem lost_mark_bills_twice:
  assumes "List.find (usage_key org key) (rs_records st) = Some r" "\<not> ur_reportedToStripe r"
    and "reportUsageToStripe (rw_env w) (rw_active w) (rw_db w) org (real_of_int minutes) = Some (item, q)"
    and "rw_create w item q = Some i" "i \<noteq> []" "rw_lost w org"
    and "report_org w key (org, minutes, n) st = (out, st1)" "report_org w key (org, minutes, n) st1 = (out2, st2)"
  shows "told org key st2 = told org key st + 2"
proof -
  let ?f = "\<lambda>r'. r'\<lparr> ur_quantity := minutes \<rparr>"
  let ?recs = "update_many (\<lambda>r'. ur_id r' = ur_id r) ?f (rs_records st)"
  have s1: "st1 = st\<lparr> rs_records := ?recs, rs_told := rs_told st @ [(org, key, q)] \<rparr>"
    using assms by (simp add: report_org_def usage_record_def)
  have "List.find (usage_key org key) ?recs = map_option (\<lambda>r'. if ur_id r' = ur_id r then ?f r' else r') (List.find (usage_key org key) (rs_records st))"
    by (intro find_update_many) (simp add: usage_key_def)
  then have f: "List.find (usage_key org key) (rs_records st1) = Some (?f r)" using assms(1) by (simp add: s1)
  have "rs_told st2 = rs_told st1 @ [(org, key, q)]"
    using assms(2-6,8) f by (auto simp: report_org_def usage_record_def)
  then show ?thesis by (simp add: told_def s1)
qed

section \<open>Concrete runs\<close>

definition sample_world :: ReportWorld where
  "sample_world =
     \<lparr> rw_env = map_of [(''BILLING_ENABLED'', ''true'')],
       rw_db = \<lparr> bdb_orgs = [\<lparr> bo_id = ''o1'', bo_name = ''Acme'', bo_stripeCustomerId = Some ''cus'', bo_plan = STARTER,
         bo_billingChannel = SELF_SERVE, bo_trialEndsAt = None \<rparr>], bdb_subs = [] \<rparr>,
       rw_active = (\<lambda>_. Some ''item''), rw_create = (\<lambda>_ _. Some ''mbur''), rw_lost = (\<lambda>_. False), rw_newId = (\<lambda>o'. ''r'' @ o') \<rparr>"

definition sample_calls :: "UsageCall list" where
  "sample_calls = [\<lparr> uc_organizationId = ''o1'', uc_duration = Some 90, uc_wordCount = Some 10, uc_createdAt = 5 \<rparr>,
     \<lparr> uc_organizationId = ''o1'', uc_duration = None, uc_wordCount = Some 300, uc_createdAt = 6 \<rparr>]"

definition no_reports :: ReportState where
  "no_reports = \<lparr> rs_records = [], rs_told = [] \<rparr>"

definition first_run :: ReportState where
  "first_run = snd (runDailyUsageReport sample_world 0 (Some 100) sample_calls no_reports)"

lemma sample_aggregate: "aggregateDailyUsage 100 sample_calls = [(''o1'', 4, 2)]"
  by (simp add: aggregateDailyUsage_def sample_calls_def counted_call_def dayStart_def dayEnd_def day_of_def ms_per_day_def
      add_call_def durationSeconds_def jm_get_def)

theorem daily_usage_correct_witness:
  "(''o1'', 4, 2) \<in> set (aggregateDailyUsage 100 sample_calls) \<and>
   length (filter (\<lambda>c. uc_organizationId c = ''o1'') (filter (counted_call 100) sample_calls)) = 2"
  using daily_usage_correct [of 100 sample_calls "''o1''" 4 2] sample_aggregate by auto

lemma first_run_eq:
  "first_run = \<lparr> rs_records = [\<lparr> ur_id = ''ro1'', ur_organizationId = ''o1'', ur_metric = ''TRANSCRIPT_MINUTES'', ur_quantity = 4,
     ur_periodStart = 0, ur_periodEnd = 86399999, ur_reportedToStripe = True, ur_stripeRecordId = Some ''mbur'' \<rparr>],
     rs_told = [(''o1'', 0, 4)] \<rparr>"
  by (simp add: first_run_def runDailyUsageReport_def sample_aggregate no_reports_def report_org_def usage_record_def
      reportUsageToStripe_def sample_world_def isBillingEnabled_def find_org_def dayStart_def dayEnd_def day_of_def ms_per_day_def
      ceil_minutes_def Let_def)

theorem usage_reported_once_witness:
  "told ''o1'' 0 first_run = 1 \<and> length (filter (usage_key ''o1'' 0) (rs_records first_run)) \<le> 1"
proof -
  have "report_runs no_reports first_run"
    by (rule report_runs.run [OF report_runs.refl, of sample_world 0 "Some 100" sample_calls _
        "fst (runDailyUsageReport sample_world 0 (Some 100) sample_calls no_reports)"])
      (simp_all add: first_run_def sample_world_def)
  moreover have "reports_ok no_reports" by (simp add: reports_ok_def no_reports_def unique_key_def told_def)
  ultimately show ?thesis using usage_reported_once [of no_reports first_run "''o1''" 0]
    by (simp add: first_run_eq usage_key_def)
qed

theorem late_minutes_not_billed_witness:
  "\<exists>st. report_org sample_world 0 (''o1'', 9, 3) first_run = (Skipped, st) \<and> rs_told st = [(''o1'', 0, 4)]"
proof -
  from late_minutes_not_billed [of "''o1''" 0 first_run "hd (rs_records first_run)" sample_world 9 3]
  show ?thesis by (simp add: first_run_eq usage_key_def)
qed

theorem lost_mark_bills_twice_witness:
  "\<exists>out st1 out2 st2. report_org (sample_world\<lparr> rw_lost := \<lambda>_. True \<rparr>) 0 (''o1'', 4, 2)
       (first_run\<lparr> rs_records := map (\<lambda>r. r\<lparr> ur_reportedToStripe := False \<rparr>) (rs_records first_run), rs_told := [] \<rparr>) = (out, st1) \<and>
     report_org (sample_world\<lparr> rw_lost := \<lambda>_. True \<rparr>) 0 (''o1'', 4, 2) st1 = (out2, st2) \<and> told ''o1'' 0 st2 = 2"
proof -
  let ?w = "sample_world\<lparr> rw_lost := \<lambda>_. True \<rparr>"
  let ?st = "first_run\<lparr> rs_records := map (\<lambda>r. r\<lparr> ur_reportedToStripe := False \<rparr>) (rs_records first_run), rs_told := [] \<rparr>"
  obtain out st1 where r1: "report_org ?w 0 (''o1'', 4, 2) ?st = (out, st1)" by fastforce
  obtain out2 st2 where r2: "report_org ?w 0 (''o1'', 4, 2) st1 = (out2, st2)" by fastforce
  have "told ''o1'' 0 st2 = told ''o1'' 0 ?st + 2"
    by (rule lost_mark_bills_twice [OF _ _ _ _ _ _ r1 r2, of "(hd (rs_records first_run))\<lparr> ur_reportedToStripe := False \<rparr>" "''item''" 4 "''mbur''"])
      (simp_all add: first_run_eq usage_key_def sample_world_def reportUsageToStripe_def isBillingEnabled_def find_org_def ceil_minutes_def)
  with r1 r2 show ?thesis by (simp add: told_def)
qed

end
