(* ===== verification/Http_Limits.thy ===== *)
theory Http_Limits
  imports Js_Map
begin

text \<open>
  \<open>src/middleware/rate-limiter.ts\<close>: requests per address in fixed windows, in memory or, where a Redis
  server answers, by its counters. The map is the state; the timer that removes entries which have
  expired may run at any time.
\<close>

section \<open>The limiter\<close>

record RateLimiterOptions =
  rlo_maxRequests :: nat
  rlo_windowMs :: int
  rlo_message :: "string option"
  rlo_name :: "string option"

text \<open>An entry: its count and the end of its window.\<close>

type_synonym limits = "(string, nat \<times> millis) jsmap"

text \<open>The answer: pass, or 429 with the seconds to wait.\<close>

datatype limit_answer = Pass | TooMany int

definition ceil_div :: "int \<Rightarrow> int \<Rightarrow> int" where
  "ceil_div a b = - ((- a) div b)"

definition inMemoryCheck :: "RateLimiterOptions \<Rightarrow> millis \<Rightarrow> string \<Rightarrow> limits \<Rightarrow> limit_answer \<times> limits" where
  "inMemoryCheck opts now ip store =
     (case jm_get store ip of
        None \<Rightarrow> (Pass, jm_set ip (1, now + rlo_windowMs opts) store)
      | Some (count, resetAt) \<Rightarrow>
          if now > resetAt then (Pass, jm_set ip (1, now + rlo_windowMs opts) store)
          else
            let store' = jm_set ip (count + 1, resetAt) store in
            if count + 1 > rlo_maxRequests opts then (TooMany (ceil_div (resetAt - now) 1000), store')
            else (Pass, store'))"

definition cleanup :: "millis \<Rightarrow> limits \<Rightarrow> limits" where
  "cleanup now store = jm_prune (\<lambda>(count, resetAt). now > resetAt) store"

definition ttlSeconds :: "RateLimiterOptions \<Rightarrow> int" where
  "ttlSeconds opts = max 1 (ceil_div (rlo_windowMs opts) 1000)"

text \<open>The decision on Redis' counter and on the time to live it reports.\<close>

definition redisCheck :: "RateLimiterOptions \<Rightarrow> nat \<Rightarrow> int \<Rightarrow> limit_answer" where
  "redisCheck opts count ttl =
     (if count > rlo_maxRequests opts then TooMany (if ttl > 0 then ttl else ttlSeconds opts) else Pass)"

text \<open>
  The middleware. \<open>redis\<close>: \<open>None\<close> when no Redis is configured or it cannot be reached or fails, else the count
  after \<open>INCR\<close> and the answer of \<open>TTL\<close>.
\<close>

definition client_address :: "string option \<Rightarrow> string option \<Rightarrow> string" where
  "client_address ip remote = (case ip of Some a \<Rightarrow> a | None \<Rightarrow> (case remote of Some a \<Rightarrow> a | None \<Rightarrow> ''unknown''))"

definition redis_key :: "RateLimiterOptions \<Rightarrow> string \<Rightarrow> string" where
  "redis_key opts ip = ''ratelimit:'' @ (case rlo_name opts of Some n \<Rightarrow> n | None \<Rightarrow> ''default'') @ '':'' @ ip"

definition rateLimiter :: "RateLimiterOptions \<Rightarrow> (string \<Rightarrow> (nat \<times> int) option) \<Rightarrow> millis \<Rightarrow> string option \<Rightarrow> string option
    \<Rightarrow> limits \<Rightarrow> limit_answer \<times> limits" where
  "rateLimiter opts redis now ip remote store =
     (let a = client_address ip remote in
      case redis (redis_key opts a) of
        None \<Rightarrow> inMemoryCheck opts now a store
      | Some (count, ttl) \<Rightarrow> (redisCheck opts count ttl, store))"

definition passwordRateLimiter :: RateLimiterOptions where
  "passwordRateLimiter = \<lparr> rlo_maxRequests = 5, rlo_windowMs = 60000,
     rlo_message = Some ''Too many password attempts. Please wait before trying again.'', rlo_name = Some ''password'' \<rparr>"

definition apiRateLimiter :: RateLimiterOptions where
  "apiRateLimiter = \<lparr> rlo_maxRequests = 100, rlo_windowMs = 60000, rlo_message = None, rlo_name = Some ''api'' \<rparr>"

definition webhookRateLimiter :: RateLimiterOptions where
  "webhookRateLimiter = \<lparr> rlo_maxRequests = 200, rlo_windowMs = 60000, rlo_message = None, rlo_name = Some ''webhook'' \<rparr>"

definition exportRateLimiter :: RateLimiterOptions where
  "exportRateLimiter = \<lparr> rlo_maxRequests = 10, rlo_windowMs = 60000,
     rlo_message = Some ''Too many export requests. Please wait before trying again.'', rlo_name = Some ''export'' \<rparr>"

section \<open>Runs\<close>

text \<open>Requests and cleanups in the order of time; \<open>passed\<close> are the requests that pass, with their window's end.\<close>

datatype HttpEvent = Call millis string | Cleanup millis

fun event_time :: "HttpEvent \<Rightarrow> millis" where
  "event_time (Call t ip) = t"
| "event_time (Cleanup t) = t"

fun limiter_step :: "RateLimiterOptions \<Rightarrow> HttpEvent \<Rightarrow> limits \<times> (millis \<times> string \<times> millis) list
    \<Rightarrow> limits \<times> (millis \<times> string \<times> millis) list" where
  "limiter_step opts (Call t ip) (store, passed) =
     (case inMemoryCheck opts t ip store of
        (Pass, store') \<Rightarrow> (store', (t, ip, snd (the (jm_get store' ip))) # passed)
      | (TooMany _, store') \<Rightarrow> (store', passed))"
| "limiter_step opts (Cleanup t) (store, passed) = (cleanup t store, passed)"

definition limiter_run :: "RateLimiterOptions \<Rightarrow> HttpEvent list \<Rightarrow> limits \<times> (millis \<times> string \<times> millis) list" where
  "limiter_run opts events = fold (limiter_step opts) events ([], [])"

definition in_window :: "string \<Rightarrow> millis \<Rightarrow> (millis \<times> string \<times> millis) list \<Rightarrow> nat" where
  "in_window ip w passed = length (filter (\<lambda>(t, i, w'). i = ip \<and> w' = w) passed)"

text \<open>
  The windows of an address do not overlap and no window has more than its limit; an entry counts at least the requests that
  passed in its window, which is later than every window before it.
\<close>

definition log_ok :: "RateLimiterOptions \<Rightarrow> millis \<Rightarrow> (millis \<times> string \<times> millis) list \<Rightarrow> bool" where
  "log_ok opts now passed \<longleftrightarrow>
     (\<forall>t i w. (t, i, w) \<in> set passed \<longrightarrow> w - rlo_windowMs opts \<le> t \<and> t \<le> w \<and> t \<le> now) \<and>
     (\<forall>t i w t' w'. (t, i, w) \<in> set passed \<longrightarrow> (t', i, w') \<in> set passed \<longrightarrow>
        w = w' \<or> w + rlo_windowMs opts < w' \<or> w' + rlo_windowMs opts < w) \<and>
     (\<forall>i w. in_window i w passed \<le> rlo_maxRequests opts)"

definition entry_ok :: "RateLimiterOptions \<Rightarrow> millis \<Rightarrow> (millis \<times> string \<times> millis) list \<Rightarrow> string \<Rightarrow> (nat \<times> millis) option \<Rightarrow> bool" where
  "entry_ok opts now passed i e =
     (case e of
        None \<Rightarrow> (\<forall>t w. (t, i, w) \<in> set passed \<longrightarrow> w < now)
      | Some (c, r) \<Rightarrow> in_window i r passed \<le> c \<and> r \<le> now + rlo_windowMs opts \<and>
          (\<forall>t w. (t, i, w) \<in> set passed \<longrightarrow> w = r \<or> w + rlo_windowMs opts < r))"

definition limiter_ok :: "RateLimiterOptions \<Rightarrow> millis \<Rightarrow> limits \<times> (millis \<times> string \<times> millis) list \<Rightarrow> bool" where
  "limiter_ok opts now s \<longleftrightarrow>
     jm_wf (fst s) \<and> log_ok opts now (snd s) \<and> (\<forall>i. entry_ok opts now (snd s) i (jm_get (fst s) i))"

lemma in_window_Cons: "in_window ip w ((t, i, w') # passed) = in_window ip w passed + (if i = ip \<and> w' = w then 1 else 0)"
  by (simp add: in_window_def)

lemma in_window_0: "(\<And>t. (t, ip, w) \<notin> set passed) \<Longrightarrow> in_window ip w passed = 0"
  by (auto simp: in_window_def filter_empty_conv)

lemma limiter_ok_later: "limiter_ok opts now s \<Longrightarrow> now \<le> t \<Longrightarrow> limiter_ok opts t s"
  unfolding limiter_ok_def log_ok_def entry_ok_def by (fastforce split: option.splits)

lemma limiter_ok_cleanup:
  assumes "limiter_ok opts now (store, passed)" "0 \<le> rlo_windowMs opts"
  shows "limiter_ok opts now (cleanup now store, passed)"
proof -
  have wf: "jm_wf store" using assms by (simp add: limiter_ok_def)
  have "entry_ok opts now passed i (jm_get (cleanup now store) i)" for i
  proof (cases "jm_get store i")
    case None
    then have "jm_get (cleanup now store) i = None" using jm_get_prune [OF wf] by (simp add: cleanup_def)
    with None assms show ?thesis by (metis fst_conv limiter_ok_def snd_conv)
  next
    case (Some e)
    then have g: "jm_get (cleanup now store) i = (if now > snd e then None else Some e)"
      using jm_get_prune [OF wf] by (cases e) (simp add: cleanup_def)
    from assms Some have "entry_ok opts now passed i (Some e)" by (metis fst_conv limiter_ok_def snd_conv)
    with g assms(2) show ?thesis by (cases e) (fastforce simp: entry_ok_def)
  qed
  with assms wf show ?thesis by (simp add: limiter_ok_def) (simp add: cleanup_def jm_prune_wf)
qed

lemma entry_ok_other: "i \<noteq> ip \<Longrightarrow> entry_ok opts now ((t, ip, w) # passed) i e = entry_ok opts now passed i e"
  by (auto simp: entry_ok_def in_window_Cons split: option.splits)

lemma limiter_ok_new:
  assumes ok: "limiter_ok opts now (store, passed)" and W: "0 \<le> rlo_windowMs opts" and max: "0 < rlo_maxRequests opts"
    and old: "\<And>t w. (t, ip, w) \<in> set passed \<Longrightarrow> w < now"
  shows "limiter_ok opts now (jm_set ip (1, now + rlo_windowMs opts) store, (now, ip, now + rlo_windowMs opts) # passed)"
proof -
  let ?w = "now + rlo_windowMs opts"
  have fresh: "in_window ip ?w passed = 0" using old W by (intro in_window_0) fastforce
  have "log_ok opts now ((now, ip, ?w) # passed)"
    using ok W max fresh old by (fastforce simp: limiter_ok_def log_ok_def in_window_Cons)
  moreover have "entry_ok opts now ((now, ip, ?w) # passed) ip (Some (1, ?w))"
    using fresh old by (fastforce simp: entry_ok_def in_window_Cons)
  ultimately show ?thesis using ok by (auto simp: limiter_ok_def jm_get_set entry_ok_other jm.wf_put)
qed

lemma limiter_ok_same:
  assumes ok: "limiter_ok opts now (store, passed)" and e: "jm_get store ip = Some (c, r)" "now \<le> r" "c + 1 \<le> rlo_maxRequests opts"
  shows "limiter_ok opts now (jm_set ip (c + 1, r) store, (now, ip, r) # passed)"
proof -
  from ok e(1) have eo: "entry_ok opts now passed ip (Some (c, r))" by (metis fst_conv limiter_ok_def snd_conv)
  have "log_ok opts now ((now, ip, r) # passed)"
    using ok eo e(2,3) by (fastforce simp: limiter_ok_def log_ok_def entry_ok_def in_window_Cons)
  moreover have "entry_ok opts now ((now, ip, r) # passed) ip (Some (c + 1, r))"
    using eo by (auto simp: entry_ok_def in_window_Cons)
  ultimately show ?thesis using ok by (auto simp: limiter_ok_def jm_get_set entry_ok_other jm.wf_put)
qed

lemma limiter_ok_refused:
  assumes ok: "limiter_ok opts now (store, passed)" and e: "jm_get store ip = Some (c, r)"
  shows "limiter_ok opts now (jm_set ip (c + 1, r) store, passed)"
proof -
  from ok e have "entry_ok opts now passed ip (Some (c, r))" by (metis fst_conv limiter_ok_def snd_conv)
  then have "entry_ok opts now passed ip (Some (c + 1, r))" by (auto simp: entry_ok_def)
  with ok show ?thesis by (auto simp: limiter_ok_def jm_get_set jm.wf_put)
qed

lemma limiter_ok_step:
  assumes "limiter_ok opts (event_time e) s" "0 \<le> rlo_windowMs opts" "0 < rlo_maxRequests opts"
  shows "limiter_ok opts (event_time e) (limiter_step opts e s)"
proof (cases e)
  case (Cleanup t)
  with assms show ?thesis by (cases s) (simp add: limiter_ok_cleanup)
next
  case (Call t ip)
  obtain store passed where s: "s = (store, passed)" by (cases s)
  with assms(1) Call have ok: "limiter_ok opts t (store, passed)" by simp
  then have entry: "entry_ok opts t passed ip (jm_get store ip)" by (metis fst_conv limiter_ok_def snd_conv)
  show ?thesis
  proof (cases "jm_get store ip")
    case None
    with entry have "\<And>t' w. (t', ip, w) \<in> set passed \<Longrightarrow> w < t" by (auto simp: entry_ok_def)
    from limiter_ok_new [OF ok assms(2,3) this] None Call s show ?thesis by (simp add: inMemoryCheck_def jm_get_set)
  next
    case (Some cr)
    obtain c r where cr: "cr = (c, r)" by (cases cr)
    show ?thesis
    proof (cases "t > r")
      case True
      with entry Some cr assms(2) have "\<And>t' w. (t', ip, w) \<in> set passed \<Longrightarrow> w < t" by (fastforce simp: entry_ok_def)
      from limiter_ok_new [OF ok assms(2,3) this] Some cr True Call s show ?thesis by (simp add: inMemoryCheck_def jm_get_set)
    next
      case False
      with limiter_ok_same [OF ok, of ip c r] limiter_ok_refused [OF ok, of ip c r] Some cr Call s
      show ?thesis by (auto simp: inMemoryCheck_def jm_get_set Let_def)
    qed
  qed
qed

lemma limiter_run_ok:
  assumes "sorted (map event_time events)" "\<forall>e \<in> set events. event_time e \<le> now" "0 \<le> rlo_windowMs opts" "0 < rlo_maxRequests opts"
  shows "limiter_ok opts now (limiter_run opts events)"
  using assms(1,2)
proof (induction events arbitrary: now rule: rev_induct)
  case Nil
  then show ?case by (simp add: limiter_run_def limiter_ok_def log_ok_def entry_ok_def in_window_def)
next
  case (snoc e events)
  have "limiter_ok opts (event_time e) (limiter_run opts events)"
    using snoc.prems by (intro snoc.IH) (auto simp: sorted_append)
  from limiter_ok_step [OF this assms(3,4)] have "limiter_ok opts (event_time e) (limiter_run opts (events @ [e]))"
    by (simp add: limiter_run_def)
  from limiter_ok_later [OF this, of now] snoc.prems(2) show ?case by simp
qed

text \<open>
  Whatever requests and cleanups come in the order of time, in every span of time as long as a window at
  most twice the limit of requests passes from one address: five attempts at a password a minute
  are never more than ten in sixty seconds.
\<close>

theorem http_limit_respected:
  assumes "sorted (map event_time events)" "0 \<le> rlo_windowMs opts" "0 < rlo_maxRequests opts"
  shows "length (filter (\<lambda>(t, i, w). i = ip \<and> a \<le> t \<and> t \<le> a + rlo_windowMs opts) (snd (limiter_run opts events)))
    \<le> 2 * rlo_maxRequests opts"
proof -
  let ?W = "rlo_windowMs opts" and ?passed = "snd (limiter_run opts events)"
  let ?near = "filter (\<lambda>(t, i, w). i = ip \<and> a \<le> t \<and> t \<le> a + ?W) ?passed"
  obtain now where "\<forall>e \<in> set events. event_time e \<le> now"
    by (metis (no_types, lifting) List.finite_set Max_ge finite_imageI imageI)
  from limiter_run_ok [OF assms(1) this assms(2,3)] have lo: "log_ok opts now ?passed" by (simp add: limiter_ok_def)
  define near where "near = ?near"
  have mem: "(t, i, w) \<in> set near \<longleftrightarrow> (t, i, w) \<in> set ?passed \<and> i = ip \<and> a \<le> t \<and> t \<le> a + ?W" for t i w
    unfolding near_def by auto
  show ?thesis
  proof (cases "near = []")
    case False
    let ?ws = "(\<lambda>(t, i, w). w) ` set near"
    define w0 where "w0 = Min ?ws"
    define w1 where "w1 = Max ?ws"
    have fin: "finite ?ws" by simp
    have ne: "?ws \<noteq> {}" using False by (metis image_is_empty set_empty)
    have from_ws: "\<exists>t. (t, ip, w) \<in> set near" if "w \<in> ?ws" for w
      using that by (auto simp: mem)
    have "w0 \<in> ?ws" unfolding w0_def by (rule Min_in [OF fin ne])
    from from_ws [OF this] obtain t0 where t0: "(t0, ip, w0) \<in> set near" ..
    have "w1 \<in> ?ws" unfolding w1_def by (rule Max_in [OF fin ne])
    from from_ws [OF this] obtain t1 where t1: "(t1, ip, w1) \<in> set near" ..
    have two: "w = w0 \<or> w = w1" if m: "(t, ip, w) \<in> set near" for t w
    proof (rule ccontr)
      assume n: "\<not> (w = w0 \<or> w = w1)"
      have "w \<in> ?ws" using m by force
      then have "w0 \<le> w" "w \<le> w1" unfolding w0_def w1_def by (rule Min_le [OF fin], rule Max_ge [OF fin])
      with n have "w0 < w" "w < w1" by auto
      moreover from m t0 t1 have p: "(t, ip, w) \<in> set ?passed" "(t0, ip, w0) \<in> set ?passed" "(t1, ip, w1) \<in> set ?passed"
        "a \<le> t0" "t1 \<le> a + ?W" by (simp_all add: mem)
      moreover have "w = w0 \<or> w + ?W < w0 \<or> w0 + ?W < w" "w = w1 \<or> w + ?W < w1 \<or> w1 + ?W < w"
        using lo p(1-3) unfolding log_ok_def by blast+
      moreover have "t0 \<le> w0" "w1 - ?W \<le> t1" using lo p(2,3) unfolding log_ok_def by blast+
      ultimately show False using assms(2) by auto
    qed
    have le: "length xs \<le> in_window ip w0 xs + in_window ip w1 xs"
      if "\<forall>(t, i, w) \<in> set xs. i = ip \<and> (w = w0 \<or> w = w1)" for xs
      using that by (induction xs) (auto simp: in_window_Cons in_window_def)
    have sub: "in_window ip w near \<le> in_window ip w ?passed" for w
    proof -
      have "length (filter Q (filter P xs)) \<le> length (filter Q xs)" for P Q and xs :: "(millis \<times> string \<times> millis) list"
        by (induction xs) auto
      then show ?thesis unfolding in_window_def near_def .
    qed
    have "length near \<le> in_window ip w0 near + in_window ip w1 near"
    proof (rule le, clarify)
      fix t i w assume m: "(t, i, w) \<in> set near"
      then have "i = ip" by (simp add: mem)
      with m two show "i = ip \<and> (w = w0 \<or> w = w1)" by blast
    qed
    also have "\<dots> \<le> rlo_maxRequests opts + rlo_maxRequests opts"
      using lo sub [of w0] sub [of w1] unfolding log_ok_def by (meson add_mono order_trans)
    finally show ?thesis by (simp add: near_def)
  qed (simp add: near_def)
qed

text \<open>
  The window in which an address is refused ends: a request after the time the answer names passes.
\<close>

theorem refusal_ends:
  assumes "jm_wf store" "inMemoryCheck opts now ip store = (TooMany s, store')" "now + s * 1000 < t"
  shows "fst (inMemoryCheck opts t ip store') = Pass"
proof -
  from assms(2) obtain c r where e: "jm_get store ip = Some (c, r)" "now \<le> r" "s = ceil_div (r - now) 1000"
    "store' = jm_set ip (c + 1, r) store"
    by (auto simp: inMemoryCheck_def Let_def split: option.splits if_splits)
  have "r - now \<le> s * 1000" unfolding e(3) ceil_div_def by linarith
  with assms(3) have "r < t" by simp
  then show ?thesis by (simp add: inMemoryCheck_def e(4) jm_get_set)
qed

text \<open>
  With Redis the expiry is set by a second command. If it is lost the counter never ends, and once it is
  above the limit every request of the address is refused for ever, with the window as the time to wait.
\<close>

theorem redis_without_expiry_refuses:
  assumes "rlo_maxRequests opts < count"
  shows "redisCheck opts count (- 1) = TooMany (ttlSeconds opts)"
  using assms by (simp add: redisCheck_def)

section \<open>Concrete runs\<close>

definition sample_events :: "HttpEvent list" where
  "sample_events = map (\<lambda>t. Call t ''ip'') [0, 1, 2, 3, 4, 5, 6] @ [Cleanup 60001, Call 60002 ''ip'']"

theorem http_limit_respected_witness:
  "length (filter (\<lambda>(t, i, w). i = ''ip'' \<and> 3 \<le> t \<and> t \<le> 3 + 60000) (snd (limiter_run passwordRateLimiter sample_events))) \<le> 10 \<and>
   length (snd (limiter_run passwordRateLimiter sample_events)) = 6"
proof
  show "length (filter (\<lambda>(t, i, w). i = ''ip'' \<and> 3 \<le> t \<and> t \<le> 3 + 60000) (snd (limiter_run passwordRateLimiter sample_events))) \<le> 10"
    using http_limit_respected [of sample_events passwordRateLimiter "''ip''" 3]
    by (simp add: sample_events_def passwordRateLimiter_def)
  show "length (snd (limiter_run passwordRateLimiter sample_events)) = 6" by code_simp
qed

theorem refusal_ends_witness:
  "\<exists>s store. inMemoryCheck passwordRateLimiter 10 ''ip'' [(''ip'', (5, 60000))] = (TooMany s, store) \<and>
     fst (inMemoryCheck passwordRateLimiter 70000 ''ip'' store) = Pass"
proof -
  have i: "inMemoryCheck passwordRateLimiter 10 ''ip'' [(''ip'', (5, 60000))] = (TooMany 60, [(''ip'', (6, 60000))])" by code_simp
  from refusal_ends [OF _ i, of 70000] i show ?thesis by (simp add: jm_wf_def)
qed

theorem redis_without_expiry_refuses_witness: "redisCheck passwordRateLimiter 6 (- 1) = TooMany 60"
  using redis_without_expiry_refuses [of passwordRateLimiter 6] by (simp add: passwordRateLimiter_def ttlSeconds_def ceil_div_def)

end
