(* ===== verification/Impersonation.thy ===== *)
theory Impersonation
  imports Sessions
begin

text \<open>
  \<open>src/middleware/support-impersonation.ts\<close>, in front of the dashboard handlers (\<open>src/api/dashboard-routes.ts\<close>): a
  request that carries a support token acts as the target user of a stored session, read-only unless the
  session's scope says otherwise. The digest of a token is the parameter \<open>sha\<close>.
\<close>

section \<open>The middleware\<close>

text \<open>
  The column \<open>scope\<close> is JSON: \<open>None\<close> when it is null or no array, else its elements, \<open>None\<close> for those that are no strings.
\<close>

record SupportImpersonationSession =
  imp_id :: ident
  imp_organizationId :: ident
  imp_actorUserId :: ident
  imp_targetUserId :: ident
  imp_sessionTokenHash :: string
  imp_reason :: string
  imp_scope :: "string option list option"
  imp_lastUsedAt :: "millis option"
  imp_expiresAt :: millis
  imp_revokedAt :: "millis option"

record SupportDb =
  spd_access :: AccessDb
  spd_sessions :: "SupportImpersonationSession list"
  spd_optOuts :: "ident list"

record ImpersonationContext =
  ic_sessionId :: ident
  ic_actorUserId :: ident
  ic_targetUserId :: ident
  ic_scope :: "string list"
  ic_reason :: string
  ic_expiresAt :: millis

definition actorCanImpersonate :: "AccessDb \<Rightarrow> AuthRequest \<Rightarrow> bool" where
  "actorCanImpersonate db req =
     (if \<not> truthy (req_userId req) then False
      else if is_admin (req_userRole req) then True
      else has_user_permission db (the (req_userId req)) MANAGE_PERMISSIONS)"

definition session_scope :: "string option list option \<Rightarrow> string list" where
  "session_scope raw = (case raw of Some vs \<Rightarrow> List.map_filter id vs | None \<Rightarrow> [''READ_ONLY''])"

definition usable_session :: "millis \<Rightarrow> ident \<Rightarrow> ident \<Rightarrow> string \<Rightarrow> SupportImpersonationSession \<Rightarrow> bool" where
  "usable_session now org actor hash s \<longleftrightarrow>
     imp_organizationId s = org \<and> imp_actorUserId s = actor \<and> imp_sessionTokenHash s = hash \<and>
     imp_revokedAt s = None \<and> now < imp_expiresAt s"

definition applySupportImpersonation :: "(string \<Rightarrow> string) \<Rightarrow> millis \<Rightarrow> string option \<Rightarrow> AuthRequest \<Rightarrow> SupportDb
    \<Rightarrow> (response, AuthRequest \<times> ImpersonationContext option \<times> SupportDb) res" where
  "applySupportImpersonation sha now rawToken req db =
     (if \<not> truthy rawToken then Inr (req, None, db)
      else if \<not> truthy (req_organizationId req) \<or> \<not> truthy (req_userId req) then Inl (Response 401 ''authentication_required'')
      else
        let org = the (req_organizationId req); actor = the (req_userId req) in
        if \<not> actorCanImpersonate (spd_access db) req then Inl (Response 403 ''support_impersonation_not_allowed'')
        else if org \<in> set (spd_optOuts db) then Inl (Response 403 ''support_access_disabled'')
        else case List.find (usable_session now org actor (sha (trim (the rawToken)))) (spd_sessions db) of
          None \<Rightarrow> Inl (Response 401 ''invalid_support_impersonation_session'')
        | Some session \<Rightarrow>
            (case List.find (\<lambda>u. u_id u = imp_targetUserId session) (db_users (spd_access db)) of
               None \<Rightarrow> Inl (Response 500 ''internal_error'')
             | Some target \<Rightarrow>
                 Inr (req\<lparr> req_userId := Some (imp_targetUserId session), req_userRole := Some (u_role target) \<rparr>,
                   Some \<lparr> ic_sessionId = imp_id session, ic_actorUserId = actor, ic_targetUserId = imp_targetUserId session,
                     ic_scope = session_scope (imp_scope session), ic_reason = imp_reason session,
                     ic_expiresAt = imp_expiresAt session \<rparr>,
                   db\<lparr> spd_sessions := update_many (\<lambda>s. imp_id s = imp_id session)
                        (\<lambda>s. s\<lparr> imp_lastUsedAt := Some now \<rparr>) (spd_sessions db) \<rparr>)))"

definition requireImpersonationWriteScope :: "string \<Rightarrow> ImpersonationContext option \<Rightarrow> guard" where
  "requireImpersonationWriteScope method impersonation =
     (case impersonation of
        None \<Rightarrow> Next
      | Some i \<Rightarrow>
          if upper_ascii method = ''GET'' \<or> upper_ascii method = ''HEAD'' \<or> upper_ascii method = ''OPTIONS'' then Next
          else if ''WRITE'' \<notin> set (ic_scope i) then Status 403 ''support_impersonation_read_only''
          else Next)"

definition dashboard_chain :: "(string \<Rightarrow> string) \<Rightarrow> millis \<Rightarrow> string option \<Rightarrow> string \<Rightarrow> AuthRequest \<Rightarrow> SupportDb
    \<Rightarrow> (response, AuthRequest \<times> SupportDb) res" where
  "dashboard_chain sha now rawToken method req db =
     (case applySupportImpersonation sha now rawToken req db of
        Inl e \<Rightarrow> Inl e
      | Inr (req', imp, db') \<Rightarrow>
          (case requireImpersonationWriteScope method imp of
             Next \<Rightarrow> Inr (req', db')
           | Status code msg \<Rightarrow> Inl (Response code msg)))"

section \<open>What it admits\<close>

text \<open>
  A request reaches a dashboard handler under another identity only by a live session of the very actor in
  the actor's own organization, which has not opted out; the actor is an administrator or manages permissions; the
  handler sees the session's target, with the target's role and in the actor's organization; and it is a read
  unless the session's scope contains WRITE.
\<close>

theorem impersonation_confined:
  assumes "dashboard_chain sha now rawToken method req db = Inr (req', db')" "req' \<noteq> req"
  shows "\<exists>s u org actor token. s \<in> set (spd_sessions db) \<and> u \<in> set (db_users (spd_access db)) \<and>
    req_organizationId req = Some org \<and> req_userId req = Some actor \<and> rawToken = Some token \<and>
    usable_session now org actor (sha (trim token)) s \<and> org \<notin> set (spd_optOuts db) \<and>
    (is_admin (req_userRole req) \<or> has_user_permission (spd_access db) actor MANAGE_PERMISSIONS) \<and>
    u_id u = imp_targetUserId s \<and>
    req' = req\<lparr> req_userId := Some (u_id u), req_userRole := Some (u_role u) \<rparr> \<and>
    (upper_ascii method \<in> set SAFE_METHODS \<or> (\<exists>vs. imp_scope s = Some vs \<and> Some ''WRITE'' \<in> set vs))"
proof -
  from assms obtain i where a: "applySupportImpersonation sha now rawToken req db = Inr (req', i, db')"
    and w: "requireImpersonationWriteScope method i = Next"
    by (auto simp: dashboard_chain_def split: sum.splits prod.splits guard.splits)
  from a assms(2) obtain org actor token s u where r: "req_organizationId req = Some org" "req_userId req = Some actor"
      "rawToken = Some token" "actorCanImpersonate (spd_access db) req" "org \<notin> set (spd_optOuts db)"
      "List.find (usable_session now org actor (sha (trim token))) (spd_sessions db) = Some s"
      "List.find (\<lambda>u. u_id u = imp_targetUserId s) (db_users (spd_access db)) = Some u"
      "req' = req\<lparr> req_userId := Some (imp_targetUserId s), req_userRole := Some (u_role u) \<rparr>"
      "\<exists>i'. i = Some i' \<and> ic_scope i' = session_scope (imp_scope s)"
    by (auto simp: applySupportImpersonation_def Let_def truthy_def split: if_splits option.splits)
  have "upper_ascii method \<in> set SAFE_METHODS \<or> (\<exists>vs. imp_scope s = Some vs \<and> Some ''WRITE'' \<in> set vs)"
    using w r(9) by (auto simp: requireImpersonationWriteScope_def SAFE_METHODS_def session_scope_def List.map_filter_def
        split: if_splits option.splits)
  moreover have "is_admin (req_userRole req) \<or> has_user_permission (spd_access db) actor MANAGE_PERMISSIONS"
    using r(2,4) by (auto simp: actorCanImpersonate_def split: if_splits)
  moreover have s: "s \<in> set (spd_sessions db)" "usable_session now org actor (sha (trim token)) s"
    using find_SomeD [OF r(6)] by simp_all
  moreover have u: "u \<in> set (db_users (spd_access db))" "u_id u = imp_targetUserId s" using find_SomeD [OF r(7)] by simp_all
  moreover have "req' = req\<lparr> req_userId := Some (u_id u), req_userRole := Some (u_role u) \<rparr>" using r(8) u(2) by simp
  ultimately show ?thesis using r(1-3,5) by blast
qed

text \<open>
  Apart from the row of the audit log, using a session changes nothing but the time of its last use.
\<close>

theorem impersonation_changes_nothing_else:
  assumes "dashboard_chain sha now rawToken method req db = Inr (req', db')"
  shows "spd_access db' = spd_access db \<and> spd_optOuts db' = spd_optOuts db \<and>
    map (imp_lastUsedAt_update (\<lambda>_. None)) (spd_sessions db') = map (imp_lastUsedAt_update (\<lambda>_. None)) (spd_sessions db)"
  using assms
  by (auto simp: dashboard_chain_def applySupportImpersonation_def Let_def map_update_many_inv
      split: sum.splits prod.splits guard.splits if_splits option.splits)

section \<open>Concrete runs\<close>

definition support_db :: SupportDb where
  "support_db =
     \<lparr> spd_access = \<lparr> db_users = [\<lparr> u_id = ''admin'', u_organizationId = ''org'', u_role = ADMIN \<rparr>,
         \<lparr> u_id = ''member'', u_organizationId = ''org'', u_role = MEMBER \<rparr>],
         db_roleProfiles = [], db_roleAssignments = [], db_usageLimits = [], db_accountAccess = [], db_userPermissions = [], db_orgSettings = [] \<rparr>,
       spd_sessions = [\<lparr> imp_id = ''s1'', imp_organizationId = ''org'', imp_actorUserId = ''admin'', imp_targetUserId = ''member'',
         imp_sessionTokenHash = ''tok'', imp_reason = ''ticket 7'', imp_scope = None, imp_lastUsedAt = None, imp_expiresAt = 100,
         imp_revokedAt = None \<rparr>],
       spd_optOuts = [] \<rparr>"

definition support_actor :: AuthRequest where
  "support_actor = \<lparr> req_organizationId = Some ''org'', req_userId = Some ''admin'', req_userRole = Some ADMIN \<rparr>"

lemma upper_get: "upper_ascii ''get'' = ''GET''" "upper_ascii ''GET'' = ''GET''" by code_simp+

theorem impersonation_confined_witness:
  "\<exists>db'. dashboard_chain (\<lambda>x. x) 50 (Some ''tok'') ''get'' support_actor support_db =
       Inr (support_actor\<lparr> req_userId := Some ''member'', req_userRole := Some MEMBER \<rparr>, db') \<and>
     upper_ascii ''get'' \<in> set SAFE_METHODS"
proof -
  obtain db' where run: "dashboard_chain (\<lambda>x. x) 50 (Some ''tok'') ''get'' support_actor support_db =
       Inr (support_actor\<lparr> req_userId := Some ''member'', req_userRole := Some MEMBER \<rparr>, db')"
    by (simp add: dashboard_chain_def applySupportImpersonation_def support_actor_def support_db_def actorCanImpersonate_def is_admin_def
        ADMIN_ROLES_def usable_session_def Let_def trim_def js_ws_def session_scope_def requireImpersonationWriteScope_def upper_get)
  have ne: "support_actor\<lparr> req_userId := Some ''member'', req_userRole := Some MEMBER \<rparr> \<noteq> support_actor"
    by (simp add: support_actor_def)
  from impersonation_confined [OF run ne] run upper_get show ?thesis by (simp add: SAFE_METHODS_def)
qed

theorem impersonation_changes_nothing_else_witness:
  "\<exists>req' db'. dashboard_chain (\<lambda>x. x) 50 (Some ''tok'') ''GET'' support_actor support_db = Inr (req', db') \<and>
     spd_access db' = spd_access support_db"
proof -
  obtain req' db' where run: "dashboard_chain (\<lambda>x. x) 50 (Some ''tok'') ''GET'' support_actor support_db = Inr (req', db')"
    by (simp add: dashboard_chain_def applySupportImpersonation_def support_actor_def support_db_def actorCanImpersonate_def is_admin_def
        ADMIN_ROLES_def usable_session_def Let_def trim_def js_ws_def session_scope_def requireImpersonationWriteScope_def upper_get)
  from impersonation_changes_nothing_else [OF run] run show ?thesis by blast
qed

end
