(* ===== verification/Entity_Resolution.thy ===== *)
theory Entity_Resolution
  imports Merge_Routes Regex_Replace Security_Policy
begin

text \<open>
  Which account a call belongs to: \<open>src/services/entity-resolution.ts\<close> resolves the participants of a call by
  the domains of their e-mail addresses and then by name, \<open>src/services/entity-resolution-queue.ts\<close> lets people
  decide. The fuzzy index (fuse.js) is the parameter \<open>search\<close>: what it returns for a list of accounts and a
  text, best first, with its scores. \<open>fresh\<close> functions give the ids of new rows.
\<close>

section \<open>Tables\<close>

datatype MatchMethod = NONE | EMAIL_DOMAIN | FUZZY_NAME | MANUAL

record IntakeCall = Call +
  ic_title :: "string option"
  ic_provider :: string
  ic_mergeRecordingId :: "string option"
  ic_externalId :: "string option"
  ic_recordingUrl :: "string option"
  ic_occurredAt :: millis
  ic_matchMethod :: MatchMethod
  ic_matchConfidence :: real
  ic_dismissedAt :: "millis option"
  ic_updatedAt :: millis

record IntakeContact = Contact +
  in_emailDomain :: string
  in_name :: "string option"
  in_mergeContactId :: "string option"

record IntakeParticipant = CallParticipant +
  ip_email :: "string option"
  ip_name :: "string option"
  ip_isHost :: bool

text \<open>The notifications a resolution adds, as organization and call.\<close>

record ResolutionDb =
  rd_accounts :: "Account list"
  rd_domains :: "AccountDomain list"
  rd_contacts :: "IntakeContact list"
  rd_calls :: "IntakeCall list"
  rd_participants :: "IntakeParticipant list"
  rd_stories :: "Story list"
  rd_events :: "SalesforceEvent list"
  rd_access :: AccessDb
  rd_quotes :: "Quote list"
  rd_regenLogs :: "StoryRegenLog list"
  rd_notifications :: "(ident \<times> ident) list"

section \<open>The resolver\<close>

definition FREE_EMAIL_DOMAINS :: "string list" where
  "FREE_EMAIL_DOMAINS = [''gmail.com'', ''yahoo.com'', ''hotmail.com'', ''outlook.com'', ''aol.com'', ''icloud.com'',
     ''mail.com'', ''protonmail.com'', ''proton.me'', ''live.com'', ''msn.com'', ''yandex.com'', ''zoho.com'',
     ''fastmail.com'', ''tutanota.com'', ''hey.com'']"

definition extractEmailDomain :: "string \<Rightarrow> string option" where
  "extractEmailDomain email =
     (case split_on CHR ''@'' (trim (toLowerCase email)) of
        [_, domain] \<Rightarrow> if domain \<in> set FREE_EMAIL_DOMAINS then None else Some domain
      | _ \<Rightarrow> None)"

record CallParticipantInput =
  pi_email :: "string option"
  pi_name :: "string option"

datatype ResolvedBy = email_domain_match | fuzzy_name_match | no_match

record ResolvedEntity =
  re_accountId :: ident
  re_accountName :: string
  re_confidence :: real
  re_matchMethod :: ResolvedBy

text \<open>The usable domain of one participant, and the domains of all of them in order.\<close>

definition participant_domain :: "string option \<Rightarrow> string option" where
  "participant_domain email =
     (if truthy email then
        (case extractEmailDomain (the email) of Some d \<Rightarrow> if d \<noteq> [] then Some d else None | None \<Rightarrow> None)
      else None)"

definition extractParticipantDomains :: "CallParticipantInput list \<Rightarrow> string list" where
  "extractParticipantDomains ps = fold js_add (List.map_filter (\<lambda>p. participant_domain (pi_email p)) ps) []"

definition account_row :: "ident \<Rightarrow> Account list \<Rightarrow> Account option" where
  "account_row i rows = List.find (\<lambda>a. a_id a = i) rows"

definition owned :: "ident \<Rightarrow> Account list \<Rightarrow> ident \<Rightarrow> bool" where
  "owned org rows i = (case account_row i rows of Some a \<Rightarrow> a_organizationId a = org | None \<Rightarrow> False)"

definition entity :: "Account \<Rightarrow> real \<Rightarrow> ResolvedBy \<Rightarrow> ResolvedEntity" where
  "entity a confidence by =
     \<lparr> re_accountId = a_id a, re_accountName = a_name a, re_confidence = confidence, re_matchMethod = by \<rparr>"

definition matchByEmailDomain :: "ident \<Rightarrow> string list \<Rightarrow> ResolutionDb \<Rightarrow> ResolvedEntity option" where
  "matchByEmailDomain org domains db =
     (case List.find (\<lambda>a. a_organizationId a = org \<and> (case a_domain a of Some d \<Rightarrow> d \<in> set domains | None \<Rightarrow> False))
         (rd_accounts db) of
        Some a \<Rightarrow> Some (entity a (95 / 100) email_domain_match)
      | None \<Rightarrow>
          (case List.find (\<lambda>r. ad_domain r \<in> set domains \<and> owned org (rd_accounts db) (ad_accountId r)) (rd_domains db) of
             Some r \<Rightarrow> map_option (\<lambda>a. entity a (90 / 100) email_domain_match) (account_row (ad_accountId r) (rd_accounts db))
           | None \<Rightarrow>
               (case List.find (\<lambda>c. in_emailDomain c \<in> set domains \<and> owned org (rd_accounts db) (ct_accountId c))
                   (rd_contacts db) of
                  Some c \<Rightarrow> map_option (\<lambda>a. entity a (85 / 100) email_domain_match)
                    (account_row (ct_accountId c) (rd_accounts db))
                | None \<Rightarrow> None)))"

definition buildCandidateNames :: "CallParticipantInput list \<Rightarrow> string option \<Rightarrow> string list" where
  "buildCandidateNames ps callTitle =
     filter (\<lambda>n. 1 < length n)
       ((if truthy callTitle then [normalizeCompanyName (the callTitle)] else []) @
        map (\<lambda>p. normalizeCompanyName (the (pi_name p))) (filter (\<lambda>p. truthy (pi_name p)) ps))"

definition first_word :: "string list \<Rightarrow> string option" where
  "first_word names =
     (case List.find (\<lambda>w. w \<noteq> None) (map (\<lambda>n. List.find (\<lambda>w. 1 < length w) (split_ws False [] n)) names) of
        Some w \<Rightarrow> w | None \<Rightarrow> None)"

definition contains_insensitive :: "string \<Rightarrow> string \<Rightarrow> bool" where
  "contains_insensitive w s = test_substring (toLowerCase w) (toLowerCase s)"

definition fuzzy_pool :: "ident \<Rightarrow> string list \<Rightarrow> Account list \<Rightarrow> Account list" where
  "fuzzy_pool org names accounts =
     (let mine = filter (\<lambda>a. a_organizationId a = org) accounts in
      case first_word names of
        Some w \<Rightarrow>
          (let hits = take 500 (filter (\<lambda>a. contains_insensitive w (a_normalizedName a)) mine) in
           if hits = [] then take 200 mine else hits)
      | None \<Rightarrow> take 200 mine)"

type_synonym search = "Account list \<Rightarrow> string \<Rightarrow> (Account \<times> real option) list"

definition score_of :: "Account \<times> real option \<Rightarrow> real" where
  "score_of r = (case snd r of Some s \<Rightarrow> s | None \<Rightarrow> 1)"

text \<open>The loop over the candidate names keeps the best first result.\<close>

definition better :: "search \<Rightarrow> Account list \<Rightarrow> string \<Rightarrow> (Account \<times> real option) option \<Rightarrow> (Account \<times> real option) option" where
  "better search accounts candidate best =
     (case search accounts candidate of
        [] \<Rightarrow> best
      | r # _ \<Rightarrow> (case best of None \<Rightarrow> Some r | Some b \<Rightarrow> if score_of r < score_of b then Some r else Some b))"

definition round2 :: "real \<Rightarrow> real" where
  "round2 x = of_int \<lfloor>x * 100 + 1 / 2\<rfloor> / 100"

definition matchByFuzzyName :: "search \<Rightarrow> ident \<Rightarrow> string list \<Rightarrow> ResolutionDb \<Rightarrow> ResolvedEntity option" where
  "matchByFuzzyName search org names db =
     (let accounts = fuzzy_pool org names (rd_accounts db) in
      if accounts = [] then None
      else case fold (better search accounts) names None of
        Some (item, Some score) \<Rightarrow>
          if score \<le> 3 / 10 then Some (entity item (min (round2 (1 - score)) (75 / 100)) fuzzy_name_match) else None
      | _ \<Rightarrow> None)"

definition unresolved :: ResolvedEntity where
  "unresolved = \<lparr> re_accountId = [], re_accountName = [], re_confidence = 0, re_matchMethod = no_match \<rparr>"

definition resolve :: "search \<Rightarrow> ident \<Rightarrow> CallParticipantInput list \<Rightarrow> string option \<Rightarrow> ResolutionDb \<Rightarrow> ResolvedEntity" where
  "resolve search org ps callTitle db =
     (let domains = extractParticipantDomains ps in
      case (if domains \<noteq> [] then matchByEmailDomain org domains db else None) of
        Some m \<Rightarrow> m
      | None \<Rightarrow>
          (let names = buildCandidateNames ps callTitle in
           case (if names \<noteq> [] then matchByFuzzyName search org names db else None) of
             Some m \<Rightarrow> m
           | None \<Rightarrow> unresolved))"

text \<open>\<open>contact.upsert\<close> on the key of account and address.\<close>

definition has_address :: "ident \<Rightarrow> string \<Rightarrow> IntakeContact \<Rightarrow> bool" where
  "has_address accountId email c \<longleftrightarrow> ct_accountId c = accountId \<and> ct_email c = email"

definition upsert_contact :: "(IntakeContact list \<Rightarrow> ident) \<Rightarrow> ident \<Rightarrow> string \<Rightarrow> string \<Rightarrow> string option
    \<Rightarrow> IntakeContact list \<Rightarrow> IntakeContact list" where
  "upsert_contact fresh accountId email domain name rows =
     upsert (has_address accountId (toLowerCase email))
       \<lparr> ct_id = fresh rows, ct_accountId = accountId, ct_email = toLowerCase email, in_emailDomain = domain,
          in_name = name, in_mergeContactId = None \<rparr>
       (\<lambda>c. c\<lparr> in_name := (case name of Some n \<Rightarrow> Some n | None \<Rightarrow> in_name c) \<rparr>) rows"

definition link_contact :: "(IntakeContact list \<Rightarrow> ident) \<Rightarrow> ident \<Rightarrow> CallParticipantInput \<Rightarrow> IntakeContact list \<Rightarrow> IntakeContact list" where
  "link_contact fresh accountId p rows =
     (case participant_domain (pi_email p) of
        None \<Rightarrow> rows
      | Some domain \<Rightarrow> upsert_contact fresh accountId (the (pi_email p)) domain (pi_name p) rows)"

definition set_call :: "millis \<Rightarrow> ident \<Rightarrow> (IntakeCall \<Rightarrow> IntakeCall) \<Rightarrow> IntakeCall list \<Rightarrow> IntakeCall list" where
  "set_call now callId f rows = update_many (\<lambda>c. call_id c = callId) (\<lambda>c. (f c)\<lparr> ic_updatedAt := now \<rparr>) rows"

definition resolveAndLinkContacts :: "search \<Rightarrow> (IntakeContact list \<Rightarrow> ident) \<Rightarrow> millis \<Rightarrow> ident \<Rightarrow> ident
    \<Rightarrow> CallParticipantInput list \<Rightarrow> string option \<Rightarrow> ResolutionDb \<Rightarrow> ResolvedEntity \<times> ResolutionDb" where
  "resolveAndLinkContacts search fresh now org callId ps callTitle db =
     (let resolution = resolve search org ps callTitle db in
      if re_matchMethod resolution = no_match then
        (resolution,
         db\<lparr> rd_calls := set_call now callId (\<lambda>c. c\<lparr> call_accountId := None, ic_matchMethod := NONE, ic_matchConfidence := 0 \<rparr>)
               (rd_calls db),
             rd_notifications := rd_notifications db @ [(org, callId)] \<rparr>)
      else
        (resolution,
         db\<lparr> rd_contacts := fold (link_contact fresh (re_accountId resolution)) ps (rd_contacts db),
             rd_calls := set_call now callId (\<lambda>c. c\<lparr> call_accountId := Some (re_accountId resolution) \<rparr>) (rd_calls db) \<rparr>))"

section \<open>The review queue\<close>

definition needs_review :: "ident \<Rightarrow> string option \<Rightarrow> IntakeCall \<Rightarrow> bool" where
  "needs_review org search c \<longleftrightarrow>
     call_organizationId c = org \<and> ic_dismissedAt c = None \<and>
     (ic_matchMethod c = NONE \<or> ic_matchConfidence c < 7 / 10) \<and>
     (if truthy search then (case ic_title c of Some t \<Rightarrow> contains_insensitive (the search) t | None \<Rightarrow> False) else True)"

definition getQueueStats :: "millis \<Rightarrow> ident \<Rightarrow> IntakeCall list \<Rightarrow> nat \<times> nat \<times> nat \<times> nat" where
  "getQueueStats todayStart org rows =
     (let noMatch = count_rows (\<lambda>c. call_organizationId c = org \<and> ic_matchMethod c = NONE \<and> ic_dismissedAt c = None) rows;
          lowConfidence = count_rows (\<lambda>c. call_organizationId c = org \<and> ic_matchMethod c \<noteq> NONE \<and>
            ic_matchConfidence c < 7 / 10 \<and> ic_dismissedAt c = None) rows;
          resolvedToday = count_rows (\<lambda>c. call_organizationId c = org \<and> ic_matchMethod c = MANUAL \<and>
            todayStart \<le> ic_updatedAt c) rows in
      (noMatch + lowConfidence, noMatch, lowConfidence, resolvedToday))"

definition find_call :: "ident \<Rightarrow> ident \<Rightarrow> IntakeCall list \<Rightarrow> IntakeCall option" where
  "find_call org callId rows = List.find (\<lambda>c. call_id c = callId \<and> call_organizationId c = org) rows"

definition call_people :: "ident \<Rightarrow> IntakeParticipant list \<Rightarrow> CallParticipantInput list" where
  "call_people callId rows =
     map (\<lambda>p. \<lparr> pi_email = ip_email p, pi_name = ip_name p \<rparr>) (filter (\<lambda>p. cp_callId p = callId) rows)"

definition new_domains :: "Account \<Rightarrow> CallParticipantInput list \<Rightarrow> string list" where
  "new_domains account ps = filter (\<lambda>d. Some d \<noteq> a_domain account) (extractParticipantDomains ps)"

definition add_alias :: "(AccountDomain list \<Rightarrow> ident) \<Rightarrow> ident \<Rightarrow> ident \<Rightarrow> Account list \<Rightarrow> string
    \<Rightarrow> AccountDomain list \<Rightarrow> AccountDomain list" where
  "add_alias fresh org accountId accounts domain rows =
     (if list_ex (\<lambda>a. a_organizationId a = org \<and> a_domain a = Some domain) accounts \<or>
         list_ex (\<lambda>r. ad_domain r = domain \<and> owned org accounts (ad_accountId r)) rows
      then rows
      else rows @ [\<lparr> ad_id = fresh rows, ad_accountId = accountId, ad_domain = domain \<rparr>])"

record ErFresh =
  ef_contact :: "IntakeContact list \<Rightarrow> ident"
  ef_alias :: "AccountDomain list \<Rightarrow> ident"
  ef_account :: "Account list \<Rightarrow> ident"

definition resolveCall :: "ErFresh \<Rightarrow> millis \<Rightarrow> ident \<Rightarrow> ident \<Rightarrow> ident \<Rightarrow> ResolutionDb \<Rightarrow> (string, ResolutionDb) res" where
  "resolveCall fresh now callId accountId org db =
     (case find_call org callId (rd_calls db) of
        None \<Rightarrow> Inl ''Call not found''
      | Some call \<Rightarrow>
          (case find_account org accountId (rd_accounts db) of
             None \<Rightarrow> Inl ''Account not found''
           | Some account \<Rightarrow>
               let people = call_people callId (rd_participants db) in
               Inr (db\<lparr>
                 rd_calls := set_call now callId
                   (\<lambda>c. c\<lparr> call_accountId := Some accountId, ic_matchMethod := MANUAL, ic_matchConfidence := 1 \<rparr>) (rd_calls db),
                 rd_domains := fold (add_alias (ef_alias fresh) org accountId (rd_accounts db)) (new_domains account people)
                   (rd_domains db),
                 rd_contacts := fold (link_contact (ef_contact fresh) accountId) people (rd_contacts db) \<rparr>)))"

fun bulk_loop :: "ErFresh \<Rightarrow> millis \<Rightarrow> ident \<Rightarrow> ident \<Rightarrow> ident list \<Rightarrow> nat \<times> ResolutionDb \<Rightarrow> nat \<times> ResolutionDb" where
  "bulk_loop fresh now accountId org [] st = st"
| "bulk_loop fresh now accountId org (callId # ids) (n, db) =
     (case resolveCall fresh now callId accountId org db of
        Inl _ \<Rightarrow> bulk_loop fresh now accountId org ids (n, db)
      | Inr db' \<Rightarrow> bulk_loop fresh now accountId org ids (n + 1, db'))"

definition bulkResolve :: "ErFresh \<Rightarrow> millis \<Rightarrow> ident list \<Rightarrow> ident \<Rightarrow> ident \<Rightarrow> ResolutionDb \<Rightarrow> nat \<times> ResolutionDb" where
  "bulkResolve fresh now callIds accountId org db = bulk_loop fresh now accountId org callIds (0, db)"

definition dismissCalls :: "millis \<Rightarrow> ident list \<Rightarrow> ident \<Rightarrow> ResolutionDb \<Rightarrow> nat \<times> ResolutionDb" where
  "dismissCalls now callIds org db =
     (let p = (\<lambda>c. call_id c \<in> set callIds \<and> call_organizationId c = org) in
      (count_rows p (rd_calls db),
       db\<lparr> rd_calls := update_many p (\<lambda>c. c\<lparr> ic_dismissedAt := Some now, ic_updatedAt := now \<rparr>) (rd_calls db) \<rparr>))"

definition first_domain :: "CallParticipantInput list \<Rightarrow> string option" where
  "first_domain ps = (case extractParticipantDomains ps of d # _ \<Rightarrow> Some d | [] \<Rightarrow> None)"

definition new_account :: "ident \<Rightarrow> ident \<Rightarrow> string \<Rightarrow> string option \<Rightarrow> Account" where
  "new_account accountId org name domain =
     \<lparr> a_id = accountId, a_organizationId = org, a_name = name, a_normalizedName = normalizeCompanyName name,
        a_domain = domain, a_salesforceId = None, a_hubspotId = None, a_mergeAccountId = None,
        a_industry = None, a_employeeCount = None, a_annualRevenue = None \<rparr>"

definition createAccountFromCall :: "ErFresh \<Rightarrow> millis \<Rightarrow> ident \<Rightarrow> ident \<Rightarrow> string \<Rightarrow> string option \<Rightarrow> ResolutionDb
    \<Rightarrow> (string, ident \<times> ResolutionDb) res" where
  "createAccountFromCall fresh now callId org name givenDomain db =
     (case find_call org callId (rd_calls db) of
        None \<Rightarrow> Inl ''Call not found''
      | Some call \<Rightarrow>
          let domain = (if truthy givenDomain then givenDomain
                        else case first_domain (call_people callId (rd_participants db)) of
                          Some d \<Rightarrow> Some d | None \<Rightarrow> givenDomain);
              accountId = ef_account fresh (rd_accounts db) in
          (case (if truthy domain
                 then List.find (\<lambda>a. a_organizationId a = org \<and> a_domain a = domain) (rd_accounts db) else None) of
             Some existing \<Rightarrow> Inl (''An account with domain \"'' @ the domain @ ''\" already exists: '' @ a_name existing)
           | None \<Rightarrow>
               if domain = Some [] \<and> list_ex (\<lambda>a. a_organizationId a = org \<and> a_domain a = Some []) (rd_accounts db)
               then Inl ''Unique constraint failed''
               else
               let db' = db\<lparr> rd_accounts := rd_accounts db @
                     [new_account accountId org name domain] \<rparr> in
               (case resolveCall fresh now callId accountId org db' of
                  Inl e \<Rightarrow> Inl e
                | Inr db'' \<Rightarrow> Inr (accountId, db''))))"

subsection \<open>Merging two accounts from the queue\<close>

definition merge_contact :: "ident \<Rightarrow> IntakeContact \<Rightarrow> IntakeContact list \<times> IntakeParticipant list
    \<Rightarrow> IntakeContact list \<times> IntakeParticipant list" where
  "merge_contact target contact st =
     (case st of (contacts, participants) \<Rightarrow>
        (case List.find (has_address target (ct_email contact)) contacts of
           Some existing \<Rightarrow>
             (delete_many (\<lambda>c. ct_id c = ct_id contact) contacts,
              update_many (\<lambda>p. cp_contactId p = Some (ct_id contact)) (\<lambda>p. p\<lparr> cp_contactId := Some (ct_id existing) \<rparr>) participants)
         | None \<Rightarrow>
             (update_many (\<lambda>c. ct_id c = ct_id contact) (\<lambda>c. c\<lparr> ct_accountId := target \<rparr>) contacts, participants)))"

definition merge_alias :: "(AccountDomain list \<Rightarrow> ident) \<Rightarrow> Account \<Rightarrow> AccountDomain \<Rightarrow> AccountDomain list \<Rightarrow> AccountDomain list" where
  "merge_alias fresh target alias rows =
     (if \<not> has_alias (a_id target) (ad_domain alias) rows \<and> Some (ad_domain alias) \<noteq> a_domain target
      then rows @ [\<lparr> ad_id = fresh rows, ad_accountId = a_id target, ad_domain = ad_domain alias \<rparr>]
      else rows)"

text \<open>
  The transaction fails when the events of both accounts share opportunity and stage, and when a log of a
  story regeneration still refers to the source (its foreign key restricts; the quotes of the source are
  deleted with it).
\<close>

definition mergeAccounts :: "ErFresh \<Rightarrow> millis \<Rightarrow> ident \<Rightarrow> ident \<Rightarrow> ident \<Rightarrow> ResolutionDb \<Rightarrow> (string, ResolutionDb) res" where
  "mergeAccounts fresh now sourceId targetId org db =
     (case (find_account org sourceId (rd_accounts db), find_account org targetId (rd_accounts db)) of
        (None, _) \<Rightarrow> Inl ''Source account not found''
      | (Some _, None) \<Rightarrow> Inl ''Target account not found''
      | (Some source, Some target) \<Rightarrow>
          if sourceId = targetId then Inl ''Cannot merge an account into itself''
          else
            let (contacts, participants) = fold (merge_contact targetId)
                  (filter (\<lambda>c. ct_accountId c = sourceId) (rd_contacts db)) (rd_contacts db, rd_participants db);
                (domains1, _) = add_main_domain (ef_alias fresh (rd_domains db)) target source (rd_domains db);
                domains2 = fold (merge_alias (ef_alias fresh) target) (filter (\<lambda>d. ad_accountId d = sourceId) domains1) domains1;
                events = update_many (\<lambda>e. se_accountId e = sourceId) (\<lambda>e. e\<lparr> se_accountId := targetId \<rparr>) (rd_events db)
            in
              if \<not> distinct (event_keys events) then Inl ''Unique constraint failed''
              else if list_ex (\<lambda>l. srl_accountId l = sourceId) (rd_regenLogs db) then Inl ''Foreign key constraint failed''
              else Inr (db\<lparr>
                rd_calls := update_many (\<lambda>c. call_accountId c = Some sourceId)
                  (\<lambda>c. c\<lparr> call_accountId := Some targetId, ic_updatedAt := now \<rparr>) (rd_calls db),
                rd_contacts := contacts, rd_participants := participants,
                rd_domains := delete_many (\<lambda>d. ad_accountId d = sourceId) domains2,
                rd_stories := update_many (\<lambda>s. st_accountId s = sourceId) (\<lambda>s. s\<lparr> st_accountId := targetId \<rparr>) (rd_stories db),
                rd_events := events,
                rd_access := (rd_access db)\<lparr> db_accountAccess := update_many (\<lambda>g. uaa_accountId g = Some sourceId)
                  (\<lambda>g. g\<lparr> uaa_accountId := Some targetId \<rparr>) (db_accountAccess (rd_access db)) \<rparr>,
                rd_quotes := delete_many (\<lambda>q. q_accountId q = sourceId) (rd_quotes db),
                rd_accounts := delete_many (\<lambda>a. a_id a = sourceId) (rd_accounts db) \<rparr>))"

subsection \<open>Suggestions\<close>

record SuggestedMatch =
  sm_accountId :: ident
  sm_accountName :: string
  sm_domain :: "string option"
  sm_confidence :: real
  sm_matchReason :: string

text \<open>The lookup of domains: primary domains first, aliases of the organization's accounts over them.\<close>

definition domain_lookup :: "ident \<Rightarrow> ResolutionDb \<Rightarrow> (string, ident \<times> string \<times> string option) jsmap" where
  "domain_lookup org db =
     fold (\<lambda>r m. case account_row (ad_accountId r) (rd_accounts db) of
         Some a \<Rightarrow> jm_set (ad_domain r) (a_id a, a_name a, Some (ad_domain r)) m | None \<Rightarrow> m)
       (filter (\<lambda>r. owned org (rd_accounts db) (ad_accountId r)) (rd_domains db))
       (fold (\<lambda>a m. if truthy (a_domain a) then jm_set (the (a_domain a)) (a_id a, a_name a, a_domain a) m else m)
         (filter (\<lambda>a. a_organizationId a = org) (rd_accounts db)) [])"

definition suggest :: "SuggestedMatch \<Rightarrow> (ident, SuggestedMatch) jsmap \<Rightarrow> (ident, SuggestedMatch) jsmap" where
  "suggest s m = (if jm_get m (sm_accountId s) = None then jm_set (sm_accountId s) s m else m)"

definition domain_suggestion :: "(string, ident \<times> string \<times> string option) jsmap \<Rightarrow> CallParticipantInput \<Rightarrow> SuggestedMatch option" where
  "domain_suggestion lookup p =
     (case participant_domain (pi_email p) of
        None \<Rightarrow> None
      | Some d \<Rightarrow>
          (case jm_get lookup d of
             None \<Rightarrow> None
           | Some (i, n, dm) \<Rightarrow> Some \<lparr> sm_accountId = i, sm_accountName = n, sm_domain = dm,
               sm_confidence = 85 / 100, sm_matchReason = ''Email domain match: '' @ d \<rparr>))"

definition domain_suggestions :: "(string, ident \<times> string \<times> string option) jsmap \<Rightarrow> CallParticipantInput list \<Rightarrow> SuggestedMatch list" where
  "domain_suggestions lookup ps = List.map_filter (domain_suggestion lookup) ps"

definition name_suggestion :: "string \<Rightarrow> Account \<times> real option \<Rightarrow> SuggestedMatch" where
  "name_suggestion candidate r =
     \<lparr> sm_accountId = a_id (fst r), sm_accountName = a_name (fst r), sm_domain = a_domain (fst r),
        sm_confidence = min (round2 (1 - score_of r)) (75 / 100),
        sm_matchReason = ''Fuzzy name match: \"'' @ candidate @ ''\"'' \<rparr>"

definition name_suggestions :: "search \<Rightarrow> Account list \<Rightarrow> string \<Rightarrow> SuggestedMatch list" where
  "name_suggestions search accounts candidate =
     (if length candidate < 2 then [] else map (name_suggestion candidate) (take 5 (search accounts candidate)))"

definition generateSuggestions :: "search \<Rightarrow> ident \<Rightarrow> string option \<Rightarrow> CallParticipantInput list \<Rightarrow> ResolutionDb \<Rightarrow> SuggestedMatch list" where
  "generateSuggestions search org callTitle ps db =
     (let accounts = filter (\<lambda>a. a_organizationId a = org) (rd_accounts db);
          names = (if truthy callTitle then [normalizeCompanyName (the callTitle)] else []) @
            map (\<lambda>p. normalizeCompanyName (the (pi_name p))) (filter (\<lambda>p. truthy (pi_name p)) ps);
          all = fold suggest (domain_suggestions (domain_lookup org db) ps @ concat (map (name_suggestions search accounts) names)) []
      in take 3 (sort_key (\<lambda>s. - sm_confidence s) (map snd all)))"

section \<open>Handlers\<close>

datatype er_call =
  Resolve ident ident | BulkResolve "ident list" ident | Dismiss "ident list" |
  CreateAccount ident string "string option" | MergeInto ident ident

definition id_list_ok :: "ident list \<Rightarrow> bool" where
  "id_list_ok ids \<longleftrightarrow> list_all (\<lambda>i. 1 \<le> length i) ids \<and> 1 \<le> length ids \<and> length ids \<le> 100"

definition er_body_ok :: "er_call \<Rightarrow> bool" where
  "er_body_ok call =
     (case call of
        Resolve c a \<Rightarrow> 1 \<le> length c \<and> 1 \<le> length a
      | BulkResolve ids a \<Rightarrow> id_list_ok ids \<and> 1 \<le> length a
      | Dismiss ids \<Rightarrow> id_list_ok ids
      | CreateAccount c n d \<Rightarrow> 1 \<le> length c \<and> 1 \<le> length n \<and> length n \<le> 255
      | MergeInto s t \<Rightarrow> 1 \<le> length s \<and> 1 \<le> length t)"

definition er_perform :: "ErFresh \<Rightarrow> millis \<Rightarrow> ident \<Rightarrow> er_call \<Rightarrow> ResolutionDb \<Rightarrow> (string, ResolutionDb) res" where
  "er_perform fresh now org call db =
     (case call of
        Resolve c a \<Rightarrow> resolveCall fresh now c a org db
      | BulkResolve ids a \<Rightarrow> Inr (snd (bulkResolve fresh now ids a org db))
      | Dismiss ids \<Rightarrow> Inr (snd (dismissCalls now ids org db))
      | CreateAccount c n d \<Rightarrow> map_sum id snd (createAccountFromCall fresh now c org n d db)
      | MergeInto s t \<Rightarrow> mergeAccounts fresh now s t org db)"

definition er_route :: "ErFresh \<Rightarrow> millis \<Rightarrow> AuthRequest \<Rightarrow> er_call \<Rightarrow> ResolutionDb \<Rightarrow> response \<times> ResolutionDb" where
  "er_route fresh now req call db =
     (case requirePermission ''manage_entity_resolution'' (rd_access db) req of
        Status code msg \<Rightarrow> (Response code msg, db)
      | Next \<Rightarrow>
          if \<not> truthy (req_organizationId req) then (Response 401 ''Authentication required'', db)
          else if \<not> er_body_ok call then (Response 400 ''validation_error'', db)
          else case er_perform fresh now (the (req_organizationId req)) call db of
            Inl message \<Rightarrow> (Response 400 message, db)
          | Inr db' \<Rightarrow> (Response 200 [], db'))"

end
