(* ===== verification/Resolution_Review.thy ===== *)
theory Resolution_Review
  imports Entity_Resolution
begin

text \<open>
  What resolution and review guarantee: resolved accounts belong to the caller's organization and are
  decided with known confidence, a review teaches the resolver, the handlers stay in their tenant; and
  where the two halves contradict each other.
\<close>

section \<open>Rows and their owners\<close>

lemma account_rowD: "account_row i rows = Some a \<Longrightarrow> a \<in> set rows \<and> a_id a = i"
  unfolding account_row_def by (drule find_SomeD) simp

lemma account_row_unique: "unique_key a_id rows \<Longrightarrow> a \<in> set rows \<Longrightarrow> account_row (a_id a) rows = Some a"
  unfolding account_row_def by (rule unique_key_find)

lemma ownedD: "owned org rows i \<Longrightarrow> \<exists>a \<in> set rows. a_id a = i \<and> a_organizationId a = org \<and> account_row i rows = Some a"
  by (auto simp: owned_def dest: account_rowD split: option.splits)

lemma find_account_owned:
  assumes "find_account org i rows = Some a" "unique_key a_id rows"
  shows "owned org rows i" "account_row i rows = Some a" "a_id a = i" "a_organizationId a = org" "a \<in> set rows"
  using find_SomeD [OF assms(1) [unfolded find_account_def]] account_row_unique [OF assms(2), of a] by (auto simp: owned_def)

text \<open>Rows of other organizations.\<close>

definition alien :: "ident \<Rightarrow> Account list \<Rightarrow> ident \<Rightarrow> bool" where
  "alien org rows i = (case account_row i rows of Some a \<Rightarrow> a_organizationId a \<noteq> org | None \<Rightarrow> False)"

lemma owned_not_alien: "owned org rows i \<Longrightarrow> \<not> alien org rows i"
  by (auto simp: owned_def alien_def split: option.splits)

section \<open>What the resolver answers\<close>

lemma set_participant_domains:
  "set (extractParticipantDomains ps) = {d. \<exists>p \<in> set ps. participant_domain (pi_email p) = Some d}"
  by (force simp: extractParticipantDomains_def List.map_filter_def)

lemma entity_simps [simp]:
  "re_accountId (entity a c b) = a_id a" "re_confidence (entity a c b) = c" "re_matchMethod (entity a c b) = b"
  "re_accountName (entity a c b) = a_name a"
  by (simp_all add: entity_def)

lemma email_match_sound:
  assumes "matchByEmailDomain org domains db = Some e"
  shows "\<exists>a \<in> set (rd_accounts db). re_accountId e = a_id a \<and> a_organizationId a = org \<and>
    re_matchMethod e = email_domain_match \<and> re_confidence e \<in> {85 / 100, 90 / 100, 95 / 100}"
proof -
  have o: "\<exists>a \<in> set (rd_accounts db). e = entity a c email_domain_match \<and> a_organizationId a = org"
    if "owned org (rd_accounts db) i" "map_option (\<lambda>a. entity a c email_domain_match) (account_row i (rd_accounts db)) = Some e" for i c
    using that by (auto dest!: ownedD)
  have "\<exists>a \<in> set (rd_accounts db). \<exists>c \<in> {85 / 100, 90 / 100, 95 / 100}. e = entity a c email_domain_match \<and> a_organizationId a = org"
    using assms unfolding matchByEmailDomain_def
    by (auto dest!: find_SomeD dest: o split: option.splits)
  then show ?thesis by auto
qed

lemma round2_bounds:
  assumes "7 / 10 \<le> x"
  shows "7 / 10 \<le> round2 x"
proof -
  have "(70 :: int) \<le> \<lfloor>x * 100 + 1 / 2\<rfloor>" using assms by (simp add: le_floor_iff)
  then have "(70 :: real) \<le> of_int \<lfloor>x * 100 + 1 / 2\<rfloor>" by linarith
  then show ?thesis by (simp add: round2_def)
qed

lemma fold_better_pool:
  assumes "\<And>c r. r \<in> set (search accounts c) \<Longrightarrow> fst r \<in> set accounts"
    and "case best of None \<Rightarrow> True | Some b \<Rightarrow> fst b \<in> set accounts" "fold (better search accounts) names best = Some (a, s)"
  shows "a \<in> set accounts"
  using assms(2,3)
proof (induction names arbitrary: best)
  case (Cons n ns)
  have "case better search accounts n best of None \<Rightarrow> True | Some b \<Rightarrow> fst b \<in> set accounts"
    using Cons.prems(1) assms(1) [of "hd (search accounts n)" n]
    by (cases "search accounts n") (auto simp: better_def split: option.splits)
  with Cons show ?case by simp
qed auto

lemma fuzzy_match_sound:
  assumes "matchByFuzzyName search org names db = Some e"
    and "\<And>accounts c r. r \<in> set (search accounts c) \<Longrightarrow> fst r \<in> set accounts"
  shows "\<exists>a \<in> set (rd_accounts db). re_accountId e = a_id a \<and> a_organizationId a = org \<and>
    re_matchMethod e = fuzzy_name_match \<and> 7 / 10 \<le> re_confidence e \<and> re_confidence e \<le> 75 / 100"
proof -
  let ?pool = "fuzzy_pool org names (rd_accounts db)"
  from assms(1) obtain a s where f: "fold (better search ?pool) names None = Some (a, Some s)" "s \<le> 3 / 10"
    and e: "e = entity a (min (round2 (1 - s)) (75 / 100)) fuzzy_name_match"
    by (auto simp: matchByFuzzyName_def Let_def split: if_splits option.splits)
  have "a \<in> set ?pool" by (rule fold_better_pool [OF assms(2) _ f(1)]) simp_all
  then have "a \<in> set (rd_accounts db)" "a_organizationId a = org"
    by (auto simp: fuzzy_pool_def Let_def dest!: in_set_takeD split: option.splits if_splits)
  moreover have "7 / 10 \<le> round2 (1 - s)" by (rule round2_bounds) (use f(2) in simp)
  ultimately show ?thesis using e by auto
qed

lemma resolution_stays_in_tenant_rule:
  assumes "\<And>accounts c r. r \<in> set (search accounts c) \<Longrightarrow> fst r \<in> set accounts"
    and "resolve search org ps callTitle db = e" "re_matchMethod e \<noteq> no_match"
  shows "\<exists>a \<in> set (rd_accounts db). re_accountId e = a_id a \<and> a_organizationId a = org \<and>
    (if re_matchMethod e = email_domain_match then re_confidence e \<in> {85 / 100, 90 / 100, 95 / 100}
     else 7 / 10 \<le> re_confidence e \<and> re_confidence e \<le> 75 / 100)"
  using assms(2,3) email_match_sound [of org _ db e] fuzzy_match_sound [of search org _ db e, OF _ assms(1)]
  by (fastforce simp: resolve_def Let_def unresolved_def split: option.splits if_splits)

text \<open>
  Whatever the fuzzy index answers among the accounts it is given, a call is matched with an account of
  its own organization or with none, and never with a confidence below 0.7: by address with 0.85 to 0.95,
  by name with at most 0.75.
\<close>

theorem resolution_stays_in_tenant:
  assumes "\<And>accounts c r. r \<in> set (search accounts c) \<Longrightarrow> fst r \<in> set accounts"
    and "resolve search org ps callTitle db = e" "re_matchMethod e \<noteq> no_match"
  shows "\<exists>a \<in> set (rd_accounts db). re_accountId e = a_id a \<and> a_organizationId a = org \<and>
    (if re_matchMethod e = email_domain_match then re_confidence e \<in> {85 / 100, 90 / 100, 95 / 100}
     else 7 / 10 \<le> re_confidence e \<and> re_confidence e \<le> 75 / 100)"
  by (rule resolution_stays_in_tenant_rule [OF assms])

section \<open>A review teaches the resolver\<close>

lemma fold_add_alias_mono: "set rows \<subseteq> set (fold (add_alias fresh org i accounts) ds rows)"
  by (induction ds arbitrary: rows) (force simp: add_alias_def)+

lemma fold_add_alias_new:
  "r \<in> set (fold (add_alias fresh org i accounts) ds rows) \<Longrightarrow> r \<in> set rows \<or> (ad_accountId r = i \<and> ad_domain r \<in> set ds)"
  by (induction ds arbitrary: rows) (fastforce simp: add_alias_def split: if_splits)+

lemma fold_add_alias_has:
  assumes "d \<in> set ds" "owned org accounts i"
    and "\<not> (\<exists>a \<in> set accounts. a_organizationId a = org \<and> a_domain a = Some d)"
  shows "\<exists>r \<in> set (fold (add_alias fresh org i accounts) ds rows). ad_domain r = d \<and> owned org accounts (ad_accountId r)"
  using assms(1)
proof (induction ds arbitrary: rows)
  case (Cons x ds)
  show ?case
  proof (cases "x = d")
    case True
    have "\<exists>r \<in> set (add_alias fresh org i accounts x rows). ad_domain r = d \<and> owned org accounts (ad_accountId r)"
      using assms(2,3) True by (auto simp: add_alias_def list_ex_iff)
    then show ?thesis using fold_add_alias_mono [of "add_alias fresh org i accounts x rows" fresh org i accounts ds] by auto
  next
    case False
    with Cons show ?thesis by simp
  qed
qed simp

text \<open>
  After a call was assigned to an account, every later call whose participants all have one domain of that
  call's participants is matched with the account, unless the organization had given the domain to another.
\<close>

theorem review_teaches_resolver:
  assumes "resolveCall fresh now callId accountId org db = Inr db'" "unique_key a_id (rd_accounts db)"
    and "p \<in> set (rd_participants db)" "cp_callId p = callId" "participant_domain (ip_email p) = Some d"
    and "list_all (\<lambda>a. a_organizationId a = org \<and> a_domain a = Some d \<longrightarrow> a_id a = accountId) (rd_accounts db)"
    and "list_all (\<lambda>r. ad_domain r = d \<and> owned org (rd_accounts db) (ad_accountId r) \<longrightarrow> ad_accountId r = accountId) (rd_domains db)"
    and "extractParticipantDomains ps = [d]"
  shows "re_accountId (resolve search org ps callTitle db') = accountId \<and>
    re_matchMethod (resolve search org ps callTitle db') = email_domain_match"
proof -
  from assms(1) obtain call account where c: "find_call org callId (rd_calls db) = Some call"
    and a: "find_account org accountId (rd_accounts db) = Some account"
    and db': "rd_accounts db' = rd_accounts db"
      "rd_domains db' = fold (add_alias (ef_alias fresh) org accountId (rd_accounts db))
         (new_domains account (call_people callId (rd_participants db))) (rd_domains db)"
    by (auto simp: resolveCall_def Let_def split: option.splits)
  note acc = find_account_owned [OF a assms(2)]
  have d: "d \<in> set (extractParticipantDomains (call_people callId (rd_participants db)))"
    unfolding set_participant_domains call_people_def using assms(3-5) by force
  let ?primary = "\<lambda>x. a_organizationId x = org \<and> (case a_domain x of Some e \<Rightarrow> e \<in> set [d] | None \<Rightarrow> False)"
  have "\<exists>e. matchByEmailDomain org [d] db' = Some e \<and> re_accountId e = accountId"
  proof (cases "List.find ?primary (rd_accounts db)")
    case (Some x)
    with find_SomeD [OF Some] assms(6) have "a_id x = accountId" by (auto simp: list_all_iff split: option.splits)
    with Some show ?thesis by (simp add: matchByEmailDomain_def db'(1))
  next
    case None
    then have no: "\<not> (\<exists>x \<in> set (rd_accounts db). a_organizationId x = org \<and> a_domain x = Some d)"
      by (auto simp: find_None_iff)
    then have "d \<in> set (new_domains account (call_people callId (rd_participants db)))"
      using d acc(4,5) by (auto simp: new_domains_def)
    from fold_add_alias_has [OF this acc(1) no] obtain r where r: "r \<in> set (rd_domains db')" "ad_domain r \<in> set [d]"
      "owned org (rd_accounts db) (ad_accountId r)" unfolding db'(2) by auto
    then obtain r' where r': "List.find (\<lambda>r. ad_domain r \<in> set [d] \<and> owned org (rd_accounts db) (ad_accountId r)) (rd_domains db') = Some r'"
      using find_ex [of "\<lambda>r. ad_domain r \<in> set [d] \<and> owned org (rd_accounts db) (ad_accountId r)" "rd_domains db'"] by blast
    have "r' \<in> set (rd_domains db')" "ad_domain r' = d" "owned org (rd_accounts db) (ad_accountId r')"
      using find_SomeD [OF r'] by auto
    then have "ad_accountId r' = accountId"
      using assms(7) fold_add_alias_new [of r'] unfolding db'(2) by (fastforce simp: list_all_iff)
    with None r' acc(2,3) show ?thesis by (simp add: matchByEmailDomain_def db'(1) del: list.set)
  qed
  then obtain e where e: "matchByEmailDomain org [d] db' = Some e" "re_accountId e = accountId" by blast
  moreover have "re_matchMethod e = email_domain_match" using email_match_sound [OF e(1)] by blast
  ultimately show ?thesis by (simp add: resolve_def Let_def assms(8))
qed

section \<open>Handlers and tenants\<close>

lemma filter_fold: "(\<And>x rows. x \<in> set xs \<Longrightarrow> filter q (f x rows) = filter q rows) \<Longrightarrow> filter q (fold f xs rows) = filter q rows"
  by (induction xs arbitrary: rows) auto

lemma link_contact_frame: "\<not> q i \<Longrightarrow> filter (\<lambda>c. q (ct_accountId c)) (link_contact fresh i p rows) = filter (\<lambda>c. q (ct_accountId c)) rows"
  by (auto simp: link_contact_def upsert_contact_def has_address_def intro!: filter_upsert_other split: option.splits)

lemma add_alias_frame: "\<not> q i \<Longrightarrow> filter (\<lambda>r. q (ad_accountId r)) (add_alias fresh org i accounts d rows) = filter (\<lambda>r. q (ad_accountId r)) rows"
  by (auto simp: add_alias_def)

lemma merge_contact_frame:
  assumes "\<not> q target" "list_all (\<lambda>c. ct_id c \<in> ct_id ` set cs \<longrightarrow> \<not> q (ct_accountId c)) contacts"
  shows "filter (\<lambda>c. q (ct_accountId c)) (fst (fold (merge_contact target) cs (contacts, participants))) =
    filter (\<lambda>c. q (ct_accountId c)) contacts"
  using assms(2)
proof (induction cs arbitrary: contacts participants)
  case (Cons x cs)
  let ?st = "merge_contact target x (contacts, participants)"
  have one: "filter (\<lambda>c. q (ct_accountId c)) (fst ?st) = filter (\<lambda>c. q (ct_accountId c)) contacts"
    using Cons.prems assms(1)
    by (auto simp: merge_contact_def delete_many_def filter_filter list_all_iff intro!: filter_cong filter_update_many_on
        split: option.splits)
  have "list_all (\<lambda>c. ct_id c \<in> ct_id ` set cs \<longrightarrow> \<not> q (ct_accountId c)) (fst ?st)"
    using Cons.prems assms(1) by (auto simp: merge_contact_def list_all_iff elim!: in_update_manyE split: option.splits)
  from Cons.IH [OF this, of "snd ?st"] one show ?case by simp
qed simp

lemma merge_alias_frame: "\<not> q (a_id t) \<Longrightarrow> filter (\<lambda>r. q (ad_accountId r)) (merge_alias fresh t al rows) = filter (\<lambda>r. q (ad_accountId r)) rows"
  by (auto simp: merge_alias_def)

text \<open>A call, and a story, belongs to an account of its own organization.\<close>

definition resolution_wf :: "ResolutionDb \<Rightarrow> bool" where
  "resolution_wf db \<longleftrightarrow> unique_key a_id (rd_accounts db) \<and> unique_key call_id (rd_calls db) \<and> unique_key ct_id (rd_contacts db) \<and>
     list_all (\<lambda>c. case call_accountId c of None \<Rightarrow> True | Some i \<Rightarrow> owned (call_organizationId c) (rd_accounts db) i) (rd_calls db) \<and>
     list_all (\<lambda>s. owned (st_organizationId s) (rd_accounts db) (st_accountId s)) (rd_stories db)"

text \<open>The rows of other organizations, by the accounts of \<open>accounts\<close>.\<close>

definition others :: "ident \<Rightarrow> Account list \<Rightarrow> ResolutionDb
    \<Rightarrow> Account list \<times> IntakeCall list \<times> IntakeContact list \<times> AccountDomain list \<times> Story list" where
  "others org accounts db =
     (filter (\<lambda>a. a_organizationId a \<noteq> org) (rd_accounts db), filter (\<lambda>c. call_organizationId c \<noteq> org) (rd_calls db),
      filter (\<lambda>c. alien org accounts (ct_accountId c)) (rd_contacts db),
      filter (\<lambda>r. alien org accounts (ad_accountId r)) (rd_domains db),
      filter (\<lambda>s. st_organizationId s \<noteq> org) (rd_stories db))"

lemma find_callD: "find_call org i rows = Some c \<Longrightarrow> c \<in> set rows \<and> call_id c = i \<and> call_organizationId c = org"
  unfolding find_call_def by (drule find_SomeD) simp

lemma set_call_rows:
  "c \<in> set (set_call now i f rows) \<Longrightarrow> call_id c = i \<Longrightarrow> \<exists>r \<in> set rows. c = (f r)\<lparr> ic_updatedAt := now \<rparr>"
  unfolding set_call_def by (erule in_update_manyE) blast+

lemma set_call_frame:
  assumes "unique_key call_id rows" "find_call org i rows = Some c" "\<And>c. call_organizationId (f c) = call_organizationId c"
  shows "filter (\<lambda>c. call_organizationId c \<noteq> org) (set_call now i f rows) = filter (\<lambda>c. call_organizationId c \<noteq> org) rows"
  unfolding set_call_def
  by (rule filter_update_many_on)
    (use unique_key_eq [OF assms(1)] find_callD [OF assms(2)] assms(3) in fastforce)

lemma resolveCall_others:
  assumes "resolveCall fresh now callId accountId org db = Inr db'" "unique_key call_id (rd_calls db)"
    and "\<not> alien org accounts accountId"
  shows "others org accounts db' = others org accounts db"
proof -
  from assms(1) obtain call where c: "find_call org callId (rd_calls db) = Some call"
    by (auto simp: resolveCall_def split: option.splits)
  with assms(1) show ?thesis
    by (auto simp: resolveCall_def Let_def others_def set_call_frame [OF assms(2) c]
        filter_fold [where q = "\<lambda>r. alien org accounts (ad_accountId r)", OF add_alias_frame [where q = "alien org accounts", OF assms(3)]]
        filter_fold [where q = "\<lambda>c. alien org accounts (ct_accountId c)", OF link_contact_frame [where q = "alien org accounts", OF assms(3)]] split: option.splits)
qed

lemma resolveCall_keys:
  assumes "resolveCall fresh now callId accountId org db = Inr db'"
  shows "rd_accounts db' = rd_accounts db" "map call_id (rd_calls db') = map call_id (rd_calls db)"
  using assms by (auto simp: resolveCall_def Let_def set_call_def map_update_many_inv split: option.splits)

lemma bulk_others:
  assumes "unique_key call_id (rd_calls db)" "unique_key a_id (rd_accounts db)"
  shows "others org (rd_accounts db) (snd (bulk_loop fresh now accountId org ids (n, db))) = others org (rd_accounts db) db"
  using assms
proof (induction ids arbitrary: n db)
  case (Cons i ids)
  show ?case
  proof (cases "resolveCall fresh now i accountId org db")
    case (Inl e)
    with Cons show ?thesis by simp
  next
    case (Inr db1)
    then obtain a where a: "find_account org accountId (rd_accounts db) = Some a"
      by (auto simp: resolveCall_def split: option.splits)
    have "\<not> alien org (rd_accounts db) accountId"
      using find_account_owned(1) [OF a Cons.prems(2)] by (rule owned_not_alien)
    from resolveCall_others [OF Inr Cons.prems(1) this] resolveCall_keys [OF Inr] Cons.prems Cons.IH [of db1 "n + 1"] Inr
    show ?thesis by (simp add: unique_key_def)
  qed
qed simp

lemma mergeAccounts_others:
  assumes m: "mergeAccounts fresh now s t org db = Inr db'" and wf: "resolution_wf db"
  shows "others org (rd_accounts db) db' = others org (rd_accounts db) db"
proof -
  let ?al = "alien org (rd_accounts db)"
  have u: "unique_key a_id (rd_accounts db)" using wf by (simp add: resolution_wf_def)
  from m obtain source target where f: "find_account org s (rd_accounts db) = Some source"
      "find_account org t (rd_accounts db) = Some target" "s \<noteq> t"
    and out: "rd_calls db' = update_many (\<lambda>c. call_accountId c = Some s) (\<lambda>c. c\<lparr> call_accountId := Some t, ic_updatedAt := now \<rparr>) (rd_calls db)"
      "rd_contacts db' = fst (fold (merge_contact t) (filter (\<lambda>c. ct_accountId c = s) (rd_contacts db)) (rd_contacts db, rd_participants db))"
      "rd_domains db' = (let domains1 = fst (add_main_domain (ef_alias fresh (rd_domains db)) target source (rd_domains db)) in
         delete_many (\<lambda>d. ad_accountId d = s)
           (fold (merge_alias (ef_alias fresh) target) (filter (\<lambda>d. ad_accountId d = s) domains1) domains1))"
      "rd_stories db' = update_many (\<lambda>x. st_accountId x = s) (\<lambda>x. x\<lparr> st_accountId := t \<rparr>) (rd_stories db)"
      "rd_accounts db' = delete_many (\<lambda>a. a_id a = s) (rd_accounts db)"
    by (auto simp: mergeAccounts_def Let_def case_prod_beta split: option.splits if_splits)
  note os = find_account_owned [OF f(1) u] and ot = find_account_owned [OF f(2) u]
  have na: "\<not> ?al s" "\<not> ?al t" using os(1) ot(1) by (simp_all add: owned_not_alien)
  have acc: "filter (\<lambda>a. a_organizationId a \<noteq> org) (rd_accounts db') = filter (\<lambda>a. a_organizationId a \<noteq> org) (rd_accounts db)"
    unfolding out(5) delete_many_def filter_filter
    by (rule filter_cong) (use unique_key_eq [OF u] os(3-5) in auto)
  have calls: "filter (\<lambda>c. call_organizationId c \<noteq> org) (rd_calls db') = filter (\<lambda>c. call_organizationId c \<noteq> org) (rd_calls db)"
    unfolding out(1) by (rule filter_update_many_on)
      (use wf os(2,4) in \<open>fastforce simp: resolution_wf_def list_all_iff owned_def\<close>)
  have stories: "filter (\<lambda>x. st_organizationId x \<noteq> org) (rd_stories db') = filter (\<lambda>x. st_organizationId x \<noteq> org) (rd_stories db)"
    unfolding out(4) by (rule filter_update_many_on)
      (use wf os(2,4) in \<open>fastforce simp: resolution_wf_def list_all_iff owned_def\<close>)
  have "unique_key ct_id (rd_contacts db)" using wf by (simp add: resolution_wf_def)
  then have "list_all (\<lambda>c. ct_id c \<in> ct_id ` set (filter (\<lambda>c. ct_accountId c = s) (rd_contacts db)) \<longrightarrow> \<not> ?al (ct_accountId c)) (rd_contacts db)"
    using na(1) unique_key_eq by (fastforce simp: list_all_iff)
  from merge_contact_frame [OF na(2) this] have contacts:
    "filter (\<lambda>c. ?al (ct_accountId c)) (rd_contacts db') = filter (\<lambda>c. ?al (ct_accountId c)) (rd_contacts db)"
    unfolding out(2) by simp
  have dom1: "filter (\<lambda>r. ?al (ad_accountId r)) (fst (add_main_domain i target source rows)) = filter (\<lambda>r. ?al (ad_accountId r)) rows" for i rows
    using na(2) ot(3) by (simp add: add_main_domain_def Let_def)
  have "\<not> ?al (a_id target)" using na(2) ot(3) by simp
  note dom2 = filter_fold [where q = "\<lambda>r. ?al (ad_accountId r)", OF merge_alias_frame [where q = ?al, OF this]]
  have drop: "filter (\<lambda>r. ?al (ad_accountId r)) (delete_many (\<lambda>d. ad_accountId d = s) rows) = filter (\<lambda>r. ?al (ad_accountId r)) rows" for rows
    unfolding delete_many_def filter_filter by (rule filter_cong) (use na(1) in auto)
  have "filter (\<lambda>r. ?al (ad_accountId r)) (rd_domains db') = filter (\<lambda>r. ?al (ad_accountId r)) (rd_domains db)"
    unfolding out(3) by (simp add: Let_def drop dom2 dom1)
  with acc calls stories contacts show ?thesis by (simp add: others_def)
qed


lemma createAccount_others:
  assumes c: "createAccountFromCall fresh now callId org name d db = Inr (i, db')" and wf: "resolution_wf db"
    and new: "account_row (ef_account fresh (rd_accounts db)) (rd_accounts db) = None"
  shows "others org (rd_accounts db) db' = others org (rd_accounts db) db"
proof -
  have "i = ef_account fresh (rd_accounts db) \<and>
      (\<exists>dom. resolveCall fresh now callId i org (db\<lparr> rd_accounts := rd_accounts db @ [new_account i org name dom] \<rparr>) = Inr db')"
    using c by (auto simp: createAccountFromCall_def Let_def split: option.splits if_splits sum.splits)
  then obtain dm where i: "i = ef_account fresh (rd_accounts db)"
    and "resolveCall fresh now callId i org (db\<lparr> rd_accounts := rd_accounts db @ [new_account i org name dm] \<rparr>) = Inr db'" by blast
  moreover have "a_organizationId (new_account i org name dm) = org" by (simp add: new_account_def)
  ultimately obtain a where a: "a_organizationId a = org"
    and r: "resolveCall fresh now callId i org (db\<lparr> rd_accounts := rd_accounts db @ [a] \<rparr>) = Inr db'" by blast
  have "\<not> alien org (rd_accounts db) i" using new i by (simp add: alien_def)
  moreover have "unique_key call_id (rd_calls (db\<lparr> rd_accounts := rd_accounts db @ [a] \<rparr>))" using wf by (simp add: resolution_wf_def)
  ultimately have "others org (rd_accounts db) db' = others org (rd_accounts db) (db\<lparr> rd_accounts := rd_accounts db @ [a] \<rparr>)"
    using resolveCall_others [OF r] by blast
  then show ?thesis using a(1) by (simp add: others_def)
qed

text \<open>
  Whatever a request to the review queue asks for, the accounts, calls, contacts, domains and stories of the
  other organizations stay as they are.
\<close>

theorem review_stays_in_tenant:
  assumes "resolution_wf db" "account_row (ef_account fresh (rd_accounts db)) (rd_accounts db) = None"
    and "req_organizationId req = Some org"
  shows "others org (rd_accounts db) (snd (er_route fresh now req call db)) = others org (rd_accounts db) db"
proof -
  have u: "unique_key call_id (rd_calls db)" "unique_key a_id (rd_accounts db)" using assms(1) by (simp_all add: resolution_wf_def)
  have "others org (rd_accounts db) db' = others org (rd_accounts db) db" if p: "er_perform fresh now org call db = Inr db'" for db'
  proof (cases call)
    case (Resolve c a)
    with p have r: "resolveCall fresh now c a org db = Inr db'" by (simp add: er_perform_def)
    then obtain x where "find_account org a (rd_accounts db) = Some x" by (auto simp: resolveCall_def split: option.splits)
    from owned_not_alien [OF find_account_owned(1) [OF this u(2)]] show ?thesis by (rule resolveCall_others [OF r u(1)])
  next
    case (BulkResolve ids a)
    with p bulk_others [OF u] show ?thesis by (auto simp: er_perform_def bulkResolve_def)
  next
    case (Dismiss ids)
    with p have "db' = snd (dismissCalls now ids org db)" by (simp add: er_perform_def)
    then show ?thesis by (auto simp: dismissCalls_def Let_def others_def intro!: filter_update_many_on)
  next
    case (CreateAccount c n d)
    with p obtain i where "createAccountFromCall fresh now c org n d db = Inr (i, db')"
      by (cases "createAccountFromCall fresh now c org n d db") (auto simp: er_perform_def)
    then show ?thesis by (rule createAccount_others [OF _ assms(1,2)])
  next
    case (MergeInto s t)
    with p have "mergeAccounts fresh now s t org db = Inr db'" by (simp add: er_perform_def)
    then show ?thesis by (rule mergeAccounts_others [OF _ assms(1)])
  qed
  then show ?thesis using assms(3) by (auto simp: er_route_def split: guard.splits sum.splits)
qed

section \<open>Suggestions\<close>

lemma suggest_wf: "jm_wf m \<Longrightarrow> jm_wf (suggest s m)"
  by (simp add: suggest_def jm.wf_put)

lemma fold_suggest:
  assumes "jm_wf m" "list_all (\<lambda>(i, s). sm_accountId s = i \<and> P s) m" "list_all P ss"
  shows "jm_wf (fold suggest ss m) \<and> list_all (\<lambda>(i, s). sm_accountId s = i \<and> P s) (fold suggest ss m)"
  using assms
proof (induction ss arbitrary: m)
  case (Cons s ss)
  have "list_all (\<lambda>(i, s). sm_accountId s = i \<and> P s) (suggest s m)"
    using Cons.prems(2,3) jm_set_new [of m "sm_accountId s" s] by (auto simp: suggest_def)
  with Cons show ?case by (simp add: suggest_wf)
qed simp

text \<open>The lookup holds only accounts of the organization.\<close>

lemma list_all_jm_set: "list_all P m \<Longrightarrow> P (k, v) \<Longrightarrow> list_all P (jm_set k v m)"
  by (induction m) auto

definition lookup_owned :: "ident \<Rightarrow> ResolutionDb \<Rightarrow> (string, ident \<times> string \<times> string option) jsmap \<Rightarrow> bool" where
  "lookup_owned org db m \<longleftrightarrow>
     list_all (\<lambda>e. \<exists>a \<in> set (rd_accounts db). a_id a = fst (snd e) \<and> a_organizationId a = org) m"

lemma lookup_owned_set: "lookup_owned org db m \<Longrightarrow> a \<in> set (rd_accounts db) \<Longrightarrow> a_organizationId a = org \<Longrightarrow>
    lookup_owned org db (jm_set d (a_id a, n, e) m)"
  unfolding lookup_owned_def by (rule list_all_jm_set) auto

lemma domain_lookup_sound: "lookup_owned org db (domain_lookup org db)"
  unfolding domain_lookup_def
proof (rule fold_invariant [where Q = "\<lambda>r. owned org (rd_accounts db) (ad_accountId r)"])
  show "lookup_owned org db (fold (\<lambda>a m. if truthy (a_domain a) then jm_set (the (a_domain a)) (a_id a, a_name a, a_domain a) m else m)
      (filter (\<lambda>a. a_organizationId a = org) (rd_accounts db)) [])"
    by (rule fold_invariant [where Q = "\<lambda>a. a \<in> set (rd_accounts db) \<and> a_organizationId a = org"])
      (auto simp: lookup_owned_set, simp add: lookup_owned_def)
next
  fix r m
  assume "owned org (rd_accounts db) (ad_accountId r)" "lookup_owned org db m"
  then show "lookup_owned org db (case account_row (ad_accountId r) (rd_accounts db) of
      Some a \<Rightarrow> jm_set (ad_domain r) (a_id a, a_name a, Some (ad_domain r)) m | None \<Rightarrow> m)"
    using lookup_owned_set [of org db m] by (auto dest!: ownedD) metis
qed simp

definition suggestion_ok :: "ident \<Rightarrow> ResolutionDb \<Rightarrow> SuggestedMatch \<Rightarrow> bool" where
  "suggestion_ok org db x \<longleftrightarrow>
     sm_confidence x \<le> 85 / 100 \<and> (\<exists>a \<in> set (rd_accounts db). a_id a = sm_accountId x \<and> a_organizationId a = org)"

lemma name_suggestions_ok:
  assumes "\<And>accounts c r. r \<in> set (search accounts c) \<Longrightarrow> fst r \<in> set accounts"
  shows "list_all (suggestion_ok org db) (name_suggestions search (filter (\<lambda>a. a_organizationId a = org) (rd_accounts db)) c)"
proof (unfold list_all_iff, rule ballI)
  let ?acc = "filter (\<lambda>a. a_organizationId a = org) (rd_accounts db)"
  fix x assume "x \<in> set (name_suggestions search ?acc c)"
  then obtain r where r: "r \<in> set (take 5 (search ?acc c))" and e: "x = name_suggestion c r"
    by (auto simp only: name_suggestions_def set_map if_False if_True list.set split: if_split_asm)
  then have x: "sm_accountId x = a_id (fst r)" and c: "sm_confidence x = min (round2 (1 - score_of r)) (75 / 100)"
    by (simp_all add: name_suggestion_def)
  have "fst r \<in> set ?acc" by (rule assms [OF in_set_takeD [OF r]])
  then have "\<exists>a \<in> set (rd_accounts db). a_id a = sm_accountId x \<and> a_organizationId a = org" using x by auto
  moreover have "sm_confidence x \<le> 85 / 100" using c by linarith
  ultimately show "suggestion_ok org db x" by (simp add: suggestion_ok_def)
qed

lemma domain_suggestions_ok: "list_all (suggestion_ok org db) (domain_suggestions (domain_lookup org db) ps)"
proof (unfold list_all_iff, rule ballI)
  fix x assume "x \<in> set (domain_suggestions (domain_lookup org db) ps)"
  then obtain p where "domain_suggestion (domain_lookup org db) p = Some x" by (auto simp: domain_suggestions_def List.map_filter_def)
  then obtain d where "(d, sm_accountId x, sm_accountName x, sm_domain x) \<in> set (domain_lookup org db)" "sm_confidence x = 85 / 100"
    by (auto simp: domain_suggestion_def jm_get_def dest!: map_of_SomeD split: option.splits)
  then show "suggestion_ok org db x" using domain_lookup_sound [of org db] by (force simp: lookup_owned_def list_all_iff suggestion_ok_def)
qed

text \<open>
  The suggestions for a call are at most three accounts of the caller's organization, no account twice, the
  most confident first; none is above 0.85.
\<close>

theorem suggestions_ranked:
  assumes "\<And>accounts c r. r \<in> set (search accounts c) \<Longrightarrow> fst r \<in> set accounts"
    and "s = generateSuggestions search org callTitle ps db"
  shows "length s \<le> 3 \<and> distinct (map sm_accountId s) \<and> sorted (map (\<lambda>x. - sm_confidence x) s) \<and>
    list_all (suggestion_ok org db) s"
proof -
  let ?P = "suggestion_ok org db" and ?acc = "filter (\<lambda>a. a_organizationId a = org) (rd_accounts db)"
  have "list_all ?P (concat (map (name_suggestions search ?acc) ns))" for ns
    by (induction ns) (simp_all add: name_suggestions_ok [OF assms(1)])
  then have ok: "list_all ?P (domain_suggestions (domain_lookup org db) ps @ concat (map (name_suggestions search ?acc) ns))" for ns
    by (simp add: domain_suggestions_ok)
  obtain found where found: "list_all ?P found"
    and s: "s = take 3 (sort_key (\<lambda>s. - sm_confidence s) (map snd (fold suggest found [])))"
    by (rule that [OF ok]) (simp only: assms(2) generateSuggestions_def Let_def)
  from fold_suggest [where P = ?P, OF _ _ found, of "[]"] have
    m: "distinct (map fst (fold suggest found []))" "list_all (\<lambda>(i, s). sm_accountId s = i \<and> ?P s) (fold suggest found [])"
    by (simp_all add: jm_wf_def)
  from m(2) have fst: "map sm_accountId (map snd (fold suggest found [])) = map fst (fold suggest found [])"
    by (auto simp: list_all_iff)
  let ?all = "map snd (fold suggest found [])"
  from m(1) fst have "distinct ?all" "inj_on sm_accountId (set ?all)" by (metis distinct_map)+
  then have d: "distinct (map sm_accountId (sort_key (\<lambda>s. - sm_confidence s) ?all))" by (simp add: distinct_map)
  from m(2) have "x \<in> set (sort_key (\<lambda>s. - sm_confidence s) ?all) \<Longrightarrow> ?P x" for x by (auto simp: list_all_iff)
  then have "list_all ?P s" unfolding s list_all_iff by (intro ballI, drule_tac in_set_takeD) simp
  moreover have "distinct (map sm_accountId s)" unfolding s take_map [symmetric] by (rule distinct_take [OF d])
  moreover have "sorted (map (\<lambda>x. - sm_confidence x) s)" unfolding s take_map [symmetric] by (rule sorted_wrt_take) simp
  moreover have "length s \<le> 3" unfolding s by simp
  ultimately show ?thesis by simp
qed

section \<open>Where the halves contradict each other\<close>

text \<open>
  The guard asks for a permission name the policy engine does not know: everybody but owners and
  administrators is answered 500, whatever was granted to them.
\<close>

theorem entity_queue_needs_admin:
  assumes "truthy (req_userId req)" "truthy (req_organizationId req)" "\<not> is_admin (req_userRole req)"
  shows "er_route fresh now req call db = (Response 500 ''Unknown permission action: manage_entity_resolution'', db)"
  using assms by (simp add: er_route_def requirePermission_def legacyPermissionActionToPolicyAction_def)

text \<open>
  A call the resolver has just linked to an account is in the review queue exactly if it was before: the
  link does not record how it was found.
\<close>

theorem linked_call_stays_in_queue:
  assumes "resolveAndLinkContacts search fresh now org callId ps callTitle db = (e, db')" "re_matchMethod e \<noteq> no_match"
  shows "map (needs_review org' s) (rd_calls db') = map (needs_review org' s) (rd_calls db) \<and>
    list_all (\<lambda>c. call_id c = callId \<longrightarrow> call_accountId c = Some (re_accountId e)) (rd_calls db')"
proof -
  have c: "rd_calls db' = set_call now callId (\<lambda>c. c\<lparr> call_accountId := Some (re_accountId e) \<rparr>) (rd_calls db)"
    using assms by (auto simp: resolveAndLinkContacts_def Let_def split: if_splits)
  have "map (needs_review org' s) (rd_calls db') = map (needs_review org' s) (rd_calls db)"
    unfolding c set_call_def by (rule map_update_many_inv) (simp add: needs_review_def)
  moreover have "list_all (\<lambda>c. call_id c = callId \<longrightarrow> call_accountId c = Some (re_accountId e)) (rd_calls db')"
    unfolding c list_all_iff by (intro ballI impI, drule (1) set_call_rows, erule bexE) simp
  ultimately show ?thesis by simp
qed

text \<open>
  A person's decision does not last: when the call is delivered again and its participants are not
  recognised, the call loses its account and goes back to the queue.
\<close>

theorem redelivery_undoes_review:
  assumes "resolveCall fresh now callId accountId org db = Inr db1"
    and "resolveAndLinkContacts search fresh2 later org callId ps callTitle db1 = (e, db2)" "re_matchMethod e = no_match"
    and "c \<in> set (rd_calls db2)" "call_id c = callId"
  shows "call_accountId c = None \<and> ic_matchMethod c = NONE"
proof -
  have "rd_calls db2 = set_call later callId (\<lambda>c. c\<lparr> call_accountId := None, ic_matchMethod := NONE, ic_matchConfidence := 0 \<rparr>) (rd_calls db1)"
    using assms(2,3) by (auto simp: resolveAndLinkContacts_def Let_def split: if_splits)
  with assms(4) have "c \<in> set (set_call later callId (\<lambda>c. c\<lparr> call_accountId := None, ic_matchMethod := NONE, ic_matchConfidence := 0 \<rparr>) (rd_calls db1))"
    by simp
  from set_call_rows [OF this assms(5)] show ?thesis by (elim bexE) simp
qed

section \<open>Concrete runs\<close>

definition sample_account :: "ident \<Rightarrow> ident \<Rightarrow> string \<Rightarrow> string option \<Rightarrow> Account" where
  "sample_account i org name domain = new_account i org name domain"

definition sample_resolution :: ResolutionDb where
  "sample_resolution =
     \<lparr> rd_accounts = [new_account ''a1'' ''org'' ''Acme'' (Some ''acme.com''), new_account ''a2'' ''org'' ''Globex'' None,
         new_account ''b1'' ''other'' ''Rival'' (Some ''big.io'')],
       rd_domains = [], rd_contacts = [],
       rd_calls = [\<lparr> call_id = ''c1'', call_organizationId = ''org'', call_accountId = None, call_duration = None,
         ic_title = Some ''Intro'', ic_provider = ''GONG'', ic_mergeRecordingId = None, ic_externalId = Some ''x1'', ic_recordingUrl = None,
         ic_occurredAt = 0, ic_matchMethod = NONE, ic_matchConfidence = 0, ic_dismissedAt = None, ic_updatedAt = 0 \<rparr>],
       rd_participants = [\<lparr> cp_id = ''p1'', cp_callId = ''c1'', cp_contactId = None, ip_email = Some ''Ann@big.io'', ip_name = None, ip_isHost = False \<rparr>],
       rd_stories = [], rd_events = [],
       rd_access = \<lparr> db_users = [], db_roleProfiles = [], db_roleAssignments = [], db_usageLimits = [], db_accountAccess = [],
         db_userPermissions = [], db_orgSettings = [] \<rparr>,
       rd_quotes = [], rd_regenLogs = [], rd_notifications = [] \<rparr>"

definition no_search :: search where
  "no_search accounts c = []"

definition sample_fresh :: ErFresh where
  "sample_fresh = \<lparr> ef_contact = (\<lambda>_. ''k''), ef_alias = (\<lambda>_. ''l''), ef_account = (\<lambda>_. ''n'') \<rparr>"

definition bob :: CallParticipantInput where
  "bob = \<lparr> pi_email = Some ''bob@acme.com'', pi_name = Some ''Bob'' \<rparr>"

definition eve :: CallParticipantInput where
  "eve = \<lparr> pi_email = Some ''eve@big.io'', pi_name = None \<rparr>"

lemma bob_domains: "extractParticipantDomains [bob] = [''acme.com'']" "extractParticipantDomains [eve] = [''big.io'']"
  "participant_domain (Some ''Ann@big.io'') = Some ''big.io''"
  by code_simp+

lemma sample_resolution_wf: "resolution_wf sample_resolution"
  by (simp add: resolution_wf_def sample_resolution_def new_account_def unique_key_def)

theorem resolution_stays_in_tenant_witness:
  "\<exists>a \<in> set (rd_accounts sample_resolution). a_id a = ''a1'' \<and> a_organizationId a = ''org''"
proof -
  have e: "resolve no_search ''org'' [bob] None sample_resolution = entity (new_account ''a1'' ''org'' ''Acme'' (Some ''acme.com'')) (95 / 100) email_domain_match"
    by (simp add: resolve_def Let_def bob_domains matchByEmailDomain_def sample_resolution_def new_account_def)
  have "\<exists>a \<in> set (rd_accounts sample_resolution). re_accountId (entity (new_account ''a1'' ''org'' ''Acme'' (Some ''acme.com'')) (95 / 100) email_domain_match) = a_id a \<and>
      a_organizationId a = ''org''"
    using resolution_stays_in_tenant [of no_search, OF _ e] by (auto simp: no_search_def)
  then show ?thesis by (auto simp: new_account_def)
qed

lemma sample_resolveCall: "\<exists>db. resolveCall sample_fresh 5 ''c1'' ''a2'' ''org'' sample_resolution = Inr db"
  by (simp add: resolveCall_def find_call_def find_account_def sample_resolution_def new_account_def Let_def)

theorem review_teaches_resolver_witness:
  "\<exists>db'. resolveCall sample_fresh 5 ''c1'' ''a2'' ''org'' sample_resolution = Inr db' \<and>
     re_accountId (resolve no_search ''org'' [eve] None db') = ''a2''"
proof -
  obtain db' where r: "resolveCall sample_fresh 5 ''c1'' ''a2'' ''org'' sample_resolution = Inr db'" using sample_resolveCall by blast
  have "re_accountId (resolve no_search ''org'' [eve] None db') = ''a2'' \<and> re_matchMethod (resolve no_search ''org'' [eve] None db') = email_domain_match"
    by (rule review_teaches_resolver [OF r, where p = "hd (rd_participants sample_resolution)" and d = "''big.io''"])
      (simp_all add: bob_domains, simp_all add: sample_resolution_def new_account_def unique_key_def bob_domains owned_def account_row_def)
  with r show ?thesis by blast
qed

theorem review_stays_in_tenant_witness:
  "fst (er_route sample_fresh 5 \<lparr> req_organizationId = Some ''org'', req_userId = Some ''u'', req_userRole = Some ADMIN \<rparr>
       (MergeInto ''a1'' ''a2'') sample_resolution) = Response 200 [] \<and>
   others ''org'' (rd_accounts sample_resolution) (snd (er_route sample_fresh 5
       \<lparr> req_organizationId = Some ''org'', req_userId = Some ''u'', req_userRole = Some ADMIN \<rparr> (MergeInto ''a1'' ''a2'') sample_resolution)) =
     others ''org'' (rd_accounts sample_resolution) sample_resolution"
proof
  show "fst (er_route sample_fresh 5 \<lparr> req_organizationId = Some ''org'', req_userId = Some ''u'', req_userRole = Some ADMIN \<rparr>
       (MergeInto ''a1'' ''a2'') sample_resolution) = Response 200 []"
    by (simp add: er_route_def requirePermission_def is_admin_def ADMIN_ROLES_def er_body_ok_def er_perform_def mergeAccounts_def
        find_account_def sample_resolution_def new_account_def Let_def add_main_domain_def has_alias_def event_keys_def case_prod_beta)
  show "others ''org'' (rd_accounts sample_resolution) (snd (er_route sample_fresh 5
       \<lparr> req_organizationId = Some ''org'', req_userId = Some ''u'', req_userRole = Some ADMIN \<rparr> (MergeInto ''a1'' ''a2'') sample_resolution)) =
     others ''org'' (rd_accounts sample_resolution) sample_resolution"
    by (rule review_stays_in_tenant [OF sample_resolution_wf])
      (simp_all add: sample_fresh_def account_row_def sample_resolution_def new_account_def)
qed

theorem suggestions_ranked_witness:
  "map sm_accountId (generateSuggestions no_search ''org'' None [bob] sample_resolution) = [''a1''] \<and>
   length (generateSuggestions no_search ''org'' None [bob] sample_resolution) \<le> 3"
proof
  show "map sm_accountId (generateSuggestions no_search ''org'' None [bob] sample_resolution) = [''a1'']"
    by (simp add: generateSuggestions_def Let_def domain_suggestions_def domain_suggestion_def List.map_filter_def domain_lookup_def
        sample_resolution_def new_account_def bob_def name_suggestions_def no_search_def suggest_def bob_domains
        participant_domain_def extractEmailDomain_def toLowerCase_def lower_char_def trim_def js_ws_def FREE_EMAIL_DOMAINS_def jm_get_def)
  show "length (generateSuggestions no_search ''org'' None [bob] sample_resolution) \<le> 3"
    using suggestions_ranked [of no_search "generateSuggestions no_search ''org'' None [bob] sample_resolution" "''org''" None "[bob]" sample_resolution]
    by (simp add: no_search_def)
qed

theorem entity_queue_needs_admin_witness:
  "fst (er_route sample_fresh 5 \<lparr> req_organizationId = Some ''org'', req_userId = Some ''u'', req_userRole = Some MEMBER \<rparr> (Dismiss [''c1''])
      (sample_resolution\<lparr> rd_access := (rd_access sample_resolution)\<lparr> db_userPermissions :=
         [\<lparr> up_userId = ''u'', up_permission = MANAGE_ENTITY_RESOLUTION, up_grantedById = None \<rparr>] \<rparr> \<rparr>)) =
    Response 500 ''Unknown permission action: manage_entity_resolution''"
  by (subst entity_queue_needs_admin) (simp_all add: is_admin_def ADMIN_ROLES_def)

theorem linked_call_stays_in_queue_witness:
  "\<exists>e db'. resolveAndLinkContacts no_search (\<lambda>_. ''k'') 5 ''org'' ''c1'' [bob] None sample_resolution = (e, db') \<and>
     map (needs_review ''org'' None) (rd_calls db') = [True]"
proof -
  obtain e db' where r: "resolveAndLinkContacts no_search (\<lambda>_. ''k'') 5 ''org'' ''c1'' [bob] None sample_resolution = (e, db')"
    by (cases "resolveAndLinkContacts no_search (\<lambda>_. ''k'') 5 ''org'' ''c1'' [bob] None sample_resolution")
  then have "e = resolve no_search ''org'' [bob] None sample_resolution" by (auto simp: resolveAndLinkContacts_def Let_def split: if_splits)
  then have "re_matchMethod e \<noteq> no_match"
    by (simp add: resolve_def Let_def bob_domains matchByEmailDomain_def sample_resolution_def new_account_def)
  from linked_call_stays_in_queue [OF r this, of "''org''" None] r show ?thesis
    by (simp add: sample_resolution_def needs_review_def)
qed

theorem redelivery_undoes_review_witness:
  "\<exists>db1 db2. resolveCall sample_fresh 5 ''c1'' ''a2'' ''org'' sample_resolution = Inr db1 \<and>
     resolveAndLinkContacts no_search (\<lambda>_. ''k'') 9 ''org'' ''c1'' [] None db1 = (unresolved, db2) \<and>
     map call_accountId (rd_calls db1) = [Some ''a2''] \<and> map call_accountId (rd_calls db2) = [None]"
proof -
  obtain db1 where r: "resolveCall sample_fresh 5 ''c1'' ''a2'' ''org'' sample_resolution = Inr db1" using sample_resolveCall by blast
  then have c: "map call_id (rd_calls db1) = [''c1'']" "map call_accountId (rd_calls db1) = [Some ''a2'']"
    by (auto simp: resolveCall_def find_call_def find_account_def sample_resolution_def new_account_def Let_def set_call_def)
  have e: "resolve no_search ''org'' [] None db1 = unresolved"
    by (simp add: resolve_def Let_def extractParticipantDomains_def buildCandidateNames_def List.map_filter_def)
  obtain db2 where l: "resolveAndLinkContacts no_search (\<lambda>_. ''k'') 9 ''org'' ''c1'' [] None db1 = (unresolved, db2)"
    and ids: "map call_id (rd_calls db2) = [''c1'']"
    using c(1) by (auto simp: resolveAndLinkContacts_def Let_def e unresolved_def set_call_def map_update_many_inv)
  then obtain x where x: "rd_calls db2 = [x]" "call_id x = ''c1''" by auto
  from redelivery_undoes_review [OF r l, of x] x have "call_accountId x = None" by (simp add: unresolved_def)
  with r l c x show ?thesis by simp
qed

end
