(* ===== verification/Call_Webhooks.thy ===== *)
theory Call_Webhooks
  imports Entity_Resolution Dedup
begin

text \<open>
  How recordings arrive: the webhooks of Gong and Grain (\<open>src/webhooks/gong-webhook.ts\<close>,
  \<open>grain-webhook.ts\<close>), the check of their time (\<open>src/lib/webhook-security.ts\<close>) and the queue of calls to
  process (\<open>src/lib/queue-policy.ts\<close>). HMAC, the JSON parser, the date parser, the providers' interfaces and the
  queue are parameters.
\<close>

section \<open>Time stamps\<close>

datatype header = One string | Many "string list"

type_synonym headers = "string \<Rightarrow> header option"

definition readHeaderValue :: "headers \<Rightarrow> string \<Rightarrow> string option" where
  "readHeaderValue hs key =
     (case hs key of
        None \<Rightarrow> None
      | Some (Many vs) \<Rightarrow> (case vs of v # _ \<Rightarrow> if trim v \<noteq> [] then Some (trim v) else None | [] \<Rightarrow> None)
      | Some (One raw) \<Rightarrow> if trim raw \<noteq> [] then Some (trim raw) else None)"

fun pickFirstHeaderValue :: "headers \<Rightarrow> string list \<Rightarrow> string option" where
  "pickFirstHeaderValue hs [] = None"
| "pickFirstHeaderValue hs (key # keys) =
     (case readHeaderValue hs (toLowerCase key) of Some v \<Rightarrow> Some v | None \<Rightarrow> pickFirstHeaderValue hs keys)"

text \<open>A JSON value where a time is expected; \<open>Absent\<close> is null or undefined, \<open>Junk\<close> any value that is no finite number and no string.\<close>

datatype stamp = Absent | Text string | Number real | Junk

definition or_else :: "stamp \<Rightarrow> stamp \<Rightarrow> stamp" where
  "or_else a b = (case a of Absent \<Rightarrow> b | _ \<Rightarrow> a)"

definition stamp_of :: "string option \<Rightarrow> stamp" where
  "stamp_of v = (case v of None \<Rightarrow> Absent | Some s \<Rightarrow> Text s)"

datatype stamp_reason = timestamp_missing | timestamp_invalid | timestamp_out_of_window

definition isMissingTimestamp :: "stamp \<Rightarrow> bool" where
  "isMissingTimestamp v = (case v of Absent \<Rightarrow> True | Text s \<Rightarrow> trim s = [] | _ \<Rightarrow> False)"

text \<open>\<open>new Date(ms)\<close>: cut to an integer, invalid beyond a hundred million days.\<close>

definition date_of_ms :: "real \<Rightarrow> millis option" where
  "date_of_ms x =
     (if \<bar>x\<bar> \<le> 8640000000000000 then Some (if x < 0 then \<lceil>x\<rceil> else \<lfloor>x\<rfloor>) else None)"

definition to_ms :: "real \<Rightarrow> real" where
  "to_ms x = (if x > 10000000000 then x else x * 1000)"

definition parseWebhookTimestamp :: "(string \<Rightarrow> millis option) \<Rightarrow> stamp \<Rightarrow> millis option" where
  "parseWebhookTimestamp parse_date v =
     (case v of
        Number x \<Rightarrow> date_of_ms (to_ms x)
      | Text s \<Rightarrow>
          (let t = trim s in
           if t = [] then None
           else if list_all is_digit t
           then (case parseInt10 t of Some n \<Rightarrow> date_of_ms (to_ms (of_int n)) | None \<Rightarrow> None)
           else parse_date t)
      | _ \<Rightarrow> None)"

definition resolveReplayWindowSeconds :: "string option \<Rightarrow> int" where
  "resolveReplayWindowSeconds raw =
     (if truthy raw then (case parseInt10 (the raw) of Some n \<Rightarrow> if n \<le> 0 then 300 else n | None \<Rightarrow> 300) else 300)"

record ClockEnv =
  ce_now :: millis
  ce_parse_date :: "string \<Rightarrow> millis option"
  ce_window :: "string option"

definition validateWebhookTimestamp :: "ClockEnv \<Rightarrow> bool \<Rightarrow> stamp \<Rightarrow> bool \<times> stamp_reason option" where
  "validateWebhookTimestamp env required ts =
     (if isMissingTimestamp ts then (\<not> required, if required then Some timestamp_missing else None)
      else case parseWebhookTimestamp (ce_parse_date env) ts of
        None \<Rightarrow> (False, Some timestamp_invalid)
      | Some observedAt \<Rightarrow>
          (let withinWindow = \<bar>ce_now env - observedAt\<bar> \<le> resolveReplayWindowSeconds (ce_window env) * 1000 in
           (withinWindow, if withinWindow then None else Some timestamp_out_of_window)))"

section \<open>The queue of calls\<close>

record ProcessCallJob =
  job_callId :: ident
  job_organizationId :: ident
  job_accountId :: "ident option"
  job_hasTranscript :: bool

definition buildProcessCallJobOptions :: "string option \<Rightarrow> string option" where
  "buildProcessCallJobOptions jobId =
     (let explicitJobId = trim (case jobId of Some j \<Rightarrow> j | None \<Rightarrow> []) in
      if explicitJobId \<noteq> [] then Some explicitJobId else None)"

text \<open>\<open>add job id q\<close>: the outcome of the queue's \<open>add\<close> and the queue behind it.\<close>

type_synonym 'q adder = "ProcessCallJob \<Rightarrow> string option \<Rightarrow> 'q \<Rightarrow> bool \<times> 'q"

fun enqueue_loop :: "'q adder \<Rightarrow> ProcessCallJob \<Rightarrow> string option \<Rightarrow> nat \<Rightarrow> 'q \<Rightarrow> bool \<times> 'q" where
  "enqueue_loop add job i 0 q = (False, q)"
| "enqueue_loop add job i (Suc n) q =
     (case add job i q of (True, q') \<Rightarrow> (True, q') | (False, q') \<Rightarrow> enqueue_loop add job i n q')"

definition enqueueProcessCallJob :: "'q adder \<Rightarrow> ProcessCallJob \<Rightarrow> string option \<Rightarrow> int option \<Rightarrow> 'q \<Rightarrow> bool \<times> 'q" where
  "enqueueProcessCallJob add job jobId enqueueAttempts q =
     (if job_callId job = [] \<or> job_organizationId job = [] then (False, q)
      else enqueue_loop add job (buildProcessCallJobOptions jobId)
        (nat (max 1 (case enqueueAttempts of Some n \<Rightarrow> n | None \<Rightarrow> 3))) q)"

section \<open>A call is ready\<close>

record TranscriptRow =
  tx_callId :: ident
  tx_fullText :: string
  tx_wordCount :: nat

record IntegrationConfig =
  cfg_organizationId :: ident
  cfg_provider :: string
  cfg_enabled :: bool
  cfg_status :: string
  cfg_webhookSecret :: "string option"
  cfg_credentials :: string

record 'q Intake =
  it_db :: ResolutionDb
  it_transcripts :: "TranscriptRow list"
  it_configs :: "IntegrationConfig list"
  it_seen :: "(string, millis) jsmap"
  it_queue :: 'q

definition same_call :: "ident \<Rightarrow> string \<Rightarrow> string \<Rightarrow> IntakeCall \<Rightarrow> bool" where
  "same_call org provider externalId c \<longleftrightarrow>
     call_organizationId c = org \<and> ic_provider c = provider \<and> ic_externalId c = Some externalId"

definition new_call :: "(IntakeCall list \<Rightarrow> ident) \<Rightarrow> millis \<Rightarrow> ident \<Rightarrow> string \<Rightarrow> string \<Rightarrow> IntakeCall list \<Rightarrow> IntakeCall" where
  "new_call fresh now org provider externalId rows =
     \<lparr> call_id = fresh rows, call_organizationId = org, call_accountId = None, call_duration = None, ic_title = None,
        ic_provider = provider, ic_mergeRecordingId = None, ic_externalId = Some externalId, ic_recordingUrl = None,
        ic_occurredAt = now, ic_matchMethod = NONE, ic_matchConfidence = 0, ic_dismissedAt = None, ic_updatedAt = now \<rparr>"

text \<open>
  The creation behind an earlier look-up \<open>existing\<close>. If another delivery created the call in between, the
  unique key refuses a second one (P2002) and the row is read again.
\<close>

definition ensure_call :: "(IntakeCall list \<Rightarrow> ident) \<Rightarrow> millis \<Rightarrow> ident \<Rightarrow> string \<Rightarrow> string \<Rightarrow> IntakeCall option
    \<Rightarrow> IntakeCall list \<Rightarrow> IntakeCall \<times> IntakeCall list" where
  "ensure_call fresh now org provider externalId existing rows =
     (case existing of
        Some c \<Rightarrow> (c, rows)
      | None \<Rightarrow>
          (case List.find (same_call org provider externalId) rows of
             Some c \<Rightarrow> (c, rows)
           | None \<Rightarrow> let c = new_call fresh now org provider externalId rows in (c, rows @ [c])))"

definition upsert_transcript :: "ident \<Rightarrow> string \<Rightarrow> TranscriptRow list \<Rightarrow> TranscriptRow list" where
  "upsert_transcript callId body rows =
     upsert (\<lambda>t. tx_callId t = callId)
       \<lparr> tx_callId = callId, tx_fullText = body, tx_wordCount = length (split_ws False [] body) \<rparr>
       (\<lambda>t. t\<lparr> tx_fullText := body, tx_wordCount := length (split_ws False [] body) \<rparr>) rows"

record 'q IntakeEnv =
  ie_clock :: ClockEnv
  ie_hmac :: "string \<Rightarrow> string \<Rightarrow> string"
  ie_redis :: "(string \<Rightarrow> int \<Rightarrow> bool) option"
  ie_fetch :: "string \<Rightarrow> string \<Rightarrow> unit + string option"
  ie_add :: "'q adder"
  ie_fresh_call :: "IntakeCall list \<Rightarrow> ident"

text \<open>\<open>handleCallReady\<close> and \<open>handleRecordingReady\<close> behind the fetch; \<open>False\<close>: an error was thrown, what was written stays.\<close>

definition job_id :: "ident \<Rightarrow> string" where
  "job_id callId = ''process-call:'' @ callId"

definition store_call :: "'q IntakeEnv \<Rightarrow> ident \<Rightarrow> string \<Rightarrow> string \<Rightarrow> string option \<Rightarrow> IntakeCall option \<Rightarrow> 'q Intake \<Rightarrow> bool \<times> 'q Intake" where
  "store_call env org provider externalId transcript existing st =
     (let (call, calls) = ensure_call (ie_fresh_call env) (ce_now (ie_clock env)) org provider externalId existing (rd_calls (it_db st));
          transcripts = (if truthy transcript then upsert_transcript (call_id call) (the transcript) (it_transcripts st)
                         else it_transcripts st);
          (ok, queue) = enqueueProcessCallJob (ie_add env)
            \<lparr> job_callId = call_id call, job_organizationId = org, job_accountId = call_accountId call,
               job_hasTranscript = truthy transcript \<rparr> (Some (job_id (call_id call))) None (it_queue st)
      in (ok, st\<lparr> it_db := (it_db st)\<lparr> rd_calls := calls \<rparr>, it_transcripts := transcripts, it_queue := queue \<rparr>))"

definition handle_ready :: "'q IntakeEnv \<Rightarrow> string \<Rightarrow> ident \<Rightarrow> string \<Rightarrow> string \<Rightarrow> 'q Intake \<Rightarrow> bool \<times> 'q Intake" where
  "handle_ready env credentials org provider externalId st =
     (case ie_fetch env credentials externalId of
        Inl _ \<Rightarrow> (False, st)
      | Inr transcript \<Rightarrow>
          store_call env org provider externalId transcript (List.find (same_call org provider externalId) (rd_calls (it_db st))) st)"

section \<open>The handlers\<close>

definition active_configs :: "string \<Rightarrow> IntegrationConfig list \<Rightarrow> IntegrationConfig list" where
  "active_configs provider rows =
     filter (\<lambda>c. cfg_provider c = provider \<and> cfg_enabled c \<and> cfg_status c = ''ACTIVE'') rows"

definition verifySignature :: "(string \<Rightarrow> string \<Rightarrow> string) \<Rightarrow> string \<Rightarrow> string \<Rightarrow> string \<Rightarrow> bool" where
  "verifySignature hmac payload signature secret \<longleftrightarrow> signature = hmac secret payload"

text \<open>The sender: the organization whose secret signed the body, or the refusal.\<close>

definition identify_sender :: "'q IntakeEnv \<Rightarrow> string \<Rightarrow> header option \<Rightarrow> string \<Rightarrow> IntegrationConfig list
    \<Rightarrow> (response, IntegrationConfig) res" where
  "identify_sender env provider signatureHeader rawBody rows =
     (let configs = active_configs provider rows;
          signature = (case signatureHeader of Some (One s) \<Rightarrow> s | _ \<Rightarrow> []) in
      if configs = [] then Inl (Response 404 ''No active integration'')
      else if \<not> list_all (\<lambda>c. truthy (cfg_webhookSecret c)) configs
      then Inl (Response 500 ''All active integrations must configure webhookSecret'')
      else if signature = [] then Inl (Response 401 ''Missing webhook signature'')
      else case List.find (\<lambda>c. truthy (cfg_webhookSecret c) \<and>
          verifySignature (ie_hmac env) rawBody signature (the (cfg_webhookSecret c))) configs of
        None \<Rightarrow> Inl (Response 401 ''Invalid webhook signature'')
      | Some c \<Rightarrow> Inr c)"

record GongWebhookPayload =
  gp_event :: string
  gp_callId :: "string option"
  gp_timestamp :: stamp
  gp_eventTimestamp :: stamp

definition gong_headers :: "string list" where
  "gong_headers = [''x-gong-timestamp'', ''x-webhook-timestamp'', ''x-request-timestamp'']"

definition mark_event :: "'q IntakeEnv \<Rightarrow> string \<Rightarrow> 'q Intake \<Rightarrow> bool \<times> 'q Intake" where
  "mark_event env key st =
     (let (isNew, seen) = markWebhookEventIfNew (ie_redis env) (ce_now (ie_clock env)) 300000 key (it_seen st) in
      (isNew, st\<lparr> it_seen := seen \<rparr>))"

text \<open>The common end of both handlers: the key of the event is remembered, then the call is fetched and stored.\<close>

definition deliver :: "'q IntakeEnv \<Rightarrow> string \<Rightarrow> string \<Rightarrow> ident \<Rightarrow> string \<Rightarrow> string \<Rightarrow> 'q Intake \<Rightarrow> response \<times> 'q Intake" where
  "deliver env key credentials org provider externalId st =
     (case mark_event env key st of
        (False, st1) \<Rightarrow> (Response 200 ''duplicate_ignored'', st1)
      | (True, st1) \<Rightarrow>
          (case handle_ready env credentials org provider externalId st1 of
             (True, st2) \<Rightarrow> (Response 200 ''processed'', st2)
           | (False, st2) \<Rightarrow> (Response 200 ''Processing failed'', st2)))"

definition gong_webhook :: "'q IntakeEnv \<Rightarrow> headers \<Rightarrow> string \<Rightarrow> GongWebhookPayload option \<Rightarrow> 'q Intake \<Rightarrow> response \<times> 'q Intake" where
  "gong_webhook env hs rawBody parsed st =
     (case identify_sender env ''GONG'' (hs ''x-gong-signature'') rawBody (it_configs st) of
        Inl r \<Rightarrow> (r, st)
      | Inr config \<Rightarrow>
          (case parsed of
             None \<Rightarrow> (Response 400 ''Invalid JSON payload'', st)
           | Some payload \<Rightarrow>
               let org = cfg_organizationId config;
                   candidate = or_else (stamp_of (pickFirstHeaderValue hs gong_headers))
                     (or_else (gp_timestamp payload) (gp_eventTimestamp payload)) in
               if \<not> fst (validateWebhookTimestamp (ie_clock env) False candidate) then (Response 401 ''stale_webhook'', st)
               else if gp_event payload = ''CALL_RECORDING_READY'' \<or> gp_event payload = ''CALL_TRANSCRIPT_READY'' then
                 (if \<not> truthy (gp_callId payload) then (Response 200 ''No callId'', st)
                  else deliver env (''gong:'' @ org @ '':'' @ gp_event payload @ '':'' @ the (gp_callId payload))
                    (cfg_credentials config) org ''GONG'' (the (gp_callId payload)) st)
               else (Response 200 ''processed'', st)))"

record GrainWebhookPayload =
  gr_event :: string
  gr_recording_id :: "string option"
  gr_timestamp :: stamp

definition grain_headers :: "string list" where
  "grain_headers = [''x-grain-timestamp'', ''x-webhook-timestamp'', ''x-request-timestamp'']"

definition grain_webhook :: "'q IntakeEnv \<Rightarrow> headers \<Rightarrow> string \<Rightarrow> GrainWebhookPayload option \<Rightarrow> 'q Intake \<Rightarrow> response \<times> 'q Intake" where
  "grain_webhook env hs rawBody parsed st =
     (case identify_sender env ''GRAIN'' (hs ''x-grain-signature'') rawBody (it_configs st) of
        Inl r \<Rightarrow> (r, st)
      | Inr config \<Rightarrow>
          (case parsed of
             None \<Rightarrow> (Response 400 ''Invalid JSON payload'', st)
           | Some payload \<Rightarrow>
               let org = cfg_organizationId config;
                   candidate = or_else (gr_timestamp payload) (stamp_of (pickFirstHeaderValue hs grain_headers));
                   (ok, reason) = validateWebhookTimestamp (ie_clock env) True candidate in
               if \<not> ok then (Response 401 (if reason = Some timestamp_missing then ''missing_webhook_timestamp'' else ''stale_webhook''), st)
               else if gr_event payload = ''recording.completed'' \<or> gr_event payload = ''transcript.ready'' then
                 (if \<not> truthy (gr_recording_id payload) then (Response 200 ''No recording_id'', st)
                  else deliver env (''grain:'' @ org @ '':'' @ gr_event payload @ '':'' @ the (gr_recording_id payload))
                    (cfg_credentials config) org ''GRAIN'' (the (gr_recording_id payload)) st)
               else (Response 200 ''processed'', st)))"

end
