(* ===== verification/Call_Delivery.thy ===== *)
theory Call_Delivery
  imports Call_Webhooks
begin

text \<open>
  What the two webhooks guarantee about calls and transcripts, for deliveries one after another and for
  deliveries that overlap; and where a delivery can be lost or replayed.
\<close>

section \<open>Deliveries\<close>

datatype delivery =
  Gong headers string "GongWebhookPayload option" |
  Grain headers string "GrainWebhookPayload option"

fun receive :: "'q IntakeEnv \<Rightarrow> delivery \<Rightarrow> 'q Intake \<Rightarrow> response \<times> 'q Intake" where
  "receive env (Gong hs body p) st = gong_webhook env hs body p st"
| "receive env (Grain hs body p) st = grain_webhook env hs body p st"

fun signature_of :: "delivery \<Rightarrow> header option" where
  "signature_of (Gong hs body p) = hs ''x-gong-signature''"
| "signature_of (Grain hs body p) = hs ''x-grain-signature''"

fun body_of :: "delivery \<Rightarrow> string" where
  "body_of (Gong hs body p) = body"
| "body_of (Grain hs body p) = body"

fun provider_of :: "delivery \<Rightarrow> string" where
  "provider_of (Gong hs body p) = ''GONG''"
| "provider_of (Grain hs body p) = ''GRAIN''"

text \<open>The sender has an active configuration, and its secret signed the body.\<close>

definition signed_by :: "'q IntakeEnv \<Rightarrow> delivery \<Rightarrow> IntegrationConfig list \<Rightarrow> IntegrationConfig \<Rightarrow> bool" where
  "signed_by env d rows c \<longleftrightarrow> c \<in> set rows \<and> cfg_provider c = provider_of d \<and> cfg_enabled c \<and> cfg_status c = ''ACTIVE'' \<and>
     (\<exists>secret. cfg_webhookSecret c = Some secret \<and> secret \<noteq> [] \<and> signature_of d = Some (One (ie_hmac env secret (body_of d))))"

lemma identify_sender_Inr:
  assumes "identify_sender env provider h body rows = Inr c"
  shows "c \<in> set rows \<and> cfg_provider c = provider \<and> cfg_enabled c \<and> cfg_status c = ''ACTIVE'' \<and>
    (\<exists>secret. cfg_webhookSecret c = Some secret \<and> secret \<noteq> [] \<and> h = Some (One (ie_hmac env secret body)))"
  using assms
  by (auto simp: identify_sender_def Let_def active_configs_def verifySignature_def truthy_def dest!: find_SomeD
      split: if_splits option.splits header.splits)

text \<open>The tables behind a delivery: what was stored for one call of one organization, if anything was.\<close>

definition tables :: "'q Intake \<Rightarrow> ResolutionDb \<times> TranscriptRow list \<times> IntegrationConfig list \<times> 'q" where
  "tables st = (it_db st, it_transcripts st, it_configs st, it_queue st)"

lemma mark_event_tables: "mark_event env key st = (b, st') \<Longrightarrow> tables st' = tables st"
  by (auto simp: mark_event_def Let_def tables_def split: prod.splits)

lemma receive_stored:
  assumes "receive env d st = (r, st')" "tables st' \<noteq> tables st"
  shows "\<exists>c externalId transcript ok st1 st2. signed_by env d (it_configs st) c \<and>
    tables st1 = tables st \<and> tables st' = tables st2 \<and> ie_fetch env (cfg_credentials c) externalId = Inr transcript \<and>
    store_call env (cfg_organizationId c) (provider_of d) externalId transcript
      (List.find (same_call (cfg_organizationId c) (provider_of d) externalId) (rd_calls (it_db st1))) st1 = (ok, st2)"
proof -
  have deliver: "\<exists>transcript ok st1 st2. tables st1 = tables st \<and> tables st' = tables st2 \<and> ie_fetch env cr x = Inr transcript \<and>
      store_call env org p x transcript (List.find (same_call org p x) (rd_calls (it_db st1))) st1 = (ok, st2)"
    if d: "deliver env key cr org p x st = (r, st')" for key cr org p x
  proof -
    obtain b st1 where m: "mark_event env key st = (b, st1)" by (cases "mark_event env key st")
    note t = mark_event_tables [OF m]
    with d m assms(2) have b: "b" by (cases b) (auto simp: deliver_def)
    show ?thesis
    proof (cases "ie_fetch env cr x")
      case (Inl u)
      with d m b t assms(2) show ?thesis by (auto simp: deliver_def handle_ready_def split: if_splits)
    next
      case (Inr transcript)
      obtain ok st2 where s: "store_call env org p x transcript (List.find (same_call org p x) (rd_calls (it_db st1))) st1 = (ok, st2)"
        by (cases "store_call env org p x transcript (List.find (same_call org p x) (rd_calls (it_db st1))) st1")
      have "st' = st2" using d m b s Inr by (cases ok) (auto simp: deliver_def handle_ready_def)
      with s t Inr show ?thesis by blast
    qed
  qed
  show ?thesis
  proof (cases d)
    case (Gong hs body p)
    with assms obtain c x where i: "identify_sender env ''GONG'' (hs ''x-gong-signature'') body (it_configs st) = Inr c"
      and "\<exists>key. deliver env key (cfg_credentials c) (cfg_organizationId c) ''GONG'' x st = (r, st')"
      by (auto simp: gong_webhook_def Let_def split: sum.splits option.splits if_splits)
    then show ?thesis using deliver [of _ "cfg_credentials c" "cfg_organizationId c" "''GONG''" x] identify_sender_Inr [OF i] Gong
      by (fastforce simp: signed_by_def)
  next
    case (Grain hs body p)
    with assms obtain c x where i: "identify_sender env ''GRAIN'' (hs ''x-grain-signature'') body (it_configs st) = Inr c"
      and "\<exists>key. deliver env key (cfg_credentials c) (cfg_organizationId c) ''GRAIN'' x st = (r, st')"
      by (auto simp: grain_webhook_def Let_def split: sum.splits option.splits if_splits prod.splits)
    then show ?thesis using deliver [of _ "cfg_credentials c" "cfg_organizationId c" "''GRAIN''" x] identify_sender_Inr [OF i] Grain
      by (fastforce simp: signed_by_def)
  qed
qed

section \<open>Storing a call\<close>

lemma find_cases: "List.find p rows = None \<or> (\<exists>c. List.find p rows = Some c \<and> c \<in> set rows \<and> p c)"
  by (cases "List.find p rows") (auto dest: find_SomeD)

lemma ensure_callE:
  assumes "ensure_call fresh now org p x existing rows = (c, rows')"
    and "existing = None \<or> (\<exists>c. existing = Some c \<and> c \<in> set rows \<and> same_call org p x c)"
  shows "same_call org p x c" "c \<in> set rows'"
    "rows' = rows \<or> (rows' = rows @ [c] \<and> call_id c = fresh rows \<and> (\<forall>r \<in> set rows. \<not> same_call org p x r))"
  using assms
  by (auto simp: ensure_call_def Let_def new_call_def same_call_def find_None_iff dest: find_SomeD split: option.splits)

lemma store_callE:
  assumes "store_call env org p x transcript existing st = (ok, st')"
    and "existing = None \<or> (\<exists>c. existing = Some c \<and> c \<in> set (rd_calls (it_db st)) \<and> same_call org p x c)"
  obtains c where "same_call org p x c" "c \<in> set (rd_calls (it_db st'))"
    "rd_calls (it_db st') = rd_calls (it_db st) \<or>
      (rd_calls (it_db st') = rd_calls (it_db st) @ [c] \<and> call_id c = ie_fresh_call env (rd_calls (it_db st)) \<and>
       (\<forall>r \<in> set (rd_calls (it_db st)). \<not> same_call org p x r))"
    "it_transcripts st' = (if truthy transcript then upsert_transcript (call_id c) (the transcript) (it_transcripts st) else it_transcripts st)"
    "rd_accounts (it_db st') = rd_accounts (it_db st)" "it_configs st' = it_configs st"
proof -
  obtain c rows' where e: "ensure_call (ie_fresh_call env) (ce_now (ie_clock env)) org p x existing (rd_calls (it_db st)) = (c, rows')"
    by (cases "ensure_call (ie_fresh_call env) (ce_now (ie_clock env)) org p x existing (rd_calls (it_db st))")
  have "rd_calls (it_db st') = rows' \<and> rd_accounts (it_db st') = rd_accounts (it_db st) \<and> it_configs st' = it_configs st \<and>
      it_transcripts st' = (if truthy transcript then upsert_transcript (call_id c) (the transcript) (it_transcripts st) else it_transcripts st)"
    using assms(1) e by (auto simp: store_call_def Let_def split: prod.splits)
  then show ?thesis using ensure_callE [OF e assms(2)] by (intro that [of c]) auto
qed

text \<open>
  A webhook changes the tables only if the secret of an organization's active integration signed its body,
  and then only for that organization: at most one call of it is added, no other call changes, and no
  transcript of a call of another organization.
\<close>

theorem signed_webhook_confined:
  assumes "receive env d st = (r, st')" "tables st' \<noteq> tables st" "unique_key call_id (rd_calls (it_db st))"
    and "ie_fresh_call env (rd_calls (it_db st)) \<notin> call_id ` set (rd_calls (it_db st))"
  shows "\<exists>config org. signed_by env d (it_configs st) config \<and> org = cfg_organizationId config \<and>
    (\<exists>new. rd_calls (it_db st') = rd_calls (it_db st) @ new \<and> length new \<le> 1 \<and>
       list_all (\<lambda>c. call_organizationId c = org \<and> ic_provider c = provider_of d) new) \<and>
    filter (\<lambda>t. \<exists>c \<in> set (rd_calls (it_db st)). call_id c = tx_callId t \<and> call_organizationId c \<noteq> org) (it_transcripts st') =
      filter (\<lambda>t. \<exists>c \<in> set (rd_calls (it_db st)). call_id c = tx_callId t \<and> call_organizationId c \<noteq> org) (it_transcripts st)"
proof -
  from receive_stored [OF assms(1,2)] obtain config x transcript ok st1 st2 where
    s: "signed_by env d (it_configs st) config" and t: "tables st1 = tables st" "tables st' = tables st2"
    and sc: "store_call env (cfg_organizationId config) (provider_of d) x transcript
      (List.find (same_call (cfg_organizationId config) (provider_of d) x) (rd_calls (it_db st1))) st1 = (ok, st2)" by blast
  let ?org = "cfg_organizationId config"
  let ?q = "\<lambda>t. \<exists>c \<in> set (rd_calls (it_db st)). call_id c = tx_callId t \<and> call_organizationId c \<noteq> ?org"
  from t have eq: "it_db st1 = it_db st" "it_transcripts st1 = it_transcripts st" "it_db st' = it_db st2" "it_transcripts st' = it_transcripts st2"
    by (simp_all add: tables_def)
  obtain c where c0: "same_call ?org (provider_of d) x c" "c \<in> set (rd_calls (it_db st2))"
    "rd_calls (it_db st2) = rd_calls (it_db st1) \<or> (rd_calls (it_db st2) = rd_calls (it_db st1) @ [c] \<and>
       call_id c = ie_fresh_call env (rd_calls (it_db st1)) \<and> (\<forall>r \<in> set (rd_calls (it_db st1)). \<not> same_call ?org (provider_of d) x r))"
    "it_transcripts st2 = (if truthy transcript then upsert_transcript (call_id c) (the transcript) (it_transcripts st1) else it_transcripts st1)"
    by (rule store_callE [OF sc find_cases])
  have c: "same_call ?org (provider_of d) x c" "c \<in> set (rd_calls (it_db st'))"
    "rd_calls (it_db st') = rd_calls (it_db st) \<or>
      (rd_calls (it_db st') = rd_calls (it_db st) @ [c] \<and> call_id c = ie_fresh_call env (rd_calls (it_db st)))"
    "it_transcripts st' = (if truthy transcript then upsert_transcript (call_id c) (the transcript) (it_transcripts st) else it_transcripts st)"
    using c0 unfolding eq by blast+
  have "list_all (\<lambda>c. call_organizationId c = ?org \<and> ic_provider c = provider_of d) [c]" using c(1) by (simp add: same_call_def)
  then have calls: "\<exists>new. rd_calls (it_db st') = rd_calls (it_db st) @ new \<and> length new \<le> 1 \<and>
       list_all (\<lambda>c. call_organizationId c = ?org \<and> ic_provider c = provider_of d) new"
    using c(3) by (intro exI [of _ "if rd_calls (it_db st') = rd_calls (it_db st) then [] else [c]"]) auto
  have "call_organizationId r = ?org" if "r \<in> set (rd_calls (it_db st))" "call_id r = call_id c" for r
  proof (cases "rd_calls (it_db st') = rd_calls (it_db st)")
    case True
    with that c(2) have "r = c" using unique_key_eq [OF assms(3)] by metis
    with c(1) show ?thesis by (simp add: same_call_def)
  next
    case False
    with c(3) that assms(4) show ?thesis by (metis imageI)
  qed
  then have "filter ?q (it_transcripts st') = filter ?q (it_transcripts st)"
    unfolding c(4) by (auto simp: upsert_transcript_def intro!: filter_upsert_other)
  with s calls show ?thesis by blast
qed

section \<open>Overlapping deliveries\<close>

text \<open>The unique keys of the two tables, and the reference of a transcript to its call.\<close>

definition intake_ok :: "'q Intake \<Rightarrow> bool" where
  "intake_ok st \<longleftrightarrow>
     distinct (List.map_filter (\<lambda>c. map_option (\<lambda>x. (call_organizationId c, ic_provider c, x)) (ic_externalId c)) (rd_calls (it_db st))) \<and>
     unique_key call_id (rd_calls (it_db st)) \<and> unique_key tx_callId (it_transcripts st) \<and>
     list_all (\<lambda>t. tx_callId t \<in> call_id ` set (rd_calls (it_db st))) (it_transcripts st)"

text \<open>
  A step: a whole delivery, or the storing part of one that looked for the call earlier, when it may
  not have been there yet.
\<close>

inductive intake_step :: "'q Intake \<Rightarrow> 'q Intake \<Rightarrow> bool" where
  whole: "ie_fresh_call env (rd_calls (it_db st)) \<notin> call_id ` set (rd_calls (it_db st)) \<Longrightarrow>
    receive env d st = (r, st') \<Longrightarrow> intake_step st st'"
| late: "ie_fresh_call env (rd_calls (it_db st)) \<notin> call_id ` set (rd_calls (it_db st)) \<Longrightarrow>
    existing = None \<or> (\<exists>c. existing = Some c \<and> c \<in> set (rd_calls (it_db st)) \<and> same_call org provider externalId c) \<Longrightarrow>
    store_call env org provider externalId transcript existing st = (ok, st') \<Longrightarrow> intake_step st st'"

lemma map_filter_snoc: "List.map_filter f (xs @ [x]) = List.map_filter f xs @ (case f x of None \<Rightarrow> [] | Some y \<Rightarrow> [y])"
  by (induction xs) (auto simp: List.map_filter_def split: option.splits)

lemma unique_key_upsert:
  assumes "unique_key k rows" "\<And>r. k (f r) = k r" "k new = x"
  shows "unique_key k (upsert (\<lambda>r. k r = x) new f rows)"
  using assms by (auto simp: upsert_def unique_key_update_many list_ex_iff) (auto simp: unique_key_def)

lemma store_call_ok:
  assumes "store_call env org p x transcript existing st = (ok, st')" "intake_ok st"
    and "existing = None \<or> (\<exists>c. existing = Some c \<and> c \<in> set (rd_calls (it_db st)) \<and> same_call org p x c)"
    and "ie_fresh_call env (rd_calls (it_db st)) \<notin> call_id ` set (rd_calls (it_db st))"
  shows "intake_ok st'"
proof -
  from store_callE [OF assms(1,3)] obtain c where c: "same_call org p x c" "c \<in> set (rd_calls (it_db st'))"
    "rd_calls (it_db st') = rd_calls (it_db st) \<or>
      (rd_calls (it_db st') = rd_calls (it_db st) @ [c] \<and> call_id c = ie_fresh_call env (rd_calls (it_db st)) \<and>
       (\<forall>r \<in> set (rd_calls (it_db st)). \<not> same_call org p x r))"
    "it_transcripts st' = (if truthy transcript then upsert_transcript (call_id c) (the transcript) (it_transcripts st) else it_transcripts st)"
    by metis
  let ?k = "\<lambda>c. map_option (\<lambda>x. (call_organizationId c, ic_provider c, x)) (ic_externalId c)"
  have k: "?k c = Some (org, p, x)" using c(1) by (simp add: same_call_def)
  have old: "distinct (List.map_filter ?k (rd_calls (it_db st)))" "unique_key call_id (rd_calls (it_db st))"
      "unique_key tx_callId (it_transcripts st)" "list_all (\<lambda>t. tx_callId t \<in> call_id ` set (rd_calls (it_db st))) (it_transcripts st)"
    using assms(2) by (simp_all add: intake_ok_def)
  have new: "(org, p, x) \<notin> set (List.map_filter ?k (rd_calls (it_db st)))"
    if "\<forall>r \<in> set (rd_calls (it_db st)). \<not> same_call org p x r"
    using that by (force simp: List.map_filter_def same_call_def)
  have "distinct (List.map_filter ?k (rd_calls (it_db st')))"
    using c(3) old(1) new by (auto simp: map_filter_snoc k)
  moreover have "unique_key call_id (rd_calls (it_db st'))"
    using c(3) old(2) assms(4) by (auto simp: unique_key_def)
  moreover have "unique_key tx_callId (it_transcripts st')"
    using old(3) by (simp add: c(4) upsert_transcript_def unique_key_upsert)
  moreover have "list_all (\<lambda>t. tx_callId t \<in> call_id ` set (rd_calls (it_db st'))) (it_transcripts st')"
    using old(4) c(2,3) by (auto simp: c(4) upsert_transcript_def list_all_iff set_upsert)
  ultimately show ?thesis by (simp add: intake_ok_def)
qed

lemma intake_ok_tables: "tables st' = tables st \<Longrightarrow> intake_ok st' = intake_ok st"
  by (simp add: tables_def intake_ok_def)

lemma intake_step_ok: "intake_step st st' \<Longrightarrow> intake_ok st \<Longrightarrow> intake_ok st'"
proof (induction rule: intake_step.induct)
  case (whole env st d r st')
  show ?case
  proof (cases "tables st' = tables st")
    case True
    from intake_ok_tables [OF this] whole show ?thesis by simp
  next
    case False
    from receive_stored [OF whole(2) False] obtain org x transcript ok st1 st2 where
      t: "tables st1 = tables st" "tables st' = tables st2"
      and sc: "store_call env org (provider_of d) x transcript
        (List.find (same_call org (provider_of d) x) (rd_calls (it_db st1))) st1 = (ok, st2)" by blast
    have "it_db st1 = it_db st" using t(1) by (simp add: tables_def)
    then have "intake_ok st2"
      using store_call_ok [OF sc _ find_cases] whole(1,3) intake_ok_tables [OF t(1)] by simp
    then show ?thesis using intake_ok_tables [OF t(2)] by simp
  qed
next
  case (late env st existing org provider externalId transcript ok st')
  then show ?case using store_call_ok by blast
qed

text \<open>
  However the deliveries of the two webhooks overlap, a recording of a provider is one call of its organization,
  a call has at most one transcript, and a transcript has its call.
\<close>

theorem one_call_per_recording:
  assumes "intake_step\<^sup>*\<^sup>* st st'" "intake_ok st"
  shows "intake_ok st'"
  using assms by (induction rule: rtranclp_induct) (auto intro: intake_step_ok)

section \<open>The check of the time\<close>

text \<open>
  A time that passes lies within the window around the present, and the window is never empty; without a
  time a delivery passes only where none is required.
\<close>

theorem accepted_time_in_window:
  assumes "fst (validateWebhookTimestamp env required ts)"
  shows "(isMissingTimestamp ts \<and> \<not> required) \<or>
    (\<exists>t. parseWebhookTimestamp (ce_parse_date env) ts = Some t \<and>
       \<bar>ce_now env - t\<bar> \<le> resolveReplayWindowSeconds (ce_window env) * 1000 \<and> 0 < resolveReplayWindowSeconds (ce_window env))"
  using assms
  by (auto simp: validateWebhookTimestamp_def Let_def resolveReplayWindowSeconds_def split: if_splits option.splits)

lemma identify_sender_clock [simp]:
  "identify_sender (env\<lparr> ie_clock := clock \<rparr>) provider h body rows = identify_sender env provider h body rows"
  unfolding identify_sender_def by (simp add: Let_def)

lemma validate_missing: "fst (validateWebhookTimestamp env False Absent)"
  by (simp add: validateWebhookTimestamp_def isMissingTimestamp_def)

text \<open>
  Gong's deliveries need no time: one that carries none, neither in its headers nor in its data, passes the check
  for ever, so that whoever recorded it can send it again.
\<close>

theorem gong_replay_accepted:
  assumes "identify_sender env ''GONG'' (hs ''x-gong-signature'') body (it_configs st) = Inr config"
    and "pickFirstHeaderValue hs gong_headers = None" "gp_timestamp p = Absent" "gp_eventTimestamp p = Absent"
    and "gp_event p = ''CALL_TRANSCRIPT_READY''" "gp_callId p = Some i" "i \<noteq> []"
  shows "gong_webhook (env\<lparr> ie_clock := anyClock \<rparr>) hs body (Some p) st =
    deliver (env\<lparr> ie_clock := anyClock \<rparr>) (''gong:'' @ cfg_organizationId config @ '':CALL_TRANSCRIPT_READY:'' @ i)
      (cfg_credentials config) (cfg_organizationId config) ''GONG'' i st"
  using assms by (simp add: gong_webhook_def stamp_of_def or_else_def validate_missing Let_def)

text \<open>
  Grain's deliveries need a time, but a delivery whose body has none takes it from a header, which the
  signature does not cover: with a new header the recorded body passes again.
\<close>

theorem grain_replay_with_new_header:
  assumes "identify_sender env ''GRAIN'' (hs ''x-grain-signature'') body (it_configs st) = Inr config"
    and "gr_timestamp p = Absent" "gr_event p = ''transcript.ready''" "gr_recording_id p = Some i" "i \<noteq> []"
    and "hs' ''x-grain-signature'' = hs ''x-grain-signature''" "pickFirstHeaderValue hs' grain_headers = Some t" "trim t \<noteq> []"
    and "parseWebhookTimestamp (ce_parse_date later) (Text t) = Some (ce_now later)"
  shows "grain_webhook (env\<lparr> ie_clock := later \<rparr>) hs' body (Some p) st =
    deliver (env\<lparr> ie_clock := later \<rparr>) (''grain:'' @ cfg_organizationId config @ '':transcript.ready:'' @ i)
      (cfg_credentials config) (cfg_organizationId config) ''GRAIN'' i st"
proof -
  have "validateWebhookTimestamp later True (Text t) = (True, None)"
    using assms(8,9) by (simp add: validateWebhookTimestamp_def isMissingTimestamp_def resolveReplayWindowSeconds_def Let_def split: option.splits)
  then show ?thesis using assms(1-7) by (simp add: grain_webhook_def stamp_of_def or_else_def Let_def)
qed

section \<open>Deliveries that are lost\<close>

text \<open>
  One active integration without a secret refuses the deliveries of every organization.
\<close>

theorem missing_secret_blocks_all:
  assumes "c \<in> set (active_configs (provider_of d) (it_configs st))" "\<not> truthy (cfg_webhookSecret c)"
  shows "receive env d st = (Response 500 ''All active integrations must configure webhookSecret'', st)"
proof -
  have "identify_sender env (provider_of d) h body (it_configs st) = Inl (Response 500 ''All active integrations must configure webhookSecret'')" for h body
    using assms by (auto simp: identify_sender_def Let_def list_all_iff)
  then show ?thesis by (cases d) (auto simp: gong_webhook_def grain_webhook_def)
qed

lemma mark_twice:
  assumes "jm_wf (it_seen st)" "ie_redis env = None" "ie_redis env' = None" "trim key \<noteq> []"
    and "0 \<le> ce_now (ie_clock env)" "ce_now (ie_clock env) \<le> ce_now (ie_clock env')" "ce_now (ie_clock env') < ce_now (ie_clock env) + 300000"
    and "mark_event env key st = (b, st1)" "it_seen st2 = it_seen st1"
  shows "fst (mark_event env' key st2) = False \<or> \<not> b"
proof -
  let ?m = "it_seen st" and ?t = "ce_now (ie_clock env)" and ?t' = "ce_now (ie_clock env')"
  have b: "b = fst (wh_offer 300000 ?t (trim key) ?m)" "it_seen st1 = snd (wh_offer 300000 ?t (trim key) ?m)"
    using assms(8) by (auto simp: mark_event_def assms(2) mark_is_wh_offer [OF assms(1,5,4)] Let_def split: prod.splits)
  have "em_seen (snd (wh_offer 300000 ?t (trim key) ?m)) ?t' (trim key)" if b
    using wh.seen_accepted [OF assms(1), where t = ?t and t' = ?t' and k = "trim key" and ttl = 300000] that b(1) assms(6,7) by simp
  moreover have "jm_wf (it_seen st1)" unfolding b(2) by (rule wh.ok_offer [OF assms(1)])
  ultimately show ?thesis
    using assms(3,4,6,5,9) b(2) mark_is_wh_offer [of "it_seen st1" ?t' key 300000] wh.offer_answer [of "it_seen st1" 300000 ?t' "trim key"]
    by (auto simp: mark_event_def Let_def split: prod.splits)
qed

text \<open>
  A delivery whose recording could not be fetched answers 200, and when the provider sends it again within
  five minutes it is taken for a duplicate: nothing is stored.
\<close>

theorem failed_delivery_is_lost:
  assumes "jm_wf (it_seen st)" "ie_redis env = None" "ie_redis env' = None" "trim key \<noteq> []"
    and "0 \<le> ce_now (ie_clock env)" "ce_now (ie_clock env) \<le> ce_now (ie_clock env')" "ce_now (ie_clock env') < ce_now (ie_clock env) + 300000"
    and "fst (mark_event env key st)" "ie_fetch env credentials externalId = Inl u"
    and "deliver env key credentials org provider externalId st = (r, st1)"
  shows "r = Response 200 ''Processing failed'' \<and> tables st1 = tables st \<and>
    fst (deliver env' key credentials org provider externalId st1) = Response 200 ''duplicate_ignored'' \<and>
    tables (snd (deliver env' key credentials org provider externalId st1)) = tables st"
proof -
  obtain st0 where m: "mark_event env key st = (True, st0)" using assms(8) by (cases "mark_event env key st") auto
  then have r: "r = Response 200 ''Processing failed''" "st1 = st0" using assms(9,10) by (auto simp: deliver_def handle_ready_def)
  obtain st2 where m2: "mark_event env' key st1 = (False, st2)"
    using mark_twice [OF assms(1-7) m, of st1] r(2) by (cases "mark_event env' key st1") auto
  with r mark_event_tables [OF m] mark_event_tables [OF m2] show ?thesis by (simp add: deliver_def)
qed

lemma job_id_option: "buildProcessCallJobOptions (Some (job_id j)) = Some (trim (job_id j))"
proof -
  have "rev (job_id j) \<noteq> []" "\<not> js_ws CHR ''p''" by (simp_all add: job_id_def js_ws_def)
  moreover have "dropWhile js_ws (job_id j) = job_id j" by (simp add: job_id_def js_ws_def)
  moreover have "CHR ''p'' \<in> set (rev (job_id j))" by (simp add: job_id_def)
  ultimately have "trim (job_id j) \<noteq> []" unfolding trim_def by (auto simp: dropWhile_eq_Nil_conv)
  then show ?thesis by (simp add: buildProcessCallJobOptions_def Let_def)
qed

lemma upsert_transcript_has: "\<exists>t \<in> set (upsert_transcript c body rows). tx_fullText t = body"
proof (cases "\<exists>r \<in> set rows. tx_callId r = c")
  case True
  then obtain r where r: "r \<in> set rows" "tx_callId r = c" by blast
  let ?t = "r\<lparr> tx_fullText := body, tx_wordCount := length (split_ws False [] body) \<rparr>"
  have "?t \<in> set (upsert_transcript c body rows)" using r by (auto simp: upsert_transcript_def set_upsert)
  moreover have "tx_fullText ?t = body" by simp
  ultimately show ?thesis by blast
qed (auto simp: upsert_transcript_def set_upsert)

lemma enqueue_loop_accepted: "enqueue_loop add job i n q = (True, q') \<Longrightarrow> \<exists>q0. add job i q0 = (True, q')"
  by (induction n arbitrary: q) (auto split: prod.splits bool.splits)

lemma enqueue_accepted:
  "enqueueProcessCallJob add job jobId n q = (True, q') \<Longrightarrow>
     job_callId job \<noteq> [] \<and> job_organizationId job \<noteq> [] \<and> (\<exists>q0. add job (buildProcessCallJobOptions jobId) q0 = (True, q'))"
  by (auto simp: enqueueProcessCallJob_def dest: enqueue_loop_accepted split: if_splits)

text \<open>
  A queue that ignores a job whose id it knows, as BullMQ does while the earlier job is kept, never processes a
  transcript that comes after its recording: it is stored, but the queue stays as it was.
\<close>

theorem late_transcript_not_processed:
  assumes "\<And>job i q. i \<in> known q \<Longrightarrow> ie_add env job (Some i) q = (True, q)"
    and "\<And>job i q q'. ie_add env job (Some i) q = (True, q') \<Longrightarrow> i \<in> known q'"
    and "ie_fetch env credentials externalId = Inr None" "handle_ready env credentials org provider externalId st = (True, st1)"
    and "ie_fetch env' credentials externalId = Inr (Some body)" "body \<noteq> []" "ie_add env' = ie_add env"
    and "handle_ready env' credentials org provider externalId st1 = (ok, st2)"
  shows "ok \<and> it_queue st2 = it_queue st1 \<and> (\<exists>t \<in> set (it_transcripts st2). tx_fullText t = body)"
proof -
  let ?job = "\<lambda>c b. \<lparr> job_callId = call_id c, job_organizationId = org, job_accountId = call_accountId c, job_hasTranscript = b \<rparr>"
  obtain c rows where e: "ensure_call (ie_fresh_call env) (ce_now (ie_clock env)) org provider externalId
      (List.find (same_call org provider externalId) (rd_calls (it_db st))) (rd_calls (it_db st)) = (c, rows)" by fastforce
  have "same_call org provider externalId (new_call fresh now org provider externalId rows)" for fresh now rows
    by (simp add: new_call_def same_call_def)
  then have c: "List.find (same_call org provider externalId) rows = Some c"
    using e by (cases "List.find (same_call org provider externalId) (rd_calls (it_db st))") (auto simp: ensure_call_def Let_def find_append)
  from assms(3,4) e have st1: "rd_calls (it_db st1) = rows"
    and q: "enqueueProcessCallJob (ie_add env) (?job c False) (Some (job_id (call_id c))) None (it_queue st) = (True, it_queue st1)"
    by (auto simp: handle_ready_def store_call_def split: prod.splits)
  from enqueue_accepted [OF q] obtain i q0 where i: "buildProcessCallJobOptions (Some (job_id (call_id c))) = Some i"
      "ie_add env (?job c False) (Some i) q0 = (True, it_queue st1)" "call_id c \<noteq> []" "org \<noteq> []"
    by (auto simp: job_id_option)
  from assms(1) [OF assms(2) [OF i(2)]] i have
    "enqueueProcessCallJob (ie_add env) (?job c True) (Some (job_id (call_id c))) None (it_queue st1) = (True, it_queue st1)"
    by (simp add: enqueueProcessCallJob_def numeral_3_eq_3)
  with assms(5-8) c st1 have "ok \<and> it_queue st2 = it_queue st1 \<and> it_transcripts st2 = upsert_transcript (call_id c) body (it_transcripts st1)"
    by (auto simp: handle_ready_def store_call_def ensure_call_def)
  then show ?thesis using upsert_transcript_has [of "call_id c" body "it_transcripts st1"] by simp
qed

section \<open>Concrete runs\<close>

definition sample_clock :: "millis \<Rightarrow> ClockEnv" where
  "sample_clock now = \<lparr> ce_now = now, ce_parse_date = (\<lambda>_. None), ce_window = None \<rparr>"

text \<open>A queue as the list of its job ids, which ignores an id it has.\<close>

definition list_add :: "string list adder" where
  "list_add job i q = (True, case i of Some x \<Rightarrow> if x \<in> set q then q else q @ [x] | None \<Rightarrow> q)"

definition intake_env :: "millis \<Rightarrow> (unit + string option) \<Rightarrow> string list IntakeEnv" where
  "intake_env now fetched =
     \<lparr> ie_clock = sample_clock now, ie_hmac = (\<lambda>secret body. secret @ body), ie_redis = None, ie_fetch = (\<lambda>_ _. fetched),
        ie_add = list_add, ie_fresh_call = (\<lambda>rows. if rows = [] then ''k1'' else ''k2'') \<rparr>"

definition gong_config :: IntegrationConfig where
  "gong_config = \<lparr> cfg_organizationId = ''org'', cfg_provider = ''GONG'', cfg_enabled = True, cfg_status = ''ACTIVE'',
     cfg_webhookSecret = Some ''s'', cfg_credentials = ''cred'' \<rparr>"

definition empty_intake :: "IntegrationConfig list \<Rightarrow> string list Intake" where
  "empty_intake configs =
     \<lparr> it_db = \<lparr> rd_accounts = [], rd_domains = [], rd_contacts = [], rd_calls = [], rd_participants = [], rd_stories = [],
         rd_events = [], rd_access = \<lparr> db_users = [], db_roleProfiles = [], db_roleAssignments = [], db_usageLimits = [],
           db_accountAccess = [], db_userPermissions = [], db_orgSettings = [] \<rparr>,
         rd_quotes = [], rd_regenLogs = [], rd_notifications = [] \<rparr>,
        it_transcripts = [], it_configs = configs, it_seen = [], it_queue = [] \<rparr>"

definition gong_body :: GongWebhookPayload where
  "gong_body = \<lparr> gp_event = ''CALL_TRANSCRIPT_READY'', gp_callId = Some ''g7'', gp_timestamp = Absent, gp_eventTimestamp = Absent \<rparr>"

definition gong_sig :: headers where
  "gong_sig h = (if h = ''x-gong-signature'' then Some (One ''sbody'') else None)"

lemma gong_config_simps [simp]:
  "cfg_organizationId gong_config = ''org''" "cfg_credentials gong_config = ''cred''"
  by (simp_all add: gong_config_def)

lemma sample_sender: "identify_sender (intake_env now f) ''GONG'' (gong_sig ''x-gong-signature'') ''body'' [gong_config] = Inr gong_config"
  by (simp add: Let_def identify_sender_def active_configs_def gong_config_def gong_sig_def intake_env_def verifySignature_def)

lemma sample_headers: "pickFirstHeaderValue gong_sig gong_headers = None"
  by (simp add: gong_headers_def gong_sig_def readHeaderValue_def toLowerCase_def lower_char_def)

lemma sample_job: "job_id ''k1'' = ''process-call:k1''" "buildProcessCallJobOptions (Some ''process-call:k1'') = Some ''process-call:k1''"
  by code_simp+

lemma sample_ready: "handle_ready (intake_env 7 (Inr None)) ''cred'' ''org'' ''GONG'' ''g7'' (empty_intake [gong_config]) =
    (True, (empty_intake [gong_config])\<lparr> it_db := (it_db (empty_intake [gong_config]))\<lparr> rd_calls := [new_call (\<lambda>_. ''k1'') 7 ''org'' ''GONG'' ''g7'' []] \<rparr>,
       it_queue := [''process-call:k1''] \<rparr>)"
  by (simp add: Let_def handle_ready_def store_call_def ensure_call_def new_call_def empty_intake_def intake_env_def enqueueProcessCallJob_def
      list_add_def numeral_3_eq_3 sample_job sample_clock_def)

theorem accepted_time_in_window_witness:
  "fst (validateWebhookTimestamp (sample_clock 1000000) True (Number 1000)) \<and> 0 < resolveReplayWindowSeconds None"
proof -
  have v: "fst (validateWebhookTimestamp (sample_clock 1000000) True (Number 1000))"
    by (simp add: validateWebhookTimestamp_def isMissingTimestamp_def parseWebhookTimestamp_def to_ms_def date_of_ms_def sample_clock_def
        resolveReplayWindowSeconds_def)
  from accepted_time_in_window [OF v] have "0 < resolveReplayWindowSeconds None" by (auto simp: isMissingTimestamp_def sample_clock_def)
  with v show ?thesis by simp
qed

theorem gong_replay_accepted_witness:
  "fst (gong_webhook ((intake_env 7 (Inr None))\<lparr> ie_clock := sample_clock 99999999 \<rparr>) gong_sig ''body'' (Some gong_body) (empty_intake [gong_config])) =
     Response 200 ''processed''"
proof -
  have e: "(intake_env 7 (Inr None))\<lparr> ie_clock := sample_clock 99999999 \<rparr> = intake_env 99999999 (Inr None)" by (simp add: intake_env_def)
  show ?thesis
    by (subst gong_replay_accepted [where config = gong_config and i = "''g7''"])
      (simp_all add: sample_sender sample_headers gong_body_def, simp_all add: e empty_intake_def sample_sender,
       simp_all add: Let_def deliver_def mark_event_def markWebhookEventIfNew_def trim_def js_ws_def pruneFallback_def em_prune_def jm_prune_def
         intake_env_def sample_clock_def handle_ready_def store_call_def ensure_call_def new_call_def enqueueProcessCallJob_def list_add_def
         numeral_3_eq_3 sample_job)
qed

definition grain_config :: IntegrationConfig where
  "grain_config = gong_config\<lparr> cfg_provider := ''GRAIN'' \<rparr>"

definition grain_hs :: "string option \<Rightarrow> headers" where
  "grain_hs t h = (if h = ''x-grain-signature'' then Some (One ''sbody'') else if h = ''x-grain-timestamp'' then map_option One t else None)"

definition grain_body :: GrainWebhookPayload where
  "grain_body = \<lparr> gr_event = ''transcript.ready'', gr_recording_id = Some ''g7'', gr_timestamp = Absent \<rparr>"

theorem grain_replay_with_new_header_witness:
  "fst (grain_webhook ((intake_env 7 (Inl ()))\<lparr> ie_clock := sample_clock 5000000 \<rparr>) (grain_hs (Some ''5000'')) ''body'' (Some grain_body)
      (empty_intake [grain_config])) = Response 200 ''Processing failed''"
proof -
  have s: "identify_sender (intake_env 7 (Inl ())) ''GRAIN'' (grain_hs None ''x-grain-signature'') ''body'' (it_configs (empty_intake [grain_config])) = Inr grain_config"
    by (simp add: Let_def identify_sender_def active_configs_def grain_config_def gong_config_def grain_hs_def intake_env_def verifySignature_def empty_intake_def)
  have t: "trim ''5000'' = ''5000''" "parseInt10 ''5000'' = Some 5000" by code_simp+
  show ?thesis
    by (subst grain_replay_with_new_header [where hs = "grain_hs None" and config = grain_config and i = "''g7''" and t = "''5000''"])
      (simp_all only: s, simp_all add: grain_body_def grain_hs_def grain_headers_def readHeaderValue_def toLowerCase_def lower_char_def t parseWebhookTimestamp_def
        is_digit_def to_ms_def date_of_ms_def sample_clock_def grain_config_def gong_config_def,
       simp_all add: Let_def deliver_def mark_event_def markWebhookEventIfNew_def trim_def js_ws_def pruneFallback_def em_prune_def jm_prune_def
         intake_env_def handle_ready_def empty_intake_def)
qed

theorem missing_secret_blocks_all_witness:
  "receive (intake_env 7 (Inr None)) (Gong gong_sig ''body'' (Some gong_body)) (empty_intake [gong_config, gong_config\<lparr> cfg_webhookSecret := None \<rparr>]) =
     (Response 500 ''All active integrations must configure webhookSecret'', empty_intake [gong_config, gong_config\<lparr> cfg_webhookSecret := None \<rparr>])"
  by (rule missing_secret_blocks_all [where c = "gong_config\<lparr> cfg_webhookSecret := None \<rparr>"])
    (simp_all add: active_configs_def empty_intake_def gong_config_def)

theorem failed_delivery_is_lost_witness:
  "fst (deliver (intake_env 200000 (Inr None)) ''gong:org:x:g7'' ''cred'' ''org'' ''GONG'' ''g7''
      (snd (deliver (intake_env 7 (Inl ())) ''gong:org:x:g7'' ''cred'' ''org'' ''GONG'' ''g7'' (empty_intake [gong_config])))) =
    Response 200 ''duplicate_ignored''"
proof -
  have k: "trim ''gong:org:x:g7'' = ''gong:org:x:g7''" by code_simp
  obtain r st1 where d: "deliver (intake_env 7 (Inl ())) ''gong:org:x:g7'' ''cred'' ''org'' ''GONG'' ''g7'' (empty_intake [gong_config]) = (r, st1)"
    by (cases "deliver (intake_env 7 (Inl ())) ''gong:org:x:g7'' ''cred'' ''org'' ''GONG'' ''g7'' (empty_intake [gong_config])")
  have "fst (mark_event (intake_env 7 (Inl ())) ''gong:org:x:g7'' (empty_intake [gong_config]))"
    by (simp add: Let_def mark_event_def markWebhookEventIfNew_def k pruneFallback_def em_prune_def jm_prune_def intake_env_def sample_clock_def empty_intake_def)
  from failed_delivery_is_lost [where env' = "intake_env 200000 (Inr None)", OF _ _ _ _ _ _ _ this _ d] d show ?thesis
    by (simp add: k) (simp add: intake_env_def sample_clock_def empty_intake_def jm_wf_def)
qed

theorem late_transcript_not_processed_witness:
  "\<exists>st1 st2. handle_ready (intake_env 7 (Inr None)) ''cred'' ''org'' ''GONG'' ''g7'' (empty_intake [gong_config]) = (True, st1) \<and>
     handle_ready (intake_env 9 (Inr (Some ''hi''))) ''cred'' ''org'' ''GONG'' ''g7'' st1 = (True, st2) \<and> it_queue st2 = it_queue st1"
proof -
  obtain st1 where 1: "handle_ready (intake_env 7 (Inr None)) ''cred'' ''org'' ''GONG'' ''g7'' (empty_intake [gong_config]) = (True, st1)"
    using sample_ready by blast
  obtain ok st2 where 2: "handle_ready (intake_env 9 (Inr (Some ''hi''))) ''cred'' ''org'' ''GONG'' ''g7'' st1 = (ok, st2)"
    by (cases "handle_ready (intake_env 9 (Inr (Some ''hi''))) ''cred'' ''org'' ''GONG'' ''g7'' st1")
  have "ok \<and> it_queue st2 = it_queue st1 \<and> (\<exists>t \<in> set (it_transcripts st2). tx_fullText t = ''hi'')"
    by (rule late_transcript_not_processed [OF _ _ _ 1 _ _ _ 2, where known = set])
      (auto simp: intake_env_def list_add_def split: if_splits)
  with 1 2 show ?thesis by (intro exI [of _ st1] exI [of _ st2]) simp
qed

theorem signed_webhook_confined_witness:
  "\<exists>r st'. receive (intake_env 7 (Inr None)) (Gong gong_sig ''body'' (Some gong_body)) (empty_intake [gong_config]) = (r, st') \<and>
     length (rd_calls (it_db st')) \<le> 1 \<and> rd_calls (it_db st') \<noteq> []"
proof -
  let ?d = "Gong gong_sig ''body'' (Some gong_body)"
  obtain r st' where d: "receive (intake_env 7 (Inr None)) ?d (empty_intake [gong_config]) = (r, st')"
    by (cases "receive (intake_env 7 (Inr None)) ?d (empty_intake [gong_config])")
  have "gong_webhook ((intake_env 7 (Inr None))\<lparr> ie_clock := sample_clock 7 \<rparr>) gong_sig ''body'' (Some gong_body) (empty_intake [gong_config]) = (r, st')"
    using d by (simp add: intake_env_def)
  then have c: "rd_calls (it_db st') \<noteq> []"
    by (simp add: gong_webhook_def Let_def sample_headers gong_body_def stamp_of_def or_else_def validate_missing empty_intake_def sample_sender)
      (auto simp: Let_def deliver_def mark_event_def markWebhookEventIfNew_def trim_def js_ws_def pruneFallback_def em_prune_def jm_prune_def
         intake_env_def sample_clock_def handle_ready_def store_call_def ensure_call_def new_call_def enqueueProcessCallJob_def list_add_def
         numeral_3_eq_3 sample_job)
  then have "tables st' \<noteq> tables (empty_intake [gong_config])" by (auto simp: tables_def empty_intake_def)
  from signed_webhook_confined [OF d this] have "length (rd_calls (it_db st')) \<le> 1"
    by (auto simp: empty_intake_def unique_key_def)
  with d c show ?thesis by blast
qed

theorem one_call_per_recording_witness:
  "\<exists>st'. intake_step\<^sup>*\<^sup>* (empty_intake [gong_config]) st' \<and> rd_calls (it_db st') \<noteq> [] \<and> intake_ok st'"
proof -
  obtain st1 where s: "store_call (intake_env 7 (Inr None)) ''org'' ''GONG'' ''g7'' None None (empty_intake [gong_config]) = (True, st1)"
    and c: "rd_calls (it_db st1) \<noteq> []"
    using sample_ready by (auto simp: handle_ready_def intake_env_def empty_intake_def)
  have "intake_step (empty_intake [gong_config]) st1"
    by (rule intake_step.late [OF _ _ s]) (simp_all add: empty_intake_def)
  then have r: "intake_step\<^sup>*\<^sup>* (empty_intake [gong_config]) st1" by (rule r_into_rtranclp)
  have "intake_ok st1"
    by (rule one_call_per_recording [OF r]) (simp add: intake_ok_def empty_intake_def unique_key_def List.map_filter_def)
  with r c show ?thesis by blast
qed

end
