(* ===== verification/Merge_Webhook.thy ===== *)
theory Merge_Webhook
  imports Call_Webhooks Billing
begin

text \<open>
  \<open>src/webhooks/merge-webhook.ts\<close>: the webhook of the unified interface (Merge.dev), which delivers recordings,
  contacts and opportunities. The body is read as each of the three kinds of data; what is missing in it is
  \<open>None\<close>.
\<close>

section \<open>Data\<close>

record MergeParticipant =
  mpt_email :: "string option"
  mpt_name :: "string option"
  mpt_is_organizer :: "bool option"

record MergeRecording =
  rec_id :: string
  rec_remote_id :: "string option"
  rec_name :: "string option"
  rec_recording_url :: "string option"
  rec_duration :: "int option"
  rec_start_time :: "string option"
  rec_participants :: "MergeParticipant list"
  rec_transcript :: "string option"

record MergeCRMContact =
  mco_id :: "string option"
  mco_first_name :: "string option"
  mco_last_name :: "string option"
  mco_email_addresses :: "string list"
  mco_account :: "(string \<times> string option) option"

record MergeCRMOpportunity =
  opp_remote_id :: "string option"
  opp_name :: "string option"
  opp_amount :: "real option"
  opp_stage :: "string option"
  opp_close_date :: "string option"
  opp_status :: "string option"
  opp_account_name :: "string option"

record MergeWebhookPayload =
  mp_event :: "string option"
  mp_timestamp :: stamp
  mp_linkedAccount :: "string option"
  mp_integration :: string
  mp_organization :: "string option"
  mp_dataId :: "string option"
  mp_dataRemoteId :: "string option"
  mp_recording :: MergeRecording
  mp_contact :: MergeCRMContact
  mp_opportunity :: MergeCRMOpportunity

record LinkedAccount =
  la_mergeLinkedAccountId :: string
  la_organizationId :: ident
  la_status :: string

datatype SalesforceEventType = OPPORTUNITY_CREATED | OPPORTUNITY_STAGE_CHANGE | CLOSED_WON | CLOSED_LOST

text \<open>The columns of an event that nothing else of the model reads.\<close>

record EventDetails =
  ed_id :: ident
  ed_eventType :: SalesforceEventType
  ed_amount :: "real option"
  ed_closeDate :: "millis option"
  ed_description :: "string option"

record 'q MergeIntake =
  mi_intake :: "'q Intake"
  mi_linked :: "LinkedAccount list"
  mi_details :: "EventDetails list"

record 'q MergeEnv =
  me_intake :: "'q IntakeEnv"
  me_env :: "string \<Rightarrow> string option"
  me_search :: search
  me_fresh_account :: "Account list \<Rightarrow> ident"
  me_fresh_contact :: "IntakeContact list \<Rightarrow> ident"
  me_fresh_participant :: "IntakeParticipant list \<Rightarrow> ident"
  me_fresh_event :: "SalesforceEvent list \<Rightarrow> ident"

definition mapIntegrationToProvider :: "string \<Rightarrow> string" where
  "mapIntegrationToProvider integration =
     (case map_of [(''gong'', ''GONG''), (''chorus'', ''CHORUS''), (''zoom'', ''ZOOM''), (''google-meet'', ''GOOGLE_MEET''),
         (''google_meet'', ''GOOGLE_MEET''), (''teams'', ''TEAMS''), (''microsoft-teams'', ''TEAMS''), (''fireflies'', ''FIREFLIES''),
         (''dialpad'', ''DIALPAD''), (''aircall'', ''AIRCALL''), (''ringcentral'', ''RINGCENTRAL''), (''salesloft'', ''SALESLOFT''),
         (''outreach'', ''OUTREACH'')] (toLowerCase integration) of
        Some p \<Rightarrow> p | None \<Rightarrow> ''OTHER'')"

section \<open>Recordings\<close>

definition set_column :: "'a option \<Rightarrow> 'a option \<Rightarrow> 'a option" where
  "set_column new old = (case new of Some v \<Rightarrow> Some v | None \<Rightarrow> old)"

definition recording_update :: "millis \<Rightarrow> MergeRecording \<Rightarrow> IntakeCall \<Rightarrow> IntakeCall" where
  "recording_update now rec c =
     c\<lparr> ic_title := set_column (rec_name rec) (ic_title c),
        ic_recordingUrl := set_column (rec_recording_url rec) (ic_recordingUrl c),
        call_duration := set_column (rec_duration rec) (call_duration c), ic_updatedAt := now \<rparr>"

text \<open>
  \<open>call.upsert\<close> on \<open>mergeRecordingId\<close>. It fails on an invalid start time, and when the new call has organization,
  provider and external id of another.
\<close>

definition upsert_recording :: "'q MergeEnv \<Rightarrow> ident \<Rightarrow> string \<Rightarrow> MergeRecording \<Rightarrow> IntakeCall list \<Rightarrow> (IntakeCall \<times> IntakeCall list) option" where
  "upsert_recording env org provider rec rows =
     (let now = ce_now (ie_clock (me_intake env));
          occurredAt = (if truthy (rec_start_time rec) then ce_parse_date (ie_clock (me_intake env)) (the (rec_start_time rec)) else Some now) in
      case occurredAt of
        None \<Rightarrow> None
      | Some occurred \<Rightarrow>
          (case List.find (\<lambda>c. ic_mergeRecordingId c = Some (rec_id rec)) rows of
             Some c \<Rightarrow>
               Some (recording_update now rec c,
                 update_many (\<lambda>c. ic_mergeRecordingId c = Some (rec_id rec)) (recording_update now rec) rows)
           | None \<Rightarrow>
               if rec_remote_id rec \<noteq> None \<and> list_ex (same_call org provider (the (rec_remote_id rec))) rows then None
               else
                 let c = \<lparr> call_id = ie_fresh_call (me_intake env) rows, call_organizationId = org, call_accountId = None,
                       call_duration = rec_duration rec, ic_title = rec_name rec, ic_provider = provider,
                       ic_mergeRecordingId = Some (rec_id rec), ic_externalId = rec_remote_id rec, ic_recordingUrl = rec_recording_url rec,
                       ic_occurredAt = occurred, ic_matchMethod = NONE, ic_matchConfidence = 0, ic_dismissedAt = None, ic_updatedAt = now \<rparr> in
                 Some (c, rows @ [c])))"

definition participant_key :: "MergeParticipant \<Rightarrow> string" where
  "participant_key p =
     (case mpt_email p of Some e \<Rightarrow> toLowerCase e | None \<Rightarrow> []) @ ''|'' @ (case mpt_name p of Some n \<Rightarrow> n | None \<Rightarrow> []) @ ''|'' @
     (if mpt_is_organizer p = Some True then ''1'' else ''0'')"

definition at_call :: "ident \<Rightarrow> string \<Rightarrow> IntakeParticipant \<Rightarrow> bool" where
  "at_call callId email p \<longleftrightarrow> cp_callId p = callId \<and> ip_email p = Some email"

definition store_participant :: "'q MergeEnv \<Rightarrow> ident \<Rightarrow> MergeParticipant \<Rightarrow> IntakeParticipant list \<Rightarrow> IntakeParticipant list option" where
  "store_participant env callId p rows =
     (let email = map_option toLowerCase (mpt_email p);
          isHost = (mpt_is_organizer p = Some True);
          row = \<lparr> cp_id = me_fresh_participant env rows, cp_callId = callId, cp_contactId = None, ip_email = email,
            ip_name = mpt_name p, ip_isHost = isHost \<rparr> in
      if truthy email then
        Some (upsert (at_call callId (the email)) row (\<lambda>r. r\<lparr> ip_name := mpt_name p, ip_isHost := isHost \<rparr>) rows)
      else if email = Some [] \<and> list_ex (at_call callId []) rows then None
      else Some (rows @ [row]))"

fun store_participants :: "'q MergeEnv \<Rightarrow> ident \<Rightarrow> string list \<Rightarrow> MergeParticipant list \<Rightarrow> IntakeParticipant list \<Rightarrow> bool \<times> IntakeParticipant list" where
  "store_participants env callId seen [] rows = (True, rows)"
| "store_participants env callId seen (p # ps) rows =
     (if participant_key p \<in> set seen then store_participants env callId seen ps rows
      else case store_participant env callId p rows of
        None \<Rightarrow> (False, rows)
      | Some rows' \<Rightarrow> store_participants env callId (participant_key p # seen) ps rows')"

text \<open>\<open>False\<close>: an error was thrown; what was written before it stays.\<close>

definition handleRecordingEvent :: "'q MergeEnv \<Rightarrow> ident \<Rightarrow> MergeWebhookPayload \<Rightarrow> 'q Intake \<Rightarrow> bool \<times> 'q Intake" where
  "handleRecordingEvent env org payload st =
     (let rec = mp_recording payload; db = it_db st in
      case upsert_recording env org (mapIntegrationToProvider (mp_integration payload)) rec (rd_calls db) of
        None \<Rightarrow> (False, st)
      | Some (call, calls) \<Rightarrow>
          (case store_participants env (call_id call) [] (rec_participants rec) (rd_participants db) of
             (False, ps) \<Rightarrow> (False, st\<lparr> it_db := db\<lparr> rd_calls := calls, rd_participants := ps \<rparr> \<rparr>)
           | (True, ps) \<Rightarrow>
               (let (resolution, db') = resolveAndLinkContacts (me_search env) (me_fresh_contact env) (ce_now (ie_clock (me_intake env))) org
                      (call_id call) (map (\<lambda>p. \<lparr> pi_email = mpt_email p, pi_name = mpt_name p \<rparr>) (rec_participants rec)) None
                      (db\<lparr> rd_calls := calls, rd_participants := ps \<rparr>);
                    transcripts = (if truthy (rec_transcript rec) then upsert_transcript (call_id call) (the (rec_transcript rec)) (it_transcripts st)
                      else it_transcripts st);
                    (ok, queue) = enqueueProcessCallJob (ie_add (me_intake env))
                      \<lparr> job_callId = call_id call, job_organizationId = org,
                         job_accountId = (if re_accountId resolution = [] then None else Some (re_accountId resolution)),
                         job_hasTranscript = truthy (rec_transcript rec) \<rparr> (Some (job_id (call_id call))) None (it_queue st)
                in (ok, st\<lparr> it_db := db', it_transcripts := transcripts, it_queue := queue \<rparr>))))"

section \<open>Contacts and opportunities\<close>

definition full_name :: "MergeCRMContact \<Rightarrow> string option" where
  "full_name c =
     (let n = join '' '' (map the (filter truthy [mco_first_name c, mco_last_name c])) in if n = [] then None else Some n)"

definition handleCRMContactEvent :: "'q MergeEnv \<Rightarrow> ident \<Rightarrow> MergeWebhookPayload \<Rightarrow> 'q Intake \<Rightarrow> bool \<times> 'q Intake" where
  "handleCRMContactEvent env org payload st =
     (let contact = mp_contact payload; db = it_db st in
      case mco_email_addresses contact of
        [] \<Rightarrow> (True, st)
      | primaryEmail # _ \<Rightarrow>
          if primaryEmail = [] \<or> \<not> truthy (extractEmailDomain primaryEmail) then (True, st)
          else
            let domain = the (extractEmailDomain primaryEmail); email = toLowerCase primaryEmail in
            (case List.find (\<lambda>a. a_organizationId a = org \<and> a_domain a = Some domain) (rd_accounts db) of
               None \<Rightarrow>
                 (case mco_account contact of
                    Some (accId, Some name) \<Rightarrow>
                      if name = [] then (True, st)
                      else if list_ex (\<lambda>a. a_organizationId a = org \<and> a_salesforceId a = Some accId) (rd_accounts db) then (False, st)
                      else
                        let i = me_fresh_account env (rd_accounts db) in
                        (True, st\<lparr> it_db := db\<lparr>
                          rd_accounts := rd_accounts db @ [(new_account i org name (Some domain))\<lparr> a_salesforceId := Some accId \<rparr>],
                          rd_contacts := rd_contacts db @ [\<lparr> ct_id = me_fresh_contact env (rd_contacts db), ct_accountId = i, ct_email = email,
                            in_emailDomain = domain, in_name = full_name contact, in_mergeContactId = mco_id contact \<rparr>] \<rparr> \<rparr>)
                  | _ \<Rightarrow> (True, st))
             | Some account \<Rightarrow>
                 (True, st\<lparr> it_db := db\<lparr> rd_contacts := upsert (has_address (a_id account) email)
                    \<lparr> ct_id = me_fresh_contact env (rd_contacts db), ct_accountId = a_id account, ct_email = email,
                       in_emailDomain = domain, in_name = full_name contact, in_mergeContactId = mco_id contact \<rparr>
                    (\<lambda>c. c\<lparr> in_name := set_column (full_name contact) (in_name c),
                            in_mergeContactId := set_column (mco_id contact) (in_mergeContactId c) \<rparr>) (rd_contacts db) \<rparr> \<rparr>)))"

definition stage_includes :: "string \<Rightarrow> string option \<Rightarrow> bool" where
  "stage_includes w stage = (case stage of Some s \<Rightarrow> test_substring w (toLowerCase s) | None \<Rightarrow> False)"

definition opportunity_event_type :: "string \<Rightarrow> MergeCRMOpportunity \<Rightarrow> SalesforceEventType" where
  "opportunity_event_type event opp =
     (if opp_status opp = Some ''WON'' \<or> stage_includes ''closed won'' (opp_stage opp) then CLOSED_WON
      else if opp_status opp = Some ''LOST'' \<or> stage_includes ''closed lost'' (opp_stage opp) then CLOSED_LOST
      else if event = ''opportunity.created'' then OPPORTUNITY_CREATED
      else OPPORTUNITY_STAGE_CHANGE)"

text \<open>The event is refused when account, opportunity and stage are those of an earlier one, and on an invalid date.\<close>

definition handleCRMOpportunityEvent :: "'q MergeEnv \<Rightarrow> ident \<Rightarrow> MergeWebhookPayload \<Rightarrow> 'q MergeIntake \<Rightarrow> bool \<times> 'q MergeIntake" where
  "handleCRMOpportunityEvent env org payload st =
     (let opp = mp_opportunity payload; it = mi_intake st; db = it_db it in
      if \<not> truthy (opp_account_name opp) then (True, st)
      else case List.find (\<lambda>a. a_organizationId a = org \<and> a_normalizedName a = normalizeCompanyName (the (opp_account_name opp)))
          (rd_accounts db) of
        None \<Rightarrow> (True, st)
      | Some account \<Rightarrow>
          let i = me_fresh_event env (rd_events db);
              closeDate = (if truthy (opp_close_date opp)
                then map_option Some (ce_parse_date (ie_clock (me_intake env)) (the (opp_close_date opp))) else Some None);
              row = \<lparr> se_id = i, se_accountId = a_id account, se_opportunityId = opp_remote_id opp, se_stageName = opp_stage opp \<rparr> in
          (case closeDate of
             None \<Rightarrow> (False, st)
           | Some cd \<Rightarrow>
               if \<not> distinct (event_keys (rd_events db @ [row])) then (False, st)
               else (True, st\<lparr> mi_intake := it\<lparr> it_db := db\<lparr> rd_events := rd_events db @ [row] \<rparr> \<rparr>,
                  mi_details := mi_details st @ [\<lparr> ed_id = i, ed_eventType = opportunity_event_type (the (mp_event payload)) opp,
                    ed_amount = opp_amount opp, ed_closeDate = cd, ed_description = opp_name opp \<rparr>] \<rparr>)))"

section \<open>The handler\<close>

definition merge_secrets :: "'q MergeEnv \<Rightarrow> string list" where
  "merge_secrets env =
     resolveWebhookSecrets [me_env env ''MERGE_WEBHOOK_SECRETS'', me_env env ''MERGE_WEBHOOK_SECRET'', me_env env ''MERGE_WEBHOOK_SECRET_PREVIOUS'']"

definition merge_headers :: "string list" where
  "merge_headers = [''x-merge-webhook-timestamp'', ''x-webhook-timestamp'', ''x-request-timestamp'']"

definition data_id :: "MergeWebhookPayload \<Rightarrow> string" where
  "data_id payload =
     (case mp_dataId payload of Some i \<Rightarrow> i
      | None \<Rightarrow> (case mp_dataRemoteId payload of Some i \<Rightarrow> i | None \<Rightarrow> the (mp_linkedAccount payload)))"

definition dedupe_key :: "ident \<Rightarrow> MergeWebhookPayload \<Rightarrow> string" where
  "dedupe_key org payload = ''merge:'' @ org @ '':'' @ the (mp_event payload) @ '':'' @ data_id payload"

definition on_intake :: "('q Intake \<Rightarrow> bool \<times> 'q Intake) \<Rightarrow> 'q MergeIntake \<Rightarrow> bool \<times> 'q MergeIntake" where
  "on_intake f st = (case f (mi_intake st) of (ok, it) \<Rightarrow> (ok, st\<lparr> mi_intake := it \<rparr>))"

definition merge_dispatch :: "'q MergeEnv \<Rightarrow> ident \<Rightarrow> MergeWebhookPayload \<Rightarrow> 'q MergeIntake \<Rightarrow> bool \<times> 'q MergeIntake" where
  "merge_dispatch env org payload st =
     (let event = the (mp_event payload) in
      if event = ''recording.created'' \<or> event = ''recording.updated'' then on_intake (handleRecordingEvent env org payload) st
      else if event = ''contact.created'' \<or> event = ''contact.updated'' then on_intake (handleCRMContactEvent env org payload) st
      else if event = ''opportunity.created'' \<or> event = ''opportunity.updated'' then handleCRMOpportunityEvent env org payload st
      else (True, st))"

text \<open>The checks in front: the organization and the payload, or the refusal.\<close>

definition admit_merge :: "'q MergeEnv \<Rightarrow> headers \<Rightarrow> string \<Rightarrow> MergeWebhookPayload option \<Rightarrow> LinkedAccount list
    \<Rightarrow> (response, ident \<times> MergeWebhookPayload) res" where
  "admit_merge env hs rawBody parsed linked =
     (let signature = (case hs ''x-merge-webhook-signature'' of Some (One s) \<Rightarrow> s | _ \<Rightarrow> []) in
      if merge_secrets env = [] then Inl (Response 500 ''MERGE_WEBHOOK_SECRET is not configured'')
      else if signature = [] then Inl (Response 401 ''Missing webhook signature'')
      else if \<not> list_ex (verifySignature (ie_hmac (me_intake env)) rawBody signature) (merge_secrets env)
      then Inl (Response 401 ''Invalid webhook signature'')
      else case parsed of
        None \<Rightarrow> Inl (Response 400 ''Invalid JSON payload'')
      | Some payload \<Rightarrow>
          if \<not> truthy (mp_event payload) \<or> \<not> truthy (mp_linkedAccount payload) then Inl (Response 400 ''Malformed webhook payload'')
          else if \<not> fst (validateWebhookTimestamp (ie_clock (me_intake env)) True
              (or_else (mp_timestamp payload) (stamp_of (pickFirstHeaderValue hs merge_headers))))
          then Inl (Response 401 ''stale_webhook'')
          else case List.find (\<lambda>l. la_mergeLinkedAccountId l = the (mp_linkedAccount payload)) linked of
            None \<Rightarrow> Inl (Response 200 ''not processed'')
          | Some l \<Rightarrow>
              if la_status l \<noteq> ''ACTIVE'' then Inl (Response 200 ''not processed'')
              else if truthy (mp_organization payload) \<and> the (mp_organization payload) \<noteq> la_organizationId l
              then Inl (Response 401 ''Invalid webhook payload'')
              else Inr (la_organizationId l, payload))"

definition merge_webhook :: "'q MergeEnv \<Rightarrow> headers \<Rightarrow> string \<Rightarrow> MergeWebhookPayload option \<Rightarrow> 'q MergeIntake \<Rightarrow> response \<times> 'q MergeIntake" where
  "merge_webhook env hs rawBody parsed st =
     (case admit_merge env hs rawBody parsed (mi_linked st) of
        Inl r \<Rightarrow> (r, st)
      | Inr (org, payload) \<Rightarrow>
          (case mark_event (me_intake env) (dedupe_key org payload) (mi_intake st) of
             (False, it) \<Rightarrow> (Response 200 ''duplicate_ignored'', st\<lparr> mi_intake := it \<rparr>)
           | (True, it) \<Rightarrow>
               (case merge_dispatch env org payload (st\<lparr> mi_intake := it \<rparr>) of
                  (True, st') \<Rightarrow> (Response 200 ''processed'', st')
                | (False, st') \<Rightarrow> (Response 200 ''Processing failed'', st'))))"

end
