(* ===== verification/Merge_Delivery.thy ===== *)
theory Merge_Delivery
  imports Merge_Webhook Call_Delivery Resolution_Review
begin

text \<open>
  What the webhook of the unified interface guarantees for tenants, and which of its events are lost.
\<close>

section \<open>Tenants\<close>

lemma upsert_recording_frame:
  assumes "upsert_recording env org provider rec rows = Some (c, rows')" "unique_key call_id rows"
    and "list_all (\<lambda>c. ic_mergeRecordingId c = Some (rec_id rec) \<longrightarrow> call_organizationId c = org) rows"
    and "ie_fresh_call (me_intake env) rows \<notin> call_id ` set rows"
  shows "filter (\<lambda>c. call_organizationId c \<noteq> org) rows' = filter (\<lambda>c. call_organizationId c \<noteq> org) rows \<and>
    list_all (\<lambda>r. call_id r = call_id c \<longrightarrow> call_organizationId r = org) rows'"
proof (cases "List.find (\<lambda>c. ic_mergeRecordingId c = Some (rec_id rec)) rows")
  case None
  with assms(1) have "call_organizationId c = org \<and> call_id c = ie_fresh_call (me_intake env) rows \<and> rows' = rows @ [c]"
    unfolding upsert_recording_def Let_def by (auto split: option.splits if_splits)
  with assms(4) show ?thesis by (auto simp: list_all_iff image_iff)
next
  case (Some c0)
  note c0 = find_SomeD [OF Some]
  let ?f = "recording_update (ce_now (ie_clock (me_intake env))) rec"
  have f: "call_organizationId (?f c) = call_organizationId c" "call_id (?f c) = call_id c" for c by (simp_all add: recording_update_def)
  from assms(1) Some have r: "c = ?f c0" "rows' = update_many (\<lambda>c. ic_mergeRecordingId c = Some (rec_id rec)) ?f rows"
    unfolding upsert_recording_def Let_def by (auto split: option.splits)
  have own: "call_organizationId s = org" if "s \<in> set rows" "ic_mergeRecordingId s = Some (rec_id rec)" for s
    using assms(3) that by (simp add: list_all_iff)
  have "filter (\<lambda>c. call_organizationId c \<noteq> org) rows' = filter (\<lambda>c. call_organizationId c \<noteq> org) rows"
    unfolding r(2) by (rule filter_update_many_on) (simp add: f own)
  moreover have "list_all (\<lambda>r. call_id r = call_id c \<longrightarrow> call_organizationId r = org) rows'"
    unfolding r list_all_iff
  proof (intro ballI impI)
    fix x assume "x \<in> set (update_many (\<lambda>c. ic_mergeRecordingId c = Some (rec_id rec)) ?f rows)" "call_id x = call_id (?f c0)"
    then show "call_organizationId x = org"
    proof (cases rule: in_update_manyE)
      case (1 s)
      with f own show ?thesis by simp
    next
      case 2
      then have "x = c0" using unique_key_eq [OF assms(2), of x c0] c0 \<open>call_id x = call_id (?f c0)\<close> f(2) by simp
      with own c0 show ?thesis by simp
    qed
  qed
  ultimately show ?thesis by simp
qed

lemma resolveAndLink_others:
  assumes "resolveAndLinkContacts search fresh now org i ps t db = (e, db')"
    and sound: "\<And>accounts c r. r \<in> set (search accounts c) \<Longrightarrow> fst r \<in> set accounts"
    and u: "unique_key a_id (rd_accounts db)"
    and own: "list_all (\<lambda>r. call_id r = i \<longrightarrow> call_organizationId r = org) (rd_calls db)"
  shows "others org (rd_accounts db) db' = others org (rd_accounts db) db"
proof -
  have calls: "filter (\<lambda>c. call_organizationId c \<noteq> org) (set_call now i f (rd_calls db)) = filter (\<lambda>c. call_organizationId c \<noteq> org) (rd_calls db)"
    if "\<And>c. call_organizationId (f c) = call_organizationId c" for f
    unfolding set_call_def by (rule filter_update_many_on) (use own that in \<open>auto simp: list_all_iff\<close>)
  have e: "e = resolve search org ps t db" using assms(1) by (auto simp: resolveAndLinkContacts_def Let_def split: if_splits)
  show ?thesis
  proof (cases "re_matchMethod e = no_match")
    case True
    with assms(1) e have "db' = db\<lparr> rd_calls := set_call now i (\<lambda>c. c\<lparr> call_accountId := None, ic_matchMethod := NONE, ic_matchConfidence := 0 \<rparr>)
               (rd_calls db), rd_notifications := rd_notifications db @ [(org, i)] \<rparr>"
      by (simp add: resolveAndLinkContacts_def Let_def)
    then show ?thesis by (simp add: others_def calls)
  next
    case False
    have "\<exists>a \<in> set (rd_accounts db). re_accountId e = a_id a \<and> a_organizationId a = org \<and>
        (if re_matchMethod e = email_domain_match then re_confidence e \<in> {85 / 100, 90 / 100, 95 / 100}
         else 7 / 10 \<le> re_confidence e \<and> re_confidence e \<le> 75 / 100)"
      by (rule resolution_stays_in_tenant_rule [OF _ e [symmetric] False]) (rule sound)
    then obtain a where a: "a \<in> set (rd_accounts db)" "re_accountId e = a_id a" "a_organizationId a = org" by blast
    have "\<not> alien org (rd_accounts db) (re_accountId e)"
      using account_row_unique [OF u a(1)] a(2,3) by (simp add: alien_def)
    note f = filter_fold [where q = "\<lambda>c. alien org (rd_accounts db) (ct_accountId c)",
        OF link_contact_frame [where q = "alien org (rd_accounts db)", OF this]]
    from assms(1) e False have "db' = db\<lparr> rd_contacts := fold (link_contact fresh (re_accountId e)) ps (rd_contacts db),
             rd_calls := set_call now i (\<lambda>c. c\<lparr> call_accountId := Some (re_accountId e) \<rparr>) (rd_calls db) \<rparr>"
      by (auto simp add: resolveAndLinkContacts_def Let_def)
    then show ?thesis by (simp add: others_def calls f)
  qed
qed

lemma recording_event_others:
  assumes "resolution_wf (it_db st)"
    and sound: "\<And>accounts c r. r \<in> set (me_search env accounts c) \<Longrightarrow> fst r \<in> set accounts"
    and "ie_fresh_call (me_intake env) (rd_calls (it_db st)) \<notin> call_id ` set (rd_calls (it_db st))"
    and "list_all (\<lambda>c. ic_mergeRecordingId c = Some (rec_id (mp_recording p)) \<longrightarrow> call_organizationId c = org) (rd_calls (it_db st))"
    and "handleRecordingEvent env org p st = (ok, st')"
  shows "others org (rd_accounts (it_db st)) (it_db st') = others org (rd_accounts (it_db st)) (it_db st)"
proof (cases "upsert_recording env org (mapIntegrationToProvider (mp_integration p)) (mp_recording p) (rd_calls (it_db st))")
  case None
  with assms(5) show ?thesis by (simp add: handleRecordingEvent_def Let_def)
next
  case (Some x)
  obtain call calls where x: "x = (call, calls)" by (cases x)
  from upsert_recording_frame [OF Some [unfolded x] _ assms(4,3)] assms(1) have
    fr: "filter (\<lambda>c. call_organizationId c \<noteq> org) calls = filter (\<lambda>c. call_organizationId c \<noteq> org) (rd_calls (it_db st))"
    "list_all (\<lambda>r. call_id r = call_id call \<longrightarrow> call_organizationId r = org) calls" by (simp_all add: resolution_wf_def)
  obtain b ps where b: "store_participants env (call_id call) [] (rec_participants (mp_recording p)) (rd_participants (it_db st)) = (b, ps)"
    by (cases "store_participants env (call_id call) [] (rec_participants (mp_recording p)) (rd_participants (it_db st))")
  let ?db = "(it_db st)\<lparr> rd_calls := calls, rd_participants := ps \<rparr>"
  have o: "others org (rd_accounts (it_db st)) ?db = others org (rd_accounts (it_db st)) (it_db st)" using fr(1) by (simp add: others_def)
  show ?thesis
  proof (cases b)
    case False
    with assms(5) Some x b o show ?thesis by (auto simp: handleRecordingEvent_def Let_def)
  next
    case True
    obtain e db' where r: "resolveAndLinkContacts (me_search env) (me_fresh_contact env) (ce_now (ie_clock (me_intake env))) org
        (call_id call) (map (\<lambda>p. \<lparr> pi_email = mpt_email p, pi_name = mpt_name p \<rparr>) (rec_participants (mp_recording p))) None ?db = (e, db')"
      by fastforce
    have "it_db st' = db'" using assms(5) Some x b True r by (auto simp: handleRecordingEvent_def Let_def split: prod.splits)
    with resolveAndLink_others [OF r sound] assms(1) fr(2) o show ?thesis by (simp add: resolution_wf_def)
  qed
qed

lemma contact_event_others:
  assumes "resolution_wf (it_db st)" "account_row (me_fresh_account env (rd_accounts (it_db st))) (rd_accounts (it_db st)) = None"
    and "handleCRMContactEvent env org p st = (ok, st')"
  shows "others org (rd_accounts (it_db st)) (it_db st') = others org (rd_accounts (it_db st)) (it_db st)"
proof -
  let ?db = "it_db st" and ?acc = "rd_accounts (it_db st)"
  have new: "\<not> alien org ?acc (me_fresh_account env ?acc)" using assms(2) by (simp add: alien_def)
  show ?thesis
  proof (cases "mco_email_addresses (mp_contact p)")
    case Nil
    with assms(3) show ?thesis by (simp add: handleCRMContactEvent_def)
  next
    case (Cons e es)
    let ?d = "the (extractEmailDomain e)"
    note h = assms(3) [unfolded handleCRMContactEvent_def Let_def Cons, simplified]
    show ?thesis
    proof (cases "e = [] \<or> \<not> truthy (extractEmailDomain e)")
      case True
      with h show ?thesis by auto
    next
      case False
      show ?thesis
      proof (cases "List.find (\<lambda>a. a_organizationId a = org \<and> a_domain a = Some ?d) ?acc")
        case None
        with h False new show ?thesis by (auto simp: others_def new_account_def split: option.splits if_splits)
      next
        case (Some a)
        from find_SomeD [OF Some] have a: "a \<in> set ?acc" "a_organizationId a = org" by simp_all
        then have na: "\<not> alien org ?acc (a_id a)" using account_row_unique [of ?acc a] assms(1) by (simp add: alien_def resolution_wf_def)
        obtain c f where db': "it_db st' = ?db\<lparr> rd_contacts := upsert (has_address (a_id a) (toLowerCase e)) c f (rd_contacts ?db) \<rparr>"
            and ct: "ct_accountId c = a_id a" "\<And>c. ct_accountId (f c) = ct_accountId c"
          using h False Some by auto
        have "filter (\<lambda>c. alien org ?acc (ct_accountId c)) (upsert (has_address (a_id a) (toLowerCase e)) c f (rd_contacts ?db)) =
            filter (\<lambda>c. alien org ?acc (ct_accountId c)) (rd_contacts ?db)"
          by (intro filter_upsert_other) (simp_all add: has_address_def ct na)
        with db' show ?thesis by (simp add: others_def)
      qed
    qed
  qed
qed

text \<open>
  An accepted delivery changes no account, call, contact, domain or story of another organization, as long as
  the recording it names is not stored as a call of another organization.
\<close>

theorem merge_webhook_confined:
  assumes "admit_merge env hs rawBody parsed (mi_linked st) = Inr (org, p)"
    and "resolution_wf (it_db (mi_intake st))"
    and "\<And>accounts c r. r \<in> set (me_search env accounts c) \<Longrightarrow> fst r \<in> set accounts"
    and "ie_fresh_call (me_intake env) (rd_calls (it_db (mi_intake st))) \<notin> call_id ` set (rd_calls (it_db (mi_intake st)))"
    and "account_row (me_fresh_account env (rd_accounts (it_db (mi_intake st)))) (rd_accounts (it_db (mi_intake st))) = None"
    and "list_all (\<lambda>c. ic_mergeRecordingId c = Some (rec_id (mp_recording p)) \<longrightarrow> call_organizationId c = org) (rd_calls (it_db (mi_intake st)))"
  shows "others org (rd_accounts (it_db (mi_intake st))) (it_db (mi_intake (snd (merge_webhook env hs rawBody parsed st)))) =
    others org (rd_accounts (it_db (mi_intake st))) (it_db (mi_intake st))"
proof -
  obtain b it where m: "mark_event (me_intake env) (dedupe_key org p) (mi_intake st) = (b, it)"
    by (cases "mark_event (me_intake env) (dedupe_key org p) (mi_intake st)")
  have db: "it_db it = it_db (mi_intake st)" using mark_event_tables [OF m] by (simp add: tables_def)
  have wf: "resolution_wf (it_db it)"
    and f: "ie_fresh_call (me_intake env) (rd_calls (it_db it)) \<notin> call_id ` set (rd_calls (it_db it))"
    and l: "list_all (\<lambda>c. ic_mergeRecordingId c = Some (rec_id (mp_recording p)) \<longrightarrow> call_organizationId c = org) (rd_calls (it_db it))"
    and a: "account_row (me_fresh_account env (rd_accounts (it_db it))) (rd_accounts (it_db it)) = None"
    using assms(2,4-6) db by simp_all
  have d: "others org (rd_accounts (it_db it)) (it_db (mi_intake st')) = others org (rd_accounts (it_db it)) (it_db it)"
    if dsp: "merge_dispatch env org p (st\<lparr> mi_intake := it \<rparr>) = (ok, st')" for ok st'
  proof -
    obtain r1 s1 r2 s2 where h: "handleRecordingEvent env org p it = (r1, s1)" "handleCRMContactEvent env org p it = (r2, s2)" by fastforce
    have r: "others org (rd_accounts (it_db it)) (it_db s1) = others org (rd_accounts (it_db it)) (it_db it)"
      by (rule recording_event_others [OF wf _ f l h(1)]) (rule assms(3))
    have c: "others org (rd_accounts (it_db it)) (it_db s2) = others org (rd_accounts (it_db it)) (it_db it)"
      by (rule contact_event_others [OF wf a h(2)])
    have o: "others org (rd_accounts (it_db it)) (it_db (mi_intake (snd (handleCRMOpportunityEvent env org p (st\<lparr> mi_intake := it \<rparr>))))) =
        others org (rd_accounts (it_db it)) (it_db it)"
      by (auto simp: handleCRMOpportunityEvent_def Let_def others_def split: option.splits)
    show ?thesis using dsp r c o h by (auto simp: merge_dispatch_def on_intake_def Let_def split: if_splits)
  qed
  obtain ok st' where k: "merge_dispatch env org p (st\<lparr> mi_intake := it \<rparr>) = (ok, st')" by fastforce
  show ?thesis using assms(1) m d [OF k] k db by (cases b; cases ok) (simp_all add: merge_webhook_def)
qed

text \<open>
  Where it is, the call changes hands: after an event for an organization, the call of another one that has the
  recording's id belongs to an account of the event's organization or to none.
\<close>

theorem recording_moves_foreign_call:
  assumes "handleRecordingEvent env org p st = (True, st')"
    and "\<And>accounts c r. r \<in> set (me_search env accounts c) \<Longrightarrow> fst r \<in> set accounts"
    and "List.find (\<lambda>c. ic_mergeRecordingId c = Some (rec_id (mp_recording p))) (rd_calls (it_db st)) = Some c0"
    and "call_organizationId c0 \<noteq> org" "c \<in> set (rd_calls (it_db st'))" "call_id c = call_id c0"
  shows "case call_accountId c of None \<Rightarrow> True | Some i \<Rightarrow> \<exists>a \<in> set (rd_accounts (it_db st)). a_id a = i \<and> a_organizationId a = org"
proof -
  obtain x where x: "upsert_recording env org (mapIntegrationToProvider (mp_integration p)) (mp_recording p) (rd_calls (it_db st)) = Some x"
    using assms(1) by (cases "upsert_recording env org (mapIntegrationToProvider (mp_integration p)) (mp_recording p) (rd_calls (it_db st))")
      (auto simp: handleRecordingEvent_def Let_def)
  obtain call calls where cc: "x = (call, calls)" by (cases x)
  have id: "call_id call = call_id c0"
    using x cc assms(3) by (auto simp: recording_update_def upsert_recording_def Let_def split: option.splits if_splits)
  from assms(1) x cc obtain ps where
    s: "store_participants env (call_id call) [] (rec_participants (mp_recording p)) (rd_participants (it_db st)) = (True, ps)"
    by (auto simp: handleRecordingEvent_def Let_def split: prod.splits bool.splits)
  let ?db = "(it_db st)\<lparr> rd_calls := calls, rd_participants := ps \<rparr>"
  let ?in = "map (\<lambda>p. \<lparr> pi_email = mpt_email p, pi_name = mpt_name p \<rparr>) (rec_participants (mp_recording p))"
  obtain e db' where r: "resolveAndLinkContacts (me_search env) (me_fresh_contact env) (ce_now (ie_clock (me_intake env))) org
      (call_id call) ?in None ?db = (e, db')" by fastforce
  have db': "it_db st' = db'" using assms(1) x cc s r by (auto simp: handleRecordingEvent_def Let_def split: prod.splits)
  have e: "resolve (me_search env) org ?in None ?db = e" using r by (auto simp: resolveAndLinkContacts_def Let_def split: if_splits)
  show ?thesis
  proof (cases "re_matchMethod e = no_match")
    case True
    with r e have "rd_calls db' = set_call (ce_now (ie_clock (me_intake env))) (call_id call)
        (\<lambda>c. c\<lparr> call_accountId := None, ic_matchMethod := NONE, ic_matchConfidence := 0 \<rparr>) calls"
      by (auto simp: resolveAndLinkContacts_def Let_def)
    with set_call_rows [of c _ "call_id call" _ calls] assms(5,6) db' id show ?thesis by fastforce
  next
    case False
    with r e have "rd_calls db' = set_call (ce_now (ie_clock (me_intake env))) (call_id call)
        (\<lambda>c. c\<lparr> call_accountId := Some (re_accountId e) \<rparr>) calls"
      by (auto simp: resolveAndLinkContacts_def Let_def)
    with set_call_rows [of c _ "call_id call" _ calls] assms(5,6) db' id have "call_accountId c = Some (re_accountId e)" by fastforce
    moreover have "\<exists>a \<in> set (rd_accounts ?db). re_accountId e = a_id a \<and> a_organizationId a = org \<and>
        (if re_matchMethod e = email_domain_match then re_confidence e \<in> {85 / 100, 90 / 100, 95 / 100}
         else 7 / 10 \<le> re_confidence e \<and> re_confidence e \<le> 75 / 100)"
      by (rule resolution_stays_in_tenant_rule [OF _ e False]) (rule assms(2))
    ultimately show ?thesis by auto
  qed
qed

section \<open>Events that are lost\<close>

text \<open>
  A recording that Gong's own webhook has stored cannot be delivered again by the unified interface: its
  insertion violates the unique key, whatever it carries, and nothing is stored.
\<close>

theorem recording_known_by_gong_is_lost:
  assumes "c \<in> set (rd_calls (it_db st))" "same_call org ''GONG'' x c" "toLowerCase (mp_integration p) = ''gong''"
    and "rec_remote_id (mp_recording p) = Some x"
    and "list_all (\<lambda>c. ic_mergeRecordingId c \<noteq> Some (rec_id (mp_recording p))) (rd_calls (it_db st))"
  shows "handleRecordingEvent env org p st = (False, st)"
proof -
  have "List.find (\<lambda>c. ic_mergeRecordingId c = Some (rec_id (mp_recording p))) (rd_calls (it_db st)) = None"
    using assms(5) by (auto simp: find_None_iff list_all_iff)
  moreover have "list_ex (same_call org ''GONG'' x) (rd_calls (it_db st))" using assms(1,2) by (auto simp: list_ex_iff)
  ultimately have "upsert_recording env org ''GONG'' (mp_recording p) (rd_calls (it_db st)) = None"
    using assms(4) by (simp add: upsert_recording_def Let_def split: option.splits)
  then show ?thesis using assms(3) by (simp add: handleRecordingEvent_def mapIntegrationToProvider_def Let_def)
qed

text \<open>
  An update of an opportunity whose stage is that of an earlier event of it is refused, so that a changed amount
  or close date is lost.
\<close>

theorem repeated_stage_is_lost:
  assumes "e \<in> set (rd_events (it_db (mi_intake st)))" "se_accountId e = a_id a" "se_opportunityId e = Some o'" "se_stageName e = Some s"
    and "opp_account_name (mp_opportunity p) = Some n" "n \<noteq> []"
    and "List.find (\<lambda>a. a_organizationId a = org \<and> a_normalizedName a = normalizeCompanyName n) (rd_accounts (it_db (mi_intake st))) = Some a"
    and "opp_remote_id (mp_opportunity p) = Some o'" "opp_stage (mp_opportunity p) = Some s"
  shows "handleCRMOpportunityEvent env org p st = (False, st)"
proof -
  have "(a_id a, o', s) \<in> set (event_keys (rd_events (it_db (mi_intake st))))"
    using assms(1-4) by (force simp: event_keys_def)
  then have "\<not> distinct (event_keys (rd_events (it_db (mi_intake st)) @
      [\<lparr> se_id = i, se_accountId = a_id a, se_opportunityId = Some o', se_stageName = Some s \<rparr>]))" for i
    by (auto simp: event_keys_def)
  then show ?thesis using assms(5-9) by (simp add: handleCRMOpportunityEvent_def Let_def split: option.splits)
qed

lemma recording_event_seen: "handleRecordingEvent env org p st = (ok, st') \<Longrightarrow> it_seen st' = it_seen st"
  by (auto simp: handleRecordingEvent_def Let_def split: option.splits prod.splits bool.splits)

lemma contact_event_seen: "handleCRMContactEvent env org p st = (ok, st') \<Longrightarrow> it_seen st' = it_seen st"
  unfolding handleCRMContactEvent_def Let_def by (auto split: list.splits option.splits if_splits)

lemma opportunity_event_seen:
  "handleCRMOpportunityEvent env org p st = (ok, st') \<Longrightarrow> it_seen (mi_intake st') = it_seen (mi_intake st) \<and> mi_linked st' = mi_linked st"
  by (auto simp: handleCRMOpportunityEvent_def Let_def split: option.splits if_splits)

lemma dispatch_seen:
  "merge_dispatch env org p st = (ok, st') \<Longrightarrow> it_seen (mi_intake st') = it_seen (mi_intake st) \<and> mi_linked st' = mi_linked st"
  by (auto simp: merge_dispatch_def on_intake_def Let_def dest: recording_event_seen contact_event_seen opportunity_event_seen
      split: if_splits prod.splits)

text \<open>
  Two different updates of one record within five minutes: the second one is taken for a duplicate of the
  first, since the key names the record and not its state.
\<close>

theorem second_update_is_dropped:
  assumes "admit_merge env hs body parsed (mi_linked st) = Inr (org, p)"
    and "admit_merge env' hs' body' parsed' (mi_linked st) = Inr (org, p')"
    and "mp_event p' = mp_event p" "data_id p' = data_id p"
    and "jm_wf (it_seen (mi_intake st))" "ie_redis (me_intake env) = None" "ie_redis (me_intake env') = None"
    and "0 \<le> ce_now (ie_clock (me_intake env))" "ce_now (ie_clock (me_intake env)) \<le> ce_now (ie_clock (me_intake env'))"
    and "ce_now (ie_clock (me_intake env')) < ce_now (ie_clock (me_intake env)) + 300000"
    and "fst (mark_event (me_intake env) (dedupe_key org p) (mi_intake st))"
    and "merge_webhook env hs body parsed st = (r, st1)"
  shows "fst (merge_webhook env' hs' body' parsed' st1) = Response 200 ''duplicate_ignored''"
proof -
  obtain it where m: "mark_event (me_intake env) (dedupe_key org p) (mi_intake st) = (True, it)"
    using assms(11) by (cases "mark_event (me_intake env) (dedupe_key org p) (mi_intake st)") auto
  obtain ok st2 where k: "merge_dispatch env org p (st\<lparr> mi_intake := it \<rparr>) = (ok, st2)" by fastforce
  have "st1 = st2" using assms(1,12) m k by (cases ok) (simp_all add: merge_webhook_def)
  with dispatch_seen [OF k] have st1: "it_seen (mi_intake st1) = it_seen it" "mi_linked st1 = mi_linked st" by simp_all
  have "trim (dedupe_key org p) \<noteq> []"
    by (auto simp: dedupe_key_def trim_def js_ws_def dropWhile_eq_Nil_conv)
  moreover have "dedupe_key org p' = dedupe_key org p" using assms(3,4) by (simp add: dedupe_key_def)
  ultimately have "fst (mark_event (me_intake env') (dedupe_key org p') (mi_intake st1)) = False"
    using mark_twice [OF assms(5-7) _ assms(8-10) m, of "mi_intake st1"] st1 by simp
  then show ?thesis using assms(2) st1(2) by (cases "mark_event (me_intake env') (dedupe_key org p') (mi_intake st1)") (simp add: merge_webhook_def)
qed

section \<open>Concrete runs\<close>

definition merge_env :: "millis \<Rightarrow> string list MergeEnv" where
  "merge_env now =
     \<lparr> me_intake = intake_env now (Inl ()), me_env = (\<lambda>n. if n = ''MERGE_WEBHOOK_SECRET'' then Some ''s'' else None),
        me_search = no_search, me_fresh_account = (\<lambda>_. ''n''), me_fresh_contact = (\<lambda>_. ''k''), me_fresh_participant = (\<lambda>_. ''p''),
        me_fresh_event = (\<lambda>_. ''e'') \<rparr>"

definition merge_payload :: "string \<Rightarrow> MergeWebhookPayload" where
  "merge_payload event =
     \<lparr> mp_event = Some event, mp_timestamp = Number 0, mp_linkedAccount = Some ''la'', mp_integration = ''Gong'', mp_organization = None,
        mp_dataId = Some ''d1'', mp_dataRemoteId = None,
        mp_recording = \<lparr> rec_id = ''m1'', rec_remote_id = Some ''x1'', rec_name = None, rec_recording_url = None, rec_duration = None,
          rec_start_time = None, rec_participants = [], rec_transcript = None \<rparr>,
        mp_contact = \<lparr> mco_id = Some ''m2'', mco_first_name = Some ''Bob'', mco_last_name = None, mco_email_addresses = [''bob@acme.com''],
          mco_account = None \<rparr>,
        mp_opportunity = \<lparr> opp_remote_id = Some ''o1'', opp_name = None, opp_amount = Some 5, opp_stage = Some ''Demo'', opp_close_date = None,
          opp_status = None, opp_account_name = Some ''Acme'' \<rparr> \<rparr>"

definition merge_sig :: headers where
  "merge_sig h = (if h = ''x-merge-webhook-signature'' then Some (One ''sbody'') else None)"

definition merge_state :: "string list MergeIntake" where
  "merge_state = \<lparr> mi_intake = (empty_intake [])\<lparr> it_db := sample_resolution \<rparr>,
     mi_linked = [\<lparr> la_mergeLinkedAccountId = ''la'', la_organizationId = ''org'', la_status = ''ACTIVE'' \<rparr>], mi_details = [] \<rparr>"

lemma gong_lower: "toLowerCase ''Gong'' = ''gong''" by code_simp

lemma one_secret: "resolveWebhookSecrets [None, Some ''s'', None] = [''s'']"
  by code_simp

lemma merge_admitted:
  assumes "event \<noteq> []" "0 \<le> now" "now \<le> 300000"
  shows "admit_merge (merge_env now) merge_sig ''body'' (Some (merge_payload event)) (mi_linked merge_state) = Inr (''org'', merge_payload event)"
  using assms
  by (simp add: admit_merge_def merge_secrets_def merge_env_def one_secret merge_sig_def Let_def verifySignature_def intake_env_def
      merge_payload_def validateWebhookTimestamp_def isMissingTimestamp_def or_else_def parseWebhookTimestamp_def to_ms_def date_of_ms_def
      sample_clock_def resolveReplayWindowSeconds_def merge_state_def)

lemma merge_key: "trim (dedupe_key ''org'' (merge_payload ''contact.created'')) = ''merge:org:contact.created:d1''"
  by (simp add: dedupe_key_def merge_payload_def data_id_def trim_def js_ws_def)

lemma acme_domain: "extractEmailDomain ''bob@acme.com'' = Some ''acme.com''" by code_simp

theorem merge_webhook_confined_witness:
  "others ''org'' (rd_accounts sample_resolution) (it_db (mi_intake (snd (merge_webhook (merge_env 7) merge_sig ''body''
       (Some (merge_payload ''contact.created'')) merge_state)))) = others ''org'' (rd_accounts sample_resolution) sample_resolution"
proof -
  have "others ''org'' (rd_accounts (it_db (mi_intake merge_state))) (it_db (mi_intake (snd (merge_webhook (merge_env 7) merge_sig ''body''
       (Some (merge_payload ''contact.created'')) merge_state)))) = others ''org'' (rd_accounts (it_db (mi_intake merge_state))) (it_db (mi_intake merge_state))"
  proof (rule merge_webhook_confined)
    show "admit_merge (merge_env 7) merge_sig ''body'' (Some (merge_payload ''contact.created'')) (mi_linked merge_state) =
        Inr (''org'', merge_payload ''contact.created'')" by (rule merge_admitted) simp_all
    show "resolution_wf (it_db (mi_intake merge_state))" using sample_resolution_wf by (simp add: merge_state_def)
  qed (simp_all add: merge_env_def no_search_def merge_state_def intake_env_def sample_resolution_def account_row_def new_account_def merge_payload_def)
  then show ?thesis by (simp add: merge_state_def)
qed

theorem second_update_is_dropped_witness:
  "fst (merge_webhook (merge_env 200000) merge_sig ''body'' (Some (merge_payload ''contact.created''))
      (snd (merge_webhook (merge_env 7) merge_sig ''body'' (Some (merge_payload ''contact.created'')) merge_state))) = Response 200 ''duplicate_ignored''"
proof (rule second_update_is_dropped)
  show "admit_merge (merge_env 7) merge_sig ''body'' (Some (merge_payload ''contact.created'')) (mi_linked merge_state) =
      Inr (''org'', merge_payload ''contact.created'')" by (rule merge_admitted) simp_all
  show "admit_merge (merge_env 200000) merge_sig ''body'' (Some (merge_payload ''contact.created'')) (mi_linked merge_state) =
      Inr (''org'', merge_payload ''contact.created'')" by (rule merge_admitted) simp_all
  show "fst (mark_event (me_intake (merge_env 7)) (dedupe_key ''org'' (merge_payload ''contact.created'')) (mi_intake merge_state))"
    by (simp add: mark_event_def markWebhookEventIfNew_def merge_key Let_def pruneFallback_def em_prune_def jm_prune_def merge_env_def
        intake_env_def merge_state_def empty_intake_def)
  show "merge_webhook (merge_env 7) merge_sig ''body'' (Some (merge_payload ''contact.created'')) merge_state =
      (fst (merge_webhook (merge_env 7) merge_sig ''body'' (Some (merge_payload ''contact.created'')) merge_state),
       snd (merge_webhook (merge_env 7) merge_sig ''body'' (Some (merge_payload ''contact.created'')) merge_state))" by simp
qed (simp_all add: merge_state_def empty_intake_def jm_wf_def merge_env_def intake_env_def sample_clock_def)

theorem recording_known_by_gong_is_lost_witness:
  "handleRecordingEvent (merge_env 7) ''org'' (merge_payload ''recording.created'') (mi_intake merge_state) = (False, mi_intake merge_state)"
  by (rule recording_known_by_gong_is_lost [where c = "hd (rd_calls sample_resolution)" and x = "''x1''"])
    (simp_all add: merge_state_def sample_resolution_def same_call_def merge_payload_def gong_lower)

definition foreign_state :: "string list Intake" where
  "foreign_state = (empty_intake [])\<lparr> it_db := sample_resolution\<lparr> rd_calls :=
     map (\<lambda>c. c\<lparr> call_organizationId := ''other'', call_accountId := Some ''b1'', ic_mergeRecordingId := Some ''m1'' \<rparr>) (rd_calls sample_resolution) \<rparr> \<rparr>"

theorem recording_moves_foreign_call_witness:
  "\<exists>st'. handleRecordingEvent (merge_env 7) ''org'' (merge_payload ''recording.updated'') foreign_state = (True, st') \<and>
     map call_accountId (rd_calls (it_db foreign_state)) = [Some ''b1''] \<and> map call_accountId (rd_calls (it_db st')) \<noteq> [Some ''b1'']"
proof -
  let ?p = "merge_payload ''recording.updated''"
  have u: "resolve no_search ''org'' [] None db = unresolved" for db
    by (simp add: resolve_def Let_def extractParticipantDomains_def buildCandidateNames_def List.map_filter_def)
  have c: "buildProcessCallJobOptions (Some (job_id ''c1'')) = Some ''process-call:c1''" by code_simp
  obtain ok st' where h: "handleRecordingEvent (merge_env 7) ''org'' ?p foreign_state = (ok, st')" by fastforce
  have ok: "ok = True" "map call_id (rd_calls (it_db st')) = [''c1'']"
    using h by (auto simp: handleRecordingEvent_def Let_def upsert_recording_def foreign_state_def sample_resolution_def merge_payload_def
        resolveAndLinkContacts_def merge_env_def u unresolved_def enqueueProcessCallJob_def c intake_env_def list_add_def numeral_3_eq_3
        recording_update_def set_call_def sample_clock_def)
  then obtain x where x: "rd_calls (it_db st') = [x]" "call_id x = ''c1''" by auto
  have "case call_accountId x of None \<Rightarrow> True | Some i \<Rightarrow> \<exists>a \<in> set (rd_accounts (it_db foreign_state)). a_id a = i \<and> a_organizationId a = ''org''"
  proof (rule recording_moves_foreign_call)
    show "handleRecordingEvent (merge_env 7) ''org'' ?p foreign_state = (True, st')" using h ok by simp
    show "List.find (\<lambda>c. ic_mergeRecordingId c = Some (rec_id (mp_recording ?p))) (rd_calls (it_db foreign_state)) =
        Some (hd (rd_calls (it_db foreign_state)))" by (simp add: foreign_state_def sample_resolution_def merge_payload_def)
  qed (use x in \<open>simp_all add: foreign_state_def sample_resolution_def merge_env_def no_search_def\<close>)
  then have "call_accountId x \<noteq> Some ''b1''" by (auto simp: foreign_state_def sample_resolution_def new_account_def)
  with h ok x show ?thesis by (auto simp: foreign_state_def sample_resolution_def)
qed

definition event_state :: "string list MergeIntake" where
  "event_state = merge_state\<lparr> mi_intake := (mi_intake merge_state)\<lparr> it_db := sample_resolution\<lparr> rd_accounts := [sample_account ''a1'' ''org'' ''Acme'' None],
     rd_events := [\<lparr> se_id = ''e1'', se_accountId = ''a1'', se_opportunityId = Some ''o1'', se_stageName = Some ''Demo'' \<rparr>] \<rparr> \<rparr> \<rparr>"

theorem repeated_stage_is_lost_witness:
  "handleCRMOpportunityEvent (merge_env 7) ''org'' (merge_payload ''opportunity.updated'') event_state = (False, event_state)"
  by (rule repeated_stage_is_lost [where e = "hd (rd_events (it_db (mi_intake event_state)))" and a = "sample_account ''a1'' ''org'' ''Acme'' None"])
    (simp_all add: event_state_def merge_payload_def sample_account_def new_account_def)

end
