(* ===== verification/Spec2Isabelle.thy ===== *)
theory Spec2Isabelle
  imports Response_Cache Tag_Cache Approval Usage_Witness Merge_Tenancy Rate_Limiter Auth_Witness
    Scrub_Publishing Transcript_Merge Api_Keys Billing Billing_Lifecycle Usage_Reporter Http_Limits
    Impersonation Entity_Resolution Resolution_Review Call_Webhooks Call_Delivery Merge_Webhook
    Merge_Delivery Security_Policy Transcripts Pii_Masker
begin

text \<open>
  \<^bold>\<open>StoryEngine: a verification development.\<close> The program is the TypeScript back end of a multi-tenant
  service that turns call transcripts into customer stories and publishes them as landing pages. Paths
  below are relative to the repository.

  \<^bold>\<open>Parts and how they interact.\<close> A request first passes the middleware chain of \<open>src/app.ts\<close>:
  development login, session (\<open>src/middleware/session-auth.ts\<close>, \<open>src/services/auth.ts\<close>), token
  (\<open>auth.ts\<close>), organization, CSRF and the organization's security policy (\<open>security-policy.ts\<close>); login,
  invitation, logout and SCIM (\<open>src/api/auth-routes.ts\<close>, \<open>src/services/scim.ts\<close>) create and end sessions. A
  handler under \<open>src/api/\<close> then runs the guards of
  \<open>src/middleware/permissions.ts\<close>. They ask \<open>src/services/policy-engine.ts\<close>, which combines the role
  policy of \<open>src/services/role-profiles.ts\<close>, the account scopes of \<open>src/services/account-access.ts\<close> and
  the permissions granted to the user. The handler then calls the landing-page editor
  (\<open>src/services/landing-page-editor*.ts\<close>), directly or, where the organization's approval policy
  (\<open>src/services/publish-approval-policy.ts\<close>) says so, after the reviews of
  \<open>src/services/landing-page-approval.ts\<close> and \<open>src/api/landing-page/publish-routes-approvals.ts\<close>; a
  publication may also wait in a queue (\<open>src/services/scheduled-page-publish.ts\<close>). Every publication is
  scrubbed, checked for leaked identifiers, and appended to a version history that can be rolled back.
  \<open>src/services/lifecycle-stage*.ts\<close> derives the stage of stories and pages from pages and approvals.
  Calls to language models go through \<open>src/services/tracked-ai-client.ts\<close>, which asks the usage tracker
  (\<open>src/services/ai-usage-*.ts\<close>) for limits and balance before a call and charges it afterwards; the tagger waits for
  \<open>src/services/rate-limiter.ts\<close> before each call. Duplicate
  accounts are merged, and merges undone, by \<open>src/services/account-merge.ts\<close> behind the handlers of
  \<open>src/api/account-merge-routes.ts\<close>.
  \<open>src/services/transcript-processor.ts\<close> cuts the transcript of a call into chunks and stores them with personal data
  masked (\<open>src/middleware/pii-masker.ts\<close>); \<open>src/services/transcript-merger.ts\<close> writes the calls of an account
  into one document. What leaves the service without the customer's name goes through
  \<open>src/services/company-scrubber.ts\<close>.
  Calls arrive through the webhooks under \<open>src/webhooks/\<close>, are matched with an account by
  \<open>src/services/entity-resolution.ts\<close> or by people in its review queue, and queued for processing. In front of the paid
  routes \<open>src/middleware/billing.ts\<close> asks whether the organization has a plan, a trial or a subscription; Stripe's webhook
  keeps that up to date and \<open>src/services/usage-reporter.ts\<close> reports the minutes used. Third-party clients come with an API key
  (\<open>src/middleware/api-key-auth.ts\<close>), support staff may act as a user of the organization
  (\<open>src/middleware/support-impersonation.ts\<close>), and \<open>src/middleware/rate-limiter.ts\<close> limits requests per address.
  Next to this stand the in-memory structures: the response cache, the tag cache of the tagger, and
  the idempotency window of the webhooks.

  \<^bold>\<open>Theories.\<close>
  \<^item> \<open>Prelude\<close>: type names, the table operations the handlers use (\<open>updateMany\<close>, \<open>deleteMany\<close>, upsert,
    \<open>findFirst\<close> become functions on lists of rows) and the lemmas on them.
  \<^item> \<open>Js_Map\<close>: JavaScript's insertion-ordered \<open>Map\<close>, with the locale \<open>ordered_map\<close> as its contract; the
    two caches and the de-duplication windows are built on it.
  \<^item> \<open>Response_Cache\<close> (\<open>src/lib/response-cache.ts\<close>), \<open>Tag_Cache\<close> (\<open>src/services/tag-cache.ts\<close>),
    \<open>Dedup\<close> (\<open>src/lib/webhook-idempotency.ts\<close>): capacity, expiry, retention and at-most-once acceptance.
    \<open>getOrSet\<close> is split at its \<open>await\<close>, so that the bound holds for every interleaving of requests. The
    locale \<open>ttl_dedup\<close> is the contract of a window that remembers keys for a time.
  \<^item> \<open>Schema\<close> (\<open>prisma/schema.prisma\<close>): a record for every table used, an enumeration for every enum.
  \<^item> \<open>Role_Profiles\<close> (\<open>src/services/role-profiles.ts\<close>): the presets, the effective policy and the assignment
    of a profile, which replaces the user's grants and limits.
  \<^item> \<open>Account_Access\<close> (\<open>src/services/account-access.ts\<close>): the per-account check and the listing, which the
    locale \<open>account_scope\<close> relates; grants, revocation and the CRM report sync.
  \<^item> \<open>Policy_Engine\<close> (\<open>src/services/policy-engine.ts\<close>, \<open>src/middleware/permissions.ts\<close>): the decision
    procedure and its specification as a conjunction of gates, the guards and the permission manager.
  \<^item> \<open>Lifecycle\<close> (\<open>src/services/lifecycle-stage.ts\<close>, \<open>lifecycle-stage-service.ts\<close>,
    \<open>publish-approval-policy.ts\<close>): stages, the latest approval request and the policy in force.
  \<^item> \<open>Company_Text\<close>: matching at word boundaries, normal forms of company names and slugs.
  \<^item> \<open>Landing_Page\<close> (\<open>src/services/landing-page-editor.ts\<close>, \<open>-helpers.ts\<close>, \<open>-admin.ts\<close>): every operation on
    pages, their versions and edits, and the two views of a page.
  \<^item> \<open>Publishing\<close>: what the public view of a published page may contain.
  \<^item> \<open>Page_History\<close>: sequences of page operations (\<open>run_pages\<close>), the version history with the locale
    \<open>version_log\<close>, the publication dates of stories, concurrent edits and scheduled publication.
  \<^item> \<open>Approval\<close> (\<open>src/services/landing-page-approval.ts\<close>, \<open>src/api/landing-page/\<close>): the handlers that
    publish, review, withdraw, roll back and schedule, with their answers.
  \<^item> \<open>Utc_Calendar\<close>: the days and months of JavaScript's UTC dates and the usage windows built on them; the
    locale \<open>time_window\<close> is the contract of a window that holds the present and moves forward.
  \<^item> \<open>Ai_Usage\<close> (\<open>src/services/ai-usage-logic.ts\<close>, \<open>ai-usage-tracker.ts\<close>, \<open>ai-usage-alerts.ts\<close>,
    \<open>tracked-ai-client.ts\<close>): limits, balances, charges and notifications. \<open>Usage_Ledger\<close>: the balance is the
    sum of its transactions, the limits bound what sequential calls use, a charge key is charged once a
    day (an interpretation of \<open>ttl_dedup\<close>), notifications are sent once. \<open>Usage_Witness\<close>: concrete runs.
  \<^item> \<open>Account_Merge\<close> (\<open>src/services/account-merge.ts\<close>): preview, merge and undo, with the keys and foreign
    keys of the tables that a statement of the merge can violate. \<open>Merge_Routes\<close>: the handlers.
    \<open>Merge_Integrity\<close>: sequences of merges and undos keep keys and references intact. \<open>Merge_Tenancy\<close>: the
    handlers change nothing outside the caller's organization; concrete merges.
  \<^item> \<open>Rate_Limiter\<close> (\<open>src/services/rate-limiter.ts\<close>): the window of requests and tokens and the queue of
    callers waiting for it, as a step relation of calls and timers. The locale \<open>admission\<close> is the contract
    of a step that releases callers within the limits; calls and the timer are its interpretations.
  \<^item> \<open>Sessions\<close> (\<open>src/services/auth.ts\<close>, \<open>src/middleware/session-auth.ts\<close>, \<open>auth.ts\<close>, \<open>dev-auth.ts\<close>,
    \<open>require-organization.ts\<close>, \<open>csrf-protection.ts\<close>, \<open>src/services/scim.ts\<close>): who a request is, and how sessions come and go.
    \<open>Security_Policy\<close> (\<open>src/middleware/security-policy.ts\<close>): address ranges, MFA and session age, and
    the chain as a whole. \<open>Auth_Routes\<close> (\<open>src/api/auth-routes.ts\<close>): login and invitation as steps on the
    tables, with what no sequence of them can do. \<open>Auth_Witness\<close>: concrete runs.
  \<^item> \<open>Js_Regex\<close>, \<open>Regex_Replace\<close>: the regular expressions of ECMAScript as a backtracking matcher (\<open>rx_match\<close>, the
    list of all ways to match, in the order in which they are tried), \<open>RegExp.exec\<close> with \<open>lastIndex\<close>,
    \<open>String.match\<close> and \<open>String.replace\<close> with replacement templates, and what replacing every match at word boundaries removes.
  \<^item> \<open>Company_Scrubber\<close> (\<open>src/services/company-scrubber.ts\<close>): terms, domains, contacts and attributions.
    \<open>Scrub_Publishing\<close>: the scrubber in the place of the parameter of \<open>Landing_Page.publish\<close>.
  \<^item> \<open>Pii_Masker\<close> (\<open>src/middleware/pii-masker.ts\<close>), \<open>Transcripts\<close> (\<open>src/services/transcript-processor.ts\<close>),
    \<open>Transcript_Merge\<close> (\<open>src/services/transcript-merger.ts\<close>): masking, chunks and merged documents.
  \<^item> \<open>Api_Keys\<close> (\<open>src/middleware/api-key-auth.ts\<close>, \<open>src/api/api-key-routes.ts\<close>): authentication of third-party
    clients by key and the handlers for keys, as a step relation of the stages of concurrent requests.

  \<^item> \<open>Billing\<close>, \<open>Billing_Lifecycle\<close> (\<open>src/middleware/billing.ts\<close>, \<open>src/config/stripe-plans.ts\<close>): the gate, checkout and portal, and
    the events of Stripe as steps on the tables of organizations and subscriptions; what no sequence of them can do, and which
    events are lost. Stripe is a parameter, the statements of an event are not a transaction.
  \<^item> \<open>Usage_Reporter\<close> (\<open>src/services/usage-reporter.ts\<close>): the minutes of a day and their report, with the failures between them.
  \<^item> \<open>Http_Limits\<close> (\<open>src/middleware/rate-limiter.ts\<close>): requests per address in memory and with Redis. \<open>Impersonation\<close>
    (\<open>src/middleware/support-impersonation.ts\<close>): whom a support token makes of a request, and that it only reads.
  \<^item> \<open>Entity_Resolution\<close> (\<open>src/services/entity-resolution.ts\<close>, \<open>entity-resolution-queue.ts\<close>,
    \<open>src/api/entity-resolution-routes.ts\<close>): the resolver and the review queue. \<open>Resolution_Review\<close>: tenants, confidence, and how
    the two halves teach and contradict each other. The fuzzy index is a parameter.
  \<^item> \<open>Call_Webhooks\<close> (\<open>src/webhooks/gong-webhook.ts\<close>, \<open>grain-webhook.ts\<close>, \<open>src/lib/webhook-security.ts\<close>,
    \<open>src/lib/queue-policy.ts\<close>), \<open>Merge_Webhook\<close> (\<open>src/webhooks/merge-webhook.ts\<close>): the handlers, from the signature to the queued job.
    \<open>Call_Delivery\<close>: one call for a recording however deliveries overlap (the look-up and the insertion are separate steps), lost
    and replayed deliveries. \<open>Merge_Delivery\<close>: tenants and lost events of the unified webhook.

  \<^bold>\<open>Modelling decisions.\<close> A table is the list of its rows; theorems hold for every order of them. Ids
  made by the database and the time of the clock are arguments. Thrown errors and early answers are values
  of sum types. Times are milliseconds as unbounded integers. An operation is one atomic step except
  where its interleaving matters (\<open>rc_begin\<close>/\<open>rc_finish\<close>, \<open>update_read\<close>/\<open>update_write\<close>,
  \<open>chat_guard\<close>/\<open>chat_seen\<close>/\<open>chat_charge\<close>). Functions are total, except that the loop around
  \<open>RegExp.exec\<close> (\<open>exec_loop\<close>) is partial, since it may run forever on an empty match: \<open>maskPII_returns\<close> shows that it does not.
  The only fuel is the number of repetitions \<open>reps\<close> may make, the length of the rest of the text; every
  repetition that counts consumes a character, so more changes nothing (lemma \<open>reps_fuel\<close>). Characters are the code units
  0 to 255; the em dash of a document is its UTF-8 bytes. Float
  columns and quotients are exact reals. A unique key or a foreign key of the schema is checked
  where a statement of the modelled code can violate it. Third-party code (Redis, SHA-256, password hashing, ICU's
  \<open>localeCompare\<close>, the CRM passthrough, the identity
  provider, the parser of URLs, the e-mail validator) is an argument of the definitions, and the
  theorems hold for every choice of it unless a hypothesis is stated. The page operations take the scrubber as an argument; \<open>Scrub_Publishing\<close> supplies it.

  \<^bold>\<open>Not modelled.\<close> The Express and Prisma plumbing, audit logging, notifications and e-mail, listings
  and dashboards, the bodies of the calls to language models and to payment and CRM services, the polling of those
  services (\<open>src/integrations/\<close>), and the React front end.
\<close>

end
